(* ===== verification/Prelude.thy ===== *)
theory Prelude
  imports Complex_Main "HOL-Library.Word" "HOL-Library.Log_Nat"
begin

text \<open>
  Shared vocabulary of the development: the machine words of the C++ code, the collections the
  component proofs use, and generic facts on bit fields, indices modulo eight and lists.
  Nothing here models code.
\<close>

unbundle bit_operations_syntax

type_synonym u8 = "8 word"
type_synonym u16 = "16 word"
type_synonym u32 = "32 word"
type_synonym u64 = "64 word"

named_theorems frame_simps "what an operation leaves unchanged"
named_theorems stack_simps "the abstract register stack after an operation"

section \<open>Bit fields of sixteen-bit words\<close>

text \<open>A two-bit field at position \<open>2 * r\<close>, as in the x87 tag word.\<close>

definition field2 :: "u16 \<Rightarrow> nat \<Rightarrow> u16" where
  "field2 w r = drop_bit (r * 2) w AND 3"

lemma bit_three_int: "bit (3::int) n \<longleftrightarrow> n < 2"
  using bit_mask_iff [of 2 n, where 'a = int] by (simp add: mask_eq_exp_minus_1)

lemma bit_seven_int: "bit (7::int) n \<longleftrightarrow> n < 3"
  using bit_mask_iff [of 3 n, where 'a = int] by (simp add: mask_eq_exp_minus_1)

lemma bit_topmask_int: "bit (0x3800::int) n \<longleftrightarrow> 11 \<le> n \<and> n < 14"
proof -
  have "(0x3800::int) = push_bit 11 7" by simp
  also have "bit \<dots> n \<longleftrightarrow> 11 \<le> n \<and> n < 14"
    by (subst bit_push_bit_iff_int) (auto simp: bit_seven_int)
  finally show ?thesis .
qed

lemmas mask_bits = bit_three_int bit_seven_int bit_topmask_int

lemma bit_three16: "bit (3::u16) n \<longleftrightarrow> n < 2"
  and bit_seven16: "bit (7::u16) n \<longleftrightarrow> n < 3"
  and bit_topmask: "bit (0x3800::u16) n \<longleftrightarrow> 11 \<le> n \<and> n < 14"
  by (auto simp: bit_numeral_word_iff mask_bits)

lemma bit_field2: "bit (field2 w r) n \<longleftrightarrow> n < 2 \<and> bit w (r * 2 + n)"
  by (auto simp: field2_def bit_simps mask_bits add.commute dest: bit_imp_le_length)

lemma field2_clear:
  assumes "r < 8" "r' < 8"
  shows "field2 (w AND NOT (push_bit (r * 2) 3)) r' = (if r = r' then 0 else field2 w r')"
proof (rule bit_word_eqI)
  fix n assume "n < LENGTH(16)"
  show "bit (field2 (w AND NOT (push_bit (r * 2) 3)) r') n =
        bit (if r = r' then 0 else field2 w r') n"
    using assms by (auto simp: bit_field2 bit_simps mask_bits)
qed

lemma field2_set:
  assumes "r < 8" "r' < 8" "t AND 3 = t"
  shows "field2 (w OR push_bit (r * 2) t) r' = (if r = r' then field2 w r OR t else field2 w r')"
proof (rule bit_word_eqI)
  have t: "bit t n \<Longrightarrow> n < 2" for n
    using assms(3) by (metis bit_and_iff bit_three16)
  fix n assume "n < LENGTH(16)"
  show "bit (field2 (w OR push_bit (r * 2) t) r') n =
        bit (if r = r' then field2 w r OR t else field2 w r') n"
    using assms(1,2) by (auto simp: bit_field2 bit_simps dest: t)
qed

lemma field2_le: "unat (field2 w r) < 4"
proof -
  have "field2 w r \<le> 3" by (simp add: field2_def word_and_le1)
  then show ?thesis by (simp add: word_le_nat_alt)
qed

section \<open>The three-bit field at bit eleven\<close>

definition top3 :: "u16 \<Rightarrow> u16" where
  "top3 w = drop_bit 11 w AND 7"

lemma bit_top3: "bit (top3 w) n \<longleftrightarrow> n < 3 \<and> bit w (11 + n)"
  by (auto simp: top3_def bit_simps mask_bits add.commute dest: bit_imp_le_length)

lemma top3_le: "unat (top3 w) < 8"
proof -
  have "top3 w \<le> 7" by (simp add: top3_def word_and_le1)
  then show ?thesis by (simp add: word_le_nat_alt)
qed

text \<open>A mask that touches none of the three bits.\<close>

definition topfree :: "u16 \<Rightarrow> bool" where
  "topfree m \<longleftrightarrow> m AND 0x3800 = 0"

lemma topfree_or [simp]: "topfree (a OR b) \<longleftrightarrow> topfree a \<and> topfree b"
  by (simp add: topfree_def bit.conj_disj_distrib2 or_eq_0_iff)

lemma top3_clear [simp]: "topfree m \<Longrightarrow> top3 (w AND NOT m) = top3 w"
proof (rule bit_word_eqI)
  assume "topfree m"
  then have m: "m AND 0x3800 = 0" by (simp add: topfree_def)
  fix n assume "n < LENGTH(16)"
  have "\<not> bit m (11 + n)" if "n < 3"
    using that arg_cong [OF m, of "\<lambda>x. bit x (11 + n)"] by (simp add: bit_simps mask_bits)
  then show "bit (top3 (w AND NOT m)) n = bit (top3 w) n"
    by (auto simp: bit_top3 bit_simps)
qed

lemma top3_set [simp]: "topfree m \<Longrightarrow> top3 (w OR m) = top3 w"
proof (rule bit_word_eqI)
  assume "topfree m"
  then have m: "m AND 0x3800 = 0" by (simp add: topfree_def)
  fix n assume "n < LENGTH(16)"
  have "\<not> bit m (11 + n)" if "n < 3"
    using that arg_cong [OF m, of "\<lambda>x. bit x (11 + n)"] by (simp add: bit_simps mask_bits)
  then show "bit (top3 (w OR m)) n = bit (top3 w) n"
    by (auto simp: bit_top3 bit_simps)
qed

lemma top3_replace: "t AND 7 = t \<Longrightarrow> top3 (w AND NOT 0x3800 OR push_bit 11 t) = t"
proof (rule bit_word_eqI)
  assume t: "t AND 7 = t"
  have t': "bit t n \<Longrightarrow> n < 3" for n
    using t by (metis bit_and_iff bit_seven16)
  fix n assume "n < LENGTH(16)"
  then show "bit (top3 (w AND NOT 0x3800 OR push_bit 11 t)) n = bit t n"
    by (auto simp: bit_top3 bit_simps mask_bits dest: t')
qed

section \<open>Indices modulo eight\<close>

lemma unat_and7: "unat (x AND 7 :: 'a::len word) = unat x mod 8" if "3 \<le> LENGTH('a)"
proof -
  have "(7::'a word) = mask 3" by (simp add: mask_eq_exp_minus_1)
  then have "x AND 7 = take_bit 3 x" by (simp add: take_bit_eq_mask)
  moreover have "unat (take_bit 3 x) = take_bit 3 (unat x)"
    by (rule unsigned_take_bit_eq)
  ultimately show ?thesis by (simp add: take_bit_eq_mod [where 'a = nat])
qed

lemma mod8_pred_succ: "((t + 7) mod 8 + Suc i) mod 8 = (t + i) mod (8::nat)"
proof -
  have "((t + 7) mod 8 + Suc i) mod 8 = (t + i + 8) mod 8"
    using mod_add_left_eq [of "t + 7" 8 "Suc i"] by (simp add: algebra_simps)
  then show ?thesis by simp
qed

lemma mod8_if: "a < 16 \<Longrightarrow> a mod 8 = (if a < 8 then a else a - (8::nat))"
  by (simp add: mod_if)

lemma mod8_inj: "i < 8 \<Longrightarrow> j < 8 \<Longrightarrow> t < 8 \<Longrightarrow> (i + t) mod 8 = (j + t) mod 8 \<longleftrightarrow> i = (j::nat)"
  by (simp add: mod8_if) arith

section \<open>Width changes\<close>

lemma unat_ucast16_32 [simp]: "unat (ucast (x::u16) :: u32) = unat x"
proof -
  have "unat x < 2 ^ 32" using unsigned_less [of x, where ?'a = nat] by simp
  then show ?thesis by (simp add: unsigned_ucast_eq take_bit_nat_eq_self)
qed

lemma unat_ucast32_16: "unat (x::u32) < 2 ^ 16 \<Longrightarrow> unat (ucast x :: u16) = unat x"
  by (simp add: unsigned_ucast_eq take_bit_nat_eq_self)

lemma unat_of_nat_small [simp]: "n < 8 \<Longrightarrow> unat (of_nat n :: u32) = n"
  by (simp add: unat_of_nat)

section \<open>Lists\<close>

lemma map_upt8: "map f [0..<8] = [f 0, f 1, f 2, f 3, f 4, f 5, f 6, f 7]"
  by (simp add: upt_conv_Cons numeral_eq_Suc)

lemma less8_cases:
  "(i::nat) < 8 \<longleftrightarrow> i = 0 \<or> i = 1 \<or> i = 2 \<or> i = 3 \<or> i = 4 \<or> i = 5 \<or> i = 6 \<or> i = 7"
  by auto

end
