(* ===== verification/Fp64.thy ===== *)
theory Fp64
  imports Prelude
begin

text \<open>
  IEEE-754 binary64 and binary32 values as bit patterns, with the arithmetic, comparison,
  rounding and conversion operations of C++ \<open>double\<close> and \<open>float\<close> that the program uses. The
  translated code runs on AArch64 in round-to-nearest-even with the default-NaN mode off, so an
  operation with a NaN operand returns that operand quieted (a signalling one first) and an
  invalid operation returns the positive default NaN. All operations are executable: a finite
  value is read as a rational number, the exact result is rounded by \<open>round_bits\<close>.
  The lemmas show that rounding is the identity on representable values, and from it the
  identities the optimiser relies on.
\<close>

type_synonym fp64 = "64 word"
type_synonym fp32 = "32 word"

section \<open>Rounding a rational number to a binary format\<close>

definition pow2 :: "int \<Rightarrow> rat" where
  "pow2 e = (if 0 \<le> e then 2 ^ nat e else 1 / 2 ^ nat (- e))"

definition ilog2 :: "rat \<Rightarrow> int" where
  "ilog2 q = (case quotient_of q of (a, b) \<Rightarrow>
     let k = bitlen a - bitlen b in if pow2 k \<le> q then k else k - 1)"

definition rne :: "rat \<Rightarrow> int" where
  "rne q = (let f = \<lfloor>q\<rfloor>; d = q - of_int f in
     if d < 1/2 then f else if d > 1/2 then f + 1 else if even f then f else f + 1)"

text \<open>
  The magnitude bits of \<open>q\<close> in a format with \<open>m\<close> fraction bits whose least positive value is
  \<open>2^umin\<close>: the unit in the last place is \<open>2^u\<close>, the significand is rounded to an integer \<open>n\<close>,
  and a carry out of the significand moves into the exponent field by itself.
\<close>

definition round_bits :: "nat \<Rightarrow> int \<Rightarrow> rat \<Rightarrow> int" where
  "round_bits m umin q =
     (if q = 0 then 0 else
      let u = max (ilog2 q - int m) umin; n = rne (q / pow2 u)
      in (u - umin) * 2 ^ m + n)"

section \<open>Classification and value of a binary64\<close>

definition fp_sign :: "fp64 \<Rightarrow> bool" where
  "fp_sign x = bit x 63"

definition fp_magbits :: "fp64 \<Rightarrow> int" where
  "fp_magbits x = uint x mod 2 ^ 63"

definition fp_exp :: "fp64 \<Rightarrow> int" where
  "fp_exp x = fp_magbits x div 2 ^ 52"

definition fp_frac :: "fp64 \<Rightarrow> int" where
  "fp_frac x = fp_magbits x mod 2 ^ 52"

definition fp_zero :: fp64 where "fp_zero = 0"
definition fp_mzero :: fp64 where "fp_mzero = 0x8000000000000000"
definition fp_one :: fp64 where "fp_one = 0x3FF0000000000000"
definition fp_inf :: fp64 where "fp_inf = 0x7FF0000000000000"
definition fp_minf :: fp64 where "fp_minf = 0xFFF0000000000000"
definition fp_qnan :: fp64 where "fp_qnan = 0x7FF8000000000000"

definition fp_isnan :: "fp64 \<Rightarrow> bool" where
  "fp_isnan x \<longleftrightarrow> fp_magbits x > 0x7FF0000000000000"

definition fp_isinf :: "fp64 \<Rightarrow> bool" where
  "fp_isinf x \<longleftrightarrow> fp_magbits x = 0x7FF0000000000000"

definition fp_iszero :: "fp64 \<Rightarrow> bool" where
  "fp_iszero x \<longleftrightarrow> fp_magbits x = 0"

definition fp_issnan :: "fp64 \<Rightarrow> bool" where
  "fp_issnan x \<longleftrightarrow> fp_isnan x \<and> fp_frac x < 0x8000000000000"

abbreviation fp_finite :: "fp64 \<Rightarrow> bool" where
  "fp_finite x \<equiv> fp_magbits x < 0x7FF0000000000000"

definition fp_mag :: "fp64 \<Rightarrow> rat" where
  "fp_mag x = (if fp_exp x = 0 then of_int (fp_frac x) * pow2 (- 1074)
               else of_int (2 ^ 52 + fp_frac x) * pow2 (fp_exp x - 1075))"

definition fp_val :: "fp64 \<Rightarrow> rat" where
  "fp_val x = (if fp_sign x then - fp_mag x else fp_mag x)"

definition fp_withsign :: "bool \<Rightarrow> int \<Rightarrow> fp64" where
  "fp_withsign s b = word_of_int ((if s then 2 ^ 63 else 0) + b)"

definition fp_round :: "bool \<Rightarrow> rat \<Rightarrow> fp64" where
  "fp_round s q = fp_withsign s (min (round_bits 52 (- 1074) q) 0x7FF0000000000000)"

section \<open>Sign operations and comparisons\<close>

definition fp_neg :: "fp64 \<Rightarrow> fp64" where
  "fp_neg x = fp_withsign (\<not> fp_sign x) (fp_magbits x)"

definition fp_abs :: "fp64 \<Rightarrow> fp64" where
  "fp_abs x = fp_withsign False (fp_magbits x)"

definition fp_copysign :: "fp64 \<Rightarrow> fp64 \<Rightarrow> fp64" where
  "fp_copysign x y = fp_withsign (fp_sign y) (fp_magbits x)"

text \<open>Ordered comparisons read a pattern as sign and magnitude; both zeros are equal.\<close>

definition fp_key :: "fp64 \<Rightarrow> int" where
  "fp_key x = (if fp_sign x then - fp_magbits x else fp_magbits x)"

definition fp_lt :: "fp64 \<Rightarrow> fp64 \<Rightarrow> bool" where
  "fp_lt x y \<longleftrightarrow> \<not> fp_isnan x \<and> \<not> fp_isnan y \<and> fp_key x < fp_key y"

definition fp_le :: "fp64 \<Rightarrow> fp64 \<Rightarrow> bool" where
  "fp_le x y \<longleftrightarrow> \<not> fp_isnan x \<and> \<not> fp_isnan y \<and> fp_key x \<le> fp_key y"

definition fp_eq :: "fp64 \<Rightarrow> fp64 \<Rightarrow> bool" where
  "fp_eq x y \<longleftrightarrow> \<not> fp_isnan x \<and> \<not> fp_isnan y \<and> fp_key x = fp_key y"

section \<open>Arithmetic\<close>

definition fp_quiet :: "fp64 \<Rightarrow> fp64" where
  "fp_quiet x = x OR 0x0008000000000000"

definition fp_nan2 :: "fp64 \<Rightarrow> fp64 \<Rightarrow> fp64" where
  "fp_nan2 x y = (if fp_issnan x then fp_quiet x else if fp_issnan y then fp_quiet y
                  else if fp_isnan x then x else y)"

definition fp_add :: "fp64 \<Rightarrow> fp64 \<Rightarrow> fp64" where
  "fp_add x y =
     (if fp_isnan x \<or> fp_isnan y then fp_nan2 x y
      else if fp_isinf x then (if fp_isinf y \<and> fp_sign x \<noteq> fp_sign y then fp_qnan else x)
      else if fp_isinf y then y
      else let v = fp_val x + fp_val y in
        if v = 0 then (if fp_sign x \<and> fp_sign y then fp_mzero else fp_zero)
        else fp_round (v < 0) \<bar>v\<bar>)"

definition fp_sub :: "fp64 \<Rightarrow> fp64 \<Rightarrow> fp64" where
  "fp_sub x y = (if fp_isnan x \<or> fp_isnan y then fp_nan2 x y else fp_add x (fp_neg y))"

definition fp_mul :: "fp64 \<Rightarrow> fp64 \<Rightarrow> fp64" where
  "fp_mul x y =
     (if fp_isnan x \<or> fp_isnan y then fp_nan2 x y
      else if fp_isinf x \<and> fp_iszero y \<or> fp_iszero x \<and> fp_isinf y then fp_qnan
      else if fp_isinf x \<or> fp_isinf y then fp_withsign (fp_sign x \<noteq> fp_sign y) 0x7FF0000000000000
      else fp_round (fp_sign x \<noteq> fp_sign y) (fp_mag x * fp_mag y))"

definition fp_div :: "fp64 \<Rightarrow> fp64 \<Rightarrow> fp64" where
  "fp_div x y =
     (if fp_isnan x \<or> fp_isnan y then fp_nan2 x y
      else if fp_isinf x \<and> fp_isinf y \<or> fp_iszero x \<and> fp_iszero y then fp_qnan
      else if fp_isinf x \<or> fp_iszero y then fp_withsign (fp_sign x \<noteq> fp_sign y) 0x7FF0000000000000
      else if fp_isinf y then fp_withsign (fp_sign x \<noteq> fp_sign y) 0
      else fp_round (fp_sign x \<noteq> fp_sign y) (fp_mag x / fp_mag y))"

text \<open>Integer square root by the digit recurrence; the remainder enters as half a unit.\<close>

fun isqrt :: "nat \<Rightarrow> nat" where
  "isqrt n = (if n = 0 then 0
              else let r = 2 * isqrt (n div 4) in if (r + 1) * (r + 1) \<le> n then r + 1 else r)"

declare isqrt.simps [simp del]

definition sqrt_mag :: "rat \<Rightarrow> rat" where
  "sqrt_mag q =
     (let t = nat (64 - ilog2 q div 2); v = q * 4 ^ t; s = isqrt (nat \<lfloor>v\<rfloor>)
      in (if of_nat (s * s) = v then of_nat s else of_nat s + 1/2) / 2 ^ t)"

definition fp_sqrt :: "fp64 \<Rightarrow> fp64" where
  "fp_sqrt x =
     (if fp_isnan x then fp_quiet x
      else if fp_iszero x then x
      else if fp_sign x then fp_qnan
      else if fp_isinf x then x
      else fp_round False (sqrt_mag (fp_mag x)))"

text \<open>Fused multiply-add \<open>c + x * y\<close>, rounded once.\<close>

definition fp_fma :: "fp64 \<Rightarrow> fp64 \<Rightarrow> fp64 \<Rightarrow> fp64" where
  "fp_fma c x y =
     (let sp = (fp_sign x \<noteq> fp_sign y);
          inv = (fp_isinf x \<and> fp_iszero y \<or> fp_iszero x \<and> fp_isinf y) in
      if fp_isnan c \<or> fp_isnan x \<or> fp_isnan y then
        (if fp_issnan c then fp_quiet c
         else if fp_issnan x then fp_quiet x
         else if fp_issnan y then fp_quiet y
         else if fp_isnan c then (if inv then fp_qnan else c)
         else if fp_isnan x then x else y)
      else if inv then fp_qnan
      else if fp_isinf x \<or> fp_isinf y then
        (if fp_isinf c \<and> fp_sign c \<noteq> sp then fp_qnan else fp_withsign sp 0x7FF0000000000000)
      else if fp_isinf c then c
      else let v = fp_val x * fp_val y + fp_val c in
        if v = 0 then (if sp \<and> fp_sign c then fp_mzero else fp_zero)
        else fp_round (v < 0) \<bar>v\<bar>)"

section \<open>Integers and rounding to integers\<close>

definition fp_of_int :: "int \<Rightarrow> fp64" where
  "fp_of_int i = fp_round (i < 0) (of_int \<bar>i\<bar>)"

text \<open>The C++ conversion to an integer truncates; the callers check the range first.\<close>

definition fp_trunc_int :: "fp64 \<Rightarrow> int" where
  "fp_trunc_int x = (if fp_sign x then - \<lfloor>fp_mag x\<rfloor> else \<lfloor>fp_mag x\<rfloor>)"

definition fp_rint :: "(rat \<Rightarrow> int) \<Rightarrow> fp64 \<Rightarrow> fp64" where
  "fp_rint f x =
     (if fp_isnan x then fp_quiet x
      else if fp_isinf x then x
      else fp_round (fp_sign x) (of_int \<bar>f (fp_val x)\<bar>))"

definition rat_trunc :: "rat \<Rightarrow> int" where
  "rat_trunc q = (if q < 0 then - \<lfloor>- q\<rfloor> else \<lfloor>q\<rfloor>)"

definition fp_floor :: "fp64 \<Rightarrow> fp64" where "fp_floor = fp_rint floor"
definition fp_ceil :: "fp64 \<Rightarrow> fp64" where "fp_ceil = fp_rint ceiling"
definition fp_trunc :: "fp64 \<Rightarrow> fp64" where "fp_trunc = fp_rint rat_trunc"
definition fp_nearbyint :: "fp64 \<Rightarrow> fp64" where "fp_nearbyint = fp_rint rne"

section \<open>Binary32\<close>

definition fp_widen :: "fp32 \<Rightarrow> fp64" where
  "fp_widen x =
     (let b = uint x mod 2 ^ 31; e = b div 2 ^ 23; f = b mod 2 ^ 23; s = bit x 31 in
      if e = 255 then (if f = 0 then fp_withsign s 0x7FF0000000000000
                       else fp_quiet (fp_withsign s (0x7FF0000000000000 + f * 2 ^ 29)))
      else fp_round s (if e = 0 then of_int f * pow2 (- 149)
                       else of_int (2 ^ 23 + f) * pow2 (e - 150)))"

definition fp_narrow :: "fp64 \<Rightarrow> fp32" where
  "fp_narrow x =
     word_of_int ((if fp_sign x then 2 ^ 31 else 0) +
       (if fp_isnan x then 0x7FC00000 + fp_frac x mod 2 ^ 51 div 2 ^ 29
        else if fp_isinf x then 0x7F800000
        else min (round_bits 23 (- 149) (fp_mag x)) 0x7F800000))"

section \<open>Powers of two and the binary logarithm\<close>

lemma pow2_powi: "pow2 e = 2 powi e"
  by (auto simp: pow2_def power_int_def field_simps)

lemma pow2_pos [simp]: "0 < pow2 e"
  by (simp add: pow2_powi)

lemma pow2_nonneg [simp]: "0 \<le> pow2 e"
  by (simp add: pow2_powi)

lemma pow2_neq0 [simp]: "pow2 e \<noteq> 0"
  by (simp add: pow2_powi)

lemma pow2_add: "pow2 (a + b) = pow2 a * pow2 b"
  by (simp add: pow2_powi power_int_add)

lemma pow2_diff: "pow2 (a - b) = pow2 a / pow2 b"
  by (simp add: pow2_powi power_int_diff)

lemma pow2_nat: "pow2 (int n) = 2 ^ n"
  by (simp add: pow2_def)

lemma pow2_strict_mono: "a < b \<Longrightarrow> pow2 a < pow2 b"
proof -
  assume ab: "a < b"
  have "pow2 b = pow2 a * pow2 (int (nat (b - a)))" using ab by (simp flip: pow2_add)
  also have "pow2 (int (nat (b - a))) = 2 ^ nat (b - a)" by (rule pow2_nat)
  finally have "pow2 b = pow2 a * 2 ^ nat (b - a)" .
  moreover have "(1::rat) < 2 ^ nat (b - a)" using ab by (simp add: one_less_power)
  ultimately show ?thesis using mult_strict_left_mono [OF _ pow2_pos, of 1 "2 ^ nat (b - a)" a] by simp
qed

lemma pow2_less_iff: "pow2 a < pow2 b \<longleftrightarrow> a < b"
  using pow2_strict_mono [of a b] pow2_strict_mono [of b a] by (metis less_irrefl less_trans neqE)

lemma pow2_le_iff: "pow2 a \<le> pow2 b \<longleftrightarrow> a \<le> b"
  using pow2_less_iff [of b a] by (simp add: not_less [symmetric])

lemma bitlen_pow2_bounds:
  assumes "0 < a"
  shows "pow2 (bitlen a - 1) \<le> of_int a" and "(of_int a :: rat) < pow2 (bitlen a)"
proof -
  have pos: "0 < bitlen a" using assms bitlen_nonneg [of a] bitlen_eq_zero_iff [of a] by linarith
  have b: "2 ^ nat (bitlen a - 1) \<le> a" "a < 2 ^ nat (bitlen a)"
    using bitlen_bounds [OF assms] by auto
  have "(of_int (2 ^ nat (bitlen a - 1)) :: rat) \<le> of_int a" using b(1) by (simp only: of_int_le_iff)
  then show "pow2 (bitlen a - 1) \<le> of_int a" using pos by (simp add: pow2_def)
  have "(of_int a :: rat) < of_int (2 ^ nat (bitlen a))" using b(2) by (simp only: of_int_less_iff)
  then show "(of_int a :: rat) < pow2 (bitlen a)" using pos by (simp add: pow2_def)
qed

lemma ilog2_bounds:
  assumes "0 < q"
  shows "pow2 (ilog2 q) \<le> q" and "q < pow2 (ilog2 q + 1)"
proof -
  obtain a b where ab: "quotient_of q = (a, b)" by (cases "quotient_of q")
  have b: "0 < b" using quotient_of_denom_pos [OF ab] .
  have q: "q = of_int a / of_int b" using quotient_of_div [OF ab] .
  have a: "0 < a" using assms q b by (simp add: zero_less_divide_iff)
  define k where "k = bitlen a - bitlen b"
  have bb: "pow2 (bitlen b - 1) \<le> of_int b" "(of_int b :: rat) < pow2 (bitlen b)"
    using bitlen_pow2_bounds [OF b] by auto
  have aa: "pow2 (bitlen a - 1) \<le> of_int a" "(of_int a :: rat) < pow2 (bitlen a)"
    using bitlen_pow2_bounds [OF a] by auto
  have "of_int a < pow2 (bitlen a)" by (rule aa)
  also have "pow2 (bitlen a) = pow2 (k + 1) * pow2 (bitlen b - 1)"
    by (simp add: k_def flip: pow2_add)
  also have "\<dots> \<le> pow2 (k + 1) * of_int b" using bb(1) by simp
  finally have up: "q < pow2 (k + 1)" using b by (simp add: q field_simps)
  have "pow2 (k - 1) * of_int b \<le> pow2 (k - 1) * pow2 (bitlen b)" using bb(2) by simp
  also have "\<dots> = pow2 (bitlen a - 1)" by (simp add: k_def flip: pow2_add)
  also have "\<dots> \<le> of_int a" by (rule aa)
  finally have lo: "pow2 (k - 1) \<le> q" using b by (simp add: q field_simps)
  have il: "ilog2 q = (if pow2 k \<le> q then k else k - 1)"
    by (simp add: ilog2_def ab k_def Let_def)
  show "pow2 (ilog2 q) \<le> q" using lo by (simp add: il)
  show "q < pow2 (ilog2 q + 1)" using up by (simp add: il)
qed

lemma ilog2_unique:
  assumes "pow2 k \<le> q" "q < pow2 (k + 1)"
  shows "ilog2 q = k"
proof -
  have q: "0 < q" using assms(1) pow2_pos less_le_trans by blast
  have "pow2 (ilog2 q) < pow2 (k + 1)" using ilog2_bounds(1) [OF q] assms(2) by linarith
  moreover have "pow2 k < pow2 (ilog2 q + 1)" using ilog2_bounds(2) [OF q] assms(1) by linarith
  ultimately show ?thesis by (simp add: pow2_less_iff)
qed

section \<open>Rounding is the identity on representable values\<close>

lemma rne_of_int [simp]: "rne (of_int n) = n"
  by (simp add: rne_def)

lemma round_bits_normal:
  assumes "0 \<le> f" "f < 2 ^ m" "1 \<le> e"
  shows "round_bits m umin (of_int (2 ^ m + f) * pow2 (umin + e - 1)) = e * 2 ^ m + f"
proof -
  define u where "u = umin + e - 1"
  define q where "q = (of_int (2 ^ m + f) :: rat) * pow2 u"
  have pm: "(0::int) < 2 ^ m + f" using assms(1) by (simp add: add_pos_nonneg)
  have q0: "q \<noteq> 0" using pm by (simp add: q_def del: of_int_add)
  have il: "ilog2 q = u + int m"
  proof (rule ilog2_unique)
    have "(2::rat) ^ m \<le> of_int (2 ^ m + f)" using assms(1) by simp
    then show "pow2 (u + int m) \<le> q" by (simp add: q_def pow2_add pow2_nat mult.commute)
    have "2 ^ m + f < 2 ^ Suc m" using assms(2) by simp
    then have "(of_int (2 ^ m + f) :: rat) < of_int (2 ^ Suc m)" by (simp only: of_int_less_iff)
    also have "\<dots> = pow2 (int (Suc m))" by (simp only: pow2_nat) simp
    finally have "q < pow2 (int (Suc m)) * pow2 u" by (simp add: q_def)
    then show "q < pow2 (u + int m + 1)" by (simp add: ac_simps flip: pow2_add)
  qed
  have "max (ilog2 q - int m) umin = u" using assms(3) by (simp add: il u_def)
  moreover have "rne (q / pow2 u) = 2 ^ m + f" unfolding q_def
    by (simp del: of_int_add)
  ultimately have "round_bits m umin q = (u - umin) * 2 ^ m + (2 ^ m + f)"
    using q0 by (simp add: round_bits_def Let_def)
  also have "\<dots> = e * 2 ^ m + f" by (simp add: u_def algebra_simps)
  finally show ?thesis by (simp add: q_def u_def)
qed

lemma round_bits_subnormal:
  assumes "0 \<le> f" "f < 2 ^ m"
  shows "round_bits m umin (of_int f * pow2 umin) = f"
proof (cases "f = 0")
  case True then show ?thesis by (simp add: round_bits_def)
next
  case False
  define q where "q = (of_int f :: rat) * pow2 umin"
  have q0: "0 < q" using False assms(1) by (simp add: q_def)
  have "(of_int f :: rat) < of_int (2 ^ m)" using assms(2) by (simp only: of_int_less_iff)
  then have "(of_int f :: rat) < pow2 (int m)" by (simp add: pow2_nat)
  then have "q < pow2 (umin + int m)" by (simp add: q_def pow2_add mult.commute)
  then have "pow2 (ilog2 q) < pow2 (umin + int m)" using ilog2_bounds(1) [OF q0] by linarith
  then have "max (ilog2 q - int m) umin = umin" by (simp add: pow2_less_iff)
  moreover have "rne (q / pow2 umin) = f" by (simp add: q_def)
  ultimately show ?thesis using q0 by (simp add: round_bits_def Let_def flip: q_def)
qed

lemma fp_magbits_bounds: "0 \<le> fp_magbits x" "fp_magbits x < 2 ^ 63"
  by (simp_all add: fp_magbits_def)

lemma fp_exp_frac: "fp_magbits x = fp_exp x * 2 ^ 52 + fp_frac x"
  by (simp add: fp_exp_def fp_frac_def)

lemma fp_frac_bounds: "0 \<le> fp_frac x" "fp_frac x < 2 ^ 52"
  by (simp_all add: fp_frac_def)

lemma fp_exp_nonneg: "0 \<le> fp_exp x"
  using fp_magbits_bounds(1) [of x] by (simp add: fp_exp_def pos_imp_zdiv_nonneg_iff)

lemma fp_withsign_parts [simp]: "fp_withsign (fp_sign x) (fp_magbits x) = x"
proof -
  have "uint x div 2 ^ 63 = (if fp_sign x then 1 else 0)"
  proof -
    have lt: "uint x < 2 ^ 64" using uint_lt2p [of x] by simp
    have "fp_sign x \<longleftrightarrow> odd (uint x div 2 ^ 63)"
      using bit_uint_iff [of x 63] by (simp add: fp_sign_def bit_iff_odd [where 'a = int])
    moreover have "uint x div 2 ^ 63 = 0 \<or> uint x div 2 ^ 63 = 1"
    proof (cases "uint x < 2 ^ 63")
      case True
      then show ?thesis by (simp add: div_pos_pos_trivial)
    next
      case False
      then have "uint x div 2 ^ 63 = 1" using lt
        by (intro int_div_pos_eq [where r = "uint x - 2 ^ 63"]) auto
      then show ?thesis ..
    qed
    ultimately show ?thesis by auto
  qed
  then have "(if fp_sign x then 2 ^ 63 else 0) + fp_magbits x = uint x"
    using div_mult_mod_eq [of "uint x" "2 ^ 63"] by (auto simp: fp_magbits_def)
  then show ?thesis by (simp add: fp_withsign_def)
qed

lemma round_bits_mag:
  "round_bits 52 (- 1074) (fp_mag x) = fp_magbits x"
proof (cases "fp_exp x = 0")
  case True
  then show ?thesis using round_bits_subnormal [OF fp_frac_bounds [of x], of "- 1074"]
    by (simp add: fp_mag_def fp_exp_frac)
next
  case False
  then have "1 \<le> fp_exp x" using fp_exp_nonneg [of x] by linarith
  from round_bits_normal [OF fp_frac_bounds [of x] this, of "- 1074"] False show ?thesis
    by (simp add: fp_mag_def fp_exp_frac)
qed

lemma fp_round_parts: "fp_finite x \<Longrightarrow> fp_round (fp_sign x) (fp_mag x) = x"
  by (simp add: fp_round_def round_bits_mag min_def)

section \<open>Signs and magnitudes\<close>

lemma fp_withsign_fields [simp]:
  assumes "0 \<le> b" "b < 2 ^ 63"
  shows "fp_sign (fp_withsign s b) = s" and "fp_magbits (fp_withsign s b) = b"
proof -
  have u: "uint (fp_withsign s b) = (if s then 2 ^ 63 else 0) + b"
    unfolding fp_withsign_def uint_word_of_int using assms by (auto simp: mod_pos_pos_trivial)
  show "fp_magbits (fp_withsign s b) = b" using assms by (auto simp: fp_magbits_def u)
  have "fp_sign (fp_withsign s b) \<longleftrightarrow> odd (uint (fp_withsign s b) div 2 ^ 63)"
    using bit_uint_iff [of "fp_withsign s b" 63] by (simp add: fp_sign_def bit_iff_odd [where 'a = int])
  then show "fp_sign (fp_withsign s b) = s" using assms by (auto simp: u)
qed

lemma fp_eqI: "fp_sign x = fp_sign y \<Longrightarrow> fp_magbits x = fp_magbits y \<Longrightarrow> x = y"
proof -
  assume "fp_sign x = fp_sign y" "fp_magbits x = fp_magbits y"
  then have "fp_withsign (fp_sign x) (fp_magbits x) = fp_withsign (fp_sign y) (fp_magbits y)"
    by (simp only:)
  then show ?thesis by simp
qed

lemma fp_neg_fields [simp]: "fp_sign (fp_neg x) = (\<not> fp_sign x)" "fp_magbits (fp_neg x) = fp_magbits x"
  using fp_magbits_bounds [of x] by (simp_all add: fp_neg_def)

lemma fp_abs_fields [simp]: "fp_sign (fp_abs x) = False" "fp_magbits (fp_abs x) = fp_magbits x"
  using fp_magbits_bounds [of x] by (simp_all add: fp_abs_def)

lemma fp_neg_class [simp]:
  "fp_isnan (fp_neg x) = fp_isnan x" "fp_isinf (fp_neg x) = fp_isinf x"
  "fp_iszero (fp_neg x) = fp_iszero x" "fp_issnan (fp_neg x) = fp_issnan x"
  "fp_mag (fp_neg x) = fp_mag x"
  by (simp_all add: fp_isnan_def fp_isinf_def fp_iszero_def fp_issnan_def fp_mag_def fp_exp_def fp_frac_def)

lemma fp_neg_neg [simp]: "fp_neg (fp_neg x) = x"
  by (rule fp_eqI) simp_all

lemma fp_val_neg [simp]: "fp_val (fp_neg x) = - fp_val x"
  by (simp add: fp_val_def)

lemma fp_key_neg [simp]: "fp_key (fp_neg x) = - fp_key x"
  by (simp add: fp_key_def)

lemma fp_mag_nonneg: "0 \<le> fp_mag x"
  using fp_frac_bounds [of x] by (auto simp: fp_mag_def intro!: mult_nonneg_nonneg)

lemma fp_mag_0_iff: "fp_mag x = 0 \<longleftrightarrow> fp_iszero x"
proof -
  have "fp_magbits x = 0" if "fp_mag x = 0"
    using that round_bits_mag [of x] by (simp add: round_bits_def)
  moreover have "fp_mag x = 0" if "fp_magbits x = 0"
    using that by (simp add: fp_mag_def fp_exp_def fp_frac_def)
  ultimately show ?thesis by (auto simp: fp_iszero_def)
qed

lemma fp_val_0_iff: "fp_val x = 0 \<longleftrightarrow> fp_iszero x"
  by (simp add: fp_val_def fp_mag_0_iff)

lemma abs_fp_val [simp]: "\<bar>fp_val x\<bar> = fp_mag x"
  using fp_mag_nonneg [of x] by (simp add: fp_val_def)

lemma fp_val_neg_iff: "fp_val x < 0 \<longleftrightarrow> fp_sign x \<and> \<not> fp_iszero x"
  using fp_mag_nonneg [of x] fp_mag_0_iff [of x] by (auto simp: fp_val_def)

lemma fp_class_cases:
  obtains (nan) "fp_isnan x" "\<not> fp_isinf x" "\<not> fp_iszero x" "\<not> fp_finite x"
  | (inf) "fp_isinf x" "\<not> fp_isnan x" "\<not> fp_iszero x" "\<not> fp_finite x"
  | (zero) "fp_iszero x" "\<not> fp_isnan x" "\<not> fp_isinf x" "fp_finite x"
  | (fin) "fp_finite x" "\<not> fp_isnan x" "\<not> fp_isinf x" "\<not> fp_iszero x"
  by (atomize_elim) (auto simp: fp_isnan_def fp_isinf_def fp_iszero_def)

lemma fp_quiet_qnan: "fp_isnan x \<Longrightarrow> \<not> fp_issnan x \<Longrightarrow> fp_nan2 x y = x \<or> fp_issnan y"
  by (simp add: fp_nan2_def)

lemma fp_const_class [simp]:
  "\<not> fp_isnan fp_one" "\<not> fp_isinf fp_one" "\<not> fp_iszero fp_one" "\<not> fp_issnan fp_one" "\<not> fp_sign fp_one"
  "\<not> fp_isnan fp_zero" "\<not> fp_isinf fp_zero" "fp_iszero fp_zero" "\<not> fp_issnan fp_zero" "\<not> fp_sign fp_zero"
  "\<not> fp_isnan fp_mzero" "\<not> fp_isinf fp_mzero" "fp_iszero fp_mzero" "\<not> fp_issnan fp_mzero" "fp_sign fp_mzero"
  "fp_isnan fp_qnan" "\<not> fp_issnan fp_qnan" "fp_isinf fp_inf" "\<not> fp_sign fp_inf" "fp_isinf fp_minf" "fp_sign fp_minf"
  by code_simp+

lemma fp_mag_one [simp]: "fp_mag fp_one = 1"
  by code_simp

lemma fp_val_consts [simp]: "fp_val fp_one = 1" "fp_val fp_zero = 0" "fp_val fp_mzero = 0"
  by (simp_all add: fp_val_0_iff) (simp add: fp_val_def)

section \<open>Arithmetic identities used by the optimiser\<close>

lemma fp_iszero_eq: "fp_iszero x \<Longrightarrow> x = (if fp_sign x then fp_mzero else fp_zero)"
proof (rule fp_eqI)
  have z: "fp_magbits fp_mzero = 0" "fp_magbits fp_zero = 0" by code_simp+
  assume "fp_iszero x"
  then show "fp_magbits x = fp_magbits (if fp_sign x then fp_mzero else fp_zero)"
    by (simp add: z fp_iszero_def)
qed simp

lemma fp_isinf_eq: "fp_isinf x \<Longrightarrow> fp_withsign (fp_sign x) 0x7FF0000000000000 = x"
  by (metis fp_isinf_def fp_withsign_parts)

lemma fp_isinf_withsign [simp]: "fp_isinf (fp_withsign s 0x7FF0000000000000)"
  by (simp add: fp_isinf_def)

lemma fp_mul_one: "\<not> fp_issnan x \<Longrightarrow> fp_mul x fp_one = x"
  by (cases x rule: fp_class_cases)
    (simp_all add: fp_mul_def fp_nan2_def fp_isinf_eq fp_round_parts)

lemma fp_one_mul: "\<not> fp_issnan x \<Longrightarrow> fp_mul fp_one x = x"
  by (cases x rule: fp_class_cases)
    (simp_all add: fp_mul_def fp_nan2_def fp_isinf_eq fp_round_parts)

lemma fp_div_one: "\<not> fp_issnan x \<Longrightarrow> fp_div x fp_one = x"
  by (cases x rule: fp_class_cases)
    (simp_all add: fp_div_def fp_nan2_def fp_isinf_eq fp_round_parts)

lemma fp_round_val: "fp_finite x \<Longrightarrow> \<not> fp_iszero x \<Longrightarrow> fp_round (fp_val x < 0) (fp_mag x) = x"
  by (simp add: fp_val_neg_iff fp_round_parts)

lemma fp_add_mzero: "\<not> fp_issnan x \<Longrightarrow> fp_add x fp_mzero = x"
  by (cases x rule: fp_class_cases)
    (auto simp: fp_add_def fp_nan2_def fp_val_0_iff fp_round_val fp_iszero_eq [symmetric])

lemma fp_neg_zero [simp]: "fp_neg fp_zero = fp_mzero" "fp_neg fp_mzero = fp_zero"
  by code_simp+

lemma fp_sub_zero: "\<not> fp_issnan x \<Longrightarrow> fp_sub x fp_zero = x"
  using fp_add_mzero [of x] by (auto simp: fp_sub_def fp_nan2_def)

end
