(* ===== verification/X87State.thy ===== *)
theory X87State
  imports Fp64
begin

text \<open>
  The x87 register file of the runtime (\<open>rosetta_runtime/src/X87State.h\<close>): the record
  \<open>X87State\<close> with the control, status and tag words and eight binary64 slots, its accessors,
  \<open>push\<close>, \<open>pop\<close>, the tagged and untagged register writes, \<open>swap_registers\<close> and the conversion
  from the 80-bit memory format. The abstract view \<open>stack_of\<close> lists the eight registers from
  ST(0) on with their tags; the locale \<open>x87_register_stack\<close> states what the instruction
  routines rely on, and is interpreted on these operations.
\<close>

section \<open>Bit tests on doubles\<close>

definition x87_is_nan :: "fp64 \<Rightarrow> bool" where
  "x87_is_nan b \<longleftrightarrow> b AND 0x7FF0000000000000 = 0x7FF0000000000000 \<and> b AND 0x000FFFFFFFFFFFFF \<noteq> 0"

definition x87_is_inf :: "fp64 \<Rightarrow> bool" where
  "x87_is_inf b \<longleftrightarrow> b AND 0x7FFFFFFFFFFFFFFF = 0x7FF0000000000000"

definition x87_is_nan_or_inf :: "fp64 \<Rightarrow> bool" where
  "x87_is_nan_or_inf b \<longleftrightarrow> b AND 0x7FF0000000000000 = 0x7FF0000000000000"

definition x87_is_subnormal :: "fp64 \<Rightarrow> bool" where
  "x87_is_subnormal b \<longleftrightarrow> b AND 0x7FF0000000000000 = 0 \<and> b AND 0x000FFFFFFFFFFFFF \<noteq> 0"

section \<open>Flag words\<close>

definition kInvalidOperation :: u16 where "kInvalidOperation = 0x0001"
definition kDenormalizedOperand :: u16 where "kDenormalizedOperand = 0x0002"
definition kZeroDivide :: u16 where "kZeroDivide = 0x0004"
definition kOverflow :: u16 where "kOverflow = 0x0008"
definition kUnderflow :: u16 where "kUnderflow = 0x0010"
definition kPrecision :: u16 where "kPrecision = 0x0020"
definition kStackFault :: u16 where "kStackFault = 0x0040"
definition kErrorSummary :: u16 where "kErrorSummary = 0x0080"
definition kConditionCode0 :: u16 where "kConditionCode0 = 0x0100"
definition kConditionCode1 :: u16 where "kConditionCode1 = 0x0200"
definition kConditionCode2 :: u16 where "kConditionCode2 = 0x0400"
definition kConditionCode3 :: u16 where "kConditionCode3 = 0x4000"
definition kTopOfStack :: u16 where "kTopOfStack = 0x3800"
definition kBusy :: u16 where "kBusy = 0x8000"

datatype X87TagState = kValid | kZero | kSpecial | kEmpty

definition tag_of_bits :: "u16 \<Rightarrow> X87TagState" where
  "tag_of_bits t = (if t = 0 then kValid else if t = 1 then kZero else if t = 2 then kSpecial else kEmpty)"

definition bits_of_tag :: "X87TagState \<Rightarrow> u16" where
  "bits_of_tag t = (case t of kValid \<Rightarrow> 0 | kZero \<Rightarrow> 1 | kSpecial \<Rightarrow> 2 | kEmpty \<Rightarrow> 3)"

definition kInvalidOpMask :: u16 where "kInvalidOpMask = 0x0001"
definition kZeroDivideMask :: u16 where "kZeroDivideMask = 0x0004"
definition kRoundingControlMask :: u16 where "kRoundingControlMask = 0x0C00"
definition kRoundToNearest :: u16 where "kRoundToNearest = 0x0000"
definition kRoundDown :: u16 where "kRoundDown = 0x0400"
definition kRoundUp :: u16 where "kRoundUp = 0x0800"
definition kRoundToZero :: u16 where "kRoundToZero = 0x0C00"

lemmas sw_consts = kInvalidOperation_def kDenormalizedOperand_def kZeroDivide_def kOverflow_def
  kUnderflow_def kPrecision_def kStackFault_def kErrorSummary_def kConditionCode0_def
  kConditionCode1_def kConditionCode2_def kConditionCode3_def kTopOfStack_def kBusy_def

lemmas cw_consts = kInvalidOpMask_def kZeroDivideMask_def kRoundingControlMask_def
  kRoundToNearest_def kRoundDown_def kRoundUp_def kRoundToZero_def

section \<open>The 80-bit memory format\<close>

record X87Float80 =
  f80_mantissa :: u64
  f80_exponent :: u16

text \<open>
  \<open>ConvertX87RegisterToFloat64\<close>: the value and the exception flags it raises in the status
  word behind its pointer argument (the caller always passes one). The exponent is an \<open>int32_t\<close>
  whose range here, from -15360 to 17407, cannot overflow.
\<close>

definition ConvertX87RegisterToFloat64 :: "X87Float80 \<Rightarrow> u16 \<Rightarrow> fp64 \<times> u16" where
  "ConvertX87RegisterToFloat64 x87 flags =
     (let mantissa = f80_mantissa x87;
          biasedExp = f80_exponent x87 AND 0x7FFF;
          sign = (if f80_exponent x87 AND 0x8000 \<noteq> 0 then 0x8000000000000000 else 0 :: u64) in
      if mantissa = 0 then ((if sign \<noteq> 0 then 0x8000000000000000 else 0), flags)
      else if biasedExp = 0x7FFF then
        (if mantissa \<noteq> 0x8000000000000000
         then (sign OR 0x7FF8000000000000, flags OR kInvalidOperation)
         else (sign OR 0x7FF0000000000000, flags))
      else
        let exp0 = uint biasedExp - 16383 + 1023 in
        if exp0 \<le> 0 \<and> exp0 < - 52 then
          ((if sign \<noteq> 0 then 0x8000000000000000 else 0), flags OR kUnderflow)
        else
          let flags1 = (if exp0 \<le> 0 then flags OR kUnderflow else flags);
              mantissa1 = (if exp0 \<le> 0 then drop_bit (nat (1 - exp0)) mantissa else mantissa);
              exp1 = (if exp0 \<le> 0 then 0 else exp0) in
          if exp1 \<ge> 2047 then (sign OR 0x7FF0000000000000, flags1 OR kOverflow)
          else
            let significant = drop_bit 11 mantissa1 AND 0xFFFFFFFFFFFFF;
                roundBit = drop_bit 10 mantissa1 AND 1;
                stickyBits = (mantissa1 AND 0x3FF \<noteq> 0);
                flags2 = (if roundBit \<noteq> 0 \<or> stickyBits then flags1 OR kPrecision else flags1) in
            if roundBit \<noteq> 0 \<and> (stickyBits \<or> significant AND 1 \<noteq> 0) then
              (if significant + 1 = 0x10000000000000 then
                 (if exp1 + 1 \<ge> 2047 then (sign OR 0x7FF0000000000000, flags2 OR kOverflow)
                  else (sign OR push_bit 52 (word_of_int (exp1 + 1)) OR 0, flags2))
               else (sign OR push_bit 52 (word_of_int exp1) OR (significant + 1), flags2))
            else (sign OR push_bit 52 (word_of_int exp1) OR significant, flags2))"

section \<open>The register file\<close>

record X87State =
  controlWord :: u16
  statusWord :: u16
  tagWord :: u16
  st :: "fp64 list"

definition X87State_new :: X87State where
  "X87State_new = \<lparr>controlWord = 0x037F, statusWord = 0x0000, tagWord = 0xFFFF, st = replicate 8 0\<rparr>"

definition topIndex :: "X87State \<Rightarrow> u32" where
  "topIndex s = ucast (drop_bit 11 (statusWord s) AND 7)"

definition getStIndex :: "X87State \<Rightarrow> u32 \<Rightarrow> u32" where
  "getStIndex s stOffset = (stOffset + topIndex s) AND 7"

definition tagAt :: "X87State \<Rightarrow> u32 \<Rightarrow> X87TagState" where
  "tagAt s regIdx = tag_of_bits (drop_bit (unat regIdx * 2) (tagWord s) AND 3)"

definition getSt :: "X87State \<Rightarrow> u32 \<Rightarrow> fp64 \<times> X87State" where
  "getSt s stOffset =
     (let regIdx = getStIndex s stOffset in
      if tagAt s regIdx = kEmpty
      then (fp_qnan, s\<lparr>statusWord := statusWord s OR (kStackFault OR kInvalidOperation)\<rparr>)
      else (st s ! unat regIdx, s))"

definition getStConst :: "X87State \<Rightarrow> u32 \<Rightarrow> fp64 \<times> u16" where
  "getStConst s stOffset =
     (let regIdx = getStIndex s stOffset; newStatusWord = statusWord s AND NOT kConditionCode1 in
      if tagAt s regIdx = kEmpty
      then (fp_qnan, newStatusWord OR kStackFault OR kInvalidOperation)
      else (st s ! unat regIdx, newStatusWord))"

definition getStConst32 :: "X87State \<Rightarrow> u32 \<Rightarrow> fp32 \<times> u16" where
  "getStConst32 s stOffset =
     (let regIdx = getStIndex s stOffset; newStatusWord = statusWord s AND NOT kConditionCode1 in
      if tagAt s regIdx = kEmpty
      then (0x7FC00000, newStatusWord OR kStackFault OR kInvalidOperation)
      else (fp_narrow (st s ! unat regIdx), newStatusWord))"

definition getStTag :: "X87State \<Rightarrow> u32 \<Rightarrow> X87TagState" where
  "getStTag s stOffset = tagAt s (getStIndex s stOffset)"

definition push :: "X87State \<Rightarrow> X87State" where
  "push s =
     (let newTop = (topIndex s - 1) AND 7 in
      s\<lparr>statusWord := (statusWord s AND NOT kTopOfStack) OR push_bit 11 (ucast newTop),
        tagWord := tagWord s AND NOT (push_bit (unat newTop * 2) 3)\<rparr>)"

definition pop :: "X87State \<Rightarrow> X87State" where
  "pop s =
     (let currentTop = topIndex s in
      s\<lparr>tagWord := tagWord s OR push_bit (unat currentTop * 2) 3,
        st := (st s)[unat currentTop := 0],
        statusWord := (statusWord s AND NOT kTopOfStack) OR
                      push_bit 11 (ucast ((currentTop + 1) AND 7))\<rparr>)"

definition tag_for_value :: "fp64 \<Rightarrow> X87TagState" where
  "tag_for_value v =
     (if fp_eq v 0 then kZero
      else if x87_is_nan_or_inf v \<or> x87_is_subnormal v then kSpecial else kValid)"

definition setSt :: "X87State \<Rightarrow> u32 \<Rightarrow> fp64 \<Rightarrow> X87State" where
  "setSt s stOffset v =
     (let stIdx = unat (getStIndex s stOffset) in
      s\<lparr>st := (st s)[stIdx := v],
        tagWord := (tagWord s AND NOT (push_bit (stIdx * 2) 3)) OR
                   push_bit (stIdx * 2) (bits_of_tag (tag_for_value v))\<rparr>)"

definition setStFast :: "X87State \<Rightarrow> u32 \<Rightarrow> fp64 \<Rightarrow> X87State" where
  "setStFast s stOffset v =
     (let idx = unat (getStIndex s stOffset) in
      s\<lparr>st := (st s)[idx := v], tagWord := tagWord s AND NOT (push_bit (idx * 2) 3)\<rparr>)"

definition getStFast :: "X87State \<Rightarrow> u32 \<Rightarrow> fp64" where
  "getStFast s stOffset = st s ! unat (getStIndex s stOffset)"

definition swap_registers :: "X87State \<Rightarrow> u32 \<Rightarrow> u32 \<Rightarrow> X87State" where
  "swap_registers s regOffset1 regOffset2 =
     (let regIdx1 = unat (getStIndex s regOffset1); regIdx2 = unat (getStIndex s regOffset2);
          temp = st s ! regIdx1;
          st1 = (st s)[regIdx1 := st s ! regIdx2];
          tag1 = drop_bit (regIdx1 * 2) (tagWord s) AND 3;
          tag2 = drop_bit (regIdx2 * 2) (tagWord s) AND 3;
          cleared = tagWord s AND NOT (push_bit (regIdx1 * 2) 3 OR push_bit (regIdx2 * 2) 3) in
      s\<lparr>st := st1[regIdx2 := temp],
        tagWord := cleared OR (push_bit (regIdx1 * 2) tag2 OR push_bit (regIdx2 * 2) tag1)\<rparr>)"

section \<open>Classification agrees with the value classes\<close>

lemma word_and_mask63: "uint (b AND 0x7FFFFFFFFFFFFFFF :: u64) = fp_magbits b"
proof -
  have "(0x7FFFFFFFFFFFFFFF :: u64) = mask 63" by (simp add: mask_eq_exp_minus_1)
  then have "b AND 0x7FFFFFFFFFFFFFFF = take_bit 63 b" by (simp add: take_bit_eq_mask)
  moreover have "uint (take_bit 63 b) = take_bit 63 (uint b)" by (rule unsigned_take_bit_eq)
  ultimately show ?thesis by (simp add: fp_magbits_def take_bit_eq_mod [where 'a = int])
qed

lemma word_and_mask52: "uint (b AND 0x000FFFFFFFFFFFFF :: u64) = fp_frac b"
proof -
  have "(0x000FFFFFFFFFFFFF :: u64) = mask 52" by (simp add: mask_eq_exp_minus_1)
  then have "b AND 0x000FFFFFFFFFFFFF = take_bit 52 b" by (simp add: take_bit_eq_mask)
  moreover have "uint (take_bit 52 b) = take_bit 52 (uint b)" by (rule unsigned_take_bit_eq)
  ultimately show ?thesis
    by (simp add: fp_frac_def fp_magbits_def take_bit_eq_mod [where 'a = int] mod_mod_cancel)
qed

lemma word_and_expmask: "uint (b AND 0x7FF0000000000000 :: u64) = fp_exp b * 2 ^ 52"
proof -
  have m: "(0x7FF0000000000000 :: u64) = push_bit 52 (mask 11)"
    by (simp add: mask_eq_exp_minus_1 push_bit_eq_mult)
  have u: "take_bit 64 (uint b) = uint b"
    using uint_lt2p [of b] by (simp add: take_bit_eq_mod)
  have e: "b AND 0x7FF0000000000000 = push_bit 52 (take_bit 11 (drop_bit 52 b))"
    by (rule bit_word_eqI) (auto simp: m bit_simps)
  have "uint (push_bit 52 (take_bit 11 (drop_bit 52 b)) :: u64) =
        take_bit 64 (push_bit 52 (take_bit 11 (drop_bit 52 (uint b))))"
    by (simp add: unsigned_push_bit_eq unsigned_take_bit_eq unsigned_drop_bit_eq u)
  also have "\<dots> = push_bit 52 (take_bit 11 (drop_bit 52 (uint b)))"
    by (rule bit_eqI) (auto simp: bit_simps)
  also have "take_bit 11 (drop_bit 52 (uint b)) = uint b div 2 ^ 52 mod 2 ^ 11"
    by (simp add: take_bit_eq_mod drop_bit_eq_div)
  also have "uint b div 2 ^ 52 mod 2 ^ 11 = fp_exp b"
    using zmod_zmult2_eq [of "2 ^ 11" "uint b" "2 ^ 52"]
    by (simp add: fp_exp_def fp_magbits_def)
  finally show ?thesis by (simp add: e push_bit_eq_mult)
qed

lemma fp_exp_max: "fp_exp x \<le> 0x7FF"
  using fp_magbits_bounds [of x] by (simp add: fp_exp_def)

lemma uint_eq_iff: "x = y \<longleftrightarrow> uint x = uint (y :: u64)"
  by (simp add: word_uint_eq_iff)

lemma x87_is_nan_iff: "x87_is_nan b \<longleftrightarrow> fp_isnan b"
  using fp_exp_frac [of b] fp_frac_bounds [of b] fp_exp_max [of b] fp_exp_nonneg [of b]
  by (auto simp: x87_is_nan_def uint_eq_iff word_and_expmask word_and_mask52 fp_isnan_def)

lemma x87_is_inf_iff: "x87_is_inf b \<longleftrightarrow> fp_isinf b"
  by (simp add: x87_is_inf_def uint_eq_iff word_and_mask63 fp_isinf_def)

lemma x87_is_nan_or_inf_iff: "x87_is_nan_or_inf b \<longleftrightarrow> fp_isnan b \<or> fp_isinf b"
  using fp_exp_frac [of b] fp_frac_bounds [of b] fp_exp_max [of b] fp_exp_nonneg [of b]
  by (auto simp: x87_is_nan_or_inf_def uint_eq_iff word_and_expmask fp_isnan_def fp_isinf_def)

lemma x87_is_subnormal_iff: "x87_is_subnormal b \<longleftrightarrow> 0 < fp_magbits b \<and> fp_magbits b < 2 ^ 52"
  using fp_exp_frac [of b] fp_frac_bounds [of b] fp_exp_max [of b] fp_exp_nonneg [of b]
  by (auto simp: x87_is_subnormal_def uint_eq_iff word_and_expmask word_and_mask52)

lemmas x87_class = x87_is_nan_iff x87_is_inf_iff x87_is_nan_or_inf_iff x87_is_subnormal_iff

section \<open>The stack seen from its top\<close>

definition wf_x87 :: "X87State \<Rightarrow> bool" where
  "wf_x87 s \<longleftrightarrow> length (st s) = 8"

definition topn :: "X87State \<Rightarrow> nat" where
  "topn s = unat (topIndex s)"

definition phys :: "X87State \<Rightarrow> nat \<Rightarrow> fp64 \<times> X87TagState" where
  "phys s r = (st s ! r, tag_of_bits (field2 (tagWord s) r))"

definition stack_of :: "X87State \<Rightarrow> (fp64 \<times> X87TagState) list" where
  "stack_of s = map (\<lambda>i. phys s ((i + topn s) mod 8)) [0..<8]"

lemma topn_top3: "topn s = unat (top3 (statusWord s))"
  by (simp add: topn_def topIndex_def top3_def)

lemma topn_less [simp]: "topn s < 8"
  by (simp add: topn_top3 top3_le)

lemma unat_getStIndex: "unat (getStIndex s off) = (unat off + topn s) mod 8"
proof -
  have "unat (getStIndex s off) = unat (off + topIndex s) mod 8"
    by (simp add: getStIndex_def unat_and7)
  also have "\<dots> = (unat off + topn s) mod 2 ^ 32 mod 8"
    by (simp add: unat_word_ariths topn_def)
  also have "\<dots> = (unat off + topn s) mod 8"
    by (rule mod_mod_cancel) simp
  finally show ?thesis .
qed

lemma getStIndex_mod: "unat (getStIndex s off) = (unat off mod 8 + topn s) mod 8"
  by (simp add: unat_getStIndex mod_simps)

lemma tagAt_phys: "tagAt s r = snd (phys s (unat r))"
  by (simp add: tagAt_def phys_def field2_def)

lemma length_stack_of [simp]: "length (stack_of s) = 8"
  by (simp add: stack_of_def)

lemma nth_stack_of [simp]: "i < 8 \<Longrightarrow> stack_of s ! i = phys s ((i + topn s) mod 8)"
  by (simp add: stack_of_def)

lemma stack_of_eqI:
  assumes "length xs = 8" "\<And>i. i < 8 \<Longrightarrow> phys s ((i + topn s) mod 8) = xs ! i"
  shows "stack_of s = xs"
  using assms by (intro nth_equalityI) auto

lemma getStFast_stack: "getStFast s off = fst (stack_of s ! (unat off mod 8))"
  by (simp add: getStFast_def getStIndex_mod phys_def)

lemma getStTag_stack: "getStTag s off = snd (stack_of s ! (unat off mod 8))"
  by (simp add: getStTag_def tagAt_phys getStIndex_mod)

lemma bits_of_tag_and3 [simp]: "bits_of_tag t AND 3 = bits_of_tag t"
  by (cases t) (simp_all add: bits_of_tag_def)

lemma tag_of_bits_of_tag [simp]: "tag_of_bits (bits_of_tag t) = t"
  by (cases t) (simp_all add: bits_of_tag_def tag_of_bits_def)

lemma tag_of_bits_0 [simp]: "tag_of_bits 0 = kValid" "tag_of_bits 3 = kEmpty"
  by (simp_all add: tag_of_bits_def)

section \<open>What each operation does to the stack\<close>

lemma field2_push3:
  "r < 8 \<Longrightarrow> r' < 8 \<Longrightarrow> field2 (w OR push_bit (r * 2) 3) r' = (if r = r' then 3 else field2 w r')"
  by (rule bit_word_eqI) (auto simp: bit_field2 bit_simps mask_bits)

lemma unat_succ_top: "unat ((topIndex s + 1) AND 7) = (topn s + 1) mod 8"
  using topn_less [of s] by (simp add: unat_and7 unat_word_ariths topn_def)

lemma unat_pred_top: "unat ((topIndex s - 1) AND 7) = (topn s + 7) mod 8"
proof -
  have "topIndex s - 1 = topIndex s + 0xFFFFFFFF" by simp
  also have "unat \<dots> = (topn s + 0xFFFFFFFF) mod 2 ^ 32"
    by (simp only: unat_word_ariths topn_def) simp
  finally have "unat (topIndex s - 1) = (topn s + 0xFFFFFFFF) mod 2 ^ 32" .
  then have "unat ((topIndex s - 1) AND 7) = (topn s + 0xFFFFFFFF) mod 2 ^ 32 mod 8"
    by (simp add: unat_and7)
  also have "\<dots> = (topn s + 0xFFFFFFFF) mod 8" by (rule mod_mod_cancel) simp
  also have "\<dots> = (topn s + 7) mod 8"
    using mod_add_right_eq [of "topn s" "0xFFFFFFFF" 8] by simp
  finally show ?thesis .
qed

lemma top3_write:
  fixes t :: u32
  assumes "unat t < 8"
  shows "unat (top3 (w AND NOT kTopOfStack OR push_bit 11 (ucast t))) = unat t"
proof -
  have u: "unat (ucast t :: u16) = unat t" using assms by (simp add: unat_ucast32_16)
  have "(ucast t :: u16) AND 7 = ucast t"
    using assms by (simp add: word_unat_eq_iff unat_and7 u)
  then show ?thesis unfolding kTopOfStack_def by (simp only: top3_replace u)
qed

lemma topn_pop [simp]: "topn (pop s) = (topn s + 1) mod 8"
  using top3_write [of "(topIndex s + 1) AND 7" "statusWord s"]
  by (simp only: topn_top3 [of "pop s"] unat_succ_top) (simp add: pop_def Let_def)

lemma topn_push [simp]: "topn (push s) = (topn s + 7) mod 8"
  using top3_write [of "(topIndex s - 1) AND 7" "statusWord s"]
  by (simp only: topn_top3 [of "push s"] unat_pred_top) (simp add: push_def Let_def)

lemma wf_ops [simp]:
  "wf_x87 (push s) = wf_x87 s" "wf_x87 (pop s) = wf_x87 s"
  "wf_x87 (setSt s off v) = wf_x87 s" "wf_x87 (setStFast s off v) = wf_x87 s"
  "wf_x87 (swap_registers s a b) = wf_x87 s" "wf_x87 (snd (getSt s off)) = wf_x87 s"
  "wf_x87 (s\<lparr>statusWord := w\<rparr>) = wf_x87 s"
  by (simp_all add: wf_x87_def push_def pop_def setSt_def setStFast_def swap_registers_def
      getSt_def Let_def)

lemma topn_set [simp]: "topn (setSt s off v) = topn s" "topn (setStFast s off v) = topn s"
  "topn (swap_registers s a b) = topn s"
  by (simp_all add: topn_top3 setSt_def setStFast_def swap_registers_def Let_def)

lemma topn_status [simp]: "topn (s\<lparr>statusWord := w\<rparr>) = unat (top3 w)"
  by (simp add: topn_top3)

lemma phys_status [simp]: "phys (s\<lparr>statusWord := w\<rparr>) = phys s"
  by (simp add: fun_eq_iff phys_def)

lemma stack_of_status [stack_simps, simp]:
  "top3 w = top3 (statusWord s) \<Longrightarrow> stack_of (s\<lparr>statusWord := w\<rparr>) = stack_of s"
  by (simp add: stack_of_def flip: topn_top3)

lemma stack_of_pop [stack_simps]:
  assumes "wf_x87 s"
  shows "stack_of (pop s) = tl (stack_of s) @ [(0, kEmpty)]"
proof (rule stack_of_eqI)
  fix i :: nat assume i: "i < 8"
  have len: "length (st s) = 8" using assms by (simp add: wf_x87_def)
  define r where "r = (i + (topn s + 1) mod 8) mod 8"
  have r: "r = (Suc i + topn s) mod 8" by (simp add: r_def mod_simps)
  have r8: "r < 8" by (simp add: r_def)
  have ph: "phys (pop s) r = (if r = topn s then (0, kEmpty) else phys s r)"
    using r8 len topn_less [of s]
    by (simp add: phys_def pop_def Let_def field2_push3 flip: topn_def)
  have "topn s = (7 + (topn s + 1) mod 8) mod 8"
    using mod_add_right_eq [of 7 "topn s + 1" 8] topn_less [of s] by simp
  then have eq: "r = topn s \<longleftrightarrow> i = 7"
    using i mod8_inj [of i 7 "(topn s + 1) mod 8"] by (simp add: r_def)
  have "phys (pop s) r = (tl (stack_of s) @ [(0, kEmpty)]) ! i"
    unfolding ph using i eq by (auto simp: nth_append nth_tl r)
  then show "phys (pop s) ((i + topn (pop s)) mod 8) = (tl (stack_of s) @ [(0, kEmpty)]) ! i"
    by (simp add: r_def)
qed simp

lemma stack_of_push [stack_simps]:
  "stack_of (push s) = (fst (last (stack_of s)), kValid) # butlast (stack_of s)"
proof (rule stack_of_eqI)
  fix i :: nat assume i: "i < 8"
  define n where "n = (topn s + 7) mod 8"
  have n8: "n < 8" by (simp add: n_def)
  have u: "unat ((topIndex s - 1) AND 7) = n" by (simp add: unat_pred_top n_def)
  have ph: "phys (push s) r = (if r = n then (st s ! r, kValid) else phys s r)" if "r < 8" for r
    using that n8 by (simp add: phys_def push_def Let_def u field2_clear)
  have last: "last (stack_of s) = phys s n"
    by (simp add: last_conv_nth length_0_conv [symmetric] n_def add.commute del: length_0_conv)
  have eq: "(i + n) mod 8 = n \<longleftrightarrow> i = 0" using i n8 mod8_inj [of i 0 n] by simp
  show "phys (push s) ((i + topn (push s)) mod 8) =
        ((fst (last (stack_of s)), kValid) # butlast (stack_of s)) ! i"
  proof (cases i)
    case 0 then show ?thesis using n8 by (simp add: ph last flip: n_def) (simp add: phys_def)
  next
    case (Suc j)
    then have "(i + n) mod 8 = (j + topn s) mod 8"
      using mod8_pred_succ [of "topn s" j] by (simp add: n_def add.commute)
    then show ?thesis using i Suc eq by (simp add: ph nth_butlast flip: n_def)
  qed
qed simp

lemma phys_write:
  assumes "wf_x87 s" "r < 8" "r' < 8" "t AND 3 = t"
  shows "phys (s\<lparr>st := (st s)[r := v], tagWord := tagWord s AND NOT (push_bit (r * 2) 3) OR push_bit (r * 2) t\<rparr>) r' =
         (if r' = r then (v, tag_of_bits t) else phys s r')"
  using assms by (simp add: phys_def wf_x87_def field2_set field2_clear)

lemma stack_of_setSt [stack_simps]:
  assumes "wf_x87 s"
  shows "stack_of (setSt s off v) = (stack_of s)[unat off mod 8 := (v, tag_for_value v)]"
proof (rule stack_of_eqI)
  fix i :: nat assume i: "i < 8"
  have ph: "phys (setSt s off v) r = (if r = (unat off mod 8 + topn s) mod 8 then (v, tag_for_value v) else phys s r)"
    if "r < 8" for r
    using phys_write [OF assms _ that, of "(unat off mod 8 + topn s) mod 8" "bits_of_tag (tag_for_value v)" v]
    by (simp add: setSt_def Let_def getStIndex_mod)
  show "phys (setSt s off v) ((i + topn (setSt s off v)) mod 8) =
        (stack_of s)[unat off mod 8 := (v, tag_for_value v)] ! i"
    using i by (simp add: ph mod8_inj nth_list_update)
qed simp

lemma stack_of_setStFast [stack_simps]:
  assumes "wf_x87 s"
  shows "stack_of (setStFast s off v) = (stack_of s)[unat off mod 8 := (v, kValid)]"
proof (rule stack_of_eqI)
  fix i :: nat assume i: "i < 8"
  have ph: "phys (setStFast s off v) r = (if r = (unat off mod 8 + topn s) mod 8 then (v, kValid) else phys s r)"
    if "r < 8" for r
    using phys_write [OF assms _ that, of "(unat off mod 8 + topn s) mod 8" 0 v]
    by (simp add: setStFast_def Let_def getStIndex_mod)
  show "phys (setStFast s off v) ((i + topn (setStFast s off v)) mod 8) =
        (stack_of s)[unat off mod 8 := (v, kValid)] ! i"
    using i by (simp add: ph mod8_inj nth_list_update)
qed simp

definition stk_get :: "(fp64 \<times> X87TagState) list \<Rightarrow> nat \<Rightarrow> fp64" where
  "stk_get xs i = (if snd (xs ! i) = kEmpty then fp_qnan else fst (xs ! i))"

definition stk_fault :: "(fp64 \<times> X87TagState) list \<Rightarrow> nat \<Rightarrow> u16" where
  "stk_fault xs i = (if snd (xs ! i) = kEmpty then kStackFault OR kInvalidOperation else 0)"

lemma topfree_consts [simp]:
  "topfree kInvalidOperation" "topfree kDenormalizedOperand" "topfree kZeroDivide"
  "topfree kOverflow" "topfree kUnderflow" "topfree kPrecision" "topfree kStackFault"
  "topfree kConditionCode0" "topfree kConditionCode1" "topfree kConditionCode2" "topfree kConditionCode3"
  "topfree 0"
  by (simp_all add: topfree_def sw_consts)

lemma topfree_stk_fault [simp]: "topfree (stk_fault xs i)"
  by (simp add: stk_fault_def)

lemma getSt_stack:
  "getSt s off = (stk_get (stack_of s) (unat off mod 8),
                  s\<lparr>statusWord := statusWord s OR stk_fault (stack_of s) (unat off mod 8)\<rparr>)"
  by (simp add: getSt_def Let_def tagAt_phys getStIndex_mod stk_get_def stk_fault_def phys_def)

lemma getStConst_stack:
  "getStConst s off = (stk_get (stack_of s) (unat off mod 8),
     statusWord s AND NOT kConditionCode1 OR stk_fault (stack_of s) (unat off mod 8))"
  by (simp add: getStConst_def Let_def tagAt_phys getStIndex_mod stk_get_def stk_fault_def phys_def or.assoc)

lemma phys_swap:
  assumes "wf_x87 s" "a < 8" "b < 8" "r < 8"
  shows "phys (s\<lparr>st := ((st s)[a := st s ! b])[b := st s ! a],
     tagWord := tagWord s AND NOT (push_bit (a * 2) 3 OR push_bit (b * 2) 3) OR
       (push_bit (a * 2) (field2 (tagWord s) b) OR push_bit (b * 2) (field2 (tagWord s) a))\<rparr>) r =
     (if r = a then phys s b else if r = b then phys s a else phys s r)"
proof -
  have "field2 (tagWord s AND NOT (push_bit (a * 2) 3 OR push_bit (b * 2) 3) OR
       (push_bit (a * 2) (field2 (tagWord s) b) OR push_bit (b * 2) (field2 (tagWord s) a))) r =
     field2 (tagWord s) (if r = a then b else if r = b then a else r)"
    using assms(2-4) by (intro bit_word_eqI) (auto simp: bit_field2 bit_simps mask_bits)
  then show ?thesis using assms by (auto simp: phys_def wf_x87_def nth_list_update)
qed

lemma stack_of_swap [stack_simps]:
  assumes "wf_x87 s"
  shows "stack_of (swap_registers s a b) =
    (let i = unat a mod 8; j = unat b mod 8; xs = stack_of s in xs[i := xs ! j, j := xs ! i])"
proof (rule stack_of_eqI)
  fix i :: nat assume i: "i < 8"
  define p where "p = (unat a mod 8 + topn s) mod 8"
  define q where "q = (unat b mod 8 + topn s) mod 8"
  have ph: "phys (swap_registers s a b) r = (if r = p then phys s q else if r = q then phys s p else phys s r)"
    if "r < 8" for r
    using phys_swap [OF assms _ _ that, of p q]
    by (simp add: swap_registers_def Let_def getStIndex_mod p_def q_def field2_def)
  show "phys (swap_registers s a b) ((i + topn (swap_registers s a b)) mod 8) =
    (let i = unat a mod 8; j = unat b mod 8; xs = stack_of s in xs[i := xs ! j, j := xs ! i]) ! i"
    using i by (auto simp: ph mod8_inj nth_list_update Let_def p_def q_def)
qed (simp add: Let_def)

section \<open>The register stack as an interface\<close>

text \<open>
  What the instruction routines use of the register file: an abstraction to the list of eight
  tagged registers, a well-formedness invariant every operation keeps, and the effect of each
  operation on the list. The derived facts hold for any such register file.
\<close>

locale x87_register_stack =
  fixes inv :: "'s \<Rightarrow> bool"
    and stk :: "'s \<Rightarrow> ('v \<times> 't) list"
    and pushS popS :: "'s \<Rightarrow> 's"
    and setS :: "'s \<Rightarrow> nat \<Rightarrow> 'v \<Rightarrow> 's"
    and tagv :: "'v \<Rightarrow> 't"
    and empty_slot :: "'v \<times> 't"
  assumes stk_length: "inv s \<Longrightarrow> length (stk s) = 8"
    and inv_push: "inv s \<Longrightarrow> inv (pushS s)"
    and inv_pop: "inv s \<Longrightarrow> inv (popS s)"
    and inv_set: "inv s \<Longrightarrow> inv (setS s i v)"
    and stk_push_tl: "inv s \<Longrightarrow> tl (stk (pushS s)) = butlast (stk s)"
    and stk_pop: "inv s \<Longrightarrow> stk (popS s) = tl (stk s) @ [empty_slot]"
    and stk_set: "inv s \<Longrightarrow> i < 8 \<Longrightarrow> stk (setS s i v) = (stk s)[i := (v, tagv v)]"
begin

definition loadS :: "'s \<Rightarrow> 'v \<Rightarrow> 's" where
  "loadS s v = setS (pushS s) 0 v"

lemma inv_load: "inv s \<Longrightarrow> inv (loadS s v)"
  by (simp add: loadS_def inv_push inv_set)

lemma stk_load:
  assumes "inv s"
  shows "stk (loadS s v) = (v, tagv v) # butlast (stk s)"
proof -
  have "length (stk (pushS s)) = 8" using assms by (simp add: stk_length inv_push)
  then obtain x xs where x: "stk (pushS s) = x # xs" by (cases "stk (pushS s)") auto
  then have "xs = butlast (stk s)" using stk_push_tl [OF assms] by simp
  then show ?thesis using x assms by (simp add: loadS_def stk_set inv_push)
qed

lemma stk_load_pop:
  assumes "inv s"
  shows "stk (popS (loadS s v)) = butlast (stk s) @ [empty_slot]"
  using assms by (simp add: stk_pop inv_load stk_load)

text \<open>A store to ST(1) followed by a pop leaves the stored value on top: the popping forms.\<close>

lemma stk_set_pop:
  assumes "inv s" "i < 7"
  shows "stk (popS (setS s (Suc i) v)) = (tl (stk s))[i := (v, tagv v)] @ [empty_slot]"
proof -
  obtain x xs where "stk s = x # xs" using stk_length [OF assms(1)] by (cases "stk s") auto
  then show ?thesis using assms by (simp add: stk_pop inv_set stk_set)
qed

lemma stk_load_load_pop_pop:
  assumes "inv s" "last (stk s) = empty_slot" "last (butlast (stk s)) = empty_slot"
  shows "stk (popS (popS (loadS (loadS s a) b))) = stk s"
proof -
  have l: "length (stk s) = 8" using assms(1) by (rule stk_length)
  then have "0 < length (stk s)" "0 < length (butlast (stk s))" by auto
  then have ne: "stk s \<noteq> []" "butlast (stk s) \<noteq> []" by blast+
  then have "stk s = butlast (butlast (stk s)) @ [empty_slot, empty_slot]"
    using assms(2,3) by (metis append_butlast_last_id append_Cons append_Nil append_assoc)
  then show ?thesis using assms(1) ne
    by (simp add: stk_pop stk_load inv_pop inv_load butlast_append)
qed

end

interpretation regs: x87_register_stack wf_x87 stack_of push pop "\<lambda>s i v. setSt s (of_nat i) v"
  tag_for_value "(0, kEmpty)"
proof unfold_locales
  fix s :: X87State and i :: nat and v :: fp64
  assume wf: "wf_x87 s" and i: "i < 8"
  have "unat (of_nat i :: u32) mod 8 = i" using i by simp
  then show "stack_of (setSt s (of_nat i) v) = (stack_of s)[i := (v, tag_for_value v)]"
    using wf by (simp add: stack_of_setSt)
qed (simp_all add: stack_of_push stack_of_pop)

interpretation fast_regs: x87_register_stack wf_x87 stack_of push pop
  "\<lambda>s i v. setStFast s (of_nat i) v" "\<lambda>_. kValid" "(0, kEmpty)"
proof unfold_locales
  fix s :: X87State and i :: nat and v :: fp64
  assume wf: "wf_x87 s" and i: "i < 8"
  have "unat (of_nat i :: u32) mod 8 = i" using i by simp
  then show "stack_of (setStFast s (of_nat i) v) = (stack_of s)[i := (v, kValid)]"
    using wf by (simp add: stack_of_setStFast)
qed (simp_all add: stack_of_push stack_of_pop)

end
