(* ===== verification/X87Runtime.thy ===== *)
theory X87Runtime
  imports X87State
begin

text \<open>
  The x87 instruction routines of the runtime library (\<open>rosetta_runtime/src/X87.cpp\<close>), one
  definition per routine, in the order of the file. A routine takes the register file and
  returns it updated, with the value it returns where it has one. The vendored mathematical
  library is the parameter \<open>libm\<close>; the routine \<open>orig_x87_ffree\<close> of the host runtime is a
  parameter too. The guards that save and restore host SIMD registers and the logging calls have
  no effect on the register file and are left out.
\<close>

section \<open>Helpers\<close>

record libm =
  openlibm_exp2 :: "fp64 \<Rightarrow> fp64"
  openlibm_log2 :: "fp64 \<Rightarrow> fp64"
  openlibm_pow :: "fp64 \<Rightarrow> fp64 \<Rightarrow> fp64"
  openlibm_sin :: "fp64 \<Rightarrow> fp64"
  openlibm_cos :: "fp64 \<Rightarrow> fp64"
  openlibm_tan :: "fp64 \<Rightarrow> fp64"
  openlibm_atan2 :: "fp64 \<Rightarrow> fp64 \<Rightarrow> fp64"
  openlibm_fmod :: "fp64 \<Rightarrow> fp64 \<Rightarrow> fp64"
  openlibm_remquo :: "fp64 \<Rightarrow> fp64 \<Rightarrow> fp64 \<times> int"
  openlibm_ilogb :: "fp64 \<Rightarrow> int"
  openlibm_scalbn :: "fp64 \<Rightarrow> int \<Rightarrow> fp64"

text \<open>A concrete instance of the library, for closed examples.\<close>

definition libm_sample :: libm where
  "libm_sample = \<lparr>openlibm_exp2 = (\<lambda>x. fp_one), openlibm_log2 = (\<lambda>x. 0), openlibm_pow = (\<lambda>x y. fp_one),
     openlibm_sin = (\<lambda>x. 0), openlibm_cos = (\<lambda>x. fp_one), openlibm_tan = (\<lambda>x. 0),
     openlibm_atan2 = (\<lambda>y x. 0), openlibm_fmod = (\<lambda>x y. 0), openlibm_remquo = (\<lambda>x y. (0, 0)),
     openlibm_ilogb = (\<lambda>x. fp_exp x - 1023), openlibm_scalbn = (\<lambda>x n. x)\<rparr>"

text \<open>\<open>statusWord &= ~m\<close> and \<open>statusWord |= m\<close>.\<close>

definition sw_clear :: "u16 \<Rightarrow> X87State \<Rightarrow> X87State" where
  "sw_clear m s = s\<lparr>statusWord := statusWord s AND NOT m\<rparr>"

definition sw_set :: "u16 \<Rightarrow> X87State \<Rightarrow> X87State" where
  "sw_set m s = s\<lparr>statusWord := statusWord s OR m\<rparr>"

definition pop_if :: "bool \<Rightarrow> X87State \<Rightarrow> X87State" where
  "pop_if b s = (if b then pop s else s)"

fun pops :: "nat \<Rightarrow> X87State \<Rightarrow> X87State" where
  "pops 0 s = s"
| "pops (Suc n) s = pops n (pop s)"

record X87ResultStatusWord =
  signedResult :: u64
  rswStatusWord :: u16

record X87Float80StatusWordResult =
  resMantissa :: u64
  resExponent :: u16
  resStatusWord :: u16

datatype X87Constant = kOne | kZeroC | kPi | kLog2e | kLoge2 | kLog2t | kLog102 | kOtherConstant

section \<open>Initialisation and stack management\<close>

definition x87_init :: "X87State \<Rightarrow> X87State" where
  "x87_init s = X87State_new"

definition x87_pop_register_stack :: "X87State \<Rightarrow> X87State" where
  "x87_pop_register_stack s = pop s"

definition x87_f2xm1 :: "libm \<Rightarrow> X87State \<Rightarrow> X87State" where
  "x87_f2xm1 lm s =
     (let x = getStFast s 0 in
      if fp_lt x 0xBFF0000000000000 \<or> fp_lt fp_one x then setStFast s 0 0
      else setStFast s 0 (fp_sub (openlibm_exp2 lm x) fp_one))"

definition x87_fabs :: "X87State \<Rightarrow> X87State" where
  "x87_fabs s0 =
     (let s = sw_clear kConditionCode1 s0; v = getStFast s 0 in setStFast s 0 (fp_abs v))"

section \<open>Register and memory arithmetic\<close>

definition x87_fadd_ST :: "X87State \<Rightarrow> u32 \<Rightarrow> u32 \<Rightarrow> bool \<Rightarrow> X87State" where
  "x87_fadd_ST s0 st_offset_1 st_offset_2 pop_stack =
     (let s = sw_clear kConditionCode1 s0;
          val1 = getStFast s st_offset_1; val2 = getStFast s st_offset_2
      in pop_if pop_stack (setStFast s st_offset_1 (fp_add val1 val2)))"

definition x87_fadd_f32 :: "X87State \<Rightarrow> u32 \<Rightarrow> X87State" where
  "x87_fadd_f32 s0 v =
     (let s = sw_clear kConditionCode1 s0 in setStFast s 0 (fp_add (getStFast s 0) (fp_widen v)))"

definition x87_fadd_f64 :: "X87State \<Rightarrow> u64 \<Rightarrow> X87State" where
  "x87_fadd_f64 s0 v =
     (let s = sw_clear kConditionCode1 s0 in setStFast s 0 (fp_add (getStFast s 0) v))"

definition x87_fsub_ST :: "X87State \<Rightarrow> u32 \<Rightarrow> u32 \<Rightarrow> bool \<Rightarrow> X87State" where
  "x87_fsub_ST s0 st_offset_1 st_offset_2 pop_stack =
     (let s = sw_clear kConditionCode1 s0;
          val1 = getStFast s st_offset_1; val2 = getStFast s st_offset_2
      in pop_if pop_stack (setStFast s st_offset_1 (fp_sub val1 val2)))"

definition x87_fsub_f32 :: "X87State \<Rightarrow> u32 \<Rightarrow> X87State" where
  "x87_fsub_f32 s0 v =
     (let s = sw_clear kConditionCode1 s0 in setStFast s 0 (fp_sub (getStFast s 0) (fp_widen v)))"

definition x87_fsub_f64 :: "X87State \<Rightarrow> u64 \<Rightarrow> X87State" where
  "x87_fsub_f64 s0 v =
     (let s = sw_clear kConditionCode1 s0 in setStFast s 0 (fp_sub (getStFast s 0) v))"

definition x87_fsubr_ST :: "X87State \<Rightarrow> u32 \<Rightarrow> u32 \<Rightarrow> bool \<Rightarrow> X87State" where
  "x87_fsubr_ST s0 st_offset_1 st_offset_2 pop_stack =
     (let s = sw_clear kConditionCode1 s0;
          val1 = getStFast s st_offset_1; val2 = getStFast s st_offset_2
      in pop_if pop_stack (setStFast s st_offset_1 (fp_sub val2 val1)))"

definition x87_fsubr_f32 :: "X87State \<Rightarrow> u32 \<Rightarrow> X87State" where
  "x87_fsubr_f32 s0 v =
     (let s = sw_clear kConditionCode1 s0 in setStFast s 0 (fp_sub (fp_widen v) (getStFast s 0)))"

definition x87_fsubr_f64 :: "X87State \<Rightarrow> u64 \<Rightarrow> X87State" where
  "x87_fsubr_f64 s0 v =
     (let s = sw_clear kConditionCode1 s0 in setStFast s 0 (fp_sub v (getStFast s 0)))"

definition x87_fmul_ST :: "X87State \<Rightarrow> u32 \<Rightarrow> u32 \<Rightarrow> bool \<Rightarrow> X87State" where
  "x87_fmul_ST s0 st_offset_1 st_offset_2 pop_stack =
     (let s = sw_clear kConditionCode1 s0;
          val1 = getStFast s st_offset_1; val2 = getStFast s st_offset_2
      in pop_if pop_stack (setStFast s st_offset_1 (fp_mul val1 val2)))"

definition x87_fmul_f32 :: "X87State \<Rightarrow> u32 \<Rightarrow> X87State" where
  "x87_fmul_f32 s0 v =
     (let s = sw_clear kConditionCode1 s0 in setStFast s 0 (fp_mul (getStFast s 0) (fp_widen v)))"

definition x87_fmul_f64 :: "X87State \<Rightarrow> u64 \<Rightarrow> X87State" where
  "x87_fmul_f64 s0 v =
     (let s = sw_clear kConditionCode1 s0 in setStFast s 0 (fp_mul (getStFast s 0) v))"

definition x87_fdiv_ST :: "X87State \<Rightarrow> u32 \<Rightarrow> u32 \<Rightarrow> bool \<Rightarrow> X87State" where
  "x87_fdiv_ST s0 st_offset_1 st_offset_2 pop_stack =
     (let s = sw_clear kConditionCode1 s0;
          val1 = getStFast s st_offset_1; val2 = getStFast s st_offset_2
      in pop_if pop_stack (setStFast s st_offset_1 (fp_div val1 val2)))"

definition x87_fdiv_f32 :: "X87State \<Rightarrow> u32 \<Rightarrow> X87State" where
  "x87_fdiv_f32 s0 v =
     (let s = sw_clear kConditionCode1 s0 in setStFast s 0 (fp_div (getStFast s 0) (fp_widen v)))"

definition x87_fdiv_f64 :: "X87State \<Rightarrow> u64 \<Rightarrow> X87State" where
  "x87_fdiv_f64 s0 v =
     (let s = sw_clear kConditionCode1 s0 in setStFast s 0 (fp_div (getStFast s 0) v))"

definition x87_fdivr_ST :: "X87State \<Rightarrow> u32 \<Rightarrow> u32 \<Rightarrow> bool \<Rightarrow> X87State" where
  "x87_fdivr_ST s0 st_offset_1 st_offset_2 pop_stack =
     (let s = sw_clear kConditionCode1 s0;
          val1 = getStFast s st_offset_1; val2 = getStFast s st_offset_2
      in pop_if pop_stack (setStFast s st_offset_1 (fp_div val2 val1)))"

definition x87_fdivr_f32 :: "X87State \<Rightarrow> u32 \<Rightarrow> X87State" where
  "x87_fdivr_f32 s0 v =
     (let s = sw_clear kConditionCode1 s0 in setStFast s 0 (fp_div (fp_widen v) (getStFast s 0)))"

definition x87_fdivr_f64 :: "X87State \<Rightarrow> u64 \<Rightarrow> X87State" where
  "x87_fdivr_f64 s0 v =
     (let s = sw_clear kConditionCode1 s0 in setStFast s 0 (fp_div v (getStFast s 0)))"

section \<open>Arithmetic with an integer operand\<close>

definition x87_fiadd :: "X87State \<Rightarrow> u32 \<Rightarrow> X87State" where
  "x87_fiadd s0 v =
     (let (x, s) = getSt (sw_clear kConditionCode1 s0) 0 in setSt s 0 (fp_add x (fp_of_int (sint v))))"

definition x87_fisub :: "X87State \<Rightarrow> u32 \<Rightarrow> X87State" where
  "x87_fisub s0 v =
     (let (x, s) = getSt (sw_clear kConditionCode1 s0) 0 in setSt s 0 (fp_sub x (fp_of_int (sint v))))"

definition x87_fisubr :: "X87State \<Rightarrow> u32 \<Rightarrow> X87State" where
  "x87_fisubr s0 v =
     (let (x, s) = getSt (sw_clear kConditionCode1 s0) 0 in setSt s 0 (fp_sub (fp_of_int (sint v)) x))"

definition x87_fimul :: "X87State \<Rightarrow> u32 \<Rightarrow> X87State" where
  "x87_fimul s0 v =
     (let (x, s) = getSt (sw_clear kConditionCode1 s0) 0 in setSt s 0 (fp_mul x (fp_of_int (sint v))))"

definition x87_fidiv :: "X87State \<Rightarrow> u32 \<Rightarrow> X87State" where
  "x87_fidiv s0 v =
     (let (x, s) = getSt (sw_clear kConditionCode1 s0) 0 in setSt s 0 (fp_div x (fp_of_int (sint v))))"

definition x87_fidivr :: "X87State \<Rightarrow> u32 \<Rightarrow> X87State" where
  "x87_fidivr s0 v =
     (let (x, s) = getSt (sw_clear kConditionCode1 s0) 0 in setSt s 0 (fp_div (fp_of_int (sint v)) x))"

section \<open>Packed decimal\<close>

text \<open>One step of the loop over the nine digit bytes, then the tenth byte with the sign.\<close>

fun bcd_bytes :: "u8 list \<Rightarrow> u64 \<Rightarrow> u64 \<Rightarrow> u64 \<times> u64" where
  "bcd_bytes [] tmp mult = (tmp, mult)"
| "bcd_bytes (piece # ps) tmp mult =
     (let tmp1 = tmp + mult * ucast (piece AND 0x0F); mult1 = mult * 10;
          tmp2 = tmp1 + mult1 * ucast (drop_bit 4 piece AND 0x0F); mult2 = mult1 * 10
      in bcd_bytes ps tmp2 mult2)"

definition BCD2Double :: "u8 list \<Rightarrow> fp64" where
  "BCD2Double bcd =
     (let (tmp, mult) = bcd_bytes (take 9 bcd) 0 1; piece = bcd ! 9;
          tmp1 = tmp + mult * ucast (piece AND 0x0F);
          v = fp_of_int (uint tmp1)
      in if piece AND 0x80 \<noteq> 0 then fp_neg v else v)"

definition bytes_le :: "nat \<Rightarrow> u64 \<Rightarrow> u8 list" where
  "bytes_le n w = map (\<lambda>i. ucast (drop_bit (8 * i) w)) [0..<n]"

fun word_le :: "u8 list \<Rightarrow> u64" where
  "word_le [] = 0"
| "word_le (b # bs) = ucast b OR push_bit 8 (word_le bs)"

definition x87_fbld :: "X87State \<Rightarrow> u64 \<Rightarrow> u64 \<Rightarrow> X87State" where
  "x87_fbld s0 val1 val2 =
     (let s = sw_clear kConditionCode1 s0;
          bcd = bytes_le 8 val1 @ bytes_le 2 val2
      in setSt (push s) 0 (BCD2Double bcd))"

fun bcd_digits :: "nat \<Rightarrow> u64 \<Rightarrow> u8 list \<times> u64" where
  "bcd_digits 0 n = ([], n)"
| "bcd_digits (Suc k) n =
     (let digit1 = ucast (n mod 10); n1 = n div 10; digit2 = ucast (n1 mod 10); n2 = n1 div 10;
          (bs, r) = bcd_digits k n2
      in ((digit1 OR push_bit 4 digit2) # bs, r))"

definition double_to_bcd :: "fp64 \<Rightarrow> u8 list" where
  "double_to_bcd st0 =
     (let is_negative = fp_sign st0 in
      if x87_is_nan_or_inf st0 then replicate 9 0 @ [if is_negative then 0x80 else 0]
      else
        let abs_value = fp_trunc (fp_abs st0) in
        if fp_lt 0x43ABC16D674EC800 abs_value then
          replicate 9 0x99 @ [if is_negative then 0x09 OR 0x80 else 0x09]
        else
          let (bs, r) = bcd_digits 9 (word_of_int (fp_trunc_int abs_value)); d = ucast (r mod 10)
          in bs @ [if is_negative then d OR 0x80 else d])"

definition x87_fbstp :: "X87State \<Rightarrow> (u64 \<times> u64) \<times> X87State" where
  "x87_fbstp s0 =
     (let (st0, s) = getSt s0 0; s1 = pop s; bcd = double_to_bcd st0 @ replicate 6 0
      in ((word_le (take 8 bcd), word_le (drop 8 bcd)), s1))"

section \<open>Sign change, conditional move, comparison\<close>

definition x87_fchs :: "X87State \<Rightarrow> X87State" where
  "x87_fchs s0 =
     (let s = sw_clear kConditionCode1 s0 in setStFast s 0 (fp_neg (getStFast s 0)))"

definition x87_fcmov :: "X87State \<Rightarrow> u32 \<Rightarrow> u32 \<Rightarrow> X87State" where
  "x87_fcmov s0 condition st_offset =
     (let s = sw_clear kConditionCode1 s0 in
      if getStTag s st_offset \<noteq> kEmpty then
        (if condition = 0 then s
         else let (v, s1) = getSt s st_offset in setSt s1 0 v)
      else setSt (sw_set (kStackFault OR kInvalidOperation) s) 0 0)"

definition cc_bits :: u16 where
  "cc_bits = kConditionCode0 OR kConditionCode2 OR kConditionCode3"

text \<open>The comparison ladder shared by the FCOM routines, with their late NaN check.\<close>

definition fcom_flags :: "fp64 \<Rightarrow> fp64 \<Rightarrow> X87State \<Rightarrow> X87State" where
  "fcom_flags st0 src s =
     (let s1 = (if fp_lt src st0 then s
                else if fp_lt st0 src then sw_set kConditionCode0 s
                else sw_set kConditionCode3 s)
      in if controlWord s1 AND kInvalidOpMask = kInvalidOpMask \<and> (x87_is_nan st0 \<or> x87_is_nan src)
         then sw_set cc_bits s1 else s1)"

definition x87_fcom_ST :: "X87State \<Rightarrow> u32 \<Rightarrow> u32 \<Rightarrow> X87State" where
  "x87_fcom_ST s0 st_offset number_of_pops =
     (let (st0, s1) = getSt s0 0; (src, s2) = getSt s1 st_offset; s3 = sw_clear cc_bits s2
      in pops (unat number_of_pops) (fcom_flags st0 src s3))"

definition x87_fcom_f32 :: "X87State \<Rightarrow> u32 \<Rightarrow> bool \<Rightarrow> X87State" where
  "x87_fcom_f32 s0 fp32 do_pop =
     (let (st0, s1) = getSt s0 0; src = fp_widen fp32;
          s2 = sw_clear (kConditionCode0 OR kConditionCode1 OR kConditionCode2 OR kConditionCode3) s1
      in pop_if do_pop (fcom_flags st0 src s2))"

definition x87_fcom_f64 :: "X87State \<Rightarrow> u64 \<Rightarrow> bool \<Rightarrow> X87State" where
  "x87_fcom_f64 s0 src do_pop =
     (let (st0, s1) = getSt s0 0; s2 = sw_clear cc_bits s1
      in pop_if do_pop (fcom_flags st0 src s2))"

definition fcomi_flags :: "fp64 \<Rightarrow> fp64 \<Rightarrow> u32" where
  "fcomi_flags a b =
     (if x87_is_nan a \<or> x87_is_nan b then 0x54000000
      else if fp_lt a b then 0x00000000
      else if fp_lt b a then 0x20000000
      else 0x60000000)"

definition x87_fcomi :: "X87State \<Rightarrow> u32 \<Rightarrow> bool \<Rightarrow> u32 \<times> X87State" where
  "x87_fcomi s0 st_offset do_pop =
     (let (st0_val, s1) = getSt (sw_clear kConditionCode0 s0) 0; (sti_val, s2) = getSt s1 st_offset
      in (fcomi_flags st0_val sti_val, pop_if do_pop s2))"

definition x87_fcos :: "libm \<Rightarrow> X87State \<Rightarrow> X87State" where
  "x87_fcos lm s0 =
     (let s = sw_clear (kConditionCode1 OR kConditionCode2) s0
      in setStFast s 0 (openlibm_cos lm (getStFast s 0)))"

definition x87_fdecstp :: "X87State \<Rightarrow> X87State" where
  "x87_fdecstp s0 =
     (let current_top = drop_bit 11 (statusWord s0 AND kTopOfStack);
          new_top = (current_top - 1) AND 7;
          s = sw_clear kConditionCode1 s0
      in s\<lparr>statusWord := (statusWord s AND NOT kTopOfStack) OR push_bit 11 new_top\<rparr>)"

text \<open>\<open>x87_ffree\<close> forwards to the routine of the host runtime.\<close>

definition x87_ffree :: "(X87State \<Rightarrow> u32 \<Rightarrow> X87State) \<Rightarrow> X87State \<Rightarrow> u32 \<Rightarrow> X87State" where
  "x87_ffree orig_x87_ffree s v = orig_x87_ffree s v"

text \<open>The ladder of FICOM and FUCOM, which test for NaN first.\<close>

definition fucom_flags :: "fp64 \<Rightarrow> fp64 \<Rightarrow> X87State \<Rightarrow> X87State" where
  "fucom_flags st0 src s =
     (if x87_is_nan st0 \<or> x87_is_nan src then sw_set cc_bits s
      else if fp_lt src st0 then s
      else if fp_lt st0 src then sw_set kConditionCode0 s
      else sw_set kConditionCode3 s)"

definition x87_ficom :: "X87State \<Rightarrow> u32 \<Rightarrow> bool \<Rightarrow> X87State" where
  "x87_ficom s0 src do_pop =
     (let (st0, s1) = getSt s0 0; s2 = sw_clear cc_bits s1;
          v = fp_of_int (sint src);
          s3 = (if x87_is_nan st0 then sw_set cc_bits s2
                else if fp_lt v st0 then s2
                else if fp_lt st0 v then sw_set kConditionCode0 s2
                else sw_set kConditionCode3 s2)
      in pop_if do_pop s3)"

definition x87_fild :: "X87State \<Rightarrow> u64 \<Rightarrow> X87State" where
  "x87_fild s v = setSt (push s) 0 (fp_of_int (sint v))"

definition x87_fincstp :: "X87State \<Rightarrow> X87State" where
  "x87_fincstp s0 =
     (let s = sw_clear kConditionCode1 s0;
          top = drop_bit 11 (statusWord s AND kTopOfStack);
          top1 = (top + 1) AND 7
      in sw_set (push_bit 11 top1) (sw_clear kTopOfStack s))"

section \<open>Integer stores\<close>

definition x87_round_by_rc :: "fp64 \<Rightarrow> u16 \<Rightarrow> fp64" where
  "x87_round_by_rc v cw =
     (let rc = cw AND kRoundingControlMask in
      if rc = kRoundDown then fp_floor v
      else if rc = kRoundUp then fp_ceil v
      else if rc = kRoundToZero then fp_trunc v
      else fp_nearbyint v)"

text \<open>
  The six integer stores differ in the value they start from, the bounds and the width. The
  bounds are the doubles written in the code; the upper bound of the 64-bit stores is strict.
\<close>

definition fist_result :: "fp64 \<Rightarrow> u16 \<Rightarrow> bool \<Rightarrow> nat \<Rightarrow> X87ResultStatusWord" where
  "fist_result rounded sw in_range w =
     (if \<not> in_range then \<lparr>signedResult = word_of_int (- (2 ^ (w - 1))), rswStatusWord = sw OR kConditionCode1\<rparr>
      else \<lparr>signedResult = word_of_int (fp_trunc_int rounded), rswStatusWord = sw\<rparr>)"

definition in_range16 :: "fp64 \<Rightarrow> bool" where
  "in_range16 v \<longleftrightarrow> fp_le 0xC0E0000000000000 v \<and> fp_le v 0x40DFFFC000000000"

definition in_range32 :: "fp64 \<Rightarrow> bool" where
  "in_range32 v \<longleftrightarrow> fp_le 0xC1E0000000000000 v \<and> fp_le v 0x41DFFFFFFFC00000"

definition in_range64 :: "fp64 \<Rightarrow> bool" where
  "in_range64 v \<longleftrightarrow> fp_le 0xC3E0000000000000 v \<and> fp_lt v 0x43E0000000000000"

definition x87_fist_i16 :: "X87State \<Rightarrow> X87ResultStatusWord" where
  "x87_fist_i16 s = (let (v, sw) = getStConst s 0; r = x87_round_by_rc v (controlWord s)
                     in fist_result r sw (in_range16 r) 16)"

definition x87_fist_i32 :: "X87State \<Rightarrow> X87ResultStatusWord" where
  "x87_fist_i32 s = (let (v, sw) = getStConst s 0; r = x87_round_by_rc v (controlWord s)
                     in fist_result r sw (in_range32 r) 32)"

definition x87_fist_i64 :: "X87State \<Rightarrow> X87ResultStatusWord" where
  "x87_fist_i64 s = (let (v, sw) = getStConst s 0; r = x87_round_by_rc v (controlWord s)
                     in fist_result r sw (in_range64 r) 64)"

definition x87_fistt_i16 :: "X87State \<Rightarrow> X87ResultStatusWord" where
  "x87_fistt_i16 s = (let (v, sw) = getStConst s 0; t = fp_trunc v in fist_result t sw (in_range16 t) 16)"

definition x87_fistt_i32 :: "X87State \<Rightarrow> X87ResultStatusWord" where
  "x87_fistt_i32 s = (let (v, sw) = getStConst s 0; t = fp_trunc v in fist_result t sw (in_range32 t) 32)"

definition x87_fistt_i64 :: "X87State \<Rightarrow> X87ResultStatusWord" where
  "x87_fistt_i64 s = (let (v, sw) = getStConst s 0; t = fp_trunc v in fist_result t sw (in_range64 t) 64)"

section \<open>Loads\<close>

definition x87_fld_STi :: "X87State \<Rightarrow> u32 \<Rightarrow> X87State" where
  "x87_fld_STi s0 st_offset =
     (let (v, s) = getSt (sw_clear kConditionCode1 s0) st_offset in setSt (push s) 0 v)"

definition x87_fld_constant :: "X87State \<Rightarrow> X87Constant \<Rightarrow> X87State" where
  "x87_fld_constant s c =
     (case c of
        kOne \<Rightarrow> setSt (push s) 0 0x3FF0000000000000
      | kZeroC \<Rightarrow> setSt (push s) 0 0
      | kPi \<Rightarrow> setSt (push s) 0 0x400921FB54442D18
      | kLog2e \<Rightarrow> setSt (push s) 0 0x3FF71547652B82FE
      | kLoge2 \<Rightarrow> setSt (push s) 0 0x3FE62E42FEFA39EF
      | kLog2t \<Rightarrow> setSt (push s) 0 0x400A934F0979A371
      | kLog102 \<Rightarrow> setSt (push s) 0 0x3FD34413509F79FF
      | kOtherConstant \<Rightarrow> s)"

definition x87_fld_fp32 :: "X87State \<Rightarrow> u32 \<Rightarrow> X87State" where
  "x87_fld_fp32 s v = setSt (push s) 0 (fp_widen v)"

definition x87_fld_fp64 :: "X87State \<Rightarrow> u64 \<Rightarrow> X87State" where
  "x87_fld_fp64 s v = setSt (push s) 0 v"

definition x87_fld_fp80 :: "X87State \<Rightarrow> X87Float80 \<Rightarrow> X87State" where
  "x87_fld_fp80 s v =
     (let (ieee754, sw) = ConvertX87RegisterToFloat64 v (statusWord s)
      in setSt (push (s\<lparr>statusWord := sw\<rparr>)) 0 ieee754)"

section \<open>Remainders and transcendental functions\<close>

definition x87_fpatan :: "libm \<Rightarrow> X87State \<Rightarrow> X87State" where
  "x87_fpatan lm s0 =
     (let (st0, s1) = getSt (sw_clear kConditionCode1 s0) 0; (st1, s2) = getSt s1 1
      in pop (setSt s2 1 (openlibm_atan2 lm st1 st0)))"

abbreviation cc_all :: u16 where
  "cc_all \<equiv> kConditionCode0 OR kConditionCode1 OR kConditionCode2 OR kConditionCode3"

definition quotient_bits :: "int \<Rightarrow> X87State \<Rightarrow> X87State" where
  "quotient_bits q s0 =
     (let s1 = (if q AND 4 \<noteq> 0 then sw_set kConditionCode0 s0 else s0);
          s2 = (if q AND 1 \<noteq> 0 then sw_set kConditionCode1 s1 else s1)
      in if q AND 2 \<noteq> 0 then sw_set kConditionCode3 s2 else s2)"

definition x87_fprem :: "libm \<Rightarrow> X87State \<Rightarrow> X87State" where
  "x87_fprem lm s0 =
     (let (st0, s1) = getSt (sw_clear cc_all s0) 0; (st1, s2) = getSt s1 1 in
      if x87_is_nan st0 \<or> x87_is_nan st1 \<or> x87_is_inf st0 \<or> fp_eq st1 0 then
        sw_set kInvalidOperation (setSt s2 0 fp_qnan)
      else if fp_isinf st1 then s2
      else
        let rem = openlibm_fmod lm st0 st1; s3 = setSt s2 0 rem in
        if fp_eq st0 0 then s3
        else if openlibm_ilogb lm st0 - openlibm_ilogb lm st1 \<ge> 64 then sw_set kConditionCode2 s3
        else
          let a = fp_abs st0; b = fp_abs st1;
              r8 = (if fp_le b 0x7FBFFFFFFFFFFFFF then openlibm_fmod lm a (fp_mul 0x4020000000000000 b) else a);
              q = rne (fp_val (fp_div (fp_sub r8 (fp_abs rem)) b))
          in quotient_bits q s3)"

definition x87_fprem1 :: "libm \<Rightarrow> X87State \<Rightarrow> X87State" where
  "x87_fprem1 lm s0 =
     (let (st0, s1) = getSt (sw_clear cc_all s0) 0; (st1, s2) = getSt s1 1 in
      if x87_is_nan st0 \<or> x87_is_nan st1 \<or> x87_is_inf st0 \<or> fp_eq st1 0 then
        sw_set kInvalidOperation (setSt s2 0 fp_qnan)
      else if fp_isinf st1 then s2
      else
        let (rem, q) = openlibm_remquo lm st0 st1; s3 = setSt s2 0 rem in
        if fp_eq st0 0 then s3
        else
          let s4 = quotient_bits q s3;
              D = openlibm_ilogb lm st0 - openlibm_ilogb lm st1
          in if D \<ge> 64 then sw_set kConditionCode2 s4 else s4)"

definition x87_fptan :: "libm \<Rightarrow> X87State \<Rightarrow> X87State" where
  "x87_fptan lm s0 =
     (let (v, s) = getSt (sw_clear (kConditionCode1 OR kConditionCode2) s0) 0;
          s1 = setSt s 0 (openlibm_tan lm v)
      in setSt (push s1) 0 fp_one)"

definition x87_frndint :: "X87State \<Rightarrow> X87State" where
  "x87_frndint s0 =
     (let s = sw_clear kConditionCode1 s0
      in setStFast s 0 (x87_round_by_rc (getStFast s 0) (controlWord s)))"

definition x87_fscale :: "libm \<Rightarrow> X87State \<Rightarrow> X87State" where
  "x87_fscale lm s0 =
     (let (st0, s1) = getSt (sw_clear kConditionCode1 s0) 0; (st1, s2) = getSt s1 1 in
      if x87_is_nan st1 then setSt s2 0 fp_qnan
      else
        let scale = (if fp_le 0x40F86A0000000000 st1 then 100000
                     else if fp_le st1 0xC0F86A0000000000 then - 100000
                     else fp_trunc_int st1)
        in setSt s2 0 (openlibm_scalbn lm st0 scale))"

definition x87_fsin :: "libm \<Rightarrow> X87State \<Rightarrow> X87State" where
  "x87_fsin lm s0 =
     (let s = sw_clear (kConditionCode1 OR kConditionCode2) s0
      in setStFast s 0 (openlibm_sin lm (getStFast s 0)))"

definition x87_fsincos :: "libm \<Rightarrow> X87State \<Rightarrow> X87State" where
  "x87_fsincos lm s0 =
     (let s = sw_clear (kConditionCode1 OR kConditionCode2) s0; v = getStFast s 0;
          s1 = setStFast s 0 (openlibm_sin lm v);
          s2 = setStFast (push s1) 0 (openlibm_cos lm v)
      in sw_clear kConditionCode2 s2)"

definition x87_fsqrt :: "X87State \<Rightarrow> X87State" where
  "x87_fsqrt s0 =
     (let s = sw_clear kConditionCode1 s0; v = getStFast s 0; s1 = sw_set kPrecision s
      in setStFast s1 0 (fp_sqrt v))"

section \<open>Stores\<close>

definition x87_fst_STi :: "X87State \<Rightarrow> u32 \<Rightarrow> bool \<Rightarrow> X87State" where
  "x87_fst_STi s0 st_offset do_pop =
     (let (v, s) = getSt (sw_clear kConditionCode1 s0) 0 in pop_if do_pop (setSt s st_offset v))"

definition x87_fst_fp32 :: "X87State \<Rightarrow> X87ResultStatusWord" where
  "x87_fst_fp32 s = (let (v, sw) = getStConst32 s 0 in \<lparr>signedResult = ucast v, rswStatusWord = sw\<rparr>)"

definition x87_fst_fp64 :: "X87State \<Rightarrow> X87ResultStatusWord" where
  "x87_fst_fp64 s = (let (v, sw) = getStConst s 0 in \<lparr>signedResult = v, rswStatusWord = sw\<rparr>)"

definition x87_fst_fp80 :: "X87State \<Rightarrow> X87Float80StatusWordResult" where
  "x87_fst_fp80 s =
     (let (bits, sw) = getStConst s 0;
          mantissa = bits AND 0xFFFFFFFFFFFFF;
          exp = (ucast (drop_bit 52 bits) AND 0x7FF :: u32);
          sign = (push_bit 15 (ucast (drop_bit 63 bits)) :: u16) in
      if exp = 0 then \<lparr>resMantissa = 0, resExponent = sign, resStatusWord = sw\<rparr>
      else if exp = 0x7FF then
        \<lparr>resMantissa = push_bit 11 mantissa OR 0x8000000000000000,
         resExponent = sign OR 0x7FFF, resStatusWord = sw\<rparr>
      else
        \<lparr>resMantissa = push_bit 11 mantissa OR 0x8000000000000000,
         resExponent = sign OR ucast (exp + 16383 - 1023), resStatusWord = sw\<rparr>)"

section \<open>Unordered compares, examine, exchange, extract, logarithms\<close>

definition x87_fucom :: "X87State \<Rightarrow> u32 \<Rightarrow> u32 \<Rightarrow> X87State" where
  "x87_fucom s0 st_offset npop =
     (let (st0, s1) = getSt s0 0; (src, s2) = getSt s1 st_offset; s3 = sw_clear cc_bits s2
      in pops (unat npop) (fucom_flags st0 src s3))"

definition x87_fucomi :: "X87State \<Rightarrow> u32 \<Rightarrow> bool \<Rightarrow> u32 \<times> X87State" where
  "x87_fucomi s0 st_offset pop_stack =
     (let (st0_val, s1) = getSt (sw_clear kConditionCode1 s0) 0; (sti_val, s2) = getSt s1 st_offset
      in (fcomi_flags st0_val sti_val, pop_if pop_stack s2))"

definition x87_fxam :: "X87State \<Rightarrow> X87State" where
  "x87_fxam s0 =
     (let tag = getStTag s0 0; s = sw_clear cc_all s0 in
      if tag = kEmpty then sw_set (kConditionCode3 OR kConditionCode0) s
      else if tag = kZero then
        let s1 = sw_set kConditionCode3 s; (v, s2) = getSt s1 0
        in if fp_sign v then sw_set kConditionCode1 s2 else s2
      else
        let (v, s1) = getSt s 0;
            s2 = (if fp_sign v then sw_set kConditionCode1 s1 else s1) in
        if fp_eq v 0 then sw_set kConditionCode3 s2
        else if x87_is_nan v then sw_set kConditionCode0 s2
        else if x87_is_inf v then sw_set (kConditionCode2 OR kConditionCode0) s2
        else if x87_is_subnormal v then sw_set (kConditionCode3 OR kConditionCode2) s2
        else sw_set kConditionCode2 s2)"

definition x87_fxch :: "X87State \<Rightarrow> u32 \<Rightarrow> X87State" where
  "x87_fxch s0 st_offset =
     (let (st0, s1) = getSt (sw_clear kConditionCode1 s0) 0; (sti, s2) = getSt s1 st_offset
      in setSt (setSt s2 0 sti) st_offset st0)"

definition x87_fxtract :: "libm \<Rightarrow> X87State \<Rightarrow> X87State" where
  "x87_fxtract lm s0 =
     (let (st0, s) = getSt s0 0 in
      if controlWord s AND kZeroDivideMask \<noteq> 0 \<and> fp_eq st0 0 then
        setSt (push (setSt s 0 fp_minf)) 0 (fp_copysign 0 st0)
      else if fp_isinf st0 then
        setSt (push (setSt s 0 fp_inf)) 0 st0
      else
        let e = fp_floor (openlibm_log2 lm (fp_abs st0));
            m = fp_div st0 (openlibm_pow lm 0x4000000000000000 e)
        in setSt (push (setSt s 0 e)) 0 m)"

definition fyl2x_common :: "libm \<Rightarrow> X87State \<Rightarrow> fp64 \<Rightarrow> X87State" where
  "fyl2x_common lm s0 c =
     (let (st0, s1) = getSt (sw_clear kConditionCode1 s0) 0; (st1, s2) = getSt s1 1;
          result =
            (if fp_eq c fp_one \<and> fp_lt (fp_abs st0) 0x3EB0000000000000 then
               fp_mul st1 (fp_mul (fp_mul st0
                 (fp_sub fp_one (fp_mul st0 (fp_sub 0x3FE0000000000000 (fp_mul st0 0x3FD5555555555555)))))
                 0x3FF71547652B82FE)
             else fp_mul st1 (openlibm_log2 lm (fp_add st0 c)))
      in setSt (pop s2) 0 result)"

definition x87_fyl2x :: "libm \<Rightarrow> X87State \<Rightarrow> X87State" where
  "x87_fyl2x lm s = fyl2x_common lm s 0"

definition x87_fyl2xp1 :: "libm \<Rightarrow> X87State \<Rightarrow> X87State" where
  "x87_fyl2xp1 lm s = fyl2x_common lm s fp_one"

definition x87_set_init_state :: "X87State \<Rightarrow> X87State" where
  "x87_set_init_state s =
     s\<lparr>controlWord := 0x037F, statusWord := 0x0000, tagWord := 0xFFFF, st := replicate 8 0\<rparr>"

section \<open>The instruction routines as one machine\<close>

datatype arith = AAdd | ASub | ASubr | AMul | ADiv | ADivr

datatype x87_op =
    Op_init | Op_set_init_state | Op_pop_register_stack | Op_f2xm1 | Op_fabs
  | Op_arith_ST arith u32 u32 bool | Op_arith_f32 arith u32 | Op_arith_f64 arith u64 | Op_iarith arith u32
  | Op_fbld u64 u64 | Op_fbstp | Op_fchs | Op_fcmov u32 u32
  | Op_fcom_ST u32 u32 | Op_fcom_f32 u32 bool | Op_fcom_f64 u64 bool | Op_fcomi u32 bool
  | Op_fcos | Op_fdecstp | Op_ficom u32 bool | Op_fild u64 | Op_fincstp
  | Op_fld_STi u32 | Op_fld_constant X87Constant | Op_fld_fp32 u32 | Op_fld_fp64 u64 | Op_fld_fp80 X87Float80
  | Op_fpatan | Op_fprem | Op_fprem1 | Op_fptan | Op_frndint | Op_fscale | Op_fsin | Op_fsincos | Op_fsqrt
  | Op_fst_STi u32 bool | Op_fucom u32 u32 | Op_fucomi u32 bool | Op_fxam | Op_fxch u32 | Op_fxtract
  | Op_fyl2x | Op_fyl2xp1

fun exec_arith_ST :: "arith \<Rightarrow> X87State \<Rightarrow> u32 \<Rightarrow> u32 \<Rightarrow> bool \<Rightarrow> X87State" where
  "exec_arith_ST AAdd = x87_fadd_ST" | "exec_arith_ST ASub = x87_fsub_ST" | "exec_arith_ST ASubr = x87_fsubr_ST"
| "exec_arith_ST AMul = x87_fmul_ST" | "exec_arith_ST ADiv = x87_fdiv_ST" | "exec_arith_ST ADivr = x87_fdivr_ST"

fun exec_arith_f32 :: "arith \<Rightarrow> X87State \<Rightarrow> u32 \<Rightarrow> X87State" where
  "exec_arith_f32 AAdd = x87_fadd_f32" | "exec_arith_f32 ASub = x87_fsub_f32" | "exec_arith_f32 ASubr = x87_fsubr_f32"
| "exec_arith_f32 AMul = x87_fmul_f32" | "exec_arith_f32 ADiv = x87_fdiv_f32" | "exec_arith_f32 ADivr = x87_fdivr_f32"

fun exec_arith_f64 :: "arith \<Rightarrow> X87State \<Rightarrow> u64 \<Rightarrow> X87State" where
  "exec_arith_f64 AAdd = x87_fadd_f64" | "exec_arith_f64 ASub = x87_fsub_f64" | "exec_arith_f64 ASubr = x87_fsubr_f64"
| "exec_arith_f64 AMul = x87_fmul_f64" | "exec_arith_f64 ADiv = x87_fdiv_f64" | "exec_arith_f64 ADivr = x87_fdivr_f64"

fun exec_iarith :: "arith \<Rightarrow> X87State \<Rightarrow> u32 \<Rightarrow> X87State" where
  "exec_iarith AAdd = x87_fiadd" | "exec_iarith ASub = x87_fisub" | "exec_iarith ASubr = x87_fisubr"
| "exec_iarith AMul = x87_fimul" | "exec_iarith ADiv = x87_fidiv" | "exec_iarith ADivr = x87_fidivr"

text \<open>What the six operations compute from the destination and the other operand.\<close>

fun arith_val :: "arith \<Rightarrow> fp64 \<Rightarrow> fp64 \<Rightarrow> fp64" where
  "arith_val AAdd d x = fp_add d x" | "arith_val ASub d x = fp_sub d x" | "arith_val ASubr d x = fp_sub x d"
| "arith_val AMul d x = fp_mul d x" | "arith_val ADiv d x = fp_div d x" | "arith_val ADivr d x = fp_div x d"

definition exec_op :: "libm \<Rightarrow> x87_op \<Rightarrow> X87State \<Rightarrow> X87State" where
  "exec_op lm op s = (case op of
       Op_init \<Rightarrow> x87_init s
     | Op_set_init_state \<Rightarrow> x87_set_init_state s
     | Op_pop_register_stack \<Rightarrow> x87_pop_register_stack s
     | Op_f2xm1 \<Rightarrow> x87_f2xm1 lm s
     | Op_fabs \<Rightarrow> x87_fabs s
     | Op_arith_ST a i j p \<Rightarrow> exec_arith_ST a s i j p
     | Op_arith_f32 a v \<Rightarrow> exec_arith_f32 a s v
     | Op_arith_f64 a v \<Rightarrow> exec_arith_f64 a s v
     | Op_iarith a v \<Rightarrow> exec_iarith a s v
     | Op_fbld a b \<Rightarrow> x87_fbld s a b
     | Op_fbstp \<Rightarrow> snd (x87_fbstp s)
     | Op_fchs \<Rightarrow> x87_fchs s
     | Op_fcmov c i \<Rightarrow> x87_fcmov s c i
     | Op_fcom_ST i n \<Rightarrow> x87_fcom_ST s i n
     | Op_fcom_f32 v p \<Rightarrow> x87_fcom_f32 s v p
     | Op_fcom_f64 v p \<Rightarrow> x87_fcom_f64 s v p
     | Op_fcomi i p \<Rightarrow> snd (x87_fcomi s i p)
     | Op_fcos \<Rightarrow> x87_fcos lm s
     | Op_fdecstp \<Rightarrow> x87_fdecstp s
     | Op_ficom v p \<Rightarrow> x87_ficom s v p
     | Op_fild v \<Rightarrow> x87_fild s v
     | Op_fincstp \<Rightarrow> x87_fincstp s
     | Op_fld_STi i \<Rightarrow> x87_fld_STi s i
     | Op_fld_constant c \<Rightarrow> x87_fld_constant s c
     | Op_fld_fp32 v \<Rightarrow> x87_fld_fp32 s v
     | Op_fld_fp64 v \<Rightarrow> x87_fld_fp64 s v
     | Op_fld_fp80 v \<Rightarrow> x87_fld_fp80 s v
     | Op_fpatan \<Rightarrow> x87_fpatan lm s
     | Op_fprem \<Rightarrow> x87_fprem lm s
     | Op_fprem1 \<Rightarrow> x87_fprem1 lm s
     | Op_fptan \<Rightarrow> x87_fptan lm s
     | Op_frndint \<Rightarrow> x87_frndint s
     | Op_fscale \<Rightarrow> x87_fscale lm s
     | Op_fsin \<Rightarrow> x87_fsin lm s
     | Op_fsincos \<Rightarrow> x87_fsincos lm s
     | Op_fsqrt \<Rightarrow> x87_fsqrt s
     | Op_fst_STi i p \<Rightarrow> x87_fst_STi s i p
     | Op_fucom i n \<Rightarrow> x87_fucom s i n
     | Op_fucomi i p \<Rightarrow> snd (x87_fucomi s i p)
     | Op_fxam \<Rightarrow> x87_fxam s
     | Op_fxch i \<Rightarrow> x87_fxch s i
     | Op_fxtract \<Rightarrow> x87_fxtract lm s
     | Op_fyl2x \<Rightarrow> x87_fyl2x lm s
     | Op_fyl2xp1 \<Rightarrow> x87_fyl2xp1 lm s)"

text \<open>The states the routines can reach from the initial one.\<close>

inductive reachable :: "libm \<Rightarrow> X87State \<Rightarrow> bool" for lm :: libm where
  reach_init: "reachable lm X87State_new"
| reach_step: "reachable lm s \<Longrightarrow> reachable lm (exec_op lm op s)"

definition op_top_delta :: "x87_op \<Rightarrow> nat \<Rightarrow> nat" where
  "op_top_delta op t = (case op of
       Op_init \<Rightarrow> 0
     | Op_set_init_state \<Rightarrow> 0
     | Op_pop_register_stack \<Rightarrow> (t + 1) mod 8
     | Op_arith_ST a i j p \<Rightarrow> (t + of_bool p) mod 8
     | Op_fbld a b \<Rightarrow> (t + 7) mod 8
     | Op_fbstp \<Rightarrow> (t + 1) mod 8
     | Op_fcom_ST i n \<Rightarrow> (t + unat n) mod 8
     | Op_fcom_f32 v p \<Rightarrow> (t + of_bool p) mod 8
     | Op_fcom_f64 v p \<Rightarrow> (t + of_bool p) mod 8
     | Op_fcomi i p \<Rightarrow> (t + of_bool p) mod 8
     | Op_fdecstp \<Rightarrow> (t + 7) mod 8
     | Op_ficom v p \<Rightarrow> (t + of_bool p) mod 8
     | Op_fild v \<Rightarrow> (t + 7) mod 8
     | Op_fincstp \<Rightarrow> (t + 1) mod 8
     | Op_fld_STi i \<Rightarrow> (t + 7) mod 8
     | Op_fld_constant c \<Rightarrow> (if c = kOtherConstant then t else (t + 7) mod 8)
     | Op_fld_fp32 v \<Rightarrow> (t + 7) mod 8
     | Op_fld_fp64 v \<Rightarrow> (t + 7) mod 8
     | Op_fld_fp80 v \<Rightarrow> (t + 7) mod 8
     | Op_fpatan \<Rightarrow> (t + 1) mod 8
     | Op_fptan \<Rightarrow> (t + 7) mod 8
     | Op_fsincos \<Rightarrow> (t + 7) mod 8
     | Op_fst_STi i p \<Rightarrow> (t + of_bool p) mod 8
     | Op_fucom i n \<Rightarrow> (t + unat n) mod 8
     | Op_fucomi i p \<Rightarrow> (t + of_bool p) mod 8
     | Op_fxtract \<Rightarrow> (t + 7) mod 8
     | Op_fyl2x \<Rightarrow> (t + 1) mod 8
     | Op_fyl2xp1 \<Rightarrow> (t + 1) mod 8
     | _ \<Rightarrow> t)"

text \<open>What a tag promises about the value of its register.\<close>

definition tag_ok :: "fp64 \<times> X87TagState \<Rightarrow> bool" where
  "tag_ok x = (case snd x of kValid \<Rightarrow> True
     | kZero \<Rightarrow> fp_iszero (fst x)
     | kSpecial \<Rightarrow> fp_isnan (fst x) \<or> fp_isinf (fst x) \<or> x87_is_subnormal (fst x)
     | kEmpty \<Rightarrow> fst x = 0)"

definition tags_ok :: "X87State \<Rightarrow> bool" where
  "tags_ok s \<longleftrightarrow> (\<forall>x \<in> set (stack_of s). tag_ok x)"

end
