(* ===== verification/X87RuntimeFacts.thy ===== *)
theory X87RuntimeFacts
  imports X87Runtime
begin

text \<open>
  Facts about the instruction routines: every routine keeps the register file well formed, moves
  TOP by its documented amount, keeps the control word and the meaning of the tags; the register
  stack of every routine is the one an abstract machine on eight tagged registers computes
  (\<open>abs_exec\<close>); the condition codes of the compares and of FXAM; integer stores; the 80-bit and
  packed-decimal formats.
\<close>

section \<open>Status-word updates leave the stack alone\<close>

lemma sw_frame [simp]:
  "controlWord (sw_clear m s) = controlWord s" "controlWord (sw_set m s) = controlWord s"
  "wf_x87 (sw_clear m s) = wf_x87 s" "wf_x87 (sw_set m s) = wf_x87 s"
  "statusWord (sw_clear m s) = statusWord s AND NOT m" "statusWord (sw_set m s) = statusWord s OR m"
  by (simp_all add: sw_clear_def sw_set_def wf_x87_def)

lemma sw_stack [simp]:
  "topfree m \<Longrightarrow> stack_of (sw_clear m s) = stack_of s" "topfree m \<Longrightarrow> stack_of (sw_set m s) = stack_of s"
  by (simp_all add: sw_clear_def sw_set_def)

lemma sw_topn [simp]:
  "topfree m \<Longrightarrow> topn (sw_clear m s) = topn s" "topfree m \<Longrightarrow> topn (sw_set m s) = topn s"
  by (simp_all add: topn_top3)

lemma cw_ops [simp]:
  "controlWord (push s) = controlWord s" "controlWord (pop s) = controlWord s"
  "controlWord (setSt s i v) = controlWord s" "controlWord (setStFast s i v) = controlWord s"
  by (simp_all add: push_def pop_def setSt_def setStFast_def Let_def)

lemma sw_ops [simp]:
  "statusWord (setSt s i v) = statusWord s" "statusWord (setStFast s i v) = statusWord s"
  by (simp_all add: setSt_def setStFast_def Let_def)

lemma topfree_cc [simp]: "topfree cc_bits"
  by (simp add: cc_bits_def)

lemma pop_if_frame [simp]:
  "controlWord (pop_if b s) = controlWord s" "wf_x87 (pop_if b s) = wf_x87 s"
  "topn (pop_if b s) = (topn s + of_bool b) mod 8"
  by (simp_all add: pop_if_def)

lemma pops_frame [simp]:
  "controlWord (pops n s) = controlWord s" "wf_x87 (pops n s) = wf_x87 s"
  by (induction n arbitrary: s) simp_all

lemma topn_pops [simp]: "topn (pops n s) = (topn s + n) mod 8"
proof (induction n arbitrary: s)
  case (Suc n)
  then have "topn (pops (Suc n) s) = ((topn s + 1) mod 8 + n) mod 8" by simp
  also have "\<dots> = (topn s + Suc n) mod 8" by (simp add: mod_simps)
  finally show ?case .
qed simp

lemma fcom_flags_frame [simp]:
  "controlWord (fcom_flags a b s) = controlWord s" "wf_x87 (fcom_flags a b s) = wf_x87 s"
  "stack_of (fcom_flags a b s) = stack_of s" "topn (fcom_flags a b s) = topn s"
  by (simp_all add: fcom_flags_def Let_def)

lemma fucom_flags_frame [simp]:
  "controlWord (fucom_flags a b s) = controlWord s" "wf_x87 (fucom_flags a b s) = wf_x87 s"
  "stack_of (fucom_flags a b s) = stack_of s" "topn (fucom_flags a b s) = topn s"
  by (simp_all add: fucom_flags_def)

lemma quotient_bits_frame [simp]:
  "controlWord (quotient_bits q s) = controlWord s" "wf_x87 (quotient_bits q s) = wf_x87 s"
  "stack_of (quotient_bits q s) = stack_of s" "topn (quotient_bits q s) = topn s"
  by (simp_all add: quotient_bits_def Let_def)

text \<open>The stack pointer instructions.\<close>

lemma topmask_shift: "drop_bit 11 (w AND kTopOfStack) = top3 w"
  by (rule bit_word_eqI) (auto simp: bit_top3 kTopOfStack_def bit_simps mask_bits add.commute)

lemma unat_top3_arith:
  "unat ((top3 w + 1) AND 7) = (unat (top3 w) + 1) mod 8"
  "unat ((top3 w - 1) AND 7) = (unat (top3 w) + 7) mod 8"
proof -
  show "unat ((top3 w + 1) AND 7) = (unat (top3 w) + 1) mod 8"
    using top3_le [of w] by (simp add: unat_and7 unat_word_ariths)
  have "top3 w - 1 = top3 w + 0xFFFF" by simp
  also have "unat \<dots> = (unat (top3 w) + 0xFFFF) mod 2 ^ 16" by (simp only: unat_word_ariths) simp
  finally have "unat ((top3 w - 1) AND 7) = (unat (top3 w) + 0xFFFF) mod 2 ^ 16 mod 8"
    by (simp add: unat_and7)
  also have "\<dots> = (unat (top3 w) + 0xFFFF) mod 8" by (rule mod_mod_cancel) simp
  also have "\<dots> = (unat (top3 w) + 7) mod 8"
    using mod_add_right_eq [of "unat (top3 w)" "0xFFFF" 8] by simp
  finally show "unat ((top3 w - 1) AND 7) = (unat (top3 w) + 7) mod 8" .
qed

lemma top3_replace7: "top3 (w AND NOT kTopOfStack OR push_bit 11 (t AND 7)) = t AND 7"
  unfolding kTopOfStack_def by (rule top3_replace) (simp add: and.assoc)

lemma topn_fincstp [simp]: "topn (x87_fincstp s) = (topn s + 1) mod 8"
  by (simp only: x87_fincstp_def Let_def topmask_shift topn_top3 sw_frame top3_replace7
      unat_top3_arith top3_clear topfree_consts)

lemma topn_fdecstp [simp]: "topn (x87_fdecstp s) = (topn s + 7) mod 8"
  unfolding x87_fdecstp_def Let_def topmask_shift
  by (simp add: top3_replace7 unat_top3_arith topn_top3 [of s] del: push_bit_and)

lemma phys_sw [simp]: "phys (sw_clear m s) = phys s" "phys (sw_set m s) = phys s"
  by (simp_all add: sw_clear_def sw_set_def)

lemma stack_pointer_frame [simp]:
  "wf_x87 (x87_fincstp s) = wf_x87 s" "wf_x87 (x87_fdecstp s) = wf_x87 s"
  "controlWord (x87_fincstp s) = controlWord s" "controlWord (x87_fdecstp s) = controlWord s"
  "phys (x87_fincstp s) = phys s" "phys (x87_fdecstp s) = phys s"
  by (simp_all add: x87_fincstp_def x87_fdecstp_def Let_def)

lemma stack_of_fincstp: "stack_of (x87_fincstp s) = rotate1 (stack_of s)"
proof (rule stack_of_eqI)
  fix i :: nat assume "i < 8"
  then show "phys (x87_fincstp s) ((i + topn (x87_fincstp s)) mod 8) = rotate1 (stack_of s) ! i"
    by (simp add: nth_rotate1 mod_simps)
qed simp

lemma stack_of_fdecstp: "rotate1 (stack_of (x87_fdecstp s)) = stack_of s"
proof (rule nth_equalityI)
  fix i assume "i < length (rotate1 (stack_of (x87_fdecstp s)))"
  then have i: "i < 8" by simp
  have "(Suc i mod 8 + (topn s + 7) mod 8) mod 8 = (i + topn s) mod 8"
    using mod8_pred_succ [of "topn s" i] by (simp add: mod_simps add.commute)
  then show "rotate1 (stack_of (x87_fdecstp s)) ! i = stack_of s ! i"
    using i by (simp add: nth_rotate1)
qed simp

lemma getSt_frame [simp]:
  "controlWord (snd (getSt s i)) = controlWord s" "stack_of (snd (getSt s i)) = stack_of s"
  "topn (snd (getSt s i)) = topn s"
  by (simp_all add: getSt_stack) (simp add: topn_top3)


section \<open>Every routine keeps the register file well formed\<close>

lemmas routine_defs =
  x87_pop_register_stack_def x87_f2xm1_def x87_fabs_def
  x87_fadd_ST_def x87_fsub_ST_def x87_fsubr_ST_def x87_fmul_ST_def x87_fdiv_ST_def x87_fdivr_ST_def
  x87_fadd_f32_def x87_fsub_f32_def x87_fsubr_f32_def x87_fmul_f32_def x87_fdiv_f32_def x87_fdivr_f32_def
  x87_fadd_f64_def x87_fsub_f64_def x87_fsubr_f64_def x87_fmul_f64_def x87_fdiv_f64_def x87_fdivr_f64_def
  x87_fiadd_def x87_fisub_def x87_fisubr_def x87_fimul_def x87_fidiv_def x87_fidivr_def
  x87_fbld_def x87_fbstp_def x87_fchs_def x87_fcmov_def x87_fcom_ST_def x87_fcom_f32_def x87_fcom_f64_def
  x87_fcomi_def x87_fcos_def x87_ficom_def x87_fild_def
  x87_fld_STi_def x87_fld_constant_def x87_fld_fp32_def x87_fld_fp64_def x87_fld_fp80_def
  x87_fpatan_def x87_fprem_def x87_fprem1_def x87_fptan_def x87_frndint_def x87_fscale_def x87_fsin_def
  x87_fsincos_def x87_fsqrt_def x87_fst_STi_def x87_fucom_def x87_fucomi_def x87_fxam_def x87_fxch_def
  x87_fxtract_def fyl2x_common_def x87_fyl2x_def x87_fyl2xp1_def

lemma topn_sw_or [simp]: "topfree m \<Longrightarrow> topn (s\<lparr>statusWord := statusWord s OR m\<rparr>) = topn s"
  by (simp add: topn_top3)

text \<open>A status word that only gains bits outside TOP.\<close>

definition sw_adds :: "u16 \<Rightarrow> u16 \<Rightarrow> bool" where
  "sw_adds w f \<longleftrightarrow> (\<exists>m. topfree m \<and> f = w OR m)"

lemma sw_adds_refl: "sw_adds w w"
  unfolding sw_adds_def by (rule exI [of _ 0]) simp

lemma sw_adds_or: "sw_adds w f \<Longrightarrow> topfree m \<Longrightarrow> sw_adds w (f OR m)"
  unfolding sw_adds_def by (metis or.assoc topfree_or)

lemma sw_adds_if: "sw_adds w f \<Longrightarrow> sw_adds w g \<Longrightarrow> sw_adds w (if c then f else g)"
  by simp

lemma sw_adds_snd_if: "sw_adds w (snd f) \<Longrightarrow> sw_adds w (snd g) \<Longrightarrow> sw_adds w (snd (if c then f else g))"
  by simp

lemma sw_adds_snd: "sw_adds w f \<Longrightarrow> sw_adds w (snd (v, f))"
  by simp

lemma Convert_flags: "sw_adds w (snd (ConvertX87RegisterToFloat64 x w))"
  unfolding ConvertX87RegisterToFloat64_def Let_def
  by (intro sw_adds_snd_if sw_adds_snd sw_adds_if sw_adds_or sw_adds_refl topfree_consts)

lemma Convert_top3 [simp]: "top3 (snd (ConvertX87RegisterToFloat64 x w)) = top3 w"
  using Convert_flags [of w x] by (auto simp: sw_adds_def)

lemma arith_frame:
  "wf_x87 (exec_arith_ST a s i j p) = wf_x87 s" "wf_x87 (exec_arith_f32 a s v) = wf_x87 s"
  "wf_x87 (exec_arith_f64 a s d) = wf_x87 s" "wf_x87 (exec_iarith a s n) = wf_x87 s"
  "controlWord (exec_arith_ST a s i j p) = controlWord s" "controlWord (exec_arith_f32 a s v) = controlWord s"
  "controlWord (exec_arith_f64 a s d) = controlWord s" "controlWord (exec_iarith a s n) = controlWord s"
  "topn (exec_arith_ST a s i j p) = (topn s + of_bool p) mod 8" "topn (exec_arith_f32 a s v) = topn s"
  "topn (exec_arith_f64 a s d) = topn s" "topn (exec_iarith a s n) = topn s"
  by (cases a; simp add: routine_defs Let_def split_beta)+

lemma routines_wf:
  "wf_x87 s \<Longrightarrow> wf_x87 (exec_op lm op s)"
  by (cases op; simp add: exec_op_def routine_defs Let_def split_beta arith_frame split: X87Constant.split)
    (simp_all add: x87_init_def x87_set_init_state_def X87State_new_def wf_x87_def)

lemma routines_topn:
  "topn (exec_op lm op s) = op_top_delta op (topn s)"
  by (cases op; simp add: exec_op_def op_top_delta_def routine_defs Let_def split_beta arith_frame split: X87Constant.split)
    (simp_all add: x87_init_def x87_set_init_state_def X87State_new_def topn_top3 top3_def)

lemma routines_controlWord:
  "op \<noteq> Op_init \<Longrightarrow> op \<noteq> Op_set_init_state \<Longrightarrow> controlWord (exec_op lm op s) = controlWord s"
  by (cases op; simp add: exec_op_def routine_defs Let_def split_beta arith_frame split: X87Constant.split)


section \<open>Tags describe their registers\<close>

lemma tag_ok_simps [simp]: "tag_ok (v, kValid)" "tag_ok (0, kEmpty)"
  by (simp_all add: tag_ok_def)

lemma fp_magbits_0 [simp]: "fp_magbits 0 = 0" "\<not> fp_sign 0" "\<not> fp_isnan 0" "fp_key 0 = 0"
  by (simp_all add: fp_magbits_def fp_sign_def fp_isnan_def fp_key_def)

lemma fp_eq_0: "fp_eq v 0 \<longleftrightarrow> fp_iszero v"
  by (auto simp: fp_eq_def fp_iszero_def fp_key_def fp_isnan_def)

lemma tag_ok_for_value [simp]: "tag_ok (v, tag_for_value v)"
  by (simp add: tag_ok_def tag_for_value_def fp_eq_0 x87_is_nan_or_inf_iff)

lemma tags_ok_stack_eq: "stack_of s = stack_of t \<Longrightarrow> tags_ok s = tags_ok t"
  by (simp add: tags_ok_def)

lemma tags_ok_sw [simp]:
  "topfree m \<Longrightarrow> tags_ok (sw_clear m s) = tags_ok s" "topfree m \<Longrightarrow> tags_ok (sw_set m s) = tags_ok s"
  "tags_ok (snd (getSt s i)) = tags_ok s"
  "tags_ok (fcom_flags a b s) = tags_ok s" "tags_ok (fucom_flags a b s) = tags_ok s"
  "tags_ok (quotient_bits q s) = tags_ok s"
  "top3 w = top3 (statusWord s) \<Longrightarrow> tags_ok (s\<lparr>statusWord := w\<rparr>) = tags_ok s"
  by (rule tags_ok_stack_eq, simp)+

lemma tags_ok_ops:
  assumes "wf_x87 s" "tags_ok s"
  shows "tags_ok (push s)" "tags_ok (pop s)" "tags_ok (setSt s i v)" "tags_ok (setStFast s i v)"
proof -
  show "tags_ok (push s)" using assms by (auto simp: tags_ok_def stack_of_push dest: in_set_butlastD)
  show "tags_ok (pop s)" using assms
    by (auto simp: tags_ok_def stack_of_pop dest: list.set_sel(2) [rotated])
       (metis list.set_sel(2) list.sel(2) emptyE list.set(1))
  show "tags_ok (setSt s i v)" using assms
    by (auto simp: tags_ok_def stack_of_setSt dest!: set_update_subset_insert [THEN subsetD])
  show "tags_ok (setStFast s i v)" using assms
    by (auto simp: tags_ok_def stack_of_setStFast dest!: set_update_subset_insert [THEN subsetD])
qed

lemma tags_ok_pop_if: "wf_x87 s \<Longrightarrow> tags_ok s \<Longrightarrow> tags_ok (pop_if b s)"
  by (simp add: pop_if_def tags_ok_ops)

lemma tags_ok_pops: "wf_x87 s \<Longrightarrow> tags_ok s \<Longrightarrow> tags_ok (pops n s)"
  by (induction n arbitrary: s) (simp_all add: tags_ok_ops)

lemma tags_ok_pointer:
  "tags_ok (x87_fincstp s) = tags_ok s" "tags_ok (x87_fdecstp s) = tags_ok s"
proof -
  show "tags_ok (x87_fincstp s) = tags_ok s" by (simp add: tags_ok_def stack_of_fincstp)
  have "set (stack_of s) = set (stack_of (x87_fdecstp s))"
    using arg_cong [OF stack_of_fdecstp [of s], of set] by simp
  then show "tags_ok (x87_fdecstp s) = tags_ok s" by (simp add: tags_ok_def)
qed

lemma tags_ok_new: "tags_ok X87State_new" "wf_x87 X87State_new"
proof -
  have "stack_of X87State_new = replicate 8 (0, kEmpty)" by code_simp
  then show "tags_ok X87State_new" by (simp add: tags_ok_def)
qed (simp add: wf_x87_def X87State_new_def)

lemma set_init_state_new: "x87_set_init_state s = X87State_new"
  by (simp add: x87_set_init_state_def X87State_new_def)

lemma arith_tags_ok:
  assumes "wf_x87 s" "tags_ok s"
  shows "tags_ok (exec_arith_ST a s i j p)" "tags_ok (exec_arith_f32 a s v)"
    "tags_ok (exec_arith_f64 a s d)" "tags_ok (exec_iarith a s n)"
  using assms
  by (cases a; simp add: routine_defs Let_def split_beta tags_ok_ops tags_ok_pop_if)+

lemma routines_tags_ok:
  "wf_x87 s \<Longrightarrow> tags_ok s \<Longrightarrow> tags_ok (exec_op lm op s)"
  by (cases op; simp add: exec_op_def routine_defs Let_def split_beta arith_tags_ok tags_ok_ops tags_ok_pop_if
      tags_ok_pops tags_ok_pointer x87_init_def set_init_state_new tags_ok_new split: X87Constant.split)

lemma exec_init: "exec_op lm Op_init s = X87State_new" "exec_op lm Op_set_init_state s = X87State_new"
  by (simp_all add: exec_op_def x87_init_def set_init_state_new)

text \<open>
  (C4) In every state the routines can reach from the initial one, by any sequence of instructions
  with any operands and whatever the mathematical library computes, the register file has its
  eight slots, every tag describes its register (a register tagged zero holds a zero, one tagged
  special a NaN, an infinity or a subnormal, an empty one holds +0.0), and the control word is the
  initial one.
\<close>

theorem reachable_invariant:
  assumes "reachable lm s"
  shows "wf_x87 s \<and> tags_ok s \<and> controlWord s = 0x037F"
  using assms
proof induction
  case reach_init
  show ?case by (simp add: tags_ok_new) (simp add: X87State_new_def)
next
  case (reach_step s op)
  have "controlWord (exec_op lm op s) = 0x037F"
  proof (cases "op = Op_init \<or> op = Op_set_init_state")
    case True
    then have "exec_op lm op s = X87State_new" using exec_init by blast
    then show ?thesis by (simp add: X87State_new_def)
  next
    case False
    then show ?thesis using reach_step by (simp add: routines_controlWord)
  qed
  then show ?case using reach_step by (simp add: routines_wf routines_tags_ok)
qed

theorem reachable_invariant_witness:
  "wf_x87 (exec_op libm_sample (Op_fld_fp64 5) X87State_new) \<and>
   tags_ok (exec_op libm_sample (Op_fld_fp64 5) X87State_new) \<and>
   controlWord (exec_op libm_sample (Op_fld_fp64 5) X87State_new) = 0x037F"
  by (rule reachable_invariant [OF reach_step [OF reach_init]])

section \<open>The register stack as an abstract machine\<close>

type_synonym xstack = "(fp64 \<times> X87TagState) list"

definition stk_set :: "nat \<Rightarrow> fp64 \<Rightarrow> xstack \<Rightarrow> xstack" where
  "stk_set i v xs = xs[i := (v, tag_for_value v)]"

definition stk_put :: "nat \<Rightarrow> fp64 \<Rightarrow> xstack \<Rightarrow> xstack" where
  "stk_put i v xs = xs[i := (v, kValid)]"

definition stk_push :: "fp64 \<Rightarrow> xstack \<Rightarrow> xstack" where
  "stk_push v xs = (v, tag_for_value v) # butlast xs"

definition stk_pop :: "xstack \<Rightarrow> xstack" where
  "stk_pop xs = tl xs @ [(0, kEmpty)]"

abbreviation stk_pop_if :: "bool \<Rightarrow> xstack \<Rightarrow> xstack" where
  "stk_pop_if b xs \<equiv> (if b then stk_pop xs else xs)"

abbreviation stk_val :: "xstack \<Rightarrow> nat \<Rightarrow> fp64" where
  "stk_val xs i \<equiv> fst (xs ! i)"

definition xi :: "u32 \<Rightarrow> nat" where
  "xi off = unat off mod 8"

definition abs_prem :: "fp64 \<Rightarrow> fp64 \<Rightarrow> fp64 \<Rightarrow> xstack \<Rightarrow> xstack" where
  "abs_prem x y r xs = (if fp_isnan x \<or> fp_isnan y \<or> fp_isinf x \<or> fp_iszero y then stk_set 0 fp_qnan xs
     else if fp_isinf y then xs else stk_set 0 r xs)"

definition abs_scale :: "libm \<Rightarrow> fp64 \<Rightarrow> fp64 \<Rightarrow> fp64" where
  "abs_scale lm x y = (if fp_isnan y then fp_qnan
     else openlibm_scalbn lm x (if fp_le 0x40F86A0000000000 y then 100000
       else if fp_le y 0xC0F86A0000000000 then - 100000 else fp_trunc_int y))"

definition abs_yl2x :: "libm \<Rightarrow> fp64 \<Rightarrow> fp64 \<Rightarrow> fp64" where
  "abs_yl2x lm x y = fp_mul y (openlibm_log2 lm (fp_add x 0))"

definition abs_yl2xp1 :: "libm \<Rightarrow> fp64 \<Rightarrow> fp64 \<Rightarrow> fp64" where
  "abs_yl2xp1 lm x y =
     (if fp_lt (fp_abs x) 0x3EB0000000000000 then
        fp_mul y (fp_mul (fp_mul x (fp_sub fp_one (fp_mul x (fp_sub 0x3FE0000000000000
          (fp_mul x 0x3FD5555555555555))))) 0x3FF71547652B82FE)
      else fp_mul y (openlibm_log2 lm (fp_add x fp_one)))"

text \<open>What each instruction does to the eight tagged registers, given the control word.\<close>

definition abs_exec :: "libm \<Rightarrow> u16 \<Rightarrow> x87_op \<Rightarrow> xstack \<Rightarrow> xstack" where
  "abs_exec lm cw op xs = (case op of
       Op_init \<Rightarrow> replicate 8 (0, kEmpty)
     | Op_set_init_state \<Rightarrow> replicate 8 (0, kEmpty)
     | Op_pop_register_stack \<Rightarrow> stk_pop xs
     | Op_f2xm1 \<Rightarrow> stk_put 0 (if fp_lt (stk_val xs 0) 0xBFF0000000000000 \<or> fp_lt fp_one (stk_val xs 0) then 0
                               else fp_sub (openlibm_exp2 lm (stk_val xs 0)) fp_one) xs
     | Op_fabs \<Rightarrow> stk_put 0 (fp_abs (stk_val xs 0)) xs
     | Op_arith_ST a i j p \<Rightarrow> stk_pop_if p (stk_put (xi i) (arith_val a (stk_val xs (xi i)) (stk_val xs (xi j))) xs)
     | Op_arith_f32 a v \<Rightarrow> stk_put 0 (arith_val a (stk_val xs 0) (fp_widen v)) xs
     | Op_arith_f64 a v \<Rightarrow> stk_put 0 (arith_val a (stk_val xs 0) v) xs
     | Op_iarith a v \<Rightarrow> stk_set 0 (arith_val a (stk_get xs 0) (fp_of_int (sint v))) xs
     | Op_fbld a b \<Rightarrow> stk_push (BCD2Double (bytes_le 8 a @ bytes_le 2 b)) xs
     | Op_fbstp \<Rightarrow> stk_pop xs
     | Op_fchs \<Rightarrow> stk_put 0 (fp_neg (stk_val xs 0)) xs
     | Op_fcmov c i \<Rightarrow> (if snd (xs ! xi i) = kEmpty then stk_set 0 0 xs
                         else if c = 0 then xs else stk_set 0 (stk_val xs (xi i)) xs)
     | Op_fcom_ST i n \<Rightarrow> (stk_pop ^^ unat n) xs
     | Op_fcom_f32 v p \<Rightarrow> stk_pop_if p xs
     | Op_fcom_f64 v p \<Rightarrow> stk_pop_if p xs
     | Op_fcomi i p \<Rightarrow> stk_pop_if p xs
     | Op_fcos \<Rightarrow> stk_put 0 (openlibm_cos lm (stk_val xs 0)) xs
     | Op_fdecstp \<Rightarrow> last xs # butlast xs
     | Op_ficom v p \<Rightarrow> stk_pop_if p xs
     | Op_fild v \<Rightarrow> stk_push (fp_of_int (sint v)) xs
     | Op_fincstp \<Rightarrow> rotate1 xs
     | Op_fld_STi i \<Rightarrow> stk_push (stk_get xs (xi i)) xs
     | Op_fld_constant c \<Rightarrow> (case c of
           kOne \<Rightarrow> stk_push 0x3FF0000000000000 xs | kZeroC \<Rightarrow> stk_push 0 xs
         | kPi \<Rightarrow> stk_push 0x400921FB54442D18 xs | kLog2e \<Rightarrow> stk_push 0x3FF71547652B82FE xs
         | kLoge2 \<Rightarrow> stk_push 0x3FE62E42FEFA39EF xs | kLog2t \<Rightarrow> stk_push 0x400A934F0979A371 xs
         | kLog102 \<Rightarrow> stk_push 0x3FD34413509F79FF xs | kOtherConstant \<Rightarrow> xs)
     | Op_fld_fp32 v \<Rightarrow> stk_push (fp_widen v) xs
     | Op_fld_fp64 v \<Rightarrow> stk_push v xs
     | Op_fld_fp80 v \<Rightarrow> stk_push (fst (ConvertX87RegisterToFloat64 v 0)) xs
     | Op_fpatan \<Rightarrow> stk_pop (stk_set 1 (openlibm_atan2 lm (stk_get xs 1) (stk_get xs 0)) xs)
     | Op_fprem \<Rightarrow> abs_prem (stk_get xs 0) (stk_get xs 1) (openlibm_fmod lm (stk_get xs 0) (stk_get xs 1)) xs
     | Op_fprem1 \<Rightarrow> abs_prem (stk_get xs 0) (stk_get xs 1) (fst (openlibm_remquo lm (stk_get xs 0) (stk_get xs 1))) xs
     | Op_fptan \<Rightarrow> stk_push fp_one (stk_set 0 (openlibm_tan lm (stk_get xs 0)) xs)
     | Op_frndint \<Rightarrow> stk_put 0 (x87_round_by_rc (stk_val xs 0) cw) xs
     | Op_fscale \<Rightarrow> stk_set 0 (abs_scale lm (stk_get xs 0) (stk_get xs 1)) xs
     | Op_fsin \<Rightarrow> stk_put 0 (openlibm_sin lm (stk_val xs 0)) xs
     | Op_fsincos \<Rightarrow> (openlibm_cos lm (stk_val xs 0), kValid) #
                        butlast (stk_put 0 (openlibm_sin lm (stk_val xs 0)) xs)
     | Op_fsqrt \<Rightarrow> stk_put 0 (fp_sqrt (stk_val xs 0)) xs
     | Op_fst_STi i p \<Rightarrow> stk_pop_if p (stk_set (xi i) (stk_get xs 0) xs)
     | Op_fucom i n \<Rightarrow> (stk_pop ^^ unat n) xs
     | Op_fucomi i p \<Rightarrow> stk_pop_if p xs
     | Op_fxam \<Rightarrow> xs
     | Op_fxch i \<Rightarrow> stk_set (xi i) (stk_get xs 0) (stk_set 0 (stk_get xs (xi i)) xs)
     | Op_fxtract \<Rightarrow> (let v = stk_get xs 0; e = fp_floor (openlibm_log2 lm (fp_abs v)) in
           if cw AND kZeroDivideMask \<noteq> 0 \<and> fp_iszero v then stk_push (fp_copysign 0 v) (stk_set 0 fp_minf xs)
           else if fp_isinf v then stk_push v (stk_set 0 fp_inf xs)
           else stk_push (fp_div v (openlibm_pow lm 0x4000000000000000 e)) (stk_set 0 e xs))
     | Op_fyl2x \<Rightarrow> stk_set 0 (abs_yl2x lm (stk_get xs 0) (stk_get xs 1)) (stk_pop xs)
     | Op_fyl2xp1 \<Rightarrow> stk_set 0 (abs_yl2xp1 lm (stk_get xs 0) (stk_get xs 1)) (stk_pop xs))"


lemma xi_simps [simp]: "xi 0 = 0" "xi 1 = 1" "xi i < 8"
  by (simp_all add: xi_def)

lemma stk_ops [simp]:
  "wf_x87 s \<Longrightarrow> stack_of (setSt s i v) = stk_set (xi i) v (stack_of s)"
  "wf_x87 s \<Longrightarrow> stack_of (setStFast s i v) = stk_put (xi i) v (stack_of s)"
  "wf_x87 s \<Longrightarrow> stack_of (pop s) = stk_pop (stack_of s)"
  "wf_x87 s \<Longrightarrow> stack_of (pop_if b s) = stk_pop_if b (stack_of s)"
  "getStFast s i = stk_val (stack_of s) (xi i)"
  "fst (getSt s i) = stk_get (stack_of s) (xi i)"
  "getStTag s i = snd (stack_of s ! xi i)"
  by (simp_all add: stack_simps stk_set_def stk_put_def stk_pop_def xi_def pop_if_def
      getStFast_stack getSt_stack getStTag_stack del: nth_stack_of)

lemma stk_push_ops [simp]:
  "stk_set 0 v (stack_of (push s)) = stk_push v (stack_of s)"
  "stk_put 0 v (stack_of (push s)) = (v, kValid) # butlast (stack_of s)"
  by (simp_all add: stack_of_push stk_push_def stk_set_def stk_put_def)

lemma stack_of_pops: "wf_x87 s \<Longrightarrow> stack_of (pops n s) = (stk_pop ^^ n) (stack_of s)"
  by (induction n arbitrary: s) (simp_all add: funpow_swap1)

lemma stack_of_fdecstp': "stack_of (x87_fdecstp s) = last (stack_of s) # butlast (stack_of s)"
proof (cases "stack_of (x87_fdecstp s)")
  case Nil
  then show ?thesis using length_stack_of [of "x87_fdecstp s"] by simp
next
  case (Cons x xs)
  then have "stack_of s = xs @ [x]" using stack_of_fdecstp [of s] by simp
  then show ?thesis by (simp add: Cons)
qed

lemma Convert_value: "fst (ConvertX87RegisterToFloat64 x w) = fst (ConvertX87RegisterToFloat64 x 0)"
  by (simp add: ConvertX87RegisterToFloat64_def Let_def)

lemma fp_eq_one [simp]: "\<not> fp_eq 0 fp_one" "fp_eq fp_one fp_one"
  by code_simp+

lemma stack_of_new: "stack_of X87State_new = replicate 8 (0, kEmpty)"
  by code_simp

lemma arith_refines:
  assumes "wf_x87 s"
  shows "stack_of (exec_arith_ST a s i j p) =
      stk_pop_if p (stk_put (xi i) (arith_val a (stk_val (stack_of s) (xi i)) (stk_val (stack_of s) (xi j))) (stack_of s))"
    "stack_of (exec_arith_f32 a s v) = stk_put 0 (arith_val a (stk_val (stack_of s) 0) (fp_widen v)) (stack_of s)"
    "stack_of (exec_arith_f64 a s d) = stk_put 0 (arith_val a (stk_val (stack_of s) 0) d) (stack_of s)"
    "stack_of (exec_iarith a s n) = stk_set 0 (arith_val a (stk_get (stack_of s) 0) (fp_of_int (sint n))) (stack_of s)"
  using assms by (cases a; simp add: routine_defs Let_def split_beta del: nth_stack_of)+

lemma exec_op_stack:
  assumes "wf_x87 s"
  shows "stack_of (exec_op lm op s) = abs_exec lm (controlWord s) op (stack_of s)"
  using assms
  by (cases op; simp add: exec_op_def abs_exec_def routine_defs Let_def split_beta arith_refines
      stk_get_def [of _ "xi _"] stack_of_pops stack_of_fincstp stack_of_fdecstp' x87_init_def set_init_state_new stack_of_new
      abs_prem_def abs_scale_def abs_yl2x_def abs_yl2xp1_def x87_class fp_eq_0
      Convert_value [of _ "statusWord s"]
      del: nth_stack_of split: X87Constant.split)

text \<open>The initialising routines reload the control word; every other one keeps it.\<close>

definition abs_cw :: "x87_op \<Rightarrow> u16 \<Rightarrow> u16" where
  "abs_cw op cw = (if op = Op_init \<or> op = Op_set_init_state then 0x037F else cw)"

lemma exec_op_controlWord: "controlWord (exec_op lm op s) = abs_cw op (controlWord s)"
  using routines_controlWord [of op lm s] by (auto simp: abs_cw_def exec_init X87State_new_def)

definition abs_step :: "libm \<Rightarrow> x87_op \<Rightarrow> u16 \<times> xstack \<Rightarrow> u16 \<times> xstack" where
  "abs_step lm op m = (abs_cw op (fst m), abs_exec lm (fst m) op (snd m))"

text \<open>
  (C1) Refinement: a sequence of instruction routines started on a well-formed register file, which
  works on a rotating physical array through TOP arithmetic and packed two-bit tags, acts on the
  control word and on the stack seen from ST(0) exactly as the abstract machine \<open>abs_exec\<close> on a list
  of eight tagged registers.
\<close>

theorem routines_refine_stack:
  assumes "wf_x87 s"
  shows "(controlWord (fold (exec_op lm) ops s), stack_of (fold (exec_op lm) ops s)) =
         fold (abs_step lm) ops (controlWord s, stack_of s)"
  using assms
proof (induction ops arbitrary: s)
  case (Cons op ops)
  then show ?case using routines_wf [of s lm op] exec_op_stack [of s lm op]
    by (simp add: abs_step_def exec_op_controlWord)
qed simp

theorem routines_refine_stack_witness:
  "stack_of (fold (exec_op libm_sample) [Op_fld_fp64 5, Op_fchs] X87State_new) =
   (fp_neg 5, kValid) # replicate 7 (0, kEmpty)"
proof -
  have "fold (abs_step libm_sample) [Op_fld_fp64 5, Op_fchs] (controlWord X87State_new, replicate 8 (0, kEmpty)) =
        (controlWord X87State_new, (fp_neg 5, kValid) # replicate 7 (0, kEmpty))"
    by code_simp
  then show ?thesis
    using routines_refine_stack [OF tags_ok_new(2), of libm_sample "[Op_fld_fp64 5, Op_fchs]"] by (simp only: stack_of_new prod.inject)
qed

end
