(* ===== verification/Fp64Exact.thy ===== *)
theory Fp64Exact
  imports Fp64
begin

text \<open>
  Exactness facts of the binary64 arithmetic: the comparison of bit patterns is the order of the
  values, a number with at most 53 significant bits within the exponent range is rounded to
  itself, and the four rounding modes to an integer give the integer itself.
\<close>

section \<open>Order of patterns and order of values\<close>

declare fp_mag_nonneg [simp]

lemma fp_mag_less:
  assumes "fp_magbits x < fp_magbits y"
  shows "fp_mag x < fp_mag y"
proof (cases "fp_exp x = fp_exp y")
  case True
  then have "fp_frac x < fp_frac y" using assms by (simp add: fp_exp_frac)
  then show ?thesis using True by (simp add: fp_mag_def)
next
  case False
  have "fp_exp x \<le> fp_exp y" using assms by (simp add: fp_exp_def zdiv_mono1)
  then have lt: "fp_exp x < fp_exp y" using False by simp
  define u where "u = max (fp_exp x) 1 - 1075"
  have "of_int (2 ^ 52 + fp_frac x) < (of_int (2 ^ 53) :: rat)"
    unfolding of_int_less_iff using fp_frac_bounds(2) [of x] by simp
  then have a: "of_int (2 ^ 52 + fp_frac x) * pow2 u < 2 ^ 53 * pow2 u" by simp
  show ?thesis
  proof (cases "fp_exp x = 0")
    case True
    have "of_int (fp_frac x) < (of_int (2 ^ 52) :: rat)"
      unfolding of_int_less_iff using fp_frac_bounds(2) [of x] by simp
    then have "fp_mag x < 2 ^ 52 * pow2 (- 1074)" using True by (simp add: fp_mag_def)
    also have "\<dots> \<le> 2 ^ 52 * pow2 (fp_exp y - 1075)" using lt True by (simp add: pow2_le_iff)
    also have "\<dots> \<le> fp_mag y" using lt True fp_frac_bounds(1) [of y] by (simp add: fp_mag_def)
    finally show ?thesis .
  next
    case nz: False
    then have u: "u = fp_exp x - 1075" using fp_exp_nonneg [of x] by (simp add: u_def max_def)
    have "fp_mag x < 2 ^ 53 * pow2 u" using a nz by (simp add: fp_mag_def u)
    also have "\<dots> = 2 ^ 52 * pow2 (u + 1)" by (simp add: pow2_add) (simp add: pow2_def)
    also have "\<dots> \<le> 2 ^ 52 * pow2 (fp_exp y - 1075)" using lt by (simp add: pow2_le_iff u)
    also have "\<dots> \<le> fp_mag y" using lt fp_exp_nonneg [of x] fp_frac_bounds(1) [of y] by (simp add: fp_mag_def)
    finally show ?thesis .
  qed
qed

lemma fp_mag_less_iff: "fp_mag x < fp_mag y \<longleftrightarrow> fp_magbits x < fp_magbits y"
proof
  assume lt: "fp_mag x < fp_mag y"
  have "fp_mag x = fp_mag y" if "fp_magbits x = fp_magbits y"
    using that by (simp add: fp_mag_def fp_exp_def fp_frac_def)
  then show "fp_magbits x < fp_magbits y" using lt fp_mag_less [of y x] by (cases "fp_magbits x" "fp_magbits y" rule: linorder_cases) auto
qed (rule fp_mag_less)

lemma fp_key_less_iff: "fp_key x < fp_key y \<longleftrightarrow> fp_val x < fp_val y"
proof -
  have z: "0 < fp_mag v \<longleftrightarrow> 0 < fp_magbits v" for v
    using fp_mag_0_iff [of v] fp_mag_nonneg [of v] fp_magbits_bounds(1) [of v]
    by (simp add: fp_iszero_def order_less_le)
  have n: "\<not> fp_mag v < - fp_mag w" "\<not> fp_magbits v < - fp_magbits w" for v w
    using fp_mag_nonneg [of v] fp_mag_nonneg [of w] fp_magbits_bounds(1) [of v] fp_magbits_bounds(1) [of w] by linarith+
  have m: "- fp_mag v < fp_mag w \<longleftrightarrow> 0 < fp_mag v \<or> 0 < fp_mag w"
    "- fp_magbits v < fp_magbits w \<longleftrightarrow> 0 < fp_magbits v \<or> 0 < fp_magbits w" for v w
    using fp_mag_nonneg [of v] fp_mag_nonneg [of w] fp_magbits_bounds(1) [of v] fp_magbits_bounds(1) [of w] by linarith+
  show ?thesis by (cases "fp_sign x"; cases "fp_sign y"; simp add: fp_key_def fp_val_def fp_mag_less_iff n m z)
qed

lemma fp_key_le_iff: "fp_key x \<le> fp_key y \<longleftrightarrow> fp_val x \<le> fp_val y"
  using fp_key_less_iff [of y x] by (simp add: not_less [symmetric])

lemma fp_key_eq_iff: "fp_key x = fp_key y \<longleftrightarrow> fp_val x = fp_val y"
  by (metis fp_key_le_iff order_antisym order_refl)

lemma fp_lt_val: "\<not> fp_isnan x \<Longrightarrow> \<not> fp_isnan y \<Longrightarrow> fp_lt x y \<longleftrightarrow> fp_val x < fp_val y"
  by (simp add: fp_lt_def fp_key_less_iff)

lemma fp_le_val: "\<not> fp_isnan x \<Longrightarrow> \<not> fp_isnan y \<Longrightarrow> fp_le x y \<longleftrightarrow> fp_val x \<le> fp_val y"
  by (simp add: fp_le_def fp_key_le_iff)

section \<open>Values with at most 53 significant bits are represented exactly\<close>

lemma round_bits_exact:
  assumes "0 < f" "f < 2 ^ 53" "- 1074 \<le> u" "u \<le> 971"
  defines "q \<equiv> of_int f * pow2 u"
  obtains u' n where "round_bits 52 (- 1074) q = (u' + 1074) * 2 ^ 52 + n" "q = of_int n * pow2 u'"
    "- 1074 \<le> u'" "u' \<le> 971" "0 \<le> n" "n < 2 ^ 53" "u' = - 1074 \<or> 2 ^ 52 \<le> n"
proof -
  have q0: "0 < q" using assms(1) by (simp add: q_def)
  have "(of_int f :: rat) < of_int (2 ^ 53)" using assms(2) by (simp only: of_int_less_iff)
  then have "(of_int f :: rat) < pow2 53" by (simp add: pow2_def)
  then have "q < pow2 53 * pow2 u" by (simp add: q_def)
  then have lt: "q < pow2 (53 + u)" by (simp add: pow2_add)
  then have "pow2 (ilog2 q) < pow2 (53 + u)" using ilog2_bounds(1) [OF q0] by linarith
  then have il: "ilog2 q - 52 \<le> u" by (simp add: pow2_less_iff)
  define u' where "u' = max (ilog2 q - 52) (- 1074)"
  have uu: "u' \<le> u" "- 1074 \<le> u'" using il assms(3) by (simp_all add: u'_def)
  define n where "n = f * 2 ^ nat (u - u')"
  have qn: "q = of_int n * pow2 u'"
  proof -
    have "pow2 (int (nat (u - u'))) * pow2 u' = pow2 u" using uu by (simp flip: pow2_add)
    then have "2 ^ nat (u - u') * pow2 u' = pow2 u" by (simp only: pow2_nat)
    then show ?thesis by (simp add: q_def n_def mult.assoc)
  qed
  have n0: "0 < n" using assms(1) by (simp add: n_def)
  have "q < pow2 (ilog2 q + 1)" by (rule ilog2_bounds(2) [OF q0])
  also have "\<dots> \<le> pow2 (53 + u')" by (simp add: pow2_le_iff u'_def)
  finally have "of_int n < pow2 53" by (simp add: qn pow2_add)
  then have "(of_int n :: rat) < of_int (2 ^ 53)" by (simp add: pow2_def)
  then have n53: "n < 2 ^ 53" by (simp only: of_int_less_iff)
  have n52: "u' = - 1074 \<or> 2 ^ 52 \<le> n"
  proof (cases "u' = - 1074")
    case False
    then have "ilog2 q = 52 + u'" by (simp add: u'_def max_def split: if_splits)
    then have "pow2 52 * pow2 u' \<le> of_int n * pow2 u'" using ilog2_bounds(1) [OF q0] by (simp add: pow2_add flip: qn)
    then have "pow2 52 \<le> of_int n" by simp
    then have "(of_int (2 ^ 52) :: rat) \<le> of_int n" by (simp add: pow2_def)
    then have "2 ^ 52 \<le> n" by (simp only: of_int_le_iff)
    then show ?thesis ..
  qed simp
  have "round_bits 52 (- 1074) q = (u' + 1074) * 2 ^ 52 + n"
    using q0 by (simp add: round_bits_def Let_def u'_def [symmetric]) (simp add: qn)
  moreover have "u' \<le> 971" "0 \<le> n" using uu assms(4) n0 by simp_all
  ultimately show thesis using that qn uu(2) n53 n52 by blast
qed

lemma fp_round_exact:
  assumes "0 \<le> f" "f < 2 ^ 53" "- 1074 \<le> u" "u \<le> 971"
  shows "fp_mag (fp_round s (of_int f * pow2 u)) = of_int f * pow2 u \<and>
         fp_sign (fp_round s (of_int f * pow2 u)) = s \<and> fp_finite (fp_round s (of_int f * pow2 u))"
proof (cases "f = 0")
  case True
  have "fp_round s 0 = fp_withsign s 0" by (simp add: fp_round_def round_bits_def)
  moreover have "fp_mag (fp_withsign s 0) = 0" by (simp add: fp_mag_0_iff fp_iszero_def)
  ultimately show ?thesis using True by simp
next
  case False
  define q where "q = of_int f * pow2 u"
  obtain u' n where r: "round_bits 52 (- 1074) q = (u' + 1074) * 2 ^ 52 + n" "q = of_int n * pow2 u'"
    "- 1074 \<le> u'" "u' \<le> 971" "0 \<le> n" "n < 2 ^ 53" "u' = - 1074 \<or> 2 ^ 52 \<le> n"
    using round_bits_exact [of f u] False assms unfolding q_def by (metis order_less_le)
  define b where "b = (u' + 1074) * 2 ^ 52 + n"
  have b: "0 \<le> b" "b < 0x7FF0000000000000" using r by (simp_all add: b_def)
  have w: "fp_round s q = fp_withsign s b" using b(2) by (simp add: fp_round_def r(1) b_def)
  have e: "fp_exp (fp_round s q) = b div 2 ^ 52" "fp_frac (fp_round s q) = b mod 2 ^ 52"
    using b by (simp_all add: w fp_exp_def fp_frac_def)
  have "fp_mag (fp_round s q) = q"
  proof (cases "2 ^ 52 \<le> n")
    case True
    have "b = (n - 2 ^ 52) + (u' + 1075) * 2 ^ 52" by (simp add: b_def)
    then have d: "b div 2 ^ 52 = u' + 1075" using True r(6) by simp
    have m: "b mod 2 ^ 52 = n - 2 ^ 52" using d div_mult_mod_eq [of b "2 ^ 52"] by (simp add: b_def)
    then show ?thesis using r(3) True unfolding fp_mag_def e d m by (simp add: r(2))
  next
    case F: False
    then have "u' = - 1074" using r(7) by simp
    then have "b = n" by (simp add: b_def)
    then have d: "b div 2 ^ 52 = 0" and m: "b mod 2 ^ 52 = n" using F r(5) by simp_all
    show ?thesis unfolding fp_mag_def e d m by (simp add: r(2) \<open>u' = - 1074\<close>)
  qed
  then show ?thesis using b w by (simp add: q_def)
qed


lemma fp_round_int_exact:
  assumes "0 \<le> n" "n \<le> 2 ^ 53"
  shows "fp_mag (fp_round s (of_int n)) = of_int n \<and> fp_sign (fp_round s (of_int n)) = s \<and>
         fp_finite (fp_round s (of_int n))"
proof (cases "n = 2 ^ 53")
  case True
  have "(of_int n :: rat) = of_int (2 ^ 52) * pow2 1" by (simp add: True pow2_def)
  then show ?thesis using fp_round_exact [of "2 ^ 52" 1 s] by simp
next
  case False
  then show ?thesis using fp_round_exact [of n 0 s] assms by (simp add: pow2_def)
qed

section \<open>Rounding to an integer is exact\<close>

text \<open>A rounding function fixes the integers, keeps the sign and stays within 2^52 below it.\<close>

definition int_rounding :: "(rat \<Rightarrow> int) \<Rightarrow> bool" where
  "int_rounding f \<longleftrightarrow> (\<forall>n. f (of_int n) = n) \<and> (\<forall>q \<ge> 0. 0 \<le> f q) \<and> (\<forall>q \<le> 0. f q \<le> 0) \<and>
     (\<forall>q. \<bar>q\<bar> \<le> 2 ^ 52 \<longrightarrow> \<bar>f q\<bar> \<le> 2 ^ 52)"

lemma int_roundingI:
  assumes "mono f" "\<And>n. f (of_int n) = n"
  shows "int_rounding f"
proof -
  have b: "f q \<le> 2 ^ 52 \<and> - (2 ^ 52) \<le> f q" if "\<bar>q\<bar> \<le> 2 ^ 52" for q
  proof -
    have "q \<le> of_int (2 ^ 52)" "of_int (- (2 ^ 52)) \<le> q" using that by (simp_all add: abs_le_iff)
    then have "f q \<le> f (of_int (2 ^ 52))" "f (of_int (- (2 ^ 52))) \<le> f q" using assms(1) by (blast dest: monoD)+
    then show ?thesis by (simp only: assms(2))
  qed
  have z: "f 0 = 0" using assms(2) [of 0] by simp
  have "0 \<le> f q" if "0 \<le> q" for q using monoD [OF assms(1) that] by (simp add: z)
  moreover have "f q \<le> 0" if "q \<le> 0" for q using monoD [OF assms(1) that] by (simp add: z)
  ultimately show ?thesis using b assms(2) unfolding int_rounding_def abs_le_iff
    by (metis abs_le_iff minus_le_iff)
qed

lemma rne_floor: "rne q = \<lfloor>q\<rfloor> \<or> rne q = \<lfloor>q\<rfloor> + 1"
  by (auto simp: rne_def Let_def)

lemma rne_mono: "mono rne"
proof
  fix a b :: rat assume ab: "a \<le> b"
  then have fl: "\<lfloor>a\<rfloor> \<le> \<lfloor>b\<rfloor>" by (rule floor_mono)
  show "rne a \<le> rne b"
  proof (cases "\<lfloor>a\<rfloor> = \<lfloor>b\<rfloor>")
    case True then show ?thesis using ab by (auto simp: rne_def Let_def)
  next
    case False then show ?thesis using fl rne_floor [of a] rne_floor [of b] by linarith
  qed
qed

lemma rat_trunc_mono: "mono rat_trunc"
proof
  fix a b :: rat assume ab: "a \<le> b"
  have f: "0 \<le> q \<Longrightarrow> 0 \<le> \<lfloor>q\<rfloor>" for q :: rat by simp
  show "rat_trunc a \<le> rat_trunc b"
  proof (cases "a < 0 \<and> \<not> b < 0")
    case True
    then have "0 \<le> \<lfloor>- a\<rfloor>" "0 \<le> \<lfloor>b\<rfloor>" by (simp_all add: f)
    then have "- \<lfloor>- a\<rfloor> \<le> \<lfloor>b\<rfloor>" by linarith
    then show ?thesis using True by (simp add: rat_trunc_def)
  next
    case False
    then show ?thesis using ab floor_mono [OF ab] floor_mono [of "- b" "- a"] by (auto simp: rat_trunc_def)
  qed
qed

lemma int_roundings [simp]: "int_rounding floor" "int_rounding ceiling" "int_rounding rat_trunc" "int_rounding rne"
proof -
  show "int_rounding floor" by (rule int_roundingI) (auto intro: monoI floor_mono)
  show "int_rounding ceiling" by (rule int_roundingI) (auto intro: monoI ceiling_mono)
  show "int_rounding rat_trunc" by (rule int_roundingI [OF rat_trunc_mono]) (simp add: rat_trunc_def)
  show "int_rounding rne" by (rule int_roundingI [OF rne_mono]) simp
qed

lemma fp_mag_int:
  assumes "2 ^ 52 \<le> fp_mag x"
  obtains n where "fp_mag x = of_int n" "0 \<le> n"
proof -
  have e: "fp_exp x - 1075 \<ge> 0"
  proof (rule ccontr)
    assume "\<not> ?thesis"
    then have le: "fp_exp x - 1075 \<le> - 1" by simp
    have f: "(of_int (2 ^ 52 + fp_frac x) :: rat) < of_int (2 ^ 53)" "(of_int (fp_frac x) :: rat) < of_int (2 ^ 52)"
      unfolding of_int_less_iff using fp_frac_bounds(2) [of x] by simp_all
    show False
    proof (cases "fp_exp x = 0")
      case True
      have "fp_mag x \<le> of_int (fp_frac x) * pow2 0"
        unfolding fp_mag_def using True fp_frac_bounds(1) [of x] by (simp add: pow2_le_iff mult_left_mono del: pow2_def)
      then show False using assms f(2) by (simp add: pow2_def)
    next
      case False
      have "fp_mag x = of_int (2 ^ 52 + fp_frac x) * pow2 (fp_exp x - 1075)" using False by (simp add: fp_mag_def)
      also have "\<dots> \<le> of_int (2 ^ 52 + fp_frac x) * pow2 (- 1)"
        using le fp_frac_bounds(1) [of x] by (intro mult_left_mono) (simp_all add: pow2_le_iff)
      also have "\<dots> < 2 ^ 52" using f(1) by (simp add: pow2_def)
      finally show False using assms by simp
    qed
  qed
  then have "fp_mag x = of_int ((2 ^ 52 + fp_frac x) * 2 ^ nat (fp_exp x - 1075))"
    by (simp add: fp_mag_def pow2_def)
  then show thesis using that fp_frac_bounds(1) [of x] by (metis (no_types, lifting) add_nonneg_nonneg mult_nonneg_nonneg zero_le_numeral zero_le_power)
qed

lemma fp_rint_val:
  assumes "int_rounding f" "fp_finite x"
  shows "fp_val (fp_rint f x) = of_int (f (fp_val x)) \<and> fp_finite (fp_rint f x)"
proof -
  have sg: "\<bar>f (fp_val x)\<bar> = (if fp_sign x then - f (fp_val x) else f (fp_val x))"
    using assms(1) by (simp add: int_rounding_def fp_val_def)
  have r: "fp_rint f x = fp_round (fp_sign x) (of_int \<bar>f (fp_val x)\<bar>)"
    using assms(2) by (simp add: fp_rint_def fp_isnan_def fp_isinf_def)
  show ?thesis
  proof (cases "fp_mag x \<le> 2 ^ 52")
    case True
    then have "\<bar>fp_val x\<bar> \<le> 2 ^ 52" by (simp add: fp_val_def)
    then have "\<bar>f (fp_val x)\<bar> \<le> 2 ^ 53" using assms(1) unfolding int_rounding_def by fastforce
    then have "fp_mag (fp_rint f x) = of_int \<bar>f (fp_val x)\<bar> \<and> fp_sign (fp_rint f x) = fp_sign x \<and>
        fp_finite (fp_rint f x)"
      unfolding r by (intro fp_round_int_exact) simp_all
    then show ?thesis by (simp add: fp_val_def [of "fp_rint f x"] sg)
  next
    case False
    then obtain n where n: "fp_mag x = of_int n" "0 \<le> n" using fp_mag_int [of x] by auto
    have "fp_val x = of_int (if fp_sign x then - n else n)" by (simp add: fp_val_def n)
    then have f: "f (fp_val x) = (if fp_sign x then - n else n)"
      using assms(1) by (simp only: int_rounding_def)
    then have "\<bar>f (fp_val x)\<bar> = n" using n by simp
    then have "fp_rint f x = x" using assms(2) by (simp only: r fp_round_parts flip: n(1))
    then show ?thesis using assms(2) f n by (simp add: fp_val_def)
  qed
qed

end
