(* ===== verification/X87Formats.thy ===== *)
theory X87Formats
  imports X87RuntimeFacts Fp64Exact
begin

text \<open>
  The formats a register is stored in and loaded from: 16, 32 and 64-bit integers (FIST, FISTP,
  FISTTP), the 80-bit format (FLD m80, FSTP m80) and packed decimal (FBLD, FBSTP).
\<close>

section \<open>Integer stores\<close>

definition rc_round :: "u16 \<Rightarrow> rat \<Rightarrow> int" where
  "rc_round cw = (let rc = cw AND kRoundingControlMask in
     if rc = kRoundDown then floor else if rc = kRoundUp then ceiling
     else if rc = kRoundToZero then rat_trunc else rne)"

lemma x87_round_by_rc_rint: "x87_round_by_rc v cw = fp_rint (rc_round cw) v"
  by (simp add: x87_round_by_rc_def rc_round_def Let_def fp_floor_def fp_ceil_def fp_trunc_def fp_nearbyint_def)

lemma rc_rounding [simp]: "int_rounding (rc_round cw)"
  by (simp add: rc_round_def Let_def)

lemma fp_quiet_isnan:
  assumes "fp_isnan x"
  shows "fp_isnan (fp_quiet x)"
proof -
  have "x87_is_nan x" using assms by (simp add: x87_class)
  then have e: "x AND 0x7FF0000000000000 = 0x7FF0000000000000" by (simp add: x87_is_nan_def)
  have "fp_quiet x AND 0x7FF0000000000000 = 0x7FF0000000000000"
    unfolding fp_quiet_def bit.conj_disj_distrib2 e by simp
  moreover have "fp_quiet x AND 0x000FFFFFFFFFFFFF \<noteq> 0"
  proof
    assume "fp_quiet x AND 0x000FFFFFFFFFFFFF = 0"
    then have "(fp_quiet x AND 0x000FFFFFFFFFFFFF) AND 0x0008000000000000 = 0" by simp
    then show False by (simp add: fp_quiet_def and.assoc bit.conj_disj_distrib2)
  qed
  ultimately show ?thesis by (simp flip: x87_is_nan_iff add: x87_is_nan_def)
qed


text \<open>The integer an integer store has to deliver, and whether it exists.\<close>

definition int_fits :: "nat \<Rightarrow> (rat \<Rightarrow> int) \<Rightarrow> fp64 \<Rightarrow> bool" where
  "int_fits w f v \<longleftrightarrow> fp_finite v \<and> - (2 ^ (w - 1)) \<le> f (fp_val v) \<and> f (fp_val v) \<le> 2 ^ (w - 1) - 1"

definition int_store :: "nat \<Rightarrow> (rat \<Rightarrow> int) \<Rightarrow> fp64 \<Rightarrow> u16 \<Rightarrow> X87ResultStatusWord" where
  "int_store w f v sw =
     (if int_fits w f v then \<lparr>signedResult = word_of_int (f (fp_val v)), rswStatusWord = sw\<rparr>
      else \<lparr>signedResult = word_of_int (- (2 ^ (w - 1))), rswStatusWord = sw OR kConditionCode1\<rparr>)"

lemma range_consts:
  "fp_val 0xC0E0000000000000 = - 32768" "fp_val 0x40DFFFC000000000 = 32767"
  "fp_val 0xC1E0000000000000 = - 2147483648" "fp_val 0x41DFFFFFFFC00000 = 2147483647"
  "fp_val 0xC3E0000000000000 = - 9223372036854775808" "fp_val 0x43E0000000000000 = 9223372036854775808"
  by code_simp+

lemma range_nonan:
  "\<not> fp_isnan 0xC0E0000000000000" "\<not> fp_isnan 0x40DFFFC000000000"
  "\<not> fp_isnan 0xC1E0000000000000" "\<not> fp_isnan 0x41DFFFFFFFC00000"
  "\<not> fp_isnan 0xC3E0000000000000" "\<not> fp_isnan 0x43E0000000000000"
  by code_simp+

lemma fp_finite_nonan: "fp_finite x \<Longrightarrow> \<not> fp_isnan x"
  by (simp add: fp_isnan_def)

lemma fp_trunc_int_of: "fp_val r = of_int n \<Longrightarrow> fp_trunc_int r = n"
proof -
  assume "fp_val r = of_int n"
  then have "fp_mag r = of_int (if fp_sign r then - n else n)" by (auto simp: fp_val_def)
  then show ?thesis by (simp only: fp_trunc_int_def floor_of_int) simp
qed

lemma in_range_int:
  assumes "fp_finite r" "fp_val r = of_int n"
  shows "in_range16 r \<longleftrightarrow> - 32768 \<le> n \<and> n \<le> 32767"
    "in_range32 r \<longleftrightarrow> - 2147483648 \<le> n \<and> n \<le> 2147483647"
    "in_range64 r \<longleftrightarrow> - 9223372036854775808 \<le> n \<and> n \<le> 9223372036854775807"
proof -
  note d = in_range16_def in_range32_def in_range64_def fp_le_val fp_lt_val range_nonan range_consts
    fp_finite_nonan [OF assms(1)] assms(2)
  have c: "(- 32768 :: rat) = of_int (- 32768)" "(32767 :: rat) = of_int 32767"
    "(- 2147483648 :: rat) = of_int (- 2147483648)" "(2147483647 :: rat) = of_int 2147483647"
    "(- 9223372036854775808 :: rat) = of_int (- 9223372036854775808)"
    "(9223372036854775808 :: rat) = of_int 9223372036854775808" by simp_all
  show "in_range16 r \<longleftrightarrow> - 32768 \<le> n \<and> n \<le> 32767" by (simp only: d c of_int_le_iff not_False_eq_True)
  show "in_range32 r \<longleftrightarrow> - 2147483648 \<le> n \<and> n \<le> 2147483647" by (simp only: d c of_int_le_iff not_False_eq_True)
  show "in_range64 r \<longleftrightarrow> - 9223372036854775808 \<le> n \<and> n \<le> 9223372036854775807"
    by (simp only: d c of_int_le_iff of_int_less_iff not_False_eq_True) auto
qed

lemma in_range_special:
  assumes "\<not> fp_finite v"
  shows "\<not> in_range16 (fp_rint f v)" "\<not> in_range32 (fp_rint f v)" "\<not> in_range64 (fp_rint f v)"
proof -
  have nan: "\<not> in_range16 r" "\<not> in_range32 r" "\<not> in_range64 r" if "fp_isnan r" for r
    using that by (simp_all add: in_range16_def in_range32_def in_range64_def fp_le_def)
  have k: "fp_key 0xC0E0000000000000 > - 0x7FF0000000000000" "fp_key 0x40DFFFC000000000 < 0x7FF0000000000000"
    "fp_key 0xC1E0000000000000 > - 0x7FF0000000000000" "fp_key 0x41DFFFFFFFC00000 < 0x7FF0000000000000"
    "fp_key 0xC3E0000000000000 > - 0x7FF0000000000000" "fp_key 0x43E0000000000000 < 0x7FF0000000000000"
    by code_simp+
  have inf: "\<not> in_range16 r" "\<not> in_range32 r" "\<not> in_range64 r" if "fp_isinf r" for r
    using that k by (simp_all add: in_range16_def in_range32_def in_range64_def fp_le_def fp_lt_def fp_isinf_def
        fp_key_def [of r])
  have "fp_isnan v \<or> fp_isinf v" using assms by (auto simp: fp_isnan_def fp_isinf_def)
  then have "fp_isnan (fp_rint f v) \<or> fp_isinf (fp_rint f v)"
    by (auto simp: fp_rint_def fp_quiet_isnan)
  then show "\<not> in_range16 (fp_rint f v)" "\<not> in_range32 (fp_rint f v)" "\<not> in_range64 (fp_rint f v)"
    using nan inf by blast+
qed

lemma fist_result_store:
  assumes "int_rounding f"
  shows "fist_result (fp_rint f v) sw (in_range16 (fp_rint f v)) 16 = int_store 16 f v sw"
    "fist_result (fp_rint f v) sw (in_range32 (fp_rint f v)) 32 = int_store 32 f v sw"
    "fist_result (fp_rint f v) sw (in_range64 (fp_rint f v)) 64 = int_store 64 f v sw"
proof -
  have "fp_finite (fp_rint f v) \<and> fp_val (fp_rint f v) = of_int (f (fp_val v))" if "fp_finite v"
    using fp_rint_val [OF assms that] by simp
  then show "fist_result (fp_rint f v) sw (in_range16 (fp_rint f v)) 16 = int_store 16 f v sw"
    "fist_result (fp_rint f v) sw (in_range32 (fp_rint f v)) 32 = int_store 32 f v sw"
    "fist_result (fp_rint f v) sw (in_range64 (fp_rint f v)) 64 = int_store 64 f v sw"
    by (cases "fp_finite v"; simp add: fist_result_def int_store_def int_fits_def in_range_int in_range_special
        fp_trunc_int_of)+
qed


section \<open>The 80-bit format\<close>

lemma and_mask_bits:
  "(w :: 64 word) AND 0xFFFFFFFFFFFFF = take_bit 52 w" "(w :: 64 word) AND 0x3FF = take_bit 10 w"
  "(e :: 32 word) AND 0x7FF = take_bit 11 e" "(h :: 16 word) AND 0x7FFF = take_bit 15 h"
  by (simp_all add: take_bit_eq_mask mask_eq_exp_minus_1)

lemma bit63: "(0x8000000000000000 :: 64 word) = push_bit 63 1" "(0x8000 :: 16 word) = push_bit 15 1"
  by (simp_all add: push_bit_eq_mult)

lemma bit_top:
  "bit (0x8000000000000000 :: int) n \<longleftrightarrow> n = 63" "bit (0x8000 :: int) n \<longleftrightarrow> n = 15"
  using bit_exp_iff [where 'a = int, of 63 n] bit_exp_iff [where 'a = int, of 15 n] by auto

definition f80_sig :: "u64 \<Rightarrow> u64" where
  "f80_sig v = push_bit 11 (take_bit 52 v) OR push_bit 63 1"

lemma f80_sig_fields:
  "take_bit 52 (drop_bit 11 (f80_sig v)) = take_bit 52 v"
  "drop_bit 10 (f80_sig v) AND 1 = 0" "take_bit 10 (f80_sig v) = 0" "f80_sig v \<noteq> 0"
proof -
  show "take_bit 52 (drop_bit 11 (f80_sig v)) = take_bit 52 v"
    by (rule bit_word_eqI) (auto simp: f80_sig_def bit_simps)
  show "drop_bit 10 (f80_sig v) AND 1 = 0" "take_bit 10 (f80_sig v) = 0"
    by (rule bit_word_eqI, auto simp: f80_sig_def bit_simps bit_1_iff)+
  have "bit (f80_sig v) 63" by (simp add: f80_sig_def bit_simps)
  then show "f80_sig v \<noteq> 0" by auto
qed

lemma f80_sign_exp:
  fixes v :: u64 and e :: u16
  assumes "take_bit 15 e = e"
  defines "x \<equiv> push_bit 15 (ucast (drop_bit 63 v)) OR e"
  shows "take_bit 15 x = e" "x AND push_bit 15 1 \<noteq> 0 \<longleftrightarrow> bit v 63"
proof -
  have e: "\<not> bit e n" if "15 \<le> n" for n using assms(1) that by (metis bit_take_bit_iff not_less)
  show "take_bit 15 x = e"
    by (rule bit_word_eqI) (auto simp: x_def bit_simps e not_less dest: e)
  have "x AND push_bit 15 1 = (if bit v 63 then push_bit 15 1 else 0)"
    by (rule bit_word_eqI) (auto simp: x_def bit_simps bit_top e)
  then show "x AND push_bit 15 1 \<noteq> 0 \<longleftrightarrow> bit v 63" by (simp add: push_bit_eq_mult)
qed

lemma f64_recompose:
  fixes v :: u64
  shows "(if bit v 63 then push_bit 63 1 else 0) OR push_bit 52 (ucast (take_bit 11 (ucast (drop_bit 52 v) :: u32)))
    OR take_bit 52 v = v" (is "?l = v")
proof (rule bit_word_eqI)
  fix n assume "n < LENGTH(64)"
  then show "bit ?l n = bit v n" by (cases "n = 63") (auto simp: bit_simps bit_top)
qed

lemma uint_exp_field: "uint (take_bit 11 (ucast (drop_bit 52 v) :: u32)) = fp_exp v"
proof -
  have "uint (take_bit 11 (ucast (drop_bit 52 v) :: u32)) = take_bit 11 (drop_bit 52 (uint v))"
    by (rule bit_eqI) (auto simp: bit_simps)
  also have "\<dots> = uint v div 2 ^ 52 mod 2 ^ 11" by (simp add: take_bit_eq_mod drop_bit_eq_div)
  also have "\<dots> = fp_exp v"
    using zmod_zmult2_eq [of "2 ^ 11" "uint v" "2 ^ 52"] by (simp add: fp_exp_def fp_magbits_def)
  finally show ?thesis .
qed


lemma f80_exp_word:
  fixes e :: u32
  assumes "uint e \<le> 2047"
  shows "take_bit 15 (ucast (e + 16383 - 1023) :: u16) = ucast (e + 16383 - 1023)"
    and "uint (ucast (e + 16383 - 1023) :: u16) = uint e + 15360"
proof -
  have u: "uint (e + 15360) = uint e + 15360" using assms by (subst uint_add_lem [THEN iffD1]) simp_all
  have "uint (ucast (e + 15360) :: u16) = take_bit 16 (uint e + 15360)" by (simp add: unsigned_ucast_eq unsigned_take_bit_eq u)
  also have "\<dots> = uint e + 15360" using assms by (simp add: take_bit_int_eq_self)
  finally show v: "uint (ucast (e + 16383 - 1023) :: u16) = uint e + 15360" by (simp add: add.commute)
  have "uint (take_bit 15 (ucast (e + 16383 - 1023) :: u16)) = take_bit 15 (uint e + 15360)"
    by (simp only: unsigned_take_bit_eq v)
  also have "\<dots> = uint e + 15360" using assms by (simp add: take_bit_int_eq_self)
  finally show "take_bit 15 (ucast (e + 16383 - 1023) :: u16) = ucast (e + 16383 - 1023)"
    by (simp only: word_uint_eq_iff v)
qed

definition f80_of_result :: "X87Float80StatusWordResult \<Rightarrow> X87Float80" where
  "f80_of_result r = \<lparr>f80_mantissa = resMantissa r, f80_exponent = resExponent r\<rparr>"

lemma Convert_no_round:
  assumes "f80_mantissa x \<noteq> 0" "f80_exponent x AND 0x7FFF \<noteq> 0x7FFF"
    "uint (f80_exponent x AND 0x7FFF) = ex + 15360" "0 < ex" "ex < 2047"
    "drop_bit 10 (f80_mantissa x) AND 1 = 0" "f80_mantissa x AND 0x3FF = 0"
  shows "ConvertX87RegisterToFloat64 x w =
    ((if f80_exponent x AND 0x8000 \<noteq> 0 then 0x8000000000000000 else 0) OR push_bit 52 (word_of_int ex) OR
     (drop_bit 11 (f80_mantissa x) AND 0xFFFFFFFFFFFFF), w)"
  unfolding ConvertX87RegisterToFloat64_def Let_def assms(3) using assms(1,2,4-7)
  by simp

lemma fst_fp80_normal:
  assumes "0 < fp_exp v" "fp_exp v < 2047" "getStConst s 0 = (v, sw)"
  shows "ConvertX87RegisterToFloat64 (f80_of_result (x87_fst_fp80 s)) w = (v, w)"
proof -
  define e where "e = take_bit 11 (ucast (drop_bit 52 v) :: u32)"
  have ue: "uint e = fp_exp v" by (simp add: e_def uint_exp_field)
  define x where "x = push_bit 15 (ucast (drop_bit 63 v)) OR (ucast (e + 16383 - 1023) :: u16)"
  have e15: "take_bit 15 (ucast (e + 16383 - 1023) :: u16) = ucast (e + 16383 - 1023)"
    "uint (ucast (e + 16383 - 1023) :: u16) = fp_exp v + 15360"
    using f80_exp_word [of e] assms(2) ue by simp_all
  note xf = f80_sign_exp [OF e15(1), of v, folded x_def]
  have ne: "e \<noteq> 0" "e \<noteq> 0x7FF" using ue assms(1,2) by auto
  have st: "f80_of_result (x87_fst_fp80 s) = \<lparr>f80_mantissa = f80_sig v, f80_exponent = x\<rparr>"
    using ne by (simp add: x87_fst_fp80_def assms(3) and_mask_bits Let_def f80_of_result_def f80_sig_def x_def
        flip: e_def)
  have b: "x AND 0x7FFF = ucast (e + 16383 - 1023)" "x AND 0x8000 \<noteq> 0 \<longleftrightarrow> bit v 63"
    using xf by (simp_all only: and_mask_bits bit63)
  have woi: "(word_of_int (fp_exp v) :: u64) = ucast e" by (simp flip: ue)
  have big: "(ucast (e + 16383 - 1023) :: u16) \<noteq> 0x7FFF"
    using e15(2) assms(2) by (intro notI) simp
  have "ConvertX87RegisterToFloat64 (f80_of_result (x87_fst_fp80 s)) w =
     ((if x AND 0x8000 \<noteq> 0 then 0x8000000000000000 else 0) OR push_bit 52 (word_of_int (fp_exp v)) OR
      (drop_bit 11 (f80_sig v) AND 0xFFFFFFFFFFFFF), w)"
    unfolding st using Convert_no_round [of "\<lparr>f80_mantissa = f80_sig v, f80_exponent = x\<rparr>" "fp_exp v" w]
      assms(1,2) f80_sig_fields [of v] big b(1) e15(2) by (simp only: X87Float80.simps and_mask_bits simp_thms)
  also have "\<dots> = (v, w)" using f64_recompose [of v] by (simp only: b woi e_def and_mask_bits f80_sig_fields bit63(1))
  finally show ?thesis .
qed


lemma Convert_zero_inf:
  "ConvertX87RegisterToFloat64 \<lparr>f80_mantissa = 0, f80_exponent = e\<rparr> w =
     ((if e AND 0x8000 \<noteq> 0 then 0x8000000000000000 else 0), w)"
  "e AND 0x7FFF = 0x7FFF \<Longrightarrow>
   ConvertX87RegisterToFloat64 \<lparr>f80_mantissa = 0x8000000000000000, f80_exponent = e\<rparr> w =
     ((if e AND 0x8000 \<noteq> 0 then 0x8000000000000000 else 0) OR 0x7FF0000000000000, w)"
  by (simp_all add: ConvertX87RegisterToFloat64_def)

lemma fst_fp80_special:
  assumes "fp_iszero v \<or> fp_isinf v" "getStConst s 0 = (v, sw)"
  shows "ConvertX87RegisterToFloat64 (f80_of_result (x87_fst_fp80 s)) w = (v, w)"
proof -
  have "v = fp_withsign (fp_sign v) (if fp_iszero v then 0 else 0x7FF0000000000000)"
    using assms(1) fp_withsign_parts [of v] by (auto simp: fp_iszero_def fp_isinf_def simp del: fp_withsign_parts)
  then have "v \<in> {0, 0x8000000000000000, 0x7FF0000000000000, 0xFFF0000000000000}"
    by (cases "fp_sign v"; cases "fp_iszero v"; simp add: fp_withsign_def)
  then show ?thesis
    by (elim insertE emptyE; simp add: x87_fst_fp80_def assms(2) f80_of_result_def Let_def Convert_zero_inf)
qed

text \<open>
  (C12) Storing ST(0) in the 80-bit format and loading it back pushes the same register value, for
  both zeros, both infinities and every normal number: no bit of the value is lost on the way.
\<close>

theorem f80_store_load:
  assumes "wf_x87 s"
    and "fp_iszero (stk_get (stack_of s) 0) \<or> fp_isinf (stk_get (stack_of s) 0) \<or>
         0 < fp_exp (stk_get (stack_of s) 0) \<and> fp_exp (stk_get (stack_of s) 0) < 2047"
  shows "stack_of (x87_fld_fp80 s (f80_of_result (x87_fst_fp80 s))) =
         stk_push (stk_get (stack_of s) 0) (stack_of s)"
proof -
  define v where "v = stk_get (stack_of s) 0"
  obtain sw where g: "getStConst s 0 = (v, sw)" by (simp add: getStConst_stack v_def)
  have "ConvertX87RegisterToFloat64 (f80_of_result (x87_fst_fp80 s)) w = (v, w)" for w
    using assms(2) fst_fp80_normal [OF _ _ g] fst_fp80_special [OF _ g] unfolding v_def by blast
  then show ?thesis using assms(1) by (simp add: x87_fld_fp80_def Let_def v_def)
qed

theorem f80_store_load_witness:
  "stack_of (x87_fld_fp80 (x87_fld_fp64 X87State_new fp_one) (f80_of_result (x87_fst_fp80 (x87_fld_fp64 X87State_new fp_one)))) =
   stk_push fp_one (stack_of (x87_fld_fp64 X87State_new fp_one))"
proof -
  let ?s = "x87_fld_fp64 X87State_new fp_one"
  have "wf_x87 ?s" by code_simp
  moreover have "stk_get (stack_of ?s) 0 = fp_one" "0 < fp_exp fp_one" "fp_exp fp_one < 2047" by code_simp+
  ultimately show ?thesis using f80_store_load [of ?s] by simp
qed

section \<open>Packed decimal\<close>

lemma bcd_piece:
  assumes "a < 10" "b < 10"
  defines "p \<equiv> (of_nat a OR push_bit 4 (of_nat b) :: u8)"
  shows "(ucast (p AND 0x0F) :: u64) = of_nat a" "(ucast (drop_bit 4 p AND 0x0F) :: u64) = of_nat b"
proof -
  have "\<forall>a \<in> set [0..<10]. \<forall>b \<in> set [0..<10].
      (ucast ((of_nat a OR push_bit 4 (of_nat b) :: u8) AND 0x0F) :: u64) = of_nat a \<and>
      (ucast (drop_bit 4 (of_nat a OR push_bit 4 (of_nat b) :: u8) AND 0x0F) :: u64) = of_nat b"
    by code_simp
  then show "(ucast (p AND 0x0F) :: u64) = of_nat a" "(ucast (drop_bit 4 p AND 0x0F) :: u64) = of_nat b"
    unfolding p_def using assms(1,2) by (auto simp del: of_nat_numeral)
qed

lemma word_divmod10:
  assumes "N < 2 ^ 64"
  shows "(of_nat N :: u64) div 10 = of_nat (N div 10)" "(of_nat N :: u64) mod 10 = of_nat (N mod 10)"
  using assms by (simp_all add: word_unat_eq_iff unat_div unat_mod unat_of_nat take_bit_nat_eq_self)

lemma bcd_step_mod: "(N :: nat) mod 100 ^ Suc k = N mod 10 + 10 * (N div 10 mod 10) + 100 * (N div 10 div 10 mod 100 ^ k)"
proof -
  have "N mod (100 * 100 ^ k) = 100 * (N div 100 mod 100 ^ k) + N mod 100" by (rule mod_mult2_eq)
  moreover have "N mod 100 = 10 * (N div 10 mod 10) + N mod 10" using mod_mult2_eq [of N 10 10] by simp
  moreover have "N div 100 = N div 10 div 10" by (simp add: div_mult2_eq [symmetric])
  ultimately show ?thesis by simp
qed

lemma bcd_bytes_digits:
  assumes "N < 2 ^ 64"
  shows "bcd_bytes (fst (bcd_digits k (of_nat N))) tmp mult =
           (tmp + mult * of_nat (N mod 100 ^ k), mult * of_nat (100 ^ k)) \<and>
         snd (bcd_digits k (of_nat N)) = of_nat (N div 100 ^ k) \<and> length (fst (bcd_digits k (of_nat N))) = k"
  using assms
proof (induction k arbitrary: N tmp mult)
  case (Suc k)
  let ?a = "N mod 10" and ?b = "N div 10 mod 10" and ?M = "N div 10 div 10"
  have d: "(of_nat N :: u64) div 10 = of_nat (N div 10)" "(of_nat N :: u64) mod 10 = of_nat ?a"
    "(of_nat (N div 10) :: u64) div 10 = of_nat ?M" "(of_nat (N div 10) :: u64) mod 10 = of_nat ?b"
    using word_divmod10 [of N] word_divmod10 [of "N div 10"] Suc.prems by auto
  have u: "(ucast (of_nat x :: u64) :: u8) = of_nat x" for x
    by (rule bit_word_eqI) (simp add: bit_simps)
  note IH = Suc.IH [of ?M]
  have M: "?M < 2 ^ 64" using Suc.prems by auto
  have "bcd_bytes (fst (bcd_digits (Suc k) (of_nat N))) tmp mult =
      bcd_bytes (fst (bcd_digits k (of_nat ?M))) (tmp + mult * of_nat ?a + mult * 10 * of_nat ?b) (mult * 10 * 10)"
    by (simp add: d u split_beta Let_def bcd_piece del: drop_bit_or push_bit_of_nat)
  also have "\<dots> = (tmp + mult * of_nat ?a + mult * 10 * of_nat ?b + mult * 10 * 10 * of_nat (?M mod 100 ^ k),
      mult * 10 * 10 * of_nat (100 ^ k))"
    using IH M by simp
  also have "\<dots> = (tmp + mult * of_nat (N mod 100 ^ Suc k), mult * of_nat (100 ^ Suc k))"
    unfolding bcd_step_mod by (simp add: algebra_simps)
  finally have "bcd_bytes (fst (bcd_digits (Suc k) (of_nat N))) tmp mult =
      (tmp + mult * of_nat (N mod 100 ^ Suc k), mult * of_nat (100 ^ Suc k))" .
  moreover have "?M div 100 ^ k = N div 100 ^ Suc k" by (simp flip: div_mult2_eq)
  ultimately show ?case using IH M by (simp add: d split_beta Let_def)
qed simp

lemma fp_neg_round: "0 \<le> q \<Longrightarrow> fp_neg (fp_round s q) = fp_round (\<not> s) q"
proof -
  assume "0 \<le> q"
  then have "0 \<le> round_bits 52 (- 1074) q" by (simp add: round_bits_def Let_def rne_def max_def)
  then show ?thesis by (intro fp_eqI) (simp_all add: fp_round_def min_def)
qed

lemma fp_trunc_mag:
  assumes "fp_finite v"
  shows "fp_trunc_int (fp_trunc (fp_abs v)) = \<lfloor>fp_mag v\<rfloor>" "fp_val (fp_trunc (fp_abs v)) = of_int \<lfloor>fp_mag v\<rfloor>"
    "fp_trunc v = fp_round (fp_sign v) (of_int \<lfloor>fp_mag v\<rfloor>)"
proof -
  have m: "fp_val (fp_abs v) = fp_mag v" by (simp add: fp_val_def fp_mag_def fp_exp_def fp_frac_def)
  have t: "rat_trunc (fp_mag v) = \<lfloor>fp_mag v\<rfloor>" by (simp add: rat_trunc_def not_less leD)
  show x: "fp_val (fp_trunc (fp_abs v)) = of_int \<lfloor>fp_mag v\<rfloor>"
    using fp_rint_val [of rat_trunc "fp_abs v"] assms by (simp add: fp_trunc_def m t)
  have "fp_mag (fp_trunc (fp_abs v)) = of_int (if fp_sign (fp_trunc (fp_abs v)) then - \<lfloor>fp_mag v\<rfloor> else \<lfloor>fp_mag v\<rfloor>)"
    using x by (auto simp: fp_val_def)
  then show "fp_trunc_int (fp_trunc (fp_abs v)) = \<lfloor>fp_mag v\<rfloor>" by (simp only: fp_trunc_int_def floor_of_int) simp
  have "\<bar>rat_trunc (fp_val v)\<bar> = \<lfloor>fp_mag v\<rfloor>" using fp_mag_nonneg [of v]
    by (cases "fp_mag v = 0") (auto simp: fp_val_def rat_trunc_def simp del: fp_mag_nonneg)
  then show "fp_trunc v = fp_round (fp_sign v) (of_int \<lfloor>fp_mag v\<rfloor>)"
    using assms by (simp add: fp_trunc_def fp_rint_def fp_isnan_def fp_isinf_def)
qed

text \<open>
  (C13) Packed decimal: for every finite value of magnitude below 10^18, decoding what FBSTP
  encodes gives the value truncated to an integer, with its sign (also of zero).
\<close>

theorem bcd_round_trip:
  assumes "fp_finite v" "fp_mag v < 10 ^ 18"
  shows "BCD2Double (double_to_bcd v) = fp_trunc v"
proof -
  define N where "N = nat \<lfloor>fp_mag v\<rfloor>"
  have "\<lfloor>fp_mag v\<rfloor> < 10 ^ 18" using assms(2) by (simp add: floor_less_iff)
  moreover have f0: "0 \<le> \<lfloor>fp_mag v\<rfloor>" by simp
  ultimately have N: "int N = \<lfloor>fp_mag v\<rfloor>" "N < 10 ^ 18" by (simp_all add: N_def nat_less_iff)
  have c: "fp_val 0x43ABC16D674EC800 = 10 ^ 18" "\<not> fp_isnan 0x43ABC16D674EC800" by code_simp+
  have small: "\<not> fp_lt 0x43ABC16D674EC800 (fp_trunc (fp_abs v))"
    using N(2) by (auto simp: fp_lt_def fp_key_less_iff c(1) fp_trunc_mag [OF assms(1)] simp flip: N(1))
  have w: "word_of_int (fp_trunc_int (fp_trunc (fp_abs v))) = (of_nat N :: u64)"
    by (simp add: fp_trunc_mag [OF assms(1)] flip: N(1))
  note d = bcd_bytes_digits [of N 9 0 1]
  have nn: "\<not> x87_is_nan_or_inf v" using assms(1) by (simp add: x87_class fp_isnan_def fp_isinf_def)
  have N64: "N < 2 ^ 64" using N(2) by simp
  have r0: "snd (bcd_digits 9 (of_nat N)) = 0" "bcd_bytes (fst (bcd_digits 9 (of_nat N))) 0 1 = (of_nat N, of_nat (100 ^ 9))"
    "length (fst (bcd_digits 9 (of_nat N))) = 9"
    using d N64 N(2) by simp_all
  have bcd: "double_to_bcd v = fst (bcd_digits 9 (of_nat N)) @ [if fp_sign v then 0x80 else 0]"
    using nn small r0(1) by (simp add: double_to_bcd_def Let_def w split_beta)
  have "uint (of_nat N :: u64) = int N" using N64 by (simp add: uint_nat unat_of_nat take_bit_nat_eq_self)
  then have "BCD2Double (double_to_bcd v) = (if fp_sign v then fp_neg (fp_of_int (int N)) else fp_of_int (int N))"
    unfolding bcd using r0(2,3) by (simp add: BCD2Double_def Let_def nth_append)
  also have "\<dots> = fp_trunc v"
    by (simp add: fp_of_int_def fp_neg_round fp_trunc_mag [OF assms(1)] flip: N(1))
  finally show ?thesis .
qed

theorem bcd_round_trip_witness:
  "BCD2Double (double_to_bcd 0xC0934A4000000000) = fp_trunc 0xC0934A4000000000"
proof -
  have "fp_finite 0xC0934A4000000000" "fp_mag 0xC0934A4000000000 < 10 ^ 18" by code_simp+
  then show ?thesis by (rule bcd_round_trip)
qed

end
