(* ===== verification/IRTypes.thy ===== *)
theory IRTypes
  imports Prelude
begin

text \<open>
  The decoded guest instructions the translator works on: the opcode numbers of
  \<open>rosetta_core/include/rosetta_core/Opcode.h\<close> that the modelled files name, the register byte of
  \<open>Register.h\<close>, the operand union of \<open>IROperand.h\<close> and the instruction of \<open>IRInstr.h\<close>. The
  operand is a union whose members share one 16-byte layout, so it is a record of the bytes at
  each offset: the size at 1, the register byte or the address size at 2, the segment override at
  3, the memory flags at 4, base, index and shift at 5 to 7, and the 64-bit payload (displacement,
  absolute address or immediate) at 8. The opcode field holds what \<open>IRInstr::opcode()\<close> returns.
\<close>

section \<open>Opcodes\<close>

abbreviation kOpcodeName_adc :: u16 where "kOpcodeName_adc \<equiv> 0x4"
abbreviation kOpcodeName_add :: u16 where "kOpcodeName_add \<equiv> 0x5"
abbreviation kOpcodeName_and :: u16 where "kOpcodeName_and \<equiv> 0x6"
abbreviation kOpcodeName_cmovcc :: u16 where "kOpcodeName_cmovcc \<equiv> 0x16"
abbreviation kOpcodeName_cmp :: u16 where "kOpcodeName_cmp \<equiv> 0x17"
abbreviation kOpcodeName_comisd :: u16 where "kOpcodeName_comisd \<equiv> 0x1F"
abbreviation kOpcodeName_comiss :: u16 where "kOpcodeName_comiss \<equiv> 0x20"
abbreviation kOpcodeName_dec :: u16 where "kOpcodeName_dec \<equiv> 0x23"
abbreviation kOpcodeName_fcmovb :: u16 where "kOpcodeName_fcmovb \<equiv> 0x25"
abbreviation kOpcodeName_fcmovbe :: u16 where "kOpcodeName_fcmovbe \<equiv> 0x26"
abbreviation kOpcodeName_fcmove :: u16 where "kOpcodeName_fcmove \<equiv> 0x27"
abbreviation kOpcodeName_fcmovnb :: u16 where "kOpcodeName_fcmovnb \<equiv> 0x28"
abbreviation kOpcodeName_fcmovnbe :: u16 where "kOpcodeName_fcmovnbe \<equiv> 0x29"
abbreviation kOpcodeName_fcmovne :: u16 where "kOpcodeName_fcmovne \<equiv> 0x2A"
abbreviation kOpcodeName_fcmovnu :: u16 where "kOpcodeName_fcmovnu \<equiv> 0x2B"
abbreviation kOpcodeName_fcmovu :: u16 where "kOpcodeName_fcmovu \<equiv> 0x2C"
abbreviation kOpcodeName_fcomi :: u16 where "kOpcodeName_fcomi \<equiv> 0x2D"
abbreviation kOpcodeName_fcomip :: u16 where "kOpcodeName_fcomip \<equiv> 0x2E"
abbreviation kOpcodeName_fucomi :: u16 where "kOpcodeName_fucomi \<equiv> 0x2F"
abbreviation kOpcodeName_fucomip :: u16 where "kOpcodeName_fucomip \<equiv> 0x30"
abbreviation kOpcodeName_imul :: u16 where "kOpcodeName_imul \<equiv> 0x32"
abbreviation kOpcodeName_inc :: u16 where "kOpcodeName_inc \<equiv> 0x33"
abbreviation kOpcodeName_mul :: u16 where "kOpcodeName_mul \<equiv> 0x47"
abbreviation kOpcodeName_neg :: u16 where "kOpcodeName_neg \<equiv> 0x48"
abbreviation kOpcodeName_or :: u16 where "kOpcodeName_or \<equiv> 0x49"
abbreviation kOpcodeName_rol :: u16 where "kOpcodeName_rol \<equiv> 0x58"
abbreviation kOpcodeName_ror :: u16 where "kOpcodeName_ror \<equiv> 0x59"
abbreviation kOpcodeName_sar :: u16 where "kOpcodeName_sar \<equiv> 0x5B"
abbreviation kOpcodeName_sbb :: u16 where "kOpcodeName_sbb \<equiv> 0x5C"
abbreviation kOpcodeName_setcc :: u16 where "kOpcodeName_setcc \<equiv> 0x61"
abbreviation kOpcodeName_shl :: u16 where "kOpcodeName_shl \<equiv> 0x62"
abbreviation kOpcodeName_shr :: u16 where "kOpcodeName_shr \<equiv> 0x64"
abbreviation kOpcodeName_sub :: u16 where "kOpcodeName_sub \<equiv> 0x6C"
abbreviation kOpcodeName_test :: u16 where "kOpcodeName_test \<equiv> 0x6D"
abbreviation kOpcodeName_ucomisd :: u16 where "kOpcodeName_ucomisd \<equiv> 0x6F"
abbreviation kOpcodeName_ucomiss :: u16 where "kOpcodeName_ucomiss \<equiv> 0x70"
abbreviation kOpcodeName_xor :: u16 where "kOpcodeName_xor \<equiv> 0x74"
abbreviation kOpcodeName_addsd :: u16 where "kOpcodeName_addsd \<equiv> 0x77"
abbreviation kOpcodeName_addss :: u16 where "kOpcodeName_addss \<equiv> 0x78"
abbreviation kOpcodeName_cbw :: u16 where "kOpcodeName_cbw \<equiv> 0x8D"
abbreviation kOpcodeName_cdq :: u16 where "kOpcodeName_cdq \<equiv> 0x8E"
abbreviation kOpcodeName_cdqe :: u16 where "kOpcodeName_cdqe \<equiv> 0x8F"
abbreviation kOpcodeName_cqo :: u16 where "kOpcodeName_cqo \<equiv> 0x97"
abbreviation kOpcodeName_cwd :: u16 where "kOpcodeName_cwd \<equiv> 0xAF"
abbreviation kOpcodeName_cwde :: u16 where "kOpcodeName_cwde \<equiv> 0xB0"
abbreviation kOpcodeName_divsd :: u16 where "kOpcodeName_divsd \<equiv> 0xB3"
abbreviation kOpcodeName_divss :: u16 where "kOpcodeName_divss \<equiv> 0xB4"
abbreviation kOpcodeName_f2xm1 :: u16 where "kOpcodeName_f2xm1 \<equiv> 0xBC"
abbreviation kOpcodeName_fabs :: u16 where "kOpcodeName_fabs \<equiv> 0xBD"
abbreviation kOpcodeName_fadd :: u16 where "kOpcodeName_fadd \<equiv> 0xBE"
abbreviation kOpcodeName_faddp :: u16 where "kOpcodeName_faddp \<equiv> 0xBF"
abbreviation kOpcodeName_fchs :: u16 where "kOpcodeName_fchs \<equiv> 0xC2"
abbreviation kOpcodeName_fcom :: u16 where "kOpcodeName_fcom \<equiv> 0xC4"
abbreviation kOpcodeName_fcomp :: u16 where "kOpcodeName_fcomp \<equiv> 0xC5"
abbreviation kOpcodeName_fcompp :: u16 where "kOpcodeName_fcompp \<equiv> 0xC6"
abbreviation kOpcodeName_fcos :: u16 where "kOpcodeName_fcos \<equiv> 0xC7"
abbreviation kOpcodeName_fdiv :: u16 where "kOpcodeName_fdiv \<equiv> 0xCA"
abbreviation kOpcodeName_fdivp :: u16 where "kOpcodeName_fdivp \<equiv> 0xCB"
abbreviation kOpcodeName_fdivr :: u16 where "kOpcodeName_fdivr \<equiv> 0xCC"
abbreviation kOpcodeName_fdivrp :: u16 where "kOpcodeName_fdivrp \<equiv> 0xCD"
abbreviation kOpcodeName_fiadd :: u16 where "kOpcodeName_fiadd \<equiv> 0xD0"
abbreviation kOpcodeName_ficom :: u16 where "kOpcodeName_ficom \<equiv> 0xD1"
abbreviation kOpcodeName_ficomp :: u16 where "kOpcodeName_ficomp \<equiv> 0xD2"
abbreviation kOpcodeName_fidiv :: u16 where "kOpcodeName_fidiv \<equiv> 0xD3"
abbreviation kOpcodeName_fidivr :: u16 where "kOpcodeName_fidivr \<equiv> 0xD4"
abbreviation kOpcodeName_fild :: u16 where "kOpcodeName_fild \<equiv> 0xD5"
abbreviation kOpcodeName_fimul :: u16 where "kOpcodeName_fimul \<equiv> 0xD6"
abbreviation kOpcodeName_fist :: u16 where "kOpcodeName_fist \<equiv> 0xD9"
abbreviation kOpcodeName_fistp :: u16 where "kOpcodeName_fistp \<equiv> 0xDA"
abbreviation kOpcodeName_fisttp :: u16 where "kOpcodeName_fisttp \<equiv> 0xDB"
abbreviation kOpcodeName_fisub :: u16 where "kOpcodeName_fisub \<equiv> 0xDC"
abbreviation kOpcodeName_fisubr :: u16 where "kOpcodeName_fisubr \<equiv> 0xDD"
abbreviation kOpcodeName_fld :: u16 where "kOpcodeName_fld \<equiv> 0xDE"
abbreviation kOpcodeName_fld1 :: u16 where "kOpcodeName_fld1 \<equiv> 0xDF"
abbreviation kOpcodeName_fldcw :: u16 where "kOpcodeName_fldcw \<equiv> 0xE0"
abbreviation kOpcodeName_fldl2e :: u16 where "kOpcodeName_fldl2e \<equiv> 0xE2"
abbreviation kOpcodeName_fldl2t :: u16 where "kOpcodeName_fldl2t \<equiv> 0xE3"
abbreviation kOpcodeName_fldlg2 :: u16 where "kOpcodeName_fldlg2 \<equiv> 0xE4"
abbreviation kOpcodeName_fldln2 :: u16 where "kOpcodeName_fldln2 \<equiv> 0xE5"
abbreviation kOpcodeName_fldpi :: u16 where "kOpcodeName_fldpi \<equiv> 0xE6"
abbreviation kOpcodeName_fldz :: u16 where "kOpcodeName_fldz \<equiv> 0xE7"
abbreviation kOpcodeName_fmul :: u16 where "kOpcodeName_fmul \<equiv> 0xE8"
abbreviation kOpcodeName_fmulp :: u16 where "kOpcodeName_fmulp \<equiv> 0xE9"
abbreviation kOpcodeName_fnop :: u16 where "kOpcodeName_fnop \<equiv> 0xEA"
abbreviation kOpcodeName_fnstcw :: u16 where "kOpcodeName_fnstcw \<equiv> 0xEB"
abbreviation kOpcodeName_fpatan :: u16 where "kOpcodeName_fpatan \<equiv> 0xEC"
abbreviation kOpcodeName_fprem :: u16 where "kOpcodeName_fprem \<equiv> 0xED"
abbreviation kOpcodeName_fprem1 :: u16 where "kOpcodeName_fprem1 \<equiv> 0xEE"
abbreviation kOpcodeName_fptan :: u16 where "kOpcodeName_fptan \<equiv> 0xEF"
abbreviation kOpcodeName_frndint :: u16 where "kOpcodeName_frndint \<equiv> 0xF0"
abbreviation kOpcodeName_fscale :: u16 where "kOpcodeName_fscale \<equiv> 0xF3"
abbreviation kOpcodeName_fsin :: u16 where "kOpcodeName_fsin \<equiv> 0xF4"
abbreviation kOpcodeName_fsincos :: u16 where "kOpcodeName_fsincos \<equiv> 0xF5"
abbreviation kOpcodeName_fsqrt :: u16 where "kOpcodeName_fsqrt \<equiv> 0xF6"
abbreviation kOpcodeName_fst :: u16 where "kOpcodeName_fst \<equiv> 0xF7"
abbreviation kOpcodeName_fst_stack :: u16 where "kOpcodeName_fst_stack \<equiv> 0xF8"
abbreviation kOpcodeName_fstp :: u16 where "kOpcodeName_fstp \<equiv> 0xFA"
abbreviation kOpcodeName_fstp_stack :: u16 where "kOpcodeName_fstp_stack \<equiv> 0xFB"
abbreviation kOpcodeName_fstsw :: u16 where "kOpcodeName_fstsw \<equiv> 0xFC"
abbreviation kOpcodeName_fsub :: u16 where "kOpcodeName_fsub \<equiv> 0xFD"
abbreviation kOpcodeName_fsubp :: u16 where "kOpcodeName_fsubp \<equiv> 0xFE"
abbreviation kOpcodeName_fsubr :: u16 where "kOpcodeName_fsubr \<equiv> 0xFF"
abbreviation kOpcodeName_fsubrp :: u16 where "kOpcodeName_fsubrp \<equiv> 0x100"
abbreviation kOpcodeName_ftst :: u16 where "kOpcodeName_ftst \<equiv> 0x101"
abbreviation kOpcodeName_fucom :: u16 where "kOpcodeName_fucom \<equiv> 0x102"
abbreviation kOpcodeName_fucomp :: u16 where "kOpcodeName_fucomp \<equiv> 0x103"
abbreviation kOpcodeName_fucompp :: u16 where "kOpcodeName_fucompp \<equiv> 0x104"
abbreviation kOpcodeName_fxam :: u16 where "kOpcodeName_fxam \<equiv> 0x105"
abbreviation kOpcodeName_fxch :: u16 where "kOpcodeName_fxch \<equiv> 0x106"
abbreviation kOpcodeName_fyl2x :: u16 where "kOpcodeName_fyl2x \<equiv> 0x10A"
abbreviation kOpcodeName_fyl2xp1 :: u16 where "kOpcodeName_fyl2xp1 \<equiv> 0x10B"
abbreviation kOpcodeName_lea :: u16 where "kOpcodeName_lea \<equiv> 0x121"
abbreviation kOpcodeName_mov :: u16 where "kOpcodeName_mov \<equiv> 0x138"
abbreviation kOpcodeName_movnti :: u16 where "kOpcodeName_movnti \<equiv> 0x14C"
abbreviation kOpcodeName_movsd :: u16 where "kOpcodeName_movsd \<equiv> 0x152"
abbreviation kOpcodeName_movss :: u16 where "kOpcodeName_movss \<equiv> 0x156"
abbreviation kOpcodeName_movsx :: u16 where "kOpcodeName_movsx \<equiv> 0x158"
abbreviation kOpcodeName_movsxd :: u16 where "kOpcodeName_movsxd \<equiv> 0x159"
abbreviation kOpcodeName_movzx :: u16 where "kOpcodeName_movzx \<equiv> 0x15C"
abbreviation kOpcodeName_mulsd :: u16 where "kOpcodeName_mulsd \<equiv> 0x160"
abbreviation kOpcodeName_mulss :: u16 where "kOpcodeName_mulss \<equiv> 0x161"
abbreviation kOpcodeName_nop :: u16 where "kOpcodeName_nop \<equiv> 0x164"
abbreviation kOpcodeName_not :: u16 where "kOpcodeName_not \<equiv> 0x165"
abbreviation kOpcodeName_pop :: u16 where "kOpcodeName_pop \<equiv> 0x1C0"
abbreviation kOpcodeName_popd :: u16 where "kOpcodeName_popd \<equiv> 0x1C4"
abbreviation kOpcodeName_popw :: u16 where "kOpcodeName_popw \<equiv> 0x1C6"
abbreviation kOpcodeName_push :: u16 where "kOpcodeName_push \<equiv> 0x1F2"
abbreviation kOpcodeName_pushd :: u16 where "kOpcodeName_pushd \<equiv> 0x1F6"
abbreviation kOpcodeName_pushw :: u16 where "kOpcodeName_pushw \<equiv> 0x1F8"
abbreviation kOpcodeName_rcpss :: u16 where "kOpcodeName_rcpss \<equiv> 0x1FC"
abbreviation kOpcodeName_rsqrtss :: u16 where "kOpcodeName_rsqrtss \<equiv> 0x209"
abbreviation kOpcodeName_sqrtsd :: u16 where "kOpcodeName_sqrtsd \<equiv> 0x218"
abbreviation kOpcodeName_sqrtss :: u16 where "kOpcodeName_sqrtss \<equiv> 0x219"
abbreviation kOpcodeName_subsd :: u16 where "kOpcodeName_subsd \<equiv> 0x21F"
abbreviation kOpcodeName_subss :: u16 where "kOpcodeName_subss \<equiv> 0x220"
abbreviation kOpcodeName_wait :: u16 where "kOpcodeName_wait \<equiv> 0x291"
abbreviation kOpcodeName_xchg :: u16 where "kOpcodeName_xchg \<equiv> 0x294"
abbreviation kOpcodeName_arpl :: u16 where "kOpcodeName_arpl \<equiv> 0x29C"

section \<open>Registers\<close>

type_synonym Register = u8

definition is_mm :: "Register \<Rightarrow> bool" where
  "is_mm r \<longleftrightarrow> r AND 0xF0 = 0x60 \<and> r AND 0x08 = 0"

definition reg_index :: "Register \<Rightarrow> u8" where
  "reg_index r = (if is_mm r then r AND 0x07 else r AND 0x0F)"

definition is_gpr :: "Register \<Rightarrow> bool" where
  "is_gpr r \<longleftrightarrow> r < 0x50"

section \<open>Operands and instructions\<close>

datatype IROperandKind = KRegister | KMemRef | KAbsMem | KImmediate | KBranchOffset | KConditionCode | KSegmentRegister

abbreviation S8 :: u8 where "S8 \<equiv> 0"
abbreviation S16 :: u8 where "S16 \<equiv> 1"
abbreviation S32 :: u8 where "S32 \<equiv> 2"
abbreviation S64 :: u8 where "S64 \<equiv> 3"
abbreviation S80 :: u8 where "S80 \<equiv> 0xFF"

record IROperand =
  kind :: IROperandKind
  osize :: u8
  obyte2 :: u8
  seg_override :: u8
  mem_flags :: u8
  base_reg :: u8
  index_reg :: u8
  shift_amount :: u8
  payload :: u64

abbreviation oreg :: "IROperand \<Rightarrow> Register" where "oreg \<equiv> obyte2"
abbreviation addr_size :: "IROperand \<Rightarrow> u8" where "addr_size \<equiv> obyte2"

text \<open>
  An instruction: the fields the modelled code reads. \<open>flag_liveness\<close> is the bitmask of the guest flags
  that are live here.
\<close>

record IRInstr =
  opcode :: u16
  rep_prefix :: u8
  flag_liveness :: u8
  num_operands :: u8
  operand0 :: IROperand
  operand1 :: IROperand
  operand2 :: IROperand
  operand3 :: IROperand

abbreviation FLAG_AF :: u8 where "FLAG_AF \<equiv> 0x02"
abbreviation FLAG_PF_LO :: u8 where "FLAG_PF_LO \<equiv> 0x04"
abbreviation FLAG_PF_HI :: u8 where "FLAG_PF_HI \<equiv> 0x08"
abbreviation FLAG_OF :: u8 where "FLAG_OF \<equiv> 0x10"
abbreviation FLAG_CF :: u8 where "FLAG_CF \<equiv> 0x20"
abbreviation FLAG_ZF :: u8 where "FLAG_ZF \<equiv> 0x40"
abbreviation FLAG_SF :: u8 where "FLAG_SF \<equiv> 0x80"

text \<open>The stack depth an operand's register byte names.\<close>

definition odepth :: "IROperand \<Rightarrow> nat" where
  "odepth o1 = unat (reg_index (oreg o1))"

lemma reg_index_less: "unat (reg_index r) < 16"
proof -
  have "r AND 0x07 \<le> 0x07" "r AND 0x0F \<le> 0x0F" by (simp_all add: word_and_le1)
  then have "unat (r AND 0x07) \<le> 7" "unat (r AND 0x0F) \<le> 15" by (simp_all add: word_le_nat_alt)
  then show ?thesis by (simp add: reg_index_def)
qed

lemma odepth_less [simp]: "odepth o1 < 16"
  by (simp add: odepth_def reg_index_less)

end
