(* ===== verification/X87IR.thy ===== *)
theory X87IR
  imports IRTypes Fp64
begin

text \<open>
  The SSA intermediate representation of an x87 run (\<open>rosetta_core/include/rosetta_core/X87IR.h\<close>):
  nodes, the packed payload of inlined guest instructions, and the context with its symbolic stack
  and its tables for common loads, constants and narrowings. The array of nodes is a list whose
  length is \<open>num_nodes\<close>; the fixed-size tables are lists of at most their capacity, whose length is
  the table's count. The union in a node is the datatype \<open>NodePayload\<close>.
\<close>

section \<open>Nodes\<close>

datatype Op =
    ReadSt | LoadF64 | LoadF32Raw | LoadI16 | LoadI32 | LoadI64 | ConstZero | ConstOne | ConstF64
  | CvtF32ToF64 | CvtF64ToF32
  | FAdd | FSub | FMul | FDiv | FNMul | FMAdd | FMSub | FNMSub
  | FNeg | FAbs | FSqrt | FRndInt | FCSel
  | StoreF64 | StoreF32Raw | StoreI16 | StoreI32 | StoreI64
  | FCmp | FTst | FComI | FStsw | StoreCW | LoadCW
  | GuestMovRR | GuestMovRI | GuestLea | GuestExt | GuestLoad | GuestStoreR | GuestStoreI

abbreviation kMaxNodes :: nat where "kMaxNodes \<equiv> 128"

definition kDead :: u8 where "kDead = 1"
definition kFcomFused :: u8 where "kFcomFused = 2"
definition kTruncate :: u8 where "kTruncate = 4"
definition kFcomIPopping :: u8 where "kFcomIPopping = 8"
definition kF32 :: u8 where "kF32 = 32"

lemmas node_flags = kDead_def kFcomFused_def kTruncate_def kFcomIPopping_def kF32_def

datatype NodePayload = PImm u64 | PMem IROperand | PDepth int

record Node =
  nop :: Op
  nflags :: u8
  in0 :: int
  in1 :: int
  in2 :: int
  npayload :: NodePayload
  naux :: u64

section \<open>Packed payload of inlined guest instructions\<close>

record GuestPayload =
  gp_imm :: u32
  gp_dst :: u8
  gp_src :: u8
  gp_idx :: u8
  gp_cls :: u8
  gp_is64 :: bool
  gp_sign :: bool
  gp_has_base :: bool
  gp_has_index :: bool
  gp_addr32 :: bool

definition guest_pack :: "GuestPayload \<Rightarrow> u64" where
  "guest_pack p =
     ucast (gp_imm p) OR push_bit 32 (ucast (gp_dst p AND 0xF)) OR push_bit 36 (ucast (gp_src p AND 0xF)) OR
     push_bit 40 (ucast (gp_idx p AND 0xF)) OR push_bit 44 (ucast (gp_cls p AND 0x3)) OR
     push_bit 46 (of_bool (gp_is64 p)) OR push_bit 47 (of_bool (gp_sign p)) OR
     push_bit 48 (of_bool (gp_has_base p)) OR push_bit 49 (of_bool (gp_has_index p)) OR
     push_bit 50 (of_bool (gp_addr32 p))"

definition guest_unpack :: "u64 \<Rightarrow> GuestPayload" where
  "guest_unpack b = \<lparr>gp_imm = ucast b, gp_dst = ucast (drop_bit 32 b AND 0xF), gp_src = ucast (drop_bit 36 b AND 0xF),
     gp_idx = ucast (drop_bit 40 b AND 0xF), gp_cls = ucast (drop_bit 44 b AND 0x3),
     gp_is64 = (drop_bit 46 b AND 1 \<noteq> 0), gp_sign = (drop_bit 47 b AND 1 \<noteq> 0),
     gp_has_base = (drop_bit 48 b AND 1 \<noteq> 0), gp_has_index = (drop_bit 49 b AND 1 \<noteq> 0),
     gp_addr32 = (drop_bit 50 b AND 1 \<noteq> 0)\<rparr>"

section \<open>Context\<close>

record Context =
  nodes :: "Node list"
  slot_val :: "int list"
  top_delta :: int
  initial_read :: "int list"
  mem_cse :: "(IROperand \<times> Op \<times> int) list"
  mem_cse_next :: nat
  last_narrow_input :: int
  last_narrow_node :: int
  const_zero_node :: int
  const_one_node :: int
  const_f64 :: "(int \<times> u64) list"
  const_f64_next :: nat
  last_fcmp :: int
  last_fcomi :: int
  consumed :: int
  addr_cache_rep :: "int list"
  addr_cache_n :: int
  nzcv_dead :: int
  const_promote :: bool
  guest_written_mask :: u16

abbreviation num_nodes :: "Context \<Rightarrow> nat" where "num_nodes c \<equiv> length (nodes c)"
abbreviation kMemCSESlots :: nat where "kMemCSESlots \<equiv> 8"
abbreviation kConstF64Slots :: nat where "kConstF64Slots \<equiv> 4"

definition mem_cse_clear :: "Context \<Rightarrow> Context" where
  "mem_cse_clear c = c\<lparr>mem_cse := [], mem_cse_next := 0\<rparr>"

definition Context_init :: Context where
  "Context_init = mem_cse_clear
     \<lparr>nodes = [], slot_val = map (\<lambda>i. - (int i + 1)) [0..<8], top_delta = 0, initial_read = replicate 8 (-1),
      mem_cse = [], mem_cse_next = 0, last_narrow_input = -1, last_narrow_node = -1,
      const_zero_node = -1, const_one_node = -1, const_f64 = [], const_f64_next = 0,
      last_fcmp = -1, last_fcomi = -1, consumed = 0, addr_cache_rep = replicate 3 (-1), addr_cache_n = 0,
      nzcv_dead = 0, const_promote = False, guest_written_mask = 0\<rparr>"

text \<open>Operations return their result together with the updated context.\<close>

definition add_node :: "Op \<Rightarrow> int \<Rightarrow> int \<Rightarrow> int \<Rightarrow> Context \<Rightarrow> int \<times> Context" where
  "add_node op i0 i1 i2 c =
     (if num_nodes c \<ge> kMaxNodes then (-1, c)
      else (int (num_nodes c),
            c\<lparr>nodes := nodes c @ [\<lparr>nop = op, nflags = 0, in0 = i0, in1 = i1, in2 = i2, npayload = PImm 0, naux = 0\<rparr>]\<rparr>))"

definition node :: "Context \<Rightarrow> int \<Rightarrow> Node" where
  "node c i = nodes c ! nat i"

definition update_node :: "int \<Rightarrow> (Node \<Rightarrow> Node) \<Rightarrow> Context \<Rightarrow> Context" where
  "update_node i f c = c\<lparr>nodes := (nodes c)[nat i := f (node c i)]\<rparr>"

definition set_slot :: "nat \<Rightarrow> int \<Rightarrow> Context \<Rightarrow> Context" where
  "set_slot d v c = c\<lparr>slot_val := (slot_val c)[d := v]\<rparr>"

definition resolve :: "nat \<Rightarrow> Context \<Rightarrow> int \<times> Context" where
  "resolve d c =
     (if d \<ge> 8 then (-1, c)
      else
        let val = slot_val c ! d in
        if val \<ge> 0 then (val, c)
        else
          let init_d = - (val + 1) in
          if init_d < 0 \<or> init_d \<ge> 8 then (-1, c)
          else if initial_read c ! nat init_d \<ge> 0
          then (initial_read c ! nat init_d, set_slot d (initial_read c ! nat init_d) c)
          else
            let (id, c1) = add_node ReadSt (-1) (-1) (-1) c in
            if id < 0 then (-1, c1)
            else
              let c2 = update_node id (\<lambda>n. n\<lparr>npayload := PDepth init_d\<rparr>) c1;
                  c3 = c2\<lparr>initial_read := (initial_read c2)[nat init_d := id]\<rparr>
              in (id, set_slot d id c3))"

definition ctx_push :: "int \<Rightarrow> Context \<Rightarrow> Context" where
  "ctx_push node_id c = c\<lparr>slot_val := node_id # take 7 (slot_val c), top_delta := top_delta c - 1\<rparr>"

definition ctx_pop :: "Context \<Rightarrow> Context" where
  "ctx_pop c = c\<lparr>slot_val := drop 1 (slot_val c) @ [-100], top_delta := top_delta c + 1\<rparr>"

section \<open>The packed payload round trips\<close>

lemma nibble_masks: "(0xF :: 8 word) = mask 4" "(0x3 :: 8 word) = mask 2" "(0xF :: 64 word) = mask 4" "(0x3 :: 64 word) = mask 2"
  by (simp_all add: mask_eq_exp_minus_1)

lemma pack_field:
  fixes b :: u64
  assumes "\<And>n. n < w \<Longrightarrow> bit b (k + n) = bit x n" "w \<le> 8"
  shows "ucast (drop_bit k b AND mask w) = (x AND mask w :: u8)"
  using assms by (intro bit_word_eqI) (auto simp: bit_simps)

lemma pack_flag:
  fixes b :: u64
  assumes "bit b k = x"
  shows "(drop_bit k b AND 1 \<noteq> 0) = x"
  using assms by (simp add: and_one_eq mod_2_eq_odd flip: bit_iff_odd_drop_bit)

lemma bit_pack_field:
  "k + w \<le> 64 \<Longrightarrow> w \<le> 8 \<Longrightarrow> bit (push_bit k (ucast (x AND mask w :: u8)) :: u64) n \<longleftrightarrow> k \<le> n \<and> n < k + w \<and> bit x (n - k)"
  by (auto simp: bit_simps)

lemma bit_pack_flag: "k < 64 \<Longrightarrow> bit (push_bit k (of_bool b) :: u64) n \<longleftrightarrow> n = k \<and> b"
  by (cases b) (auto simp: bit_exp_iff)

lemma bit_pack_imm: "bit (ucast (i :: u32) :: u64) n \<longleftrightarrow> n < 32 \<and> bit i n"
  by (auto simp: bit_simps dest: bit_imp_le_length)

lemma guest_pack_bits:
  "bit (guest_pack p) n \<longleftrightarrow>
     n < 32 \<and> bit (gp_imm p) n \<or> 32 \<le> n \<and> n < 32 + 4 \<and> bit (gp_dst p) (n - 32) \<or>
     36 \<le> n \<and> n < 36 + 4 \<and> bit (gp_src p) (n - 36) \<or> 40 \<le> n \<and> n < 40 + 4 \<and> bit (gp_idx p) (n - 40) \<or>
     44 \<le> n \<and> n < 44 + 2 \<and> bit (gp_cls p) (n - 44) \<or>
     n = 46 \<and> gp_is64 p \<or> n = 47 \<and> gp_sign p \<or> n = 48 \<and> gp_has_base p \<or>
     n = 49 \<and> gp_has_index p \<or> n = 50 \<and> gp_addr32 p"
  unfolding guest_pack_def nibble_masks
  by (simp add: bit_or_iff bit_pack_field bit_pack_flag bit_pack_imm del: push_bit_and)

definition guest_mask_fields :: "GuestPayload \<Rightarrow> GuestPayload" where
  "guest_mask_fields p = p\<lparr>gp_dst := gp_dst p AND 0xF, gp_src := gp_src p AND 0xF, gp_idx := gp_idx p AND 0xF,
     gp_cls := gp_cls p AND 0x3\<rparr>"

text \<open>
  (C20) The packed payload of an inlined guest instruction loses nothing: unpacking what
  \<open>guest_pack\<close> packed gives back every field, registers and class reduced to their field widths;
  in particular no field runs into another.
\<close>

theorem guest_pack_unpack: "guest_unpack (guest_pack p) = guest_mask_fields p"
proof -
  have "ucast (guest_pack p) = gp_imm p"
    by (rule bit_word_eqI) (simp add: bit_simps guest_pack_bits)
  moreover have "ucast (drop_bit 32 (guest_pack p) AND mask 4) = gp_dst p AND mask 4"
    "ucast (drop_bit 36 (guest_pack p) AND mask 4) = gp_src p AND mask 4"
    "ucast (drop_bit 40 (guest_pack p) AND mask 4) = gp_idx p AND mask 4"
    "ucast (drop_bit 44 (guest_pack p) AND mask 2) = gp_cls p AND mask 2"
    by (rule pack_field; simp add: guest_pack_bits)+
  moreover have "(drop_bit 46 (guest_pack p) AND 1 \<noteq> 0) = gp_is64 p" "(drop_bit 47 (guest_pack p) AND 1 \<noteq> 0) = gp_sign p"
    "(drop_bit 48 (guest_pack p) AND 1 \<noteq> 0) = gp_has_base p" "(drop_bit 49 (guest_pack p) AND 1 \<noteq> 0) = gp_has_index p"
    "(drop_bit 50 (guest_pack p) AND 1 \<noteq> 0) = gp_addr32 p"
    by (rule pack_flag; simp add: guest_pack_bits)+
  ultimately show ?thesis by (simp only: guest_unpack_def guest_mask_fields_def nibble_masks) simp
qed

end
