(* ===== verification/IRBuild.thy ===== *)
theory IRBuild
  imports X87IR X87RuntimeFacts
begin

text \<open>
  The IR builder (\<open>rosetta_core/src/X87IRBuild.cpp\<close>): the table of loads that may be reused, the
  alias test that prunes it, constant promotion, one builder per instruction family and the
  \<open>build\<close> loop. Builders return a success flag with the context they leave, also when they fail. The
  configuration is an argument; so are the read-only test, which asks the kernel, and the guest
  memory it protects (\<open>ReadOnlyMem\<close>).
\<close>

record RosettaConfig =
  transparent_int :: bool
  fast_recip_div :: bool
  f32_narrow :: bool
  f32_arith :: bool

record ReadOnlyMem =
  range_is_readonly :: "u64 \<Rightarrow> u64 \<Rightarrow> bool"
  rd16 :: "u64 \<Rightarrow> u16"
  rd32 :: "u64 \<Rightarrow> u32"
  rd64 :: "u64 \<Rightarrow> u64"

section \<open>Constant promotion and memory operands\<close>

definition const_promote_addr :: "IROperand \<Rightarrow> u64 option" where
  "const_promote_addr op1 =
     (let a = (if addr_size op1 = S32 then payload op1 AND 0xFFFFFFFF else payload op1) in
      if kind op1 = KAbsMem then (if a \<noteq> 0 then Some a else None)
      else if kind op1 = KMemRef \<and> seg_override op1 = 0 \<and> mem_flags op1 AND 3 = 0
      then (if a \<noteq> 0 then Some a else None)
      else None)"

definition mem_operand_equal :: "IROperand \<Rightarrow> IROperand \<Rightarrow> bool" where
  "mem_operand_equal a b =
     (if kind a \<noteq> kind b then False
      else if kind a = KMemRef then
        osize a = osize b \<and> addr_size a = addr_size b \<and> seg_override a = seg_override b \<and>
        mem_flags a = mem_flags b \<and> base_reg a = base_reg b \<and> index_reg a = index_reg b \<and>
        shift_amount a = shift_amount b \<and> payload a = payload b
      else if kind a = KAbsMem then
        osize a = osize b \<and> addr_size a = addr_size b \<and> payload a = payload b
      else False)"

definition mem_operand_width :: "IROperand \<Rightarrow> nat" where
  "mem_operand_width op1 = (if osize op1 = S16 then 2 else if osize op1 = S32 then 4 else if osize op1 = S64 then 8 else 0)"

text \<open>
  The displacement test is on signed 64-bit values and the code's sums do not wrap for the
  displacements an instruction can carry; the absolute addresses are unsigned and their sums wrap.
\<close>

definition mem_operands_no_alias :: "IROperand \<Rightarrow> IROperand \<Rightarrow> bool" where
  "mem_operands_no_alias a b =
     (let aw = mem_operand_width a; bw = mem_operand_width b in
      if aw = 0 \<or> bw = 0 then False
      else if kind a = KMemRef \<and> kind b = KMemRef then
        (if seg_override a \<noteq> 0 \<or> seg_override b \<noteq> 0 then False
         else if addr_size a \<noteq> addr_size b \<or> mem_flags a \<noteq> mem_flags b \<or> base_reg a \<noteq> base_reg b \<or>
                 index_reg a \<noteq> index_reg b \<or> shift_amount a \<noteq> shift_amount b then False
         else sint (payload a) + int aw \<le> sint (payload b) \<or> sint (payload b) + int bw \<le> sint (payload a))
      else if kind a = KAbsMem \<and> kind b = KAbsMem then
        let aa = (if addr_size a = S32 then payload a AND 0xFFFFFFFF else payload a);
            ba = (if addr_size b = S32 then payload b AND 0xFFFFFFFF else payload b)
        in aa + of_nat aw \<le> ba \<or> ba + of_nat bw \<le> aa
      else False)"

definition mem_operand_uses_reg :: "IROperand \<Rightarrow> nat \<Rightarrow> bool" where
  "mem_operand_uses_reg op1 r =
     (kind op1 = KMemRef \<and>
      (mem_flags op1 AND 1 \<noteq> 0 \<and> unat (base_reg op1 AND 0xF) = r \<or>
       mem_flags op1 AND 2 \<noteq> 0 \<and> unat (index_reg op1 AND 0xF) = r))"

section \<open>The table of reusable loads\<close>

definition mem_cse_evict_may_alias :: "IROperand \<Rightarrow> Context \<Rightarrow> Context" where
  "mem_cse_evict_may_alias store_op c =
     c\<lparr>mem_cse := filter (\<lambda>(op1, k, v). mem_operands_no_alias op1 store_op) (mem_cse c), mem_cse_next := 0\<rparr>"

definition mem_cse_evict_reg :: "nat \<Rightarrow> Context \<Rightarrow> Context" where
  "mem_cse_evict_reg r c =
     c\<lparr>mem_cse := filter (\<lambda>(op1, k, v). \<not> mem_operand_uses_reg op1 r) (mem_cse c), mem_cse_next := 0\<rparr>"

fun cse_find :: "IROperand \<Rightarrow> Op \<Rightarrow> (IROperand \<times> Op \<times> int) list \<Rightarrow> int" where
  "cse_find op1 k [] = -1"
| "cse_find op1 k ((op2, k2, v) # es) = (if k2 = k \<and> mem_operand_equal op2 op1 then v else cse_find op1 k es)"

definition mem_cse_lookup :: "IROperand \<Rightarrow> Op \<Rightarrow> Context \<Rightarrow> int" where
  "mem_cse_lookup op1 k c = cse_find op1 k (mem_cse c)"

definition mem_cse_insert :: "IROperand \<Rightarrow> Op \<Rightarrow> int \<Rightarrow> Context \<Rightarrow> Context" where
  "mem_cse_insert op1 k v c =
     (if kind op1 \<noteq> KMemRef \<and> kind op1 \<noteq> KAbsMem then c
      else if length (mem_cse c) < kMemCSESlots then c\<lparr>mem_cse := mem_cse c @ [(op1, k, v)]\<rparr>
      else c\<lparr>mem_cse := (mem_cse c)[mem_cse_next c := (op1, k, v)],
             mem_cse_next := (mem_cse_next c + 1) mod kMemCSESlots\<rparr>)"

section \<open>Constants\<close>

fun const_find :: "u64 \<Rightarrow> (int \<times> u64) list \<Rightarrow> int" where
  "const_find bits [] = -1"
| "const_find bits ((i, b) # es) = (if b = bits then i else const_find bits es)"

definition build_const :: "u64 \<Rightarrow> Context \<Rightarrow> int \<times> Context" where
  "build_const bits c =
     (if list_ex (\<lambda>(i, b). b = bits) (const_f64 c) then (const_find bits (const_f64 c), c)
      else
        let (id, c1) = add_node ConstF64 (-1) (-1) (-1) c in
        if id < 0 then (-1, c1)
        else
          let c2 = update_node id (\<lambda>n. n\<lparr>npayload := PImm bits\<rparr>) c1 in
          if length (const_f64 c2) < kConstF64Slots
          then (id, c2\<lparr>const_f64 := const_f64 c2 @ [(id, bits)]\<rparr>)
          else (id, c2\<lparr>const_f64 := (const_f64 c2)[const_f64_next c2 := (id, bits)],
                       const_f64_next := (const_f64_next c2 + 1) mod kConstF64Slots\<rparr>))"

definition build_zero :: "Context \<Rightarrow> int \<times> Context" where
  "build_zero c =
     (if const_zero_node c \<ge> 0 then (const_zero_node c, c)
      else let (id, c1) = add_node ConstZero (-1) (-1) (-1) c in
           if id \<ge> 0 then (id, c1\<lparr>const_zero_node := id\<rparr>) else (id, c1))"

definition build_one :: "Context \<Rightarrow> int \<times> Context" where
  "build_one c =
     (if const_one_node c \<ge> 0 then (const_one_node c, c)
      else let (id, c1) = add_node ConstOne (-1) (-1) (-1) c in
           if id \<ge> 0 then (id, c1\<lparr>const_one_node := id\<rparr>) else (id, c1))"

definition const_node_for_bits :: "u64 \<Rightarrow> Context \<Rightarrow> int \<times> Context" where
  "const_node_for_bits bits c =
     (if bits = 0 then build_zero c else if bits = 0x3FF0000000000000 then build_one c else build_const bits c)"

definition try_const_promote :: "ReadOnlyMem \<Rightarrow> IROperand \<Rightarrow> Op \<Rightarrow> Context \<Rightarrow> int \<times> Context" where
  "try_const_promote ro op1 load_op c =
     (if \<not> const_promote c then (-1, c)
      else case const_promote_addr op1 of None \<Rightarrow> (-1, c)
      | Some addr \<Rightarrow>
          if \<not> range_is_readonly ro addr (if load_op = LoadF32Raw then 4 else 8) then (-1, c)
          else const_node_for_bits (if load_op = LoadF32Raw then fp_widen (rd32 ro addr) else rd64 ro addr) c)"

definition clz64 :: "u64 \<Rightarrow> nat" where
  "clz64 m = nat (64 - bitlen (uint m))"

definition f80_to_f64_bits :: "u64 \<Rightarrow> u16 \<Rightarrow> u64 option" where
  "f80_to_f64_bits m se =
     (let sign = push_bit 63 (ucast (drop_bit 15 se)); e0 = uint (se AND 0x7FFF) in
      if m = 0 then (if e0 \<noteq> 0 then None else Some sign)
      else if e0 = 0x7FFF then
        (if push_bit 1 m = 0 then Some (sign OR 0x7FF0000000000000)
         else Some (sign OR 0x7FF0000000000000 OR ((drop_bit 11 m AND 0x000FFFFFFFFFFFFF) OR 0x0008000000000000)))
      else
        let e = (if e0 = 0 then 1 else e0); shift = clz64 m; m1 = push_bit shift m;
            E = e - 16383 - int shift; mant = drop_bit 11 m1; rem = m1 AND 0x7FF;
            up = (rem > 0x400 \<or> rem = 0x400 \<and> mant AND 1 \<noteq> 0);
            mant1 = (if up then mant + 1 else mant);
            carry = (up \<and> mant1 = push_bit 53 1);
            mant2 = (if carry then drop_bit 1 mant1 else mant1);
            E1 = (if carry then E + 1 else E)
        in if E1 > 1023 then Some (sign OR 0x7FF0000000000000)
           else if E1 < - 1022 then None
           else Some (sign OR push_bit 52 (word_of_int (E1 + 1023)) OR (mant2 AND 0x000FFFFFFFFFFFFF)))"

definition try_const_promote_m80 :: "ReadOnlyMem \<Rightarrow> IROperand \<Rightarrow> Context \<Rightarrow> int \<times> Context" where
  "try_const_promote_m80 ro op1 c =
     (if \<not> const_promote c then (-1, c)
      else case const_promote_addr op1 of None \<Rightarrow> (-1, c)
      | Some addr \<Rightarrow>
          if \<not> range_is_readonly ro addr 10 then (-1, c)
          else case f80_to_f64_bits (rd64 ro addr) (rd16 ro (addr + 8)) of None \<Rightarrow> (-1, c)
               | Some bits \<Rightarrow> const_node_for_bits bits c)"

section \<open>Loads and stores\<close>

text \<open>The load node itself, with the widening of a 32-bit value, once promotion and reuse have failed.\<close>

definition new_fp_load :: "IROperand \<Rightarrow> bool \<Rightarrow> Op \<Rightarrow> Context \<Rightarrow> int \<times> Context" where
  "new_fp_load op1 is_f32 load_op c =
     (let (id, c1) = add_node load_op (-1) (-1) (-1) c in
      if id < 0 then (-1, c1)
      else
        let c2 = update_node id (\<lambda>n. n\<lparr>npayload := PMem op1\<rparr>) c1 in
        if is_f32 then
          let (id2, c3) = add_node CvtF32ToF64 id (-1) (-1) c2 in
          if id2 < 0 then (-1, c3) else (id2, mem_cse_insert op1 load_op id2 c3)
        else (id, mem_cse_insert op1 load_op id c2))"

definition build_fp_load :: "ReadOnlyMem \<Rightarrow> IROperand \<Rightarrow> Context \<Rightarrow> int \<times> Context" where
  "build_fp_load ro op1 c =
     (let is_f32 = (osize op1 = S32) in
      if \<not> is_f32 \<and> osize op1 \<noteq> S64 then
        (if osize op1 = S80 then try_const_promote_m80 ro op1 c else (-1, c))
      else
        let load_op = (if is_f32 then LoadF32Raw else LoadF64);
            (promoted, c1) = try_const_promote ro op1 load_op c in
        if promoted \<ge> 0 then (promoted, c1)
        else
          let hit = mem_cse_lookup op1 load_op c1 in
          if hit \<ge> 0 then (hit, c1) else new_fp_load op1 is_f32 load_op c1)"

definition int_load_op :: "u8 \<Rightarrow> Op option" where
  "int_load_op sz = (if sz = S16 then Some LoadI16 else if sz = S32 then Some LoadI32
                     else if sz = S64 then Some LoadI64 else None)"

definition build_int_load :: "IROperand \<Rightarrow> Context \<Rightarrow> int \<times> Context" where
  "build_int_load op1 c =
     (case int_load_op (osize op1) of None \<Rightarrow> (-1, c)
      | Some load_op \<Rightarrow>
          let hit = mem_cse_lookup op1 load_op c in
          if hit \<ge> 0 then (hit, c)
          else
            let (id, c1) = add_node load_op (-1) (-1) (-1) c in
            if id < 0 then (-1, c1)
            else (id, mem_cse_insert op1 load_op id (update_node id (\<lambda>n. n\<lparr>npayload := PMem op1\<rparr>) c1)))"

text \<open>
  \<open>build_fp_store\<close> in three steps: the value to store (for a 32-bit store the raw bits behind a
  widening, the shared narrowing of the last store, or a new narrowing), the store node, and the
  forwarding entry for later loads.
\<close>

definition store_value :: "bool \<Rightarrow> int \<Rightarrow> Context \<Rightarrow> (int \<times> Context) option" where
  "store_value is_f32 val_node c =
     (if is_f32 then
        if nop (node c val_node) = CvtF32ToF64 then Some (in0 (node c val_node), c)
        else if last_narrow_input c = val_node then Some (last_narrow_node c, c)
        else let (id, c1) = add_node CvtF64ToF32 val_node (-1) (-1) c in
             if id < 0 then None
             else Some (id, c1\<lparr>last_narrow_input := val_node, last_narrow_node := id\<rparr>)
      else Some (val_node, c))"

definition forward_store :: "bool \<Rightarrow> IROperand \<Rightarrow> int \<Rightarrow> int \<Rightarrow> Context \<Rightarrow> Context" where
  "forward_store is_f32 op1 val_node store_val c =
     (if \<not> is_f32 then mem_cse_insert op1 LoadF64 val_node c
      else
        let (fwd, c1) = (if nop (node c val_node) = CvtF32ToF64 then (val_node, c)
                         else add_node CvtF32ToF64 store_val (-1) (-1) c)
        in if fwd \<ge> 0 then mem_cse_insert op1 LoadF32Raw fwd c1 else c1)"

definition build_fp_store :: "IROperand \<Rightarrow> int \<Rightarrow> Context \<Rightarrow> bool \<times> Context" where
  "build_fp_store op1 val_node c =
     (let is_f32 = (osize op1 = S32) in
      if \<not> is_f32 \<and> osize op1 \<noteq> S64 then (False, c)
      else case store_value is_f32 val_node c of None \<Rightarrow> (False, c)
      | Some (store_val, c1) \<Rightarrow>
          let (id, c2) = add_node (if is_f32 then StoreF32Raw else StoreF64) store_val (-1) (-1) c1 in
          if id < 0 then (False, c2)
          else
            let c3 = mem_cse_evict_may_alias op1 (update_node id (\<lambda>n. n\<lparr>npayload := PMem op1\<rparr>) c2)
            in (True, forward_store is_f32 op1 val_node store_val c3))"

definition int_store_op :: "u8 \<Rightarrow> Op option" where
  "int_store_op sz = (if sz = S16 then Some StoreI16 else if sz = S32 then Some StoreI32
                      else if sz = S64 then Some StoreI64 else None)"

definition build_int_store :: "IROperand \<Rightarrow> int \<Rightarrow> bool \<Rightarrow> Context \<Rightarrow> bool \<times> Context" where
  "build_int_store op1 val_node do_truncate c =
     (case int_store_op (osize op1) of None \<Rightarrow> (False, c)
      | Some store_op \<Rightarrow>
          let (id, c1) = add_node store_op val_node (-1) (-1) c in
          if id < 0 then (False, c1)
          else
            let c2 = update_node id (\<lambda>n. n\<lparr>npayload := PMem op1\<rparr>) c1;
                c3 = (if do_truncate then update_node id (\<lambda>n. n\<lparr>nflags := nflags n OR kTruncate\<rparr>) c2 else c2)
            in (True, mem_cse_evict_may_alias op1 c3))"


section \<open>Arithmetic, comparison, conditional move\<close>

definition build_arith :: "ReadOnlyMem \<Rightarrow> IRInstr \<Rightarrow> Op \<Rightarrow> bool \<Rightarrow> Context \<Rightarrow> bool \<times> Context" where
  "build_arith ro instr base_op reversed c =
     (if kind (operand0 instr) = KRegister then
        let depth_dst = odepth (operand0 instr); depth_src = odepth (operand1 instr);
            (dst_val, c1) = resolve depth_dst c; (src_val, c2) = resolve depth_src c1 in
        if dst_val < 0 \<or> src_val < 0 then (False, c2)
        else
          let (id, c3) = (if reversed then add_node base_op src_val dst_val (-1) c2
                          else add_node base_op dst_val src_val (-1) c2) in
          if id < 0 then (False, c3) else (True, set_slot depth_dst id c3)
      else
        let (st0, c1) = resolve 0 c in
        if st0 < 0 then (False, c1)
        else
          let (mem_val, c2) = build_fp_load ro (operand0 instr) c1 in
          if mem_val < 0 then (False, c2)
          else
            let (id, c3) = (if reversed then add_node base_op mem_val st0 (-1) c2
                            else add_node base_op st0 mem_val (-1) c2) in
            if id < 0 then (False, c3) else (True, set_slot 0 id c3))"

definition build_arithp :: "IRInstr \<Rightarrow> Op \<Rightarrow> bool \<Rightarrow> Context \<Rightarrow> bool \<times> Context" where
  "build_arithp instr base_op reversed c =
     (let depth_dst = odepth (operand0 instr);
          (dst_val, c1) = resolve depth_dst c; (src_val, c2) = resolve 0 c1 in
      if dst_val < 0 \<or> src_val < 0 then (False, c2)
      else
        let (id, c3) = (if reversed then add_node base_op src_val dst_val (-1) c2
                        else add_node base_op dst_val src_val (-1) c2) in
        if id < 0 then (False, c3) else (True, ctx_pop (set_slot depth_dst id c3)))"

definition build_fcom :: "ReadOnlyMem \<Rightarrow> IRInstr \<Rightarrow> nat \<Rightarrow> bool \<Rightarrow> Context \<Rightarrow> bool \<times> Context" where
  "build_fcom ro instr num_pops is_fcompp c =
     (let (lhs, c1) = resolve 0 c in
      if lhs < 0 then (False, c1)
      else
        let (rhs, c2) = (if is_fcompp then resolve 1 c1
                         else if kind (operand1 instr) = KRegister then resolve (odepth (operand1 instr)) c1
                         else build_fp_load ro (operand1 instr) c1) in
        if rhs < 0 then (False, c2)
        else
          let (id, c3) = add_node FCmp lhs rhs (-1) c2 in
          if id < 0 then (False, c3) else (True, (ctx_pop ^^ num_pops) (c3\<lparr>last_fcmp := id\<rparr>)))"

definition build_ficom :: "IRInstr \<Rightarrow> bool \<Rightarrow> Context \<Rightarrow> bool \<times> Context" where
  "build_ficom instr is_popping c =
     (let (lhs, c1) = resolve 0 c in
      if lhs < 0 then (False, c1)
      else
        let (rhs, c2) = build_int_load (operand0 instr) c1 in
        if rhs < 0 then (False, c2)
        else
          let (id, c3) = add_node FCmp lhs rhs (-1) c2 in
          if id < 0 then (False, c3)
          else let c4 = c3\<lparr>last_fcmp := id\<rparr> in (True, if is_popping then ctx_pop c4 else c4))"

definition build_fcomi :: "IRInstr \<Rightarrow> bool \<Rightarrow> Context \<Rightarrow> bool \<times> Context" where
  "build_fcomi instr is_popping c =
     (let (st0, c1) = resolve 0 c in
      if st0 < 0 then (False, c1)
      else
        let (src, c2) = resolve (odepth (operand1 instr)) c1 in
        if src < 0 then (False, c2)
        else
          let (id, c3) = add_node FComI st0 src (-1) c2 in
          if id < 0 then (False, c3)
          else
            let c4 = (if is_popping then update_node id (\<lambda>n. n\<lparr>nflags := nflags n OR kFcomIPopping\<rparr>) c3 else c3);
                c5 = c4\<lparr>last_fcomi := id\<rparr>
            in (True, if is_popping then ctx_pop c5 else c5))"

definition build_fcmov :: "IRInstr \<Rightarrow> u64 \<Rightarrow> Context \<Rightarrow> bool \<times> Context" where
  "build_fcmov instr aarch64_cond c =
     (if last_fcomi c < 0 then (False, c)
      else
        let (st0, c1) = resolve 0 c in
        if st0 < 0 then (False, c1)
        else
          let (src, c2) = resolve (odepth (operand1 instr)) c1 in
          if src < 0 then (False, c2)
          else
            let (id, c3) = add_node FCSel st0 src (-1) c2 in
            if id < 0 then (False, c3)
            else (True, set_slot 0 id (update_node id (\<lambda>n. n\<lparr>npayload := PImm aarch64_cond\<rparr>) c3)))"

section \<open>Inlined guest integer instructions\<close>

definition guest_mem_operand_ok :: "IROperand \<Rightarrow> bool \<Rightarrow> bool" where
  "guest_mem_operand_ok m allow64 =
     (let size_ok = (if osize m = S8 \<or> osize m = S16 \<or> osize m = S32 then True
                     else if osize m = S64 then allow64 else False) in
      if kind m = KMemRef then (if seg_override m \<noteq> 0 then False else size_ok)
      else if kind m = KAbsMem then size_ok
      else False)"

abbreviation is_mem :: "IROperand \<Rightarrow> bool" where
  "is_mem m \<equiv> kind m = KMemRef \<or> kind m = KAbsMem"

definition guest_payload_0 :: GuestPayload where
  "guest_payload_0 = \<lparr>gp_imm = 0, gp_dst = 0, gp_src = 0, gp_idx = 0, gp_cls = 0, gp_is64 = False, gp_sign = False,
     gp_has_base = False, gp_has_index = False, gp_addr32 = False\<rparr>"

text \<open>The register-destination cases of the switch: the node and payload, or \<open>None\<close> to decline.\<close>

definition guest_reg_payload :: "u16 \<Rightarrow> IROperand \<Rightarrow> IROperand \<Rightarrow> (Op \<times> GuestPayload) option" where
  "guest_reg_payload op dst src =
     (let dst64 = (osize dst = S64);
          p = guest_payload_0\<lparr>gp_dst := reg_index (oreg dst), gp_is64 := dst64\<rparr> in
      if op = kOpcodeName_mov then
        (if kind src = KRegister then
           if \<not> is_gpr (oreg src) \<or> osize src \<noteq> osize dst then None
           else Some (GuestMovRR, p\<lparr>gp_src := reg_index (oreg src)\<rparr>)
         else if kind src = KImmediate \<and> mem_flags src \<noteq> 0 then None
         else if dst64 then None
         else Some (GuestMovRI, p\<lparr>gp_imm := ucast (payload src)\<rparr>))
      else if op = kOpcodeName_movzx \<or> op = kOpcodeName_movsx \<or> op = kOpcodeName_movsxd then
        (if kind src \<noteq> KRegister \<or> \<not> is_gpr (oreg src) then None
         else
           let p1 = p\<lparr>gp_sign := (op \<noteq> kOpcodeName_movzx), gp_src := reg_index (oreg src)\<rparr> in
           if osize src = S8 then
             (if oreg src AND 0xF0 > 0x10 then None
              else Some (GuestExt, p1\<lparr>gp_cls := (if oreg src AND 0xF0 = 0x10 then 1 else 0)\<rparr>))
           else if osize src = S16 then Some (GuestExt, p1\<lparr>gp_cls := 2\<rparr>)
           else if osize src = S32 then
             (if op \<noteq> kOpcodeName_movsxd then None else Some (GuestExt, p1\<lparr>gp_cls := 3\<rparr>))
           else None)
      else if op = kOpcodeName_lea then
        (if kind src \<noteq> KMemRef then None
         else if seg_override src \<noteq> 0 then None
         else if sint (payload src) < - (2 ^ 31) \<or> sint (payload src) > 2 ^ 31 - 1 then None
         else if shift_amount src > 3 then None
         else Some (GuestLea, p\<lparr>gp_imm := ucast (payload src), gp_has_base := (mem_flags src AND 1 \<noteq> 0),
                gp_has_index := (mem_flags src AND 2 \<noteq> 0), gp_src := base_reg src AND 0xF,
                gp_idx := index_reg src AND 0xF, gp_cls := shift_amount src,
                gp_addr32 := (addr_size src = S32)\<rparr>))
      else None)"

text \<open>The three forms \<open>build_guest_int\<close> accepts: a memory destination, a memory source, registers.\<close>

definition build_guest_store :: "IRInstr \<Rightarrow> Context \<Rightarrow> bool \<times> Context" where
  "build_guest_store instr c =
     (let dst = operand0 instr; src = operand1 instr;
          finish = (\<lambda>op1 aux. let (id, c1) = add_node op1 (-1) (-1) (-1) c in
                      if id < 0 then (False, c1)
                      else (True, mem_cse_evict_may_alias dst
                              (update_node id (\<lambda>n. n\<lparr>npayload := PMem dst, naux := aux\<rparr>) c1))) in
      if kind src = KRegister then
        if \<not> is_gpr (oreg src) then (False, c)
        else if oreg src AND 0xF0 = 0x10 then (False, c)
        else if \<not> guest_mem_operand_ok dst True then (False, c)
        else finish GuestStoreR (ucast (reg_index (oreg src)))
      else if is_mem src then (False, c)
      else if kind src = KImmediate \<and> mem_flags src \<noteq> 0 then (False, c)
      else if \<not> guest_mem_operand_ok dst False then (False, c)
      else finish GuestStoreI (ucast (ucast (payload src) :: u32)))"

definition build_guest_load :: "IRInstr \<Rightarrow> u16 \<Rightarrow> Context \<Rightarrow> bool \<times> Context" where
  "build_guest_load instr op c =
     (let dst = operand0 instr; src = operand1 instr; d = reg_index (oreg dst) in
      if \<not> guest_mem_operand_ok src (op = kOpcodeName_mov \<and> osize dst = S64) then (False, c)
      else if op \<noteq> kOpcodeName_mov \<and> osize dst = S64 then (False, c)
      else
        let (id, c1) = add_node GuestLoad (-1) (-1) (-1) c in
        if id < 0 then (False, c1)
        else
          let c2 = update_node id (\<lambda>n. n\<lparr>npayload := PMem src,
                     naux := ucast d OR (if op = kOpcodeName_movsx then 16 else 0)\<rparr>) c1;
              c3 = c2\<lparr>guest_written_mask := guest_written_mask c2 OR push_bit (unat d) 1\<rparr>
          in (True, mem_cse_evict_reg (unat d) c3))"

definition build_guest_reg :: "IRInstr \<Rightarrow> u16 \<Rightarrow> Context \<Rightarrow> bool \<times> Context" where
  "build_guest_reg instr op c =
     (case guest_reg_payload op (operand0 instr) (operand1 instr) of None \<Rightarrow> (False, c)
      | Some (node_op, p) \<Rightarrow>
          let (id, c1) = add_node node_op (-1) (-1) (-1) c in
          if id < 0 then (False, c1)
          else
            let c2 = update_node id (\<lambda>n. n\<lparr>npayload := PImm (guest_pack p)\<rparr>) c1;
                c3 = c2\<lparr>guest_written_mask := guest_written_mask c2 OR push_bit (unat (gp_dst p)) 1\<rparr>
            in (True, mem_cse_evict_reg (unat (gp_dst p)) c3))"

definition build_guest_int :: "RosettaConfig option \<Rightarrow> IRInstr \<Rightarrow> u16 \<Rightarrow> Context \<Rightarrow> bool \<times> Context" where
  "build_guest_int cfg instr op c =
     (let dst = operand0 instr; src = operand1 instr in
      if \<not> (case cfg of Some g \<Rightarrow> transparent_int g | None \<Rightarrow> False) then (False, c)
      else if op = kOpcodeName_nop \<or> op = kOpcodeName_wait then (True, c)
      else if num_operands instr < 2 then (False, c)
      else if op = kOpcodeName_mov \<and> is_mem dst then build_guest_store instr c
      else if kind dst \<noteq> KRegister \<or> \<not> is_gpr (oreg dst) then (False, c)
      else if osize dst \<noteq> S64 \<and> osize dst \<noteq> S32 then (False, c)
      else if is_mem src \<and> (op = kOpcodeName_mov \<or> op = kOpcodeName_movzx \<or> op = kOpcodeName_movsx)
        then build_guest_load instr op c
      else build_guest_reg instr op c)"

section \<open>One instruction\<close>

definition push_result :: "int \<times> Context \<Rightarrow> bool \<times> Context" where
  "push_result r = (if fst r < 0 then (False, snd r) else (True, ctx_push (fst r) (snd r)))"

definition build_unary :: "Op \<Rightarrow> Context \<Rightarrow> bool \<times> Context" where
  "build_unary op1 c =
     (let (st0, c1) = resolve 0 c in
      if st0 < 0 then (False, c1)
      else
        let (id, c2) = add_node op1 st0 (-1) (-1) c1 in
        if id < 0 then (False, c2) else (True, set_slot 0 id c2))"

definition build_fchs :: "Context \<Rightarrow> bool \<times> Context" where
  "build_fchs c =
     (let (st0, c1) = resolve 0 c in
      if st0 < 0 then (False, c1)
      else if nop (node c1 st0) = FNeg then (True, set_slot 0 (in0 (node c1 st0)) c1)
      else
        let (id, c2) = add_node FNeg st0 (-1) (-1) c1 in
        if id < 0 then (False, c2) else (True, set_slot 0 id c2))"

definition build_fxch :: "IRInstr \<Rightarrow> Context \<Rightarrow> bool \<times> Context" where
  "build_fxch instr c =
     (let depth = odepth (operand1 instr) in
      if depth = 0 \<or> depth \<ge> 8 then (False, c)
      else
        let c1 = snd (resolve 0 c); c2 = snd (resolve depth c1); tmp = slot_val c2 ! 0
        in (True, set_slot depth tmp (set_slot 0 (slot_val c2 ! depth) c2)))"

definition build_fst :: "IRInstr \<Rightarrow> bool \<Rightarrow> Context \<Rightarrow> bool \<times> Context" where
  "build_fst instr is_pop c =
     (let (st0, c1) = resolve 0 c in
      if st0 < 0 then (False, c1)
      else
        let (ok, c2) = (if kind (operand0 instr) = KRegister
                        then (True, if odepth (operand0 instr) \<noteq> 0 then set_slot (odepth (operand0 instr)) st0 c1 else c1)
                        else build_fp_store (operand0 instr) st0 c1) in
        if \<not> ok then (False, c2) else (True, if is_pop then ctx_pop c2 else c2))"

definition build_fist :: "IRInstr \<Rightarrow> u16 \<Rightarrow> Context \<Rightarrow> bool \<times> Context" where
  "build_fist instr op c =
     (let (st0, c1) = resolve 0 c in
      if st0 < 0 then (False, c1)
      else
        let (ok, c2) = build_int_store (operand0 instr) st0 (op = kOpcodeName_fisttp) c1 in
        if \<not> ok then (False, c2) else (True, if op \<noteq> kOpcodeName_fist then ctx_pop c2 else c2))"

definition build_iarith :: "IRInstr \<Rightarrow> Op \<Rightarrow> bool \<Rightarrow> Context \<Rightarrow> bool \<times> Context" where
  "build_iarith instr arith_op reversed c =
     (let (st0, c1) = resolve 0 c in
      if st0 < 0 then (False, c1)
      else
        let (mem_val, c2) = build_int_load (operand0 instr) c1 in
        if mem_val < 0 then (False, c2)
        else
          let (id, c3) = (if reversed then add_node arith_op mem_val st0 (-1) c2
                          else add_node arith_op st0 mem_val (-1) c2) in
          if id < 0 then (False, c3) else (True, set_slot 0 id c3))"

definition build_ftst :: "Context \<Rightarrow> bool \<times> Context" where
  "build_ftst c =
     (let (st0, c1) = resolve 0 c in
      if st0 < 0 then (False, c1)
      else
        let (id, c2) = add_node FTst st0 (-1) (-1) c1 in
        if id < 0 then (False, c2) else (True, c2\<lparr>last_fcmp := id\<rparr>))"

definition build_fstsw :: "IRInstr \<Rightarrow> Context \<Rightarrow> bool \<times> Context" where
  "build_fstsw instr c =
     (if kind (operand0 instr) \<noteq> KRegister then (False, c)
      else
        let (id, c1) = add_node FStsw (-1) (-1) (-1) c in
        if id < 0 then (False, c1)
        else
          let c2 = update_node id (\<lambda>n. n\<lparr>in0 := last_fcmp c1, in1 := int (odepth (operand0 instr)), in2 := top_delta c1\<rparr>) c1
          in (True, mem_cse_evict_reg 0 c2))"

definition build_fldcw :: "IRInstr \<Rightarrow> Context \<Rightarrow> bool \<times> Context" where
  "build_fldcw instr c =
     (let (id, c1) = add_node StoreCW (-1) (-1) (-1) c in
      if id < 0 then (False, c1)
      else (True, update_node id (\<lambda>n. n\<lparr>npayload := PMem (operand0 instr)\<rparr>) c1))"

definition build_fnstcw :: "IRInstr \<Rightarrow> Context \<Rightarrow> bool \<times> Context" where
  "build_fnstcw instr c =
     (let (id, c1) = add_node LoadCW (-1) (-1) (-1) c in
      if id < 0 then (False, c1)
      else (True, mem_cse_evict_may_alias (operand0 instr)
                    (update_node id (\<lambda>n. n\<lparr>npayload := PMem (operand0 instr)\<rparr>) c1)))"


definition build_instr ::
  "RosettaConfig option \<Rightarrow> ReadOnlyMem \<Rightarrow> IRInstr \<Rightarrow> Context \<Rightarrow> bool \<times> Context" where
  "build_instr cfg ro instr c =
     (let op = opcode instr in
      if op = kOpcodeName_fldz then push_result (build_zero c)
      else if op = kOpcodeName_fld1 then push_result (build_one c)
      else if op = kOpcodeName_fldl2e then push_result (build_const 0x3FF71547652B82FE c)
      else if op = kOpcodeName_fldl2t then push_result (build_const 0x400A934F0979A371 c)
      else if op = kOpcodeName_fldlg2 then push_result (build_const 0x3FD34413509F79FF c)
      else if op = kOpcodeName_fldln2 then push_result (build_const 0x3FE62E42FEFA39EF c)
      else if op = kOpcodeName_fldpi then push_result (build_const 0x400921FB54442D18 c)
      else if op = kOpcodeName_fld
        then push_result (if kind (operand0 instr) = KRegister then resolve (odepth (operand1 instr)) c
                       else build_fp_load ro (operand0 instr) c)
      else if op = kOpcodeName_fild then push_result (build_int_load (operand0 instr) c)
      else if op = kOpcodeName_fst \<or> op = kOpcodeName_fst_stack then build_fst instr False c
      else if op = kOpcodeName_fstp \<or> op = kOpcodeName_fstp_stack then build_fst instr True c
      else if op = kOpcodeName_fistp \<or> op = kOpcodeName_fist \<or> op = kOpcodeName_fisttp
        then build_fist instr op c
      else if op = kOpcodeName_fadd then build_arith ro instr FAdd False c
      else if op = kOpcodeName_fsub then build_arith ro instr FSub False c
      else if op = kOpcodeName_fsubr then build_arith ro instr FSub True c
      else if op = kOpcodeName_fmul then build_arith ro instr FMul False c
      else if op = kOpcodeName_fdiv then build_arith ro instr FDiv False c
      else if op = kOpcodeName_fdivr then build_arith ro instr FDiv True c
      else if op = kOpcodeName_fiadd then build_iarith instr FAdd False c
      else if op = kOpcodeName_fisub then build_iarith instr FSub False c
      else if op = kOpcodeName_fisubr then build_iarith instr FSub True c
      else if op = kOpcodeName_fimul then build_iarith instr FMul False c
      else if op = kOpcodeName_fidiv then build_iarith instr FDiv False c
      else if op = kOpcodeName_fidivr then build_iarith instr FDiv True c
      else if op = kOpcodeName_faddp then build_arithp instr FAdd False c
      else if op = kOpcodeName_fsubp then build_arithp instr FSub False c
      else if op = kOpcodeName_fsubrp then build_arithp instr FSub True c
      else if op = kOpcodeName_fmulp then build_arithp instr FMul False c
      else if op = kOpcodeName_fdivp then build_arithp instr FDiv False c
      else if op = kOpcodeName_fdivrp then build_arithp instr FDiv True c
      else if op = kOpcodeName_fchs then build_fchs c
      else if op = kOpcodeName_fabs then build_unary FAbs c
      else if op = kOpcodeName_fsqrt then build_unary FSqrt c
      else if op = kOpcodeName_frndint then build_unary FRndInt c
      else if op = kOpcodeName_fxch then build_fxch instr c
      else if op = kOpcodeName_fcom \<or> op = kOpcodeName_fucom then build_fcom ro instr 0 False c
      else if op = kOpcodeName_fcomp \<or> op = kOpcodeName_fucomp then build_fcom ro instr 1 False c
      else if op = kOpcodeName_fcompp \<or> op = kOpcodeName_fucompp then build_fcom ro instr 2 True c
      else if op = kOpcodeName_ficom then build_ficom instr False c
      else if op = kOpcodeName_ficomp then build_ficom instr True c
      else if op = kOpcodeName_fcomi \<or> op = kOpcodeName_fucomi then build_fcomi instr False c
      else if op = kOpcodeName_fcomip \<or> op = kOpcodeName_fucomip then build_fcomi instr True c
      else if op = kOpcodeName_fcmovb then build_fcmov instr 3 c
      else if op = kOpcodeName_fcmovbe then build_fcmov instr 9 c
      else if op = kOpcodeName_fcmove then build_fcmov instr 0 c
      else if op = kOpcodeName_fcmovnb then build_fcmov instr 2 c
      else if op = kOpcodeName_fcmovnbe then build_fcmov instr 8 c
      else if op = kOpcodeName_fcmovne then build_fcmov instr 1 c
      else if op = kOpcodeName_fcmovu then build_fcmov instr 6 c
      else if op = kOpcodeName_fcmovnu then build_fcmov instr 7 c
      else if op = kOpcodeName_ftst then build_ftst c
      else if op = kOpcodeName_fstsw then build_fstsw instr c
      else if op = kOpcodeName_fldcw then build_fldcw instr c
      else if op = kOpcodeName_fnstcw then build_fnstcw instr c
      else if op = kOpcodeName_fnop then (True, c)
      else if op = kOpcodeName_mov \<or> op = kOpcodeName_movzx \<or> op = kOpcodeName_movsx \<or> op = kOpcodeName_movsxd \<or> op = kOpcodeName_lea \<or> op = kOpcodeName_nop \<or> op = kOpcodeName_wait
        then build_guest_int cfg instr op c
      else (False, c))"

section \<open>The build loop\<close>

text \<open>The deferred permutation: every displaced slot is resolved; \<open>False\<close> when one cannot be.\<close>

fun fold_perm :: "int list \<Rightarrow> nat list \<Rightarrow> Context \<Rightarrow> bool \<times> Context" where
  "fold_perm pm [] c = (True, c)"
| "fold_perm pm (d # ds) c =
     (if pm ! d \<noteq> int d then
        let (id, c1) = resolve d c in if id < 0 then (False, c1) else fold_perm pm ds c1
      else fold_perm pm ds c)"

text \<open>The instruction loop from position \<open>i\<close> of the run, over the instructions left in it.\<close>

fun build_loop :: "RosettaConfig option \<Rightarrow> ReadOnlyMem \<Rightarrow> IRInstr list \<Rightarrow> nat \<Rightarrow> Context \<Rightarrow> Context" where
  "build_loop cfg ro [] i c = c"
| "build_loop cfg ro (instr # rest) i c =
     (let (ok, c1) = build_instr cfg ro instr c in
      if \<not> ok then c1 else build_loop cfg ro rest (i + 1) (c1\<lparr>consumed := int (i + 1)\<rparr>))"

definition build ::
  "RosettaConfig option \<Rightarrow> ReadOnlyMem \<Rightarrow> IRInstr list \<Rightarrow> nat \<Rightarrow> nat \<Rightarrow> int list option \<Rightarrow> bool \<Rightarrow> bool \<times> Context" where
  "build cfg ro instr_array start_idx run_length pm const_promote_on =
     (let c0 = Context_init\<lparr>const_promote := const_promote_on\<rparr>;
          (ok, c1) = (case pm of None \<Rightarrow> (True, c0)
                      | Some p \<Rightarrow> fold_perm p [0..<8] (c0\<lparr>slot_val := map (\<lambda>d. - (p ! d + 1)) [0..<8]\<rparr>)) in
      if \<not> ok then (False, c1)
      else let c2 = build_loop cfg ro (take run_length (drop start_idx instr_array)) 0 c1
           in (consumed c2 \<ge> 2, c2))"

end
