(* ===== verification/IROptimize.thy ===== *)
theory IROptimize
  imports IRBuild
begin

text \<open>
  The IR optimizer (\<open>rosetta_core/src/X87IROptimize.cpp\<close>), pass by pass. Nodes are never removed: a
  pass sets the dead flag. The use counts of a pass are a list indexed by node; a pass is a fold
  over the node indices of a step on the context and the counts, as the loops of the code are.
\<close>

section \<open>Flags and use counts\<close>

definition is_dead :: "Node \<Rightarrow> bool" where
  "is_dead n \<longleftrightarrow> nflags n AND kDead \<noteq> 0"

definition is_f32 :: "Node \<Rightarrow> bool" where
  "is_f32 n \<longleftrightarrow> nflags n AND kF32 \<noteq> 0"

definition set_dead :: "Node \<Rightarrow> Node" where
  "set_dead n = n\<lparr>nflags := nflags n OR kDead\<rparr>"

definition kill :: "int \<Rightarrow> Context \<Rightarrow> Context" where
  "kill i c = update_node i set_dead c"

definition in_table :: "Context \<Rightarrow> int \<Rightarrow> bool" where
  "in_table c i \<longleftrightarrow> 0 \<le> i \<and> i < int (num_nodes c)"

definition bump :: "int \<Rightarrow> int \<Rightarrow> int list \<Rightarrow> int list" where
  "bump i k uc = (if 0 \<le> i then uc[nat i := uc ! nat i + k] else uc)"

text \<open>The counting loops every pass starts with: final stack values, then inputs of live nodes.\<close>

definition count_inputs :: "int \<Rightarrow> Node \<Rightarrow> int list \<Rightarrow> int list" where
  "count_inputs k n uc = bump (in2 n) k (bump (in1 n) k (bump (in0 n) k uc))"

definition count_uses :: "Context \<Rightarrow> int list" where
  "count_uses c =
     fold (\<lambda>n uc. if is_dead n then uc else count_inputs 1 n uc) (nodes c)
       (fold (\<lambda>v uc. if in_table c v then bump v 1 uc else uc) (slot_val c) (replicate kMaxNodes 0))"

section \<open>Dead compares\<close>

text \<open>The backward scan, over the nodes from the last one.\<close>

fun dead_compares :: "bool \<Rightarrow> Node list \<Rightarrow> Node list" where
  "dead_compares overwritten [] = []"
| "dead_compares overwritten (n # ns) =
     (if is_dead n then n # dead_compares overwritten ns
      else if nop n = FStsw then n # dead_compares False ns
      else if nop n = FCmp \<or> nop n = FTst then
        (if overwritten then set_dead n # dead_compares overwritten ns else n # dead_compares True ns)
      else n # dead_compares overwritten ns)"

definition pass_dead_compares :: "Context \<Rightarrow> Context" where
  "pass_dead_compares c = c\<lparr>nodes := rev (dead_compares False (rev (nodes c)))\<rparr>"

section \<open>Constant arithmetic\<close>

definition const_is :: "Context \<Rightarrow> int \<Rightarrow> Op option \<Rightarrow> u64 \<Rightarrow> bool" where
  "const_is c i alias_op f64_bits =
     (if \<not> in_table c i then False
      else let cn = node c i in
        if is_dead cn then False
        else if alias_op = Some (nop cn) then True
        else nop cn = ConstF64 \<and> npayload cn = PImm f64_bits)"

definition subst_input :: "int \<Rightarrow> int \<Rightarrow> Node \<Rightarrow> Node" where
  "subst_input i keep n =
     (let s = (\<lambda>v. if v = i then keep else v) in n\<lparr>in0 := s (in0 n), in1 := s (in1 n), in2 := s (in2 n)\<rparr>)"

definition subst_uses :: "int \<Rightarrow> int \<Rightarrow> Context \<Rightarrow> Context" where
  "subst_uses i keep c =
     c\<lparr>nodes := map (\<lambda>n. if is_dead n then n else subst_input i keep n) (nodes c)\<rparr>"

definition fold_to :: "int \<Rightarrow> int \<Rightarrow> int \<Rightarrow> Context \<times> int list \<Rightarrow> Context \<times> int list" where
  "fold_to i keep k st1 =
     (let (c, uc) = st1;
          c1 = subst_uses i keep c;
          c2 = kill i (c1\<lparr>slot_val := map (\<lambda>v. if v = i then keep else v) (slot_val c1)\<rparr>);
          uc1 = uc[nat keep := uc ! nat keep + uc ! nat i - 1];
          uc2 = uc1[nat i := 0];
          uc3 = bump k (- 1) uc2
      in (if uc3 ! nat k = 0 then kill k c2 else c2, uc3))"

abbreviation kOneBits :: u64 where "kOneBits \<equiv> 0x3FF0000000000000"
abbreviation kMZeroBits :: u64 where "kMZeroBits \<equiv> 0x8000000000000000"

text \<open>The identity a node is, as the kept operand and the constant one.\<close>

definition identity_fold :: "Context \<Rightarrow> Node \<Rightarrow> (int \<times> int) option" where
  "identity_fold c n =
     (if (nop n = FMul \<or> nop n = FDiv) \<and> const_is c (in1 n) (Some ConstOne) kOneBits then Some (in0 n, in1 n)
      else if nop n = FMul \<and> const_is c (in0 n) (Some ConstOne) kOneBits then Some (in1 n, in0 n)
      else if nop n = FSub \<and> const_is c (in1 n) (Some ConstZero) 0 then Some (in0 n, in1 n)
      else if nop n = FAdd \<and> const_is c (in1 n) None kMZeroBits then Some (in0 n, in1 n)
      else None)"

definition recip_bits :: "RosettaConfig option \<Rightarrow> u64 \<Rightarrow> u64 option" where
  "recip_bits cfg b =
     (let e = drop_bit 52 b AND 0x7FF in
      if b AND 0x000FFFFFFFFFFFFF = 0 \<and> e \<ge> 1 \<and> e \<le> 2045
      then Some ((b AND 0x8000000000000000) OR push_bit 52 (2046 - e))
      else if (case cfg of Some g \<Rightarrow> fast_recip_div g | None \<Rightarrow> False) \<and> e \<ge> 1 \<and> e \<le> 2046 then
        let rb = fp_div fp_one b; rexp = drop_bit 52 rb AND 0x7FF in
        if rexp \<ge> 1 \<and> rexp \<le> 2046 then Some rb else None
      else None)"

definition const_arith_div :: "RosettaConfig option \<Rightarrow> nat \<Rightarrow> Context \<times> int list \<Rightarrow> Context \<times> int list" where
  "const_arith_div cfg i st1 =
     (let (c, uc) = st1; k = in1 (node c (int i)) in
      if \<not> in_table c k then (c, uc)
      else let cn = node c k in
        if nop cn \<noteq> ConstF64 \<or> is_dead cn \<or> uc ! nat k \<noteq> 1 then (c, uc)
        else case npayload cn of
            PImm b \<Rightarrow> (case recip_bits cfg b of None \<Rightarrow> (c, uc)
              | Some r \<Rightarrow> (update_node (int i) (\<lambda>n. n\<lparr>nop := FMul\<rparr>) (update_node k (\<lambda>n. n\<lparr>npayload := PImm r\<rparr>) c), uc))
          | _ \<Rightarrow> (c, uc))"

definition const_arith_cmp :: "nat \<Rightarrow> Context \<times> int list \<Rightarrow> Context \<times> int list" where
  "const_arith_cmp i st1 =
     (let (c, uc) = st1; k = in1 (node c (int i)) in
      if \<not> in_table c k then (c, uc)
      else let cn = node c k in
        if is_dead cn then (c, uc)
        else if \<not> (nop cn = ConstZero \<or> nop cn = ConstF64 \<and> (case npayload cn of PImm b \<Rightarrow> push_bit 1 b = 0 | _ \<Rightarrow> False))
        then (c, uc)
        else let c1 = update_node (int i) (\<lambda>n. n\<lparr>nop := FTst, in1 := -1\<rparr>) c; uc1 = bump k (- 1) uc
             in (if uc1 ! nat k = 0 then kill k c1 else c1, uc1))"

definition const_arith_step :: "RosettaConfig option \<Rightarrow> nat \<Rightarrow> Context \<times> int list \<Rightarrow> Context \<times> int list" where
  "const_arith_step cfg i st1 =
     (let n = node (fst st1) (int i) in
      if is_dead n then st1
      else case identity_fold (fst st1) n of
          Some (keep, k) \<Rightarrow> if keep \<ge> 0 then fold_to (int i) keep k st1
                            else if nop n = FDiv then const_arith_div cfg i st1 else st1
        | None \<Rightarrow> if nop n = FDiv then const_arith_div cfg i st1
                  else if nop n = FCmp then const_arith_cmp i st1 else st1)"

definition pass_const_arith :: "RosettaConfig option \<Rightarrow> Context \<Rightarrow> Context" where
  "pass_const_arith cfg c = fst (fold (const_arith_step cfg) [0..<num_nodes c] (c, count_uses c))"

section \<open>Dead values\<close>

definition side_effect :: "Op \<Rightarrow> bool" where
  "side_effect k \<longleftrightarrow> k \<in> {StoreF64, StoreF32Raw, StoreI16, StoreI32, StoreI64, FCmp, FTst, FStsw, FComI, StoreCW, LoadCW,
     GuestMovRR, GuestMovRI, GuestLea, GuestExt, GuestLoad, GuestStoreR, GuestStoreI}"

definition dse_step :: "nat \<Rightarrow> Context \<times> int list \<Rightarrow> Context \<times> int list" where
  "dse_step i st1 =
     (let (c, uc) = st1; n = node c (int i) in
      if is_dead n then (c, uc)
      else if side_effect (nop n) then (c, uc)
      else if uc ! i = 0 then (kill (int i) c, count_inputs (- 1) n uc)
      else (c, uc))"

definition pass_dse :: "Context \<Rightarrow> Context" where
  "pass_dse c = fst (fold dse_step (rev [0..<num_nodes c]) (fold dse_step (rev [0..<num_nodes c]) (c, count_uses c)))"

section \<open>Negation folding\<close>

definition single_use_op :: "Context \<times> int list \<Rightarrow> int \<Rightarrow> Op \<Rightarrow> bool" where
  "single_use_op st1 i k \<longleftrightarrow> in_table (fst st1) i \<and> nop (node (fst st1) i) = k \<and> \<not> is_dead (node (fst st1) i) \<and>
     snd st1 ! nat i = 1"

definition fneg_step :: "nat \<Rightarrow> Context \<times> int list \<Rightarrow> Context \<times> int list" where
  "fneg_step i st1 =
     (let (c, uc) = st1; n = node c (int i); a = in0 n; b = in1 n in
      if is_dead n then (c, uc)
      else if nop n = FAdd \<or> nop n = FSub then
        if single_use_op (c, uc) b FNeg then
          let x = in0 (node c b)
          in (kill b (update_node (int i) (\<lambda>n. n\<lparr>nop := (if nop n = FAdd then FSub else FAdd), in1 := x\<rparr>) c),
              bump x 1 (uc[nat b := 0]))
        else if nop n = FAdd \<and> single_use_op (c, uc) a FNeg then
          let x = in0 (node c a)
          in (kill a (update_node (int i) (\<lambda>n. n\<lparr>nop := FSub, in0 := b, in1 := x\<rparr>) c), bump x 1 (uc[nat a := 0]))
        else (c, uc)
      else if nop n = FNeg \<and> single_use_op (c, uc) a FMul then
        let m = node c a
        in (kill a (update_node (int i) (\<lambda>n. n\<lparr>nop := FNMul, in0 := in0 m, in1 := in1 m\<rparr>) c),
            bump (in1 m) 1 (bump (in0 m) 1 (uc[nat a := 0])))
      else (c, uc))"

definition pass_fneg_fold :: "Context \<Rightarrow> Context" where
  "pass_fneg_fold c = fst (fold fneg_step [0..<num_nodes c] (c, count_uses c))"

section \<open>Fused multiply-add\<close>

text \<open>
  \<open>try_fuse\<close> on the operand \<open>m\<close> at position 0 or 1 and the other operand; \<open>extra\<close> is the condition a pass
  adds on the multiplication. \<open>None\<close> when it returns false.
\<close>

definition try_fuse :: "(Node \<Rightarrow> bool) \<Rightarrow> nat \<Rightarrow> bool \<Rightarrow> int \<Rightarrow> int \<Rightarrow> Context \<times> int list \<Rightarrow> (Context \<times> int list) option" where
  "try_fuse extra i first m other st1 =
     (let (c, uc) = st1 in
      if \<not> in_table c m then None
      else let mul = node c m in
        if nop mul \<noteq> FMul \<or> \<not> extra mul \<or> is_dead mul \<or> uc ! nat m \<noteq> 1 then None
        else let f = (\<lambda>n. n\<lparr>nop := (if nop n = FAdd then FMAdd else if first then FNMSub else FMSub),
                             in0 := in0 mul, in1 := in1 mul, in2 := other\<rparr>)
             in Some (kill m (update_node (int i) f c), bump (in1 mul) 1 (bump (in0 mul) 1 (uc[nat m := 0]))))"

definition fuse_step :: "(Node \<Rightarrow> bool) \<Rightarrow> (Node \<Rightarrow> bool) \<Rightarrow> nat \<Rightarrow> Context \<times> int list \<Rightarrow> Context \<times> int list" where
  "fuse_step cond extra i st1 =
     (let n = node (fst st1) (int i) in
      if is_dead n \<or> \<not> cond n \<or> nop n \<noteq> FAdd \<and> nop n \<noteq> FSub then st1
      else case try_fuse extra i True (in0 n) (in1 n) st1 of Some r \<Rightarrow> r
        | None \<Rightarrow> (case try_fuse extra i False (in1 n) (in0 n) st1 of Some r \<Rightarrow> r | None \<Rightarrow> st1))"

definition pass_fma :: "Context \<Rightarrow> Context" where
  "pass_fma c = fst (fold (fuse_step (\<lambda>_. True) (\<lambda>_. True)) [0..<num_nodes c] (c, count_uses c))"

section \<open>Single precision\<close>

definition f32_narrowable_op :: "Op \<Rightarrow> nat option" where
  "f32_narrowable_op k =
     (if k \<in> {FAdd, FSub, FMul, FDiv, FNMul} then Some 2 else if k \<in> {FNeg, FAbs, FSqrt} then Some 1 else None)"

definition widened :: "Context \<Rightarrow> int \<Rightarrow> bool" where
  "widened c i \<longleftrightarrow> in_table c i \<and> nop (node c i) = CvtF32ToF64 \<and> \<not> is_dead (node c i)"

text \<open>Retire one widened operand: drop its use, kill it when orphaned, count the raw source.\<close>

definition drop_widen :: "int \<Rightarrow> int \<Rightarrow> Context \<times> int list \<Rightarrow> Context \<times> int list" where
  "drop_widen i raw st1 =
     (let (c, uc) = st1; uc1 = bump i (- 1) uc
      in (if uc1 ! nat i = 0 then kill i c else c, bump raw 1 uc1))"

definition narrow_step :: "nat \<Rightarrow> Context \<times> int list \<Rightarrow> Context \<times> int list" where
  "narrow_step i st1 =
     (let (c, uc) = st1; n = node c (int i); x = in0 n; xn = node c x in
      if is_dead n \<or> nop n \<noteq> CvtF64ToF32 \<or> \<not> in_table c x \<or> is_dead xn \<or> is_f32 xn then (c, uc)
      else case f32_narrowable_op (nop xn) of None \<Rightarrow> (c, uc)
        | Some k \<Rightarrow>
            if uc ! nat x \<noteq> 1 \<or> \<not> widened c (in0 xn) \<or> k = 2 \<and> \<not> widened c (in1 xn) then (c, uc)
            else
              let raw0 = in0 (node c (in0 xn)); raw1 = (if k = 2 then in0 (node c (in1 xn)) else -1);
                  c1 = update_node (int i) (\<lambda>m. m\<lparr>nop := nop xn, nflags := nflags m OR kF32, in0 := raw0, in1 := raw1\<rparr>) c;
                  st2 = drop_widen (in0 xn) raw0 (kill x c1, uc[nat x := 0])
              in if k = 2 then drop_widen (in1 xn) raw1 st2 else st2)"

definition pass_f32_narrow :: "Context \<Rightarrow> Context" where
  "pass_f32_narrow c = fst (fold narrow_step [0..<num_nodes c] (c, count_uses c))"

definition chain_inputs :: "Node \<Rightarrow> int list" where
  "chain_inputs n = take (case f32_narrowable_op (nop n) of None \<Rightarrow> 0 | Some k \<Rightarrow> k) [in0 n, in1 n]"

text \<open>The array of flags \<open>elig\<close> is the list of the eligible nodes.\<close>

definition chain_input_ok :: "Context \<Rightarrow> nat list \<Rightarrow> int \<Rightarrow> bool" where
  "chain_input_ok c elig i \<longleftrightarrow> in_table c i \<and> \<not> is_dead (node c i) \<and>
     (nop (node c i) = CvtF32ToF64 \<or> is_f32 (node c i) \<or> nop (node c i) = ConstZero \<or> nat i \<in> set elig)"

definition retract :: "nat \<Rightarrow> nat list \<times> bool \<Rightarrow> nat list \<times> bool" where
  "retract i st1 = (removeAll i (fst st1), True)"

definition retract_input :: "Context \<Rightarrow> int \<Rightarrow> nat list \<times> bool \<Rightarrow> nat list \<times> bool" where
  "retract_input c i st1 = (if in_table c i \<and> nat i \<in> set (fst st1) then retract (nat i) st1 else st1)"

definition chain_step :: "Context \<Rightarrow> nat \<Rightarrow> nat list \<times> bool \<Rightarrow> nat list \<times> bool" where
  "chain_step c i st1 =
     (let n = node c (int i) in
      if is_dead n then st1
      else
        let st2 = (if i \<in> set (fst st1) \<and> \<not> list_all (chain_input_ok c (fst st1)) (chain_inputs n)
                   then retract i st1 else st1) in
        if nop n = CvtF64ToF32 \<or> i \<in> set (fst st2) then st2
        else retract_input c (in2 n) (retract_input c (in1 n) (retract_input c (in0 n) st2)))"

definition chain_sweep :: "Context \<Rightarrow> nat list \<Rightarrow> nat list \<times> bool" where
  "chain_sweep c elig = fold (chain_step c) [0..<num_nodes c] (elig, False)"

text \<open>A sweep that changed something retracted a node, so the loop ends.\<close>

definition shrunk :: "nat list \<Rightarrow> nat list \<times> bool \<Rightarrow> bool" where
  "shrunk elig st1 \<longleftrightarrow> set (fst st1) \<subseteq> set elig \<and> (snd st1 \<longrightarrow> length (fst st1) < length elig) \<and>
     length (fst st1) \<le> length elig"

lemma shrunk_retract: "shrunk elig st1 \<Longrightarrow> i \<in> set (fst st1) \<Longrightarrow> shrunk elig (retract i st1)"
  using length_removeAll_less [of i "fst st1"] by (auto simp: shrunk_def retract_def)

lemma shrunk_retract_input: "shrunk elig st1 \<Longrightarrow> shrunk elig (retract_input c i st1)"
  by (simp add: retract_input_def shrunk_retract)

lemma shrunk_step: "shrunk elig st1 \<Longrightarrow> shrunk elig (chain_step c i st1)"
  by (simp add: chain_step_def Let_def shrunk_retract shrunk_retract_input)

lemma shrunk_sweep: "shrunk elig (chain_sweep c elig)"
proof -
  have "shrunk elig st1 \<Longrightarrow> shrunk elig (fold (chain_step c) is st1)" for "is" st1
    by (induction "is" arbitrary: st1) (simp_all add: shrunk_step)
  then show ?thesis by (simp add: chain_sweep_def shrunk_def)
qed

function chain_fix :: "Context \<Rightarrow> nat list \<Rightarrow> nat list" where
  "chain_fix c elig = (let st1 = chain_sweep c elig in if snd st1 then chain_fix c (fst st1) else fst st1)"
  by pat_completeness auto
termination
  by (relation "measure (\<lambda>(c, elig). length elig)") (use shrunk_sweep in \<open>auto simp: shrunk_def\<close>)

declare chain_fix.simps [simp del]

definition chain_initial :: "Context \<Rightarrow> nat list" where
  "chain_initial c = filter (\<lambda>i. let n = nodes c ! i in
     nflags n AND (kDead OR kF32) = 0 \<and> f32_narrowable_op (nop n) \<noteq> None) [0..<num_nodes c]"

definition unwrap :: "Context \<Rightarrow> int \<Rightarrow> int" where
  "unwrap c i = (if nop (node c i) = CvtF32ToF64 then in0 (node c i) else i)"

definition chain_flip :: "nat \<Rightarrow> Context \<Rightarrow> Context" where
  "chain_flip i c = update_node (int i) (\<lambda>n. n\<lparr>nflags := nflags n OR kF32, in0 := unwrap c (in0 n),
     in1 := (if f32_narrowable_op (nop n) = Some 2 then unwrap c (in1 n) else in1 n)\<rparr>) c"

definition chain_bypass :: "nat list \<Rightarrow> nat \<Rightarrow> Context \<Rightarrow> Context" where
  "chain_bypass elig i c =
     (let n = node c (int i); src = in0 n in
      if is_dead n \<or> nop n \<noteq> CvtF64ToF32 \<or> \<not> in_table c src \<or> nat src \<notin> set elig then c
      else kill (int i) (subst_uses (int i) src c))"

definition pass_f32_chain :: "Context \<Rightarrow> Context" where
  "pass_f32_chain c =
     (let elig0 = chain_initial c in
      if elig0 = [] then c
      else
        let elig = chain_fix c (filter (\<lambda>i. int i \<notin> set (slot_val c)) elig0) in
        if elig = [] then c
        else fold (chain_bypass elig) [0..<num_nodes c] (fold chain_flip elig c))"

definition pass_f32_fma :: "Context \<Rightarrow> Context" where
  "pass_f32_fma c = fst (fold (fuse_step is_f32 is_f32) [0..<num_nodes c] (c, count_uses c))"

section \<open>Fusing a compare with the status store that reads it\<close>

definition set_fused :: "Node \<Rightarrow> Node" where
  "set_fused n = n\<lparr>nflags := nflags n OR kFcomFused\<rparr>"

definition sets_cc :: "Op \<Rightarrow> bool" where
  "sets_cc k \<longleftrightarrow> k = FCmp \<or> k = FTst"

definition fusion_step :: "nat \<Rightarrow> Context \<Rightarrow> Context" where
  "fusion_step i c =
     (let n = node c (int i); f = in0 n in
      if is_dead n \<or> nop n \<noteq> FStsw \<or> \<not> in_table c f \<or> \<not> sets_cc (nop (node c f)) then c
      else if list_all (\<lambda>j. is_dead (nodes c ! j) \<or> \<not> sets_cc (nop (nodes c ! j))) [nat f + 1..<i]
      then update_node (int i) set_fused (update_node f set_fused c)
      else c)"

definition pass_fcom_fstsw_fusion :: "Context \<Rightarrow> Context" where
  "pass_fcom_fstsw_fusion c = fold fusion_step [0..<num_nodes c] c"

section \<open>All passes\<close>

definition optimize :: "RosettaConfig option \<Rightarrow> Context \<Rightarrow> Context" where
  "optimize cfg c =
     (let c1 = pass_fneg_fold (pass_dse (pass_const_arith cfg (pass_dead_compares c)));
          f32_narrow_on = (case cfg of Some g \<Rightarrow> f32_narrow g | None \<Rightarrow> False);
          f32_chain_on = (f32_narrow_on \<and> (case cfg of Some g \<Rightarrow> f32_arith g | None \<Rightarrow> False));
          c2 = (if f32_chain_on then pass_dse (pass_fma (pass_f32_fma (pass_f32_chain (pass_f32_narrow c1))))
                else if f32_narrow_on then pass_dse (pass_f32_narrow (pass_fma c1))
                else pass_fma c1)
      in pass_fcom_fstsw_fusion c2)"

section \<open>What the chain fixpoint returns\<close>

lemma retract_input_changes:
  "retract_input c v s = s \<or> snd (retract_input c v s)" "snd s \<Longrightarrow> snd (retract_input c v s)"
  by (simp_all add: retract_input_def retract_def)

lemma retract_inputs_change:
  "retract_input c z (retract_input c y (retract_input c x s)) = s \<or>
   snd (retract_input c z (retract_input c y (retract_input c x s)))"
  using retract_input_changes by metis

lemma chain_step_changes: "chain_step c i s = s \<or> snd (chain_step c i s)"
  unfolding chain_step_def Let_def using retract_inputs_change by (simp add: retract_def retract_input_changes(2))

lemma chain_step_keeps_change: "snd st1 \<Longrightarrow> snd (chain_step c i st1)"
  using chain_step_changes [of c i st1] by auto

lemma chain_fold_unchanged:
  assumes "\<not> snd (fold (chain_step c) is st1)"
  shows "fold (chain_step c) is st1 = st1 \<and> (\<forall>i \<in> set is. chain_step c i st1 = st1)"
  using assms
proof (induction "is" arbitrary: st1)
  case (Cons i "is")
  have k: "snd st2 \<Longrightarrow> snd (fold (chain_step c) is st2)" for st2
    by (induction "is" arbitrary: st2) (simp_all add: chain_step_keeps_change)
  have "chain_step c i st1 = st1" using chain_step_changes [of c i st1] k [of "chain_step c i st1"] Cons.prems by auto
  then show ?case using Cons by simp
qed simp

lemma chain_fix_stable: "chain_sweep c (chain_fix c elig) = (chain_fix c elig, False)"
proof (induction c elig rule: chain_fix.induct)
  case (1 c elig)
  show ?case
  proof (cases "snd (chain_sweep c elig)")
    case True
    then show ?thesis using 1 [OF refl] by (subst (1 2) chain_fix.simps) (simp add: Let_def)
  next
    case False
    then have "chain_sweep c elig = (elig, False)" using chain_fold_unchanged [of c _ "(elig, False)"] by (simp add: chain_sweep_def)
    then show ?thesis by (simp add: chain_fix.simps [of c elig])
  qed
qed

lemma retract_input_id: "retract_input c v (e, False) = (e, False) \<Longrightarrow> in_table c v \<Longrightarrow> nat v \<notin> set e"
  by (auto simp: retract_input_def retract_def split: if_splits)

text \<open>
  A set of nodes can be computed in single precision when every input of a member is a widening, a
  single-precision value, zero or a member, and every live reader of a member that is not a member
  itself is a narrowing.
\<close>

definition chain_legal_at :: "Context \<Rightarrow> nat list \<Rightarrow> nat \<Rightarrow> bool" where
  "chain_legal_at c e i \<longleftrightarrow> (let n = nodes c ! i in is_dead n \<or>
     (if i \<in> set e then list_all (chain_input_ok c e) (chain_inputs n)
      else nop n = CvtF64ToF32 \<or> list_all (\<lambda>v. \<not> (in_table c v \<and> nat v \<in> set e)) [in0 n, in1 n, in2 n]))"

definition chain_legal :: "Context \<Rightarrow> nat list \<Rightarrow> bool" where
  "chain_legal c e \<longleftrightarrow> list_all (chain_legal_at c e) [0..<num_nodes c]"

lemma chain_fix_legal_at:
  assumes "i < num_nodes c"
  shows "chain_legal_at c (chain_fix c elig) i"
proof -
  let ?e = "chain_fix c elig" and ?n = "nodes c ! i"
  have "\<not> snd (fold (chain_step c) [0..<num_nodes c] (?e, False))" using chain_fix_stable [of c elig] by (simp add: chain_sweep_def)
  from chain_fold_unchanged [OF this] have s: "chain_step c i (?e, False) = (?e, False)" using assms(1) by simp
  have n: "node c (int i) = ?n" by (simp add: node_def)
  have ok: "\<not> is_dead ?n \<Longrightarrow> i \<in> set ?e \<Longrightarrow> list_all (chain_input_ok c ?e) (chain_inputs ?n)"
  proof (rule ccontr)
    assume d: "\<not> is_dead ?n" and i: "i \<in> set ?e" and "\<not> list_all (chain_input_ok c ?e) (chain_inputs ?n)"
    then have "snd (chain_step c i (?e, False))"
      unfolding chain_step_def Let_def n by (simp add: retract_def retract_input_changes(2))
    then show False using s by simp
  qed
  have "in_table c v \<Longrightarrow> nat v \<notin> set ?e"
    if q: "\<not> is_dead ?n" "nop ?n \<noteq> CvtF64ToF32" "i \<notin> set ?e" "v \<in> {in0 ?n, in1 ?n, in2 ?n}" for v
  proof -
    have r: "retract_input c (in2 ?n) (retract_input c (in1 ?n) (retract_input c (in0 ?n) (?e, False))) = (?e, False)"
      using s q unfolding chain_step_def Let_def n by simp
    note m = retract_input_changes
    have r0: "retract_input c (in0 ?n) (?e, False) = (?e, False)" using m r by (metis snd_conv)
    moreover have r1: "retract_input c (in1 ?n) (?e, False) = (?e, False)" using m r r0 by (metis snd_conv)
    moreover have "retract_input c (in2 ?n) (?e, False) = (?e, False)" using r r0 r1 by simp
    ultimately show "in_table c v \<Longrightarrow> nat v \<notin> set ?e" using q(4) retract_input_id by blast
  qed
  then show ?thesis using ok by (auto simp: chain_legal_at_def Let_def)
qed

lemma chain_input_ok_mono: "set d \<subseteq> set e \<Longrightarrow> chain_input_ok c d v \<Longrightarrow> chain_input_ok c e v"
  by (auto simp: chain_input_ok_def)

lemma chain_step_keeps_legal:
  assumes "chain_legal_at c d i" "set d \<subseteq> set (fst s)"
  shows "set d \<subseteq> set (fst (chain_step c i s))"
proof -
  let ?n = "nodes c ! i"
  have r: "set d \<subseteq> set (fst (retract_input c v s'))" if "\<not> (in_table c v \<and> nat v \<in> set d)" "set d \<subseteq> set (fst s')" for v s'
    using that by (auto simp: retract_input_def retract_def)
  have n: "node c (int i) = ?n" by (simp add: node_def)
  show ?thesis
  proof (cases "is_dead ?n \<or> i \<in> set d")
    case True
    moreover have "list_all (chain_input_ok c (fst s)) (chain_inputs ?n)" if "\<not> is_dead ?n" "i \<in> set d"
      using that assms chain_input_ok_mono [OF assms(2)] by (auto simp: chain_legal_at_def list_all_iff Let_def)
    ultimately show ?thesis using assms(2) unfolding chain_step_def Let_def n by (cases "is_dead ?n") auto
  next
    case False
    define t where "t = (if i \<in> set (fst s) \<and> \<not> list_all (chain_input_ok c (fst s)) (chain_inputs ?n) then retract i s else s)"
    have "set d \<subseteq> set (fst t)" using False assms(2) by (auto simp: t_def retract_def)
    moreover have "chain_step c i s = (if nop ?n = CvtF64ToF32 \<or> i \<in> set (fst t) then t
      else retract_input c (in2 ?n) (retract_input c (in1 ?n) (retract_input c (in0 ?n) t)))"
      using False unfolding chain_step_def Let_def n t_def by simp
    ultimately show ?thesis using False assms(1) by (cases "nop ?n = CvtF64ToF32") (simp_all add: chain_legal_at_def Let_def r)
  qed
qed

lemma chain_sweep_keeps_legal:
  assumes "chain_legal c d" "set d \<subseteq> set e"
  shows "set d \<subseteq> set (fst (chain_sweep c e))"
proof -
  have "set d \<subseteq> set (fst s) \<Longrightarrow> (\<forall>i \<in> set is. chain_legal_at c d i) \<Longrightarrow> set d \<subseteq> set (fst (fold (chain_step c) is s))" for "is" s
    by (induction "is" arbitrary: s) (simp_all add: chain_step_keeps_legal)
  from this [of "(e, False)" "[0..<num_nodes c]"] show ?thesis
    using assms by (simp add: chain_sweep_def chain_legal_def list_all_iff)
qed

lemma chain_fix_bounds:
  "set (chain_fix c e) \<subseteq> set e" "chain_legal c d \<Longrightarrow> set d \<subseteq> set e \<Longrightarrow> set d \<subseteq> set (chain_fix c e)"
proof (induction c e rule: chain_fix.induct)
  case (1 c e)
  { case 1
    then show ?case using "1.IH"(1) [OF refl] shrunk_sweep [of e c]
      by (subst chain_fix.simps) (auto simp: Let_def shrunk_def) }
  { case 2
    then show ?case using "1.IH"(2) [OF refl] chain_sweep_keeps_legal [of c d e]
      by (subst chain_fix.simps) (auto simp: Let_def) }
qed

text \<open>
  (C7) The fixpoint loop of the single-precision chains ends, with the greatest set of nodes that can
  be computed in single precision: it is legal, it is contained in the candidates, and every legal set
  of candidates is contained in it.
\<close>

theorem chain_fix_greatest:
  "chain_legal c (chain_fix c elig) \<and> set (chain_fix c elig) \<subseteq> set elig \<and>
   (\<forall>d. chain_legal c d \<longrightarrow> set d \<subseteq> set elig \<longrightarrow> set d \<subseteq> set (chain_fix c elig))"
  using chain_fix_legal_at chain_fix_bounds by (simp add: chain_legal_def list_all_iff)

text \<open>
  A sample: a sum and a difference of one product, the sum narrowed and the difference stored in
  double precision, so that only the square root can be computed in single precision.
\<close>

definition chain_sample :: Context where
  "chain_sample =
     (let mk = (\<lambda>k x y. \<lparr>nop = k, nflags = 0, in0 = x, in1 = y, in2 = -1, npayload = PImm 0, naux = 0\<rparr>) in
      Context_init\<lparr>nodes := [mk LoadF32Raw (-1) (-1), mk CvtF32ToF64 0 (-1), mk FMul 1 1, mk FAdd 2 1,
        mk CvtF64ToF32 3 (-1), mk FSub 2 1, mk FSqrt 1 (-1), mk CvtF64ToF32 6 (-1), mk StoreF64 5 (-1)]\<rparr>)"

theorem chain_fix_greatest_witness:
  "chain_legal chain_sample [6] \<and> 6 \<in> set (chain_fix chain_sample [2, 3, 5, 6])"
proof -
  have "chain_legal chain_sample [6]" by code_simp
  then show ?thesis using chain_fix_greatest [of chain_sample "[2, 3, 5, 6]"] by auto
qed

end
