(* ===== verification/X87Compare.thy ===== *)
theory X87Compare
  imports X87RuntimeFacts Fp64Exact
begin

text \<open>
  What the comparing and examining instructions report: the condition codes C3, C2, C0 of the
  status word after FCOM, FUCOM, FICOM and their popping forms, the host flags FCOMI and FUCOMI
  return, and the class code of FXAM.
\<close>

section \<open>Condition codes\<close>

text \<open>The four outcomes of comparing ST(0) = \<open>x\<close> with \<open>y\<close>, by the values, in C3, C2, C0.\<close>

definition cc_of :: "fp64 \<Rightarrow> fp64 \<Rightarrow> u16" where
  "cc_of x y = (if fp_isnan x \<or> fp_isnan y then cc_bits
                else if fp_val y < fp_val x then 0
                else if fp_val x < fp_val y then kConditionCode0 else kConditionCode3)"

lemma cc_of_lt:
  "cc_of x y = (if fp_isnan x \<or> fp_isnan y then cc_bits
                else if fp_lt y x then 0 else if fp_lt x y then kConditionCode0 else kConditionCode3)"
  by (simp add: cc_of_def fp_lt_val)

lemma and_or_mask: "m AND c = m \<Longrightarrow> (w AND NOT c OR m) AND c = (m :: u16)"
  by (metis (no_types, lifting) bit.conj_cancel_right bit.conj_disj_distrib2 and.assoc and.commute or.left_neutral and_zero_eq)

lemma cc_closed [simp]:
  "kConditionCode0 AND cc_bits = kConditionCode0" "kConditionCode3 AND cc_bits = kConditionCode3"
  "cc_bits AND cc_bits = cc_bits"
  by (simp_all add: cc_bits_def sw_consts)

lemma cc_of_closed: "cc_of x y AND cc_bits = cc_of x y"
  by (simp add: cc_of_def)

lemma pop_cc: "statusWord (pop s) AND cc_bits = statusWord s AND cc_bits"
proof -
  have "statusWord (pop s) AND cc_bits =
      (statusWord s AND (NOT kTopOfStack AND cc_bits)) OR (push_bit 11 (ucast ((topIndex s + 1) AND 7)) AND cc_bits)"
    by (simp add: pop_def Let_def bit.conj_disj_distrib2 and.assoc)
  also have "NOT kTopOfStack AND cc_bits = cc_bits" by (simp add: cc_bits_def sw_consts)
  also have "push_bit 11 (ucast ((topIndex s + 1) AND 7)) AND cc_bits = (0 :: u16)"
  proof -
    have "(ucast ((topIndex s + 1) AND 7) :: u16) = ucast (topIndex s + 1) AND 7"
      by (rule bit_word_eqI) (auto simp: bit_simps mask_bits)
    then show ?thesis by (simp add: cc_bits_def sw_consts and.assoc)
  qed
  finally show ?thesis by simp
qed

lemma pops_cc: "statusWord (pops n s) AND cc_bits = statusWord s AND cc_bits"
  by (induction n arbitrary: s) (simp_all add: pop_cc)

lemma pop_if_cc: "statusWord (pop_if b s) AND cc_bits = statusWord s AND cc_bits"
  by (simp add: pop_if_def pop_cc)

lemma or_cc_absorb: "(w AND NOT cc_bits OR kConditionCode3) OR cc_bits = w AND NOT cc_bits OR cc_bits"
  by (simp add: or.assoc cc_bits_def sw_consts)

lemma fcom_flags_cc:
  assumes "controlWord s AND kInvalidOpMask = kInvalidOpMask" "statusWord s = w AND NOT cc_bits"
  shows "statusWord (fcom_flags x y s) = w AND NOT cc_bits OR cc_of x y"
  using assms
  by (auto simp: fcom_flags_def Let_def cc_of_lt x87_class or_cc_absorb fp_lt_def)

lemma fucom_flags_cc:
  assumes "statusWord s = w AND NOT cc_bits"
  shows "statusWord (fucom_flags x y s) = w AND NOT cc_bits OR cc_of x y"
  using assms by (auto simp: fucom_flags_def cc_of_lt x87_class)

lemma fp_isnan_of_int [simp]: "\<not> fp_isnan (fp_of_int n)"
proof -
  have "0 \<le> round_bits 52 (- 1074) (of_int \<bar>n\<bar>)"
    by (simp add: round_bits_def Let_def rne_def max_def) 
  then show ?thesis by (simp add: fp_of_int_def fp_round_def fp_isnan_def min_def)
qed


lemma cc_mask_of: "(w AND NOT cc_bits OR cc_of x y) AND cc_bits = cc_of x y"
  by (rule and_or_mask) (rule cc_of_closed)

lemma clear_cc4: "w AND NOT cc_all = (w AND NOT kConditionCode1) AND NOT cc_bits"
  by (rule bit_word_eqI) (auto simp: cc_bits_def bit_simps)

text \<open>
  (C8) When invalid-operation exceptions are masked, as they are in every reachable state, the
  condition codes C3, C2, C0 after FCOM, FUCOM, FICOM and their popping forms encode exactly the
  order of the two values: ST(0) greater, less, equal, or unordered when either is a NaN (an empty
  register reads as one).
\<close>

theorem compares_set_condition_codes:
  assumes "controlWord s AND kInvalidOpMask = kInvalidOpMask"
  shows "let x = stk_get (stack_of s) 0; y = stk_get (stack_of s) (xi i) in
         statusWord (x87_fcom_ST s i n) AND cc_bits = cc_of x y \<and>
         statusWord (x87_fucom s i n) AND cc_bits = cc_of x y \<and>
         statusWord (x87_fcom_f32 s f p) AND cc_bits = cc_of x (fp_widen f) \<and>
         statusWord (x87_fcom_f64 s d p) AND cc_bits = cc_of x d \<and>
         statusWord (x87_ficom s m p) AND cc_bits = cc_of x (fp_of_int (sint m))"
proof -
  define x where "x = stk_get (stack_of s) 0"
  have "statusWord (x87_fcom_ST s i n) AND cc_bits = cc_of x (stk_get (stack_of s) (xi i))"
    using assms by (simp add: x87_fcom_ST_def Let_def split_beta pops_cc fcom_flags_cc cc_mask_of x_def)
  moreover have "statusWord (x87_fucom s i n) AND cc_bits = cc_of x (stk_get (stack_of s) (xi i))"
    by (simp add: x87_fucom_def Let_def split_beta pops_cc fucom_flags_cc cc_mask_of x_def)
  moreover have "statusWord (x87_fcom_f32 s f p) AND cc_bits = cc_of x (fp_widen f)"
    using assms fcom_flags_cc [of "sw_clear cc_all (snd (getSt s 0))"
        "statusWord (snd (getSt s 0)) AND NOT kConditionCode1" x "fp_widen f"]
    by (simp only: x87_fcom_f32_def Let_def split_beta pop_if_cc sw_frame getSt_frame clear_cc4 cc_mask_of x_def
        stk_ops xi_simps)
  moreover have "statusWord (x87_fcom_f64 s d p) AND cc_bits = cc_of x d"
    using assms by (simp add: x87_fcom_f64_def Let_def split_beta pop_if_cc fcom_flags_cc cc_mask_of x_def)
  moreover have "x87_ficom s m p = pop_if p (fucom_flags x (fp_of_int (sint m)) (sw_clear cc_bits (snd (getSt s 0))))"
    by (simp add: x87_ficom_def fucom_flags_def Let_def split_beta x87_class x_def)
  ultimately show ?thesis by (simp add: Let_def pop_if_cc fucom_flags_cc cc_mask_of flip: x_def)
qed

theorem compares_set_condition_codes_witness:
  "statusWord (x87_fcom_f64 (x87_fld_fp64 X87State_new fp_one) fp_qnan True) AND cc_bits = cc_bits \<and>
   statusWord (x87_ficom (x87_fld_fp64 X87State_new fp_one) 7 False) AND cc_bits = kConditionCode0"
proof -
  let ?s = "x87_fld_fp64 X87State_new fp_one"
  have m: "controlWord ?s AND kInvalidOpMask = kInvalidOpMask" by code_simp
  have v: "cc_of (stk_get (stack_of ?s) 0) fp_qnan = cc_bits"
    "cc_of (stk_get (stack_of ?s) 0) (fp_of_int (sint (7 :: u32))) = kConditionCode0" by code_simp+
  show ?thesis using compares_set_condition_codes [OF m, of 0 0 0 True fp_qnan 0]
    compares_set_condition_codes [OF m, of 0 0 0 False 0 7] v unfolding Let_def by simp
qed

text \<open>FCOMI and FUCOMI report the same outcome in host flags.\<close>

definition nzcv_of :: "fp64 \<Rightarrow> fp64 \<Rightarrow> u32" where
  "nzcv_of x y = (if fp_isnan x \<or> fp_isnan y then 0x54000000
     else if fp_val x < fp_val y then 0 else if fp_val y < fp_val x then 0x20000000 else 0x60000000)"

lemma comi_flags:
  "fst (x87_fcomi s i p) = nzcv_of (stk_get (stack_of s) 0) (stk_get (stack_of s) (xi i))"
  "fst (x87_fucomi s i p) = nzcv_of (stk_get (stack_of s) 0) (stk_get (stack_of s) (xi i))"
  by (simp_all add: x87_fcomi_def x87_fucomi_def Let_def split_beta fcomi_flags_def nzcv_of_def x87_class fp_lt_val)

text \<open>
  (C9) FCOMI and FUCOMI return the host flag word of the order of ST(0) and ST(i) by value (0x54...
  when unordered), pop exactly when asked, and leave every register below the popped one alone.
\<close>

theorem comi_flags_and_stack:
  assumes "wf_x87 s"
  shows "fst (x87_fcomi s i p) = nzcv_of (stk_get (stack_of s) 0) (stk_get (stack_of s) (xi i)) \<and>
         fst (x87_fucomi s i p) = nzcv_of (stk_get (stack_of s) 0) (stk_get (stack_of s) (xi i)) \<and>
         stack_of (snd (x87_fcomi s i p)) = stk_pop_if p (stack_of s) \<and>
         stack_of (snd (x87_fucomi s i p)) = stk_pop_if p (stack_of s)"
  using assms
  by (simp add: comi_flags) (simp add: x87_fcomi_def x87_fucomi_def Let_def split_beta)

theorem comi_flags_and_stack_witness:
  "fst (x87_fcomi X87State_new 1 True) = 0x54000000 \<and>
   stack_of (snd (x87_fucomi X87State_new 1 True)) = stk_pop (stack_of X87State_new)"
proof -
  have "nzcv_of (stk_get (stack_of X87State_new) 0) (stk_get (stack_of X87State_new) (xi 1)) = 0x54000000"
    by code_simp
  then show ?thesis using comi_flags_and_stack [OF tags_ok_new(2), of 1 True] by simp
qed

text \<open>Class code of FXAM in C3, C2, C1, C0.\<close>

definition fxam_code :: "fp64 \<times> X87TagState \<Rightarrow> u16" where
  "fxam_code r = (if snd r = kEmpty then kConditionCode3 OR kConditionCode0 else
     (if fp_iszero (fst r) then kConditionCode3
      else if fp_isnan (fst r) then kConditionCode0
      else if fp_isinf (fst r) then kConditionCode2 OR kConditionCode0
      else if x87_is_subnormal (fst r) then kConditionCode3 OR kConditionCode2
      else kConditionCode2) OR (if fp_sign (fst r) then kConditionCode1 else 0))"

lemma fxam_closed: "fxam_code r AND cc_all = fxam_code r"
  by (simp add: fxam_code_def sw_consts)

text \<open>
  (C10) FXAM reports the class of ST(0) (empty, zero, NaN, infinity, denormal, normal) in C3, C2, C0
  and its sign in C1, and changes no other bit of the status word, in every state whose tags
  describe their registers.
\<close>

theorem fxam_classifies_top:
  assumes "tags_ok s"
  shows "statusWord (x87_fxam s) AND cc_all = fxam_code (stack_of s ! 0) \<and>
         statusWord (x87_fxam s) AND NOT cc_all = statusWord s AND NOT cc_all"
proof -
  define r where "r = stack_of s ! 0"
  have "r \<in> set (stack_of s)" unfolding r_def by (rule nth_mem) simp
  then have ok: "tag_ok r" using assms by (simp add: tags_ok_def)
  have eq: "statusWord (x87_fxam s) = statusWord s AND NOT cc_all OR fxam_code r"
    using ok
    by (auto simp: x87_fxam_def Let_def split_beta fxam_code_def x87_class fp_eq_0 getSt_stack stk_get_def
        stk_fault_def tag_ok_def or.assoc ac_simps simp del: nth_stack_of simp flip: r_def)
  have "(statusWord s AND NOT cc_all OR fxam_code r) AND NOT cc_all = statusWord s AND NOT cc_all"
    using fxam_closed [of r] by (metis (no_types, lifting) and.assoc and.commute and.right_idem bit.conj_cancel_left bit.conj_disj_distrib2 bit.disj_zero_right and_zero_eq)
  then show ?thesis using eq and_or_mask [OF fxam_closed] by (simp add: r_def)
qed

theorem fxam_classifies_top_witness:
  "statusWord (x87_fxam X87State_new) AND cc_all = kConditionCode3 OR kConditionCode0 \<and>
   statusWord (x87_fxam X87State_new) AND NOT cc_all = statusWord X87State_new AND NOT cc_all"
proof -
  have "fxam_code (stack_of X87State_new ! 0) = kConditionCode3 OR kConditionCode0" by code_simp
  then show ?thesis using fxam_classifies_top [OF tags_ok_new(1)] by simp
qed

end
