(* ===== verification/IRSem.thy ===== *)
theory IRSem
  imports IRBuild X87Compare
begin

text \<open>
  The meaning of the IR: guest memory and registers, the value of a node (\<open>node_value\<close>, with the
  host's floating-point instructions as the operations of \<open>Fp64\<close>), the evaluation of a node list
  in order, and the well-formedness of a context (\<open>wf_ctx\<close>).
\<close>

section \<open>Guest memory and the value of a node\<close>

record GuestEnv =
  e_init :: "(fp64 \<times> X87TagState) list"
  e_cw :: u16
  e_regs :: "nat \<Rightarrow> u64"
  e_seg :: "u8 \<Rightarrow> u64"
  e_mem :: "u64 \<Rightarrow> u8"

definition eff_addr :: "GuestEnv \<Rightarrow> IROperand \<Rightarrow> u64" where
  "eff_addr env op1 =
     (let a = (if kind op1 = KAbsMem then payload op1
               else (if mem_flags op1 AND 1 \<noteq> 0 then e_regs env (unat (base_reg op1 AND 0xF)) else 0) +
                    (if mem_flags op1 AND 2 \<noteq> 0
                     then push_bit (unat (shift_amount op1)) (e_regs env (unat (index_reg op1 AND 0xF))) else 0) +
                    payload op1)
      in (if addr_size op1 = S32 then a AND 0xFFFFFFFF else a) +
         (if kind op1 = KMemRef \<and> seg_override op1 \<noteq> 0 then e_seg env (seg_override op1) else 0))"

definition mem_bytes :: "GuestEnv \<Rightarrow> nat \<Rightarrow> u64 \<Rightarrow> u64" where
  "mem_bytes env n a = word_le (map (\<lambda>k. e_mem env (a + of_nat k)) [0..<n])"

definition ld_f32 :: "GuestEnv \<Rightarrow> IROperand \<Rightarrow> u32" where
  "ld_f32 env op1 = ucast (mem_bytes env 4 (eff_addr env op1))"

definition ld_f64 :: "GuestEnv \<Rightarrow> IROperand \<Rightarrow> u64" where
  "ld_f64 env op1 = mem_bytes env 8 (eff_addr env op1)"

definition ld_int :: "GuestEnv \<Rightarrow> Op \<Rightarrow> IROperand \<Rightarrow> int" where
  "ld_int env k op1 =
     (if k = LoadI16 then sint (ucast (mem_bytes env 2 (eff_addr env op1)) :: 16 word)
      else if k = LoadI32 then sint (ucast (mem_bytes env 4 (eff_addr env op1)) :: 32 word)
      else sint (mem_bytes env 8 (eff_addr env op1)))"

definition a64_cond :: "u64 \<Rightarrow> u32 \<Rightarrow> bool" where
  "a64_cond cc nz =
     (let z = bit nz 30; cf = bit nz 29; v = bit nz 28 in
      if cc = 0 then z else if cc = 1 then \<not> z else if cc = 2 then cf else if cc = 3 then \<not> cf
      else if cc = 6 then v else if cc = 7 then \<not> v else if cc = 8 then cf \<and> \<not> z else \<not> (cf \<and> \<not> z))"

definition node_value :: "GuestEnv \<Rightarrow> Node \<Rightarrow> fp64 list \<Rightarrow> u32 \<Rightarrow> fp64" where
  "node_value env n vs nz =
     (let a = vs ! nat (in0 n); b = vs ! nat (in1 n); c = vs ! nat (in2 n) in
      case nop n of
        ReadSt \<Rightarrow> (case npayload n of PDepth d \<Rightarrow> fst (e_init env ! nat d) | _ \<Rightarrow> 0)
      | LoadF64 \<Rightarrow> (case npayload n of PMem m \<Rightarrow> ld_f64 env m | _ \<Rightarrow> 0)
      | LoadF32Raw \<Rightarrow> (case npayload n of PMem m \<Rightarrow> ucast (ld_f32 env m) | _ \<Rightarrow> 0)
      | LoadI16 \<Rightarrow> (case npayload n of PMem m \<Rightarrow> fp_of_int (ld_int env LoadI16 m) | _ \<Rightarrow> 0)
      | LoadI32 \<Rightarrow> (case npayload n of PMem m \<Rightarrow> fp_of_int (ld_int env LoadI32 m) | _ \<Rightarrow> 0)
      | LoadI64 \<Rightarrow> (case npayload n of PMem m \<Rightarrow> fp_of_int (ld_int env LoadI64 m) | _ \<Rightarrow> 0)
      | ConstZero \<Rightarrow> 0
      | ConstOne \<Rightarrow> fp_one
      | ConstF64 \<Rightarrow> (case npayload n of PImm b \<Rightarrow> b | _ \<Rightarrow> 0)
      | CvtF32ToF64 \<Rightarrow> fp_widen (ucast a)
      | CvtF64ToF32 \<Rightarrow> ucast (fp_narrow a)
      | FAdd \<Rightarrow> fp_add a b | FSub \<Rightarrow> fp_sub a b | FMul \<Rightarrow> fp_mul a b | FDiv \<Rightarrow> fp_div a b
      | FNMul \<Rightarrow> fp_neg (fp_mul a b)
      | FMAdd \<Rightarrow> fp_fma c a b | FMSub \<Rightarrow> fp_fma c (fp_neg a) b | FNMSub \<Rightarrow> fp_fma (fp_neg c) a b
      | FNeg \<Rightarrow> fp_neg a | FAbs \<Rightarrow> fp_abs a | FSqrt \<Rightarrow> fp_sqrt a | FRndInt \<Rightarrow> x87_round_by_rc a (e_cw env)
      | FCSel \<Rightarrow> (case npayload n of PImm cc \<Rightarrow> if a64_cond cc nz then b else a | _ \<Rightarrow> 0)
      | _ \<Rightarrow> 0)"

definition eval_node :: "GuestEnv \<Rightarrow> Node \<Rightarrow> fp64 list \<times> u32 \<Rightarrow> fp64 list \<times> u32" where
  "eval_node env n acc =
     (fst acc @ [node_value env n (fst acc) (snd acc)],
      if nop n = FComI then nzcv_of (fst acc ! nat (in0 n)) (fst acc ! nat (in1 n)) else snd acc)"

definition eval_nodes :: "GuestEnv \<Rightarrow> Node list \<Rightarrow> fp64 list \<times> u32" where
  "eval_nodes env ns = fold (eval_node env) ns ([], 0)"

abbreviation vals :: "GuestEnv \<Rightarrow> Context \<Rightarrow> fp64 list" where
  "vals env c \<equiv> fst (eval_nodes env (nodes c))"

abbreviation nzcv :: "GuestEnv \<Rightarrow> Context \<Rightarrow> u32" where
  "nzcv env c \<equiv> snd (eval_nodes env (nodes c))"

lemma eval_snoc:
  "eval_nodes env (ns @ [n]) = eval_node env n (eval_nodes env ns)"
  by (simp add: eval_nodes_def)

lemma eval_Nil [simp]: "eval_nodes env [] = ([], 0)"
  by (simp add: eval_nodes_def)

lemma length_vals [simp]: "length (fst (eval_nodes env ns)) = length ns"
  by (induction ns rule: rev_induct) (simp_all add: eval_snoc eval_node_def)

lemma vals_append: "\<exists>ws. fst (eval_nodes env (ns @ ms)) = fst (eval_nodes env ns) @ ws"
proof (induction ms rule: rev_induct)
  case (snoc m ms)
  then show ?case using eval_snoc [of env "ns @ ms" m] by (auto simp: eval_node_def)
qed simp

lemma vals_nth_append: "i < length ns \<Longrightarrow> fst (eval_nodes env (ns @ ms)) ! i = fst (eval_nodes env ns) ! i"
  using vals_append [of env ns ms] by (auto simp: nth_append)

lemma vals_snoc [simp]:
  "fst (eval_nodes env (ns @ [n])) = fst (eval_nodes env ns) @ [node_value env n (fst (eval_nodes env ns)) (snd (eval_nodes env ns))]"
  "snd (eval_nodes env (ns @ [n])) = (if nop n = FComI then nzcv_of (fst (eval_nodes env ns) ! nat (in0 n))
     (fst (eval_nodes env ns) ! nat (in1 n)) else snd (eval_nodes env ns))"
  by (simp_all add: eval_snoc eval_node_def)

section \<open>Well-formed contexts\<close>

text \<open>How many of the inputs of a node are references; the others are -1.\<close>

definition arity :: "Op \<Rightarrow> nat" where
  "arity op1 = (case op1 of
       CvtF32ToF64 \<Rightarrow> 1 | CvtF64ToF32 \<Rightarrow> 1 | FAdd \<Rightarrow> 2 | FSub \<Rightarrow> 2 | FMul \<Rightarrow> 2 | FDiv \<Rightarrow> 2 | FNMul \<Rightarrow> 2
     | FMAdd \<Rightarrow> 3 | FMSub \<Rightarrow> 3 | FNMSub \<Rightarrow> 3 | FNeg \<Rightarrow> 1 | FAbs \<Rightarrow> 1 | FSqrt \<Rightarrow> 1 | FRndInt \<Rightarrow> 1 | FCSel \<Rightarrow> 2
     | StoreF64 \<Rightarrow> 1 | StoreF32Raw \<Rightarrow> 1 | StoreI16 \<Rightarrow> 1 | StoreI32 \<Rightarrow> 1 | StoreI64 \<Rightarrow> 1
     | FCmp \<Rightarrow> 2 | FTst \<Rightarrow> 1 | FComI \<Rightarrow> 2 | _ \<Rightarrow> 0)"

text \<open>The flags only the optimizer sets.\<close>

definition flags_ok :: "u8 \<Rightarrow> bool" where
  "flags_ok f \<longleftrightarrow> f AND (kDead OR kFcomFused OR kF32) = 0"

lemma flags_ok_simps [simp]:
  "flags_ok 0" "flags_ok kTruncate" "flags_ok kFcomIPopping"
  "flags_ok (f OR kTruncate) = flags_ok f" "flags_ok (f OR kFcomIPopping) = flags_ok f"
proof -
  have "(f OR kTruncate) AND (kDead OR kFcomFused OR kF32) = f AND (kDead OR kFcomFused OR kF32)"
    "(f OR kFcomIPopping) AND (kDead OR kFcomFused OR kF32) = f AND (kDead OR kFcomFused OR kF32)"
    unfolding bit.conj_disj_distrib2 by (simp_all add: node_flags)
  then show "flags_ok (f OR kTruncate) = flags_ok f" "flags_ok (f OR kFcomIPopping) = flags_ok f"
    by (simp_all add: flags_ok_def)
qed (simp_all add: flags_ok_def node_flags)

definition node_ok :: "nat \<Rightarrow> Node \<Rightarrow> bool" where
  "node_ok i n \<longleftrightarrow> flags_ok (nflags n) \<and>
     (if nop n = FStsw then in0 n < int i
      else (if arity (nop n) > 0 then 0 \<le> in0 n \<and> in0 n < int i else in0 n = -1) \<and>
           (if arity (nop n) > 1 then 0 \<le> in1 n \<and> in1 n < int i else in1 n = -1) \<and>
           (if arity (nop n) > 2 then 0 \<le> in2 n \<and> in2 n < int i else in2 n = -1))"

definition slot_ok :: "nat \<Rightarrow> int \<Rightarrow> bool" where
  "slot_ok k v \<longleftrightarrow> v < int k \<and> (- 8 \<le> v \<or> v = - 100)"

text \<open>A reference kept in a table: none, or a node with the given contents.\<close>

definition ref_ok :: "Context \<Rightarrow> int \<Rightarrow> (Node \<Rightarrow> bool) \<Rightarrow> bool" where
  "ref_ok c v P \<longleftrightarrow> v < 0 \<or> v < int (num_nodes c) \<and> P (node c v)"

definition wf_ctx :: "Context \<Rightarrow> bool" where
  "wf_ctx c \<longleftrightarrow>
     num_nodes c \<le> kMaxNodes \<and> (\<forall>i < num_nodes c. node_ok i (nodes c ! i)) \<and>
     length (slot_val c) = 8 \<and> list_all (slot_ok (num_nodes c)) (slot_val c) \<and>
     length (initial_read c) = 8 \<and>
     (\<forall>d < 8. ref_ok c (initial_read c ! d) (\<lambda>n. nop n = ReadSt \<and> npayload n = PDepth (int d))) \<and>
     list_all (\<lambda>(op1, k, v). 0 \<le> v \<and> v < int (num_nodes c)) (mem_cse c) \<and>
     ref_ok c (last_narrow_input c) (\<lambda>n. 0 \<le> last_narrow_node c \<and> last_narrow_node c < int (num_nodes c)) \<and>
     ref_ok c (const_zero_node c) (\<lambda>n. nop n = ConstZero) \<and>
     ref_ok c (const_one_node c) (\<lambda>n. nop n = ConstOne) \<and>
     list_all (\<lambda>(v, b). 0 \<le> v \<and> ref_ok c v (\<lambda>n. nop n = ConstF64 \<and> npayload n = PImm b)) (const_f64 c) \<and>
     last_fcmp c < int (num_nodes c) \<and> last_fcomi c < int (num_nodes c)"


section \<open>Appending a node\<close>

definition emit :: "Node \<Rightarrow> Context \<Rightarrow> Context" where
  "emit n c = c\<lparr>nodes := nodes c @ [n]\<rparr>"

definition fresh :: "Op \<Rightarrow> int \<Rightarrow> int \<Rightarrow> int \<Rightarrow> Node" where
  "fresh op1 a b d = \<lparr>nop = op1, nflags = 0, in0 = a, in1 = b, in2 = d, npayload = PImm 0, naux = 0\<rparr>"

lemma fresh_sel [simp]:
  "nop (fresh op1 a b d) = op1" "in0 (fresh op1 a b d) = a" "in1 (fresh op1 a b d) = b" "in2 (fresh op1 a b d) = d"
  "nflags (fresh op1 a b d) = 0"
  by (simp_all add: fresh_def)

lemma add_node_emit:
  "add_node op1 a b d c = (if num_nodes c \<ge> kMaxNodes then (-1, c) else (int (num_nodes c), emit (fresh op1 a b d) c))"
  by (simp add: add_node_def emit_def fresh_def)

lemma update_emit [simp]: "update_node (int (num_nodes c)) f (emit n c) = emit (f n) c"
  by (simp add: update_node_def emit_def node_def)

lemma emit_sel [simp]:
  "nodes (emit n c) = nodes c @ [n]" "slot_val (emit n c) = slot_val c" "initial_read (emit n c) = initial_read c"
  "mem_cse (emit n c) = mem_cse c" "last_narrow_input (emit n c) = last_narrow_input c"
  "last_narrow_node (emit n c) = last_narrow_node c" "const_zero_node (emit n c) = const_zero_node c"
  "const_one_node (emit n c) = const_one_node c" "const_f64 (emit n c) = const_f64 c"
  "last_fcmp (emit n c) = last_fcmp c" "last_fcomi (emit n c) = last_fcomi c" "top_delta (emit n c) = top_delta c"
  "const_promote (emit n c) = const_promote c" "consumed (emit n c) = consumed c"
  by (simp_all add: emit_def)

lemma node_emit [simp]: "node (emit n c) (int (num_nodes c)) = n"
  by (simp add: node_def)

lemma node_emit_old: "v < int (num_nodes c) \<Longrightarrow> 0 \<le> v \<Longrightarrow> node (emit n c) v = node c v"
  by (simp add: node_def nth_append nat_less_iff)

lemma ref_ok_emit: "ref_ok c v P \<Longrightarrow> ref_ok (emit n c) v P"
  by (cases "v < 0") (auto simp: ref_ok_def node_emit_old)

lemma wf_emit:
  assumes "wf_ctx c" "num_nodes c < kMaxNodes" "node_ok (num_nodes c) n"
  shows "wf_ctx (emit n c)"
proof -
  have "list_all (slot_ok (num_nodes (emit n c))) (slot_val c)"
    using assms(1) by (auto simp: wf_ctx_def list_all_iff slot_ok_def)
  moreover have "list_all (\<lambda>(op1, k, v). 0 \<le> v \<and> v < int (num_nodes (emit n c))) (mem_cse c)"
    using assms(1) by (fastforce simp: wf_ctx_def list_all_iff)
  moreover have "list_all (\<lambda>(v, b). 0 \<le> v \<and> ref_ok (emit n c) v (\<lambda>n. nop n = ConstF64 \<and> npayload n = PImm b)) (const_f64 c)"
    using assms(1) by (auto simp: wf_ctx_def list_all_iff intro: ref_ok_emit)
  moreover have "ref_ok (emit n c) (last_narrow_input c)
      (\<lambda>m. 0 \<le> last_narrow_node c \<and> last_narrow_node c < int (num_nodes (emit n c)))"
    using assms(1) by (auto simp: wf_ctx_def ref_ok_def)
  ultimately show ?thesis using assms
    by (auto simp: wf_ctx_def nth_append less_Suc_eq intro: ref_ok_emit)
qed

end
