(* ===== verification/IROptSem.thy ===== *)
theory IROptSem
  imports IROptimize IRSem
begin

text \<open>
  What an IR program does when its nodes are executed in order, dead nodes skipped. The values and
  the outside world (guest memory, registers and flags) are parameters, collected in the record
  \<open>machine\<close>; condition codes are written by compares and read by status stores, a fused compare
  keeps its codes in a register that the fused status store consumes (\<open>X87IRLower.cpp\<close>).
  \<open>meaning\<close> is what remains visible after the run. The lemmas relate the execution of a program to
  that of a rewritten one, and count how often a node is read.
\<close>

section \<open>Execution\<close>

record ('v, 'e) machine =
  m_value :: "'e \<Rightarrow> Op \<Rightarrow> bool \<Rightarrow> NodePayload \<Rightarrow> 'v \<Rightarrow> 'v \<Rightarrow> 'v \<Rightarrow> 'v"
  m_order :: "'v \<Rightarrow> 'v \<Rightarrow> u16"
  m_test :: "'v \<Rightarrow> u16"
  m_effect :: "Op \<Rightarrow> u8 \<Rightarrow> NodePayload \<Rightarrow> u64 \<Rightarrow> 'v \<Rightarrow> 'v \<Rightarrow> 'e \<Rightarrow> 'e"
  m_stsw :: "int \<Rightarrow> int \<Rightarrow> u16 option \<Rightarrow> 'e \<Rightarrow> 'e"
  m_none :: 'v
  m_lost :: u16

record ('v, 'e) xstate =
  x_vals :: "'v list"
  x_ext :: 'e
  x_cc :: "u16 option"
  x_held :: "(nat \<times> u16) list"

definition inp :: "('v, 'e) machine \<Rightarrow> 'v list \<Rightarrow> int \<Rightarrow> 'v" where
  "inp M vs i = (if 0 \<le> i then vs ! nat i else m_none M)"

definition is_fused :: "Node \<Rightarrow> bool" where
  "is_fused n \<longleftrightarrow> nflags n AND kFcomFused \<noteq> 0"

definition val_of :: "('v, 'e) machine \<Rightarrow> 'e \<Rightarrow> Node \<Rightarrow> 'v list \<Rightarrow> 'v" where
  "val_of M e n vs =
     (if is_dead n \<or> side_effect (nop n) then m_none M
      else m_value M e (nop n) (is_f32 n) (npayload n) (inp M vs (in0 n)) (inp M vs (in1 n)) (inp M vs (in2 n)))"

definition cmp_of :: "('v, 'e) machine \<Rightarrow> Node \<Rightarrow> 'v list \<Rightarrow> u16" where
  "cmp_of M n vs = (if nop n = FCmp then m_order M (inp M vs (in0 n)) (inp M vs (in1 n)) else m_test M (inp M vs (in0 n)))"

definition effect :: "('v, 'e) machine \<Rightarrow> Node \<Rightarrow> ('v, 'e) xstate \<Rightarrow> ('v, 'e) xstate" where
  "effect M n s =
     (if is_dead n \<or> \<not> side_effect (nop n) then s
      else if sets_cc (nop n) then
        (if is_fused n then s\<lparr>x_held := (length (x_vals s), cmp_of M n (x_vals s)) # x_held s\<rparr>
         else s\<lparr>x_cc := Some (cmp_of M n (x_vals s))\<rparr>)
      else if nop n = FStsw then
        (if is_fused n then
           let w = (case map_of (x_held s) (nat (in0 n)) of Some w \<Rightarrow> w | None \<Rightarrow> m_lost M)
           in s\<lparr>x_cc := Some w, x_held := filter (\<lambda>h. fst h \<noteq> nat (in0 n)) (x_held s),
                x_ext := m_stsw M (in1 n) (in2 n) (Some w) (x_ext s)\<rparr>
         else s\<lparr>x_ext := m_stsw M (in1 n) (in2 n) (x_cc s) (x_ext s)\<rparr>)
      else s\<lparr>x_ext := m_effect M (nop n) (nflags n) (npayload n) (naux n) (inp M (x_vals s) (in0 n)) (inp M (x_vals s) (in1 n)) (x_ext s)\<rparr>)"

definition step :: "('v, 'e) machine \<Rightarrow> Node \<Rightarrow> ('v, 'e) xstate \<Rightarrow> ('v, 'e) xstate" where
  "step M n s = (effect M n s)\<lparr>x_vals := x_vals s @ [val_of M (x_ext s) n (x_vals s)]\<rparr>"

definition exec :: "('v, 'e) machine \<Rightarrow> 'e \<Rightarrow> Node list \<Rightarrow> ('v, 'e) xstate" where
  "exec M e ns = fold (step M) ns \<lparr>x_vals = [], x_ext = e, x_cc = None, x_held = []\<rparr>"

text \<open>
  What a run leaves: for each stack slot the value of its node or the untouched register it stands
  for, the outside world and the condition codes.
\<close>

definition slot_value :: "'v list \<Rightarrow> int \<Rightarrow> int + 'v" where
  "slot_value vs v = (if 0 \<le> v then Inr (vs ! nat v) else Inl v)"

definition meaning :: "('v, 'e) machine \<Rightarrow> 'e \<Rightarrow> Context \<Rightarrow> (int + 'v) list \<times> 'e \<times> u16 option \<times> int" where
  "meaning M e c = (let s = exec M e (nodes c) in (map (slot_value (x_vals s)) (slot_val c), x_ext s, x_cc s, top_delta c))"

lemma effect_vals [simp]: "x_vals (effect M n s) = x_vals s"
  by (simp add: effect_def Let_def)

lemma step_vals [simp]: "x_vals (step M n s) = x_vals s @ [val_of M (x_ext s) n (x_vals s)]"
  by (simp add: step_def)

lemma exec_snoc [simp]: "exec M e (ns @ [n]) = step M n (exec M e ns)"
  by (simp add: exec_def)

lemma exec_Nil [simp]: "exec M e [] = \<lparr>x_vals = [], x_ext = e, x_cc = None, x_held = []\<rparr>"
  by (simp add: exec_def)

lemma exec_take_Suc: "i < length ns \<Longrightarrow> exec M e (take (Suc i) ns) = step M (ns ! i) (exec M e (take i ns))"
  by (simp add: take_Suc_conv_app_nth)

lemma length_exec [simp]: "length (x_vals (exec M e ns)) = length ns"
  by (induction ns rule: rev_induct) simp_all

lemma exec_vals_append: "\<exists>ws. x_vals (exec M e (ns @ ms)) = x_vals (exec M e ns) @ ws"
proof (induction ms rule: rev_induct)
  case (snoc m ms)
  then show ?case using exec_snoc [of M e "ns @ ms" m] by auto
qed simp

lemma exec_vals_take:
  assumes "j < i" "i \<le> length ns"
  shows "x_vals (exec M e (take i ns)) ! j = x_vals (exec M e ns) ! j"
  using exec_vals_append [of M e "take i ns" "drop i ns"] assms by (auto simp: nth_append)

text \<open>A node's value is what its operation gives on the final values of its inputs, which come earlier.\<close>

lemma exec_val:
  assumes "j < length ns" "list_all (\<lambda>v. v < int j) [in0 (ns ! j), in1 (ns ! j), in2 (ns ! j)]"
  shows "x_vals (exec M e ns) ! j = val_of M (x_ext (exec M e (take j ns))) (ns ! j) (x_vals (exec M e ns))"
proof -
  let ?s = "exec M e (take j ns)"
  have i: "inp M (x_vals ?s) v = inp M (x_vals (exec M e ns)) v" if "v < int j" for v
    using that assms(1) exec_vals_take [of "nat v" j ns M e] by (simp add: inp_def nat_less_iff)
  have "x_vals (exec M e ns) ! j = x_vals (exec M e (take (Suc j) ns)) ! j"
    using assms(1) exec_vals_take [of j "Suc j" ns M e] by simp
  also have "\<dots> = val_of M (x_ext ?s) (ns ! j) (x_vals ?s)"
    using assms(1) by (simp add: exec_take_Suc nth_append)
  also have "\<dots> = val_of M (x_ext ?s) (ns ! j) (x_vals (exec M e ns))"
    using assms(2) by (simp add: val_of_def i)
  finally show ?thesis .
qed

section \<open>Executions that agree outside some nodes\<close>

definition agree :: "nat set \<Rightarrow> ('v, 'e) xstate \<Rightarrow> ('v, 'e) xstate \<Rightarrow> bool" where
  "agree D s t \<longleftrightarrow> x_ext s = x_ext t \<and> x_cc s = x_cc t \<and> x_held s = x_held t \<and>
     length (x_vals s) = length (x_vals t) \<and> (\<forall>j < length (x_vals s). j \<notin> D \<longrightarrow> x_vals s ! j = x_vals t ! j)"

lemma agreeI:
  "x_ext s = x_ext t \<Longrightarrow> x_cc s = x_cc t \<Longrightarrow> x_held s = x_held t \<Longrightarrow> length (x_vals s) = length (x_vals t) \<Longrightarrow>
   (\<And>j. j < length (x_vals s) \<Longrightarrow> j \<notin> D \<Longrightarrow> x_vals s ! j = x_vals t ! j) \<Longrightarrow> agree D s t"
  by (simp add: agree_def)

lemma exec_agree:
  assumes "length ns = length ms"
    and "\<And>i. i < length ns \<Longrightarrow> agree D (exec M e (take i ns)) (exec M e (take i ms)) \<Longrightarrow>
      agree D (step M (ns ! i) (exec M e (take i ns))) (step M (ms ! i) (exec M e (take i ms)))"
  shows "agree D (exec M e ns) (exec M e ms)"
proof -
  have "i \<le> length ns \<Longrightarrow> agree D (exec M e (take i ns)) (exec M e (take i ms))" for i
  proof (induction i)
    case 0
    then show ?case by (simp add: agree_def)
  next
    case (Suc i)
    then show ?case using assms by (simp add: exec_take_Suc)
  qed
  from this [of "length ns"] show ?thesis using assms(1) by simp
qed

definition off :: "nat set \<Rightarrow> nat \<Rightarrow> Node \<Rightarrow> bool" where
  "off D i n \<longleftrightarrow> is_dead n \<or> nop n = FStsw \<or> list_all (\<lambda>v. v < int i \<and> (0 \<le> v \<longrightarrow> nat v \<notin> D)) [in0 n, in1 n, in2 n]"

lemma agree_inp: "agree D s t \<Longrightarrow> v < int (length (x_vals s)) \<Longrightarrow> (0 \<le> v \<Longrightarrow> nat v \<notin> D) \<Longrightarrow> inp M (x_vals s) v = inp M (x_vals t) v"
  by (auto simp: agree_def inp_def)

lemma agree_step:
  assumes "agree D s t"
    and "x_ext (effect M n s) = x_ext (effect M m t)" "x_cc (effect M n s) = x_cc (effect M m t)" "x_held (effect M n s) = x_held (effect M m t)"
    and "length (x_vals s) \<notin> D \<Longrightarrow> val_of M (x_ext s) n (x_vals s) = val_of M (x_ext t) m (x_vals t)"
  shows "agree D (step M n s) (step M m t)"
proof (rule agreeI)
  fix j assume j: "j < length (x_vals (step M n s))" "j \<notin> D"
  show "x_vals (step M n s) ! j = x_vals (step M m t) ! j"
    using assms(1,5) j by (cases "j = length (x_vals s)") (auto simp: agree_def nth_append)
qed (use assms in \<open>simp_all add: agree_def step_def\<close>)

lemma step_same:
  assumes "agree D s t" "off D (length (x_vals s)) n"
  shows "agree D (step M n s) (step M n t)"
proof -
  have st: "x_ext s = x_ext t" "x_cc s = x_cc t" "x_held s = x_held t" "length (x_vals s) = length (x_vals t)"
    using assms(1) by (auto simp: agree_def)
  show ?thesis
  proof (cases "is_dead n \<or> nop n = FStsw")
    case True
    then show ?thesis by (intro agree_step assms(1)) (auto simp: effect_def val_of_def st Let_def side_effect_def sets_cc_def)
  next
    case False
    then have "inp M (x_vals s) v = inp M (x_vals t) v" if "v \<in> {in0 n, in1 n, in2 n}" for v
      using assms that by (auto simp: off_def intro: agree_inp)
    then show ?thesis using False
      by (intro agree_step assms(1)) (simp_all add: effect_def val_of_def st cmp_of_def)
  qed
qed

lemma effect_value: "is_dead n \<or> \<not> side_effect (nop n) \<Longrightarrow> effect M n s = s"
  by (simp add: effect_def)

lemma step_value:
  assumes "agree D s t" "is_dead n \<or> \<not> side_effect (nop n)" "is_dead m \<or> \<not> side_effect (nop m)"
    and "length (x_vals s) \<notin> D \<Longrightarrow> val_of M (x_ext s) n (x_vals s) = val_of M (x_ext t) m (x_vals t)"
  shows "agree D (step M n s) (step M m t)"
  using assms by (intro agree_step) (simp_all add: effect_value, simp_all add: agree_def)

section \<open>Counting the readers of a node\<close>

definition reads :: "Node \<Rightarrow> int \<Rightarrow> int" where
  "reads n j = (if is_dead n then 0 else of_bool (in0 n = j) + of_bool (in1 n = j) + of_bool (in2 n = j))"

definition uses :: "Context \<Rightarrow> nat \<Rightarrow> int" where
  "uses c j = int (count_list (slot_val c) (int j)) + sum_list (map (\<lambda>n. reads n (int j)) (nodes c))"

definition counts :: "Context \<Rightarrow> int list \<Rightarrow> bool" where
  "counts c uc \<longleftrightarrow> num_nodes c \<le> length uc \<and> (\<forall>j < num_nodes c. uses c j \<le> uc ! j)"

lemma reads_nonneg [simp]: "0 \<le> reads n j"
  by (simp add: reads_def)

lemma reads_dead [simp]: "is_dead n \<Longrightarrow> reads n j = 0"
  by (simp add: reads_def)

lemma reads_sum_nonneg [simp]: "0 \<le> sum_list (map (\<lambda>n. reads n j) ns)"
  by (rule sum_list_nonneg) auto

lemma uses_nonneg: "0 \<le> uses c j"
  by (simp add: uses_def)

lemma is_dead_set_dead [simp]: "is_dead (set_dead n)"
  by (simp add: is_dead_def set_dead_def kDead_def bit.conj_disj_distrib2)

lemma is_dead_upd [simp]:
  "is_dead (n\<lparr>nop := k\<rparr>) = is_dead n" "is_dead (n\<lparr>in0 := v\<rparr>) = is_dead n" "is_dead (n\<lparr>in1 := v\<rparr>) = is_dead n"
  "is_dead (n\<lparr>in2 := v\<rparr>) = is_dead n" "is_dead (n\<lparr>npayload := p\<rparr>) = is_dead n"
  by (simp_all add: is_dead_def)

lemma update_node_sel [simp]:
  "nodes (update_node i f c) = (nodes c)[nat i := f (nodes c ! nat i)]" "slot_val (update_node i f c) = slot_val c"
  "top_delta (update_node i f c) = top_delta c"
  by (simp_all add: update_node_def node_def)

lemma kill_sel [simp]:
  "nodes (kill i c) = (nodes c)[nat i := set_dead (nodes c ! nat i)]" "slot_val (kill i c) = slot_val c" "top_delta (kill i c) = top_delta c"
  by (simp_all add: kill_def)

lemma sum_list_upd: "i < length xs \<Longrightarrow> sum_list (map f (xs[i := y])) = sum_list (map f xs) - f (xs ! i) + (f y :: int)"
  by (induction xs arbitrary: i) (auto split: nat.splits)

lemma uses_update: "0 \<le> i \<Longrightarrow> nat i < num_nodes c \<Longrightarrow>
    uses (update_node i f c) j = uses c j - reads (node c i) (int j) + reads (f (node c i)) (int j)"
  by (simp add: uses_def sum_list_upd node_def)

lemma uses_kill: "0 \<le> i \<Longrightarrow> nat i < num_nodes c \<Longrightarrow> uses (kill i c) j = uses c j - reads (node c i) (int j)"
  by (simp add: kill_def uses_update)

lemma reads_le_uses:
  assumes "i < num_nodes c"
  shows "reads (nodes c ! i) (int j) \<le> uses c j"
proof -
  have "reads (nodes c ! i) (int j) \<le> sum_list (map (\<lambda>n. reads n (int j)) (nodes c))"
    using assms by (intro member_le_sum_list) auto
  then show ?thesis by (simp add: uses_def)
qed

lemma uses_0_reads: "uses c j \<le> 0 \<Longrightarrow> i < num_nodes c \<Longrightarrow> reads (nodes c ! i) (int j) = 0"
  using reads_le_uses [of i c j] reads_nonneg [of "nodes c ! i" "int j"] by linarith

lemma uses_0_slots:
  assumes "uses c j \<le> 0"
  shows "int j \<notin> set (slot_val c)"
proof -
  have "count_list (slot_val c) (int j) = 0"
    using assms reads_sum_nonneg [of "int j" "nodes c"] unfolding uses_def by linarith
  then show ?thesis by (simp add: count_list_0_iff)
qed

lemma reads_0: "reads n j = 0 \<longleftrightarrow> is_dead n \<or> in0 n \<noteq> j \<and> in1 n \<noteq> j \<and> in2 n \<noteq> j"
  by (auto simp: reads_def)

lemma length_bump [simp]: "length (bump i k uc) = length uc"
  by (simp add: bump_def)

lemma nth_bump: "j < length uc \<Longrightarrow> bump i k uc ! j = uc ! j + (if i = int j then k else 0)"
  by (auto simp: bump_def nth_list_update)

lemma count_inputs_nth: "j < length uc \<Longrightarrow> \<not> is_dead n \<Longrightarrow> count_inputs k n uc ! j = uc ! j + k * reads n (int j)"
  by (simp add: count_inputs_def nth_bump reads_def algebra_simps)

lemma length_count_inputs [simp]: "length (count_inputs k n uc) = length uc"
  by (simp add: count_inputs_def)

lemma count_uses_counts:
  assumes "num_nodes c \<le> kMaxNodes" "list_all (\<lambda>v. v < int (num_nodes c)) (slot_val c)"
  shows "counts c (count_uses c)"
proof -
  let ?f = "\<lambda>n uc. if is_dead n then uc else count_inputs 1 n uc"
  let ?g = "\<lambda>v uc. if in_table c v then bump v 1 uc else uc"
  have f: "length (fold ?f ns uc) = length uc \<and> (j < length uc \<longrightarrow> fold ?f ns uc ! j = uc ! j + sum_list (map (\<lambda>n. reads n (int j)) ns))"
    for ns uc j
    by (induction ns arbitrary: uc) (auto simp: count_inputs_nth)
  have g: "length (fold ?g vs uc) = length uc \<and> (j < num_nodes c \<longrightarrow> num_nodes c \<le> length uc \<longrightarrow>
      fold ?g vs uc ! j = uc ! j + int (count_list vs (int j)))" for vs uc j
    by (induction vs arbitrary: uc) (auto simp: nth_bump in_table_def)
  show ?thesis using assms(1) unfolding counts_def count_uses_def
    by (auto simp: f g uses_def)
qed

section \<open>Elementary rewrites\<close>

text \<open>Inputs precede their node, and no live node or slot refers to a dead value node.\<close>

definition readable :: "Context \<Rightarrow> int \<Rightarrow> bool" where
  "readable c v \<longleftrightarrow> 0 \<le> v \<and> is_dead (node c v) \<longrightarrow> side_effect (nop (node c v))"

definition node_inv :: "Context \<Rightarrow> nat \<Rightarrow> Node \<Rightarrow> bool" where
  "node_inv c i n \<longleftrightarrow> is_dead n \<or> nop n = FStsw \<or> list_all (\<lambda>v. v < int i \<and> readable c v) [in0 n, in1 n, in2 n]"

definition ssa :: "Context \<Rightarrow> bool" where
  "ssa c \<longleftrightarrow> num_nodes c \<le> kMaxNodes \<and> (\<forall>i < num_nodes c. node_inv c i (nodes c ! i)) \<and>
     list_all (\<lambda>v. v < int (num_nodes c) \<and> readable c v) (slot_val c)"

lemma exec_replace:
  assumes "i < length ns" "step M m (exec M e (take i ns)) = step M (ns ! i) (exec M e (take i ns))"
  shows "exec M e (ns[i := m]) = exec M e ns"
proof -
  have "exec M e (take i ns @ m # drop (Suc i) ns) = exec M e (take i ns @ ns ! i # drop (Suc i) ns)"
    using assms(2) by (simp add: exec_def)
  then show ?thesis using assms(1) by (simp add: upd_conv_take_nth_drop id_take_nth_drop [symmetric])
qed

lemma val_of_prefix:
  assumes "i \<le> length ns" "list_all (\<lambda>v. v < int i) [in0 n, in1 n, in2 n]"
  shows "val_of M e' n (x_vals (exec M e (take i ns))) = val_of M e' n (x_vals (exec M e ns))"
proof -
  have "inp M (x_vals (exec M e (take i ns))) v = inp M (x_vals (exec M e ns)) v" if "v < int i" for v
    using that assms(1) exec_vals_take [of "nat v" i ns M e] by (simp add: inp_def nat_less_iff)
  then show ?thesis using assms(2) by (simp add: val_of_def)
qed

lemma is_f32_upd [simp]:
  "is_f32 (n\<lparr>nop := k\<rparr>) = is_f32 n" "is_f32 (n\<lparr>in0 := v\<rparr>) = is_f32 n" "is_f32 (n\<lparr>in1 := v\<rparr>) = is_f32 n"
  "is_f32 (n\<lparr>in2 := v\<rparr>) = is_f32 n" "is_f32 (n\<lparr>npayload := p\<rparr>) = is_f32 n" "is_f32 (set_dead n) = is_f32 n"
  by (simp_all add: is_f32_def set_dead_def kF32_def kDead_def bit.conj_disj_distrib2)

lemma is_fused_upd [simp]:
  "is_fused (n\<lparr>nop := k\<rparr>) = is_fused n" "is_fused (n\<lparr>in0 := v\<rparr>) = is_fused n" "is_fused (n\<lparr>in1 := v\<rparr>) = is_fused n"
  "is_fused (n\<lparr>in2 := v\<rparr>) = is_fused n" "is_fused (n\<lparr>npayload := p\<rparr>) = is_fused n" "is_fused (set_dead n) = is_fused n"
  by (simp_all add: is_fused_def set_dead_def kFcomFused_def kDead_def bit.conj_disj_distrib2)

lemma nop_set_dead [simp]: "nop (set_dead n) = nop n"
  by (simp add: set_dead_def)

text \<open>The invariant of a pass: a well-formed program with the meaning of the first one, all of whose values are \<open>ok\<close>.\<close>

definition good :: "('v, 'e) machine \<Rightarrow> ('v \<Rightarrow> bool) \<Rightarrow> 'e \<Rightarrow> (int + 'v) list \<times> 'e \<times> u16 option \<times> int \<Rightarrow> Context \<Rightarrow> bool" where
  "good M ok e m0 c \<longleftrightarrow> ssa c \<and> list_all ok (x_vals (exec M e (nodes c))) \<and> meaning M e c = m0 \<and>
     (\<forall>n \<in> set (nodes c). \<not> is_fused n)"

lemma ssa_node: "ssa c \<Longrightarrow> i < num_nodes c \<Longrightarrow> \<not> is_dead (nodes c ! i) \<Longrightarrow> nop (nodes c ! i) \<noteq> FStsw \<Longrightarrow>
    v \<in> {in0 (nodes c ! i), in1 (nodes c ! i), in2 (nodes c ! i)} \<Longrightarrow> v < int i \<and> readable c v"
  by (auto simp: ssa_def node_inv_def)

lemma readable_update:
  assumes "i < num_nodes c" "is_dead m = is_dead (nodes c ! i)" "side_effect (nop m) = side_effect (nop (nodes c ! i))"
  shows "readable (c\<lparr>nodes := (nodes c)[i := m]\<rparr>) = readable c"
  using assms by (auto simp: fun_eq_iff readable_def node_def nth_list_update)

lemma ssa_update:
  assumes "ssa c" "i < num_nodes c" "is_dead m = is_dead (nodes c ! i)" "side_effect (nop m) = side_effect (nop (nodes c ! i))"
    and "node_inv c i m"
  shows "ssa (c\<lparr>nodes := (nodes c)[i := m]\<rparr>)"
proof -
  have r: "readable (c\<lparr>nodes := (nodes c)[i := m]\<rparr>) = readable c" using assms(2-4) by (rule readable_update)
  have "node_inv (c\<lparr>nodes := (nodes c)[i := m]\<rparr>) k ((nodes c)[i := m] ! k)" if "k < num_nodes c" for k
    using assms(1,5) that by (cases "k = i") (auto simp: ssa_def node_inv_def r)
  then show ?thesis using assms(1) by (auto simp: ssa_def r)
qed

lemma good_replace:
  assumes "good M ok e m0 c" "i < num_nodes c" "\<not> is_dead m" "\<not> is_fused m"
    and "\<not> is_dead (nodes c ! i)" "side_effect (nop m) = side_effect (nop (nodes c ! i))"
    and "list_all (\<lambda>v. v < int i \<and> readable c v) [in0 m, in1 m, in2 m]"
    and "step M m (exec M e (take i (nodes c))) = step M (nodes c ! i) (exec M e (take i (nodes c)))"
  shows "good M ok e m0 (c\<lparr>nodes := (nodes c)[i := m]\<rparr>)"
proof -
  have x: "exec M e ((nodes c)[i := m]) = exec M e (nodes c)" by (rule exec_replace [OF assms(2,8)])
  have "ssa (c\<lparr>nodes := (nodes c)[i := m]\<rparr>)"
    using assms(1,2,3,5-7) by (intro ssa_update) (simp_all add: good_def node_inv_def)
  moreover have "\<forall>n \<in> set ((nodes c)[i := m]). \<not> is_fused n"
    using assms(1,4) set_update_subset_insert [of "nodes c" i m] by (auto simp: good_def)
  ultimately show ?thesis using assms(1) x by (simp add: good_def meaning_def Let_def)
qed

lemma good_value:
  assumes "good M ok e m0 c" "i < num_nodes c" "\<not> is_dead m" "\<not> is_fused m"
    and "\<not> is_dead (nodes c ! i)" "\<not> side_effect (nop m)" "\<not> side_effect (nop (nodes c ! i))"
    and "list_all (\<lambda>v. v < int i \<and> readable c v) [in0 m, in1 m, in2 m]"
    and "\<And>e'. val_of M e' m (x_vals (exec M e (nodes c))) = val_of M e' (nodes c ! i) (x_vals (exec M e (nodes c)))"
  shows "good M ok e m0 (c\<lparr>nodes := (nodes c)[i := m]\<rparr>)"
proof (rule good_replace [OF assms(1-5)])
  have "nop (nodes c ! i) \<noteq> FStsw" "ssa c" using assms(1,7) by (auto simp: side_effect_def good_def)
  then have "list_all (\<lambda>v. v < int i) [in0 (nodes c ! i), in1 (nodes c ! i), in2 (nodes c ! i)]"
    using ssa_node [OF _ assms(2,5)] by simp
  then show "step M m (exec M e (take i (nodes c))) = step M (nodes c ! i) (exec M e (take i (nodes c)))"
    using assms by (simp add: step_def effect_value val_of_prefix list_all_iff)
qed (use assms in auto)

lemma meaning_agree:
  assumes "agree D (exec M e (nodes c)) (exec M e (nodes c'))" "slot_val c' = slot_val c" "top_delta c' = top_delta c"
    and "ssa c" "\<And>d. d \<in> D \<Longrightarrow> int d \<notin> set (slot_val c)"
  shows "meaning M e c' = meaning M e c"
proof -
  have "slot_value (x_vals (exec M e (nodes c'))) v = slot_value (x_vals (exec M e (nodes c))) v" if "v \<in> set (slot_val c)" for v
  proof (cases "0 \<le> v")
    case True
    then have "nat v < num_nodes c" "nat v \<notin> D" using assms(4) assms(5) [of "nat v"] that by (auto simp: ssa_def list_all_iff)
    then show ?thesis using assms(1) True by (simp add: slot_value_def agree_def)
  qed (simp add: slot_value_def)
  then show ?thesis using assms(1-3) by (simp add: meaning_def agree_def Let_def)
qed

lemma good_kill:
  assumes "good M ok e m0 c" "j < num_nodes c" "uses c j \<le> 0" "\<not> side_effect (nop (nodes c ! j))" "ok (m_none M)"
  shows "good M ok e m0 (kill (int j) c)"
proof -
  let ?ns = "(nodes c)[j := set_dead (nodes c ! j)]" and ?c = "kill (int j) c"
  have ns: "nodes ?c = ?ns" by simp
  have s: "ssa c" using assms(1) by (simp add: good_def)
  have no: "is_dead (nodes c ! k) \<or> nop (nodes c ! k) = FStsw \<or> list_all (\<lambda>v. v < int k \<and> v \<noteq> int j \<and> readable c v)
      [in0 (nodes c ! k), in1 (nodes c ! k), in2 (nodes c ! k)]" if "k < num_nodes c" for k
    using ssa_node [OF s that] uses_0_reads [OF assms(3) that] by (auto simp: reads_0)
  have off: "off {j} k (nodes c ! k)" if "k < num_nodes c" for k
    using no [OF that] by (auto simp: off_def)
  have a: "agree {j} (exec M e (nodes c)) (exec M e ?ns)"
  proof (rule exec_agree)
    fix k assume k: "k < length (nodes c)" "agree {j} (exec M e (take k (nodes c))) (exec M e (take k ?ns))"
    show "agree {j} (step M (nodes c ! k) (exec M e (take k (nodes c)))) (step M (?ns ! k) (exec M e (take k ?ns)))"
    proof (cases "k = j")
      case True
      then show ?thesis using k assms(4) by (intro step_value) simp_all
    next
      case False
      then show ?thesis using k off by (auto intro: step_same)
    qed
  qed simp
  have r: "readable ?c v" if "readable c v" "v \<noteq> int j" "v < int (num_nodes c)" for v
    using that by (auto simp: readable_def ns node_def nth_list_update)
  have sl: "v \<noteq> int j \<and> v < int (num_nodes c) \<and> readable c v" if "v \<in> set (slot_val c)" for v
    using uses_0_slots [OF assms(3)] s that by (auto simp: ssa_def list_all_iff)
  have "node_inv ?c k (?ns ! k)" if "k < num_nodes c" for k
    using no [OF that] r that by (cases "k = j") (auto simp: node_inv_def)
  then have "ssa ?c" using s r sl unfolding ssa_def ns by (simp add: list_all_iff)
  moreover have "x_vals (exec M e ?ns) ! k = (if k = j then m_none M else x_vals (exec M e (nodes c)) ! k)" if "k < num_nodes c" for k
    using a that exec_vals_take [of j "Suc j" ?ns M e]
    by (auto simp: agree_def exec_take_Suc nth_append val_of_def)
  then have "list_all ok (x_vals (exec M e ?ns))" using assms(1,5) by (auto simp: good_def list_all_length)
  moreover have "meaning M e ?c = meaning M e c"
    by (rule meaning_agree) (use a s sl in \<open>auto simp: ns\<close>)
  moreover have "\<forall>n \<in> set ?ns. \<not> is_fused n"
    using assms(1,2) set_update_subset_insert [of "nodes c" j "set_dead (nodes c ! j)"] by (auto simp: good_def)
  ultimately show ?thesis using assms(1) by (simp add: good_def ns)
qed

text \<open>Redirecting every reader of a node to another one with the same value.\<close>

lemma agree_empty: "agree {} s t \<longleftrightarrow> s = t"
  by (cases s; cases t) (auto simp: agree_def list_eq_iff_nth_eq)

lemma exec_pointwise:
  assumes "length ns = length ms" "\<And>k. k < length ns \<Longrightarrow> step M (ms ! k) (exec M e (take k ns)) = step M (ns ! k) (exec M e (take k ns))"
  shows "exec M e ms = exec M e ns"
proof -
  have "agree {} (exec M e ns) (exec M e ms)" by (rule exec_agree [OF assms(1)]) (use assms(2) in \<open>metis agree_empty\<close>)
  then show ?thesis by (simp add: agree_empty)
qed

lemma subst_input_sel [simp]:
  "nop (subst_input i k n) = nop n" "nflags (subst_input i k n) = nflags n" "npayload (subst_input i k n) = npayload n"
  "naux (subst_input i k n) = naux n" "in0 (subst_input i k n) = (if in0 n = i then k else in0 n)"
  "in1 (subst_input i k n) = (if in1 n = i then k else in1 n)" "in2 (subst_input i k n) = (if in2 n = i then k else in2 n)"
  by (simp_all add: subst_input_def)

lemma subst_input_flags [simp]: "is_dead (subst_input i k n) = is_dead n" "is_f32 (subst_input i k n) = is_f32 n"
  "is_fused (subst_input i k n) = is_fused n"
  by (simp_all add: is_dead_def is_f32_def is_fused_def)

definition redirect :: "int \<Rightarrow> int \<Rightarrow> Context \<Rightarrow> Context" where
  "redirect i keep c = (subst_uses i keep c)\<lparr>slot_val := map (\<lambda>v. if v = i then keep else v) (slot_val c)\<rparr>"

lemma redirect_sel [simp]:
  "nodes (redirect i keep c) = map (\<lambda>n. if is_dead n then n else subst_input i keep n) (nodes c)"
  "slot_val (redirect i keep c) = map (\<lambda>v. if v = i then keep else v) (slot_val c)" "top_delta (redirect i keep c) = top_delta c"
  by (simp_all add: redirect_def subst_uses_def)

lemma step_subst:
  assumes "\<not> is_fused n" "nop n = FStsw \<Longrightarrow> in1 n \<noteq> i \<and> in2 n \<noteq> i"
    and "\<And>v. nop n \<noteq> FStsw \<Longrightarrow> v \<in> {in0 n, in1 n, in2 n} \<Longrightarrow> v = i \<Longrightarrow> inp M (x_vals s) keep = inp M (x_vals s) i"
  shows "step M (subst_input i keep n) s = step M n s"
proof (cases "nop n = FStsw")
  case True
  then show ?thesis using assms(1,2) by (simp add: step_def effect_def val_of_def side_effect_def sets_cc_def)
next
  case False
  then have "inp M (x_vals s) (in0 (subst_input i keep n)) = inp M (x_vals s) (in0 n)"
    "inp M (x_vals s) (in1 (subst_input i keep n)) = inp M (x_vals s) (in1 n)"
    "inp M (x_vals s) (in2 (subst_input i keep n)) = inp M (x_vals s) (in2 n)"
    using assms(3) by auto
  then show ?thesis using False by (simp add: step_def effect_def val_of_def cmp_of_def del: subst_input_sel(5-7))
qed

lemma good_redirect:
  assumes "good M ok e m0 c" "i < num_nodes c" "0 \<le> keep" "keep < int i" "readable c keep"
    and "x_vals (exec M e (nodes c)) ! i = x_vals (exec M e (nodes c)) ! nat keep"
    and "\<forall>n \<in> set (nodes c). \<not> is_dead n \<longrightarrow> nop n = FStsw \<longrightarrow> in1 n \<noteq> int i \<and> in2 n \<noteq> int i"
  shows "good M ok e m0 (redirect (int i) keep c)"
proof -
  let ?c = "redirect (int i) keep c"
  have s: "ssa c" and nf: "\<forall>n \<in> set (nodes c). \<not> is_fused n" using assms(1) by (auto simp: good_def)
  have k: "nat keep < i" using assms(3,4) by linarith
  have x: "exec M e (nodes ?c) = exec M e (nodes c)"
  proof (rule exec_pointwise)
    fix j assume j: "j < length (nodes c)"
    let ?n = "nodes c ! j" and ?s = "exec M e (take j (nodes c))"
    have "inp M (x_vals ?s) keep = inp M (x_vals ?s) (int i)" if "nop ?n \<noteq> FStsw" "\<not> is_dead ?n" "v \<in> {in0 ?n, in1 ?n, in2 ?n}" "v = int i" for v
    proof -
      have "i < j" using ssa_node [OF s j that(2,1,3)] that(4) by simp
      then show ?thesis using k j assms(3,6) by (simp add: inp_def exec_vals_take)
    qed
    then show "step M (nodes ?c ! j) ?s = step M ?n ?s" using j nf assms(7) by (auto intro!: step_subst)
  qed simp
  have r: "readable ?c v = readable c v" if "v < int (num_nodes c)" for v
    using that by (auto simp: readable_def node_def nat_less_iff)
  have q: "keep < int j" if "int i < int j" for j using that assms(4) by linarith
  have "node_inv ?c j (nodes ?c ! j)" if j: "j < num_nodes c" for j
  proof (cases "is_dead (nodes c ! j) \<or> nop (nodes c ! j) = FStsw")
    case False
    have "v < int j \<and> readable c v" if "v \<in> {in0 (nodes c ! j), in1 (nodes c ! j), in2 (nodes c ! j)}" for v
      using ssa_node [OF s j] False that by blast
    then have "(if v = int i then keep else v) < int j \<and> readable ?c (if v = int i then keep else v)"
      if "v \<in> {in0 (nodes c ! j), in1 (nodes c ! j), in2 (nodes c ! j)}" for v
      using that assms(5) q [of j] r j by (smt (verit) of_nat_less_iff order_less_trans)
    then show ?thesis using False j by (simp add: node_inv_def)
  qed (use j in \<open>auto simp: node_inv_def\<close>)
  moreover have "list_all (\<lambda>v. v < int (num_nodes c) \<and> readable ?c v) (slot_val ?c)"
    using s assms(2,4,5) r by (auto simp: ssa_def list_all_iff)
  ultimately have "ssa ?c" using s by (simp add: ssa_def)
  moreover have "slot_value (x_vals (exec M e (nodes c))) (if v = int i then keep else v) = slot_value (x_vals (exec M e (nodes c))) v" for v
    using assms(3,6) by (simp add: slot_value_def)
  then have "meaning M e ?c = meaning M e c" using x by (simp add: meaning_def Let_def o_def)
  ultimately show ?thesis using assms(1) x nf by (auto simp: good_def)
qed

lemma uses_redirect:
  assumes "keep \<noteq> int i"
  shows "uses (redirect (int i) keep c) j =
     (if j = i then 0 else uses c j + (if int j = keep then uses c i else 0))"
proof -
  have a: "int (count_list (map (\<lambda>v. if v = int i then keep else v) vs) (int j)) =
      (if j = i then 0 else int (count_list vs (int j)) + (if int j = keep then int (count_list vs (int i)) else 0))" for vs
    using assms by (induction vs) auto
  have n: "reads (if is_dead n then n else subst_input (int i) keep n) (int j) =
      (if j = i then 0 else reads n (int j) + (if int j = keep then reads n (int i) else 0))" for n
    using assms by (auto simp: reads_def)
  have b: "sum_list (map (\<lambda>n. reads (if is_dead n then n else subst_input (int i) keep n) (int j)) ns) =
      (if j = i then 0 else sum_list (map (\<lambda>n. reads n (int j)) ns) + (if int j = keep then sum_list (map (\<lambda>n. reads n (int i)) ns) else 0))" for ns
    by (induction ns) (simp_all only: list.map sum_list.Nil sum_list.Cons n, auto)
  show ?thesis using a [of "slot_val c"] b [of "nodes c"] by (simp add: uses_def o_def)
qed

end
