(* ===== verification/IROptCorrect.thy ===== *)
theory IROptCorrect
  imports IROptSem
begin

text \<open>
  The passes of the optimizer preserve the meaning of a program, for every machine whose values
  satisfy the laws the rewrites rely on (locales \<open>rewrite_laws\<close> and \<open>ideal_laws\<close>).
\<close>

section \<open>Conditions on the program\<close>

definition plain :: "Context \<Rightarrow> bool" where
  "plain c \<longleftrightarrow> (\<forall>n \<in> set (nodes c). \<not> is_f32 n)"

definition arith_op :: "Op \<Rightarrow> bool" where
  "arith_op k \<longleftrightarrow> k \<in> {FAdd, FSub, FMul, FDiv, FNMul, FMAdd, FMSub, FNMSub, FNeg, FAbs, FSqrt, CvtF64ToF32}"

lemma arith_pure: "arith_op k \<Longrightarrow> \<not> side_effect k \<and> k \<noteq> FStsw"
  by (cases k) (simp_all add: arith_op_def side_effect_def)

lemma pure_not_stsw: "\<not> side_effect k \<Longrightarrow> k \<noteq> FStsw"
  by (auto simp: side_effect_def)

text \<open>
  What a live node does with the condition codes: nothing, set them, or read those of a compare.
  The passes after the first keep this view. \<close>

definition cc_node :: "Node \<Rightarrow> int option option" where
  "cc_node n = (if is_dead n then None else if sets_cc (nop n) then Some None
     else if nop n = FStsw then Some (Some (in0 n)) else None)"

definition cc_view :: "Context \<Rightarrow> int option option list" where
  "cc_view c = map cc_node (nodes c)"

lemma cc_node_pure: "\<not> side_effect (nop n) \<Longrightarrow> cc_node n = None"
  by (simp add: cc_node_def sets_cc_def side_effect_def)

lemma cc_node_dead [simp]: "is_dead n \<Longrightarrow> cc_node n = None"
  by (simp add: cc_node_def)

text \<open>The numbers in a status store (compare, register and TOP snapshot) are not those of arithmetic nodes.\<close>

definition stsw_ok :: "int option option list \<Rightarrow> Context \<Rightarrow> bool" where
  "stsw_ok V c \<longleftrightarrow> cc_view c = V \<and> (\<forall>n \<in> set (nodes c). \<not> is_dead n \<longrightarrow> nop n = FStsw \<longrightarrow>
     (\<forall>v \<in> {in0 n, in1 n, in2 n}. in_table c v \<longrightarrow> \<not> arith_op (nop (node c v))))"

lemma plain_nth: "plain c \<Longrightarrow> i < num_nodes c \<Longrightarrow> \<not> is_f32 (nodes c ! i)"
  by (simp add: plain_def)

lemma plain_update: "plain c \<Longrightarrow> \<not> is_f32 m \<Longrightarrow> plain (c\<lparr>nodes := (nodes c)[i := m]\<rparr>)"
  using set_update_subset_insert [of "nodes c" i m] by (auto simp: plain_def)

lemma stsw_ok_update:
  assumes "stsw_ok V c" "i < num_nodes c" "arith_op (nop m) \<Longrightarrow> arith_op (nop (nodes c ! i))" "is_dead m \<or> nop m \<noteq> FStsw"
    and "cc_node m = cc_node (nodes c ! i)"
  shows "stsw_ok V (c\<lparr>nodes := (nodes c)[i := m]\<rparr>)"
proof -
  have "\<not> arith_op (nop ((nodes c)[i := m] ! nat v))" if "n \<in> set (nodes c)" "\<not> is_dead n" "nop n = FStsw" "v \<in> {in0 n, in1 n, in2 n}"
    "0 \<le> v" "nat v < num_nodes c" for n v
    using assms(1-3) that by (cases "nat v = i") (auto simp: stsw_ok_def in_table_def node_def nat_less_iff)
  moreover have "cc_view (c\<lparr>nodes := (nodes c)[i := m]\<rparr>) = cc_view c"
    using assms(2,5) by (simp add: cc_view_def map_update list_update_same_conv)
  ultimately show ?thesis using assms(1,4) set_update_subset_insert [of "nodes c" i m]
    by (auto simp: stsw_ok_def in_table_def node_def nat_less_iff)
qed

lemma update_node_eq: "update_node i f c = c\<lparr>nodes := (nodes c)[nat i := f (nodes c ! nat i)]\<rparr>"
  by (simp add: update_node_def node_def)

lemma plain_kill: "plain c \<Longrightarrow> 0 \<le> j \<Longrightarrow> nat j < num_nodes c \<Longrightarrow> plain (kill j c)"
  by (simp add: kill_def update_node_eq plain_update plain_nth)

lemma stsw_ok_kill:
  "stsw_ok V c \<Longrightarrow> 0 \<le> j \<Longrightarrow> nat j < num_nodes c \<Longrightarrow> \<not> side_effect (nop (nodes c ! nat j)) \<Longrightarrow> stsw_ok V (kill j c)"
  unfolding kill_def update_node_eq by (rule stsw_ok_update) (auto simp: cc_node_pure)

lemma plain_redirect: "plain c \<Longrightarrow> plain (redirect i keep c)"
  by (auto simp: plain_def)

lemma stsw_meta:
  assumes "stsw_ok V c" "i < num_nodes c" "arith_op (nop (nodes c ! i))"
  shows "\<forall>n \<in> set (nodes c). \<not> is_dead n \<longrightarrow> nop n = FStsw \<longrightarrow> in0 n \<noteq> int i \<and> in1 n \<noteq> int i \<and> in2 n \<noteq> int i"
proof -
  have "in_table c (int i)" "node c (int i) = nodes c ! i" using assms(2) by (simp_all add: in_table_def node_def)
  then show ?thesis using assms(1,3) unfolding stsw_ok_def by (metis insertCI)
qed

lemma stsw_ok_redirect:
  assumes "stsw_ok V c" "i < num_nodes c" "arith_op (nop (nodes c ! i))"
  shows "stsw_ok V (redirect (int i) keep c)"
proof -
  have "cc_node (if is_dead n then n else subst_input (int i) keep n) = cc_node n" if "n \<in> set (nodes c)" for n
    using stsw_meta [OF assms] that by (auto simp: cc_node_def)
  then have "cc_view (redirect (int i) keep c) = cc_view c" by (simp add: cc_view_def)
  then show ?thesis
    using stsw_meta [OF assms] assms(1) by (auto simp: stsw_ok_def in_table_def node_def nat_less_iff)
qed

section \<open>Rewriting with use counts\<close>

lemma fold_to_redirect:
  "fold_to i keep k (c, uc) =
     (let c2 = kill i (redirect i keep c); uc3 = bump k (- 1) ((uc[nat keep := uc ! nat keep + uc ! nat i - 1])[nat i := 0])
      in (if uc3 ! nat k = 0 then kill k c2 else c2, uc3))"
  by (simp add: fold_to_def redirect_def subst_uses_def Let_def)

lemma counts_kill: "counts c uc \<Longrightarrow> 0 \<le> j \<Longrightarrow> nat j < num_nodes c \<Longrightarrow> counts (kill j c) uc"
  using reads_nonneg by (simp add: counts_def uses_kill) (smt (verit) reads_nonneg)

text \<open>What every pass step keeps, besides the conditions of the pass.\<close>

definition pass_inv :: "('v, 'e) machine \<Rightarrow> ('v \<Rightarrow> bool) \<Rightarrow> 'e \<Rightarrow> (int + 'v) list \<times> 'e \<times> u16 option \<times> int \<Rightarrow>
    (Context \<Rightarrow> bool) \<Rightarrow> Context \<times> int list \<Rightarrow> bool" where
  "pass_inv M ok e m0 P st1 \<longleftrightarrow> good M ok e m0 (fst st1) \<and> counts (fst st1) (snd st1) \<and> P (fst st1)"

definition stable :: "(Context \<Rightarrow> bool) \<Rightarrow> bool" where
  "stable P \<longleftrightarrow> (\<forall>c j. P c \<longrightarrow> 0 \<le> j \<longrightarrow> nat j < num_nodes c \<longrightarrow> \<not> side_effect (nop (nodes c ! nat j)) \<longrightarrow> P (kill j c))"

lemma stableI [simp]: "stable plain" "stable (stsw_ok V)" "stable (\<lambda>c. True)" "stable P \<Longrightarrow> stable R \<Longrightarrow> stable (\<lambda>c. P c \<and> R c)"
  by (auto simp: stable_def plain_kill stsw_ok_kill)

lemma orphan_inv:
  assumes "pass_inv M ok e m0 P (c, uc)" "stable P" "ok (m_none M)" "0 \<le> k" "nat k < num_nodes c" "\<not> side_effect (nop (nodes c ! nat k))"
  shows "pass_inv M ok e m0 P (if uc ! nat k = 0 then kill k c else c, uc)"
proof (cases "uc ! nat k = 0")
  case True
  then have "uses c (nat k) \<le> 0" using assms(1,5) by (simp add: pass_inv_def counts_def) (metis)
  then have "good M ok e m0 (kill (int (nat k)) c)" using assms by (intro good_kill) (simp_all add: pass_inv_def)
  then show ?thesis using True assms by (auto simp: pass_inv_def counts_kill stable_def)
qed (use assms in simp)

lemma pass_inv_fold:
  assumes "pass_inv M ok e m0 P st1" "\<And>i st1. i \<in> set is \<Longrightarrow> num_nodes (fst st1) = N \<Longrightarrow> pass_inv M ok e m0 P st1 \<Longrightarrow> pass_inv M ok e m0 P (f i st1)"
    and "num_nodes (fst st1) = N" "\<And>i st1. num_nodes (fst (f i st1)) = num_nodes (fst st1)"
  shows "pass_inv M ok e m0 P (fold f is st1)"
  using assms
proof (induction "is" arbitrary: st1)
  case (Cons i "is")
  then show ?case by simp
qed simp

lemma pass_inv_start:
  "good M ok e m0 c \<Longrightarrow> P c \<Longrightarrow> pass_inv M ok e m0 P (c, count_uses c)"
  by (auto simp: pass_inv_def good_def ssa_def list_all_iff intro: count_uses_counts)

section \<open>Bit-exact rewrites\<close>

locale rewrite_laws =
  fixes M :: "('v, 'e) machine" and ok :: "'v \<Rightarrow> bool" and K :: "u64 \<Rightarrow> 'v"
  assumes ok_none: "ok (m_none M)"
    and const_zero: "m_value M e ConstZero False p a b c = K 0"
    and const_one: "m_value M e ConstOne False p a b c = K kOneBits"
    and const_f64: "m_value M e ConstF64 False (PImm w) a b c = K w"
    and mul_one: "ok a \<Longrightarrow> m_value M e FMul False p a (K kOneBits) c = a"
    and one_mul: "ok a \<Longrightarrow> m_value M e FMul False p (K kOneBits) a c = a"
    and div_one: "ok a \<Longrightarrow> m_value M e FDiv False p a (K kOneBits) c = a"
    and sub_zero: "ok a \<Longrightarrow> m_value M e FSub False p a (K 0) c = a"
    and add_mzero: "ok a \<Longrightarrow> m_value M e FAdd False p a (K kMZeroBits) c = a"
    and div_recip: "recip_bits None w = Some r \<Longrightarrow> m_value M e FDiv False p a (K w) c = m_value M e FMul False p a (K r) c"
    and ok_recip: "recip_bits None w = Some r \<Longrightarrow> ok (K r)"
    and order_zero: "push_bit 1 w = 0 \<Longrightarrow> m_order M a (K w) = m_test M a"
    and add_neg: "ok a \<Longrightarrow> ok b \<Longrightarrow> m_value M e FAdd False p a (m_value M e' FNeg False p' b x y) c = m_value M e FSub False p a b c"
    and neg_add: "ok a \<Longrightarrow> ok b \<Longrightarrow> m_value M e FAdd False p (m_value M e' FNeg False p' a x y) b c = m_value M e FSub False p b a c"
    and sub_neg: "ok a \<Longrightarrow> ok b \<Longrightarrow> m_value M e FSub False p a (m_value M e' FNeg False p' b x y) c = m_value M e FAdd False p a b c"
    and neg_mul: "m_value M e FNeg False p (m_value M e' FMul False p' a b y) x c = m_value M e FNMul False p a b c"
begin

lemma live_val:
  assumes "good M ok e m0 c" "plain c" "j < num_nodes c" "\<not> is_dead (nodes c ! j)" "\<not> side_effect (nop (nodes c ! j))"
  shows "\<exists>e'. x_vals (exec M e (nodes c)) ! j = m_value M e' (nop (nodes c ! j)) False (npayload (nodes c ! j))
     (inp M (x_vals (exec M e (nodes c))) (in0 (nodes c ! j))) (inp M (x_vals (exec M e (nodes c))) (in1 (nodes c ! j)))
     (inp M (x_vals (exec M e (nodes c))) (in2 (nodes c ! j)))"
proof -
  have "nop (nodes c ! j) \<noteq> FStsw" "ssa c" using assms(1) pure_not_stsw [OF assms(5)] by (simp_all add: good_def)
  then have "list_all (\<lambda>v. v < int j) [in0 (nodes c ! j), in1 (nodes c ! j), in2 (nodes c ! j)]"
    using ssa_node [OF _ assms(3,4)] by simp
  from exec_val [OF assms(3) this, of M e] show ?thesis
    using assms(4,5) plain_nth [OF assms(2,3)] by (auto simp: val_of_def)
qed

lemma val_of_live:
  assumes "plain c" "j < num_nodes c" "\<not> is_dead (nodes c ! j)" "\<not> side_effect (nop (nodes c ! j))"
  shows "val_of M e' (nodes c ! j) vs = m_value M e' (nop (nodes c ! j)) False (npayload (nodes c ! j))
     (inp M vs (in0 (nodes c ! j))) (inp M vs (in1 (nodes c ! j))) (inp M vs (in2 (nodes c ! j)))"
  using assms plain_nth [OF assms(1,2)] by (simp add: val_of_def)

lemma ok_val: "good M ok e m0 c \<Longrightarrow> v < int (num_nodes c) \<Longrightarrow> ok (inp M (x_vals (exec M e (nodes c))) v)"
  using ok_none by (auto simp: good_def list_all_length inp_def)

lemma const_is_val:
  assumes "good M ok e m0 c" "plain c" "const_is c v alias w"
    and "alias \<in> {None, Some ConstOne, Some ConstZero}" "alias = Some ConstOne \<Longrightarrow> w = kOneBits" "alias = Some ConstZero \<Longrightarrow> w = 0"
  shows "0 \<le> v" "nat v < num_nodes c" "\<not> is_dead (nodes c ! nat v)" "\<not> side_effect (nop (nodes c ! nat v))"
    "inp M (x_vals (exec M e (nodes c))) v = K w"
proof -
  have k: "0 \<le> v" "nat v < num_nodes c" "\<not> is_dead (nodes c ! nat v)"
    "alias = Some (nop (nodes c ! nat v)) \<or> nop (nodes c ! nat v) = ConstF64 \<and> npayload (nodes c ! nat v) = PImm w"
    using assms(3) by (auto simp: const_is_def in_table_def node_def Let_def split: if_splits)
  then have "nop (nodes c ! nat v) \<in> {ConstOne, ConstZero, ConstF64}" using assms(4) by auto
  then have n: "\<not> side_effect (nop (nodes c ! nat v))" by (auto simp: side_effect_def)
  obtain e' where "x_vals (exec M e (nodes c)) ! nat v = m_value M e' (nop (nodes c ! nat v)) False (npayload (nodes c ! nat v))
     (inp M (x_vals (exec M e (nodes c))) (in0 (nodes c ! nat v))) (inp M (x_vals (exec M e (nodes c))) (in1 (nodes c ! nat v)))
     (inp M (x_vals (exec M e (nodes c))) (in2 (nodes c ! nat v)))"
    using live_val [OF assms(1,2) k(2,3) n] by blast
  then show "inp M (x_vals (exec M e (nodes c))) v = K w"
    using k(1,4) assms(4,5,6) by (auto simp: inp_def const_zero const_one const_f64)
  show "0 \<le> v" "nat v < num_nodes c" "\<not> is_dead (nodes c ! nat v)" "\<not> side_effect (nop (nodes c ! nat v))"
    using k n by auto
qed

text \<open>What an identity the code recognises says: the node reads the kept operand and the constant, and has the kept value.\<close>

lemma identity_fold_val:
  assumes "good M ok e m0 c" "plain c" "i < num_nodes c" "\<not> is_dead (nodes c ! i)" "identity_fold c (nodes c ! i) = Some (keep, k)" "0 \<le> keep"
  shows "x_vals (exec M e (nodes c)) ! i = x_vals (exec M e (nodes c)) ! nat keep" "arith_op (nop (nodes c ! i))"
    "0 \<le> k" "nat k < num_nodes c" "\<not> side_effect (nop (nodes c ! nat k))"
    "(keep, k) = (in0 (nodes c ! i), in1 (nodes c ! i)) \<or> (keep, k) = (in1 (nodes c ! i), in0 (nodes c ! i))"
proof -
  let ?n = "nodes c ! i" and ?v = "inp M (x_vals (exec M e (nodes c)))"
  have cases: "(nop ?n = FMul \<or> nop ?n = FDiv) \<and> const_is c (in1 ?n) (Some ConstOne) kOneBits \<and> (keep, k) = (in0 ?n, in1 ?n) \<or>
     nop ?n = FMul \<and> const_is c (in0 ?n) (Some ConstOne) kOneBits \<and> (keep, k) = (in1 ?n, in0 ?n) \<or>
     nop ?n = FSub \<and> const_is c (in1 ?n) (Some ConstZero) 0 \<and> (keep, k) = (in0 ?n, in1 ?n) \<or>
     nop ?n = FAdd \<and> const_is c (in1 ?n) None kMZeroBits \<and> (keep, k) = (in0 ?n, in1 ?n)"
    using assms(5) by (auto simp: identity_fold_def split: if_splits)
  then show ar: "arith_op (nop ?n)" and ks: "(keep, k) = (in0 ?n, in1 ?n) \<or> (keep, k) = (in1 ?n, in0 ?n)"
    by (elim disjE conjE; simp add: arith_op_def)+
  have se: "\<not> side_effect (nop ?n)" "nop ?n \<noteq> FStsw" using arith_pure [OF ar] by simp_all
  have s: "ssa c" using assms(1) by (simp add: good_def)
  have "keep \<in> {in0 ?n, in1 ?n, in2 ?n}" using ks by auto
  then have "keep < int (num_nodes c)" using ssa_node [OF s assms(3,4) se(2), of keep] assms(3) by simp
  then have okk: "ok (?v keep)" by (rule ok_val [OF assms(1)])
  have kk: "const_is c v (Some ConstOne) kOneBits \<Longrightarrow> 0 \<le> v \<and> nat v < num_nodes c \<and> \<not> side_effect (nop (nodes c ! nat v)) \<and> ?v v = K kOneBits"
    "const_is c v (Some ConstZero) 0 \<Longrightarrow> 0 \<le> v \<and> nat v < num_nodes c \<and> \<not> side_effect (nop (nodes c ! nat v)) \<and> ?v v = K 0"
    "const_is c v None kMZeroBits \<Longrightarrow> 0 \<le> v \<and> nat v < num_nodes c \<and> \<not> side_effect (nop (nodes c ! nat v)) \<and> ?v v = K kMZeroBits" for v
    using const_is_val [OF assms(1,2), of v "Some ConstOne" kOneBits] const_is_val [OF assms(1,2), of v "Some ConstZero" 0]
      const_is_val [OF assms(1,2), of v None kMZeroBits] by simp_all
  show "0 \<le> k" "nat k < num_nodes c" "\<not> side_effect (nop (nodes c ! nat k))"
    using cases kk [of k] by (elim disjE conjE; simp)+
  obtain e' where v: "x_vals (exec M e (nodes c)) ! i = m_value M e' (nop ?n) False (npayload ?n) (?v (in0 ?n)) (?v (in1 ?n)) (?v (in2 ?n))"
    using live_val [OF assms(1-4) se(1)] by blast
  have "x_vals (exec M e (nodes c)) ! i = ?v keep"
    using cases kk [of k] okk unfolding v by (elim disjE conjE) (simp_all add: mul_one one_mul div_one sub_zero add_mzero)
  then show "x_vals (exec M e (nodes c)) ! i = x_vals (exec M e (nodes c)) ! nat keep" using assms(6) by (simp add: inp_def)
qed

lemma fold_to_inv:
  assumes "pass_inv M ok e m0 (\<lambda>c. plain c \<and> stsw_ok V c) (c, uc)" "i < num_nodes c" "\<not> is_dead (nodes c ! i)"
    and "identity_fold c (nodes c ! i) = Some (keep, k)" "0 \<le> keep"
  shows "pass_inv M ok e m0 (\<lambda>c. plain c \<and> stsw_ok V c) (fold_to (int i) keep k (c, uc))"
proof -
  let ?n = "nodes c ! i" and ?r = "redirect (int i) keep c"
  let ?c2 = "kill (int i) ?r"
  let ?uc = "bump k (- 1) ((uc[nat keep := uc ! nat keep + uc ! i - 1])[i := 0])"
  have g: "good M ok e m0 c" "plain c" "stsw_ok V c" "counts c uc" using assms(1) by (auto simp: pass_inv_def)
  note f = identity_fold_val [OF g(1,2) assms(2-5)]
  have s: "ssa c" using g(1) by (simp add: good_def)
  have se: "\<not> side_effect (nop ?n)" "nop ?n \<noteq> FStsw" using arith_pure [OF f(2)] by simp_all
  have kp: "v < int i \<and> readable c v" if "v \<in> {in0 ?n, in1 ?n, in2 ?n}" for v
    using ssa_node [OF s assms(2,3) se(2) that] .
  have kk: "keep \<in> {in0 ?n, in1 ?n, in2 ?n}" "k \<in> {in0 ?n, in1 ?n, in2 ?n}" using f(6) by auto
  have keep: "keep < int i" "readable c keep" "keep \<noteq> int i" "k < int i" using kp [OF kk(1)] kp [OF kk(2)] by simp_all
  have st: "\<forall>n \<in> set (nodes c). \<not> is_dead n \<longrightarrow> nop n = FStsw \<longrightarrow> in1 n \<noteq> int i \<and> in2 n \<noteq> int i"
    using stsw_meta [OF g(3) assms(2) f(2)] by blast
  have gr: "good M ok e m0 ?r" using good_redirect [OF g(1) assms(2,5) keep(1,2) f(1) st] .
  have u: "uses ?r j = (if j = i then 0 else uses c j + (if int j = keep then uses c i else 0))" for j
    by (rule uses_redirect [OF keep(3)])
  have "in0 ?n \<noteq> int i" "in1 ?n \<noteq> int i" "in2 ?n \<noteq> int i" using kp [of "in0 ?n"] kp [of "in1 ?n"] kp [of "in2 ?n"] by auto
  then have n: "nodes ?r ! i = ?n" using assms(2,3) by (simp add: subst_input_def)
  have nn: "node ?r (int i) = ?n" using n by (simp add: node_def)
  have g2: "good M ok e m0 ?c2" using gr u assms(2) se n ok_none by (intro good_kill) simp_all
  have ri: "reads ?n (int j) \<ge> of_bool (int j = keep) + of_bool (int j = k)" for j
    using f(6) assms(3) by (auto simp: reads_def)
  have len: "num_nodes c \<le> length uc" using g(4) by (simp add: counts_def)
  have "uses ?c2 j \<le> ?uc ! j" if j: "j < num_nodes c" for j
  proof -
    note reads_nonneg [simp del]
    have "uses ?c2 j = uses ?r j - reads ?n (int j)" using assms(2) by (simp add: uses_kill nn)
    moreover have "?uc ! j = (if j = i then 0 else uc ! j + (if int j = keep then uc ! i - 1 else 0)) + (if k = int j then - 1 else 0)"
      using j len assms(2,5) keep(1) by (auto simp: nth_bump nth_list_update)
    moreover have "uses c j \<le> uc ! j" "uses c i \<le> uc ! i" using g(4) j assms(2) by (auto simp: counts_def)
    ultimately show ?thesis using ri [of j] keep(4) reads_nonneg [of ?n "int j"] unfolding u by (auto split: if_splits)
  qed
  then have "counts ?c2 ?uc" using len by (simp add: counts_def)
  moreover have "plain ?c2" "stsw_ok V ?c2"
    using g(2) assms(2,3) plain_redirect stsw_ok_kill [OF stsw_ok_redirect [OF g(3) assms(2) f(2)], of "int i"] n se
    by (simp_all add: plain_kill)
  ultimately have p: "pass_inv M ok e m0 (\<lambda>c. plain c \<and> stsw_ok V c) (?c2, ?uc)" using g2 by (simp add: pass_inv_def)
  have "nop (nodes ?c2 ! nat k) = nop (nodes c ! nat k)" using f(3,4) keep(4) by (simp add: nth_list_update nat_eq_iff)
  then have "pass_inv M ok e m0 (\<lambda>c. plain c \<and> stsw_ok V c) (if ?uc ! nat k = 0 then kill k ?c2 else ?c2, ?uc)"
    using f(3,4,5) ok_none by (intro orphan_inv [OF p]) simp_all
  then show ?thesis unfolding fold_to_redirect Let_def by simp
qed

lemma single_reader:
  assumes "counts c uc" "i < num_nodes c" "k < num_nodes c" "uc ! k = 1" "1 \<le> reads (nodes c ! i) (int k)"
  shows "reads (nodes c ! i) (int k) = 1" "\<And>j. j < num_nodes c \<Longrightarrow> j \<noteq> i \<Longrightarrow> reads (nodes c ! j) (int k) = 0" "int k \<notin> set (slot_val c)"
proof -
  have "uses c k \<le> 1" using assms(1,3,4) by (simp add: counts_def) (metis)
  then show "reads (nodes c ! i) (int k) = 1" using reads_le_uses [OF assms(2), of k] assms(5) by linarith
  have z: "uses (kill (int i) c) k \<le> 0" using \<open>uses c k \<le> 1\<close> assms(2,5) by (simp add: uses_kill node_def)
  show "reads (nodes c ! j) (int k) = 0" if "j < num_nodes c" "j \<noteq> i" for j
    using uses_0_reads [OF z, of j] that by simp
  show "int k \<notin> set (slot_val c)" using uses_0_slots [OF z] by simp
qed

text \<open>Division by a power of two: the divisor, read only here, becomes its reciprocal.\<close>

lemma recip_agree:
  assumes "good M ok e m0 c" "plain c" "counts c uc" "i < num_nodes c" "\<not> is_dead (nodes c ! i)" "nop (nodes c ! i) = FDiv"
    and "in1 (nodes c ! i) = int k" "nop (nodes c ! k) = ConstF64" "\<not> is_dead (nodes c ! k)" "npayload (nodes c ! k) = PImm w"
    and "uc ! k = 1" "recip_bits None w = Some r"
    and ns: "ns = ((nodes c)[k := (nodes c ! k)\<lparr>npayload := PImm r\<rparr>])[i := (nodes c ! i)\<lparr>nop := FMul\<rparr>]"
  shows "agree {k} (exec M e (nodes c)) (exec M e ns)" "x_vals (exec M e ns) ! k = K r"
proof -
  let ?n = "nodes c ! i" and ?k = "nodes c ! k"
  have s: "ssa c" using assms(1) by (simp add: good_def)
  have lt: "v < int i" if "v \<in> {in0 ?n, in1 ?n, in2 ?n}" for v
    using ssa_node [OF s assms(4,5) _ that] assms(6) by simp
  have ki: "k < i" using lt [of "in1 ?n"] assms(7) by simp
  have kn: "k < num_nodes c" using ki assms(4) by simp
  have rd: "1 \<le> reads ?n (int k)" using assms(5,7) by (simp add: reads_def)
  note single = single_reader [OF assms(3,4) kn assms(11) rd]
  have ins: "in0 ?n \<noteq> int k" "in2 ?n \<noteq> int k" using single(1) assms(5,7) by (auto simp: reads_def of_bool_def split: if_splits)
  have len: "length ns = length (nodes c)" by (simp add: ns)
  have kin: "list_all (\<lambda>v. v < int k) [in0 ?k, in1 ?k, in2 ?k]" using ssa_node [OF s kn assms(9)] assms(8) by simp
  have f32: "\<not> is_f32 ?n" "\<not> is_f32 ?k" using plain_nth [OF assms(2)] assms(4) kn by auto
  have nk: "ns ! k = ?k\<lparr>npayload := PImm r\<rparr>" "ns ! i = ?n\<lparr>nop := FMul\<rparr>" using ki kn assms(4) by (simp_all add: ns)
  have kse: "\<not> side_effect ConstF64" "\<not> side_effect FMul" "\<not> side_effect FDiv" by (simp_all add: side_effect_def)
  have kv: "x_vals (exec M e (nodes c)) ! k = K w" "x_vals (exec M e ns) ! k = K r"
    using exec_val [OF kn kin, of M e] exec_val [of k ns M e] kin nk kn assms(8,9,10) f32 kse len
    by (simp_all add: val_of_def const_f64)
  show "x_vals (exec M e ns) ! k = K r" by (rule kv(2))
  show "agree {k} (exec M e (nodes c)) (exec M e ns)"
  proof (rule exec_agree)
    fix j let ?s = "exec M e (take j (nodes c))" and ?t = "exec M e (take j ns)"
    assume j: "j < length (nodes c)" "agree {k} ?s ?t"
    show "agree {k} (step M (nodes c ! j) ?s) (step M (ns ! j) ?t)"
    proof (cases "j = k")
      case True
      then show ?thesis using j nk assms(8) kse by (intro step_value) simp_all
    next
      case jk: False
      show ?thesis
      proof (cases "j = i")
        case True
        have "inp M (x_vals ?s) v = inp M (x_vals ?t) v" if "v \<in> {in0 ?n, in2 ?n}" for v
          using that ins lt [of v] j by (intro agree_inp [OF j(2)]) (auto simp: True nat_eq_iff)
        moreover have "inp M (x_vals ?s) (int k) = K w" "inp M (x_vals ?t) (int k) = K r"
          using kv ki True len j by (simp_all add: inp_def exec_vals_take)
        ultimately have "val_of M (x_ext ?s) ?n (x_vals ?s) = val_of M (x_ext ?t) (?n\<lparr>nop := FMul\<rparr>) (x_vals ?t)"
          using assms(5,6,7,12) f32 kse j(2) by (simp add: val_of_def div_recip agree_def)
        then show ?thesis using j assms(6) nk True kse by (intro step_value) simp_all
      next
        case False
        have "off {k} j (nodes c ! j)"
          using single(2) [OF j(1) False] ssa_node [OF s j(1)] by (auto simp: off_def reads_0)
        then show ?thesis using j False jk by (auto simp: ns intro: step_same)
      qed
    qed
  qed (simp add: len)
qed

lemma const_arith_div_inv:
  assumes "pass_inv M ok e m0 (\<lambda>c. plain c \<and> stsw_ok V c) (c, uc)" "i < num_nodes c" "\<not> is_dead (nodes c ! i)" "nop (nodes c ! i) = FDiv"
    and "recip_bits cfg = recip_bits None"
  shows "pass_inv M ok e m0 (\<lambda>c. plain c \<and> stsw_ok V c) (const_arith_div cfg i (c, uc))"
proof (cases "const_arith_div cfg i (c, uc) = (c, uc)")
  case False
  let ?n = "nodes c ! i" and ?k = "nat (in1 (nodes c ! i))"
  have g: "good M ok e m0 c" "plain c" "stsw_ok V c" "counts c uc" using assms(1) by (auto simp: pass_inv_def)
  obtain w r where k: "0 \<le> in1 ?n" "?k < num_nodes c" "nop (nodes c ! ?k) = ConstF64" "\<not> is_dead (nodes c ! ?k)" "uc ! ?k = 1"
      "npayload (nodes c ! ?k) = PImm w" "recip_bits None w = Some r"
    and d: "const_arith_div cfg i (c, uc) =
      (update_node (int i) (\<lambda>n. n\<lparr>nop := FMul\<rparr>) (update_node (in1 ?n) (\<lambda>n. n\<lparr>npayload := PImm r\<rparr>) c), uc)"
    using False unfolding const_arith_div_def assms(5)
    by (auto simp: Let_def node_def in_table_def nat_less_iff split: if_splits NodePayload.splits option.splits)
  define c1 where "c1 = c\<lparr>nodes := (nodes c)[?k := (nodes c ! ?k)\<lparr>npayload := PImm r\<rparr>]\<rparr>"
  define c2 where "c2 = c1\<lparr>nodes := (nodes c1)[i := ?n\<lparr>nop := FMul\<rparr>]\<rparr>"
  have ki: "?k \<noteq> i" using k(3) assms(4) by auto
  have c2: "const_arith_div cfg i (c, uc) = (c2, uc)"
    unfolding d c2_def c1_def update_node_eq using ki by simp
  have s: "ssa c" using g(1) by (simp add: good_def)
  have k': "in1 ?n = int ?k" using k(1) by simp
  have nodes: "nodes c2 = ((nodes c)[?k := (nodes c ! ?k)\<lparr>npayload := PImm r\<rparr>])[i := ?n\<lparr>nop := FMul\<rparr>]"
    by (simp add: c2_def c1_def)
  note a = recip_agree [OF g(1,2,4) assms(2-4) k' k(3,4,6,5,7) nodes]
  have ni: "node_inv c j (nodes c ! j)" if "j < num_nodes c" for j using s that by (simp add: ssa_def)
  have s1: "ssa c1" unfolding c1_def using s k ni [of ?k] by (intro ssa_update) (simp_all add: node_inv_def)
  have "node_inv c1 i (nodes c1 ! i)" using s1 assms(2) by (simp add: ssa_def c1_def)
  then have s2: "ssa c2" unfolding c2_def using s1 assms(2-4) ki
    by (intro ssa_update) (simp_all add: node_inv_def c1_def side_effect_def)
  have rd: "1 \<le> reads ?n (int ?k)" using assms(3) k' by (simp add: reads_def)
  have sl: "int ?k \<notin> set (slot_val c)" by (rule single_reader(3) [OF g(4) assms(2) k(2,5) rd])
  have "uses c2 j = uses c j" for j
    using k(2) assms(2) ki by (simp add: uses_def nodes sum_list_upd) (simp add: c2_def c1_def reads_def)
  then have cn: "counts c2 uc" using g(4) by (simp add: counts_def nodes)
  have "x_vals (exec M e (nodes c2)) ! j = (if j = ?k then K r else x_vals (exec M e (nodes c)) ! j)" if "j < num_nodes c" for j
    using a that by (auto simp: agree_def)
  then have okv: "list_all ok (x_vals (exec M e (nodes c2)))"
    using g(1) ok_recip [OF k(7)] by (simp add: good_def list_all_length nodes)
  have "meaning M e c2 = meaning M e c"
    by (rule meaning_agree [OF a(1)]) (use s sl in \<open>simp_all add: c2_def c1_def\<close>)
  moreover have "\<forall>n \<in> set (nodes c2). \<not> is_fused n" "plain c2"
    using g(1,2) assms(2) k(2) unfolding nodes plain_def good_def
    by (auto simp: all_set_conv_all_nth nth_list_update)
  moreover have "stsw_ok V c2" unfolding c2_def c1_def using g(3) k assms(2,4) ki
    by (intro stsw_ok_update) (simp_all add: arith_op_def cc_node_def sets_cc_def)
  ultimately show ?thesis using g(1) s2 okv cn unfolding c2 by (simp add: pass_inv_def good_def)
qed (use assms in simp)

end

end
