(* ===== verification/IROptPasses.thy ===== *)
theory IROptPasses
  imports IROptCorrect
begin

text \<open>
  The passes as a whole: each pass that the laws of \<open>rewrite_laws\<close> cover keeps the meaning of the
  program, bit for bit; with the laws of exact arithmetic (\<open>ideal_laws\<close>) so do multiply-add fusion
  and the single-precision passes.
\<close>

section \<open>Replacing a node that absorbs another one\<close>

lemma absorb_inv:
  assumes p: "pass_inv M ok e m0 P (c, uc)" and P: "stable P" "P (c\<lparr>nodes := (nodes c)[i := m]\<rparr>)" and ok: "ok (m_none M)"
    and i: "i < num_nodes c" "\<not> is_dead (nodes c ! i)" "\<not> side_effect (nop (nodes c ! i))"
    and m: "\<not> is_dead m" "\<not> is_fused m" "\<not> side_effect (nop m)" "list_all (\<lambda>v. v < int i \<and> readable c v) [in0 m, in1 m, in2 m]"
      "\<And>e'. val_of M e' m (x_vals (exec M e (nodes c))) = val_of M e' (nodes c ! i) (x_vals (exec M e (nodes c)))"
    and b: "b < num_nodes c" "b \<noteq> i" "uc ! b = 1" "\<not> side_effect (nop (nodes c ! b))" "1 \<le> reads (nodes c ! i) (int b)" "reads m (int b) = 0"
    and uc': "length uc' = length uc" "0 \<le> uc' ! b"
      "\<And>j. j < num_nodes c \<Longrightarrow> j \<noteq> b \<Longrightarrow>
         uc ! j + reads m (int j) \<le> uc' ! j + reads (nodes c ! i) (int j) + reads (nodes c ! b) (int j)"
  shows "pass_inv M ok e m0 P (kill (int b) (c\<lparr>nodes := (nodes c)[i := m]\<rparr>), uc')"
proof -
  let ?c = "c\<lparr>nodes := (nodes c)[i := m]\<rparr>"
  have g: "good M ok e m0 c" "counts c uc" using p by (auto simp: pass_inv_def)
  have g1: "good M ok e m0 ?c" using good_value [OF g(1) i(1) m(1,2) i(2) m(3) i(3) m(4,5)] .
  have u: "uses ?c j = uses c j - reads (nodes c ! i) (int j) + reads m (int j)" for j
    using i(1) by (simp add: uses_def sum_list_upd)
  have le: "uses c j \<le> uc ! j" if "j < num_nodes c" for j using g(2) that by (simp add: counts_def)
  have ub: "uses ?c b \<le> 0" using le [OF b(1)] b(3,5,6) u [of b] by linarith
  have g2: "good M ok e m0 (kill (int b) ?c)" using g1 ub b ok by (intro good_kill) simp_all
  have "uses (kill (int b) ?c) j \<le> uc' ! j" if j: "j < num_nodes c" for j
  proof -
    note reads_nonneg [simp del]
    have "uses (kill (int b) ?c) j = uses ?c j - reads (nodes c ! b) (int j)" using b(1,2) by (simp add: uses_kill node_def)
    then show ?thesis
      using uc'(2) ub uc'(3) [OF j] le [OF j] u [of j] reads_nonneg [of "nodes c ! b" "int j"] by (cases "j = b") auto
  qed
  then have "counts (kill (int b) ?c) uc'" using g(2) uc'(1) by (simp add: counts_def)
  moreover have "P (kill (int b) ?c)" using P b by (auto simp: stable_def)
  ultimately show ?thesis using g2 by (simp add: pass_inv_def)
qed

section \<open>Constant arithmetic, dead values, negations\<close>

lemma dse_step_inv:
  assumes "pass_inv M ok e m0 P (c, uc)" "stable P" "ok (m_none M)" "i < num_nodes c"
  shows "pass_inv M ok e m0 P (dse_step i (c, uc))"
proof (cases "\<not> is_dead (nodes c ! i) \<and> \<not> side_effect (nop (nodes c ! i)) \<and> uc ! i = 0")
  case True
  have g: "good M ok e m0 c" "counts c uc" "P c" using assms(1) by (auto simp: pass_inv_def)
  have le: "uses c j \<le> uc ! j" if "j < num_nodes c" for j using g(2) that by (simp add: counts_def)
  have "good M ok e m0 (kill (int i) c)" using g le [OF assms(4)] True assms(3,4) by (intro good_kill) simp_all
  moreover have "counts (kill (int i) c) (count_inputs (- 1) (nodes c ! i) uc)"
    using g(2) True assms(4) by (auto simp: counts_def uses_kill count_inputs_nth node_def)
  moreover have "P (kill (int i) c)" using g(3) assms(2,4) True by (simp add: stable_def)
  ultimately show ?thesis using True by (simp add: dse_step_def pass_inv_def node_def)
qed (use assms in \<open>auto simp: dse_step_def node_def Let_def\<close>)

lemma dse_step_num [simp]: "num_nodes (fst (dse_step i st1)) = num_nodes (fst st1)"
  by (simp add: dse_step_def Let_def split_beta)

lemma pass_dse_good:
  assumes "good M ok e m0 c" "P c" "stable P" "ok (m_none M)"
  shows "good M ok e m0 (pass_dse c) \<and> P (pass_dse c)"
proof -
  let ?is = "rev [0..<num_nodes c]"
  have step: "pass_inv M ok e m0 P (dse_step i st1)" if "i \<in> set ?is" "num_nodes (fst st1) = num_nodes c" "pass_inv M ok e m0 P st1" for i st1
    using dse_step_inv [of M ok e m0 P "fst st1" "snd st1" i] that assms by simp
  have num: "num_nodes (fst (fold dse_step is st1)) = num_nodes (fst st1)" for "is" st1
    by (induction "is" arbitrary: st1) simp_all
  have "pass_inv M ok e m0 P (c, count_uses c)" using assms by (intro pass_inv_start) auto
  then have "pass_inv M ok e m0 P (fold dse_step ?is (c, count_uses c))"
    by (rule pass_inv_fold [where N = "num_nodes c"]) (use step in auto)
  then have "pass_inv M ok e m0 P (fold dse_step ?is (fold dse_step ?is (c, count_uses c)))"
    by (rule pass_inv_fold [where N = "num_nodes c"]) (use step num in auto)
  then show ?thesis by (simp add: pass_dse_def pass_inv_def)
qed

context rewrite_laws
begin

lemma const_arith_cmp_inv:
  assumes "pass_inv M ok e m0 (\<lambda>c. plain c \<and> stsw_ok V c) (c, uc)" "i < num_nodes c" "\<not> is_dead (nodes c ! i)" "nop (nodes c ! i) = FCmp"
  shows "pass_inv M ok e m0 (\<lambda>c. plain c \<and> stsw_ok V c) (const_arith_cmp i (c, uc))"
proof (cases "const_arith_cmp i (c, uc) = (c, uc)")
  case False
  let ?n = "nodes c ! i" and ?k = "nat (in1 (nodes c ! i))" and ?m = "(nodes c ! i)\<lparr>nop := FTst, in1 := -1\<rparr>"
  let ?c = "c\<lparr>nodes := (nodes c)[i := ?m]\<rparr>" and ?uc = "bump (in1 (nodes c ! i)) (- 1) uc"
  have g: "good M ok e m0 c" "plain c" "stsw_ok V c" "counts c uc" using assms(1) by (auto simp: pass_inv_def)
  have s: "ssa c" using g(1) by (simp add: good_def)
  obtain w where k: "0 \<le> in1 ?n" "?k < num_nodes c" "\<not> is_dead (nodes c ! ?k)" "push_bit 1 w = 0"
      "nop (nodes c ! ?k) = ConstZero \<and> w = 0 \<or> nop (nodes c ! ?k) = ConstF64 \<and> npayload (nodes c ! ?k) = PImm w"
    and d: "const_arith_cmp i (c, uc) = (if ?uc ! ?k = 0 then kill (in1 ?n) ?c else ?c, ?uc)"
    using False unfolding const_arith_cmp_def
    by (auto simp: Let_def node_def in_table_def nat_less_iff update_node_eq split: if_splits NodePayload.splits)
  have kse: "\<not> side_effect (nop (nodes c ! ?k))" using k(5) by (auto simp: side_effect_def)
  have lt: "v < int i \<and> readable c v" if "v \<in> {in0 ?n, in1 ?n, in2 ?n}" for v
    using ssa_node [OF s assms(2,3) _ that] assms(4) by simp
  obtain e' where kv: "x_vals (exec M e (nodes c)) ! ?k = m_value M e' (nop (nodes c ! ?k)) False (npayload (nodes c ! ?k))
     (inp M (x_vals (exec M e (nodes c))) (in0 (nodes c ! ?k))) (inp M (x_vals (exec M e (nodes c))) (in1 (nodes c ! ?k)))
     (inp M (x_vals (exec M e (nodes c))) (in2 (nodes c ! ?k)))"
    using live_val [OF g(1,2) k(2,3) kse] by blast
  have "?k < i" using lt [of "in1 ?n"] k(1) by (simp add: nat_less_iff)
  then have "inp M (x_vals (exec M e (take i (nodes c)))) (in1 ?n) = K w"
    using kv k(1,5) assms(2) by (auto simp: inp_def exec_vals_take const_zero const_f64)
  then have "step M ?m (exec M e (take i (nodes c))) = step M ?n (exec M e (take i (nodes c)))"
    using assms(3,4) k(4) by (simp add: step_def effect_def val_of_def cmp_of_def side_effect_def sets_cc_def order_zero)
  moreover have "\<not> is_fused ?n" using g(1) assms(2) by (simp add: good_def)
  moreover have "list_all (\<lambda>v. v < int i \<and> readable c v) [in0 ?m, in1 ?m, in2 ?m]"
    using lt [of "in0 ?n"] lt [of "in2 ?n"] by (simp add: readable_def)
  ultimately have "good M ok e m0 ?c" using g(1) assms(2-4) by (intro good_replace) (simp_all add: side_effect_def)
  moreover have "uses ?c j \<le> ?uc ! j" if j: "j < num_nodes c" for j
    using g(4) j assms(2,3) k(1) by (auto simp: uses_def sum_list_upd counts_def nth_bump reads_def dest!: spec [of _ j])
  then have "counts ?c ?uc" using g(4) by (simp add: counts_def)
  moreover have "plain ?c" "stsw_ok V ?c" using g(2,3) assms(2) plain_nth [OF g(2) assms(2)]
    using assms(3,4) by (auto intro!: plain_update stsw_ok_update simp: arith_op_def cc_node_def sets_cc_def)
  ultimately have "pass_inv M ok e m0 (\<lambda>c. plain c \<and> stsw_ok V c) (?c, ?uc)" by (simp add: pass_inv_def)
  then show ?thesis unfolding d using k(1,2) kse ok_none \<open>?k < i\<close> by (intro orphan_inv) simp_all
qed (use assms in simp)

lemma const_arith_step_inv:
  assumes "pass_inv M ok e m0 (\<lambda>c. plain c \<and> stsw_ok V c) st1" "i < num_nodes (fst st1)" "recip_bits cfg = recip_bits None"
  shows "pass_inv M ok e m0 (\<lambda>c. plain c \<and> stsw_ok V c) (const_arith_step cfg i st1)"
proof (cases "is_dead (nodes (fst st1) ! i)")
  case False
  obtain c uc where st: "st1 = (c, uc)" by (cases st1)
  have n: "node (fst st1) (int i) = nodes c ! i" by (simp add: st node_def)
  note div = const_arith_div_inv [OF assms(1) [unfolded st] _ _ _ assms(3), of i]
  note cmp = const_arith_cmp_inv [OF assms(1) [unfolded st], of i]
  note fld = fold_to_inv [OF assms(1) [unfolded st], of i]
  show ?thesis using False assms(1,2) div cmp fld unfolding const_arith_step_def Let_def n
    by (auto simp: st split: option.splits)
qed (use assms in \<open>simp add: const_arith_step_def node_def\<close>)

lemma const_arith_step_num [simp]: "num_nodes (fst (const_arith_step cfg i st1)) = num_nodes (fst st1)"
  unfolding const_arith_step_def const_arith_div_def const_arith_cmp_def
  by (cases st1) (simp add: fold_to_redirect Let_def split: option.split NodePayload.split prod.split)

lemma pass_const_arith_good:
  assumes "good M ok e m0 c" "plain c" "stsw_ok V c" "recip_bits cfg = recip_bits None"
  shows "good M ok e m0 (pass_const_arith cfg c) \<and> plain (pass_const_arith cfg c) \<and> stsw_ok V (pass_const_arith cfg c)"
proof -
  have "pass_inv M ok e m0 (\<lambda>c. plain c \<and> stsw_ok V c) (fold (const_arith_step cfg) [0..<num_nodes c] (c, count_uses c))"
    by (rule pass_inv_fold [where N = "num_nodes c"]) (use assms in \<open>auto intro: pass_inv_start const_arith_step_inv\<close>)
  then show ?thesis by (simp add: pass_const_arith_def pass_inv_def)
qed

text \<open>A negation read once: its reader takes the operand and changes its own operation.\<close>

lemma single_use_opD:
  assumes "good M ok e m0 c" "plain c" "counts c uc" "single_use_op (c, uc) v k" "\<not> side_effect k"
    and "i < num_nodes c" "\<not> is_dead (nodes c ! i)" "nop (nodes c ! i) \<noteq> FStsw" "v \<in> {in0 (nodes c ! i), in1 (nodes c ! i)}"
  obtains b e' where "v = int b" "b < i" "b < num_nodes c" "uc ! b = 1" "nop (nodes c ! b) = k" "\<not> is_dead (nodes c ! b)"
    "list_all (\<lambda>v. v < int b \<and> readable c v) [in0 (nodes c ! b), in1 (nodes c ! b), in2 (nodes c ! b)]"
    "reads (nodes c ! i) (int b) = 1"
    "inp M (x_vals (exec M e (nodes c))) v = m_value M e' k False (npayload (nodes c ! b)) (inp M (x_vals (exec M e (nodes c))) (in0 (nodes c ! b)))
       (inp M (x_vals (exec M e (nodes c))) (in1 (nodes c ! b))) (inp M (x_vals (exec M e (nodes c))) (in2 (nodes c ! b)))"
proof -
  have s: "ssa c" using assms(1) by (simp add: good_def)
  define b where "b = nat v"
  have b: "v = int b" "b < num_nodes c" "nop (nodes c ! b) = k" "\<not> is_dead (nodes c ! b)" "uc ! b = 1"
    using assms(4) by (auto simp: single_use_op_def in_table_def node_def b_def)
  have "b < i" using ssa_node [OF s assms(6-8), of v] assms(9) b(1) by auto
  have rd: "reads (nodes c ! i) (int b) = 1"
    using assms(7,9) b(1) by (intro single_reader(1) [OF assms(3,6) b(2,5)]) (auto simp: reads_def)
  have "list_all (\<lambda>v. v < int b \<and> readable c v) [in0 (nodes c ! b), in1 (nodes c ! b), in2 (nodes c ! b)]"
    using ssa_node [OF s b(2,4)] pure_not_stsw [OF assms(5)] b(3) by simp
  moreover obtain e' where "x_vals (exec M e (nodes c)) ! b = m_value M e' k False (npayload (nodes c ! b)) (inp M (x_vals (exec M e (nodes c))) (in0 (nodes c ! b)))
       (inp M (x_vals (exec M e (nodes c))) (in1 (nodes c ! b))) (inp M (x_vals (exec M e (nodes c))) (in2 (nodes c ! b)))"
    using live_val [OF assms(1,2) b(2,4)] assms(5) b(3) by auto
  ultimately show ?thesis using that [of b e'] b rd \<open>b < i\<close> by (simp add: inp_def)
qed

lemma absorb_neg:
  assumes "pass_inv M ok e m0 (\<lambda>c. plain c \<and> stsw_ok V c) (c, uc)" "i < num_nodes c" "\<not> is_dead (nodes c ! i)" "arith_op (nop (nodes c ! i))"
    and "single_use_op (c, uc) v k" "\<not> side_effect k" "v \<in> {in0 (nodes c ! i), in1 (nodes c ! i)}"
    and "arith_op (nop m)" "nflags m = nflags (nodes c ! i)" "in2 m = in2 (nodes c ! i)"
    and "{in0 m, in1 m} \<subseteq> {in0 (nodes c ! i), in1 (nodes c ! i)} - {v} \<union> {in0 (nodes c ! nat v), in1 (nodes c ! nat v)}"
    and "\<And>e'. val_of M e' m (x_vals (exec M e (nodes c))) = val_of M e' (nodes c ! i) (x_vals (exec M e (nodes c)))"
    and "length uc' = length uc" "0 \<le> uc' ! nat v"
    and uc: "\<And>j. j < num_nodes c \<Longrightarrow> int j \<noteq> v \<Longrightarrow> uc ! j + reads m (int j) \<le> uc' ! j + reads (nodes c ! i) (int j)"
  shows "pass_inv M ok e m0 (\<lambda>c. plain c \<and> stsw_ok V c) (kill v (c\<lparr>nodes := (nodes c)[i := m]\<rparr>), uc')"
proof -
  let ?n = "nodes c ! i"
  have g: "good M ok e m0 c" "plain c" "stsw_ok V c" "counts c uc" using assms(1) by (auto simp: pass_inv_def)
  have n: "nop ?n \<noteq> FStsw" "\<not> side_effect (nop ?n)" using arith_pure [OF assms(4)] by simp_all
  have s: "ssa c" using g(1) by (simp add: good_def)
  obtain b e' where b: "v = int b" "b < i" "b < num_nodes c" "uc ! b = 1" "nop (nodes c ! b) = k"
    "list_all (\<lambda>v. v < int b \<and> readable c v) [in0 (nodes c ! b), in1 (nodes c ! b), in2 (nodes c ! b)]" "reads ?n (int b) = 1"
    by (rule single_use_opD [OF g(1,2,4) assms(5,6,2,3) n(1) assms(7)]) blast
  have lt: "w < int i \<and> readable c w" if "w \<in> {in0 ?n, in1 ?n, in2 ?n}" for w
    using ssa_node [OF s assms(2,3) n(1) that] .
  have "in2 ?n \<noteq> int b" using b(1,7) assms(3,7) by (auto simp: reads_def of_bool_def split: if_splits)
  then have "reads m (int b) = 0" using b(1,6) assms(10,11) by (auto simp: reads_0)
  moreover have "list_all (\<lambda>v. v < int i \<and> readable c v) [in0 m, in1 m, in2 m]"
    using lt b(1,2,6) assms(10,11) by fastforce
  moreover have "plain (c\<lparr>nodes := (nodes c)[i := m]\<rparr>)" "stsw_ok V (c\<lparr>nodes := (nodes c)[i := m]\<rparr>)"
    using g(2,3) plain_nth [OF g(2) assms(2)] assms(2,4,8,9) arith_pure [OF assms(8)]
    using n(2) by (auto intro!: plain_update stsw_ok_update simp: is_f32_def cc_node_pure)
  moreover have "\<not> is_fused ?n" using g(1) assms(2) by (simp add: good_def)
  moreover have "uc ! j + reads m (int j) \<le> uc' ! j + reads ?n (int j) + reads (nodes c ! b) (int j)" if "j < num_nodes c" "j \<noteq> b" for j
    using uc [OF that(1)] that(2) b(1) reads_nonneg [of "nodes c ! b" "int j"] by linarith
  ultimately show ?thesis unfolding b(1)
    using assms(1-14) b n arith_pure [OF assms(8)] ok_none
    by (intro absorb_inv) (simp_all add: is_dead_def is_fused_def)
qed

lemma arith_val:
  assumes "plain c" "i < num_nodes c" "\<not> is_dead (nodes c ! i)" "arith_op (nop m)" "nflags m = nflags (nodes c ! i)"
  shows "val_of M e' m vs = m_value M e' (nop m) False (npayload m) (inp M vs (in0 m)) (inp M vs (in1 m)) (inp M vs (in2 m))"
  using assms plain_nth [OF assms(1,2)] arith_pure [OF assms(4)] by (simp add: val_of_def is_dead_def is_f32_def)

lemma arith_ok:
  assumes "good M ok e m0 c" "i < num_nodes c" "\<not> is_dead (nodes c ! i)" "arith_op (nop (nodes c ! i))" "w \<in> {in0 (nodes c ! i), in1 (nodes c ! i)}"
  shows "ok (inp M (x_vals (exec M e (nodes c))) w)"
  using ssa_node [OF _ assms(2,3), of w] arith_pure [OF assms(4)] assms by (intro ok_val [OF assms(1)]) (auto simp: good_def)

lemma operand_val:
  assumes "good M ok e m0 c" "plain c" "counts c uc" "i < num_nodes c" "\<not> is_dead (nodes c ! i)" "arith_op (nop (nodes c ! i))"
    and "single_use_op (c, uc) w k" "\<not> side_effect k" "w \<in> {in0 (nodes c ! i), in1 (nodes c ! i)}"
  obtains e' p' z where
    "inp M (x_vals (exec M e (nodes c))) w = m_value M e' k False p' (inp M (x_vals (exec M e (nodes c))) (in0 (nodes c ! nat w)))
       (inp M (x_vals (exec M e (nodes c))) (in1 (nodes c ! nat w))) z"
    "ok (inp M (x_vals (exec M e (nodes c))) (in0 (nodes c ! nat w)))" "0 \<le> w" "nat w < num_nodes c"
    "in0 (nodes c ! nat w) \<noteq> w" "reads (nodes c ! i) w = 1" "num_nodes c \<le> length uc"
proof -
  obtain b e' where b: "w = int b" "b < num_nodes c" "list_all (\<lambda>v. v < int b \<and> readable c v) [in0 (nodes c ! b), in1 (nodes c ! b), in2 (nodes c ! b)]"
    "reads (nodes c ! i) (int b) = 1"
    "inp M (x_vals (exec M e (nodes c))) w = m_value M e' k False (npayload (nodes c ! b)) (inp M (x_vals (exec M e (nodes c))) (in0 (nodes c ! b)))
       (inp M (x_vals (exec M e (nodes c))) (in1 (nodes c ! b))) (inp M (x_vals (exec M e (nodes c))) (in2 (nodes c ! b)))"
    using single_use_opD [OF assms(1-3,7,8,4,5) _ assms(9)] arith_pure [OF assms(6)] by blast
  moreover have "ok (inp M (x_vals (exec M e (nodes c))) (in0 (nodes c ! b)))" using b by (intro ok_val [OF assms(1)]) simp
  ultimately show ?thesis using that assms(3) by (auto simp: counts_def)
qed

lemma fneg_right:
  assumes p: "pass_inv M ok e m0 (\<lambda>c. plain c \<and> stsw_ok V c) (c, uc)" and i: "i < num_nodes c" "\<not> is_dead (nodes c ! i)"
    and n: "n = nodes c ! i" "nop n = FAdd \<or> nop n = FSub" "single_use_op (c, uc) (in1 n) FNeg" "x = in0 (nodes c ! nat (in1 n))"
  shows "pass_inv M ok e m0 (\<lambda>c. plain c \<and> stsw_ok V c)
    (kill (in1 n) (c\<lparr>nodes := (nodes c)[i := n\<lparr>nop := (if nop n = FAdd then FSub else FAdd), in1 := x\<rparr>]\<rparr>), bump x 1 (uc[nat (in1 n) := 0]))"
proof -
  let ?m = "n\<lparr>nop := (if nop n = FAdd then FSub else FAdd), in1 := x\<rparr>"
  have g: "good M ok e m0 c" "plain c" "counts c uc" using p by (auto simp: pass_inv_def)
  have ar: "arith_op (nop (nodes c ! i))" "arith_op (nop ?m)" "\<not> side_effect FNeg" using n(1,2) by (auto simp: arith_op_def side_effect_def)
  have w: "in1 n \<in> {in0 (nodes c ! i), in1 (nodes c ! i)}" by (simp add: n)
  obtain e' p' z where o: "inp M (x_vals (exec M e (nodes c))) (in1 n) = m_value M e' FNeg False p' (inp M (x_vals (exec M e (nodes c))) x)
       (inp M (x_vals (exec M e (nodes c))) (in1 (nodes c ! nat (in1 n)))) z"
    "ok (inp M (x_vals (exec M e (nodes c))) x)" "0 \<le> in1 n" "nat (in1 n) < num_nodes c" "x \<noteq> in1 n" "reads n (in1 n) = 1" "num_nodes c \<le> length uc"
    by (rule operand_val [OF g i ar(1) n(3) ar(3) w]) (simp add: n)
  have in0: "in0 n \<noteq> in1 n" using o(6) i(2) n(1) by (auto simp: reads_def of_bool_def split: if_splits)
  have okv: "ok (inp M (x_vals (exec M e (nodes c))) (in0 n))" using arith_ok [OF g(1) i ar(1), of "in0 n"] by (simp add: n)
  have fl: "nflags ?m = nflags (nodes c ! i)" by (simp add: n)
  show ?thesis
  proof (rule absorb_neg [OF p i ar(1) n(3) ar(3) w ar(2)])
    show "val_of M e' ?m (x_vals (exec M e (nodes c))) = val_of M e' (nodes c ! i) (x_vals (exec M e (nodes c)))" for e'
      unfolding arith_val [OF g(2) i ar(2) fl] arith_val [OF g(2) i ar(1) refl]
      using n(1,2) okv o(1,2) by (auto simp: add_neg sub_neg)
    show "uc ! j + reads ?m (int j) \<le> bump x 1 (uc[nat (in1 n) := 0]) ! j + reads (nodes c ! i) (int j)" if "j < num_nodes c" "int j \<noteq> in1 n" for j
      using that o(3,7) n(1) by (auto simp: nth_bump reads_def nth_list_update)
    show "0 \<le> bump x 1 (uc[nat (in1 n) := 0]) ! nat (in1 n)" using o(3,4,7) by (simp add: nth_bump)
  qed (use n in0 in auto)
qed

lemma fneg_left:
  assumes p: "pass_inv M ok e m0 (\<lambda>c. plain c \<and> stsw_ok V c) (c, uc)" and i: "i < num_nodes c" "\<not> is_dead (nodes c ! i)"
    and n: "n = nodes c ! i" "nop n = FAdd" "single_use_op (c, uc) (in0 n) FNeg" "x = in0 (nodes c ! nat (in0 n))"
  shows "pass_inv M ok e m0 (\<lambda>c. plain c \<and> stsw_ok V c)
    (kill (in0 n) (c\<lparr>nodes := (nodes c)[i := n\<lparr>nop := FSub, in0 := in1 n, in1 := x\<rparr>]\<rparr>), bump x 1 (uc[nat (in0 n) := 0]))"
proof -
  let ?m = "n\<lparr>nop := FSub, in0 := in1 n, in1 := x\<rparr>"
  have g: "good M ok e m0 c" "plain c" "counts c uc" using p by (auto simp: pass_inv_def)
  have ar: "arith_op (nop (nodes c ! i))" "arith_op (nop ?m)" "\<not> side_effect FNeg" using n(1,2) by (auto simp: arith_op_def side_effect_def)
  have w: "in0 n \<in> {in0 (nodes c ! i), in1 (nodes c ! i)}" by (simp add: n)
  obtain e' p' z where o: "inp M (x_vals (exec M e (nodes c))) (in0 n) = m_value M e' FNeg False p' (inp M (x_vals (exec M e (nodes c))) x)
       (inp M (x_vals (exec M e (nodes c))) (in1 (nodes c ! nat (in0 n)))) z"
    "ok (inp M (x_vals (exec M e (nodes c))) x)" "0 \<le> in0 n" "nat (in0 n) < num_nodes c" "x \<noteq> in0 n" "reads n (in0 n) = 1" "num_nodes c \<le> length uc"
    by (rule operand_val [OF g i ar(1) n(3) ar(3) w]) (simp add: n)
  have in0: "in0 n \<noteq> in1 n" using o(6) i(2) n(1) by (auto simp: reads_def of_bool_def split: if_splits)
  have okv: "ok (inp M (x_vals (exec M e (nodes c))) (in1 n))" using arith_ok [OF g(1) i ar(1), of "in1 n"] by (simp add: n)
  have fl: "nflags ?m = nflags (nodes c ! i)" by (simp add: n)
  show ?thesis
  proof (rule absorb_neg [OF p i ar(1) n(3) ar(3) w ar(2)])
    show "val_of M e' ?m (x_vals (exec M e (nodes c))) = val_of M e' (nodes c ! i) (x_vals (exec M e (nodes c)))" for e'
      unfolding arith_val [OF g(2) i ar(2) fl] arith_val [OF g(2) i ar(1) refl]
      using n(1,2) okv o(1,2) by (auto simp: neg_add)
    show "uc ! j + reads ?m (int j) \<le> bump x 1 (uc[nat (in0 n) := 0]) ! j + reads (nodes c ! i) (int j)" if "j < num_nodes c" "int j \<noteq> in0 n" for j
      using that o(3,7) n(1) by (auto simp: nth_bump reads_def nth_list_update)
    show "0 \<le> bump x 1 (uc[nat (in0 n) := 0]) ! nat (in0 n)" using o(3,4,7) by (simp add: nth_bump)
  qed (use n in0 in auto)
qed

lemma fneg_mul:
  assumes p: "pass_inv M ok e m0 (\<lambda>c. plain c \<and> stsw_ok V c) (c, uc)" and i: "i < num_nodes c" "\<not> is_dead (nodes c ! i)"
    and n: "n = nodes c ! i" "nop n = FNeg" "single_use_op (c, uc) (in0 n) FMul" "x = in0 (nodes c ! nat (in0 n))" "y = in1 (nodes c ! nat (in0 n))"
  shows "pass_inv M ok e m0 (\<lambda>c. plain c \<and> stsw_ok V c)
    (kill (in0 n) (c\<lparr>nodes := (nodes c)[i := n\<lparr>nop := FNMul, in0 := x, in1 := y\<rparr>]\<rparr>), bump y 1 (bump x 1 (uc[nat (in0 n) := 0])))"
proof -
  let ?m = "n\<lparr>nop := FNMul, in0 := x, in1 := y\<rparr>"
  have g: "good M ok e m0 c" "plain c" "counts c uc" using p by (auto simp: pass_inv_def)
  have ar: "arith_op (nop (nodes c ! i))" "arith_op (nop ?m)" "\<not> side_effect FMul" using n(1,2) by (auto simp: arith_op_def side_effect_def)
  have w: "in0 n \<in> {in0 (nodes c ! i), in1 (nodes c ! i)}" by (simp add: n)
  obtain e' p' z where o: "inp M (x_vals (exec M e (nodes c))) (in0 n) = m_value M e' FMul False p' (inp M (x_vals (exec M e (nodes c))) x)
       (inp M (x_vals (exec M e (nodes c))) y) z" "0 \<le> in0 n" "nat (in0 n) < num_nodes c" "num_nodes c \<le> length uc"
    by (rule operand_val [OF g i ar(1) n(3) ar(3) w]) (simp add: n)
  have fl: "nflags ?m = nflags (nodes c ! i)" by (simp add: n)
  show ?thesis
  proof (rule absorb_neg [OF p i ar(1) n(3) ar(3) w ar(2)])
    show "val_of M e' ?m (x_vals (exec M e (nodes c))) = val_of M e' (nodes c ! i) (x_vals (exec M e (nodes c)))" for e'
      unfolding arith_val [OF g(2) i ar(2) fl] arith_val [OF g(2) i ar(1) refl] using n(1,2) o(1) by (simp add: neg_mul)
    show "uc ! j + reads ?m (int j) \<le> bump y 1 (bump x 1 (uc[nat (in0 n) := 0])) ! j + reads (nodes c ! i) (int j)"
      if "j < num_nodes c" "int j \<noteq> in0 n" for j
      using that o(2,4) n(1) by (auto simp: nth_bump reads_def nth_list_update)
    show "0 \<le> bump y 1 (bump x 1 (uc[nat (in0 n) := 0])) ! nat (in0 n)" using o(2,3,4) by (simp add: nth_bump)
  qed (use n in auto)
qed

lemma fneg_step_inv:
  assumes "pass_inv M ok e m0 (\<lambda>c. plain c \<and> stsw_ok V c) st1" "i < num_nodes (fst st1)"
  shows "pass_inv M ok e m0 (\<lambda>c. plain c \<and> stsw_ok V c) (fneg_step i st1)"
proof (cases "is_dead (nodes (fst st1) ! i)")
  case False
  obtain c uc where st: "st1 = (c, uc)" by (cases st1)
  note p = assms [unfolded st, simplified]
  have n: "node c (int i) = nodes c ! i" by (simp add: node_def)
  have d: "\<not> is_dead (nodes c ! i)" using False by (simp add: st)
  note R = fneg_right [OF p d refl _ _ refl] and L = fneg_left [OF p d refl _ _ refl] and N = fneg_mul [OF p d refl _ _ refl refl]
  show ?thesis unfolding st fneg_step_def Let_def prod.case n update_node_eq using d p(1) R L N
    by (cases "nop (nodes c ! i)") (simp_all add: node_def)
qed (use assms in \<open>simp add: fneg_step_def node_def split_beta\<close>)

lemma fneg_step_num [simp]: "num_nodes (fst (fneg_step i st1)) = num_nodes (fst st1)"
  by (cases st1) (simp add: fneg_step_def Let_def)

lemma pass_fneg_fold_good:
  assumes "good M ok e m0 c" "plain c" "stsw_ok V c"
  shows "good M ok e m0 (pass_fneg_fold c) \<and> plain (pass_fneg_fold c) \<and> stsw_ok V (pass_fneg_fold c)"
proof -
  have "pass_inv M ok e m0 (\<lambda>c. plain c \<and> stsw_ok V c) (fold fneg_step [0..<num_nodes c] (c, count_uses c))"
    by (rule pass_inv_fold [where N = "num_nodes c"]) (use assms in \<open>auto intro: pass_inv_start fneg_step_inv\<close>)
  then show ?thesis by (simp add: pass_fneg_fold_def pass_inv_def)
qed

end

section \<open>Dead compares\<close>

text \<open>Executions that agree up to condition codes nobody reads any more.\<close>

definition cc_agree :: "bool \<Rightarrow> ('v, 'e) xstate \<Rightarrow> ('v, 'e) xstate \<Rightarrow> bool" where
  "cc_agree overwritten s t \<longleftrightarrow> x_vals s = x_vals t \<and> x_ext s = x_ext t \<and> x_held s = x_held t \<and> (overwritten \<or> x_cc s = x_cc t)"

lemma cc_agree_step:
  assumes "cc_agree w s t" "\<not> is_fused n" "nop n \<noteq> FStsw" "\<not> sets_cc (nop n)"
  shows "cc_agree w (step M n s) (step M n t)"
  using assms by (auto simp: cc_agree_def step_def effect_def)

lemma cc_agree_stsw:
  assumes "cc_agree False s t"
  shows "cc_agree w (step M n s) (step M n t)"
  using assms by (auto simp: cc_agree_def step_def effect_def Let_def)

lemma cc_agree_cmp:
  assumes "cc_agree True s t" "\<not> is_fused n" "sets_cc (nop n)" "\<not> is_dead n"
  shows "cc_agree False (step M n s) (step M n t)" "cc_agree True (step M (set_dead n) s) (step M n t)"
  using assms by (auto simp: cc_agree_def step_def effect_def side_effect_def val_of_def sets_cc_def)

lemma cc_agree_weaken: "cc_agree False s t \<Longrightarrow> cc_agree w s t"
  by (simp add: cc_agree_def)

lemma dead_compares_agree:
  assumes "\<forall>n \<in> set ns. \<not> is_fused n"
  shows "cc_agree w (exec M e (rev (dead_compares w ns))) (exec M e (rev ns))"
  using assms
proof (induction ns arbitrary: w)
  case Nil
  then show ?case by (simp add: cc_agree_def)
next
  case (Cons n ns)
  have IH: "cc_agree u (exec M e (rev (dead_compares u ns))) (exec M e (rev ns))" for u using Cons by simp
  have f: "\<not> is_fused n" using Cons.prems by simp
  consider "is_dead n" | "\<not> is_dead n" "nop n = FStsw" | "\<not> is_dead n" "sets_cc (nop n)" "nop n \<noteq> FStsw"
    | "\<not> is_dead n" "\<not> sets_cc (nop n)" "nop n \<noteq> FStsw" by blast
  then show ?case
  proof cases
    case 1
    then show ?thesis using IH [of w] by (simp add: cc_agree_def step_def effect_def val_of_def)
  next
    case 2
    then show ?thesis using cc_agree_stsw [OF IH] by simp
  next
    case 3
    then show ?thesis using cc_agree_cmp [OF IH f] by (auto simp: sets_cc_def)
  next
    case 4
    then show ?thesis using cc_agree_step [OF IH f] by (auto simp: sets_cc_def)
  qed
qed

lemma sets_cc_side_effect: "sets_cc k \<Longrightarrow> side_effect k"
  by (auto simp: sets_cc_def side_effect_def)

lemma dead_compares_shape:
  "list_all2 (\<lambda>m n. m = n \<or> m = set_dead n \<and> sets_cc (nop n)) (dead_compares w ns) ns"
  by (induction ns arbitrary: w) (simp_all add: sets_cc_def)

lemma pass_dead_compares_shape:
  "list_all2 (\<lambda>m n. m = n \<or> m = set_dead n \<and> sets_cc (nop n)) (nodes (pass_dead_compares c)) (nodes c)"
  using dead_compares_shape [of False "rev (nodes c)"] list_all2_rev [of _ "rev (dead_compares False (rev (nodes c)))" "nodes c"]
  by (simp add: pass_dead_compares_def)

lemma pass_dead_compares_nth:
  "i < num_nodes c \<Longrightarrow> nodes (pass_dead_compares c) ! i = nodes c ! i \<or>
     nodes (pass_dead_compares c) ! i = set_dead (nodes c ! i) \<and> sets_cc (nop (nodes c ! i))"
  using list_all2_nthD2 [OF pass_dead_compares_shape] by blast

lemma pass_dead_compares_sel [simp]:
  "num_nodes (pass_dead_compares c) = num_nodes c" "slot_val (pass_dead_compares c) = slot_val c" "top_delta (pass_dead_compares c) = top_delta c"
  using list_all2_lengthD [OF pass_dead_compares_shape] by (simp_all add: pass_dead_compares_def)

lemma pass_dead_compares_good:
  assumes "good M ok e m0 c" "plain c" "stsw_ok V c"
  shows "good M ok e m0 (pass_dead_compares c) \<and> plain (pass_dead_compares c) \<and> stsw_ok (cc_view (pass_dead_compares c)) (pass_dead_compares c)"
proof -
  let ?c = "pass_dead_compares c"
  have f: "\<forall>n \<in> set (nodes c). \<not> is_fused n" and s: "ssa c" using assms(1) by (auto simp: good_def)
  have "cc_agree False (exec M e (nodes ?c)) (exec M e (nodes c))"
    using dead_compares_agree [of "rev (nodes c)" False M e] f by (simp add: pass_dead_compares_def)
  then have x: "x_vals (exec M e (nodes ?c)) = x_vals (exec M e (nodes c))" "meaning M e ?c = meaning M e c"
    by (simp_all add: cc_agree_def meaning_def Let_def)
  have nth: "nop (nodes ?c ! i) = nop (nodes c ! i) \<and> is_fused (nodes ?c ! i) = is_fused (nodes c ! i) \<and> is_f32 (nodes ?c ! i) = is_f32 (nodes c ! i) \<and>
      (is_dead (nodes ?c ! i) \<and> sets_cc (nop (nodes c ! i)) \<or> nodes ?c ! i = nodes c ! i)" if "i < num_nodes c" for i
    using pass_dead_compares_nth [OF that] by auto
  have r: "readable ?c v" if "readable c v" "v < int (num_nodes c)" for v
    using that nth [of "nat v"] by (auto simp: readable_def node_def nat_less_iff dest: sets_cc_side_effect)
  have "node_inv ?c i (nodes ?c ! i)" if i: "i < num_nodes c" for i
    using s i nth [OF i] r by (auto simp: ssa_def node_inv_def dest!: spec [of _ i])
  then have "ssa ?c" using s r by (auto simp: ssa_def list_all_iff)
  moreover have "\<forall>n \<in> set (nodes ?c). \<not> is_fused n" "plain ?c"
    using f assms(2) nth by (auto simp: plain_def all_set_conv_all_nth)
  moreover have "stsw_ok (cc_view ?c) ?c" unfolding stsw_ok_def
  proof (intro conjI refl ballI impI)
    fix n v assume n: "n \<in> set (nodes ?c)" "\<not> is_dead n" "nop n = FStsw" "v \<in> {in0 n, in1 n, in2 n}" "in_table ?c v"
    obtain i where "i < num_nodes c" "n = nodes ?c ! i" using n(1) by (auto simp: in_set_conv_nth)
    then have "n \<in> set (nodes c)" using nth [of i] n(2) by auto
    then show "\<not> arith_op (nop (node ?c v))" using n assms(3) nth [of "nat v"]
      by (auto simp: stsw_ok_def in_table_def node_def nat_less_iff)
  qed
  ultimately show ?thesis using assms(1) x by (simp add: good_def)
qed

end
