(* ===== verification/IROptIdeal.thy ===== *)
theory IROptIdeal
  imports IROptPasses
begin

text \<open>
  Multiply-add fusion and single-precision narrowing change roundings. They keep the meaning of the
  program over exact arithmetic, where no operation rounds (\<open>ideal_laws\<close>).
\<close>

lemma narrow_step_eq:
  assumes n: "n = nodes c ! i" "\<not> is_dead n" "nop n = CvtF64ToF32" "in0 n = int x"
    and x: "xn = nodes c ! x" "x < num_nodes c" "\<not> is_dead xn" "\<not> is_f32 xn" "uc ! x = 1"
    and k: "f32_narrowable_op (nop xn) = Some k" "widened c (in0 xn)" "k = 2 \<Longrightarrow> widened c (in1 xn)"
    and r: "raw0 = in0 (nodes c ! nat (in0 xn))" "raw1 = (if k = 2 then in0 (nodes c ! nat (in1 xn)) else -1)"
    and m: "m = n\<lparr>nop := nop xn, nflags := nflags n OR kF32, in0 := raw0, in1 := raw1\<rparr>"
    and u: "u = bump raw0 1 (bump (in0 xn) (- 1) (uc[x := 0]))" and c1: "c1 = kill (int x) (c\<lparr>nodes := (nodes c)[i := m]\<rparr>)"
    and c2: "c2 = (if bump (in0 xn) (- 1) (uc[x := 0]) ! nat (in0 xn) = 0 then kill (in0 xn) c1 else c1)"
  shows "narrow_step i (c, uc) = (if k = 2 \<and> bump (in1 xn) (- 1) u ! nat (in1 xn) = 0 then kill (in1 xn) c2 else c2,
     if k = 2 then bump raw1 1 (bump (in1 xn) (- 1) u) else u)"
proof -
  have nd: "node c (int i) = n" "node c (int x) = xn" "in_table c (int x)" using n(1) x(1,2) by (simp_all add: node_def in_table_def)
  have r': "in0 (node c (in0 xn)) = raw0" "(if k = 2 then in0 (node c (in1 xn)) else -1) = raw1" using r by (simp_all add: node_def)
  have m': "update_node (int i) (\<lambda>m. m\<lparr>nop := nop xn, nflags := nflags m OR kF32, in0 := raw0, in1 := raw1\<rparr>) c = c\<lparr>nodes := (nodes c)[i := m]\<rparr>"
    by (simp add: update_node_eq m n(1))
  show ?thesis
    unfolding narrow_step_def prod.case Let_def nd n(4) k(1) option.case r' m' drop_widen_def nat_int u [symmetric] c1 [symmetric] c2 [symmetric]
    using n(2,3) x(3-5) k(2,3) nd(3) by (cases "k = 2") simp_all
qed

locale ideal_laws = rewrite_laws +
  assumes flag_free: "m_value M e k f p a b c = m_value M e k g p a b c"
    and widen: "m_value M e CvtF32ToF64 f p a b c = a"
    and narrow: "m_value M e CvtF64ToF32 f p a b c = a"
    and narrowable: "f32_narrowable_op k = Some m \<Longrightarrow> (m = 2 \<Longrightarrow> b = b') \<Longrightarrow> m_value M e k f p a b c = m_value M e' k f p' a b' c'"
    and mul_add: "m_value M e FAdd f p (m_value M e' FMul g p' a b y) c z = m_value M e FMAdd f p a b c"
    and add_mul: "m_value M e FAdd f p c (m_value M e' FMul g p' a b y) z = m_value M e FMAdd f p a b c"
    and mul_sub: "m_value M e FSub f p (m_value M e' FMul g p' a b y) c z = m_value M e FNMSub f p a b c"
    and sub_mul: "m_value M e FSub f p c (m_value M e' FMul g p' a b y) z = m_value M e FMSub f p a b c"
begin

lemma any_val:
  assumes "good M ok e m0 c" "j < num_nodes c" "\<not> is_dead (nodes c ! j)" "\<not> side_effect (nop (nodes c ! j))"
  shows "\<exists>e'. x_vals (exec M e (nodes c)) ! j = m_value M e' (nop (nodes c ! j)) False (npayload (nodes c ! j))
     (inp M (x_vals (exec M e (nodes c))) (in0 (nodes c ! j))) (inp M (x_vals (exec M e (nodes c))) (in1 (nodes c ! j)))
     (inp M (x_vals (exec M e (nodes c))) (in2 (nodes c ! j)))"
proof -
  have "nop (nodes c ! j) \<noteq> FStsw" "ssa c" using assms(1) pure_not_stsw [OF assms(4)] by (simp_all add: good_def)
  then have "list_all (\<lambda>v. v < int j) [in0 (nodes c ! j), in1 (nodes c ! j), in2 (nodes c ! j)]"
    using ssa_node [OF _ assms(2,3)] by simp
  from exec_val [OF assms(2) this, of M e] show ?thesis
    using assms(3,4) flag_free [of _ _ False _ _ _ _ True] by (cases "is_f32 (nodes c ! j)") (auto simp: val_of_def)
qed

lemma val_of_any:
  "\<not> is_dead n \<Longrightarrow> \<not> side_effect (nop n) \<Longrightarrow> val_of M e' n vs = m_value M e' (nop n) False (npayload n) (inp M vs (in0 n)) (inp M vs (in1 n)) (inp M vs (in2 n))"
  using flag_free [of _ _ False _ _ _ _ True] by (cases "is_f32 n") (auto simp: val_of_def)

section \<open>Fused multiply-add\<close>

lemma try_fuse_inv:
  assumes p: "pass_inv M ok e m0 (stsw_ok V) (c, uc)" and i: "i < num_nodes c" "\<not> is_dead (nodes c ! i)"
    and n: "nop (nodes c ! i) = FAdd \<or> nop (nodes c ! i) = FSub"
    and mo: "first \<and> (m, oth) = (in0 (nodes c ! i), in1 (nodes c ! i)) \<or> \<not> first \<and> (m, oth) = (in1 (nodes c ! i), in0 (nodes c ! i))"
    and t: "try_fuse extra i first m oth (c, uc) = Some r"
  shows "pass_inv M ok e m0 (stsw_ok V) r"
proof -
  let ?n = "nodes c ! i"
  have g: "good M ok e m0 c" "stsw_ok V c" "counts c uc" using p by (auto simp: pass_inv_def)
  have s: "ssa c" using g(1) by (simp add: good_def)
  define b where "b = nat m"
  define u where "u = ?n\<lparr>nop := (if nop ?n = FAdd then FMAdd else if first then FNMSub else FMSub), in0 := in0 (nodes c ! b), in1 := in1 (nodes c ! b), in2 := oth\<rparr>"
  have b: "m = int b" "b < num_nodes c" "nop (nodes c ! b) = FMul" "\<not> is_dead (nodes c ! b)" "uc ! b = 1"
    and r: "r = (kill (int b) (c\<lparr>nodes := (nodes c)[i := u]\<rparr>), bump (in1 (nodes c ! b)) 1 (bump (in0 (nodes c ! b)) 1 (uc[b := 0])))"
    using t unfolding try_fuse_def u_def
    by (auto simp: Let_def in_table_def node_def b_def update_node_eq split: if_splits)
  have ar: "arith_op (nop ?n)" "arith_op (nop u)" using n by (auto simp: arith_op_def u_def)
  have lt: "v < int i \<and> readable c v" if "v \<in> {in0 ?n, in1 ?n, in2 ?n}" for v
    using ssa_node [OF s i _ that] arith_pure [OF ar(1)] by simp
  have lb: "v < int b \<and> readable c v" if "v \<in> {in0 (nodes c ! b), in1 (nodes c ! b), in2 (nodes c ! b)}" for v
    using ssa_node [OF s b(2,4) _ that] b(3) by simp
  have bi: "b < i" using lt [of "in0 ?n"] lt [of "in1 ?n"] mo b(1) by auto
  have rd: "1 \<le> reads ?n (int b)" using mo b(1) i(2) by (auto simp: reads_def)
  have "reads ?n (int b) = 1" by (rule single_reader(1) [OF g(3) i(1) b(2,5) rd])
  then have oth: "oth \<noteq> int b" using mo b(1) i(2) by (auto simp: reads_def of_bool_def split: if_splits)
  obtain e' where mul: "inp M (x_vals (exec M e (nodes c))) m = m_value M e' FMul False (npayload (nodes c ! b))
      (inp M (x_vals (exec M e (nodes c))) (in0 (nodes c ! b))) (inp M (x_vals (exec M e (nodes c))) (in1 (nodes c ! b)))
      (inp M (x_vals (exec M e (nodes c))) (in2 (nodes c ! b)))"
    using any_val [OF g(1) b(2,4)] b(1,3) by (auto simp: side_effect_def inp_def)
  have dead: "\<not> is_dead u" "is_fused u = is_fused ?n" using i(2) by (simp_all add: u_def)
  have len: "num_nodes c \<le> length uc" using g(3) by (simp add: counts_def)
  show ?thesis unfolding r
  proof (rule absorb_inv [OF p])
    show "val_of M e'' u (x_vals (exec M e (nodes c))) = val_of M e'' ?n (x_vals (exec M e (nodes c)))" for e''
      using mo n mul arith_pure [OF ar(1)] arith_pure [OF ar(2)] i(2) dead
      by (auto simp: val_of_any u_def mul_add add_mul mul_sub sub_mul)
    show "list_all (\<lambda>v. v < int i \<and> readable c v) [in0 u, in1 u, in2 u]"
      using lb [of "in0 (nodes c ! b)"] lb [of "in1 (nodes c ! b)"] lt [of "in0 ?n"] lt [of "in1 ?n"] mo bi by (auto simp: u_def)
    show "reads u (int b) = 0" using lb [of "in0 (nodes c ! b)"] lb [of "in1 (nodes c ! b)"] oth by (auto simp: reads_0 u_def)
    show "stsw_ok V (c\<lparr>nodes := (nodes c)[i := u]\<rparr>)"
      using ar arith_pure [OF ar(1)] arith_pure [OF ar(2)] g(2) i(1) by (intro stsw_ok_update) (simp_all add: cc_node_pure)
    show "uc ! j + reads u (int j) \<le> bump (in1 (nodes c ! b)) 1 (bump (in0 (nodes c ! b)) 1 (uc[b := 0])) ! j + reads ?n (int j) + reads (nodes c ! b) (int j)"
      if "j < num_nodes c" "j \<noteq> b" for j
      using that len mo b(1) i(2) reads_nonneg [of "nodes c ! b" "int j"]
      by (auto simp: nth_bump reads_def u_def nth_list_update)
  qed (use b rd i bi n arith_pure [OF ar(1)] arith_pure [OF ar(2)] dead g(1) ok_none len in \<open>auto simp: nth_bump good_def side_effect_def\<close>)
qed

lemma fuse_step_inv:
  assumes "pass_inv M ok e m0 (stsw_ok V) st1" "i < num_nodes (fst st1)"
  shows "pass_inv M ok e m0 (stsw_ok V) (fuse_step cond extra i st1)"
proof -
  obtain c uc where st: "st1 = (c, uc)" by (cases st1)
  note p = assms [unfolded st, simplified]
  have n: "node c (int i) = nodes c ! i" by (simp add: node_def)
  note t = try_fuse_inv [OF p]
  show ?thesis unfolding st fuse_step_def Let_def fst_conv n using p(1) t [of True "in0 (nodes c ! i)" "in1 (nodes c ! i)" extra]
      t [of False "in1 (nodes c ! i)" "in0 (nodes c ! i)" extra]
    by (auto split: option.split)
qed

lemma fuse_step_num [simp]: "num_nodes (fst (fuse_step cond extra i st1)) = num_nodes (fst st1)"
  by (cases st1) (auto simp: fuse_step_def try_fuse_def Let_def split: option.splits if_splits)

lemma fuse_pass_good:
  assumes "good M ok e m0 c" "stsw_ok V c"
  shows "good M ok e m0 (fst (fold (fuse_step cond extra) [0..<num_nodes c] (c, count_uses c))) \<and>
    stsw_ok V (fst (fold (fuse_step cond extra) [0..<num_nodes c] (c, count_uses c)))"
proof -
  have "pass_inv M ok e m0 (stsw_ok V) (fold (fuse_step cond extra) [0..<num_nodes c] (c, count_uses c))"
    by (rule pass_inv_fold [where N = "num_nodes c"]) (use assms in \<open>auto intro: pass_inv_start fuse_step_inv\<close>)
  then show ?thesis by (simp add: pass_inv_def)
qed

section \<open>Single precision\<close>

text \<open>The operands of a narrowed operation are widenings; it is given their sources.\<close>

lemma widened_val:
  assumes "good M ok e m0 c" "widened c v"
  shows "0 \<le> v" "nat v < num_nodes c" "nop (nodes c ! nat v) = CvtF32ToF64" "\<not> is_dead (nodes c ! nat v)"
    "in0 (nodes c ! nat v) < v" "readable c (in0 (nodes c ! nat v))"
    "inp M (x_vals (exec M e (nodes c))) v = inp M (x_vals (exec M e (nodes c))) (in0 (nodes c ! nat v))"
proof -
  have w: "0 \<le> v" "nat v < num_nodes c" "nop (nodes c ! nat v) = CvtF32ToF64" "\<not> is_dead (nodes c ! nat v)"
    using assms(2) by (auto simp: widened_def in_table_def node_def nat_less_iff)
  have "ssa c" using assms(1) by (simp add: good_def)
  from ssa_node [OF this w(2,4), of "in0 (nodes c ! nat v)"] have "in0 (nodes c ! nat v) < int (nat v) \<and> readable c (in0 (nodes c ! nat v))"
    using w(3) by simp
  then show "in0 (nodes c ! nat v) < v" "readable c (in0 (nodes c ! nat v))" using w(1) by auto
  have "\<not> side_effect (nop (nodes c ! nat v))" using w(3) by (simp add: side_effect_def)
  then show "inp M (x_vals (exec M e (nodes c))) v = inp M (x_vals (exec M e (nodes c))) (in0 (nodes c ! nat v))"
    using any_val [OF assms(1) w(2,4)] w(1,3) by (auto simp: inp_def [of _ _ v] widen)
  show "0 \<le> v" "nat v < num_nodes c" "nop (nodes c ! nat v) = CvtF32ToF64" "\<not> is_dead (nodes c ! nat v)" by (fact w)+
qed

lemma reap_inv:
  assumes "pass_inv M ok e m0 P (c, uc)" "stable P" "B \<Longrightarrow> 0 \<le> w \<and> nat w < num_nodes c \<and> \<not> side_effect (nop (nodes c ! nat w)) \<and> uses c (nat w) \<le> 0"
  shows "pass_inv M ok e m0 P (if B then kill w c else c, uc)"
proof (cases B)
  case True
  then have "good M ok e m0 (kill (int (nat w)) c)" using assms ok_none by (intro good_kill) (simp_all add: pass_inv_def)
  then show ?thesis using assms True by (auto simp: pass_inv_def counts_kill stable_def)
qed (use assms in simp)

lemma reap_two:
  assumes "pass_inv M ok e m0 P (c, uc)" "stable P" 
    and "B \<Longrightarrow> 0 \<le> w \<and> nat w < num_nodes c \<and> \<not> side_effect (nop (nodes c ! nat w)) \<and> uses c (nat w) \<le> 0"
    and "D \<Longrightarrow> 0 \<le> v \<and> nat v < num_nodes c \<and> \<not> side_effect (nop (nodes c ! nat v)) \<and> uses c (nat v) \<le> 0"
  shows "pass_inv M ok e m0 P (if D then kill v (if B then kill w c else c) else if B then kill w c else c, uc)"
proof (rule reap_inv [OF reap_inv [OF assms(1-3)] assms(2)])
  assume D
  have "uses (kill w c) (nat v) \<le> uses c (nat v)" if B using assms(3) [OF that] by (simp add: uses_kill)
  then show "0 \<le> v \<and> nat v < num_nodes (if B then kill w c else c) \<and>
      \<not> side_effect (nop (nodes (if B then kill w c else c) ! nat v)) \<and> uses (if B then kill w c else c) (nat v) \<le> 0"
    using assms(4) [OF \<open>D\<close>] by (cases "nat v = nat w") (auto simp: nth_list_update)
qed

lemma narrow_orphan:
  assumes "i < num_nodes c" "x < num_nodes c" "x \<noteq> i" "uses c b \<le> reads (nodes c ! x) (int b)"
    and "int b \<in> {in0 m, in1 m, in2 m} \<Longrightarrow> \<exists>j < num_nodes c. j \<noteq> x \<and> 1 \<le> reads (nodes c ! j) (int b)"
  shows "uses (kill (int x) (c\<lparr>nodes := (nodes c)[i := m]\<rparr>)) b \<le> 0"
proof -
  have z: "uses (kill (int x) c) b \<le> 0" using assms(2,4) by (simp add: uses_kill node_def)
  have "reads (nodes c ! j) (int b) = 0" if "j < num_nodes c" "j \<noteq> x" for j
    using uses_0_reads [OF z, of j] that by simp
  then have "int b \<notin> {in0 m, in1 m, in2 m}" using assms(5) by (metis not_one_le_zero)
  then have "reads m (int b) = 0" by (auto simp: reads_0)
  moreover have "uses (kill (int x) (c\<lparr>nodes := (nodes c)[i := m]\<rparr>)) b =
      uses c b - reads (nodes c ! i) (int b) + reads m (int b) - reads (nodes c ! x) (int b)"
    using assms(1-3) by (simp add: uses_kill node_def) (simp add: uses_def sum_list_upd)
  ultimately show ?thesis using assms(4) reads_nonneg [of "nodes c ! i" "int b"] by linarith
qed

lemma narrow_absorb:
  assumes p: "pass_inv M ok e m0 (stsw_ok V) (c, uc)" and i: "i < num_nodes c" "\<not> is_dead (nodes c ! i)"
    and n: "n = nodes c ! i" "nop n = CvtF64ToF32" "in0 n = int x" and x: "xn = nodes c ! x" "x < num_nodes c" "\<not> is_dead xn" "uc ! x = 1"
    and k: "f32_narrowable_op (nop xn) = Some k" "widened c (in0 xn)" "k = 2 \<Longrightarrow> widened c (in1 xn)"
    and r: "raw0 = in0 (nodes c ! nat (in0 xn))" "raw1 = (if k = 2 then in0 (nodes c ! nat (in1 xn)) else -1)"
    and m: "m = n\<lparr>nop := nop xn, nflags := nflags n OR kF32, in0 := raw0, in1 := raw1\<rparr>"
    and u: "u = bump raw0 1 (bump (in0 xn) (- 1) (uc[x := 0]))"
  shows "pass_inv M ok e m0 (stsw_ok V) (kill (int x) (c\<lparr>nodes := (nodes c)[i := m]\<rparr>), if k = 2 then bump raw1 1 (bump (in1 xn) (- 1) u) else u)"
proof -
  have g: "good M ok e m0 c" "stsw_ok V c" "counts c uc" using p by (auto simp: pass_inv_def)
  have s: "ssa c" and len: "num_nodes c \<le> length uc" using g by (auto simp: good_def counts_def)
  have lt: "v < int i \<and> readable c v" if "v \<in> {in0 n, in1 n, in2 n}" for v
    using ssa_node [OF s i, of v] that n(1,2) by simp
  have xi: "x < i" using lt [of "in0 n"] n(3) by simp
  have ar: "arith_op (nop xn)" using k(1) by (auto simp: f32_narrowable_op_def arith_op_def split: if_splits)
  have lx: "v < int x" if "v \<in> {in0 xn, in1 xn, in2 xn}" for v
    using ssa_node [OF s x(2), of v] x(1,3) that arith_pure [OF ar] by simp
  note w0 = widened_val [OF g(1) k(2)] and w1 = widened_val [OF g(1) k(3)]
  have fl: "is_dead m = is_dead n" "is_fused m = is_fused n"
    by (simp_all add: m is_dead_def is_fused_def kF32_def kDead_def kFcomFused_def bit.conj_disj_distrib2)
  have se: "\<not> side_effect (nop m)" "\<not> side_effect (nop n)" "\<not> side_effect (nop xn)" "arith_op (nop n)" "arith_op (nop m)"
    using arith_pure [OF ar] ar n(2) by (simp_all add: m side_effect_def arith_op_def)
  have k2: "k = 1 \<or> k = 2" using k(1) by (auto simp: f32_narrowable_op_def split: if_splits)
  have raw: "raw0 < in0 xn" "k = 2 \<Longrightarrow> raw1 < in1 xn" "k \<noteq> 2 \<Longrightarrow> raw1 = -1" using w0 w1 r by auto
  have nx: "nodes c ! x = xn" "in0 n \<in> {in0 n, in1 n, in2 n}" by (simp_all add: x)
  have rd: "1 \<le> reads n (int x)" using n i(2) by (simp add: reads_def)
  have r1: "reads n (int x) = 1" unfolding n(1) by (rule single_reader(1) [OF g(3) i(1) x(2,4)]) (use rd n(1) in simp)
  have in2: "in2 n \<noteq> int x" using r1 n(1,3) i(2) by (auto simp: reads_def of_bool_def split: if_splits)
  obtain e' where xv: "inp M (x_vals (exec M e (nodes c))) (int x) = m_value M e' (nop xn) False (npayload xn)
      (inp M (x_vals (exec M e (nodes c))) (in0 xn)) (inp M (x_vals (exec M e (nodes c))) (in1 xn)) (inp M (x_vals (exec M e (nodes c))) (in2 xn))"
    using any_val [OF g(1) x(2)] x(1,3) se(3) by (auto simp: inp_def)
  have "m_value M e'' (nop xn) False (npayload n) (inp M (x_vals (exec M e (nodes c))) raw0) (inp M (x_vals (exec M e (nodes c))) raw1) z =
      inp M (x_vals (exec M e (nodes c))) (int x)" for e'' z
    unfolding xv w0(7) r(1) by (rule narrowable [OF k(1)]) (use w1(7) r(2) in simp)
  then have val: "val_of M e'' m (x_vals (exec M e (nodes c))) = val_of M e'' (nodes c ! i) (x_vals (exec M e (nodes c)))" for e''
    using se fl i(2) n by (simp add: val_of_any m narrow)
  show "pass_inv M ok e m0 (stsw_ok V) (kill (int x) (c\<lparr>nodes := (nodes c)[i := m]\<rparr>), if k = 2 then bump raw1 1 (bump (in1 xn) (- 1) u) else u)"
  proof (rule absorb_inv [OF p])
    show "list_all (\<lambda>v. v < int i \<and> readable c v) [in0 m, in1 m, in2 m]"
      using w0(5,6) w1(5,6) raw lx [of "in0 xn"] lx [of "in1 xn"] lt [of "in2 n"] xi r by (auto simp: m readable_def [of _ "-1"])
    show "reads m (int x) = 0" using raw lx [of "in0 xn"] lx [of "in1 xn"] in2 k2 by (auto simp: reads_0 m)
    show "stsw_ok V (c\<lparr>nodes := (nodes c)[i := m]\<rparr>)"
      using g(2) i(1) se n(1) by (intro stsw_ok_update) (auto simp: cc_node_pure dest: arith_pure)
    show "uc ! j + reads m (int j) \<le> (if k = 2 then bump raw1 1 (bump (in1 xn) (- 1) u) else u) ! j + reads (nodes c ! i) (int j) + reads (nodes c ! x) (int j)"
      if "j < num_nodes c" "j \<noteq> x" for j
      using that len i(2) n raw(3) x(1,3) fl(1) by (auto simp: nth_bump reads_def u m nth_list_update)
    show "0 \<le> (if k = 2 then bump raw1 1 (bump (in1 xn) (- 1) u) else u) ! x"
      using lx [of "in0 xn"] lx [of "in1 xn"] x(2) len by (auto simp: u nth_bump)
  qed (use i x n se fl val g(1) ok_none xi rd in \<open>auto simp: good_def u\<close>)
qed

lemma narrow_step_inv:
  assumes "pass_inv M ok e m0 (stsw_ok V) (c, uc)" "i < num_nodes c"
  shows "pass_inv M ok e m0 (stsw_ok V) (narrow_step i (c, uc))"
proof (cases "narrow_step i (c, uc) = (c, uc)")
  case False
  define n where "n = nodes c ! i"
  define x where "x = nat (in0 n)"
  define xn where "xn = nodes c ! x"
  obtain k where k: "\<not> is_dead n" "nop n = CvtF64ToF32" "in0 n = int x" "x < num_nodes c" "\<not> is_dead xn" "uc ! x = 1"
     "f32_narrowable_op (nop xn) = Some k" "widened c (in0 xn)" "k = 2 \<Longrightarrow> widened c (in1 xn)" "\<not> is_f32 xn"
    using False unfolding narrow_step_def n_def x_def xn_def
    by (auto simp: Let_def node_def in_table_def nat_less_iff split: if_splits option.splits)
  define raw0 where "raw0 = in0 (nodes c ! nat (in0 xn))"
  define raw1 where "raw1 = (if k = 2 then in0 (nodes c ! nat (in1 xn)) else -1)"
  define m where "m = n\<lparr>nop := nop xn, nflags := nflags n OR kF32, in0 := raw0, in1 := raw1\<rparr>"
  define u where "u = bump raw0 1 (bump (in0 xn) (- 1) (uc[x := 0]))"
  let ?c = "kill (int x) (c\<lparr>nodes := (nodes c)[i := m]\<rparr>)" and ?u = "if k = 2 then bump raw1 1 (bump (in1 xn) (- 1) u) else u"
  have g: "good M ok e m0 c" "counts c uc" using assms(1) by (auto simp: pass_inv_def)
  have A: "pass_inv M ok e m0 (stsw_ok V) (?c, ?u)"
    by (rule narrow_absorb [OF assms(1,2) _ n_def k(2,3) xn_def k(4-9) raw0_def raw1_def m_def u_def]) (use k(1) n_def in simp_all)
  note w0 = widened_val [OF g(1) k(8)] and w1 = widened_val [OF g(1) k(9)]
  have s: "ssa c" using g(1) by (simp add: good_def)
  have ar: "arith_op (nop xn)" using k(7) by (auto simp: f32_narrowable_op_def arith_op_def split: if_splits)
  have lx: "v < int x" if "v \<in> {in0 xn, in1 xn}" for v
    using ssa_node [OF s k(4), of v] k(5) that arith_pure [OF ar] by (auto simp: xn_def)
  have wx: "nat (in0 xn) \<noteq> x" "k = 2 \<Longrightarrow> nat (in1 xn) \<noteq> x" using lx [of "in0 xn"] lx [of "in1 xn"] w0(1) w1(1) by auto
  have xi: "x \<noteq> i" using k(2,7) by (auto simp: xn_def n_def f32_narrowable_op_def)
  have orph: "uses ?c b \<le> 0" if "b < num_nodes c" "uc ! b \<le> reads xn (int b)" for b
  proof (rule narrow_orphan [OF assms(2) k(4) xi])
    show "uses c b \<le> reads (nodes c ! x) (int b)" using that g(2) by (auto simp: counts_def xn_def dest!: spec [of _ b])
    have "1 \<le> reads (nodes c ! nat (in0 xn)) raw0" "k = 2 \<Longrightarrow> 1 \<le> reads (nodes c ! nat (in1 xn)) raw1" "1 \<le> reads (nodes c ! i) (in2 n)"
      using w0(4) w1(4) k(1) by (simp_all add: reads_def raw0_def raw1_def n_def)
    then show "\<exists>j<num_nodes c. j \<noteq> x \<and> 1 \<le> reads (nodes c ! j) (int b)" if "int b \<in> {in0 m, in1 m, in2 m}"
      using that w0(2) w1(2) wx xi assms(2) by (cases "k = 2") (auto simp: m_def raw1_def)
  qed
  define B0 where "B0 \<longleftrightarrow> bump (in0 xn) (- 1) (uc[x := 0]) ! nat (in0 xn) = 0"
  define B1 where "B1 \<longleftrightarrow> bump (in1 xn) (- 1) u ! nat (in1 xn) = 0"
  have len: "num_nodes c \<le> length uc" using g(2) by (simp add: counts_def)
  have B0: "B0 \<Longrightarrow> uses ?c (nat (in0 xn)) \<le> 0"
    using w0(1,2) wx(1) len k(5) by (intro orph) (auto simp: B0_def nth_bump reads_def)
  have B1: "B1 \<Longrightarrow> k = 2 \<Longrightarrow> uses ?c (nat (in1 xn)) \<le> 0"
    using w1(1,2) wx(2) len k(5) by (intro orph) (auto simp: B1_def u_def nth_bump reads_def split: if_splits)
  have nop: "\<not> side_effect (nop (nodes ?c ! nat w))" if "nop (nodes c ! nat w) = CvtF32ToF64" "nat w \<noteq> x" for w
    using that k(2) by (cases "nat w = i") (auto simp: n_def side_effect_def)
  have "pass_inv M ok e m0 (stsw_ok V)
      (if k = 2 \<and> B1 then kill (in1 xn) (if B0 then kill (in0 xn) ?c else ?c) else if B0 then kill (in0 xn) ?c else ?c, ?u)"
    by (rule reap_two [OF A]) (use w0(1-3) w1(1-3) B0 B1 nop [OF w0(3) wx(1)] nop [OF w1(3) wx(2)] in simp_all)
  moreover note narrow_step_eq [OF n_def k(1-3) xn_def k(4,5,10,6-9) raw0_def raw1_def m_def u_def refl refl]
  ultimately show ?thesis by (simp only: B0_def B1_def)
qed (use assms in simp)

lemma drop_widen_num [simp]: "num_nodes (fst (drop_widen v raw st1)) = num_nodes (fst st1)"
  by (cases st1) (simp add: drop_widen_def Let_def)

lemma narrow_step_num [simp]: "num_nodes (fst (narrow_step i st1)) = num_nodes (fst st1)"
  by (cases st1) (simp add: narrow_step_def Let_def split: option.split)

lemma pass_f32_narrow_good:
  assumes "good M ok e m0 c" "stsw_ok V c"
  shows "good M ok e m0 (pass_f32_narrow c) \<and> stsw_ok V (pass_f32_narrow c)"
proof -
  have "pass_inv M ok e m0 (stsw_ok V) (narrow_step i st1)" if "i < num_nodes (fst st1)" "pass_inv M ok e m0 (stsw_ok V) st1" for i st1
    using narrow_step_inv [of e m0 V "fst st1" "snd st1" i] that by simp
  then have "pass_inv M ok e m0 (stsw_ok V) (fold narrow_step [0..<num_nodes c] (c, count_uses c))"
    using assms by (intro pass_inv_fold [where N = "num_nodes c"]) (auto intro: pass_inv_start)
  then show ?thesis by (simp add: pass_f32_narrow_def pass_inv_def)
qed

lemma pass_fma_good:
  assumes "good M ok e m0 c" "stsw_ok V c"
  shows "good M ok e m0 (pass_fma c) \<and> stsw_ok V (pass_fma c)"
  unfolding pass_fma_def by (rule fuse_pass_good [OF assms])

end

end
