(* ===== verification/IROptFusion.thy ===== *)
theory IROptFusion
  imports IROptPasses
begin

text \<open>
  Fusing a compare with the status store that reads its codes (\<open>pass_fcom_fstsw_fusion\<close>). A fused
  compare writes no status word: its codes stay in a register until the fused store takes them. The
  pass is right when every status store refers to the last compare before it and no two stores
  refer to the same compare.
\<close>

definition cc_linked :: "int option option list \<Rightarrow> bool" where
  "cc_linked V \<longleftrightarrow> (\<forall>i < length V. \<forall>f. V ! i = Some (Some f) \<longrightarrow>
     f < int i \<and> (0 \<le> f \<longrightarrow> V ! nat f = Some None) \<and> (\<forall>j. f < int j \<longrightarrow> j < i \<longrightarrow> V ! j \<noteq> Some None))"

definition cc_single :: "int option option list \<Rightarrow> bool" where
  "cc_single V \<longleftrightarrow> (\<forall>i < length V. \<forall>j < length V. \<forall>f \<ge> 0. V ! i = Some (Some f) \<longrightarrow> V ! j = Some (Some f) \<longrightarrow> i = j)"

text \<open>What the pass computes on such a program: the flag on every linked pair whose store precedes \<open>b\<close>.\<close>

definition fuse_node :: "int option option list \<Rightarrow> nat \<Rightarrow> nat \<Rightarrow> Node \<Rightarrow> Node" where
  "fuse_node V b k n =
     (if (case V ! k of None \<Rightarrow> False | Some None \<Rightarrow> (\<exists>i < b. V ! i = Some (Some (int k))) | Some (Some f) \<Rightarrow> 0 \<le> f \<and> k < b)
      then set_fused n else n)"

definition fuse_upto :: "nat \<Rightarrow> Context \<Rightarrow> Context" where
  "fuse_upto b c = c\<lparr>nodes := map (\<lambda>k. fuse_node (cc_view c) b k (nodes c ! k)) [0..<num_nodes c]\<rparr>"

lemma set_fused_sel [simp]: "nop (set_fused n) = nop n" "in0 (set_fused n) = in0 n" "in1 (set_fused n) = in1 n" "in2 (set_fused n) = in2 n"
  "npayload (set_fused n) = npayload n" "naux (set_fused n) = naux n" "is_dead (set_fused n) = is_dead n" "is_f32 (set_fused n) = is_f32 n"
  "is_fused (set_fused n)" "set_fused (set_fused n) = set_fused n"
  by (simp_all add: set_fused_def is_dead_def is_f32_def is_fused_def kDead_def kF32_def kFcomFused_def bit.conj_disj_distrib2)

lemma cc_node_fused [simp]: "cc_node (set_fused n) = cc_node n"
  by (simp add: cc_node_def)

lemma cc_node_stsw: "cc_node n = Some (Some f) \<longleftrightarrow> \<not> is_dead n \<and> nop n = FStsw \<and> in0 n = f"
  by (auto simp: cc_node_def sets_cc_def)

lemma cc_node_cmp: "cc_node n = Some None \<longleftrightarrow> \<not> is_dead n \<and> sets_cc (nop n)"
  by (simp add: cc_node_def)

lemma fuse_node_sel [simp]: "nop (fuse_node V b k n) = nop n" "in0 (fuse_node V b k n) = in0 n" "in1 (fuse_node V b k n) = in1 n"
  "in2 (fuse_node V b k n) = in2 n" "npayload (fuse_node V b k n) = npayload n" "naux (fuse_node V b k n) = naux n"
  "is_dead (fuse_node V b k n) = is_dead n" "is_f32 (fuse_node V b k n) = is_f32 n"
  by (simp_all add: fuse_node_def)

lemma linkedD:
  assumes "cc_linked V" "i < length V" "V ! i = Some (Some f)"
  shows "f < int i" "0 \<le> f \<Longrightarrow> V ! nat f = Some None" "f < int j \<Longrightarrow> j < i \<Longrightarrow> V ! j \<noteq> Some None"
  using assms by (auto simp: cc_linked_def)

lemma fusion_step_upto:
  assumes "cc_linked (cc_view c)" "b < num_nodes c"
  shows "fusion_step b (fuse_upto b c) = fuse_upto (Suc b) c"
proof -
  let ?V = "cc_view c" and ?n = "nodes c ! b"
  have V: "?V ! k = cc_node (nodes c ! k)" if "k < num_nodes c" for k using that by (simp add: cc_view_def)
  have len: "length ?V = num_nodes c" by (simp add: cc_view_def)
  have nb: "node (fuse_upto b c) (int b) = fuse_node ?V b b ?n" using assms(2) by (simp add: node_def fuse_upto_def)
  show ?thesis
  proof (cases "\<exists>f \<ge> 0. ?V ! b = Some (Some f)")
    case True
    then obtain f where f: "0 \<le> f" "?V ! b = Some (Some f)" by blast
    note l = linkedD [OF assms(1) _ f(2)]
    have n: "\<not> is_dead ?n" "nop ?n = FStsw" "in0 ?n = f" using f V [OF assms(2)] by (simp_all add: cc_node_stsw)
    have fb: "nat f < b" "f < int b" using l(1) assms(2) len f(1) by auto
    have fc: "cc_node (nodes c ! nat f) = Some None" using l(2) f(1) V [of "nat f"] fb assms(2) len by simp
    have btw: "list_all (\<lambda>j. is_dead (nodes (fuse_upto b c) ! j) \<or> \<not> sets_cc (nop (nodes (fuse_upto b c) ! j))) [nat f + 1..<b]"
    proof -
      have "is_dead (nodes c ! j) \<or> \<not> sets_cc (nop (nodes c ! j))" if "nat f < j" "j < b" for j
        using l(3) [of j] that assms(2) V [of j] len f(1) by (auto simp: cc_node_cmp)
      then show ?thesis using assms(2) by (auto simp: list_all_iff fuse_upto_def)
    qed
    have "fusion_step b (fuse_upto b c) = update_node (int b) set_fused (update_node f set_fused (fuse_upto b c))"
      using n fc btw fb assms(2) f(1) unfolding fusion_step_def Let_def nb
      by (simp add: in_table_def node_def cc_node_cmp) (simp add: fuse_upto_def)
    moreover have "nodes (update_node (int b) set_fused (update_node f set_fused (fuse_upto b c))) ! k = nodes (fuse_upto (Suc b) c) ! k"
      if "k < num_nodes c" for k
      using that assms(2) fb f V [of k] fc by (auto simp: fuse_upto_def fuse_node_def nth_list_update less_Suc_eq split: option.splits)
    ultimately show ?thesis
      using assms(2) by (intro Context.equality nth_equalityI) (simp_all add: update_node_def, simp_all add: fuse_upto_def)
  next
    case False
    have neg: "f < 0" if "?V ! b = Some (Some f)" for f using False that by force
    have "\<not> (\<not> is_dead ?n \<and> nop ?n = FStsw \<and> 0 \<le> in0 ?n)" using False V [OF assms(2)] cc_node_stsw [of ?n "in0 ?n"] by auto
    then have "fusion_step b (fuse_upto b c) = fuse_upto b c"
      unfolding fusion_step_def Let_def nb by (auto simp: in_table_def)
    moreover have "fuse_node ?V (Suc b) k n = fuse_node ?V b k n" for k n
      by (auto simp: fuse_node_def less_Suc_eq dest: neg split: option.splits)
    ultimately show ?thesis by (simp add: fuse_upto_def)
  qed
qed

lemma pass_fusion_upto:
  assumes "cc_linked (cc_view c)"
  shows "pass_fcom_fstsw_fusion c = fuse_upto (num_nodes c) c"
proof -
  have "fuse_node (cc_view c) 0 k n = n" for k n by (auto simp: fuse_node_def split: option.splits)
  then have z: "fuse_upto 0 c = c" by (simp add: fuse_upto_def map_nth)
  have "b \<le> num_nodes c \<Longrightarrow> fold fusion_step [0..<b] c = fuse_upto b c" for b
    by (induction b) (simp_all add: z fusion_step_upto [OF assms])
  then show ?thesis by (simp add: pass_fcom_fstsw_fusion_def)
qed

section \<open>Execution of the fused program\<close>

definition pending :: "int option option list \<Rightarrow> nat \<Rightarrow> int \<Rightarrow> bool" where
  "pending V k f \<longleftrightarrow> 0 \<le> f \<and> f < int k \<and> (\<exists>i \<ge> k. i < length V \<and> V ! i = Some (Some f))"

definition fusion_rel :: "int option option list \<Rightarrow> nat \<Rightarrow> ('v, 'e) xstate \<Rightarrow> ('v, 'e) xstate \<Rightarrow> bool" where
  "fusion_rel V k s t \<longleftrightarrow> x_vals s = x_vals t \<and> x_ext s = x_ext t \<and> x_held s = [] \<and> length (x_vals s) = k \<and>
     (\<forall>f. pending V k f \<longrightarrow> (\<exists>w. x_held t = [(nat f, w)] \<and> x_cc s = Some w)) \<and>
     ((\<forall>f. \<not> pending V k f) \<longrightarrow> x_held t = [] \<and> x_cc s = x_cc t)"

lemma pending_Suc:
  assumes "cc_linked V" "k < length V"
  shows "V ! k = None \<Longrightarrow> pending V (Suc k) f = pending V k f"
    "V ! k = Some None \<Longrightarrow> \<not> pending V k f" "V ! k = Some None \<Longrightarrow> pending V (Suc k) f \<Longrightarrow> f = int k"
    "V ! k = Some (Some g) \<Longrightarrow> cc_single V \<Longrightarrow> \<not> pending V (Suc k) f"
    "V ! k = Some (Some g) \<Longrightarrow> pending V k f \<Longrightarrow> f = g"
proof -
  note l = linkedD [OF assms(1)]
  show "V ! k = None \<Longrightarrow> pending V (Suc k) f = pending V k f"
  proof -
    assume k: "V ! k = None"
    have "(f < int (Suc k) \<and> Suc k \<le> i) = (f < int k \<and> k \<le> i)" if "0 \<le> f" "V ! i = Some (Some f)" "i < length V" for i
    proof -
      have "f \<noteq> int k" "i \<noteq> k" using l(2) [OF that(3,2,1)] k that by auto
      then show ?thesis by linarith
    qed
    then show ?thesis unfolding pending_def by blast
  qed
  show "\<not> pending V k f" if k: "V ! k = Some None"
  proof
    assume "pending V k f"
    then obtain i where i: "k \<le> i" "i < length V" "V ! i = Some (Some f)" "f < int k" by (auto simp: pending_def)
    have "k \<noteq> i" using k i(3) by auto
    then show False using l(3) [OF i(2,3,4)] k i(1) by simp
  qed
  show "f = int k" if k: "V ! k = Some None" and p: "pending V (Suc k) f"
  proof (rule ccontr)
    assume "f \<noteq> int k"
    then have "f < int k" using p by (simp add: pending_def)
    moreover obtain i where "Suc k \<le> i" "i < length V" "V ! i = Some (Some f)" using p by (auto simp: pending_def)
    ultimately show False using l(3) [of i f k] k by simp
  qed
  show "f = g" if k: "V ! k = Some (Some g)" and p: "pending V k f"
  proof -
    obtain i where i: "k \<le> i" "i < length V" "V ! i = Some (Some f)" "0 \<le> f" "f < int k" using p by (auto simp: pending_def)
    have f: "V ! nat f = Some None" by (rule l(2) [OF i(2,3,4)])
    then have "\<not> g < f" using l(3) [OF assms(2) k, of "nat f"] i(4,5) by (auto simp: nat_less_iff)
    moreover have "\<not> f < g"
    proof
      assume "f < g"
      then have "V ! nat g = Some None" "g < int k" using l(1,2) [OF assms(2) k] i(4) by auto
      then show False using l(3) [OF i(2,3), of "nat g"] i(1) \<open>f < g\<close> i(4) by (auto simp: nat_less_iff)
    qed
    ultimately show ?thesis by simp
  qed
  note fg = this
  show "\<not> pending V (Suc k) f" if k: "V ! k = Some (Some g)" and s: "cc_single V"
  proof
    assume p: "pending V (Suc k) f"
    then obtain i where i: "Suc k \<le> i" "i < length V" "V ! i = Some (Some f)" "0 \<le> f" "f < int (Suc k)" by (auto simp: pending_def)
    have "f \<noteq> int k" using l(2) [OF i(2,3,4)] k by auto
    then have "pending V k f" using i by (auto simp: pending_def intro!: exI [of _ i])
    then have "f = g" by (rule fg [OF k])
    then show False using s k i assms(2) unfolding cc_single_def by (metis Suc_n_not_le_n)
  qed
qed

lemma fusion_rel_step:
  assumes V: "V = cc_view c" "cc_linked V" "cc_single V" and k: "k < num_nodes c" and n: "n = nodes c ! k" "\<not> is_fused n"
    and r: "fusion_rel V k s t"
  shows "fusion_rel V (Suc k) (step M n s) (step M (fuse_node V (num_nodes c) k n) t)"
proof -
  have len: "length V = num_nodes c" and Vk: "V ! k = cc_node n" using k n by (simp_all add: V cc_view_def)
  have kl: "k < length V" using k len by simp
  note pn = pending_Suc [OF V(2) kl]
  have st: "x_vals s = x_vals t" "x_ext s = x_ext t" "x_held s = []" "length (x_vals s) = k" using r by (auto simp: fusion_rel_def)
  have none: "x_held t = []" "x_cc s = x_cc t" if "\<And>f. \<not> pending V k f" using r that by (auto simp: fusion_rel_def)
  show ?thesis
  proof (cases "V ! k")
    case None
    then have "is_dead n \<or> \<not> sets_cc (nop n) \<and> nop n \<noteq> FStsw" using Vk by (auto simp: cc_node_def split: if_splits)
    moreover have "fuse_node V (num_nodes c) k n = n" using None by (simp add: fuse_node_def)
    ultimately show ?thesis using r pn(1) [OF None] by (auto simp: fusion_rel_def step_def effect_def)
  next
    case (Some a)
    show ?thesis
    proof (cases a)
      case None
      then have vk: "V ! k = Some None" using Some by simp
      then have c: "\<not> is_dead n" "sets_cc (nop n)" using Vk cc_node_cmp [of n] by simp_all
      have np: "\<And>f. \<not> pending V k f" by (rule pn(2) [OF vk])
      have "(\<exists>i<num_nodes c. V ! i = Some (Some (int k))) = pending V (Suc k) (int k)"
        using linkedD(1) [OF V(2), of _ "int k"] len by (fastforce simp: pending_def Suc_le_eq)
      then have f: "fuse_node V (num_nodes c) k n = (if pending V (Suc k) (int k) then set_fused n else n)"
        by (simp add: fuse_node_def vk)
      have "cmp_of M (set_fused n) vs = cmp_of M n vs" for vs by (simp add: cmp_of_def)
      moreover have "nat f = k" if "pending V (Suc k) f" for f using pn(3) [OF vk that] by simp
      ultimately show ?thesis unfolding f using st none [OF np] c n(2) pn(3) [OF vk]
        by (auto simp: fusion_rel_def step_def effect_def val_of_def sets_cc_side_effect)
    next
      case (Some g)
      then have vk: "V ! k = Some (Some g)" using \<open>V ! k = Some a\<close> by simp
      then have c: "\<not> is_dead n" "nop n = FStsw" "in0 n = g" using Vk cc_node_stsw [of n g] by simp_all
      have nps: "\<And>f. \<not> pending V (Suc k) f" by (rule pn(4) [OF vk V(3)])
      have se: "side_effect FStsw" "\<not> sets_cc FStsw" by (simp_all add: side_effect_def sets_cc_def)
      show ?thesis
      proof (cases "0 \<le> g")
        case True
        then have "pending V k g" using vk linkedD(1) [OF V(2) kl vk] kl by (auto simp: pending_def)
        then obtain w where "x_held t = [(nat g, w)]" "x_cc s = Some w" using r by (auto simp: fusion_rel_def)
        moreover have "fuse_node V (num_nodes c) k n = set_fused n" using vk True k by (simp add: fuse_node_def)
        ultimately show ?thesis using st nps c n(2) se by (simp add: fusion_rel_def step_def effect_def val_of_def)
      next
        case False
        then have "\<not> pending V k f" for f using pn(5) [OF vk, of f] by (auto simp: pending_def)
        moreover have "fuse_node V (num_nodes c) k n = n" using vk False by (simp add: fuse_node_def)
        ultimately show ?thesis using st none nps c n(2) se by (simp add: fusion_rel_def step_def effect_def val_of_def)
      qed
    qed
  qed
qed

lemma pass_fusion_meaning:
  assumes "cc_linked (cc_view c)" "cc_single (cc_view c)" "\<forall>n \<in> set (nodes c). \<not> is_fused n"
  shows "meaning M e (pass_fcom_fstsw_fusion c) = meaning M e c"
proof -
  let ?c = "pass_fcom_fstsw_fusion c" and ?V = "cc_view c"
  have c: "nodes ?c = map (\<lambda>k. fuse_node ?V (num_nodes c) k (nodes c ! k)) [0..<num_nodes c]" "slot_val ?c = slot_val c" "top_delta ?c = top_delta c"
    by (simp_all add: pass_fusion_upto [OF assms(1)] fuse_upto_def)
  have "k \<le> num_nodes c \<Longrightarrow> fusion_rel ?V k (exec M e (take k (nodes c))) (exec M e (take k (nodes ?c)))" for k
  proof (induction k)
    case 0
    then show ?case by (simp add: fusion_rel_def pending_def)
  next
    case (Suc k)
    then show ?case using fusion_rel_step [OF refl assms(1,2), of k "nodes c ! k"] assms(3) by (simp add: exec_take_Suc c(1))
  qed
  from this [of "num_nodes c"] have r: "fusion_rel ?V (num_nodes c) (exec M e (nodes c)) (exec M e (nodes ?c))" by (simp add: c(1))
  have "\<not> pending ?V (num_nodes c) f" for f by (simp add: pending_def cc_view_def)
  then show ?thesis using r by (simp add: meaning_def fusion_rel_def Let_def c(2,3))
qed

end
