(* ===== verification/IRBuildWf.thy ===== *)
theory IRBuildWf
  imports IRSem
begin

text \<open>
  Every builder, and hence \<open>build\<close>, keeps the context well formed, whatever the instructions.
\<close>

section \<open>Every builder keeps the context well formed\<close>

text \<open>What a builder that returns a node promises: a well-formed context and a node of it, or failure.\<close>

definition good_int :: "int \<times> Context \<Rightarrow> bool" where
  "good_int r \<longleftrightarrow> wf_ctx (snd r) \<and> fst r < int (num_nodes (snd r))"

lemma good_intD: "good_int (v, c) \<Longrightarrow> wf_ctx c \<and> v < int (num_nodes c)"
  by (simp add: good_int_def)

lemma wf_set_slot: "wf_ctx c \<Longrightarrow> slot_ok (num_nodes c) v \<Longrightarrow> wf_ctx (set_slot d v c)"
  by (auto simp: wf_ctx_def set_slot_def ref_ok_def node_def list_all_iff dest!: set_update_subset_insert [THEN subsetD])

lemma set_slot_sel [simp]: "nodes (set_slot d v c) = nodes c" "initial_read (set_slot d v c) = initial_read c"
  "slot_val (set_slot d v c) = (slot_val c)[d := v]" "mem_cse (set_slot d v c) = mem_cse c"
  "last_fcomi (set_slot d v c) = last_fcomi c" "top_delta (set_slot d v c) = top_delta c"
  "const_promote (set_slot d v c) = const_promote c"
  by (simp_all add: set_slot_def)

lemma slot_ok_node: "0 \<le> v \<Longrightarrow> v < int k \<Longrightarrow> slot_ok k v"
  by (simp add: slot_ok_def)

lemma wf_ctx_push: "wf_ctx c \<Longrightarrow> 0 \<le> v \<Longrightarrow> v < int (num_nodes c) \<Longrightarrow> wf_ctx (ctx_push v c)"
  by (auto simp: wf_ctx_def ctx_push_def ref_ok_def node_def list_all_iff slot_ok_def dest: in_set_takeD)

lemma wf_ctx_pop: "wf_ctx c \<Longrightarrow> wf_ctx (ctx_pop c)"
  by (auto simp: wf_ctx_def ctx_pop_def ref_ok_def node_def list_all_iff slot_ok_def dest: in_set_dropD)

lemma wf_ctx_pops: "wf_ctx c \<Longrightarrow> wf_ctx ((ctx_pop ^^ n) c)"
  by (induction n) (simp_all add: wf_ctx_pop)

lemma wf_slot: "wf_ctx c \<Longrightarrow> d < 8 \<Longrightarrow> slot_ok (num_nodes c) (slot_val c ! d)"
  by (simp add: wf_ctx_def list_all_length)

lemma wf_initial_read: "wf_ctx c \<Longrightarrow> d < 8 \<Longrightarrow>
   ref_ok c (initial_read c ! d) (\<lambda>n. nop n = ReadSt \<and> npayload n = PDepth (int d))"
  by (simp add: wf_ctx_def)

lemma node_ok_leaf: "arity op1 = 0 \<Longrightarrow> op1 \<noteq> FStsw \<Longrightarrow> node_ok i (fresh op1 (-1) (-1) (-1))"
  by (simp add: node_ok_def)

lemma node_ok_payload [simp]: "node_ok i (n\<lparr>npayload := p\<rparr>) = node_ok i n" "node_ok i (n\<lparr>naux := x\<rparr>) = node_ok i n"
  "flags_ok f \<Longrightarrow> flags_ok (nflags n) \<Longrightarrow> node_ok i (n\<lparr>nflags := f\<rparr>) = node_ok i n"
  by (simp_all add: node_ok_def)

lemma wf_read_table:
  assumes "wf_ctx c" "num_nodes c < kMaxNodes" "d < 8"
  shows "wf_ctx ((emit (fresh ReadSt (-1) (-1) (-1)\<lparr>npayload := PDepth (int d)\<rparr>) c)
           \<lparr>initial_read := (initial_read c)[d := int (num_nodes c)]\<rparr>)"
proof -
  let ?n = "fresh ReadSt (-1) (-1) (-1)\<lparr>npayload := PDepth (int d)\<rparr>"
  have w: "wf_ctx (emit ?n c)" using assms by (intro wf_emit) (simp_all add: node_ok_leaf arity_def)
  have "node (emit ?n c) (int (num_nodes c)) = ?n" by simp
  then show ?thesis using w assms(3)
    by (auto simp: wf_ctx_def ref_ok_def node_def nth_list_update simp del: node_emit)
qed

lemma resolve_unread:
  assumes "d < 8" "\<not> 0 \<le> slot_val c ! d \<and> \<not> slot_val c ! d < - 8" "- (slot_val c ! d + 1) = int k"
  shows "resolve d c = (if initial_read c ! k \<ge> 0 then (initial_read c ! k, set_slot d (initial_read c ! k) c)
          else if num_nodes c \<ge> kMaxNodes then (-1, c)
          else (int (num_nodes c), set_slot d (int (num_nodes c))
            ((emit (fresh ReadSt (-1) (-1) (-1)\<lparr>npayload := PDepth (int k)\<rparr>) c)
              \<lparr>initial_read := (initial_read c)[k := int (num_nodes c)]\<rparr>)))"
  using assms by (simp add: resolve_def Let_def add_node_emit)

lemma resolve_good: "wf_ctx c \<Longrightarrow> good_int (resolve d c)"
proof -
  assume wf: "wf_ctx c"
  show ?thesis
  proof (cases "d < 8")
    case True
    define v where "v = slot_val c ! d"
    have sv: "slot_ok (num_nodes c) v" using wf True by (simp add: v_def wf_slot)
    show ?thesis
    proof (cases "0 \<le> v \<or> v < - 8")
      case T: True
      then show ?thesis using wf True sv by (auto simp: resolve_def good_int_def Let_def slot_ok_def simp flip: v_def)
    next
      case False
      define k where "k = nat (- (v + 1))"
      have k: "k < 8" "- (v + 1) = int k" using False by (simp_all add: k_def nat_less_iff)
      note ir = wf_initial_read [OF wf k(1)]
      have s: "wf_ctx (set_slot d (int (num_nodes c)) ((emit (fresh ReadSt (-1) (-1) (-1)\<lparr>npayload := PDepth (int k)\<rparr>) c)
           \<lparr>initial_read := (initial_read c)[k := int (num_nodes c)]\<rparr>))" if "num_nodes c < kMaxNodes"
        using wf_read_table [OF wf that k(1)] by (rule wf_set_slot) (simp add: slot_ok_def)
      have r: "resolve d c = (if initial_read c ! k \<ge> 0 then (initial_read c ! k, set_slot d (initial_read c ! k) c)
          else if num_nodes c \<ge> kMaxNodes then (-1, c)
          else (int (num_nodes c), set_slot d (int (num_nodes c))
            ((emit (fresh ReadSt (-1) (-1) (-1)\<lparr>npayload := PDepth (int k)\<rparr>) c)
              \<lparr>initial_read := (initial_read c)[k := int (num_nodes c)]\<rparr>)))"
        by (rule resolve_unread) (use True False k(2) in \<open>simp_all add: v_def\<close>)
      have "wf_ctx (set_slot d (initial_read c ! k) c)" if "0 \<le> initial_read c ! k"
        using wf ir that by (intro wf_set_slot slot_ok_node) (auto simp: ref_ok_def)
      then show ?thesis using wf ir s unfolding r by (auto simp: good_int_def ref_ok_def)
    qed
  qed (simp add: resolve_def good_int_def \<open>wf_ctx c\<close>)
qed


lemma wf_tables [simp]:
  "wf_ctx (c\<lparr>mem_cse_next := k\<rparr>) = wf_ctx c" "wf_ctx (c\<lparr>const_f64_next := k\<rparr>) = wf_ctx c"
  "wf_ctx (c\<lparr>guest_written_mask := m\<rparr>) = wf_ctx c" "wf_ctx (c\<lparr>consumed := z\<rparr>) = wf_ctx c"
  "wf_ctx (c\<lparr>const_promote := b\<rparr>) = wf_ctx c"
  by (simp_all add: wf_ctx_def ref_ok_def node_def)

lemma wf_const_f64:
  assumes "wf_ctx c" "list_all (\<lambda>(v, b). 0 \<le> v \<and> ref_ok c v (\<lambda>n. nop n = ConstF64 \<and> npayload n = PImm b)) xs"
  shows "wf_ctx (c\<lparr>const_f64 := xs\<rparr>)"
  using assms by (simp add: wf_ctx_def ref_ok_def node_def)

lemma wf_const_f64_entries:
  "wf_ctx c \<Longrightarrow> list_all (\<lambda>(v, b). 0 \<le> v \<and> ref_ok c v (\<lambda>n. nop n = ConstF64 \<and> npayload n = PImm b)) (const_f64 c)"
  by (simp add: wf_ctx_def)

lemma list_all_update: "list_all P xs \<Longrightarrow> P x \<Longrightarrow> list_all P (xs[i := x])"
  by (auto simp: list_all_iff dest!: set_update_subset_insert [THEN subsetD])

lemma const_find_ref:
  "list_all (\<lambda>(v, b). 0 \<le> v \<and> ref_ok c v (Q b)) es \<Longrightarrow> list_ex (\<lambda>(i, b). b = bits) es \<Longrightarrow>
   0 \<le> const_find bits es \<and> ref_ok c (const_find bits es) (Q bits)"
  by (induction bits es rule: const_find.induct) auto

lemma build_const_good: "wf_ctx c \<Longrightarrow> good_int (build_const bits c)"
proof -
  assume wf: "wf_ctx c"
  let ?n = "fresh ConstF64 (-1) (-1) (-1)\<lparr>npayload := PImm bits\<rparr>"
  let ?e = "emit ?n c"
  have new: "0 \<le> int (num_nodes c) \<and> ref_ok ?e (int (num_nodes c)) (\<lambda>n. nop n = ConstF64 \<and> npayload n = PImm bits)"
    by (simp add: ref_ok_def)
  have w: "wf_ctx ?e" if "num_nodes c < kMaxNodes" using wf that by (intro wf_emit) (simp_all add: node_ok_leaf arity_def)
  have "wf_ctx (?e\<lparr>const_f64 := const_f64 c @ [(int (num_nodes c), bits)]\<rparr>)"
    "wf_ctx (?e\<lparr>const_f64 := (const_f64 c)[k := (int (num_nodes c), bits)]\<rparr>)" if "num_nodes c < kMaxNodes" for k
    using w [OF that] wf_const_f64_entries [OF w [OF that]] new
    by (auto intro!: wf_const_f64 list_all_update)
  then show ?thesis using wf const_find_ref [OF wf_const_f64_entries [OF wf], of bits]
    by (auto simp: build_const_def Let_def add_node_emit good_int_def ref_ok_def)
qed

lemma build_zero_good: "wf_ctx c \<Longrightarrow> good_int (build_zero c)"
  and build_one_good: "wf_ctx c \<Longrightarrow> good_int (build_one c)"
proof -
  assume wf: "wf_ctx c"
  have z: "wf_ctx ((emit (fresh ConstZero (-1) (-1) (-1)) c)\<lparr>const_zero_node := int (num_nodes c)\<rparr>)"
    "wf_ctx ((emit (fresh ConstOne (-1) (-1) (-1)) c)\<lparr>const_one_node := int (num_nodes c)\<rparr>)"
    if "num_nodes c < kMaxNodes"
    using wf_emit [OF wf that node_ok_leaf [of ConstZero]] wf_emit [OF wf that node_ok_leaf [of ConstOne]]
    by (auto simp: wf_ctx_def ref_ok_def node_def arity_def)
  have r: "ref_ok c (const_zero_node c) (\<lambda>n. nop n = ConstZero)" "ref_ok c (const_one_node c) (\<lambda>n. nop n = ConstOne)"
    using wf by (simp_all add: wf_ctx_def)
  show "good_int (build_zero c)" "good_int (build_one c)"
    using wf z r by (auto simp: build_zero_def build_one_def Let_def add_node_emit good_int_def ref_ok_def)
qed

lemma const_node_good: "wf_ctx c \<Longrightarrow> good_int (const_node_for_bits bits c)"
  by (simp add: const_node_for_bits_def build_zero_good build_one_good build_const_good)

lemma try_const_promote_good: "wf_ctx c \<Longrightarrow> good_int (try_const_promote ro op1 k c)"
  and try_const_promote_m80_good: "wf_ctx c \<Longrightarrow> good_int (try_const_promote_m80 ro op1 c)"
proof -
  assume wf: "wf_ctx c"
  then have "good_int (- 1, c)" by (simp add: good_int_def)
  then show "good_int (try_const_promote ro op1 k c)" "good_int (try_const_promote_m80 ro op1 c)"
    using const_node_good [OF wf]
    by (auto simp: try_const_promote_def try_const_promote_m80_def split: option.split)
qed

lemma cse_entries: "wf_ctx c \<Longrightarrow> list_all (\<lambda>(op1, k, v). 0 \<le> v \<and> v < int (num_nodes c)) (mem_cse c)"
  by (simp add: wf_ctx_def)

lemma cse_find_bound: "list_all (\<lambda>(op1, k, v). 0 \<le> v \<and> v < b) es \<Longrightarrow> 0 \<le> b \<Longrightarrow> cse_find op2 k2 es < b"
  by (induction op2 k2 es rule: cse_find.induct) auto

lemma wf_cse: "wf_ctx c \<Longrightarrow> list_all (\<lambda>(op1, k, v). 0 \<le> v \<and> v < int (num_nodes c)) xs \<Longrightarrow> wf_ctx (c\<lparr>mem_cse := xs\<rparr>)"
  by (simp add: wf_ctx_def ref_ok_def node_def)

lemma wf_cse_insert: "wf_ctx c \<Longrightarrow> 0 \<le> v \<Longrightarrow> v < int (num_nodes c) \<Longrightarrow> wf_ctx (mem_cse_insert op1 k v c)"
  using cse_entries [of c] by (auto simp: mem_cse_insert_def intro!: wf_cse list_all_update)

lemma num_cse_insert [simp]: "nodes (mem_cse_insert op1 k v c) = nodes c"
  by (simp add: mem_cse_insert_def)

lemma wf_evict: "wf_ctx c \<Longrightarrow> wf_ctx (mem_cse_evict_may_alias op1 c)" "wf_ctx c \<Longrightarrow> wf_ctx (mem_cse_evict_reg r c)"
proof -
  assume wf: "wf_ctx c"
  have f: "list_all (\<lambda>(op1, k, v). 0 \<le> v \<and> v < int (num_nodes c)) (filter P (mem_cse c))" for P
    using cse_entries [OF wf] by (auto simp: list_all_iff)
  show "wf_ctx (mem_cse_evict_may_alias op1 c)" "wf_ctx (mem_cse_evict_reg r c)"
    using wf_cse [OF wf f] by (simp_all add: mem_cse_evict_may_alias_def mem_cse_evict_reg_def)
qed

lemma nodes_evict [simp]: "nodes (mem_cse_evict_may_alias op1 c) = nodes c" "nodes (mem_cse_evict_reg r c) = nodes c"
  by (simp_all add: mem_cse_evict_may_alias_def mem_cse_evict_reg_def)

lemma wf_emit_leaf: "wf_ctx c \<Longrightarrow> num_nodes c < kMaxNodes \<Longrightarrow> arity op1 = 0 \<Longrightarrow> op1 \<noteq> FStsw \<Longrightarrow>
    wf_ctx (emit (fresh op1 (-1) (-1) (-1)\<lparr>npayload := p\<rparr>) c)"
  by (rule wf_emit) (simp_all add: node_ok_leaf)

lemma build_int_load_good: "wf_ctx c \<Longrightarrow> good_int (build_int_load op1 c)"
proof -
  assume wf: "wf_ctx c"
  have hit: "mem_cse_lookup op1 k c < int (num_nodes c)" for k
    using cse_find_bound [OF cse_entries [OF wf]] by (simp add: mem_cse_lookup_def)
  have a: "int_load_op z = Some k \<Longrightarrow> arity k = 0 \<and> k \<noteq> FStsw" for z k
    by (auto simp: int_load_op_def arity_def split: if_splits)
  show ?thesis using wf hit wf_emit_leaf [OF wf] a
    by (auto simp: build_int_load_def Let_def add_node_emit good_int_def intro!: wf_cse_insert split: option.split)
qed

lemma node_ok_unary: "arity op1 = 1 \<Longrightarrow> 0 \<le> v \<Longrightarrow> v < int i \<Longrightarrow> node_ok i (fresh op1 v (-1) (-1))"
  by (auto simp: node_ok_def arity_def)

lemma node_ok_binary: "arity op1 = 2 \<Longrightarrow> 0 \<le> v \<Longrightarrow> v < int i \<Longrightarrow> 0 \<le> w \<Longrightarrow> w < int i \<Longrightarrow> node_ok i (fresh op1 v w (-1))"
  by (auto simp: node_ok_def arity_def)

lemma build_fp_load_good: "wf_ctx c \<Longrightarrow> good_int (build_fp_load ro op1 c)"
proof -
  assume wf: "wf_ctx c"
  define k where "k = (if osize op1 = S32 then LoadF32Raw else LoadF64)"
  have k: "arity k = 0" "k \<noteq> FStsw" by (simp_all add: k_def arity_def)
  obtain v c1 where p: "try_const_promote ro op1 k c = (v, c1)" by fastforce
  have w1: "wf_ctx c1" "v < int (num_nodes c1)" using try_const_promote_good [OF wf, of ro op1 k] p by (simp_all add: good_int_def)
  have hit: "mem_cse_lookup op1 k c1 < int (num_nodes c1)"
    using cse_find_bound [OF cse_entries [OF w1(1)]] by (simp add: mem_cse_lookup_def)
  let ?e = "emit (fresh k (-1) (-1) (-1)\<lparr>npayload := PMem op1\<rparr>) c1"
  have e: "wf_ctx ?e" if "num_nodes c1 < kMaxNodes" using wf_emit_leaf [OF w1(1) that k] .
  have e2: "wf_ctx (emit (fresh CvtF32ToF64 (int (num_nodes c1)) (-1) (-1)) ?e)" if "num_nodes ?e < kMaxNodes"
    using that by (intro wf_emit e) (simp_all add: node_ok_unary arity_def)
  show ?thesis using wf p w1 hit e e2 try_const_promote_m80_good [OF wf, of ro op1]
    by (auto simp: build_fp_load_def new_fp_load_def Let_def add_node_emit good_int_def simp flip: k_def
        intro!: wf_cse_insert)
qed


lemma wf_fields [simp]:
  "v < int (num_nodes c) \<Longrightarrow> wf_ctx c \<Longrightarrow> wf_ctx (c\<lparr>last_fcmp := v\<rparr>)"
  "v < int (num_nodes c) \<Longrightarrow> wf_ctx c \<Longrightarrow> wf_ctx (c\<lparr>last_fcomi := v\<rparr>)"
  by (simp_all add: wf_ctx_def ref_ok_def node_def)

lemma wf_narrow:
  "wf_ctx c \<Longrightarrow> 0 \<le> w \<Longrightarrow> w < int (num_nodes c) \<Longrightarrow> v < int (num_nodes c) \<Longrightarrow>
   wf_ctx (c\<lparr>last_narrow_input := v, last_narrow_node := w\<rparr>)"
  by (simp add: wf_ctx_def ref_ok_def node_def)

lemma good_int_cases [consumes 1, case_names res]:
  assumes "good_int r" obtains v c where "r = (v, c)" "wf_ctx c" "v < int (num_nodes c)"
  using assms by (cases r) (auto simp: good_int_def)

lemma wf_binary:
  assumes "wf_ctx c" "arity op1 = 2" "0 \<le> v" "v < int (num_nodes c)" "0 \<le> w" "w < int (num_nodes c)"
  shows "num_nodes c < kMaxNodes \<Longrightarrow> wf_ctx (emit (fresh op1 v w (-1)) c)"
  using assms by (intro wf_emit node_ok_binary)

lemma wf_unary:
  assumes "wf_ctx c" "arity op1 = 1" "0 \<le> v" "v < int (num_nodes c)"
  shows "num_nodes c < kMaxNodes \<Longrightarrow> wf_ctx (emit (fresh op1 v (-1) (-1)) c)"
  using assms by (intro wf_emit node_ok_unary)

text \<open>Resolving never removes a node.\<close>

lemma resolve_nodes: "wf_ctx c \<Longrightarrow> num_nodes c \<le> num_nodes (snd (resolve d c))"
  by (auto simp: resolve_def Let_def add_node_emit update_node_def set_slot_def)

lemma fp_load_nodes: "num_nodes c \<le> num_nodes (snd (build_fp_load ro op1 c))"
  by (auto simp: build_fp_load_def new_fp_load_def try_const_promote_def try_const_promote_m80_def const_node_for_bits_def
      build_zero_def build_one_def build_const_def Let_def add_node_emit split: option.split prod.splits if_splits)

lemma int_load_nodes: "num_nodes c \<le> num_nodes (snd (build_int_load op1 c))"
  by (auto simp: build_int_load_def Let_def add_node_emit split: option.split)

text \<open>Two resolved operands, and the node built from them.\<close>

lemma resolve2_good:
  assumes "wf_ctx c"
  obtains v c1 w c2 where "resolve d c = (v, c1)" "resolve e c1 = (w, c2)" "wf_ctx c2"
    "v < int (num_nodes c2)" "w < int (num_nodes c2)"
proof -
  obtain v c1 where 1: "resolve d c = (v, c1)" "wf_ctx c1" "v < int (num_nodes c1)"
    using resolve_good [OF assms, of d] by (rule good_int_cases)
  obtain w c2 where 2: "resolve e c1 = (w, c2)" "wf_ctx c2" "w < int (num_nodes c2)"
    using resolve_good [OF 1(2), of e] by (rule good_int_cases)
  have "num_nodes c1 \<le> num_nodes c2" using resolve_nodes [OF 1(2), of e] 2(1) by simp
  then show thesis using that 1 2 by fastforce
qed

lemma resolve_then_good:
  assumes "wf_ctx c" "\<And>c1. wf_ctx c1 \<Longrightarrow> good_int (f c1)" "\<And>c1. num_nodes c1 \<le> num_nodes (snd (f c1))"
  obtains v c1 w c2 where "resolve d c = (v, c1)" "f c1 = (w, c2)" "wf_ctx c1" "wf_ctx c2"
    "v < int (num_nodes c1)" "v < int (num_nodes c2)" "w < int (num_nodes c2)"
proof -
  obtain v c1 where 1: "resolve d c = (v, c1)" "wf_ctx c1" "v < int (num_nodes c1)"
    using resolve_good [OF assms(1), of d] by (rule good_int_cases)
  obtain w c2 where 2: "f c1 = (w, c2)" "wf_ctx c2" "w < int (num_nodes c2)"
    using assms(2) [OF 1(2)] by (rule good_int_cases)
  have "num_nodes c1 \<le> num_nodes c2" using assms(3) [of c1] 2(1) by simp
  then show thesis using that 1 2 by fastforce
qed

lemma resolve_fp_load:
  assumes "wf_ctx c"
  obtains v c1 w c2 where "resolve 0 c = (v, c1)" "build_fp_load ro op1 c1 = (w, c2)" "wf_ctx c1" "wf_ctx c2"
    "v < int (num_nodes c1)" "v < int (num_nodes c2)" "w < int (num_nodes c2)"
  using resolve_then_good [OF assms, of "build_fp_load ro op1" 0 thesis] build_fp_load_good fp_load_nodes that by blast

lemma resolve_int_load:
  assumes "wf_ctx c"
  obtains v c1 w c2 where "resolve 0 c = (v, c1)" "build_int_load op1 c1 = (w, c2)" "wf_ctx c1" "wf_ctx c2"
    "v < int (num_nodes c1)" "v < int (num_nodes c2)" "w < int (num_nodes c2)"
  using resolve_then_good [OF assms, of "build_int_load op1" 0 thesis] build_int_load_good int_load_nodes that by blast

lemma build_arith_wf:
  assumes "wf_ctx c" "arity base_op = 2"
  shows "wf_ctx (snd (build_arith ro instr base_op rv c))"
proof (cases "kind (operand0 instr) = KRegister")
  case True
  obtain v c1 w c2 where r: "resolve (odepth (operand0 instr)) c = (v, c1)" "resolve (odepth (operand1 instr)) c1 = (w, c2)"
    "wf_ctx c2" "v < int (num_nodes c2)" "w < int (num_nodes c2)" using resolve2_good [OF assms(1)] by metis
  show ?thesis using True r wf_binary [OF r(3) assms(2)]
    by (auto simp: build_arith_def Let_def add_node_emit intro!: wf_set_slot slot_ok_node)
next
  case False
  obtain v c1 w c2 where r: "resolve 0 c = (v, c1)" "build_fp_load ro (operand0 instr) c1 = (w, c2)" "wf_ctx c1"
    "wf_ctx c2" "v < int (num_nodes c1)" "v < int (num_nodes c2)" "w < int (num_nodes c2)"
    using resolve_fp_load [OF assms(1)] by metis
  show ?thesis using False r wf_binary [OF r(4) assms(2)]
    by (auto simp: build_arith_def Let_def add_node_emit intro!: wf_set_slot slot_ok_node)
qed


lemma build_arithp_wf:
  assumes "wf_ctx c" "arity base_op = 2"
  shows "wf_ctx (snd (build_arithp instr base_op rv c))"
proof -
  obtain v c1 w c2 where r: "resolve (odepth (operand0 instr)) c = (v, c1)" "resolve 0 c1 = (w, c2)"
    "wf_ctx c2" "v < int (num_nodes c2)" "w < int (num_nodes c2)" using resolve2_good [OF assms(1)] by metis
  show ?thesis using r wf_binary [OF r(3) assms(2)]
    by (auto simp: build_arithp_def Let_def add_node_emit intro!: wf_ctx_pop wf_set_slot slot_ok_node)
qed

lemma build_iarith_wf:
  assumes "wf_ctx c" "arity base_op = 2"
  shows "wf_ctx (snd (build_iarith instr base_op rv c))"
proof -
  obtain v c1 w c2 where r: "resolve 0 c = (v, c1)" "build_int_load (operand0 instr) c1 = (w, c2)" "wf_ctx c1"
    "wf_ctx c2" "v < int (num_nodes c1)" "v < int (num_nodes c2)" "w < int (num_nodes c2)"
    using resolve_int_load [OF assms(1)] by metis
  show ?thesis using r wf_binary [OF r(4) assms(2)]
    by (auto simp: build_iarith_def Let_def add_node_emit intro!: wf_set_slot slot_ok_node)
qed

lemma build_fcom_wf:
  assumes "wf_ctx c"
  shows "wf_ctx (snd (build_fcom ro instr n pp c))"
proof -
  let ?f = "\<lambda>c1. if pp then resolve 1 c1 else if kind (operand1 instr) = KRegister then resolve (odepth (operand1 instr)) c1
                 else build_fp_load ro (operand1 instr) c1"
  have f: "wf_ctx c1 \<Longrightarrow> good_int (?f c1)" for c1 by (simp add: resolve_good build_fp_load_good)
  obtain v c1 where 1: "resolve 0 c = (v, c1)" "wf_ctx c1" "v < int (num_nodes c1)"
    using resolve_good [OF assms, of 0] by (rule good_int_cases)
  obtain w c2 where 2: "?f c1 = (w, c2)" "wf_ctx c2" "w < int (num_nodes c2)"
    using f [OF 1(2)] by (rule good_int_cases)
  have "num_nodes c1 \<le> num_nodes (snd (?f c1))" using resolve_nodes [OF 1(2)] fp_load_nodes [of c1] by simp
  then have v: "v < int (num_nodes c2)" using 1(3) 2(1) by simp
  show ?thesis using 1 2 v wf_binary [OF 2(2), of FCmp v w]
    by (auto simp: build_fcom_def Let_def add_node_emit arity_def intro!: wf_ctx_pops)
qed

lemma build_ficom_wf:
  assumes "wf_ctx c"
  shows "wf_ctx (snd (build_ficom instr p c))"
proof -
  obtain v c1 w c2 where r: "resolve 0 c = (v, c1)" "build_int_load (operand0 instr) c1 = (w, c2)" "wf_ctx c1"
    "wf_ctx c2" "v < int (num_nodes c1)" "v < int (num_nodes c2)" "w < int (num_nodes c2)"
    using resolve_int_load [OF assms] by metis
  show ?thesis using r wf_binary [OF r(4), of FCmp v w]
    by (auto simp: build_ficom_def Let_def add_node_emit arity_def intro!: wf_ctx_pop)
qed

lemma build_fcomi_wf:
  assumes "wf_ctx c"
  shows "wf_ctx (snd (build_fcomi instr p c))"
proof -
  obtain v c1 w c2 where r: "resolve 0 c = (v, c1)" "resolve (odepth (operand1 instr)) c1 = (w, c2)"
    "wf_ctx c2" "v < int (num_nodes c2)" "w < int (num_nodes c2)" using resolve2_good [OF assms] by metis
  have "wf_ctx (emit (fresh FComI v w (-1)\<lparr>nflags := kFcomIPopping\<rparr>) c2)" "wf_ctx (emit (fresh FComI v w (-1)) c2)"
    if "0 \<le> v" "0 \<le> w" "num_nodes c2 < kMaxNodes"
    using that r by (auto intro!: wf_emit node_ok_binary simp: arity_def)
  moreover have "wf_ctx c1" using resolve_good [OF assms, of 0] r(1) by (simp add: good_int_def)
  ultimately show ?thesis using r
    by (auto simp: build_fcomi_def Let_def add_node_emit intro!: wf_ctx_pop)
qed

lemma build_fcmov_wf:
  assumes "wf_ctx c"
  shows "wf_ctx (snd (build_fcmov instr cc c))"
proof -
  obtain v c1 w c2 where r: "resolve 0 c = (v, c1)" "resolve (odepth (operand1 instr)) c1 = (w, c2)"
    "wf_ctx c2" "v < int (num_nodes c2)" "w < int (num_nodes c2)" using resolve2_good [OF assms] by metis
  have "wf_ctx (emit (fresh FCSel v w (-1)\<lparr>npayload := PImm cc\<rparr>) c2)"
    if "0 \<le> v" "0 \<le> w" "num_nodes c2 < kMaxNodes"
    using that r by (auto intro!: wf_emit node_ok_binary simp: arity_def)
  moreover have "wf_ctx c1" using resolve_good [OF assms, of 0] r(1) by (simp add: good_int_def)
  ultimately show ?thesis using assms r
    by (auto simp: build_fcmov_def Let_def add_node_emit intro!: wf_set_slot slot_ok_node)
qed

lemma wf_node: "wf_ctx c \<Longrightarrow> 0 \<le> v \<Longrightarrow> v < int (num_nodes c) \<Longrightarrow> node_ok (nat v) (node c v)"
  by (simp add: wf_ctx_def node_def)

lemma build_fchs_wf:
  assumes "wf_ctx c"
  shows "wf_ctx (snd (build_fchs c))"
proof -
  obtain v c1 where r: "resolve 0 c = (v, c1)" "wf_ctx c1" "v < int (num_nodes c1)"
    using resolve_good [OF assms, of 0] by (rule good_int_cases)
  have "0 \<le> in0 (node c1 v) \<and> in0 (node c1 v) < int (num_nodes c1)" if "nop (node c1 v) = FNeg" "0 \<le> v"
    using wf_node [OF r(2) that(2) r(3)] that r(3) by (simp add: node_ok_def arity_def)
  then show ?thesis using r wf_unary [OF r(2), of FNeg v]
    by (auto simp: build_fchs_def Let_def add_node_emit arity_def intro!: wf_set_slot slot_ok_node)
qed

lemma build_unary_wf:
  assumes "wf_ctx c" "arity op1 = 1"
  shows "wf_ctx (snd (build_unary op1 c))"
proof -
  obtain v c1 where r: "resolve 0 c = (v, c1)" "wf_ctx c1" "v < int (num_nodes c1)"
    using resolve_good [OF assms(1), of 0] by (rule good_int_cases)
  then show ?thesis using wf_unary [OF r(2) assms(2)]
    by (auto simp: build_unary_def Let_def add_node_emit intro!: wf_set_slot slot_ok_node)
qed

lemma build_ftst_wf:
  assumes "wf_ctx c"
  shows "wf_ctx (snd (build_ftst c))"
proof -
  obtain v c1 where r: "resolve 0 c = (v, c1)" "wf_ctx c1" "v < int (num_nodes c1)"
    using resolve_good [OF assms, of 0] by (rule good_int_cases)
  then show ?thesis using wf_unary [OF r(2), of FTst v]
    by (auto simp: build_ftst_def Let_def add_node_emit arity_def)
qed

lemma build_fxch_wf:
  assumes "wf_ctx c"
  shows "wf_ctx (snd (build_fxch instr c))"
proof -
  let ?d = "odepth (operand1 instr)"
  obtain v c1 w c2 where r: "resolve 0 c = (v, c1)" "resolve ?d c1 = (w, c2)" "wf_ctx c2"
    using resolve2_good [OF assms] by metis
  show ?thesis using assms r wf_slot [OF r(3)]
    by (auto simp: build_fxch_def Let_def intro!: wf_set_slot)
qed


lemma store_value_wf:
  assumes "wf_ctx c" "0 \<le> v" "v < int (num_nodes c)" "store_value b v c = Some (x, c1)"
  shows "wf_ctx c1 \<and> 0 \<le> x \<and> x < int (num_nodes c1) \<and> num_nodes c \<le> num_nodes c1"
proof -
  have cvt: "0 \<le> in0 (node c v) \<and> in0 (node c v) < int (num_nodes c)" if "nop (node c v) = CvtF32ToF64"
    using wf_node [OF assms(1-3)] that assms(2,3) by (auto simp: node_ok_def arity_def)
  have nar: "0 \<le> last_narrow_node c \<and> last_narrow_node c < int (num_nodes c)" if "last_narrow_input c = v"
    using assms(1-3) that by (auto simp: wf_ctx_def ref_ok_def)
  have nw: "wf_ctx ((emit (fresh CvtF64ToF32 v (-1) (-1)) c)\<lparr>last_narrow_input := v, last_narrow_node := int (num_nodes c)\<rparr>)"
    if "num_nodes c < kMaxNodes"
    using wf_unary [OF assms(1), of CvtF64ToF32 v] that assms(2,3) by (intro wf_narrow) (simp_all add: arity_def)
  show ?thesis using assms cvt nar nw by (auto simp: store_value_def add_node_emit split: if_splits)
qed

lemma forward_store_wf:
  assumes "wf_ctx c" "0 \<le> v" "v < int (num_nodes c)" "0 \<le> x" "x < int (num_nodes c)"
  shows "wf_ctx (forward_store b op1 v x c)"
  using assms by (auto simp: forward_store_def add_node_emit Let_def arity_def intro!: wf_cse_insert wf_unary)

lemma build_fp_store_wf:
  assumes "wf_ctx c" "0 \<le> v" "v < int (num_nodes c)"
  shows "wf_ctx (snd (build_fp_store op1 v c))"
proof (cases "store_value (osize op1 = S32) v c")
  case (Some p)
  obtain x c1 where p: "p = (x, c1)" by fastforce
  note s = store_value_wf [OF assms Some [unfolded p]]
  have "wf_ctx (emit (fresh k x (-1) (-1)\<lparr>npayload := PMem op1\<rparr>) c1)" if "num_nodes c1 < kMaxNodes" "arity k = 1" for k
    using that s by (intro wf_emit) (simp_all add: node_ok_unary)
  then show ?thesis using assms s Some p
    by (auto simp: build_fp_store_def Let_def add_node_emit arity_def intro!: forward_store_wf wf_evict)
qed (simp add: build_fp_store_def Let_def assms(1))

lemma build_int_store_wf:
  assumes "wf_ctx c" "0 \<le> v" "v < int (num_nodes c)"
  shows "wf_ctx (snd (build_int_store op1 v b c))"
proof -
  have a: "int_store_op z = Some k \<Longrightarrow> arity k = 1" for z k
    by (auto simp: int_store_op_def arity_def split: if_splits)
  have e: "wf_ctx (emit (fresh k v (-1) (-1)\<lparr>npayload := PMem op1\<rparr>) c)" if "num_nodes c < kMaxNodes" "arity k = 1" for k
    using that assms by (intro wf_emit) (simp_all add: node_ok_unary)
  have f: "wf_ctx (emit (fresh k v (-1) (-1)\<lparr>npayload := PMem op1, nflags := kTruncate\<rparr>) c)"
    if "num_nodes c < kMaxNodes" "arity k = 1" for k
    using that assms by (intro wf_emit) (simp_all add: node_ok_unary)
  show ?thesis using assms e f a
    by (auto simp: build_int_store_def Let_def add_node_emit split: option.split intro!: wf_evict)
qed

lemma build_fst_wf:
  assumes "wf_ctx c"
  shows "wf_ctx (snd (build_fst instr p c))" "wf_ctx (snd (build_fist instr op c))"
proof -
  obtain v c1 where r: "resolve 0 c = (v, c1)" "wf_ctx c1" "v < int (num_nodes c1)"
    using resolve_good [OF assms, of 0] by (rule good_int_cases)
  have s: "wf_ctx (snd (build_fp_store op1 v c1))" "wf_ctx (snd (build_int_store op1 v b c1))" if "0 \<le> v" for op1 b
    using that r build_fp_store_wf build_int_store_wf by auto
  show "wf_ctx (snd (build_fst instr p c))" "wf_ctx (snd (build_fist instr op c))"
    using r s by (auto simp: build_fst_def build_fist_def Let_def split_beta intro!: wf_ctx_pop wf_set_slot slot_ok_node)
qed

lemma guest_payload_leaf: "guest_reg_payload op dst src = Some (k, p) \<Longrightarrow> arity k = 0 \<and> k \<noteq> FStsw"
  by (auto simp: guest_reg_payload_def Let_def arity_def split: if_splits)

lemma wf_emit_guest: "wf_ctx c \<Longrightarrow> num_nodes c < kMaxNodes \<Longrightarrow> arity op1 = 0 \<Longrightarrow> op1 \<noteq> FStsw \<Longrightarrow>
    wf_ctx (emit (fresh op1 (-1) (-1) (-1)\<lparr>npayload := p, naux := x\<rparr>) c)"
  by (rule wf_emit) (simp_all add: node_ok_leaf)

lemma build_guest_store_wf: "wf_ctx c \<Longrightarrow> wf_ctx (snd (build_guest_store instr c))"
  by (auto simp: build_guest_store_def Let_def add_node_emit arity_def intro!: wf_evict wf_emit_guest)

lemma build_guest_load_wf: "wf_ctx c \<Longrightarrow> wf_ctx (snd (build_guest_load instr op c))"
  by (auto simp: build_guest_load_def Let_def add_node_emit arity_def intro!: wf_evict wf_emit_guest)

lemma build_guest_reg_wf: "wf_ctx c \<Longrightarrow> wf_ctx (snd (build_guest_reg instr op c))"
  by (auto simp: build_guest_reg_def Let_def add_node_emit split: option.split dest!: guest_payload_leaf
      intro!: wf_evict wf_emit_leaf)

lemma build_guest_int_wf: "wf_ctx c \<Longrightarrow> wf_ctx (snd (build_guest_int cfg instr op c))"
  by (simp add: build_guest_int_def Let_def build_guest_store_wf build_guest_load_wf build_guest_reg_wf)

lemma wf_resolve_push:
  "good_int r \<Longrightarrow> wf_ctx (snd (push_result r))"
  by (auto simp: push_result_def good_int_def intro: wf_ctx_push)

lemma build_fstsw_wf: "wf_ctx c \<Longrightarrow> wf_ctx (snd (build_fstsw instr c))"
proof -
  assume wf: "wf_ctx c"
  have "wf_ctx (emit (fresh FStsw (-1) (-1) (-1)\<lparr>in0 := last_fcmp c, in1 := a, in2 := b\<rparr>) c)" if "num_nodes c < kMaxNodes" for a b
    using wf that by (intro wf_emit) (simp_all add: node_ok_def wf_ctx_def)
  then show ?thesis using wf by (auto simp: build_fstsw_def Let_def add_node_emit intro!: wf_evict)
qed

lemma build_cw_wf: "wf_ctx c \<Longrightarrow> wf_ctx (snd (build_fldcw instr c))" "wf_ctx c \<Longrightarrow> wf_ctx (snd (build_fnstcw instr c))"
  by (auto simp: build_fldcw_def build_fnstcw_def Let_def add_node_emit arity_def intro!: wf_evict wf_emit_leaf)

lemmas builder_wf = build_arith_wf build_arithp_wf build_iarith_wf build_fcom_wf build_ficom_wf build_fcomi_wf
  build_fcmov_wf build_fchs_wf build_unary_wf build_ftst_wf build_fxch_wf build_fst_wf build_guest_int_wf
  build_fstsw_wf build_cw_wf

lemma build_instr_wf: "wf_ctx c \<Longrightarrow> wf_ctx (snd (build_instr cfg ro instr c))"
  unfolding build_instr_def Let_def
  by (simp add: builder_wf arity_def wf_resolve_push resolve_good build_fp_load_good build_int_load_good
      build_const_good build_zero_good build_one_good)
    (blast intro: build_guest_int_wf)

lemma build_loop_wf: "wf_ctx c \<Longrightarrow> wf_ctx (build_loop cfg ro ins i c)"
proof (induction ins arbitrary: i c)
  case (Cons instr ins)
  then show ?case using build_instr_wf [of c cfg ro instr] by (simp add: Let_def split_beta)
qed simp


lemma wf_init: "wf_ctx Context_init"
  by code_simp

lemma fold_perm_wf: "wf_ctx c \<Longrightarrow> wf_ctx (snd (fold_perm pm ds c))"
proof (induction ds arbitrary: c)
  case (Cons d ds)
  then show ?case using resolve_good [OF Cons.prems, of d] by (auto simp: Let_def split_beta good_int_def)
qed simp

lemma build_wf_ctx:
  assumes "\<And>p. pm = Some p \<Longrightarrow> (\<forall>d < 8. 0 \<le> p ! d \<and> p ! d < 8)"
  shows "wf_ctx (snd (build cfg ro ins start n pm cp))"
proof -
  have i: "wf_ctx (Context_init\<lparr>const_promote := cp\<rparr>)" by (simp add: wf_init)
  have p: "wf_ctx (Context_init\<lparr>const_promote := cp, slot_val := map (\<lambda>d. - (p ! d + 1)) [0..<8]\<rparr>)" if "pm = Some p" for p
  proof -
    have "list_all (slot_ok 0) (map (\<lambda>d. - (p ! d + 1)) [0..<8])"
      using assms [OF that] by (auto simp: list_all_iff slot_ok_def)
    then show ?thesis using i by (simp add: wf_ctx_def ref_ok_def node_def Context_init_def mem_cse_clear_def)
  qed
  show ?thesis using i p
    by (auto simp: build_def Let_def split_beta intro!: build_loop_wf fold_perm_wf split: option.split)
qed

text \<open>A memory without read-only pages, for closed examples.\<close>

definition no_readonly :: ReadOnlyMem where
  "no_readonly = \<lparr>range_is_readonly = (\<lambda>_ _. False), rd16 = (\<lambda>_. 0), rd32 = (\<lambda>_. 0), rd64 = (\<lambda>_. 0)\<rparr>"

text \<open>
  (C5) The IR built from any instruction sequence is well formed, also when building stops early: at
  most 128 nodes; every operand of a node refers to an earlier node (so the node list is an SSA
  program in evaluation order); every stack slot holds a node, one of the eight initial registers,
  or the popped marker; and every table entry refers to a node of the kind it promises.
\<close>

theorem build_wf:
  assumes "\<And>p. pm = Some p \<Longrightarrow> (\<forall>d < 8. 0 \<le> p ! d \<and> p ! d < 8)"
  shows "wf_ctx (snd (build cfg ro ins start n pm cp))"
  using build_wf_ctx [OF assms] by simp

theorem build_wf_witness:
  "wf_ctx (snd (build None no_readonly [] 0 0 (Some [1, 0, 2, 3, 4, 5, 6, 7]) False))"
proof (rule build_wf)
  fix p assume "Some [1, 0, 2, 3, 4, 5, 6, 7 :: int] = Some p"
  then have p: "p = [1, 0, 2, 3, 4, 5, 6, 7]" by simp
  have "list_all (\<lambda>d. 0 \<le> p ! d \<and> p ! d < 8) [0..<8]" unfolding p by code_simp
  then show "\<forall>d < 8. 0 \<le> p ! d \<and> p ! d < 8" by (auto simp: list_all_iff)
qed

end
