(* ===== verification/IRSim.thy ===== *)
theory IRSim
  imports IRBuildWf
begin

text \<open>
  The symbolic stack of the IR builder and what it stands for: \<open>sim\<close> relates a context to the tagged
  register stack of the runtime, given the values of the nodes; \<open>keeps\<close> is what every builder leaves
  alone. Resolving a slot, constants, constant promotion and the reuse of loads keep the relation
  and yield a node with the value the instruction reads.
\<close>

section \<open>What the symbolic stack means\<close>

definition load_val :: "GuestEnv \<Rightarrow> Op \<Rightarrow> IROperand \<Rightarrow> fp64" where
  "load_val env k op1 =
     (if k = LoadF64 then ld_f64 env op1 else if k = LoadF32Raw then fp_widen (ld_f32 env op1)
      else fp_of_int (ld_int env k op1))"

definition slot_rel :: "fp64 list \<Rightarrow> xstack \<Rightarrow> int \<Rightarrow> fp64 \<times> X87TagState \<Rightarrow> bool" where
  "slot_rel vs init v x \<longleftrightarrow>
     (0 \<le> v \<longrightarrow> fst x = vs ! nat v \<and> snd x \<noteq> kEmpty) \<and> (- 8 \<le> v \<and> v < 0 \<longrightarrow> x = init ! nat (- (v + 1)))"

definition sim :: "GuestEnv \<Rightarrow> Context \<Rightarrow> xstack \<Rightarrow> bool" where
  "sim env c xs \<longleftrightarrow> wf_ctx c \<and> list_all2 (slot_rel (vals env c) (e_init env)) (slot_val c) xs \<and>
     list_all (\<lambda>(op1, k, v). vals env c ! nat v = load_val env k op1) (mem_cse c)"

definition reads_ok :: "GuestEnv \<Rightarrow> Context \<Rightarrow> bool" where
  "reads_ok env c \<longleftrightarrow> list_all (\<lambda>n. nop n = ReadSt \<longrightarrow>
     (case npayload n of PDepth d \<Rightarrow> snd (e_init env ! nat d) \<noteq> kEmpty | _ \<Rightarrow> True)) (nodes c)"

text \<open>What every builder leaves alone: earlier nodes, flags, the stack pointer.\<close>

definition keeps :: "GuestEnv \<Rightarrow> Context \<Rightarrow> Context \<Rightarrow> bool" where
  "keeps env c d \<longleftrightarrow> (\<exists>ns. nodes d = nodes c @ ns) \<and> nzcv env d = nzcv env c \<and> last_fcomi d = last_fcomi c \<and>
     top_delta d = top_delta c \<and> const_promote d = const_promote c"

lemma keeps_refl [simp]: "keeps env c c"
  by (simp add: keeps_def)

lemma keeps_trans: "keeps env a b \<Longrightarrow> keeps env b c \<Longrightarrow> keeps env a c"
  by (auto simp: keeps_def)

lemma keeps_vals: "keeps env c d \<Longrightarrow> 0 \<le> v \<Longrightarrow> v < int (num_nodes c) \<Longrightarrow> vals env d ! nat v = vals env c ! nat v"
  by (auto simp: keeps_def vals_nth_append)

lemma keeps_num: "keeps env c d \<Longrightarrow> num_nodes c \<le> num_nodes d"
  by (auto simp: keeps_def)

lemma keeps_reads: "keeps env c d \<Longrightarrow> reads_ok env d \<Longrightarrow> reads_ok env c"
  by (auto simp: keeps_def reads_ok_def)

lemma keeps_emit: "nop n \<noteq> FComI \<Longrightarrow> keeps env c (emit n c)"
  by (simp add: keeps_def)

lemma sim_length: "sim env c xs \<Longrightarrow> length xs = 8"
  by (auto simp: sim_def wf_ctx_def dest: list_all2_lengthD)

lemma sim_wf: "sim env c xs \<Longrightarrow> wf_ctx c"
  by (simp add: sim_def)

lemma slot_rel_ext:
  "slot_rel vs init v x \<Longrightarrow> v < int (length vs) \<Longrightarrow> slot_rel (vs @ ws) init v x"
  by (auto simp: slot_rel_def nth_append nat_less_iff)

lemma sim_emit:
  assumes "sim env c xs" "num_nodes c < kMaxNodes" "node_ok (num_nodes c) n"
  shows "sim env (emit n c) xs"
proof -
  have wf: "wf_ctx c" using assms(1) by (rule sim_wf)
  have l: "length (slot_val c) = length xs" using assms(1) by (auto simp: sim_def dest: list_all2_lengthD)
  have "slot_rel (vals env (emit n c)) (e_init env) (slot_val c ! i) (xs ! i)" if "i < length xs" for i
  proof -
    have "slot_val c ! i < int (num_nodes c)" using wf that l by (auto simp: wf_ctx_def list_all_length slot_ok_def)
    moreover have "slot_rel (vals env c) (e_init env) (slot_val c ! i) (xs ! i)"
      using assms(1) that l by (simp add: sim_def list_all2_conv_all_nth)
    ultimately show ?thesis by (simp add: slot_rel_ext)
  qed
  moreover have "list_all (\<lambda>(op1, k, v). vals env (emit n c) ! nat v = load_val env k op1) (mem_cse c)"
    using assms(1) wf by (fastforce simp: sim_def wf_ctx_def list_all_iff nth_append nat_less_iff)
  ultimately show ?thesis using wf_emit [OF wf assms(2,3)] l by (simp add: sim_def list_all2_conv_all_nth)
qed

lemma sim_set_slot:
  assumes "sim env c xs" "0 \<le> v" "v < int (num_nodes c)" "fst x = vals env c ! nat v" "snd x \<noteq> kEmpty"
  shows "sim env (set_slot d v c) (xs[d := x])"
  using assms wf_set_slot [of c v d]
  by (auto simp: sim_def slot_ok_node slot_rel_def intro!: list_all2_update_cong)

lemma sim_push:
  assumes "sim env c xs" "0 \<le> v" "v < int (num_nodes c)" "fst x = vals env c ! nat v" "snd x \<noteq> kEmpty"
  shows "sim env (ctx_push v c) (x # butlast xs)"
proof -
  have b: "butlast xs = take 7 xs" using sim_length [OF assms(1)] by (simp add: butlast_conv_take)
  show ?thesis using assms wf_ctx_push [of c v] unfolding b
    by (auto simp: sim_def ctx_push_def slot_rel_def)
qed

lemma list_all2_tlI: "list_all2 P xs ys \<Longrightarrow> list_all2 P (tl xs) (tl ys)"
  by (cases xs; cases ys) auto

lemma sim_pop: "sim env c xs \<Longrightarrow> sim env (ctx_pop c) (stk_pop xs)"
  using wf_ctx_pop [of c]
  by (auto simp: sim_def ctx_pop_def stk_pop_def slot_rel_def drop_Suc intro!: list_all2_appendI list_all2_tlI) 

lemma sim_pops: "sim env c xs \<Longrightarrow> sim env ((ctx_pop ^^ n) c) ((stk_pop ^^ n) xs)"
  by (induction n) (simp_all add: sim_pop)

lemma sim_slot: "sim env c xs \<Longrightarrow> d < 8 \<Longrightarrow> slot_rel (vals env c) (e_init env) (slot_val c ! d) (xs ! d)"
  by (auto simp: sim_def wf_ctx_def list_all2_conv_all_nth)

text \<open>Resolving a slot.\<close>

definition val_at :: "GuestEnv \<Rightarrow> Context \<Rightarrow> int \<Rightarrow> xstack \<Rightarrow> nat \<Rightarrow> bool" where
  "val_at env c v xs d \<longleftrightarrow> d < 8 \<and> v < int (num_nodes c) \<and> fst (xs ! d) = vals env c ! nat v \<and> snd (xs ! d) \<noteq> kEmpty"

lemma sim_set_same:
  assumes "sim env c xs" "0 \<le> v" "val_at env c v xs d"
  shows "sim env (set_slot d v c) xs"
  using sim_set_slot [OF assms(1,2), of "xs ! d" d] assms(3) by (simp add: val_at_def)

lemma node_val:
  assumes "wf_ctx c" "0 \<le> u" "u < int (num_nodes c)"
  shows "\<exists>nz. vals env c ! nat u = node_value env (node c u) (take (nat u) (vals env c)) nz"
proof -
  define k where "k = nat u"
  have k: "k < num_nodes c" using assms(2,3) by (simp add: k_def nat_less_iff)
  have "nodes c = (take k (nodes c) @ [nodes c ! k]) @ drop (Suc k) (nodes c)"
    using k by (simp add: id_take_nth_drop)
  then have "vals env c ! k = fst (eval_nodes env (take k (nodes c) @ [nodes c ! k])) ! k"
    using vals_nth_append [of k "take k (nodes c) @ [nodes c ! k]" env "drop (Suc k) (nodes c)"] k by simp
  then have v: "vals env c ! k = node_value env (nodes c ! k) (fst (eval_nodes env (take k (nodes c))))
      (snd (eval_nodes env (take k (nodes c))))" using k by (simp add: nth_append)
  have "fst (eval_nodes env (take k (nodes c))) = take k (vals env c)"
    using vals_append [of env "take k (nodes c)" "drop k (nodes c)"] k by auto
  then show ?thesis using v by (auto simp: k_def node_def)
qed

lemma read_val:
  assumes "u < int (num_nodes c)" "0 \<le> u" "nop (node c u) = ReadSt" "npayload (node c u) = PDepth (int k)" "wf_ctx c"
  shows "vals env c ! nat u = fst (e_init env ! k)"
  using node_val [OF assms(5,2,1), of env] assms(3,4) by (auto simp: node_value_def)

lemma resolve_sim:
  assumes "sim env c xs" "resolve d c = (v, c1)" "reads_ok env c1"
  shows "sim env c1 xs \<and> keeps env c c1 \<and> (0 \<le> v \<longrightarrow> val_at env c1 v xs d)"
proof (cases "d < 8 \<and> \<not> 0 \<le> slot_val c ! d \<and> \<not> slot_val c ! d < - 8")
  case False
  then have "c1 = c \<and> (0 \<le> v \<longrightarrow> d < 8 \<and> slot_val c ! d = v)"
    using assms(2) by (auto simp: resolve_def Let_def split: if_splits)
  then show ?thesis using assms(1) sim_slot [OF assms(1), of d] wf_slot [OF sim_wf [OF assms(1)], of d]
    by (auto simp: val_at_def slot_rel_def slot_ok_def)
next
  case True
  have wf: "wf_ctx c" using assms(1) by (rule sim_wf)
  define k where "k = nat (- (slot_val c ! d + 1))"
  have k: "k < 8" "- (slot_val c ! d + 1) = int k" using True by (simp_all add: k_def nat_less_iff)
  have x: "xs ! d = e_init env ! k"
    using sim_slot [OF assms(1), of d] True by (auto simp: slot_rel_def k_def)
  note r = resolve_unread [of d c k] 
  note ir = wf_initial_read [OF wf k(1)]
  show ?thesis
  proof (cases "0 \<le> initial_read c ! k")
    case T: True
    define u where "u = initial_read c ! k"
    have u: "u < int (num_nodes c)" "nop (node c u) = ReadSt" "npayload (node c u) = PDepth (int k)" "0 \<le> u"
      using ir T by (auto simp: ref_ok_def u_def)
    have eq: "v = u" "c1 = set_slot d u c" using assms(2) r True k T by (auto simp: u_def)
    have "node c u \<in> set (nodes c)" using u by (simp add: node_def nat_less_iff)
    then have ne: "snd (e_init env ! k) \<noteq> kEmpty" using assms(3) u unfolding reads_ok_def eq by (auto simp: list_all_iff)
    have "vals env c ! nat u = fst (e_init env ! k)" by (rule read_val [OF u(1,4,2,3) wf])
    then have va: "val_at env c u xs d" using u ne x True by (simp add: val_at_def)
    have "sim env c1 xs" using sim_set_same [OF assms(1) u(4) va] eq by simp
    then show ?thesis using va eq by (auto simp: val_at_def keeps_def)
  next
    case F: False
    show ?thesis
    proof (cases "num_nodes c \<ge> kMaxNodes")
      case T: True
      then show ?thesis using assms r True k F by auto
    next
      case G: False
      let ?n = "fresh ReadSt (-1) (-1) (-1)\<lparr>npayload := PDepth (int k)\<rparr>"
      let ?e = "(emit ?n c)\<lparr>initial_read := (initial_read c)[k := int (num_nodes c)]\<rparr>"
      have eq: "v = int (num_nodes c)" "c1 = set_slot d v ?e" using assms(2) r True k F G by auto
      have s: "sim env (emit ?n c) xs" using assms(1) G by (intro sim_emit) (simp_all add: node_ok_leaf arity_def)
      have e: "sim env ?e xs" using s wf_read_table [OF wf _ k(1)] G by (simp add: sim_def)
      have "snd (e_init env ! k) \<noteq> kEmpty" using assms(3) unfolding reads_ok_def eq by (simp add: list_all_iff)
      moreover have "vals env ?e ! nat v = fst (e_init env ! k)" by (simp add: eq nth_append node_value_def)
      ultimately have va: "val_at env ?e v xs d" using x True eq by (simp add: val_at_def)
      have "sim env c1 xs" using sim_set_same [OF e _ va] eq by simp
      then show ?thesis using va eq by (auto simp: val_at_def keeps_def)
    qed
  qed
qed


section \<open>Loads and constants\<close>

definition gives :: "GuestEnv \<Rightarrow> Context \<Rightarrow> xstack \<Rightarrow> fp64 \<Rightarrow> int \<times> Context \<Rightarrow> bool" where
  "gives env c xs x r \<longleftrightarrow> sim env (snd r) xs \<and> keeps env c (snd r) \<and>
     (0 \<le> fst r \<longrightarrow> fst r < int (num_nodes (snd r)) \<and> vals env (snd r) ! nat (fst r) = x)"

lemma gives_fail [simp]: "sim env c xs \<Longrightarrow> gives env c xs x (- 1, c)"
  by (simp add: gives_def)

lemma sim_fields:
  assumes "sim env c xs" "wf_ctx d" "nodes d = nodes c" "slot_val d = slot_val c" "mem_cse d = mem_cse c"
  shows "sim env d xs"
  using assms by (simp add: sim_def)

lemma ref_node_val:
  "wf_ctx c \<Longrightarrow> 0 \<le> v \<Longrightarrow> ref_ok c v P \<Longrightarrow>
   v < int (num_nodes c) \<and> P (node c v) \<and> (\<exists>vs nz. vals env c ! nat v = node_value env (node c v) vs nz)"
  using node_val [of c v env] by (auto simp: ref_ok_def)

lemma emit_gives:
  assumes "sim env c xs" "num_nodes c < kMaxNodes" "node_ok (num_nodes c) n" "nop n \<noteq> FComI"
    and "wf_ctx d" "nodes d = nodes c @ [n]" "slot_val d = slot_val c" "mem_cse d = mem_cse c"
    and "last_fcomi d = last_fcomi c" "top_delta d = top_delta c" "const_promote d = const_promote c"
  shows "gives env c xs (node_value env n (vals env c) (nzcv env c)) (int (num_nodes c), d)"
proof -
  have "sim env (emit n c) xs" using assms(1-3) by (rule sim_emit)
  then have "sim env d xs" by (rule sim_fields) (simp_all add: assms(5-8))
  moreover have "keeps env c d" using assms(4,6,9-11) by (simp add: keeps_def)
  moreover have "vals env d ! num_nodes c = node_value env n (vals env c) (nzcv env c)"
    unfolding assms(6) by (simp add: nth_append)
  ultimately show ?thesis using assms(6) by (simp add: gives_def)
qed

lemma node_value_const: "node_value env (fresh ConstF64 a b d\<lparr>npayload := PImm bits\<rparr>) vs nz = bits"
  by (simp add: node_value_def)

lemma build_const_sim:
  assumes "sim env c xs"
  shows "gives env c xs bits (build_const bits c)"
proof (cases "list_ex (\<lambda>(i, b). b = bits) (const_f64 c)")
  case True
  have wf: "wf_ctx c" using assms by (rule sim_wf)
  let ?v = "const_find bits (const_f64 c)"
  have v: "0 \<le> ?v" "ref_ok c ?v (\<lambda>n. nop n = ConstF64 \<and> npayload n = PImm bits)"
    using const_find_ref [OF wf_const_f64_entries [OF wf] True] by auto
  then show ?thesis using True assms ref_node_val [OF wf v(1,2), of env]
    by (auto simp: build_const_def gives_def node_value_def)
next
  case False
  have wf: "wf_ctx (snd (build_const bits c))" using build_const_good [OF sim_wf [OF assms]] by (simp add: good_int_def)
  show ?thesis
  proof (cases "num_nodes c < kMaxNodes")
    case True
    let ?n = "fresh ConstF64 (-1) (-1) (-1)\<lparr>npayload := PImm bits\<rparr>"
    have "gives env c xs (node_value env ?n (vals env c) (nzcv env c)) (int (num_nodes c), snd (build_const bits c))"
      using assms True wf False by (intro emit_gives)
        (auto simp: build_const_def Let_def add_node_emit node_ok_leaf arity_def)
    moreover have "fst (build_const bits c) = int (num_nodes c)"
      using True False by (simp add: build_const_def Let_def add_node_emit)
    ultimately show ?thesis by (metis (no_types, lifting) node_value_const prod.collapse)
  qed (use False assms in \<open>simp add: build_const_def Let_def add_node_emit\<close>)
qed

lemma build_zero_one_sim:
  assumes "sim env c xs"
  shows "gives env c xs 0 (build_zero c)" "gives env c xs fp_one (build_one c)"
proof -
  have wf: "wf_ctx c" using assms by (rule sim_wf)
  have r: "ref_ok c (const_zero_node c) (\<lambda>n. nop n = ConstZero)" "ref_ok c (const_one_node c) (\<lambda>n. nop n = ConstOne)"
    using wf by (simp_all add: wf_ctx_def)
  have w: "wf_ctx (snd (build_zero c))" "wf_ctx (snd (build_one c))"
    using build_zero_good [OF wf] build_one_good [OF wf] by (simp_all add: good_int_def)
  have new: "gives env c xs (node_value env (fresh op1 (-1) (-1) (-1)) (vals env c) (nzcv env c)) (int (num_nodes c), snd r)"
    if "num_nodes c < kMaxNodes" "op1 = ConstZero \<and> r = build_zero c \<and> const_zero_node c < 0 \<or>
        op1 = ConstOne \<and> r = build_one c \<and> const_one_node c < 0" for op1 r
    using assms that w by (intro emit_gives)
      (auto simp: build_zero_def build_one_def Let_def add_node_emit node_ok_leaf arity_def)
  show "gives env c xs 0 (build_zero c)"
  proof (cases "0 \<le> const_zero_node c")
    case True
    then show ?thesis using assms ref_node_val [OF wf True r(1), of env]
      by (auto simp: build_zero_def gives_def node_value_def)
  next
    case False
    then show ?thesis using assms new [of ConstZero "build_zero c"]
      by (auto simp: build_zero_def Let_def add_node_emit node_value_def)
  qed
  show "gives env c xs fp_one (build_one c)"
  proof (cases "0 \<le> const_one_node c")
    case True
    then show ?thesis using assms ref_node_val [OF wf True r(2), of env]
      by (auto simp: build_one_def gives_def node_value_def)
  next
    case False
    then show ?thesis using assms new [of ConstOne "build_one c"]
      by (auto simp: build_one_def Let_def add_node_emit node_value_def)
  qed
qed

lemma const_node_sim: "sim env c xs \<Longrightarrow> gives env c xs bits (const_node_for_bits bits c)"
  using build_zero_one_sim [of env c xs] build_const_sim [of env c xs bits]
  by (auto simp: const_node_for_bits_def fp_one_def)

text \<open>The read-only memory the builder reads is the guest memory.\<close>

definition ro_agrees :: "GuestEnv \<Rightarrow> ReadOnlyMem \<Rightarrow> bool" where
  "ro_agrees env ro \<longleftrightarrow> (\<forall>a. (range_is_readonly ro a 4 \<longrightarrow> rd32 ro a = ucast (mem_bytes env 4 a)) \<and>
                            (range_is_readonly ro a 8 \<longrightarrow> rd64 ro a = mem_bytes env 8 a))"

lemma and3_zero: "(w :: u8) AND 3 = 0 \<Longrightarrow> w AND 1 = 0 \<and> w AND 2 = 0"
proof -
  assume z: "w AND 3 = 0"
  have "w AND 1 = (w AND 3) AND 1" "w AND 2 = (w AND 3) AND 2" by (simp_all add: and.assoc)
  then show ?thesis using z by simp
qed

lemma const_promote_addr_eff: "const_promote_addr op1 = Some a \<Longrightarrow> eff_addr env op1 = a"
  by (auto simp: const_promote_addr_def eff_addr_def Let_def dest!: and3_zero split: if_splits)

lemma try_const_promote_sim:
  assumes "sim env c xs" "ro_agrees env ro" "k = LoadF32Raw \<or> k = LoadF64"
  shows "gives env c xs (load_val env k op1) (try_const_promote ro op1 k c)"
proof (cases "const_promote_addr op1")
  case None
  then show ?thesis using assms by (simp add: try_const_promote_def)
next
  case (Some a)
  then have a: "eff_addr env op1 = a" by (rule const_promote_addr_eff)
  show ?thesis using assms Some a const_node_sim [OF assms(1)]
    by (auto simp: try_const_promote_def load_val_def ld_f32_def ld_f64_def ro_agrees_def)
qed


lemma eff_addr_equal: "mem_operand_equal a b \<Longrightarrow> eff_addr env a = eff_addr env b"
  by (auto simp: mem_operand_equal_def eff_addr_def split: if_splits)

lemma load_val_equal: "mem_operand_equal a b \<Longrightarrow> load_val env k a = load_val env k b"
  using eff_addr_equal [of a b env] by (simp add: load_val_def ld_f64_def ld_f32_def ld_int_def)

lemma cse_find_val:
  "list_all (\<lambda>(op1, k, v). vs ! nat v = load_val env k op1) es \<Longrightarrow> 0 \<le> cse_find op2 k2 es \<Longrightarrow>
   vs ! nat (cse_find op2 k2 es) = load_val env k2 op2"
  by (induction op2 k2 es rule: cse_find.induct) (auto dest: load_val_equal [of _ _ env])

lemma cse_lookup_sim:
  assumes "sim env c xs" "0 \<le> mem_cse_lookup op1 k c"
  shows "gives env c xs (load_val env k op1) (mem_cse_lookup op1 k c, c)"
  using assms cse_find_val [of "vals env c" env "mem_cse c" op1 k]
    cse_find_bound [OF cse_entries [OF sim_wf [OF assms(1)]], of op1 k]
  by (simp add: gives_def mem_cse_lookup_def sim_def)

lemma cse_insert_sim:
  assumes "gives env c xs (load_val env k op1) (v, d)" "0 \<le> v"
  shows "gives env c xs (load_val env k op1) (v, mem_cse_insert op1 k v d)"
proof -
  have d: "sim env d xs" "keeps env c d" "v < int (num_nodes d)" "vals env d ! nat v = load_val env k op1"
    using assms by (simp_all add: gives_def)
  have "sim env (mem_cse_insert op1 k v d) xs"
    using d assms(2) wf_cse_insert [OF sim_wf [OF d(1)] assms(2) d(3), of op1 k]
    by (auto simp: sim_def mem_cse_insert_def intro!: list_all_update)
  moreover have "keeps env c (mem_cse_insert op1 k v d)" using d(2) by (simp add: keeps_def mem_cse_insert_def)
  ultimately show ?thesis using d assms by (simp add: gives_def)
qed

lemma emit_leaf_gives:
  assumes "sim env c xs" "num_nodes c < kMaxNodes" "arity k = 0" "k \<noteq> FStsw" "k \<noteq> FComI"
  shows "gives env c xs (node_value env (fresh k (-1) (-1) (-1)\<lparr>npayload := p\<rparr>) (vals env c) (nzcv env c))
           (int (num_nodes c), emit (fresh k (-1) (-1) (-1)\<lparr>npayload := p\<rparr>) c)"
  using assms wf_emit_leaf [OF sim_wf [OF assms(1)] assms(2-4), of p] by (intro emit_gives) (simp_all add: node_ok_leaf)

lemma build_int_load_sim:
  assumes "sim env c xs" "int_load_op (osize op1) = Some k"
  shows "gives env c xs (fp_of_int (ld_int env k op1)) (build_int_load op1 c)"
proof -
  have k: "k = LoadI16 \<or> k = LoadI32 \<or> k = LoadI64" using assms(2) by (auto simp: int_load_op_def split: if_splits)
  then have lv: "load_val env k op1 = fp_of_int (ld_int env k op1)" by (auto simp: load_val_def)
  have nv: "node_value env (fresh k (-1) (-1) (-1)\<lparr>npayload := PMem op1\<rparr>) vs nz = load_val env k op1" for vs nz
    using k by (auto simp: node_value_def load_val_def)
  have "gives env c xs (load_val env k op1)
      (int (num_nodes c), mem_cse_insert op1 k (int (num_nodes c)) (emit (fresh k (-1) (-1) (-1)\<lparr>npayload := PMem op1\<rparr>) c))"
    if "num_nodes c < kMaxNodes"
    using emit_leaf_gives [OF assms(1) that, of k "PMem op1"] k by (intro cse_insert_sim) (auto simp: nv arity_def)
  then show ?thesis using assms cse_lookup_sim [OF assms(1), of op1 k]
    by (simp add: build_int_load_def Let_def add_node_emit lv not_le)
qed

lemma gives_trans:
  assumes "keeps env c d" "gives env d xs x r"
  shows "gives env c xs x r"
  using assms keeps_trans [of env c d "snd r"] by (auto simp: gives_def)

lemma ucast_up_down [simp]: "(ucast (ucast (x :: u32) :: u64) :: u32) = x"
  by (rule bit_word_eqI) (simp add: bit_simps)

lemma new_fp_load_sim:
  assumes "sim env c xs" "k = (if b then LoadF32Raw else LoadF64)"
  shows "gives env c xs (load_val env k op1) (new_fp_load op1 b k c)"
proof (cases "num_nodes c < kMaxNodes")
  case True
  let ?n = "fresh k (-1) (-1) (-1)\<lparr>npayload := PMem op1\<rparr>"
  let ?e = "emit ?n c"
  have g: "gives env c xs (node_value env ?n (vals env c) (nzcv env c)) (int (num_nodes c), ?e)"
    using emit_leaf_gives [OF assms(1) True, of k "PMem op1"] assms(2) by (simp add: arity_def)
  then have e: "sim env ?e xs" "keeps env c ?e" by (simp_all add: gives_def)
  show ?thesis
  proof (cases b)
    case f: False
    then have "gives env c xs (load_val env k op1) (int (num_nodes c), ?e)"
      using g assms(2) by (simp add: node_value_def load_val_def)
    from cse_insert_sim [OF this] show ?thesis using True f by (simp add: new_fp_load_def add_node_emit)
  next
    case t: True
    let ?m = "fresh CvtF32ToF64 (int (num_nodes c)) (-1) (-1)"
    have nv: "node_value env ?m (vals env ?e) nz = load_val env k op1" for nz
      using t assms(2) by (simp add: node_value_def load_val_def nth_append)
    have "gives env c xs (load_val env k op1) (int (num_nodes ?e), emit ?m ?e)" if "num_nodes ?e < kMaxNodes"
    proof -
      have ok: "node_ok (num_nodes ?e) ?m" by (rule node_ok_unary) (simp_all add: arity_def)
      have "gives env ?e xs (node_value env ?m (vals env ?e) (nzcv env ?e)) (int (num_nodes ?e), emit ?m ?e)"
        using e(1) that ok wf_emit [OF sim_wf [OF e(1)] that ok] by (intro emit_gives) simp_all
      then show ?thesis using gives_trans [OF e(2)] by (simp only: nv)
    qed
    note h = cse_insert_sim [OF this]
    show ?thesis using True t h e by (auto simp: new_fp_load_def Let_def add_node_emit gives_def)
  qed
qed (use assms(1) in \<open>simp add: new_fp_load_def add_node_emit\<close>)

lemma build_fp_load_sim:
  assumes "sim env c xs" "ro_agrees env ro" "osize op1 = S32 \<or> osize op1 = S64"
  shows "gives env c xs (if osize op1 = S32 then fp_widen (ld_f32 env op1) else ld_f64 env op1) (build_fp_load ro op1 c)"
proof -
  define k where "k = (if osize op1 = S32 then LoadF32Raw else LoadF64)"
  obtain v c1 where p: "try_const_promote ro op1 k c = (v, c1)" by fastforce
  have g: "gives env c xs (load_val env k op1) (v, c1)"
    using try_const_promote_sim [OF assms(1,2), of k op1] p by (auto simp: k_def)
  then have c1: "sim env c1 xs" "keeps env c c1" by (simp_all add: gives_def)
  have cond: "(osize op1 \<noteq> S32 \<and> osize op1 \<noteq> S64) = False" using assms(3) by blast
  have lv: "(if osize op1 = S32 then fp_widen (ld_f32 env op1) else ld_f64 env op1) = load_val env k op1"
    by (simp add: k_def load_val_def)
  have "gives env c xs (load_val env k op1) (mem_cse_lookup op1 k c1, c1)" if "0 \<le> mem_cse_lookup op1 k c1"
    using gives_trans [OF c1(2) cse_lookup_sim [OF c1(1) that]] .
  moreover note gives_trans [OF c1(2) new_fp_load_sim [OF c1(1) k_def]]
  ultimately show ?thesis
    unfolding lv build_fp_load_def Let_def cond if_False using p g by (simp flip: k_def)
qed

end
