(* ===== verification/IRSteps.thy ===== *)
theory IRSteps
  imports IRSim
begin

text \<open>
  One lemma per builder: building an instruction turns a context that stands for a stack into one
  that stands for the stack the runtime routine leaves, moves \<open>top_delta\<close> as the routine moves TOP,
  and on failure leaves the stack it stood for.
\<close>

definition m80_const :: "ReadOnlyMem \<Rightarrow> IROperand \<Rightarrow> fp64" where
  "m80_const ro op1 = (case const_promote_addr op1 of None \<Rightarrow> 0
     | Some a \<Rightarrow> (case f80_to_f64_bits (rd64 ro a) (rd16 ro (a + 8)) of None \<Rightarrow> 0 | Some b \<Rightarrow> b))"

definition fp_operand :: "GuestEnv \<Rightarrow> ReadOnlyMem \<Rightarrow> IROperand \<Rightarrow> fp64" where
  "fp_operand env ro op1 = (if osize op1 = S32 then fp_widen (ld_f32 env op1)
     else if osize op1 = S64 then ld_f64 env op1 else m80_const ro op1)"

definition int_operand :: "GuestEnv \<Rightarrow> IROperand \<Rightarrow> int" where
  "int_operand env op1 = (case int_load_op (osize op1) of None \<Rightarrow> 0 | Some k \<Rightarrow> ld_int env k op1)"

lemma fp_operand_gives:
  assumes "sim env c xs" "ro_agrees env ro"
  shows "gives env c xs (fp_operand env ro op1) (build_fp_load ro op1 c)"
proof (cases "osize op1 = S32 \<or> osize op1 = S64")
  case True
  then show ?thesis using build_fp_load_sim [OF assms True] by (auto simp: fp_operand_def)
next
  case False
  then show ?thesis using assms(1) const_node_sim [OF assms(1)]
    by (auto simp: fp_operand_def m80_const_def build_fp_load_def try_const_promote_m80_def split: option.split)
qed

lemma int_operand_gives:
  assumes "sim env c xs"
  shows "gives env c xs (fp_of_int (int_operand env op1)) (build_int_load op1 c)"
proof (cases "int_load_op (osize op1)")
  case None
  then show ?thesis using assms by (simp add: build_int_load_def)
next
  case (Some k)
  then show ?thesis using build_int_load_sim [OF assms Some] by (simp add: int_operand_def)
qed

section \<open>One instruction against the runtime\<close>

text \<open>
  What a builder must do for an instruction that turns the stack \<open>xs\<close> into \<open>ys\<close> and moves TOP by
  \<open>delta\<close>: on success the context stands for \<open>ys\<close>, on failure still for \<open>xs\<close>; flags and earlier
  nodes are kept. Reads of empty initial registers and a full node table are excluded.
\<close>

definition steps :: "GuestEnv \<Rightarrow> Context \<Rightarrow> xstack \<Rightarrow> int \<Rightarrow> xstack \<Rightarrow> bool \<times> Context \<Rightarrow> bool" where
  "steps env c xs delta ys r \<longleftrightarrow>
     (reads_ok env (snd r) \<longrightarrow> num_nodes (snd r) < kMaxNodes \<longrightarrow>
        (if fst r then sim env (snd r) ys \<and> keeps env (c\<lparr>top_delta := top_delta c + delta\<rparr>) (snd r)
         else sim env (snd r) xs \<and> keeps env c (snd r)))"

lemma steps_fail: "sim env d xs \<Longrightarrow> keeps env c d \<Longrightarrow> steps env c xs delta ys (False, d)"
  by (simp add: steps_def)

lemma steps_full: "num_nodes d \<ge> kMaxNodes \<Longrightarrow> steps env c xs delta ys (b, d)"
  by (simp add: steps_def)

lemma steps_unread: "\<not> reads_ok env d \<Longrightarrow> steps env c xs delta ys (b, d)"
  by (simp add: steps_def)

lemma steps_keep: "sim env d ys \<Longrightarrow> keeps env c d \<Longrightarrow> steps env c xs 0 ys (True, d)"
  by (simp add: steps_def keeps_def)

lemma steps_trans:
  assumes "keeps env c d" "steps env d xs delta ys r"
  shows "steps env c xs delta ys r"
  using assms by (auto simp: steps_def keeps_def)

lemma val_at_keeps:
  assumes "val_at env c v xs d" "keeps env c c1" "0 \<le> v"
  shows "val_at env c1 v xs d"
  using assms keeps_vals [OF assms(2,3)] keeps_num [OF assms(2)] by (auto simp: val_at_def)

lemma resolve2_sim:
  assumes "sim env c xs" "resolve a c = (v, c1)" "resolve b c1 = (w, c2)" "reads_ok env c2"
  shows "sim env c2 xs \<and> keeps env c c2 \<and> (0 \<le> v \<longrightarrow> val_at env c2 v xs a) \<and> (0 \<le> w \<longrightarrow> val_at env c2 w xs b)"
proof -
  have k: "\<exists>ns. nodes c2 = nodes c1 @ ns"
    using assms(3) by (auto simp: resolve_def Let_def add_node_emit split: if_splits)
  then have "reads_ok env c1" using assms(4) by (auto simp: reads_ok_def)
  with resolve_sim [OF assms(1,2)] have 1: "sim env c1 xs" "keeps env c c1" "0 \<le> v \<longrightarrow> val_at env c1 v xs a" by auto
  from resolve_sim [OF 1(1) assms(3,4)] have 2: "sim env c2 xs" "keeps env c1 c2" "0 \<le> w \<longrightarrow> val_at env c2 w xs b" by auto
  show ?thesis using 1 2 keeps_trans [OF 1(2) 2(2)] val_at_keeps [OF _ 2(2)] by auto
qed

lemma stk_get_val: "snd (xs ! i) \<noteq> kEmpty \<Longrightarrow> stk_get xs i = stk_val xs i"
  by (simp add: stk_get_def)

lemma val_at_get: "val_at env c v xs i \<Longrightarrow> stk_get xs i = stk_val xs i"
  by (simp add: val_at_def stk_get_val)

text \<open>A node over resolved operands that replaces a slot.\<close>

definition put_node :: "Node \<Rightarrow> nat \<Rightarrow> Context \<Rightarrow> bool \<times> Context" where
  "put_node n d c = (if num_nodes c \<ge> kMaxNodes then (False, c) else (True, set_slot d (int (num_nodes c)) (emit n c)))"

lemma keeps_set_slot [simp]: "keeps env c (set_slot d v e) = keeps env c e"
  by (simp add: keeps_def)

lemma emit_sim:
  assumes "sim env c xs" "num_nodes c < kMaxNodes" "node_ok (num_nodes c) n" "nop n \<noteq> FComI"
  shows "gives env c xs (node_value env n (vals env c) (nzcv env c)) (int (num_nodes c), emit n c)"
  using assms wf_emit [OF sim_wf [OF assms(1)] assms(2,3)] by (intro emit_gives) simp_all

lemma put_node_steps:
  assumes "sim env c xs" "node_ok (num_nodes c) n" "nop n \<noteq> FComI" "t \<noteq> kEmpty"
    and "x = node_value env n (vals env c) (nzcv env c)"
  shows "steps env c xs 0 (xs[d := (x, t)]) (put_node n d c)"
proof (cases "num_nodes c < kMaxNodes")
  case True
  have g: "gives env c xs x (int (num_nodes c), emit n c)" unfolding assms(5) by (rule emit_sim [OF assms(1) True assms(2,3)])
  then have "sim env (set_slot d (int (num_nodes c)) (emit n c)) (xs[d := (x, t)])"
    using assms(4) by (intro sim_set_slot) (auto simp: gives_def)
  then show ?thesis using True g by (simp add: put_node_def steps_keep gives_def)
qed (simp add: put_node_def steps_full)

lemma put_node_add:
  "(let (id, c3) = add_node k a b e c in if id < 0 then (False, c3) else (True, set_slot d id c3)) = put_node (fresh k a b e) d c"
  by (simp add: put_node_def add_node_emit)

fun arith_node :: "arith \<Rightarrow> Op \<times> bool" where
  "arith_node AAdd = (FAdd, False)" | "arith_node ASub = (FSub, False)" | "arith_node ASubr = (FSub, True)"
| "arith_node AMul = (FMul, False)" | "arith_node ADiv = (FDiv, False)" | "arith_node ADivr = (FDiv, True)"

definition arith_fresh :: "arith \<Rightarrow> int \<Rightarrow> int \<Rightarrow> Node" where
  "arith_fresh a x y = (if snd (arith_node a) then fresh (fst (arith_node a)) y x (-1) else fresh (fst (arith_node a)) x y (-1))"

lemma arith_fresh_value: "node_value env (arith_fresh a x y) vs nz = arith_val a (vs ! nat x) (vs ! nat y)"
  by (cases a) (simp_all add: arith_fresh_def node_value_def)

lemma arith_fresh_ok: "0 \<le> x \<Longrightarrow> x < int n \<Longrightarrow> 0 \<le> y \<Longrightarrow> y < int n \<Longrightarrow> node_ok n (arith_fresh a x y)"
  by (cases a) (simp_all add: arith_fresh_def node_ok_def arity_def)

lemma arith_fresh_op [simp]: "nop (arith_fresh a x y) \<noteq> FComI"
  by (cases a) (simp_all add: arith_fresh_def)

lemma arith_add:
  "(let (id, c3) = (if snd (arith_node a) then add_node (fst (arith_node a)) y x (-1) c
                    else add_node (fst (arith_node a)) x y (-1) c)
    in if id < 0 then (False, c3) else (True, set_slot d id c3)) = put_node (arith_fresh a x y) d c"
  by (simp add: put_node_def add_node_emit arith_fresh_def)

lemma arith_put_steps:
  assumes "sim env c xs" "val_at env c v xs i" "0 \<le> v" "0 \<le> w" "w < int (num_nodes c)" "vals env c ! nat w = y" "t \<noteq> kEmpty"
  shows "steps env c xs 0 (xs[d := (arith_val a (stk_val xs i) y, t)]) (put_node (arith_fresh a v w) d c)"
  using assms by (intro put_node_steps arith_fresh_ok) (auto simp: val_at_def arith_fresh_value)

definition ext :: "Context \<Rightarrow> Context \<Rightarrow> bool" where
  "ext c d \<longleftrightarrow> (\<exists>ns. nodes d = nodes c @ ns)"

lemma ext_refl [simp]: "ext c c"
  by (simp add: ext_def)

lemma ext_trans: "ext a b \<Longrightarrow> ext b c \<Longrightarrow> ext a c"
  by (auto simp: ext_def)

lemma ext_same: "nodes d = nodes c \<Longrightarrow> ext c d"
  by (simp add: ext_def)

lemma ext_reads: "ext c d \<Longrightarrow> reads_ok env d \<Longrightarrow> reads_ok env c"
  by (auto simp: ext_def reads_ok_def)

lemma ext_num: "ext c d \<Longrightarrow> num_nodes c \<le> num_nodes d"
  by (auto simp: ext_def)

lemma steps_readsI:
  assumes "ext d (snd r)" "reads_ok env d \<Longrightarrow> steps env c xs delta ys r"
  shows "steps env c xs delta ys r"
  using assms ext_reads [OF assms(1)] by (auto simp: steps_def)

lemma ext_put_node [simp]: "ext c (snd (put_node n d c))"
  by (simp add: put_node_def ext_def)

lemma ext_set_slot [simp]: "ext c (set_slot d v e) = ext c e"
  by (simp add: ext_def)

lemma ext_emit [simp]: "ext c (emit n c)"
  by (simp add: ext_def)

lemma resolve_slot:
  assumes "resolve d c = (v, c1)" "0 \<le> v" "wf_ctx c"
  shows "slot_val c1 ! d = v"
  using assms by (auto simp: resolve_def Let_def add_node_emit wf_ctx_def set_slot_def split: if_splits)

text \<open>The two shapes of a builder: resolve a slot or load a value, give up, or go on.\<close>

lemma resolve_then:
  assumes "sim env c xs"
    and "\<And>v c1. ext c1 (snd (f v c1))"
    and "\<And>v c1. sim env c1 xs \<Longrightarrow> keeps env c c1 \<Longrightarrow> 0 \<le> v \<Longrightarrow> val_at env c1 v xs d \<Longrightarrow> slot_val c1 ! d = v \<Longrightarrow>
      steps env c1 xs delta ys (f v c1)"
  shows "steps env c xs delta ys (let (v, c1) = resolve d c in if v < 0 then (False, c1) else f v c1)"
proof -
  obtain v c1 where r: "resolve d c = (v, c1)" by fastforce
  show ?thesis unfolding r Let_def prod.case
  proof (rule steps_readsI [of c1])
    show "ext c1 (snd (if v < 0 then (False, c1) else f v c1))" using assms(2) by simp
    assume "reads_ok env c1"
    note s = resolve_sim [OF assms(1) r this]
    then show "steps env c xs delta ys (if v < 0 then (False, c1) else f v c1)"
      using steps_trans [of env c c1] assms(3) resolve_slot [OF r _ sim_wf [OF assms(1)]] by (simp add: steps_fail)
  qed
qed

lemma resolve2_then:
  assumes "sim env c xs"
    and "\<And>v w c1. ext c1 (snd (f v w c1))"
    and "\<And>v w c1. sim env c1 xs \<Longrightarrow> keeps env c c1 \<Longrightarrow> 0 \<le> v \<Longrightarrow> 0 \<le> w \<Longrightarrow> val_at env c1 v xs a \<Longrightarrow> val_at env c1 w xs b \<Longrightarrow>
      steps env c1 xs delta ys (f v w c1)"
  shows "steps env c xs delta ys (let (v, c1) = resolve a c; (w, c2) = resolve b c1 in
     if v < 0 \<or> w < 0 then (False, c2) else f v w c2)"
proof -
  obtain v c1 w c2 where r: "resolve a c = (v, c1)" "resolve b c1 = (w, c2)" by fastforce
  show ?thesis unfolding r Let_def prod.case
  proof (rule steps_readsI [of c2])
    show "ext c2 (snd (if v < 0 \<or> w < 0 then (False, c2) else f v w c2))" using assms(2) by simp
    assume "reads_ok env c2"
    note s = resolve2_sim [OF assms(1) r this]
    then show "steps env c xs delta ys (if v < 0 \<or> w < 0 then (False, c2) else f v w c2)"
      using steps_trans [of env c c2] assms(3) by (simp add: steps_fail)
  qed
qed

lemma load_then:
  assumes "gives env c xs x r"
    and "\<And>v c1. sim env c1 xs \<Longrightarrow> keeps env c c1 \<Longrightarrow> 0 \<le> v \<Longrightarrow> v < int (num_nodes c1) \<Longrightarrow> vals env c1 ! nat v = x \<Longrightarrow>
      steps env c1 xs delta ys (f v c1)"
  shows "steps env c xs delta ys (let (v, c1) = r in if v < 0 then (False, c1) else f v c1)"
proof (cases r)
  case (Pair v c1)
  then have g: "sim env c1 xs" "keeps env c c1" using assms(1) by (simp_all add: gives_def)
  show ?thesis using assms(1) assms(2) [OF g] steps_trans [OF g(2)] g by (auto simp: gives_def Pair steps_fail)
qed

lemma arith_put_steps2:
  assumes "sim env c xs" "val_at env c v xs i" "0 \<le> v" "0 \<le> w" "val_at env c w xs j"
  shows "steps env c xs 0 (xs[d := (arith_val a (stk_val xs i) (stk_val xs j), kValid)]) (put_node (arith_fresh a v w) d c)"
  using assms by (intro arith_put_steps) (auto simp: val_at_def)

lemma ext_add_node: "ext c (snd (add_node k a b e c))"
  by (simp add: add_node_emit)

lemma ext_resolve: "ext c (snd (resolve d c))"
  by (auto simp: resolve_def Let_def add_node_emit ext_def)

lemma ext_const: "ext c (snd (const_node_for_bits bits c))"
  by (auto simp: const_node_for_bits_def build_zero_def build_one_def build_const_def Let_def add_node_emit ext_def)

lemma ext_promote: "ext c (snd (try_const_promote ro op1 k c))" "ext c (snd (try_const_promote_m80 ro op1 c))"
  by (auto simp: try_const_promote_def try_const_promote_m80_def ext_const split: option.splits)

lemma ext_new_fp_load: "ext c (snd (new_fp_load op1 b k c))"
  by (auto simp: new_fp_load_def Let_def add_node_emit ext_def)

lemma ext_fp_load: "ext c (snd (build_fp_load ro op1 c))"
proof -
  have "ext c (snd (new_fp_load op1 b k (snd (try_const_promote ro op1 k2 c))))" for b k k2
    by (rule ext_trans [OF ext_promote(1) ext_new_fp_load])
  then show ?thesis by (simp add: build_fp_load_def Let_def split_beta ext_promote)
qed

lemma ext_int_load: "ext c (snd (build_int_load op1 c))"
  by (auto simp: build_int_load_def Let_def add_node_emit ext_def split: option.splits)

lemma ext_then:
  assumes "ext c (snd r)" "\<And>v c1. ext c1 (snd (f v c1))"
  shows "ext c (snd (let (v, c1) = r in if v < 0 then (False, c1) else f v c1))"
  using assms ext_trans [of c "snd r"] by (cases r) auto

lemmas ext_loads = ext_then [OF ext_fp_load] ext_then [OF ext_int_load] ext_then [OF ext_resolve]

text \<open>Popping after a successful step.\<close>

definition pop_after :: "nat \<Rightarrow> bool \<times> Context \<Rightarrow> bool \<times> Context" where
  "pop_after n r = (fst r, if fst r then (ctx_pop ^^ n) (snd r) else snd r)"

lemma ctx_pop_sel [simp]:
  "nodes (ctx_pop c) = nodes c" "last_fcomi (ctx_pop c) = last_fcomi c"
  "const_promote (ctx_pop c) = const_promote c" "top_delta (ctx_pop c) = top_delta c + 1"
  by (simp_all add: ctx_pop_def)

lemma pops_sel [simp]:
  "nodes ((ctx_pop ^^ n) c) = nodes c" "last_fcomi ((ctx_pop ^^ n) c) = last_fcomi c"
  "const_promote ((ctx_pop ^^ n) c) = const_promote c" "top_delta ((ctx_pop ^^ n) c) = top_delta c + int n"
  by (induction n) simp_all

lemma steps_pop:
  assumes "steps env c xs 0 ys r"
  shows "steps env c xs (int n) ((stk_pop ^^ n) ys) (pop_after n r)"
  using assms sim_pops [of env "snd r" ys n] by (cases r) (auto simp: steps_def pop_after_def reads_ok_def keeps_def)

lemma ext_pop_after [simp]: "ext c (snd (pop_after n r)) = ext c (snd r)"
  by (simp add: pop_after_def ext_def)

lemma build_arith_reg_sim:
  assumes "sim env c xs" "kind (operand0 instr) = KRegister"
  shows "steps env c xs 0 (stk_put (odepth (operand0 instr))
      (arith_val a (stk_val xs (odepth (operand0 instr))) (stk_val xs (odepth (operand1 instr)))) xs)
      (build_arith ro instr (fst (arith_node a)) (snd (arith_node a)) c)"
  unfolding build_arith_def if_P [OF assms(2)] arith_add stk_put_def
  unfolding Let_def [of "odepth (operand0 instr)"] Let_def [of "odepth (operand1 instr)"]
  by (rule resolve2_then [OF assms(1)]) (auto intro: arith_put_steps2)

lemma build_arith_mem_sim:
  assumes "sim env c xs" "kind (operand0 instr) \<noteq> KRegister" "ro_agrees env ro"
  shows "steps env c xs 0 (stk_put 0 (arith_val a (stk_val xs 0)
      (fp_operand env ro (operand0 instr))) xs)
      (build_arith ro instr (fst (arith_node a)) (snd (arith_node a)) c)"
  unfolding build_arith_def if_not_P [OF assms(2)] arith_add stk_put_def
proof (rule resolve_then [OF assms(1)])
  fix v c1
  assume c1: "sim env c1 xs" "0 \<le> v" "val_at env c1 v xs 0"
  show "steps env c1 xs 0 (xs[0 := (arith_val a (stk_val xs 0)
      (fp_operand env ro (operand0 instr)), kValid)])
      (let (w, c2) = build_fp_load ro (operand0 instr) c1 in if w < 0 then (False, c2) else put_node (arith_fresh a v w) 0 c2)"
    using c1 by (intro load_then [OF fp_operand_gives [OF c1(1) assms(3)]] arith_put_steps) (auto intro: val_at_keeps)
qed (intro ext_loads ext_put_node)

lemma build_arithp_sim:
  assumes "sim env c xs"
  shows "steps env c xs 1 (stk_pop (stk_put (odepth (operand0 instr))
      (arith_val a (stk_val xs (odepth (operand0 instr))) (stk_val xs 0)) xs))
      (build_arithp instr (fst (arith_node a)) (snd (arith_node a)) c)"
proof -
  have pa: "(let (id, c3) = (if snd (arith_node a) then add_node (fst (arith_node a)) y x (-1) c
                    else add_node (fst (arith_node a)) x y (-1) c)
    in if id < 0 then (False, c3) else (True, ctx_pop (set_slot d id c3))) = pop_after 1 (put_node (arith_fresh a x y) d c)"
    for x y d c by (simp add: put_node_def pop_after_def add_node_emit arith_fresh_def)
  show ?thesis unfolding build_arithp_def pa stk_put_def Let_def [of "odepth (operand0 instr)"]
  proof (rule resolve2_then [OF assms])
    fix v w c1
    assume "sim env c1 xs" "0 \<le> v" "0 \<le> w" "val_at env c1 v xs (odepth (operand0 instr))" "val_at env c1 w xs 0"
    then show "steps env c1 xs 1 (stk_pop (xs[odepth (operand0 instr) :=
        (arith_val a (stk_val xs (odepth (operand0 instr))) (stk_val xs 0), kValid)]))
        (pop_after 1 (put_node (arith_fresh a v w) (odepth (operand0 instr)) c1))"
      using steps_pop [OF arith_put_steps2, of env c1 xs v "odepth (operand0 instr)" w 0 1] by simp
  qed simp
qed

lemma build_iarith_sim:
  assumes "sim env c xs"
  shows "steps env c xs 0 (stk_set 0 (arith_val a (stk_get xs 0) (fp_of_int (int_operand env (operand0 instr)))) xs)
      (build_iarith instr (fst (arith_node a)) (snd (arith_node a)) c)"
  unfolding build_iarith_def arith_add stk_set_def
proof (rule resolve_then [OF assms(1)])
  fix v c1
  assume c1: "sim env c1 xs" "0 \<le> v" "val_at env c1 v xs 0"
  let ?x = "arith_val a (stk_get xs 0) (fp_of_int (int_operand env (operand0 instr)))"
  show "steps env c1 xs 0 (xs[0 := (?x, tag_for_value ?x)])
      (let (w, c2) = build_int_load (operand0 instr) c1 in if w < 0 then (False, c2) else put_node (arith_fresh a v w) 0 c2)"
    unfolding val_at_get [OF c1(3)] using c1 by (intro load_then [OF int_operand_gives [OF c1(1)]] arith_put_steps)
      (auto intro: val_at_keeps simp: tag_for_value_def)
qed (intro ext_loads ext_put_node)

lemma build_unary_sim:
  assumes "sim env c xs" "arity k = 1" "k \<noteq> FComI" "k \<noteq> FStsw"
    and "\<And>v vs nz. node_value env (fresh k v (-1) (-1)) vs nz = f (vs ! nat v)"
  shows "steps env c xs 0 (stk_put 0 (f (stk_val xs 0)) xs) (build_unary k c)"
  unfolding build_unary_def put_node_add stk_put_def
proof (rule resolve_then [OF assms(1)])
  fix v c1
  assume "sim env c1 xs" "0 \<le> v" "val_at env c1 v xs 0"
  then show "steps env c1 xs 0 (xs[0 := (f (stk_val xs 0), kValid)]) (put_node (fresh k v (-1) (-1)) 0 c1)"
    using assms by (intro put_node_steps) (auto simp: val_at_def node_ok_unary)
qed simp

lemma push_steps:
  assumes "gives env c xs x r"
  shows "steps env c xs (- 1) (stk_push x xs) (push_result r)"
  using assms sim_push [of env "snd r" xs "fst r" "(x, tag_for_value x)"]
  by (cases r) (auto simp: gives_def steps_def push_result_def keeps_def ctx_push_def stk_push_def tag_for_value_def)

lemma resolve_push_steps:
  assumes "sim env c xs"
  shows "steps env c xs (- 1) (stk_push (stk_get xs d) xs) (push_result (resolve d c))"
proof -
  obtain v c1 where r: "resolve d c = (v, c1)" by fastforce
  show ?thesis
  proof (rule steps_readsI [of c1])
    show "ext c1 (snd (push_result (resolve d c)))" by (simp add: push_result_def r ext_def ctx_push_def)
    assume "reads_ok env c1"
    from resolve_sim [OF assms(1) r this] have "gives env c xs (stk_get xs d) (v, c1)"
      by (auto simp: gives_def val_at_def stk_get_val)
    from push_steps [OF this] show "steps env c xs (- 1) (stk_push (stk_get xs d) xs) (push_result (resolve d c))"
      by (simp add: r)
  qed
qed

lemma build_fchs_sim:
  assumes "sim env c xs"
  shows "steps env c xs 0 (stk_put 0 (fp_neg (stk_val xs 0)) xs) (build_fchs c)"
  unfolding build_fchs_def put_node_add stk_put_def
proof (rule resolve_then [OF assms])
  fix v c1
  assume s: "sim env c1 xs" "0 \<le> v" "val_at env c1 v xs 0"
  show "steps env c1 xs 0 (xs[0 := (fp_neg (stk_val xs 0), kValid)])
     (if nop (node c1 v) = FNeg then (True, set_slot 0 (in0 (node c1 v)) c1) else put_node (fresh FNeg v (-1) (-1)) 0 c1)"
  proof (cases "nop (node c1 v) = FNeg")
    case True
    have v: "v < int (num_nodes c1)" "stk_val xs 0 = vals env c1 ! nat v" using s by (simp_all add: val_at_def)
    have i: "0 \<le> in0 (node c1 v)" "in0 (node c1 v) < v"
      using wf_node [OF sim_wf [OF s(1)] s(2) v(1)] True s(2) by (simp_all add: node_ok_def arity_def)
    have "vals env c1 ! nat v = fp_neg (vals env c1 ! nat (in0 (node c1 v)))"
      using node_val [OF sim_wf [OF s(1)] s(2) v(1), of env] True i by (auto simp: node_value_def nat_less_iff)
    then have "sim env (set_slot 0 (in0 (node c1 v)) c1) (xs[0 := (fp_neg (stk_val xs 0), kValid)])"
      using s(1) i v by (intro sim_set_slot) auto
    then show ?thesis using True by (simp add: steps_keep)
  next
    case False
    then show ?thesis using s
      by (simp, intro put_node_steps) (auto simp: val_at_def node_ok_unary arity_def node_value_def)
  qed
qed simp

text \<open>Comparisons leave the stack to the pops.\<close>

definition cmp_node :: "Node \<Rightarrow> Context \<Rightarrow> bool \<times> Context" where
  "cmp_node n c = (if num_nodes c \<ge> kMaxNodes then (False, c) else (True, (emit n c)\<lparr>last_fcmp := int (num_nodes c)\<rparr>))"

lemma cmp_node_steps:
  assumes "sim env c xs" "node_ok (num_nodes c) n" "nop n \<noteq> FComI"
  shows "steps env c xs 0 xs (cmp_node n c)"
proof (cases "num_nodes c < kMaxNodes")
  case True
  from emit_sim [OF assms(1) True assms(2,3)] have g: "sim env (emit n c) xs" "keeps env c (emit n c)"
    by (simp_all add: gives_def)
  have "sim env ((emit n c)\<lparr>last_fcmp := int (num_nodes c)\<rparr>) xs"
    using sim_wf [OF g(1)] by (intro sim_fields [OF g(1)]) (simp_all add: wf_ctx_def ref_ok_def node_def)
  then show ?thesis using True g(2) by (simp add: cmp_node_def steps_keep keeps_def)
qed (simp add: cmp_node_def steps_full)

lemma ext_cmp_node [simp]: "ext c (snd (cmp_node n c))"
  by (simp add: cmp_node_def ext_def)

lemma cmp_node_add:
  "(let (id, c3) = add_node k a b e c in if id < 0 then (False, c3) else (True, (ctx_pop ^^ n) (c3\<lparr>last_fcmp := id\<rparr>))) =
   pop_after n (cmp_node (fresh k a b e) c)"
  "(let (id, c3) = add_node k a b e c in if id < 0 then (False, c3)
    else let c4 = c3\<lparr>last_fcmp := id\<rparr> in (True, if p then ctx_pop c4 else c4)) =
   pop_after (of_bool p) (cmp_node (fresh k a b e) c)"
  "(let (id, c3) = add_node k a b e c in if id < 0 then (False, c3) else (True, c3\<lparr>last_fcmp := id\<rparr>)) =
   cmp_node (fresh k a b e) c"
  by (simp_all add: cmp_node_def pop_after_def add_node_emit)

lemma fcmp_steps:
  assumes "sim env c xs" "val_at env c v xs 0" "0 \<le> v" "0 \<le> w" "w < int (num_nodes c)"
  shows "steps env c xs (int n) ((stk_pop ^^ n) xs) (pop_after n (cmp_node (fresh FCmp v w (-1)) c))"
  using assms by (intro steps_pop cmp_node_steps) (auto simp: node_ok_binary arity_def val_at_def)

lemma build_fcom_reg_sim:
  assumes "sim env c xs" "is_fcompp \<or> kind (operand1 instr) = KRegister"
  shows "steps env c xs (int n) ((stk_pop ^^ n) xs) (build_fcom ro instr n is_fcompp c)"
proof -
  let ?d = "if is_fcompp then 1 else odepth (operand1 instr)"
  have r: "(if is_fcompp then resolve 1 c1 else if kind (operand1 instr) = KRegister then resolve (odepth (operand1 instr)) c1
      else build_fp_load ro (operand1 instr) c1) = resolve ?d c1" for c1 using assms(2) by auto
  show ?thesis unfolding build_fcom_def cmp_node_add r
  proof (rule resolve_then [OF assms(1)])
    fix v c1
    assume s: "sim env c1 xs" "0 \<le> v" "val_at env c1 v xs 0"
    show "steps env c1 xs (int n) ((stk_pop ^^ n) xs) (let (w, c2) = resolve ?d c1 in if w < 0 then (False, c2)
        else pop_after n (cmp_node (fresh FCmp v w (-1)) c2))"
    proof (rule resolve_then [OF s(1)])
      fix w c2
      assume "sim env c2 xs" "keeps env c1 c2" "0 \<le> w" "val_at env c2 w xs ?d"
      then show "steps env c2 xs (int n) ((stk_pop ^^ n) xs) (pop_after n (cmp_node (fresh FCmp v w (-1)) c2))"
        using s by (intro fcmp_steps) (auto intro: val_at_keeps simp: val_at_def [of _ _ w])
    qed simp
  qed (intro ext_loads, simp)
qed

lemma build_fcom_mem_sim:
  assumes "sim env c xs" "\<not> is_fcompp" "kind (operand1 instr) \<noteq> KRegister" "ro_agrees env ro"
  shows "steps env c xs (int n) ((stk_pop ^^ n) xs) (build_fcom ro instr n is_fcompp c)"
  unfolding build_fcom_def cmp_node_add if_not_P [OF assms(2)] if_not_P [OF assms(3)]
proof (rule resolve_then [OF assms(1)])
  fix v c1
  assume s: "sim env c1 xs" "0 \<le> v" "val_at env c1 v xs 0"
  show "steps env c1 xs (int n) ((stk_pop ^^ n) xs) (let (w, c2) = build_fp_load ro (operand1 instr) c1 in if w < 0 then (False, c2)
        else pop_after n (cmp_node (fresh FCmp v w (-1)) c2))"
    using s by (intro load_then [OF fp_operand_gives [OF s(1) assms(4)]] fcmp_steps) (auto intro: val_at_keeps)
qed (intro ext_loads, simp)

lemma build_ficom_sim:
  assumes "sim env c xs"
  shows "steps env c xs (of_bool p) (stk_pop_if p xs) (build_ficom instr p c)"
proof -
  have "steps env c xs (int (of_bool p)) ((stk_pop ^^ of_bool p) xs) (build_ficom instr p c)"
    unfolding build_ficom_def cmp_node_add
  proof (rule resolve_then [OF assms(1)])
    fix v c1
    assume s: "sim env c1 xs" "0 \<le> v" "val_at env c1 v xs 0"
    show "steps env c1 xs (int (of_bool p)) ((stk_pop ^^ of_bool p) xs) (let (w, c2) = build_int_load (operand0 instr) c1
        in if w < 0 then (False, c2) else pop_after (of_bool p) (cmp_node (fresh FCmp v w (-1)) c2))"
      using s by (intro load_then [OF int_operand_gives [OF s(1)]] fcmp_steps) (auto intro: val_at_keeps)
  qed (intro ext_loads, simp)
  then show ?thesis by (cases p) simp_all
qed

lemma build_ftst_sim:
  assumes "sim env c xs"
  shows "steps env c xs 0 xs (build_ftst c)"
  unfolding build_ftst_def cmp_node_add
proof (rule resolve_then [OF assms])
  fix v c1
  assume "sim env c1 xs" "0 \<le> v" "val_at env c1 v xs 0"
  then show "steps env c1 xs 0 xs (cmp_node (fresh FTst v (-1) (-1)) c1)"
    by (intro cmp_node_steps) (auto simp: node_ok_unary arity_def val_at_def)
qed simp

lemma build_fst_reg_sim:
  assumes "sim env c xs" "kind (operand0 instr) = KRegister"
  shows "steps env c xs (of_bool p) (stk_pop_if p (stk_set (odepth (operand0 instr)) (stk_get xs 0) xs)) (build_fst instr p c)"
proof -
  let ?d = "odepth (operand0 instr)"
  have b: "build_fst instr p c = (let (v, c1) = resolve 0 c in if v < 0 then (False, c1)
      else pop_after (of_bool p) (True, if ?d \<noteq> 0 then set_slot ?d v c1 else c1))"
    using assms(2) by (simp add: build_fst_def pop_after_def Let_def split_beta)
  have "steps env c xs (int (of_bool p)) ((stk_pop ^^ of_bool p) (stk_set ?d (stk_get xs 0) xs)) (build_fst instr p c)"
    unfolding b
  proof (rule resolve_then [OF assms(1)])
    fix v c1
    assume s: "sim env c1 xs" "0 \<le> v" "val_at env c1 v xs 0" and slot: "slot_val c1 ! 0 = v"
    note g = val_at_get [OF s(3)]
    let ?x = "(stk_get xs 0, tag_for_value (stk_get xs 0))"
    have "sim env (set_slot ?d v c1) (xs[?d := ?x])"
      using s by (intro sim_set_slot) (auto simp: g val_at_def tag_for_value_def)
    moreover have "sim env c1 (xs[0 := ?x])"
      using sim_set_slot [OF s(1,2), of ?x 0] slot s list_update_id [of "slot_val c1" 0]
      by (auto simp: g val_at_def tag_for_value_def set_slot_def)
    ultimately show "steps env c1 xs (int (of_bool p)) ((stk_pop ^^ of_bool p) (stk_set ?d (stk_get xs 0) xs))
        (pop_after (of_bool p) (True, if ?d \<noteq> 0 then set_slot ?d v c1 else c1))"
      by (intro steps_pop) (simp add: stk_set_def steps_keep)
  qed (simp add: pop_after_def ext_def ctx_pop_def)
  then show ?thesis by (cases p) simp_all
qed

lemma build_fcmov_sim:
  assumes "sim env c xs"
  shows "steps env c xs 0 (if snd (xs ! odepth (operand1 instr)) = kEmpty then stk_set 0 0 xs
      else if \<not> a64_cond cc (nzcv env c) then xs else stk_set 0 (stk_val xs (odepth (operand1 instr))) xs)
     (build_fcmov instr cc c)"
proof (cases "last_fcomi c < 0")
  case True
  then show ?thesis using assms by (simp add: build_fcmov_def steps_fail)
next
  case False
  let ?y = "stk_val xs (odepth (operand1 instr))"
  let ?ys = "if snd (xs ! odepth (operand1 instr)) = kEmpty then stk_set 0 0 xs
      else if \<not> a64_cond cc (nzcv env c) then xs else stk_set 0 ?y xs"
  let ?n = "\<lambda>v w. fresh FCSel v w (-1)\<lparr>npayload := PImm cc\<rparr>"
  have b: "(let (id, c3) = add_node FCSel v w (-1) c2 in if id < 0 then (False, c3)
      else (True, set_slot 0 id (update_node id (\<lambda>n. n\<lparr>npayload := PImm cc\<rparr>) c3))) = put_node (?n v w) 0 c2" for v w c2
    by (simp add: put_node_def add_node_emit)
  show ?thesis unfolding build_fcmov_def if_not_P [OF False] b
  proof (rule resolve_then [OF assms])
    fix v c1
    assume s: "sim env c1 xs" "keeps env c c1" "0 \<le> v" "val_at env c1 v xs 0"
    show "steps env c1 xs 0 ?ys
      (let (w, c2) = resolve (odepth (operand1 instr)) c1 in if w < 0 then (False, c2) else put_node (?n v w) 0 c2)"
    proof (rule resolve_then [OF s(1)])
      fix w c2
      assume t: "sim env c2 xs" "keeps env c1 c2" "0 \<le> w" "val_at env c2 w xs (odepth (operand1 instr))"
      have v: "val_at env c2 v xs 0" using val_at_keeps [OF s(4) t(2) s(3)] .
      have nz: "nzcv env c2 = nzcv env c" using keeps_trans [OF s(2) t(2)] by (simp add: keeps_def)
      have "steps env c2 xs 0 (xs[0 := (node_value env (?n v w) (vals env c2) (nzcv env c2), t)]) (put_node (?n v w) 0 c2)"
        if "t \<noteq> kEmpty" for t
        using that t v s(3) by (intro put_node_steps) (auto simp: val_at_def node_ok_binary arity_def)
      note p = this [of "snd (xs ! 0)"] this [of "tag_for_value ?y"]
      have x0: "xs[0 := (stk_val xs 0, snd (xs ! 0))] = xs" by simp
      show "steps env c2 xs 0 ?ys (put_node (?n v w) 0 c2)"
        using p v t(4) x0 unfolding nz by (auto simp: val_at_def node_value_def stk_set_def tag_for_value_def)
    qed simp
  qed (intro ext_loads, simp)
qed

lemma resolve_keeps_slot:
  assumes "resolve d c = (v, c1)" "i \<noteq> d"
  shows "slot_val c1 ! i = slot_val c ! i"
  using assms by (auto simp: resolve_def Let_def add_node_emit set_slot_def split: if_splits)

lemma resolve_room:
  assumes "resolve d c = (v, c1)" "num_nodes c1 < kMaxNodes" "wf_ctx c" "d < 8"
  shows "slot_val c1 ! d = - 100 \<or> 0 \<le> slot_val c1 ! d"
  using assms wf_slot [OF assms(3,4)] by (auto simp: resolve_def Let_def add_node_emit wf_ctx_def set_slot_def slot_ok_def split: if_splits)

lemma sim_swap:
  assumes "sim env c xs" "i < 8" "j < 8" "\<And>k. k = i \<or> k = j \<Longrightarrow> slot_val c ! k = - 100 \<or> 0 \<le> slot_val c ! k"
  shows "sim env (set_slot i (slot_val c ! j) (set_slot j (slot_val c ! i) c)) (stk_set i (stk_get xs j) (stk_set j (stk_get xs i) xs))"
proof -
  have r: "slot_rel (vals env c) (e_init env) (slot_val c ! k) (stk_get xs k, tag_for_value (stk_get xs k))" if "k = i \<or> k = j" for k
    using assms(2,3) that sim_slot [OF assms(1), of k] assms(4) [OF that] by (auto simp: slot_rel_def stk_get_val tag_for_value_def)
  have w: "wf_ctx (set_slot i (slot_val c ! j) (set_slot j (slot_val c ! i) c))"
    using assms(2,3) wf_slot [OF sim_wf [OF assms(1)]] by (intro wf_set_slot) (auto intro: sim_wf [OF assms(1)])
  show ?thesis using assms(1) w r [of i] r [of j]
    by (auto simp: sim_def stk_set_def set_slot_def intro!: list_all2_update_cong)
qed

lemma build_fxch_sim:
  assumes "sim env c xs"
  shows "steps env c xs 0 (stk_set (odepth (operand1 instr)) (stk_get xs 0) (stk_set 0 (stk_get xs (odepth (operand1 instr))) xs))
     (build_fxch instr c)"
proof (cases "odepth (operand1 instr) = 0 \<or> odepth (operand1 instr) \<ge> 8")
  case True
  then show ?thesis using assms by (simp add: build_fxch_def Let_def steps_fail)
next
  case False
  let ?d = "odepth (operand1 instr)"
  obtain v c1 w c2 where r: "resolve 0 c = (v, c1)" "resolve ?d c1 = (w, c2)" by fastforce
  let ?e = "set_slot ?d (slot_val c2 ! 0) (set_slot 0 (slot_val c2 ! ?d) c2)"
  have b: "build_fxch instr c = (True, ?e)" using False r by (simp add: build_fxch_def Let_def)
  show ?thesis unfolding b
  proof (cases "reads_ok env c2 \<and> num_nodes c2 < kMaxNodes")
    case True
    then have ok: "reads_ok env c2" "num_nodes c2 < kMaxNodes" by simp_all
    have s: "sim env c2 xs" "keeps env c c2" using resolve2_sim [OF assms r ok(1)] by auto
    have c1: "num_nodes c1 < kMaxNodes" "wf_ctx c1"
      using ok ext_num [OF ext_resolve, of c1 ?d] r resolve_good [OF sim_wf [OF assms], of 0] by (auto simp: good_int_def)
    have "slot_val c2 ! k = - 100 \<or> 0 \<le> slot_val c2 ! k" if "k = ?d \<or> k = 0" for k
      using that False resolve_room [OF r(1) c1(1) sim_wf [OF assms]] resolve_room [OF r(2) ok(2) c1(2)]
        resolve_keeps_slot [OF r(2), of 0] by auto
    then have "sim env ?e (stk_set ?d (stk_get xs 0) (stk_set 0 (stk_get xs ?d) xs))"
      using False by (intro sim_swap [OF s(1)]) auto
    then show "steps env c xs 0 (stk_set ?d (stk_get xs 0) (stk_set 0 (stk_get xs ?d) xs)) (True, ?e)"
      using s(2) by (simp add: steps_keep)
  qed (auto simp: steps_def reads_ok_def)
qed

lemma fresh_flags: "fresh k a b e\<lparr>nflags := 0\<rparr> = fresh k a b e"
  by (simp add: fresh_def)

lemma build_fcomi_sim:
  assumes "sim env c xs" "build_fcomi instr p c = (b, d)" "reads_ok env d" "num_nodes d < kMaxNodes"
  shows "if b then sim env d (stk_pop_if p xs) \<and> top_delta d = top_delta c + of_bool p \<and>
      nzcv env d = nzcv_of (stk_get xs 0) (stk_get xs (odepth (operand1 instr))) \<and> const_promote d = const_promote c
    else sim env d xs \<and> keeps env c d"
proof -
  let ?i = "odepth (operand1 instr)"
  obtain v c1 w c2 where r: "resolve 0 c = (v, c1)" "resolve ?i c1 = (w, c2)" by fastforce
  let ?n = "(fresh FComI v w (-1))\<lparr>nflags := (if p then kFcomIPopping else 0)\<rparr>"
  have "build_fcomi instr p c = (if v < 0 then (False, c1) else if w < 0 then (False, c2)
      else if num_nodes c2 \<ge> kMaxNodes then (False, c2)
      else (True, (ctx_pop ^^ of_bool p) ((emit ?n c2)\<lparr>last_fcomi := int (num_nodes c2)\<rparr>)))"
    using r by (simp add: build_fcomi_def Let_def add_node_emit fresh_flags)
  then have bd: "(b, d) = (if v < 0 then (False, c1) else if w < 0 then (False, c2)
      else if num_nodes c2 \<ge> kMaxNodes then (False, c2)
      else (True, (ctx_pop ^^ of_bool p) ((emit ?n c2)\<lparr>last_fcomi := int (num_nodes c2)\<rparr>)))" using assms(2) by simp
  have e12: "ext c1 c2" using ext_resolve [of c1 ?i] r by simp
  have "d = c1 \<or> ext c2 d" using bd by (auto simp: ext_def split: if_splits)
  then have e1: "ext c1 d" using ext_trans [OF e12] by auto
  from resolve_sim [OF assms(1) r(1) ext_reads [OF e1 assms(3)]]
  have s1: "sim env c1 xs" "keeps env c c1" "0 \<le> v \<longrightarrow> val_at env c1 v xs 0" by auto
  show ?thesis
  proof (cases "v < 0")
    case True
    then show ?thesis using bd s1 by simp
  next
    case v: False
    then have "ext c2 d" using bd by (auto simp: ext_def split: if_splits)
    from resolve2_sim [OF assms(1) r ext_reads [OF this assms(3)]]
    have s2: "sim env c2 xs" "keeps env c c2" "val_at env c2 v xs 0" "0 \<le> w \<longrightarrow> val_at env c2 w xs ?i" using v by auto
    show ?thesis
    proof (cases "w < 0 \<or> num_nodes c2 \<ge> kMaxNodes")
      case True
      then show ?thesis using bd s2 v by (auto split: if_splits)
    next
      case False
      have w: "val_at env c2 w xs ?i" using s2 False by simp
      have ok: "node_ok (num_nodes c2) ?n" using v False s2(3) w by (simp add: node_ok_def arity_def val_at_def)
      have "sim env (emit ?n c2) xs" using sim_emit [OF s2(1) _ ok] False by simp
      then have "sim env ((emit ?n c2)\<lparr>last_fcomi := int (num_nodes c2)\<rparr>) xs"
        by (rule sim_fields) (use sim_wf [OF \<open>sim env (emit ?n c2) xs\<close>] in \<open>simp_all add: wf_ctx_def ref_ok_def node_def\<close>)
      from sim_pops [OF this, of "of_bool p"] show ?thesis using bd v False s2(2,3) w
        by (cases p) (auto simp: val_at_def stk_get_val keeps_def)
    qed
  qed
qed

end
