(* ===== verification/IRRefine.thy ===== *)
theory IRRefine
  imports IRSteps
begin

text \<open>
  The IR builder against the runtime routines: the routine calls an instruction stands for
  (\<open>ref_ops\<close>, \<open>ref_flags\<close>, \<open>ref_run\<close>), one agreement lemma per instruction family, the context a
  declined instruction leaves, and what the loop leaves alone.
\<close>

section \<open>The runtime routines an instruction stands for\<close>

text \<open>Guest flags in the host flag word: carry is inverted, parity is the overflow bit.\<close>

definition x86_cf :: "u32 \<Rightarrow> bool" where "x86_cf nz = (\<not> bit nz 29)"
definition x86_zf :: "u32 \<Rightarrow> bool" where "x86_zf nz = bit nz 30"
definition x86_pf :: "u32 \<Rightarrow> bool" where "x86_pf nz = bit nz 28"

definition fcmov_cond :: "u16 \<Rightarrow> u32 \<Rightarrow> bool option" where
  "fcmov_cond op nz = map_of
     [(kOpcodeName_fcmovb, x86_cf nz), (kOpcodeName_fcmovbe, x86_cf nz \<or> x86_zf nz), (kOpcodeName_fcmove, x86_zf nz),
      (kOpcodeName_fcmovnb, \<not> x86_cf nz), (kOpcodeName_fcmovnbe, \<not> (x86_cf nz \<or> x86_zf nz)),
      (kOpcodeName_fcmovne, \<not> x86_zf nz), (kOpcodeName_fcmovu, x86_pf nz), (kOpcodeName_fcmovnu, \<not> x86_pf nz)] op"

definition const_of :: "u16 \<Rightarrow> X87Constant option" where
  "const_of op = map_of [(kOpcodeName_fldz, kZeroC), (kOpcodeName_fld1, kOne), (kOpcodeName_fldl2e, kLog2e),
     (kOpcodeName_fldl2t, kLog2t), (kOpcodeName_fldlg2, kLog102), (kOpcodeName_fldln2, kLoge2), (kOpcodeName_fldpi, kPi)] op"

definition arith_of :: "u16 \<Rightarrow> arith option" where
  "arith_of op = map_of [(kOpcodeName_fadd, AAdd), (kOpcodeName_fsub, ASub), (kOpcodeName_fsubr, ASubr),
     (kOpcodeName_fmul, AMul), (kOpcodeName_fdiv, ADiv), (kOpcodeName_fdivr, ADivr)] op"

definition iarith_of :: "u16 \<Rightarrow> arith option" where
  "iarith_of op = map_of [(kOpcodeName_fiadd, AAdd), (kOpcodeName_fisub, ASub), (kOpcodeName_fisubr, ASubr),
     (kOpcodeName_fimul, AMul), (kOpcodeName_fidiv, ADiv), (kOpcodeName_fidivr, ADivr)] op"

definition arithp_of :: "u16 \<Rightarrow> arith option" where
  "arithp_of op = map_of [(kOpcodeName_faddp, AAdd), (kOpcodeName_fsubp, ASub), (kOpcodeName_fsubrp, ASubr),
     (kOpcodeName_fmulp, AMul), (kOpcodeName_fdivp, ADiv), (kOpcodeName_fdivrp, ADivr)] op"

definition plain_of :: "u16 \<Rightarrow> x87_op list option" where
  "plain_of op = map_of [(kOpcodeName_fchs, [Op_fchs]), (kOpcodeName_fabs, [Op_fabs]), (kOpcodeName_fsqrt, [Op_fsqrt]),
     (kOpcodeName_frndint, [Op_frndint]), (kOpcodeName_ftst, []), (kOpcodeName_fnop, []),
     (kOpcodeName_fcompp, [Op_fcom_ST 1 2]), (kOpcodeName_fucompp, [Op_fucom 1 2])] op"

abbreviation sti :: "IROperand \<Rightarrow> u32" where
  "sti o1 \<equiv> of_nat (odepth o1)"

text \<open>
  The routine calls for one instruction, from the flags before it; \<open>None\<close> for what writes memory or
  guest registers, for 80-bit memory operands and for operands no encoding has. FTST and FNOP have
  no routine; they do not touch the stack.
\<close>

definition ref_fcom :: "GuestEnv \<Rightarrow> IRInstr \<Rightarrow> bool \<Rightarrow> bool \<Rightarrow> x87_op list option" where
  "ref_fcom env instr unordered p =
     (let o1 = operand1 instr in
      if kind o1 = KRegister then
        if odepth o1 \<ge> 8 then None
        else Some [if unordered then Op_fucom (sti o1) (of_bool p) else Op_fcom_ST (sti o1) (of_bool p)]
      else if unordered then None
      else if osize o1 = S32 then Some [Op_fcom_f32 (ld_f32 env o1) p]
      else if osize o1 = S64 then Some [Op_fcom_f64 (ld_f64 env o1) p] else None)"

definition ref_misc :: "GuestEnv \<Rightarrow> IRInstr \<Rightarrow> x87_op list option" where
  "ref_misc env instr =
     (let op = opcode instr; o0 = operand0 instr; o1 = operand1 instr in
      if op = kOpcodeName_fld then
        if kind o0 = KRegister then (if odepth o1 < 8 then Some [Op_fld_STi (sti o1)] else None)
        else if osize o0 = S32 then Some [Op_fld_fp32 (ld_f32 env o0)]
        else if osize o0 = S64 then Some [Op_fld_fp64 (ld_f64 env o0)] else None
      else if op = kOpcodeName_fild then
        (if int_load_op (osize o0) = None then None else Some [Op_fild (word_of_int (int_operand env o0))])
      else if op = kOpcodeName_fst \<or> op = kOpcodeName_fst_stack then
        (if kind o0 = KRegister \<and> odepth o0 < 8 then Some [Op_fst_STi (sti o0) False] else None)
      else if op = kOpcodeName_fstp \<or> op = kOpcodeName_fstp_stack then
        (if kind o0 = KRegister \<and> odepth o0 < 8 then Some [Op_fst_STi (sti o0) True] else None)
      else if op = kOpcodeName_fxch then (if odepth o1 < 8 then Some [Op_fxch (sti o1)] else None)
      else if op = kOpcodeName_fcom then ref_fcom env instr False False
      else if op = kOpcodeName_fcomp then ref_fcom env instr False True
      else if op = kOpcodeName_fucom then ref_fcom env instr True False
      else if op = kOpcodeName_fucomp then ref_fcom env instr True True
      else if op = kOpcodeName_ficom \<or> op = kOpcodeName_ficomp then
        (if osize o0 = S16 \<or> osize o0 = S32
         then Some [Op_ficom (word_of_int (int_operand env o0)) (op = kOpcodeName_ficomp)] else None)
      else if op = kOpcodeName_fcomi \<or> op = kOpcodeName_fcomip then
        (if odepth o1 < 8 then Some [Op_fcomi (sti o1) (op = kOpcodeName_fcomip)] else None)
      else if op = kOpcodeName_fucomi \<or> op = kOpcodeName_fucomip then
        (if odepth o1 < 8 then Some [Op_fucomi (sti o1) (op = kOpcodeName_fucomip)] else None)
      else plain_of op)"

definition ref_ops :: "GuestEnv \<Rightarrow> u32 \<Rightarrow> IRInstr \<Rightarrow> x87_op list option" where
  "ref_ops env nz instr =
     (let op = opcode instr; o0 = operand0 instr; o1 = operand1 instr in
      case const_of op of Some k \<Rightarrow> Some [Op_fld_constant k] | None \<Rightarrow>
      case arith_of op of Some a \<Rightarrow>
        (if kind o0 = KRegister then
           (if odepth o0 < 8 \<and> odepth o1 < 8 then Some [Op_arith_ST a (sti o0) (sti o1) False] else None)
         else if osize o0 = S32 then Some [Op_arith_f32 a (ld_f32 env o0)]
         else if osize o0 = S64 then Some [Op_arith_f64 a (ld_f64 env o0)] else None) | None \<Rightarrow>
      case iarith_of op of Some a \<Rightarrow>
        (if osize o0 = S16 \<or> osize o0 = S32 then Some [Op_iarith a (word_of_int (int_operand env o0))] else None) | None \<Rightarrow>
      case arithp_of op of Some a \<Rightarrow>
        (if odepth o0 < 8 then Some [Op_arith_ST a (sti o0) 0 True] else None) | None \<Rightarrow>
      case fcmov_cond op nz of Some b \<Rightarrow>
        (if odepth o1 < 8 then Some [Op_fcmov (of_bool b) (sti o1)] else None) | None \<Rightarrow>
      ref_misc env instr)"

text \<open>The flags an instruction leaves: those the FCOMI routines return.\<close>

definition ref_flags :: "IRInstr \<Rightarrow> X87State \<Rightarrow> u32 \<Rightarrow> u32" where
  "ref_flags instr s nz =
     (let op = opcode instr; i = sti (operand1 instr) in
      if op = kOpcodeName_fcomi then fst (x87_fcomi s i False)
      else if op = kOpcodeName_fcomip then fst (x87_fcomi s i True)
      else if op = kOpcodeName_fucomi then fst (x87_fucomi s i False)
      else if op = kOpcodeName_fucomip then fst (x87_fucomi s i True) else nz)"

fun ref_run :: "libm \<Rightarrow> GuestEnv \<Rightarrow> IRInstr list \<Rightarrow> X87State \<times> u32 \<Rightarrow> (X87State \<times> u32) option" where
  "ref_run lm env [] r = Some r"
| "ref_run lm env (instr # ins) (s, nz) =
     (case ref_ops env nz instr of None \<Rightarrow> None
      | Some ops \<Rightarrow> ref_run lm env ins (fold (exec_op lm) ops s, ref_flags instr s nz))"

section \<open>One instruction\<close>

lemma const_builds:
  "const_of (opcode instr) = Some k \<Longrightarrow> build_instr cfg ro instr c = push_result
     (case k of kZeroC \<Rightarrow> build_zero c | kOne \<Rightarrow> build_one c | kLog2e \<Rightarrow> build_const 0x3FF71547652B82FE c
      | kLog2t \<Rightarrow> build_const 0x400A934F0979A371 c | kLog102 \<Rightarrow> build_const 0x3FD34413509F79FF c
      | kLoge2 \<Rightarrow> build_const 0x3FE62E42FEFA39EF c | kPi \<Rightarrow> build_const 0x400921FB54442D18 c | kOtherConstant \<Rightarrow> (-1, c))"
  by (auto simp: const_of_def build_instr_def split: if_splits)

lemma arith_builds:
  "arith_of (opcode instr) = Some a \<Longrightarrow>
     build_instr cfg ro instr c = build_arith ro instr (fst (arith_node a)) (snd (arith_node a)) c"
  "iarith_of (opcode instr) = Some a \<Longrightarrow>
     build_instr cfg ro instr c = build_iarith instr (fst (arith_node a)) (snd (arith_node a)) c"
  "arithp_of (opcode instr) = Some a \<Longrightarrow>
     build_instr cfg ro instr c = build_arithp instr (fst (arith_node a)) (snd (arith_node a)) c"
  by (auto simp: arith_of_def iarith_of_def arithp_of_def build_instr_def split: if_splits)

definition fcmov_cc :: "u16 \<Rightarrow> u64 option" where
  "fcmov_cc op = map_of [(kOpcodeName_fcmovb, 3), (kOpcodeName_fcmovbe, 9), (kOpcodeName_fcmove, 0), (kOpcodeName_fcmovnb, 2),
     (kOpcodeName_fcmovnbe, 8), (kOpcodeName_fcmovne, 1), (kOpcodeName_fcmovu, 6), (kOpcodeName_fcmovnu, 7)] op"

lemma fcmov_builds:
  "fcmov_cc (opcode instr) = Some cc \<Longrightarrow> build_instr cfg ro instr c = build_fcmov instr cc c"
  by (auto simp: fcmov_cc_def build_instr_def split: if_splits)

lemma a64_conds:
  "a64_cond 3 nz = x86_cf nz" "a64_cond 9 nz = (x86_cf nz \<or> x86_zf nz)" "a64_cond 0 nz = x86_zf nz" "a64_cond 2 nz = (\<not> x86_cf nz)"
  "a64_cond 8 nz = (\<not> (x86_cf nz \<or> x86_zf nz))" "a64_cond 1 nz = (\<not> x86_zf nz)" "a64_cond 6 nz = x86_pf nz"
  "a64_cond 7 nz = (\<not> x86_pf nz)"
  by (simp_all add: a64_cond_def Let_def x86_cf_def x86_zf_def x86_pf_def)

lemma fcmov_cond_cc: "fcmov_cond op nz = map_option (\<lambda>cc. a64_cond cc nz) (fcmov_cc op)"
  by (simp add: fcmov_cond_def fcmov_cc_def a64_conds)

lemma xi_sti [simp]: "odepth o1 < 8 \<Longrightarrow> xi (sti o1) = odepth o1"
  by (simp add: xi_def unat_of_nat)

lemma int_operand_bounds:
  "osize op1 = S16 \<or> osize op1 = S32 \<Longrightarrow> - (2 ^ 31) \<le> int_operand env op1 \<and> int_operand env op1 < 2 ^ 31"
  "- (2 ^ 63) \<le> int_operand env op1 \<and> int_operand env op1 < 2 ^ 63"
  using sint_ge [of "ucast (mem_bytes env 2 (eff_addr env op1)) :: 16 word"]
    sint_lt [of "ucast (mem_bytes env 2 (eff_addr env op1)) :: 16 word"]
    sint_ge [of "ucast (mem_bytes env 4 (eff_addr env op1)) :: 32 word"]
    sint_lt [of "ucast (mem_bytes env 4 (eff_addr env op1)) :: 32 word"]
    sint_ge [of "mem_bytes env 8 (eff_addr env op1)"] sint_lt [of "mem_bytes env 8 (eff_addr env op1)"]
  by (auto simp: int_operand_def int_load_op_def ld_int_def)

lemma sint_operand:
  "osize op1 = S16 \<or> osize op1 = S32 \<Longrightarrow> sint (word_of_int (int_operand env op1) :: u32) = int_operand env op1"
  "sint (word_of_int (int_operand env op1) :: u64) = int_operand env op1"
  using int_operand_bounds [where ?env = env and ?op1.0 = op1] by (auto simp: sint_sbintrunc' intro!: signed_take_bit_int_eq_self)

text \<open>The context after some instructions and the machine state the routines leave.\<close>

definition agrees :: "GuestEnv \<Rightarrow> int \<Rightarrow> Context \<Rightarrow> X87State \<Rightarrow> u32 \<Rightarrow> bool" where
  "agrees env t0 c s nz \<longleftrightarrow> wf_x87 s \<and> controlWord s = e_cw env \<and> sim env c (stack_of s) \<and>
     int (topn s) = (t0 + top_delta c) mod 8 \<and> (0 \<le> last_fcomi c \<longrightarrow> nzcv env c = nz)"

definition step_agrees :: "libm \<Rightarrow> GuestEnv \<Rightarrow> int \<Rightarrow> X87State \<Rightarrow> u32 \<Rightarrow> IRInstr \<Rightarrow> x87_op list \<Rightarrow> bool \<times> Context \<Rightarrow> bool" where
  "step_agrees lm env t0 s nz instr ops r \<longleftrightarrow>
     (reads_ok env (snd r) \<longrightarrow> num_nodes (snd r) < kMaxNodes \<longrightarrow>
        (if fst r then agrees env t0 (snd r) (fold (exec_op lm) ops s) (ref_flags instr s nz) else agrees env t0 (snd r) s nz))"

lemma agrees_top:
  assumes "int t = (t0 + d) mod 8" "int (t' :: nat) = (int t + k) mod 8"
  shows "int t' = (t0 + (d + k)) mod 8"
  using assms by (simp add: mod_simps add.assoc)

lemma steps_agree:
  assumes "agrees env t0 c s nz" "steps env c (stack_of s) k (stack_of s') r" "s' = fold (exec_op lm) ops s"
    and "wf_x87 s'" "controlWord s' = controlWord s" "int (topn s') = (int (topn s) + k) mod 8" "ref_flags instr s nz = nz"
  shows "step_agrees lm env t0 s nz instr ops r"
proof -
  have t: "int (topn s') = (t0 + (top_delta c + k)) mod 8" using assms(1,6) by (intro agrees_top) (auto simp: agrees_def)
  show ?thesis using assms t by (auto simp: step_agrees_def steps_def agrees_def keeps_def)
qed

lemma step1_agree:
  assumes "agrees env t0 c s nz" "steps env c (stack_of s) k (abs_exec lm (e_cw env) op (stack_of s)) r"
    and "int (op_top_delta op (topn s)) = (int (topn s) + k) mod 8" "ref_flags instr s nz = nz" "op \<noteq> Op_init" "op \<noteq> Op_set_init_state"
  shows "step_agrees lm env t0 s nz instr [op] r"
proof -
  have s: "wf_x87 s" "controlWord s = e_cw env" using assms(1) by (simp_all add: agrees_def)
  show ?thesis using assms s by (intro steps_agree [OF assms(1), where s' = "exec_op lm op s" and k = k])
    (simp_all add: exec_op_stack routines_wf routines_controlWord routines_topn)
qed

lemma nop_agree:
  assumes "agrees env t0 c s nz" "steps env c (stack_of s) 0 (stack_of s) r" "ref_flags instr s nz = nz"
  shows "step_agrees lm env t0 s nz instr [] r"
  using assms by (intro steps_agree [OF assms(1)]) (auto simp: agrees_def)


lemma agrees_sim: "agrees env t0 c s nz \<Longrightarrow> sim env c (stack_of s)"
  by (simp add: agrees_def)

lemma pred_top: "int ((topn s + 7) mod 8) = (int (topn s) + - 1) mod 8"
proof -
  have "int ((topn s + 7) mod 8) = (int (topn s) + - 1 + 8) mod 8" by (simp add: zmod_int add.commute)
  then show ?thesis by (simp only: mod_add_self2)
qed

lemma succ_top: "int ((topn s + n) mod 8) = (int (topn s) + int n) mod 8"
  by (simp add: zmod_int)

lemma const_agree:
  assumes "agrees env t0 c s nz" "const_of (opcode instr) = Some k"
  shows "step_agrees lm env t0 s nz instr [Op_fld_constant k] (build_instr cfg ro instr c)"
proof -
  note a = agrees_sim [OF assms(1)]
  have k: "k \<noteq> kOtherConstant" using assms(2) by (auto simp: const_of_def split: if_splits)
  have f: "ref_flags instr s nz = nz" using assms(2) by (auto simp: const_of_def ref_flags_def Let_def split: if_splits)
  have "steps env c (stack_of s) (- 1) (abs_exec lm (e_cw env) (Op_fld_constant k) (stack_of s)) (build_instr cfg ro instr c)"
    using k build_const_sim [OF a] build_zero_one_sim [OF a]
    by (auto simp: const_builds [OF assms(2)] abs_exec_def fp_one_def intro!: push_steps split: X87Constant.splits)
  then show ?thesis by (rule step1_agree [OF assms(1)]) (simp_all add: op_top_delta_def k f pred_top)
qed

lemma arith_agree:
  assumes "agrees env t0 c s nz" "ro_agrees env ro" "arith_of (opcode instr) = Some a" "ref_ops env nz instr = Some ops"
  shows "step_agrees lm env t0 s nz instr ops (build_instr cfg ro instr c)"
proof -
  note sim = agrees_sim [OF assms(1)]
  have n: "const_of (opcode instr) = None" using assms(3) by (auto simp: const_of_def arith_of_def split: if_splits)
  have f: "ref_flags instr s nz = nz" using assms(3) by (auto simp: arith_of_def ref_flags_def Let_def split: if_splits)
  obtain op where op: "ops = [op]" "op_top_delta op (topn s) = topn s" "op \<noteq> Op_init" "op \<noteq> Op_set_init_state"
      "steps env c (stack_of s) 0 (abs_exec lm (e_cw env) op (stack_of s)) (build_arith ro instr (fst (arith_node a)) (snd (arith_node a)) c)"
  proof (cases "kind (operand0 instr) = KRegister")
    case True
    then show ?thesis using assms(3,4) n build_arith_reg_sim [OF sim True] that
      by (auto simp: ref_ops_def Let_def abs_exec_def op_top_delta_def split: if_splits)
  next
    case False
    then show ?thesis using assms(3,4) n build_arith_mem_sim [OF sim False assms(2), of a] that
      by (auto simp: ref_ops_def Let_def abs_exec_def op_top_delta_def fp_operand_def split: if_splits)
  qed
  show ?thesis unfolding arith_builds(1) [OF assms(3)] op(1)
    by (rule step1_agree [OF assms(1) op(5)]) (simp_all add: op f)
qed

lemma iarith_agree:
  assumes "agrees env t0 c s nz" "iarith_of (opcode instr) = Some a" "osize (operand0 instr) = S16 \<or> osize (operand0 instr) = S32"
  shows "step_agrees lm env t0 s nz instr [Op_iarith a (word_of_int (int_operand env (operand0 instr)))] (build_instr cfg ro instr c)"
proof -
  have f: "ref_flags instr s nz = nz" using assms(2) by (auto simp: iarith_of_def ref_flags_def Let_def split: if_splits)
  show ?thesis unfolding arith_builds(2) [OF assms(2)]
    using build_iarith_sim [OF agrees_sim [OF assms(1)], of a instr] sint_operand(1) [OF assms(3)]
    by (intro step1_agree [OF assms(1), where k = 0]) (simp_all add: abs_exec_def op_top_delta_def f del: nth_stack_of)
qed

lemma arithp_agree:
  assumes "agrees env t0 c s nz" "arithp_of (opcode instr) = Some a" "odepth (operand0 instr) < 8"
  shows "step_agrees lm env t0 s nz instr [Op_arith_ST a (sti (operand0 instr)) 0 True] (build_instr cfg ro instr c)"
proof -
  have f: "ref_flags instr s nz = nz" using assms(2) by (auto simp: arithp_of_def ref_flags_def Let_def split: if_splits)
  show ?thesis unfolding arith_builds(3) [OF assms(2)]
    using build_arithp_sim [OF agrees_sim [OF assms(1)], of instr a] assms(3) succ_top [of s 1]
    by (intro step1_agree [OF assms(1), where k = 1]) (simp_all add: abs_exec_def op_top_delta_def f del: nth_stack_of)
qed

lemma fcmov_agree:
  assumes "agrees env t0 c s nz" "fcmov_cond (opcode instr) nz = Some b" "odepth (operand1 instr) < 8"
  shows "step_agrees lm env t0 s nz instr [Op_fcmov (of_bool b) (sti (operand1 instr))] (build_instr cfg ro instr c)"
proof -
  obtain cc where cc: "fcmov_cc (opcode instr) = Some cc" "b = a64_cond cc nz" using assms(2) by (auto simp: fcmov_cond_cc)
  have f: "ref_flags instr s nz = nz" using cc(1) by (auto simp: fcmov_cc_def ref_flags_def Let_def split: if_splits)
  show ?thesis
  proof (cases "0 \<le> last_fcomi c")
    case True
    then have nz: "nzcv env c = nz" using assms(1) by (simp add: agrees_def)
    show ?thesis unfolding fcmov_builds [OF cc(1)]
      using build_fcmov_sim [OF agrees_sim [OF assms(1)], of instr cc, unfolded nz] assms(3)
      by (intro step1_agree [OF assms(1), where k = 0]) (auto simp: abs_exec_def op_top_delta_def f cc(2) simp del: nth_stack_of split: if_splits)
  next
    case False
    then show ?thesis using assms(1) by (simp add: fcmov_builds [OF cc(1)] build_fcmov_def step_agrees_def)
  qed
qed


lemma xi_pops: "unat (of_bool p :: u32) = of_bool p"
  by simp

text \<open>What is left: loads, copies, exchanges, comparisons.\<close>

lemma ref_fcom_agree:
  assumes "agrees env t0 c s nz" "ro_agrees env ro" "ref_fcom env instr u p = Some ops" "ref_flags instr s nz = nz"
  shows "step_agrees lm env t0 s nz instr ops (build_fcom ro instr (of_bool p) False c)"
proof -
  note sim = agrees_sim [OF assms(1)]
  have b: "steps env c (stack_of s) (int (of_bool p)) ((stk_pop ^^ of_bool p) (stack_of s)) (build_fcom ro instr (of_bool p) False c)"
    by (cases "kind (operand1 instr) = KRegister")
      (blast intro: build_fcom_reg_sim [OF sim] build_fcom_mem_sim [OF sim _ _ assms(2)])+
  obtain op where op: "ops = [op]" "op_top_delta op (topn s) = (topn s + of_bool p) mod 8" "op \<noteq> Op_init" "op \<noteq> Op_set_init_state"
      "abs_exec lm (e_cw env) op (stack_of s) = (stk_pop ^^ of_bool p) (stack_of s)"
    using assms(3) by (cases p) (auto simp: ref_fcom_def Let_def abs_exec_def op_top_delta_def split: if_splits)
  show ?thesis unfolding op(1) by (rule step1_agree [OF assms(1)]) (use b op assms(4) succ_top [of s "of_bool p"] in simp_all)
qed

lemma fcomi_agree:
  assumes "agrees env t0 c s nz" "odepth (operand1 instr) < 8"
    and "op = Op_fcomi (sti (operand1 instr)) p \<or> op = Op_fucomi (sti (operand1 instr)) p"
    and "ref_flags instr s nz = nzcv_of (stk_get (stack_of s) 0) (stk_get (stack_of s) (odepth (operand1 instr)))"
  shows "step_agrees lm env t0 s nz instr [op] (build_fcomi instr p c)"
proof (cases "build_fcomi instr p c")
  case (Pair b d)
  have s: "wf_x87 s" "controlWord s = e_cw env" "int (topn s) = (t0 + top_delta c) mod 8" using assms(1) by (simp_all add: agrees_def)
  have o: "op \<noteq> Op_init" "op \<noteq> Op_set_init_state" "op_top_delta op (topn s) = (topn s + of_bool p) mod 8"
      "stack_of (exec_op lm op s) = stk_pop_if p (stack_of s)"
    using assms(3) s by (auto simp: op_top_delta_def exec_op_stack abs_exec_def)
  have t: "int (topn (exec_op lm op s)) = (t0 + (top_delta c + of_bool p)) mod 8"
    using agrees_top [OF s(3), of "(topn s + of_bool p) mod 8" "of_bool p"] succ_top [of s "of_bool p"]
    by (simp only: routines_topn o of_nat_of_bool)
  show ?thesis using build_fcomi_sim [OF agrees_sim [OF assms(1)] Pair] t assms(1,4) o(4) s(1,2)
    routines_wf [OF s(1), of lm op] routines_controlWord [OF o(1,2), of lm s]
    unfolding Pair step_agrees_def by (cases b) (auto simp: agrees_def keeps_def)
qed

lemma fld_agree:
  assumes "agrees env t0 c s nz" "ro_agrees env ro" "opcode instr = kOpcodeName_fld" "ref_misc env instr = Some ops"
  shows "step_agrees lm env t0 s nz instr ops (build_instr cfg ro instr c)"
proof -
  note sim = agrees_sim [OF assms(1)]
  have f: "ref_flags instr s nz = nz" using assms(3) by (simp add: ref_flags_def)
  have b: "build_instr cfg ro instr c = push_result (if kind (operand0 instr) = KRegister then resolve (odepth (operand1 instr)) c
      else build_fp_load ro (operand0 instr) c)" using assms(3) by (simp add: build_instr_def)
  obtain op where op: "ops = [op]" "op_top_delta op (topn s) = (topn s + 7) mod 8" "op \<noteq> Op_init" "op \<noteq> Op_set_init_state"
      "steps env c (stack_of s) (- 1) (abs_exec lm (e_cw env) op (stack_of s)) (build_instr cfg ro instr c)"
    using assms(3,4) resolve_push_steps [OF sim, of "odepth (operand1 instr)"]
      push_steps [OF fp_operand_gives [OF sim assms(2), of "operand0 instr"]]
    by (auto simp: b ref_misc_def Let_def op_top_delta_def abs_exec_def fp_operand_def split: if_splits)
  show ?thesis unfolding op(1) by (rule step1_agree [OF assms(1) op(5)]) (simp_all add: op f pred_top)
qed

lemma fild_agree:
  assumes "agrees env t0 c s nz" "opcode instr = kOpcodeName_fild"
  shows "step_agrees lm env t0 s nz instr [Op_fild (word_of_int (int_operand env (operand0 instr)))] (build_instr cfg ro instr c)"
  using push_steps [OF int_operand_gives [OF agrees_sim [OF assms(1)], of "operand0 instr"]] assms(2)
  by (intro step1_agree [OF assms(1), where k = "- 1"])
    (simp_all add: build_instr_def abs_exec_def sint_operand op_top_delta_def ref_flags_def pred_top)

lemma fst_agree:
  assumes "agrees env t0 c s nz" "kind (operand0 instr) = KRegister" "odepth (operand0 instr) < 8" "ref_flags instr s nz = nz"
  shows "step_agrees lm env t0 s nz instr [Op_fst_STi (sti (operand0 instr)) p] (build_fst instr p c)"
  using build_fst_reg_sim [OF agrees_sim [OF assms(1)] assms(2), of p] assms(3,4) succ_top [of s "of_bool p"]
  by (cases p; intro step1_agree [OF assms(1), where k = "of_bool p"]) (simp_all add: abs_exec_def op_top_delta_def del: nth_stack_of)

lemma fxch_agree:
  assumes "agrees env t0 c s nz" "odepth (operand1 instr) < 8" "ref_flags instr s nz = nz"
  shows "step_agrees lm env t0 s nz instr [Op_fxch (sti (operand1 instr))] (build_fxch instr c)"
  using build_fxch_sim [OF agrees_sim [OF assms(1)], of instr] assms(2,3)
  by (intro step1_agree [OF assms(1), where k = 0]) (simp_all add: abs_exec_def op_top_delta_def del: nth_stack_of)

lemma ficom_agree:
  assumes "agrees env t0 c s nz" "ref_flags instr s nz = nz"
  shows "step_agrees lm env t0 s nz instr [Op_ficom v p] (build_ficom instr p c)"
  using build_ficom_sim [OF agrees_sim [OF assms(1)], of p instr] assms(2) succ_top [of s "of_bool p"]
  by (cases p; intro step1_agree [OF assms(1), where k = "of_bool p"]) (simp_all add: abs_exec_def op_top_delta_def del: nth_stack_of)

lemma plain_agree:
  assumes "agrees env t0 c s nz" "plain_of (opcode instr) = Some ops"
  shows "step_agrees lm env t0 s nz instr ops (build_instr cfg ro instr c)"
proof -
  note sim = agrees_sim [OF assms(1)]
  have f: "ref_flags instr s nz = nz" using assms(2) by (auto simp: plain_of_def ref_flags_def Let_def split: if_splits)
  note one = step1_agree [OF assms(1) _ _ f]
  have v: "steps env c (stack_of s) 0 (abs_exec lm (e_cw env) op (stack_of s)) r"
    if "op = Op_fchs \<and> r = build_fchs c \<or> op = Op_fabs \<and> r = build_unary FAbs c \<or> op = Op_fsqrt \<and> r = build_unary FSqrt c \<or>
        op = Op_frndint \<and> r = build_unary FRndInt c" for op r
    using that build_fchs_sim [OF sim] build_unary_sim [OF sim, of FAbs fp_abs] build_unary_sim [OF sim, of FSqrt fp_sqrt]
      build_unary_sim [OF sim, of FRndInt "\<lambda>x. x87_round_by_rc x (e_cw env)"]
    by (auto simp: abs_exec_def arity_def node_value_def simp del: nth_stack_of)
  have u: "step_agrees lm env t0 s nz instr [op] r"
    if "op = Op_fchs \<and> r = build_fchs c \<or> op = Op_fabs \<and> r = build_unary FAbs c \<or> op = Op_fsqrt \<and> r = build_unary FSqrt c \<or>
        op = Op_frndint \<and> r = build_unary FRndInt c" for op r
    using v [OF that] that by (intro one [where k = 0]) (auto simp: op_top_delta_def)
  have p: "step_agrees lm env t0 s nz instr [op] (build_fcom ro instr 2 True c)" if "op = Op_fcom_ST 1 2 \<or> op = Op_fucom 1 2" for op
    using that build_fcom_reg_sim [OF sim, of True instr 2 ro] succ_top [of s 2]
    by (intro one [where k = 2]) (auto simp: abs_exec_def op_top_delta_def simp del: nth_stack_of)
  have e: "step_agrees lm env t0 s nz instr [] (build_ftst c)" "step_agrees lm env t0 s nz instr [] (True, c)"
    using build_ftst_sim [OF sim] sim by (auto intro!: nop_agree [OF assms(1) _ f] simp: steps_def)
  show ?thesis using assms(2) p e u [of Op_fchs "build_fchs c"] u [of Op_fabs "build_unary FAbs c"]
      u [of Op_fsqrt "build_unary FSqrt c"] u [of Op_frndint "build_unary FRndInt c"]
    by (auto simp: plain_of_def build_instr_def split: if_splits)
qed


lemma ref_misc_agree:
  assumes "agrees env t0 c s nz" "ro_agrees env ro" "ref_misc env instr = Some ops"
  shows "step_agrees lm env t0 s nz instr ops (build_instr cfg ro instr c)"
proof (cases "opcode instr \<in> {kOpcodeName_fld, kOpcodeName_fild, kOpcodeName_fst, kOpcodeName_fst_stack, kOpcodeName_fstp, kOpcodeName_fstp_stack,
    kOpcodeName_fxch, kOpcodeName_fcom, kOpcodeName_fcomp, kOpcodeName_fucom, kOpcodeName_fucomp, kOpcodeName_ficom, kOpcodeName_ficomp,
    kOpcodeName_fcomi, kOpcodeName_fcomip, kOpcodeName_fucomi, kOpcodeName_fucomip}")
  case False
  then have "plain_of (opcode instr) = Some ops" using assms(3) by (simp add: ref_misc_def)
  then show ?thesis by (rule plain_agree [OF assms(1)])
next
  case True
  note m = assms(3) [unfolded ref_misc_def Let_def]
  from True consider (a) "opcode instr = kOpcodeName_fld" | (b) "opcode instr = kOpcodeName_fild"
    | (c) "opcode instr = kOpcodeName_fst \<or> opcode instr = kOpcodeName_fst_stack"
    | (d) "opcode instr = kOpcodeName_fstp \<or> opcode instr = kOpcodeName_fstp_stack" | (e) "opcode instr = kOpcodeName_fxch"
    | (f) "opcode instr = kOpcodeName_fcom \<or> opcode instr = kOpcodeName_fucom"
    | (g) "opcode instr = kOpcodeName_fcomp \<or> opcode instr = kOpcodeName_fucomp"
    | (h) "opcode instr = kOpcodeName_ficom \<or> opcode instr = kOpcodeName_ficomp"
    | (i) "opcode instr = kOpcodeName_fcomi \<or> opcode instr = kOpcodeName_fucomi"
    | (j) "opcode instr = kOpcodeName_fcomip \<or> opcode instr = kOpcodeName_fucomip" by blast
  then show ?thesis
  proof cases
    case a
    then show ?thesis using fld_agree [OF assms(1,2) a assms(3)] by simp
  next
    case b
    then show ?thesis using m fild_agree [OF assms(1) b] by (auto split: if_splits)
  next
    case c
    then show ?thesis using m fst_agree [OF assms(1), of instr lm False] by (auto simp: build_instr_def ref_flags_def split: if_splits)
  next
    case d
    then show ?thesis using m fst_agree [OF assms(1), of instr lm True] by (auto simp: build_instr_def ref_flags_def split: if_splits)
  next
    case e
    then show ?thesis using m fxch_agree [OF assms(1), of instr lm] by (auto simp: build_instr_def ref_flags_def split: if_splits)
  next
    case f
    then show ?thesis using m ref_fcom_agree [OF assms(1,2), of instr _ False ops lm] by (auto simp: build_instr_def ref_flags_def)
  next
    case g
    then show ?thesis using m ref_fcom_agree [OF assms(1,2), of instr _ True ops lm] by (auto simp: build_instr_def ref_flags_def)
  next
    case h
    then show ?thesis using m ficom_agree [OF assms(1), of instr lm] by (auto simp: build_instr_def ref_flags_def split: if_splits)
  next
    case i
    then show ?thesis using m fcomi_agree [OF assms(1), of instr "Op_fcomi (sti (operand1 instr)) False" False lm]
        fcomi_agree [OF assms(1), of instr "Op_fucomi (sti (operand1 instr)) False" False lm]
      by (elim disjE) (simp_all add: build_instr_def ref_flags_def comi_flags split: if_splits)
  next
    case j
    then show ?thesis using m fcomi_agree [OF assms(1), of instr "Op_fcomi (sti (operand1 instr)) True" True lm]
        fcomi_agree [OF assms(1), of instr "Op_fucomi (sti (operand1 instr)) True" True lm]
      by (elim disjE) (simp_all add: build_instr_def ref_flags_def comi_flags split: if_splits)
  qed
qed

lemma build_instr_agree:
  assumes "agrees env t0 c s nz" "ro_agrees env ro" "ref_ops env nz instr = Some ops"
  shows "step_agrees lm env t0 s nz instr ops (build_instr cfg ro instr c)"
  using assms(3) const_agree [OF assms(1)] arith_agree [OF assms(1,2) _ assms(3)] iarith_agree [OF assms(1)]
    arithp_agree [OF assms(1)] fcmov_agree [OF assms(1)] ref_misc_agree [OF assms(1,2)]
  by (auto simp: ref_ops_def Let_def split: option.splits if_splits)


section \<open>A declined instruction leaves the stack it found\<close>

definition fails_ok :: "GuestEnv \<Rightarrow> Context \<Rightarrow> xstack \<Rightarrow> bool \<times> Context \<Rightarrow> bool" where
  "fails_ok env c xs r \<longleftrightarrow>
     (\<not> fst r \<longrightarrow> reads_ok env (snd r) \<longrightarrow> num_nodes (snd r) < kMaxNodes \<longrightarrow> sim env (snd r) xs \<and> keeps env c (snd r))"

lemma steps_fails: "steps env c xs k ys r \<Longrightarrow> fails_ok env c xs r"
  by (simp add: steps_def fails_ok_def)

lemma same_fails:
  assumes "sim env c xs" "\<not> fst r \<Longrightarrow> num_nodes (snd r) < kMaxNodes \<Longrightarrow> snd r = c"
  shows "fails_ok env c xs r"
  using assms by (auto simp: fails_ok_def)

lemma int_store_fails:
  "\<not> fst (build_int_store op1 v b c) \<Longrightarrow> num_nodes (snd (build_int_store op1 v b c)) < kMaxNodes \<Longrightarrow> snd (build_int_store op1 v b c) = c"
  by (auto simp: build_int_store_def Let_def add_node_emit split: if_splits option.splits)

lemma store_value_full: "store_value f v c = None \<Longrightarrow> kMaxNodes \<le> num_nodes c"
  by (simp add: store_value_def Let_def add_node_emit split: if_splits)

lemma fp_store_fails:
  assumes "\<not> fst (build_fp_store op1 v c)" "num_nodes (snd (build_fp_store op1 v c)) < kMaxNodes"
  shows "snd (build_fp_store op1 v c) = c"
proof (cases "osize op1 = S32 \<or> osize op1 = S64")
  case True
  show ?thesis
  proof (cases "store_value (osize op1 = S32) v c")
    case None
    then show ?thesis using True by (auto simp: build_fp_store_def)
  next
    case (Some r)
    then show ?thesis using assms True by (cases r) (auto simp: build_fp_store_def Let_def add_node_emit split: if_splits)
  qed
qed (auto simp: build_fp_store_def)

lemmas store_fails = fp_store_fails int_store_fails

lemma other_fails:
  "\<not> fst (build_fstsw instr c) \<Longrightarrow> snd (build_fstsw instr c) = c"
  "\<not> fst (build_fldcw instr c) \<Longrightarrow> snd (build_fldcw instr c) = c"
  "\<not> fst (build_fnstcw instr c) \<Longrightarrow> snd (build_fnstcw instr c) = c"
  by (auto simp: build_fstsw_def build_fldcw_def build_fnstcw_def Let_def add_node_emit split: if_splits)

lemma guest_form_fails:
  "fst (build_guest_store instr c) \<or> snd (build_guest_store instr c) = c"
  "fst (build_guest_load instr op c) \<or> snd (build_guest_load instr op c) = c"
  "fst (build_guest_reg instr op c) \<or> snd (build_guest_reg instr op c) = c"
  by (simp_all add: build_guest_store_def build_guest_load_def build_guest_reg_def Let_def add_node_emit split: option.split prod.split)

lemma guest_fails: "fst (build_guest_int cfg instr op c) \<or> snd (build_guest_int cfg instr op c) = c"
  unfolding build_guest_int_def Let_def by (simp add: guest_form_fails)

lemma store_then_fails:
  assumes "sim env c xs" "\<And>v c1. \<not> fst (f v c1) \<Longrightarrow> num_nodes (snd (f v c1)) < kMaxNodes \<Longrightarrow> snd (f v c1) = c1"
  shows "fails_ok env c xs (let (v, c1) = resolve 0 c in if v < 0 then (False, c1)
           else let (ok, c2) = f v c1 in if \<not> ok then (False, c2) else (True, g c2))"
proof -
  obtain v c1 where r: "resolve 0 c = (v, c1)" by fastforce
  obtain ok c2 where f: "f v c1 = (ok, c2)" by fastforce
  show ?thesis using resolve_sim [OF assms(1) r] assms(2) [of v c1] by (auto simp: r f fails_ok_def)
qed

lemma fst_fails:
  assumes "sim env c xs"
  shows "fails_ok env c xs (build_fst instr p c)"
proof (cases "kind (operand0 instr) = KRegister")
  case True
  then show ?thesis using steps_fails [OF build_fst_reg_sim [OF assms]] by blast
next
  case False
  then show ?thesis unfolding build_fst_def if_not_P [OF False]
    by (intro store_then_fails [OF assms]) (auto intro: store_fails)
qed

lemma fist_fails: "sim env c xs \<Longrightarrow> fails_ok env c xs (build_fist instr op c)"
  unfolding build_fist_def by (intro store_then_fails) (auto intro: store_fails)

lemma build_instr_fails:
  assumes "sim env c xs" "ro_agrees env ro"
  shows "fails_ok env c xs (build_instr cfg ro instr c)"
proof -
  note sim = assms(1)
  have a: "fails_ok env c xs (build_arith ro instr (fst (arith_node a)) (snd (arith_node a)) c)" for a
    by (cases "kind (operand0 instr) = KRegister")
      (rule steps_fails [OF build_arith_reg_sim [OF sim]] steps_fails [OF build_arith_mem_sim [OF sim _ assms(2)]], assumption)+
  have u: "fails_ok env c xs (build_unary k c)" if "k \<in> {FAbs, FSqrt, FRndInt}" for k
    using that by (intro steps_fails [OF build_unary_sim [OF sim, where f = "\<lambda>x. node_value env (fresh k 0 (-1) (-1)) [x] 0"]])
      (auto simp: arity_def node_value_def)
  have m: "fails_ok env c xs (build_fcom ro instr n b c)" for n b
  proof (cases "b \<or> kind (operand1 instr) = KRegister")
    case True
    then show ?thesis by (rule steps_fails [OF build_fcom_reg_sim [OF sim]])
  next
    case False
    then show ?thesis by (intro steps_fails [OF build_fcom_mem_sim [OF sim _ _ assms(2)]]) simp_all
  qed
  have p: "gives env c xs x r \<Longrightarrow> fails_ok env c xs (push_result r)" for x r by (rule steps_fails [OF push_steps])
  have i: "fails_ok env c xs (build_fcomi instr b c)" for b
    using build_fcomi_sim [OF sim] by (cases "build_fcomi instr b c") (auto simp: fails_ok_def split: if_splits)
  have n: "fails_ok env c xs (build_fstsw instr c)" "fails_ok env c xs (build_fldcw instr c)" "fails_ok env c xs (build_fnstcw instr c)"
    "fails_ok env c xs (build_guest_int cfg instr op c)" "fails_ok env c xs (b, c)" for op b
    using other_fails [of instr c] guest_fails [of cfg instr op c] by (auto intro: same_fails [OF sim])
  have q: "fails_ok env c xs (build_arithp instr (fst (arith_node a)) (snd (arith_node a)) c)"
    "fails_ok env c xs (build_iarith instr (fst (arith_node a)) (snd (arith_node a)) c)" for a
    by (rule steps_fails [OF build_arithp_sim [OF sim]], rule steps_fails [OF build_iarith_sim [OF sim]])
  note as = a [of AAdd] a [of ASub] a [of ASubr] a [of AMul] a [of ADiv] a [of ADivr]
    q [of AAdd] q [of ASub] q [of ASubr] q [of AMul] q [of ADiv] q [of ADivr]
  note ps = p [OF build_zero_one_sim(1) [OF sim]] p [OF build_zero_one_sim(2) [OF sim]] p [OF build_const_sim [OF sim]]
    p [OF fp_operand_gives [OF assms]] p [OF int_operand_gives [OF sim]] steps_fails [OF resolve_push_steps [OF sim]]
  note ss = steps_fails [OF build_ficom_sim [OF sim]] steps_fails [OF build_fcmov_sim [OF sim]] steps_fails [OF build_fchs_sim [OF sim]]
    steps_fails [OF build_ftst_sim [OF sim]] steps_fails [OF build_fxch_sim [OF sim]]
  show ?thesis unfolding build_instr_def Let_def
    by (simp add: as [simplified] ps ss n u m i fst_fails [OF sim] fist_fails [OF sim])
qed


section \<open>The loop\<close>

text \<open>Builders only append nodes and leave the instruction count to the loop.\<close>

definition grows :: "Context \<Rightarrow> Context \<Rightarrow> bool" where
  "grows c d \<longleftrightarrow> ext c d \<and> consumed d = consumed c"

lemma grows_refl [simp]: "grows c c"
  by (simp add: grows_def)

lemma grows_trans: "grows a b \<Longrightarrow> grows b c \<Longrightarrow> grows a c"
  by (auto simp: grows_def intro: ext_trans)

lemma grows_same: "grows c d \<Longrightarrow> nodes e = nodes d \<Longrightarrow> consumed e = consumed d \<Longrightarrow> grows c e"
  by (simp add: grows_def ext_def)

lemma grows_emit [simp]: "grows c (emit n c)"
  by (simp add: grows_def)

lemma grows_add_node: "grows c (snd (add_node k a b e c))"
  by (simp add: add_node_emit)

lemma consumed_tables [simp]:
  "consumed (set_slot d v c) = consumed c" "consumed (mem_cse_insert op1 k v c) = consumed c"
  "consumed (mem_cse_evict_may_alias op1 c) = consumed c" "consumed (mem_cse_evict_reg r c) = consumed c"
  "consumed (ctx_pop c) = consumed c" "consumed (ctx_push v c) = consumed c" "consumed (update_node i f c) = consumed c"
  "consumed ((ctx_pop ^^ n) c) = consumed c" "nodes (ctx_push v c) = nodes c"
  by (simp_all add: set_slot_def mem_cse_insert_def mem_cse_evict_may_alias_def mem_cse_evict_reg_def ctx_pop_def ctx_push_def update_node_def)
    (induction n; simp add: ctx_pop_def)

lemma grows_leaves:
  "grows c (snd (resolve d c))" "grows c (snd (const_node_for_bits bits c))" "grows c (snd (build_const bits c))"
  "grows c (snd (build_zero c))" "grows c (snd (build_one c))"
  "grows c (snd (new_fp_load op1 b k c))" "grows c (snd (build_int_load op1 c))"
  by (auto simp: resolve_def const_node_for_bits_def build_zero_def build_one_def build_const_def new_fp_load_def build_int_load_def
      Let_def add_node_emit grows_def ext_def split: option.splits)

end
