(* ===== verification/X87Cache.thy ===== *)
theory X87Cache
  imports IRTypes X87RuntimeFacts
begin

text \<open>
  The cross-instruction x87 register cache (\<open>rosetta_core/include/rosetta_core/X87Cache.h\<close> and
  \<open>rosetta_core/src/X87Cache.cpp\<close>): its record, the operations that change it, the pinned-register
  mask, the set of handled opcodes, the deferred-FXCH permutation, and \<open>lookahead\<close>, which decides
  how many instructions a run spans. The scratch-register demand model of
  \<open>X87BridgeDemand.cpp\<close> is the argument \<open>demand\<close>.
\<close>

section \<open>Handled opcodes\<close>

definition handled_opcodes :: "u16 list" where
  "handled_opcodes = [
     kOpcodeName_fldz, kOpcodeName_fld1, kOpcodeName_fldl2e, kOpcodeName_fldl2t, kOpcodeName_fldlg2,
     kOpcodeName_fldln2, kOpcodeName_fldpi, kOpcodeName_fld, kOpcodeName_fild, kOpcodeName_fadd,
     kOpcodeName_faddp, kOpcodeName_fiadd, kOpcodeName_fsub, kOpcodeName_fsubr, kOpcodeName_fsubp,
     kOpcodeName_fsubrp, kOpcodeName_fdiv, kOpcodeName_fdivr, kOpcodeName_fdivp, kOpcodeName_fdivrp,
     kOpcodeName_fmul, kOpcodeName_fmulp, kOpcodeName_fst, kOpcodeName_fst_stack, kOpcodeName_fstp,
     kOpcodeName_fstp_stack, kOpcodeName_fstsw, kOpcodeName_fcom, kOpcodeName_fcomp,
     kOpcodeName_fcompp, kOpcodeName_fucom, kOpcodeName_fucomp, kOpcodeName_fucompp, kOpcodeName_fxch,
     kOpcodeName_fchs, kOpcodeName_fabs, kOpcodeName_fsqrt, kOpcodeName_fistp, kOpcodeName_fisttp,
     kOpcodeName_fidiv, kOpcodeName_fimul, kOpcodeName_fisub, kOpcodeName_fidivr, kOpcodeName_frndint,
     kOpcodeName_fcomi, kOpcodeName_fcomip, kOpcodeName_fucomi, kOpcodeName_fucomip, kOpcodeName_ftst,
     kOpcodeName_fist, kOpcodeName_fisubr, kOpcodeName_fcmovb, kOpcodeName_fcmovbe, kOpcodeName_fcmove,
     kOpcodeName_fcmovnb, kOpcodeName_fcmovnbe, kOpcodeName_fcmovne, kOpcodeName_fcmovu,
     kOpcodeName_fcmovnu, kOpcodeName_ficom, kOpcodeName_ficomp, kOpcodeName_fldcw, kOpcodeName_fnstcw,
     kOpcodeName_fnop]"

definition is_handled_x87 :: "u16 \<Rightarrow> bool" where
  "is_handled_x87 op = List.member handled_opcodes op"

definition kCount :: nat where "kCount = 61"

definition opcode_ids :: "(u16 \<times> nat) list" where
  "opcode_ids = [
     (kOpcodeName_fldz, 0), (kOpcodeName_fld1, 1), (kOpcodeName_fldl2e, 2), (kOpcodeName_fldl2t, 3),
     (kOpcodeName_fldlg2, 4), (kOpcodeName_fldln2, 5), (kOpcodeName_fldpi, 6), (kOpcodeName_fld, 7),
     (kOpcodeName_fild, 8), (kOpcodeName_fadd, 9), (kOpcodeName_faddp, 10), (kOpcodeName_fiadd, 11),
     (kOpcodeName_fsub, 12), (kOpcodeName_fsubr, 13), (kOpcodeName_fsubp, 14),
     (kOpcodeName_fsubrp, 15), (kOpcodeName_fdiv, 16), (kOpcodeName_fdivr, 17),
     (kOpcodeName_fdivp, 18), (kOpcodeName_fdivrp, 19), (kOpcodeName_fmul, 20),
     (kOpcodeName_fmulp, 21), (kOpcodeName_fst, 22), (kOpcodeName_fst_stack, 23),
     (kOpcodeName_fstp, 24), (kOpcodeName_fstp_stack, 25), (kOpcodeName_fstsw, 26),
     (kOpcodeName_fcom, 27), (kOpcodeName_fcomp, 28), (kOpcodeName_fcompp, 29),
     (kOpcodeName_fucom, 30), (kOpcodeName_fucomp, 31), (kOpcodeName_fucompp, 32),
     (kOpcodeName_fxch, 33), (kOpcodeName_fchs, 34), (kOpcodeName_fabs, 35), (kOpcodeName_fsqrt, 36),
     (kOpcodeName_fistp, 37), (kOpcodeName_fisttp, 58), (kOpcodeName_fidiv, 38),
     (kOpcodeName_fimul, 39), (kOpcodeName_fisub, 40), (kOpcodeName_fidivr, 41),
     (kOpcodeName_frndint, 42), (kOpcodeName_fcomi, 43), (kOpcodeName_fcomip, 44),
     (kOpcodeName_fucomi, 45), (kOpcodeName_fucomip, 46), (kOpcodeName_ftst, 47),
     (kOpcodeName_fist, 48), (kOpcodeName_fisubr, 49), (kOpcodeName_fcmovb, 50),
     (kOpcodeName_fcmovbe, 51), (kOpcodeName_fcmove, 52), (kOpcodeName_fcmovnb, 53),
     (kOpcodeName_fcmovnbe, 54), (kOpcodeName_fcmovne, 55), (kOpcodeName_fcmovu, 56),
     (kOpcodeName_fcmovnu, 57), (kOpcodeName_ficom, 59), (kOpcodeName_ficomp, 60)]"

definition opcode_to_id_local :: "u16 \<Rightarrow> nat" where
  "opcode_to_id_local op = (case map_of opcode_ids op of Some i \<Rightarrow> i | None \<Rightarrow> kCount)"

definition op_disabled_for_run :: "u16 \<Rightarrow> u64 \<Rightarrow> bool" where
  "op_disabled_for_run op disabled_ops_mask =
     (if disabled_ops_mask = 0 then False
      else let i = opcode_to_id_local op in i \<noteq> kCount \<and> drop_bit i disabled_ops_mask AND 1 \<noteq> 0)"

section \<open>The cache record\<close>

record CarriedBase =
  cb_addr_size :: u8
  cb_mem_flags :: u8
  cb_base_reg :: u8
  cb_index_reg :: u8
  cb_shift_amount :: u8
  cb_gpr :: int

record X87Cache =
  base_gpr :: int
  top_gpr :: int
  run_remaining :: int
  st_base_gpr :: int
  top_dirty :: int
  gprs_valid :: int
  deferred_push_count :: int
  deferred_pop_count :: int
  perm :: "int list"
  perm_dirty :: int
  carried_base :: "CarriedBase list"
  carried_rc_gpr :: int

definition X87Cache_new :: X87Cache where
  "X87Cache_new = \<lparr>base_gpr = 0, top_gpr = 0, run_remaining = 0, st_base_gpr = 0, top_dirty = 0,
     gprs_valid = 0, deferred_push_count = 0, deferred_pop_count = 0, perm = [0, 1, 2, 3, 4, 5, 6, 7],
     perm_dirty = 0,
     carried_base = replicate 2 \<lparr>cb_addr_size = 0, cb_mem_flags = 0, cb_base_reg = 0, cb_index_reg = 0,
       cb_shift_amount = 0, cb_gpr = -1\<rparr>,
     carried_rc_gpr = -1\<rparr>"

definition active :: "X87Cache \<Rightarrow> bool" where
  "active c \<longleftrightarrow> run_remaining c > 0"

definition carried_any :: "X87Cache \<Rightarrow> bool" where
  "carried_any c \<longleftrightarrow> cb_gpr (carried_base c ! 0) \<ge> 0 \<or> cb_gpr (carried_base c ! 1) \<ge> 0 \<or> carried_rc_gpr c \<ge> 0"

definition carried_clear :: "X87Cache \<Rightarrow> X87Cache" where
  "carried_clear c = c\<lparr>carried_base := map (\<lambda>b. b\<lparr>cb_gpr := -1\<rparr>) (carried_base c), carried_rc_gpr := -1\<rparr>"

definition gpr_bit :: "int \<Rightarrow> u32" where
  "gpr_bit g = (if g \<ge> 0 then push_bit (nat g) 1 else 0)"

definition carried_release :: "X87Cache \<Rightarrow> u32 \<Rightarrow> X87Cache \<times> u32" where
  "carried_release c free_gpr_mask =
     (let m = fold (\<lambda>b m. m OR gpr_bit (cb_gpr b)) (carried_base c) free_gpr_mask
      in (carried_clear c, m OR gpr_bit (carried_rc_gpr c)))"

definition carried_hit :: "u16 \<Rightarrow> CarriedBase \<Rightarrow> bool" where
  "carried_hit guest_mask b \<longleftrightarrow>
     cb_mem_flags b AND 1 \<noteq> 0 \<and> bit guest_mask (unat (cb_base_reg b AND 0xF)) \<or>
     cb_mem_flags b AND 2 \<noteq> 0 \<and> bit guest_mask (unat (cb_index_reg b AND 0xF))"

definition carried_drop_written :: "X87Cache \<Rightarrow> u16 \<Rightarrow> X87Cache" where
  "carried_drop_written c guest_mask =
     (if guest_mask = 0 then c
      else c\<lparr>carried_base := map (\<lambda>b. if cb_gpr b < 0 then b
                                     else if carried_hit guest_mask b then b\<lparr>cb_gpr := -1\<rparr> else b)
                               (carried_base c)\<rparr>)"

definition reg_bit :: "Register \<Rightarrow> u16" where
  "reg_bit r = push_bit (unat (reg_index r)) 1"

text \<open>The operand loop of the exchange case: \<open>None\<close> when a register operand is not a GPR.\<close>

fun xchg_mask :: "IROperand list \<Rightarrow> u16 \<Rightarrow> u16 option" where
  "xchg_mask [] acc = Some acc"
| "xchg_mask (x # xs) acc =
     (if kind x = KRegister
      then if \<not> is_gpr (oreg x) then None else xchg_mask xs (acc OR reg_bit (oreg x))
      else xchg_mask xs acc)"

definition explicit_dst_mask :: "IRInstr \<Rightarrow> u16 \<Rightarrow> u16" where
  "explicit_dst_mask i acc =
     (if num_operands i \<ge> 1 \<and> kind (operand0 i) = KRegister \<and> is_gpr (oreg (operand0 i))
      then acc OR reg_bit (oreg (operand0 i)) else acc)"

definition gap_written_gpr_mask :: "IRInstr \<Rightarrow> u16" where
  "gap_written_gpr_mask i =
     (let op = opcode i in
      if List.member [kOpcodeName_nop, kOpcodeName_cmp, kOpcodeName_ucomiss, kOpcodeName_ucomisd,
                      kOpcodeName_comiss, kOpcodeName_comisd] op then 0
      else if List.member [kOpcodeName_cbw, kOpcodeName_cwde, kOpcodeName_cdqe] op then 1
      else if List.member [kOpcodeName_cwd, kOpcodeName_cdq] op then 4
      else if op = kOpcodeName_mul then 1 OR 4
      else if op = kOpcodeName_imul \<and> num_operands i \<le> 1 then 1 OR 4
      else if List.member [kOpcodeName_push, kOpcodeName_pop, kOpcodeName_pushd, kOpcodeName_popd] op
        then explicit_dst_mask i 16
      else if op = kOpcodeName_xchg
        then (case xchg_mask (take (min 2 (unat (num_operands i))) [operand0 i, operand1 i]) 0 of
                Some m \<Rightarrow> m | None \<Rightarrow> 0xFFFF)
      else explicit_dst_mask i 0)"

section \<open>Run state\<close>

definition reset_perm :: "X87Cache \<Rightarrow> X87Cache" where
  "reset_perm c = c\<lparr>perm := map int [0..<8], perm_dirty := 0\<rparr>"

definition perm_is_identity :: "X87Cache \<Rightarrow> bool" where
  "perm_is_identity c \<longleftrightarrow> list_all (\<lambda>i. perm c ! i = int i) [0..<8]"

definition invalidate :: "X87Cache \<Rightarrow> X87Cache" where
  "invalidate c = reset_perm (carried_clear (c\<lparr>gprs_valid := 0, top_dirty := 0,
     deferred_push_count := 0, deferred_pop_count := 0, run_remaining := 0\<rparr>))"

definition invalidate_masks :: "X87Cache \<Rightarrow> u32 \<Rightarrow> u32 \<Rightarrow> X87Cache \<times> u32" where
  "invalidate_masks c free_gpr_mask scratch_mask = (invalidate c, scratch_mask)"

definition wrap16 :: "int \<Rightarrow> int" where
  "wrap16 n = sint (word_of_int n :: 16 word)"

definition set_run :: "X87Cache \<Rightarrow> int \<Rightarrow> X87Cache" where
  "set_run c run_length = (if run_length \<ge> 2 then c\<lparr>run_remaining := wrap16 run_length\<rparr> else c)"

definition tick :: "X87Cache \<Rightarrow> X87Cache" where
  "tick c =
     (if run_remaining c > 0 then
        let c1 = c\<lparr>run_remaining := run_remaining c - 1\<rparr> in
        if run_remaining c1 = 0 then
          carried_clear (c1\<lparr>gprs_valid := 0, top_dirty := 0, deferred_push_count := 0, deferred_pop_count := 0\<rparr>)
        else c1
      else c)"

definition pinned_mask :: "X87Cache \<Rightarrow> u32" where
  "pinned_mask c =
     (let m0 = (if gprs_valid c \<noteq> 0
                then push_bit (nat (base_gpr c)) 1 OR push_bit (nat (top_gpr c)) 1 OR push_bit (nat (st_base_gpr c)) 1
                else 0);
          m1 = fold (\<lambda>b m. m OR gpr_bit (cb_gpr b)) (carried_base c) m0
      in m1 OR gpr_bit (carried_rc_gpr c))"

section \<open>Keepalive and lookahead\<close>

definition runtime_keepalive_top_delta :: "u16 \<Rightarrow> int option" where
  "runtime_keepalive_top_delta op =
     (if List.member [kOpcodeName_f2xm1, kOpcodeName_fsin, kOpcodeName_fcos, kOpcodeName_fscale,
                      kOpcodeName_fxam, kOpcodeName_fprem, kOpcodeName_fprem1] op then Some 0
      else if List.member [kOpcodeName_fptan, kOpcodeName_fsincos] op then Some (- 1)
      else if List.member [kOpcodeName_fyl2x, kOpcodeName_fyl2xp1, kOpcodeName_fpatan] op then Some 1
      else None)"

abbreviation kMaxBridgeDemand :: int where "kMaxBridgeDemand \<equiv> 4"
abbreviation kMaxBridgeGap :: nat where "kMaxBridgeGap \<equiv> 16"

definition run_member :: "u64 \<Rightarrow> bool \<Rightarrow> u16 \<Rightarrow> bool" where
  "run_member disabled_ops_mask runtime_keepalive op =
     (if is_handled_x87 op then \<not> op_disabled_for_run op disabled_ops_mask
      else runtime_keepalive \<and> runtime_keepalive_top_delta op \<noteq> None)"

definition bridgeable :: "(IRInstr \<Rightarrow> int option) \<Rightarrow> IRInstr \<Rightarrow> bool" where
  "bridgeable demand i = (case demand i of Some d \<Rightarrow> d \<le> kMaxBridgeDemand | None \<Rightarrow> False)"

text \<open>The two inner loops: the group of run members from \<open>i\<close>, and the gap from \<open>j\<close>.\<close>

function group_end :: "(u16 \<Rightarrow> bool) \<Rightarrow> IRInstr list \<Rightarrow> nat \<Rightarrow> nat" where
  "group_end mem ins i =
     (if i < length ins \<and> mem (opcode (ins ! i)) then group_end mem ins (i + 1) else i)"
  by pat_completeness auto
termination
  by (relation "measure (\<lambda>(mem, ins, i). length ins - i)") auto

function gap_end :: "(IRInstr \<Rightarrow> bool) \<Rightarrow> IRInstr list \<Rightarrow> nat \<Rightarrow> nat \<Rightarrow> nat \<times> nat" where
  "gap_end ok ins j gap =
     (if j < length ins \<and> gap < kMaxBridgeGap \<and> ok (ins ! j) then gap_end ok ins (j + 1) (gap + 1) else (j, gap))"
  by pat_completeness auto
termination
  by (relation "measure (\<lambda>(ok, ins, j, gap). length ins - j)") auto

declare group_end.simps [simp del] gap_end.simps [simp del]

lemma group_end_ge: "i \<le> group_end mem ins i"
  by (induction mem ins i rule: group_end.induct) (subst group_end.simps, auto)

lemma gap_end_shift: "gap \<le> snd (gap_end ok ins j gap) \<and> fst (gap_end ok ins j gap) + gap = j + snd (gap_end ok ins j gap)"
  by (induction ok ins j gap rule: gap_end.induct) (subst (1 2 3) gap_end.simps, auto)

function lookahead_from :: "(u16 \<Rightarrow> bool) \<Rightarrow> (IRInstr \<Rightarrow> bool) \<Rightarrow> bool \<Rightarrow> IRInstr list \<Rightarrow> nat \<Rightarrow> nat \<Rightarrow> nat" where
  "lookahead_from mem ok bridge ins i count =
     (let i1 = group_end mem ins i; count1 = count + (i1 - i) in
      if \<not> bridge \<or> count1 = 0 then count1
      else
        let (j, gap) = gap_end ok ins i1 0 in
        if gap = 0 \<or> j \<ge> length ins \<or> \<not> mem (opcode (ins ! j)) then count1
        else lookahead_from mem ok bridge ins j (count1 + gap))"
  by pat_completeness auto
termination
proof (relation "measure (\<lambda>(mem, ok, bridge, ins, i, count). length ins - i)", goal_cases)
  case (2 mem ok bridge ins i count i1 count1 r j gap)
  then show ?case using group_end_ge [of i mem ins] gap_end_shift [of 0 ok ins i1] by (auto simp: prod_eq_iff)
qed simp

declare lookahead_from.simps [simp del]

definition lookahead ::
  "(IRInstr \<Rightarrow> int option) \<Rightarrow> IRInstr list \<Rightarrow> nat \<Rightarrow> u64 \<Rightarrow> bool \<Rightarrow> bool \<Rightarrow> nat" where
  "lookahead demand ins insn_idx disabled_ops_mask bridge runtime_keepalive =
     lookahead_from (run_member disabled_ops_mask runtime_keepalive) (bridgeable demand) bridge ins insn_idx 0"

section \<open>What a run spans\<close>

lemma group_end_spec:
  "i \<le> length ins \<Longrightarrow> group_end mem ins i \<le> length ins \<and>
   (\<forall>k. i \<le> k \<and> k < group_end mem ins i \<longrightarrow> mem (opcode (ins ! k))) \<and>
   (group_end mem ins i < length ins \<longrightarrow> \<not> mem (opcode (ins ! group_end mem ins i)))"
proof (induction mem ins i rule: group_end.induct)
  case (1 mem ins i)
  show ?case
  proof (cases "i < length ins \<and> mem (opcode (ins ! i))")
    case True
    then have e: "group_end mem ins i = group_end mem ins (i + 1)" by (subst group_end.simps) simp
    have IH: "group_end mem ins (i + 1) \<le> length ins \<and>
       (\<forall>k. i + 1 \<le> k \<and> k < group_end mem ins (i + 1) \<longrightarrow> mem (opcode (ins ! k))) \<and>
       (group_end mem ins (i + 1) < length ins \<longrightarrow> \<not> mem (opcode (ins ! group_end mem ins (i + 1))))"
      using 1 True by simp
    have "mem (opcode (ins ! k))" if "i \<le> k" "k < group_end mem ins (i + 1)" for k
      using that True IH by (cases "k = i") auto
    then show ?thesis using IH unfolding e by blast
  next
    case False
    then have "group_end mem ins i = i" by (subst group_end.simps) auto
    then show ?thesis using 1(2) False by auto
  qed
qed

lemma gap_end_spec:
  "j \<le> length ins \<Longrightarrow> gap \<le> kMaxBridgeGap \<Longrightarrow>
   fst (gap_end ok ins j gap) \<le> length ins \<and> snd (gap_end ok ins j gap) \<le> kMaxBridgeGap \<and>
   (\<forall>k. j \<le> k \<and> k < fst (gap_end ok ins j gap) \<longrightarrow> ok (ins ! k))"
proof (induction ok ins j gap rule: gap_end.induct)
  case (1 ok ins j gap)
  show ?case
  proof (cases "j < length ins \<and> gap < kMaxBridgeGap \<and> ok (ins ! j)")
    case True
    then have e: "gap_end ok ins j gap = gap_end ok ins (j + 1) (gap + 1)" by (subst gap_end.simps) simp
    have IH: "fst (gap_end ok ins (j + 1) (gap + 1)) \<le> length ins \<and>
       snd (gap_end ok ins (j + 1) (gap + 1)) \<le> kMaxBridgeGap \<and>
       (\<forall>k. j + 1 \<le> k \<and> k < fst (gap_end ok ins (j + 1) (gap + 1)) \<longrightarrow> ok (ins ! k))"
      using 1(1) True by simp
    have "ok (ins ! k)" if "j \<le> k" "k < fst (gap_end ok ins (j + 1) (gap + 1))" for k
      using that True IH by (cases "k = j") auto
    then show ?thesis using IH unfolding e by blast
  next
    case False
    then have "gap_end ok ins j gap = (j, gap)" by (subst gap_end.simps) auto
    then show ?thesis using 1(2,3) by auto
  qed
qed

text \<open>
  A run of \<open>n\<close> instructions from \<open>start\<close>: it lies in the block, ends on a member, cannot be
  extended by a member, consists of members and (when bridging) bridgeable instructions, and
  every seventeen consecutive ones contain a member.
\<close>

definition good_run :: "(u16 \<Rightarrow> bool) \<Rightarrow> (IRInstr \<Rightarrow> bool) \<Rightarrow> bool \<Rightarrow> IRInstr list \<Rightarrow> nat \<Rightarrow> nat \<Rightarrow> bool" where
  "good_run mem ok bridge ins start n \<longleftrightarrow>
     start + n \<le> length ins \<and>
     (0 < n \<longrightarrow> mem (opcode (ins ! start)) \<and> mem (opcode (ins ! (start + n - 1)))) \<and>
     (\<forall>k. start \<le> k \<and> k < start + n \<longrightarrow> mem (opcode (ins ! k)) \<or> bridge \<and> ok (ins ! k)) \<and>
     (\<forall>k. start \<le> k \<and> k + kMaxBridgeGap < start + n \<longrightarrow>
        (\<exists>m. k \<le> m \<and> m \<le> k + kMaxBridgeGap \<and> mem (opcode (ins ! m))))"

lemma good_run_group:
  assumes "good_run mem ok bridge ins start n" "start + n \<le> e" "e \<le> length ins"
    "\<And>k. start + n \<le> k \<Longrightarrow> k < e \<Longrightarrow> mem (opcode (ins ! k))"
  shows "good_run mem ok bridge ins start (e - start)"
proof -
  have "\<exists>m. k \<le> m \<and> m \<le> k + kMaxBridgeGap \<and> mem (opcode (ins ! m))"
    if "start \<le> k" "k + kMaxBridgeGap < e" for k
  proof (cases "k + kMaxBridgeGap < start + n")
    case True then show ?thesis using assms(1) that unfolding good_run_def by blast
  next
    case False
    then have "mem (opcode (ins ! (k + kMaxBridgeGap)))" using assms(4) that by simp
    then show ?thesis by (intro exI [of _ "k + kMaxBridgeGap"]) simp
  qed
  moreover have "mem (opcode (ins ! k)) \<or> bridge \<and> ok (ins ! k)" if "start \<le> k" "k < e" for k
    using that assms(1) assms(4) [of k] unfolding good_run_def by (cases "k < start + n") auto
  moreover have "mem (opcode (ins ! start)) \<and> mem (opcode (ins ! (e - 1)))" if "start < e"
    using that assms(1) assms(4) [of start] assms(4) [of "e - 1"] assms(2) unfolding good_run_def
    by (cases "n = 0"; cases "start + n = e") auto
  ultimately show ?thesis using assms(2,3) unfolding good_run_def by auto
qed

text \<open>Crossing a gap: the instruction after it is a member, and the group from there begins.\<close>

definition pending_run :: "(u16 \<Rightarrow> bool) \<Rightarrow> (IRInstr \<Rightarrow> bool) \<Rightarrow> bool \<Rightarrow> IRInstr list \<Rightarrow> nat \<Rightarrow> nat \<Rightarrow> bool" where
  "pending_run mem ok bridge ins start i \<longleftrightarrow>
     start \<le> i \<and> i \<le> length ins \<and> (i = start \<or> i < length ins \<and> mem (opcode (ins ! i)) \<and>
        good_run mem ok bridge ins start (i + 1 - start))"


lemma good_run_gap:
  assumes "good_run mem ok True ins start n" "0 < n" "j = start + n + gap" "j < length ins" "gap \<le> kMaxBridgeGap"
    "mem (opcode (ins ! j))" "\<And>k. start + n \<le> k \<Longrightarrow> k < j \<Longrightarrow> ok (ins ! k)"
  shows "good_run mem ok True ins start (j + 1 - start)"
proof -
  have last: "mem (opcode (ins ! (start + n - 1)))" and first: "mem (opcode (ins ! start))"
    using assms(1,2) by (simp_all add: good_run_def)
  have "\<exists>m. k \<le> m \<and> m \<le> k + kMaxBridgeGap \<and> mem (opcode (ins ! m))"
    if "start \<le> k" "k + kMaxBridgeGap < j + 1" for k
  proof -
    consider "k + kMaxBridgeGap < start + n" | "k < start + n" "start + n \<le> k + kMaxBridgeGap"
      | "start + n \<le> k" by linarith
    then show ?thesis
    proof cases
      case 1 then show ?thesis using assms(1) that unfolding good_run_def by blast
    next
      case 2 then show ?thesis using last by (intro exI [of _ "start + n - 1"]) auto
    next
      case 3 then show ?thesis using assms(3,5,6) that by (intro exI [of _ j]) auto
    qed
  qed
  moreover have "mem (opcode (ins ! k)) \<or> ok (ins ! k)" if a: "start \<le> k" and b: "k < j + 1" for k
  proof -
    consider "k < start + n" | "start + n \<le> k" "k < j" | "k = j" using b by linarith
    then show ?thesis using assms(1,6) assms(7) [of k] a unfolding good_run_def by cases auto
  qed
  ultimately show ?thesis using assms(3,4,6) first unfolding good_run_def by (auto simp: add.assoc)
qed

lemma lookahead_from_good:
  assumes "pending_run mem ok bridge ins start i" "count = i - start"
  shows "good_run mem ok bridge ins start (lookahead_from mem ok bridge ins i count) \<and>
    (start + lookahead_from mem ok bridge ins i count < length ins \<longrightarrow>
       \<not> mem (opcode (ins ! (start + lookahead_from mem ok bridge ins i count))))"
  using assms
proof (induction mem ok bridge ins i count rule: lookahead_from.induct)
  case (1 mem ok bridge ins i count)
  define i1 where "i1 = group_end mem ins i"
  have i: "start \<le> i" "i \<le> length ins" using 1(2) by (simp_all add: pending_run_def)
  have g: "i \<le> i1" "i1 \<le> length ins" "\<And>k. i \<le> k \<Longrightarrow> k < i1 \<Longrightarrow> mem (opcode (ins ! k))"
    "i1 < length ins \<Longrightarrow> \<not> mem (opcode (ins ! i1))"
    using group_end_spec [OF i(2), of mem] group_end_ge [of i mem ins] by (auto simp: i1_def)
  have run: "good_run mem ok bridge ins start (i1 - start)"
  proof (cases "i = start")
    case True
    have "good_run mem ok bridge ins start 0" using i by (auto simp: good_run_def True)
    then show ?thesis by (rule good_run_group) (use g i True in auto)
  next
    case False
    then have p: "i < length ins" "mem (opcode (ins ! i))" "good_run mem ok bridge ins start (i + 1 - start)"
      using 1(2) by (simp_all add: pending_run_def)
    then have "i1 \<noteq> i" using g(4) by auto
    then show ?thesis using g i by (intro good_run_group [OF p(3)]) auto
  qed
  have c1: "count + (i1 - i) = i1 - start" using 1(3) i g(1) by simp
  obtain j gap where jg: "gap_end ok ins i1 0 = (j, gap)" by fastforce
  have gp: "j = i1 + gap" "gap \<le> kMaxBridgeGap" "\<And>k. i1 \<le> k \<Longrightarrow> k < j \<Longrightarrow> ok (ins ! k)"
    using gap_end_shift [of 0 ok ins i1] gap_end_spec [OF g(2), of 0 ok] jg by auto
  show ?case
  proof (cases "\<not> bridge \<or> i1 = start \<or> gap = 0 \<or> j \<ge> length ins \<or> \<not> mem (opcode (ins ! j))")
    case True
    then have "lookahead_from mem ok bridge ins i count = i1 - start"
      using i g(1) c1 jg by (subst lookahead_from.simps) (auto simp: Let_def i1_def [symmetric])
    then show ?thesis using run g i by auto
  next
    case False
    then have e: "lookahead_from mem ok bridge ins i count = lookahead_from mem ok bridge ins j (i1 - start + gap)"
      using i g(1) c1 jg by (subst lookahead_from.simps) (auto simp: Let_def i1_def [symmetric])
    have "good_run mem ok True ins start (j + 1 - start)"
      using run False i g gp by (intro good_run_gap [of _ _ _ _ "i1 - start" _ gap]) auto
    then have "pending_run mem ok bridge ins start j"
      using False i g(1) gp(1) by (auto simp: pending_run_def)
    then show ?thesis
      unfolding e using 1(1) [OF i1_def refl _ jg [symmetric] refl] False c1 i g(1) gp(1) by (auto simp: c1)
  qed
qed


text \<open>
  (C14) \<open>lookahead\<close>: for any demand model, the returned run lies within the block, starts and ends
  on a run member (an enabled handled x87 instruction, or a keepalive transcendental when those
  are on), contains nothing else but bridgeable instructions and those only when bridging is on,
  never crosses a gap of more than sixteen, and is maximal: the instruction after it is no run
  member.
\<close>

theorem lookahead_spans_run:
  assumes "idx \<le> length ins"
  shows "good_run (run_member dis ka) (bridgeable demand) bridge ins idx (lookahead demand ins idx dis bridge ka) \<and>
    (idx + lookahead demand ins idx dis bridge ka < length ins \<longrightarrow>
      \<not> run_member dis ka (opcode (ins ! (idx + lookahead demand ins idx dis bridge ka))))"
  unfolding lookahead_def using assms by (intro lookahead_from_good) (simp_all add: pending_run_def)

definition sample_operand :: IROperand where
  "sample_operand = \<lparr>kind = KRegister, osize = S64, obyte2 = 0x70, seg_override = 0, mem_flags = 0,
     base_reg = 0, index_reg = 0, shift_amount = 0, payload = 0\<rparr>"

definition sample_instr :: "u16 \<Rightarrow> IRInstr" where
  "sample_instr op = \<lparr>opcode = op, rep_prefix = 0, flag_liveness = 0, num_operands = 2, operand0 = sample_operand, operand1 = sample_operand,
     operand2 = sample_operand, operand3 = sample_operand\<rparr>"

definition sample_demand :: "IRInstr \<Rightarrow> int option" where
  "sample_demand i = (if opcode i = kOpcodeName_mov then Some 2 else None)"

theorem lookahead_spans_run_witness:
  "let ins = map sample_instr [kOpcodeName_fld1, kOpcodeName_mov, kOpcodeName_fadd, kOpcodeName_mov];
       n = lookahead sample_demand ins 0 0 True False
   in n = 3 \<and> good_run (run_member 0 False) (bridgeable sample_demand) True ins 0 n"
proof -
  let ?ins = "map sample_instr [kOpcodeName_fld1, kOpcodeName_mov, kOpcodeName_fadd, kOpcodeName_mov]"
  have "lookahead sample_demand ?ins 0 0 True False = 3" by code_simp
  then show ?thesis
    using lookahead_spans_run [of 0 ?ins 0 False sample_demand True] unfolding Let_def by simp
qed

section \<open>Disabled opcodes\<close>


lemma undisableable:
  "op_disabled_for_run kOpcodeName_fldcw m = False" "op_disabled_for_run kOpcodeName_fnstcw m = False"
  "op_disabled_for_run kOpcodeName_fnop m = False"
proof -
  have "opcode_to_id_local kOpcodeName_fldcw = kCount" "opcode_to_id_local kOpcodeName_fnstcw = kCount"
    "opcode_to_id_local kOpcodeName_fnop = kCount" by code_simp+
  then show "op_disabled_for_run kOpcodeName_fldcw m = False" "op_disabled_for_run kOpcodeName_fnstcw m = False"
    "op_disabled_for_run kOpcodeName_fnop m = False" by (simp_all add: op_disabled_for_run_def)
qed


section \<open>Pinned registers and the life of a run\<close>

lemma fold_gpr_bits: "fold (\<lambda>b m. m OR gpr_bit (cb_gpr b)) bs m = m OR fold (\<lambda>b m. m OR gpr_bit (cb_gpr b)) bs 0"
proof (induction bs arbitrary: m)
  case (Cons b bs)
  show ?case by (simp add: Cons [of "m OR _"] Cons [of "gpr_bit _"] or.assoc)
qed simp

definition carried_bits :: "X87Cache \<Rightarrow> u32" where
  "carried_bits c = fold (\<lambda>b m. m OR gpr_bit (cb_gpr b)) (carried_base c) 0 OR gpr_bit (carried_rc_gpr c)"

definition fixed_bits :: "X87Cache \<Rightarrow> u32" where
  "fixed_bits c = (if gprs_valid c \<noteq> 0
     then push_bit (nat (base_gpr c)) 1 OR push_bit (nat (top_gpr c)) 1 OR push_bit (nat (st_base_gpr c)) 1 else 0)"

lemma pinned_mask_split: "pinned_mask c = fixed_bits c OR carried_bits c"
  using fold_gpr_bits [of "carried_base c" "fixed_bits c"]
  by (simp add: pinned_mask_def Let_def fixed_bits_def carried_bits_def or.assoc)

lemma gpr_bit_neg [simp]: "gpr_bit (- 1) = 0"
  by (simp add: gpr_bit_def)

lemma fold_cleared: "fold (\<lambda>b m. m OR gpr_bit (cb_gpr b)) (map (\<lambda>b. b\<lparr>cb_gpr := -1\<rparr>) bs) m = m"
  by (induction bs arbitrary: m) simp_all

lemma carried_clear_bits [simp]: "carried_bits (carried_clear c) = 0" "fixed_bits (carried_clear c) = fixed_bits c"
  by (simp_all add: carried_bits_def carried_clear_def fold_cleared fixed_bits_def)

text \<open>
  (C15) Releasing the carried registers gives back exactly their bits: the free mask gains the bits
  the carried entries pinned, what stays pinned are the three fixed cache registers, and nothing
  is carried afterwards. Releasing twice changes nothing more.
\<close>

theorem carried_release_returns_pins:
  "let (c1, free1) = carried_release c free in
   free1 = free OR carried_bits c \<and> pinned_mask c1 = fixed_bits c \<and>
   pinned_mask c = fixed_bits c OR carried_bits c \<and> carried_release c1 free1 = (c1, free1)"
proof -
  have idem: "carried_clear (carried_clear c) = carried_clear c" by (simp add: carried_clear_def o_def)
  have r: "carried_release d m = (carried_clear d, m OR carried_bits d)" for d m
    using fold_gpr_bits [of "carried_base d" m]
    by (simp add: carried_release_def Let_def carried_bits_def or.assoc)
  show ?thesis by (simp add: r idem pinned_mask_split)
qed



definition sample_carried :: X87Cache where
  "sample_carried = X87Cache_new\<lparr>carried_base := [
     \<lparr>cb_addr_size = S32, cb_mem_flags = 1, cb_base_reg = 3, cb_index_reg = 0, cb_shift_amount = 0, cb_gpr = 25\<rparr>,
     \<lparr>cb_addr_size = S32, cb_mem_flags = 1, cb_base_reg = 5, cb_index_reg = 0, cb_shift_amount = 0, cb_gpr = 26\<rparr>]\<rparr>"


lemma wrap16_small: "0 \<le> n \<Longrightarrow> n \<le> 32767 \<Longrightarrow> wrap16 n = n"
  unfolding wrap16_def by (subst sint_sbintrunc') (simp add: signed_take_bit_int_eq_self)

lemma ticks_before_end:
  "int k < run_remaining c \<Longrightarrow> (tick ^^ k) c = c\<lparr>run_remaining := run_remaining c - int k\<rparr>"
proof (induction k)
  case (Suc k)
  then have "(tick ^^ Suc k) c = tick (c\<lparr>run_remaining := run_remaining c - int k\<rparr>)" by simp
  also have "\<dots> = c\<lparr>run_remaining := run_remaining c - int (Suc k)\<rparr>"
    using Suc.prems by (simp add: tick_def Let_def)
  finally show ?case .
qed simp

lemma tick_last:
  "run_remaining c = 1 \<Longrightarrow> \<not> active (tick c) \<and> pinned_mask (tick c) = 0 \<and> top_dirty (tick c) = 0 \<and>
   deferred_push_count (tick c) = 0 \<and> deferred_pop_count (tick c) = 0"
  by (simp add: tick_def active_def pinned_mask_split fixed_bits_def) (simp add: carried_clear_def)

lemma funpow_fixpoint: "f x = x \<Longrightarrow> (f ^^ k) x = x"
  by (induction k) simp_all

lemma tick_inactive: "\<not> active c \<Longrightarrow> tick c = c"
  by (simp add: active_def tick_def)



section \<open>Keepalive instructions and the runtime routines\<close>

text \<open>The runtime routine behind each keepalive opcode.\<close>

definition keepalive_op :: "u16 \<Rightarrow> x87_op option" where
  "keepalive_op op = map_of [(kOpcodeName_f2xm1, Op_f2xm1), (kOpcodeName_fsin, Op_fsin), (kOpcodeName_fcos, Op_fcos),
     (kOpcodeName_fscale, Op_fscale), (kOpcodeName_fxam, Op_fxam), (kOpcodeName_fprem, Op_fprem),
     (kOpcodeName_fprem1, Op_fprem1), (kOpcodeName_fptan, Op_fptan), (kOpcodeName_fsincos, Op_fsincos),
     (kOpcodeName_fyl2x, Op_fyl2x), (kOpcodeName_fyl2xp1, Op_fyl2xp1), (kOpcodeName_fpatan, Op_fpatan)] op"

text \<open>
  (C18) The TOP deltas the cache assumes for keepalive instructions are the ones the runtime
  routines perform, whatever the operands and the mathematical library: the translator's cached TOP
  register, adjusted by the delta, equals the TOP field the routine leaves in memory.
\<close>

theorem keepalive_delta_matches_runtime:
  "map_option (\<lambda>d. (int (topn s) + d) mod 8) (runtime_keepalive_top_delta op) =
   map_option (\<lambda>x. int (topn (exec_op lm x s))) (keepalive_op op)"
proof -
  have m: "(int (topn s) - 1) mod 8 = int ((topn s + 7) mod 8)" "(int (topn s) + 1) mod 8 = int ((topn s + 1) mod 8)"
    "int (topn s) mod 8 = int (topn s)"
    using mod_add_self2 [of "int (topn s) - 1" 8] by (simp_all add: zmod_int add.commute)
  show ?thesis
    by (simp add: runtime_keepalive_top_delta_def keepalive_op_def routines_topn op_top_delta_def m)
qed

end
