(* ===== verification/IRRun.thy ===== *)
theory IRRun
  imports IRRefine X87Cache
begin

text \<open>
  The build loop and whole runs: every builder only appends nodes (\<open>grows\<close>), the loop keeps the
  agreement with the runtime instruction by instruction, and a built run computes what the runtime
  routines compute.
\<close>

lemma grows_then:
  assumes "grows c (snd r)" "\<And>v c1. grows c1 (snd (f v c1))"
  shows "grows c (snd (let (v, c1) = r in if v < 0 then (False, c1) else f v c1))"
  using assms grows_trans [of c "snd r"] by (cases r) auto

lemma grows_add_then:
  assumes "\<And>d. nodes (g (int (num_nodes c)) d) = nodes d" "\<And>d. consumed (g (int (num_nodes c)) d) = consumed d"
  shows "grows c (snd (let (id, c1) = add_node k a b e c in if id < 0 then (False, c1) else (True, g id c1)))"
  using assms by (simp add: add_node_emit grows_def ext_def)

lemma grows_fp_load: "grows c (snd (build_fp_load ro op1 c))"
proof -
  have p: "grows c (snd (try_const_promote ro op1 k c))" "grows c (snd (try_const_promote_m80 ro op1 c))" for k
    by (auto simp: try_const_promote_def try_const_promote_m80_def grows_leaves split: option.splits)
  have "grows c (snd (new_fp_load op1 b k (snd (try_const_promote ro op1 k2 c))))" for b k k2
    by (rule grows_trans [OF p(1) grows_leaves(6)])
  then show ?thesis by (simp add: build_fp_load_def Let_def split_beta p)
qed

lemma grows_push: "grows c (snd r) \<Longrightarrow> grows c (snd (push_result r))"
  by (simp add: push_result_def grows_def ext_def)

lemma grows_upd: "grows c d \<Longrightarrow> grows c (d\<lparr>last_fcmp := x\<rparr>)" "grows c d \<Longrightarrow> grows c (set_slot i v d)"
  "grows c d \<Longrightarrow> grows c (ctx_pop d)" "grows c d \<Longrightarrow> grows c ((ctx_pop ^^ n) d)" "grows c d \<Longrightarrow> grows c (d\<lparr>last_fcomi := x\<rparr>)"
  "grows c d \<Longrightarrow> grows c (mem_cse_insert op1 k v d)" "grows c d \<Longrightarrow> grows c (mem_cse_evict_may_alias op1 d)"
  "grows c d \<Longrightarrow> grows c (mem_cse_evict_reg r d)"  "grows c d \<Longrightarrow> grows c (d\<lparr>guest_written_mask := m\<rparr>)"
  "grows c d \<Longrightarrow> grows c (d\<lparr>last_narrow_input := x, last_narrow_node := y\<rparr>)"
  by (simp_all add: grows_def ext_def)

lemma grows_resolve2:
  assumes "\<And>v w c1. grows c1 (snd (f v w c1))"
  shows "grows c (snd (let (v, c1) = resolve a c; (w, c2) = resolve b c1 in if v < 0 \<or> w < 0 then (False, c2) else f v w c2))"
proof -
  obtain v c1 w c2 where r: "resolve a c = (v, c1)" "resolve b c1 = (w, c2)" by fastforce
  then have "grows c c2" using grows_trans [of c c1 c2] grows_leaves(1) [of c a] grows_leaves(1) [of c1 b] by simp
  then show ?thesis using assms grows_trans [of c c2] by (simp add: r)
qed

lemma grows_put: "grows c (snd (put_node n d c))"
  by (simp add: put_node_def grows_upd)

lemmas grows_thens = grows_then [OF grows_leaves(1)] grows_then [OF grows_fp_load] grows_then [OF grows_leaves(7)]

lemma grows_arith: "grows c (snd (build_arith ro instr k rv c))" "grows c (snd (build_arithp instr k rv c))"
  "grows c (snd (build_iarith instr k rv c))"
proof -
  have a: "grows c (snd (let (id, c3) = (if rv then add_node k x y z c else add_node k y x z c)
      in if id < 0 then (False, c3) else (True, g id c3)))" if "\<And>id d. grows c d \<Longrightarrow> grows c (g id d)" for c x y z g
    using that by (auto simp: add_node_emit)
  show "grows c (snd (build_arith ro instr k rv c))"
  proof (cases "kind (operand0 instr) = KRegister")
    case True
    show ?thesis unfolding build_arith_def if_P [OF True] Let_def [of "odepth _"]
      by (intro grows_resolve2 a grows_upd)
  next
    case False
    show ?thesis unfolding build_arith_def if_not_P [OF False] by (intro grows_thens a grows_upd)
  qed
  show "grows c (snd (build_arithp instr k rv c))"
    unfolding build_arithp_def Let_def [of "odepth _"] by (intro grows_resolve2 a grows_upd)
  show "grows c (snd (build_iarith instr k rv c))" unfolding build_iarith_def by (intro grows_thens a grows_upd)
qed

lemma grows_cmp: "grows c (snd (pop_after n (cmp_node m c)))" "grows c (snd (cmp_node m c))"
  by (simp_all add: pop_after_def cmp_node_def grows_upd)

lemma grows_compares:
  "grows c (snd (build_ficom instr p c))" "grows c (snd (build_ftst c))" "grows c (snd (build_unary k c))" "grows c (snd (build_fchs c))"
  by (simp_all only: build_ficom_def build_ftst_def build_unary_def build_fchs_def cmp_node_add put_node_add)
    (intro grows_thens grows_cmp grows_put, intro grows_thens grows_cmp grows_put, intro grows_thens grows_cmp grows_put,
     intro grows_thens, simp add: grows_put grows_upd)

lemma grows_fcom: "grows c (snd (build_fcom ro instr n b c))"
proof -
  have "grows c1 (snd (if b then resolve 1 c1 else if kind (operand1 instr) = KRegister then resolve (odepth (operand1 instr)) c1
      else build_fp_load ro (operand1 instr) c1))" for c1 by (simp add: grows_leaves grows_fp_load)
  from grows_then [OF this] show ?thesis unfolding build_fcom_def cmp_node_add
    by (intro grows_thens) (simp add: grows_cmp)
qed

lemma grows_fcomi: "grows c (snd (build_fcomi instr p c))" "grows c (snd (build_fcmov instr cc c))"
proof -
  have "grows c (snd (let (id, c3) = add_node FComI v w z c in if id < 0 then (False, c3)
     else let c4 = (if p then update_node id f c3 else c3); c5 = c4\<lparr>last_fcomi := id\<rparr> in (True, if p then ctx_pop c5 else c5)))" for v w z f c
    by (simp add: add_node_emit grows_upd)
  then show "grows c (snd (build_fcomi instr p c))" unfolding build_fcomi_def by (intro grows_thens)
  have "grows c (snd (let (id, c3) = add_node FCSel v w z c in if id < 0 then (False, c3)
     else (True, set_slot 0 id (update_node id f c3))))" for v w z f c
    by (simp add: add_node_emit grows_upd)
  note f = this
  show "grows c (snd (build_fcmov instr cc c))"
  proof (cases "last_fcomi c < 0")
    case False
    show ?thesis unfolding build_fcmov_def if_not_P [OF False] by (intro grows_thens f)
  qed (simp add: build_fcmov_def)
qed

lemma grows_stores: "grows c (snd (build_fp_store op1 v c))" "grows c (snd (build_int_store op1 v b c))"
proof -
  have v: "grows c d" if "store_value f v c = Some (x, d)" for f x d
    using that by (auto simp: store_value_def Let_def add_node_emit grows_upd split: if_splits)
  have w: "grows c (forward_store f op1 v x c)" for f x c
    by (simp add: forward_store_def Let_def add_node_emit grows_upd)
  have s: "grows c (forward_store f op1 v x (mem_cse_evict_may_alias op1 (emit n c)))" for f x n c
    by (rule grows_trans [OF grows_upd(7) [OF grows_emit] w])
  have "grows c (forward_store f op1 v x (mem_cse_evict_may_alias op1 (emit n d)))" if "store_value f v c = Some (x, d)" for f x n d
    by (rule grows_trans [OF v [OF that] s])
  then show "grows c (snd (build_fp_store op1 v c))"
    using v by (auto simp: build_fp_store_def Let_def add_node_emit split: option.split)
  show "grows c (snd (build_int_store op1 v b c))"
    by (simp add: build_int_store_def Let_def add_node_emit grows_upd split: option.split)
qed

lemma grows_store_then:
  assumes "\<And>v c1. grows c1 (snd (f v c1))" "\<And>d. grows d (g d)"
  shows "grows c (snd (let (v, c1) = resolve 0 c in if v < 0 then (False, c1)
           else let (ok, c2) = f v c1 in if \<not> ok then (False, c2) else (True, g c2)))"
proof (rule grows_then [OF grows_leaves(1)])
  fix v c1
  show "grows c1 (snd (let (ok, c2) = f v c1 in if \<not> ok then (False, c2) else (True, g c2)))"
    using assms(1) [of c1 v] grows_trans [OF _ assms(2)] by (simp add: Let_def split_beta)
qed

lemma grows_fst: "grows c (snd (build_fst instr p c))" "grows c (snd (build_fist instr op c))"
  unfolding build_fst_def build_fist_def
  by (rule grows_store_then; simp add: grows_stores grows_upd)+

lemma grows_fxch: "grows c (snd (build_fxch instr c))"
proof -
  have "grows c (snd (resolve d (snd (resolve e c))))" for d e by (rule grows_trans [OF grows_leaves(1) grows_leaves(1)])
  then show ?thesis by (simp add: build_fxch_def Let_def grows_upd)
qed

lemma grows_others:
  "grows c (snd (build_fstsw instr c))" "grows c (snd (build_fldcw instr c))" "grows c (snd (build_fnstcw instr c))"
  "grows c (snd (build_guest_store instr c))" "grows c (snd (build_guest_load instr op c))" "grows c (snd (build_guest_reg instr op c))"
  by (simp_all add: build_fstsw_def build_fldcw_def build_fnstcw_def build_guest_store_def build_guest_load_def build_guest_reg_def
      Let_def add_node_emit grows_upd split: option.split prod.split)

lemma grows_guest: "grows c (snd (build_guest_int cfg instr op c))"
  by (simp add: build_guest_int_def Let_def grows_others)

lemma build_instr_grows: "grows c (snd (build_instr cfg ro instr c))"
  unfolding build_instr_def Let_def
  by (simp add: grows_push grows_leaves grows_fp_load grows_arith grows_compares grows_fcom grows_fcomi grows_fst grows_fxch
      grows_others grows_guest)

lemma build_loop_ext: "ext c (build_loop cfg ro ins i c)"
proof (induction ins arbitrary: i c)
  case (Cons instr ins)
  have e: "ext c (snd (build_instr cfg ro instr c))" using build_instr_grows by (simp add: grows_def)
  have "ext c (build_loop cfg ro ins (i + 1) ((snd (build_instr cfg ro instr c))\<lparr>consumed := n\<rparr>))" for n
    by (rule ext_trans [OF _ Cons.IH]) (use e in \<open>simp add: ext_def\<close>)
  then show ?case using e by (simp add: Let_def split_beta)
qed simp

text \<open>The number of instructions the loop builds before it stops.\<close>

fun built :: "RosettaConfig option \<Rightarrow> ReadOnlyMem \<Rightarrow> IRInstr list \<Rightarrow> nat \<Rightarrow> Context \<Rightarrow> nat" where
  "built cfg ro [] i c = 0"
| "built cfg ro (instr # ins) i c =
     (let (ok, c1) = build_instr cfg ro instr c in
      if \<not> ok then 0 else Suc (built cfg ro ins (i + 1) (c1\<lparr>consumed := int (i + 1)\<rparr>)))"

lemma consumed_built: "consumed c = int i \<Longrightarrow> consumed (build_loop cfg ro ins i c) = int (i + built cfg ro ins i c)"
proof (induction ins arbitrary: i c)
  case (Cons instr ins)
  then show ?case using build_instr_grows [of c cfg ro instr] by (auto simp: Let_def split_beta grows_def)
qed simp

lemma built_le: "built cfg ro ins i c \<le> length ins"
  by (induction ins arbitrary: i c) (auto simp: Let_def split_beta)

lemma agrees_consumed [simp]: "agrees env t0 (c\<lparr>consumed := n\<rparr>) s nz = agrees env t0 c s nz"
  by (simp add: agrees_def sim_def wf_ctx_def ref_ok_def node_def)

lemma build_loop_agree:
  assumes "agrees env t0 c s nz" "ro_agrees env ro" "reads_ok env (build_loop cfg ro ins i c)"
    and "num_nodes (build_loop cfg ro ins i c) < kMaxNodes" "ref_run lm env (take (built cfg ro ins i c) ins) (s, nz) = Some (s', nz')"
  shows "agrees env t0 (build_loop cfg ro ins i c) s' nz'"
  using assms
proof (induction ins arbitrary: i c s nz)
  case (Cons instr ins)
  obtain ok c1 where b: "build_instr cfg ro instr c = (ok, c1)" by fastforce
  show ?case
  proof (cases ok)
    case False
    have "sim env c1 (stack_of s) \<and> keeps env c c1"
      using build_instr_fails [OF agrees_sim [OF Cons.prems(1)] Cons.prems(2), of cfg instr] Cons.prems(3,4) b False
      by (simp add: fails_ok_def)
    then show ?thesis using Cons.prems(1,5) b False by (auto simp: agrees_def keeps_def)
  next
    case True
    let ?c = "c1\<lparr>consumed := int (i + 1)\<rparr>"
    have d: "build_loop cfg ro (instr # ins) i c = build_loop cfg ro ins (i + 1) ?c" using b True by simp
    have n: "built cfg ro (instr # ins) i c = Suc (built cfg ro ins (i + 1) ?c)" using b True by simp
    have e: "ext ?c (build_loop cfg ro ins (i + 1) ?c)" by (rule build_loop_ext)
    have ok1: "reads_ok env c1" "num_nodes c1 < kMaxNodes"
      using ext_reads [OF e] ext_num [OF e] Cons.prems(3,4) unfolding d by (simp_all add: reads_ok_def)
    obtain ops where o: "ref_ops env nz instr = Some ops"
      "ref_run lm env (take (built cfg ro ins (i + 1) ?c) ins) (fold (exec_op lm) ops s, ref_flags instr s nz) = Some (s', nz')"
      using Cons.prems(5) unfolding n by (auto split: option.splits)
    have "agrees env t0 ?c (fold (exec_op lm) ops s) (ref_flags instr s nz)"
      using build_instr_agree [OF Cons.prems(1,2) o(1), of lm cfg] ok1 b True by (simp add: step_agrees_def)
    from Cons.IH [OF this Cons.prems(2)] show ?thesis using Cons.prems(3,4) o(2) unfolding d by simp
  qed
qed simp

section \<open>A built run against the runtime\<close>

definition perm_stack :: "int list option \<Rightarrow> xstack \<Rightarrow> xstack" where
  "perm_stack pm xs = (case pm of None \<Rightarrow> xs | Some p \<Rightarrow> map (\<lambda>d. xs ! nat (p ! d)) [0..<8])"

definition perm_ok :: "int list option \<Rightarrow> bool" where
  "perm_ok pm = (case pm of None \<Rightarrow> True | Some p \<Rightarrow> list_all (\<lambda>d. 0 \<le> p ! d \<and> p ! d < 8) [0..<8])"

text \<open>What a slot of the symbolic stack holds after the run; \<open>None\<close> for a popped one.\<close>

definition ir_slot :: "GuestEnv \<Rightarrow> Context \<Rightarrow> nat \<Rightarrow> fp64 option" where
  "ir_slot env c d =
     (let v = slot_val c ! d in
      if 0 \<le> v then Some (vals env c ! nat v) else if v < - 8 then None else Some (fst (e_init env ! nat (- (v + 1)))))"

lemma sim_ir_slot: "sim env c xs \<Longrightarrow> d < 8 \<Longrightarrow> ir_slot env c d = Some v \<Longrightarrow> stk_val xs d = v"
  using sim_slot [of env c xs d] by (auto simp: ir_slot_def Let_def slot_rel_def split: if_splits)

lemma fold_perm_ext: "ext c (snd (fold_perm pm ds c))"
proof (induction ds arbitrary: c)
  case (Cons d ds)
  have e: "ext c (snd (resolve d c))" by (rule ext_resolve)
  then show ?case using Cons.IH ext_trans [OF e Cons.IH] by (simp add: Let_def split_beta)
qed simp

lemma fold_perm_sim:
  assumes "sim env c xs" "reads_ok env (snd (fold_perm pm ds c))"
  shows "sim env (snd (fold_perm pm ds c)) xs \<and> keeps env c (snd (fold_perm pm ds c)) \<and> consumed (snd (fold_perm pm ds c)) = consumed c"
  using assms
proof (induction ds arbitrary: c)
  case (Cons d ds)
  obtain v c1 where r: "resolve d c = (v, c1)" by fastforce
  have g: "consumed c1 = consumed c" using grows_leaves(1) [of c d] r by (simp add: grows_def)
  have step: "sim env c1 xs \<and> keeps env c c1" if "reads_ok env c1" using resolve_sim [OF Cons.prems(1) r that] by blast
  show ?case
  proof (cases "pm ! d = int d")
    case True
    then show ?thesis using Cons by simp
  next
    case F: False
    show ?thesis
    proof (cases "v < 0")
      case True
      then show ?thesis using Cons.prems(2) F r g step by simp
    next
      case False
      then have e: "snd (fold_perm pm (d # ds) c) = snd (fold_perm pm ds c1)" using F r by simp
      have "reads_ok env c1" using Cons.prems(2) ext_reads [OF fold_perm_ext] unfolding e by blast
      with step have c1: "sim env c1 xs" "keeps env c c1" by auto
      from Cons.IH [OF c1(1)] show ?thesis using Cons.prems(2) g keeps_trans [OF c1(2)] unfolding e by auto
    qed
  qed
qed simp

lemma build_start_sim:
  assumes "perm_ok pm" "length (e_init env) = 8" "c0 = Context_init\<lparr>const_promote := cp\<rparr>"
  shows "sim env (case pm of None \<Rightarrow> c0 | Some p \<Rightarrow> c0\<lparr>slot_val := map (\<lambda>d. - (p ! d + 1)) [0..<8]\<rparr>) (perm_stack pm (e_init env))"
proof (cases pm)
  case None
  have "wf_ctx c0" using wf_init by (simp add: assms(3))
  moreover have "slot_val c0 = map (\<lambda>i. - (int i + 1)) [0..<8]" "mem_cse c0 = []"
    by (simp_all add: assms(3) Context_init_def mem_cse_clear_def)
  ultimately show ?thesis using assms(2) None by (auto simp: sim_def perm_stack_def list_all2_conv_all_nth slot_rel_def)
next
  case (Some p)
  have p: "0 \<le> p ! d \<and> p ! d < 8" if "d < 8" for d using assms(1) Some that by (simp add: perm_ok_def list_all_iff)
  have "slot_ok 0 (- (p ! d + 1))" if "d < 8" for d using p [OF that] by (simp add: slot_ok_def)
  then have "list_all (slot_ok 0) (map (\<lambda>d. - (p ! d + 1)) [0..<8])" by (simp add: list_all_iff)
  moreover have "wf_ctx Context_init" by (rule wf_init)
  ultimately have "wf_ctx (c0\<lparr>slot_val := map (\<lambda>d. - (p ! d + 1)) [0..<8]\<rparr>)"
    unfolding assms(3) by (simp add: wf_ctx_def ref_ok_def node_def Context_init_def mem_cse_clear_def)
  moreover have "mem_cse c0 = []" by (simp add: assms(3) Context_init_def mem_cse_clear_def)
  moreover have "slot_rel vs (e_init env) (- (p ! d + 1)) (e_init env ! nat (p ! d))" if "d < 8" for d vs
    using p [OF that] by (simp add: slot_rel_def)
  ultimately show ?thesis using Some by (simp add: sim_def perm_stack_def list_all2_conv_all_nth)
qed

text \<open>
  (C2) The IR of a run computes what the runtime routines compute. Take any run the builder accepts
  (also when it stops early), started on a register file \<open>s\<close> whose stack is the initial one up to the
  deferred exchanges \<open>pm\<close>. If the consumed instructions are ones without memory or integer side
  effects (so \<open>ref_run\<close> knows their routines) then, for every stack slot that is not popped, the value
  of its IR node is the register value the routines leave there; \<open>top_delta\<close> is the distance TOP
  moved; and the host flags after an FCOMI are those its routine returns. Excluded are reads of
  registers that were empty before the run, and a full node table.
\<close>

theorem build_simulates_runtime:
  assumes "snd (build cfg ro ins start n pm cp) = c" "fst (build cfg ro ins start n pm cp)"
    and "perm_ok pm" "length (e_init env) = 8" "ro_agrees env ro" "reads_ok env c" "num_nodes c < kMaxNodes"
    and "wf_x87 s" "controlWord s = e_cw env" "stack_of s = perm_stack pm (e_init env)"
    and "ref_run lm env (take (nat (consumed c)) (drop start ins)) (s, nz) = Some (s', nz')"
  shows "(\<forall>d < 8. \<forall>v. ir_slot env c d = Some v \<longrightarrow> stk_val (stack_of s') d = v) \<and>
         int (topn s') = (int (topn s) + top_delta c) mod 8 \<and> (0 \<le> last_fcomi c \<longrightarrow> nzcv env c = nz')"
proof -
  define c0 where "c0 = (case pm of None \<Rightarrow> Context_init\<lparr>const_promote := cp\<rparr>
    | Some p \<Rightarrow> Context_init\<lparr>const_promote := cp, slot_val := map (\<lambda>d. - (p ! d + 1)) [0..<8]\<rparr>)"
  define r where "r = (case pm of None \<Rightarrow> (True, c0) | Some p \<Rightarrow> fold_perm p [0..<8] c0)"
  let ?run = "take n (drop start ins)"
  have b: "build cfg ro ins start n pm cp = (if \<not> fst r then (False, snd r) else
      (consumed (build_loop cfg ro ?run 0 (snd r)) \<ge> 2, build_loop cfg ro ?run 0 (snd r)))"
    by (cases pm) (simp_all add: build_def r_def c0_def Let_def split_beta)
  have c: "c = build_loop cfg ro ?run 0 (snd r)" using assms(1,2) unfolding b by (auto split: if_splits)
  have s0: "sim env c0 (stack_of s)" "nodes c0 = []" "consumed c0 = 0" "top_delta c0 = 0" "last_fcomi c0 = -1"
    using build_start_sim [OF assms(3,4) refl] assms(10)
    by (auto simp: c0_def Context_init_def mem_cse_clear_def split: option.splits)
  have rd: "reads_ok env (snd r)" using ext_reads [OF build_loop_ext] assms(6) unfolding c by blast
  have s1: "sim env (snd r) (stack_of s) \<and> keeps env c0 (snd r) \<and> consumed (snd r) = 0"
    using s0(1,3) fold_perm_sim [OF s0(1)] rd by (auto simp: r_def split: option.splits)
  then have a: "agrees env (int (topn s)) (snd r) s nz"
    using assms(8,9) s0 by (auto simp: agrees_def keeps_def)
  have k: "nat (consumed c) = built cfg ro ?run 0 (snd r)" using consumed_built [of "snd r" 0] s1 unfolding c by simp
  have "built cfg ro ?run 0 (snd r) \<le> n" using built_le [of cfg ro ?run 0 "snd r"] by simp
  then have "ref_run lm env (take (built cfg ro ?run 0 (snd r)) ?run) (s, nz) = Some (s', nz')"
    using assms(11) unfolding k by (simp add: min_def)
  from build_loop_agree [OF a assms(5) _ _ this] have "agrees env (int (topn s)) c s' nz'" using assms(6,7) unfolding c by blast
  then show ?thesis using sim_ir_slot [of env c "stack_of s'"] by (auto simp: agrees_def)
qed


definition sample_env :: GuestEnv where
  "sample_env = \<lparr>e_init = [(0x4008000000000000, kValid), (0x4000000000000000, kValid)] @ replicate 6 (0, kEmpty), e_cw = 0x037F,
     e_regs = (\<lambda>_. 0), e_seg = (\<lambda>_. 0), e_mem = (\<lambda>_. 0)\<rparr>"

definition sample_st :: "nat \<Rightarrow> IROperand" where
  "sample_st d = sample_operand\<lparr>obyte2 := 0x70 OR of_nat d\<rparr>"

definition sample_run :: "IRInstr list" where
  "sample_run = [(sample_instr kOpcodeName_fmul)\<lparr>operand0 := sample_st 0, operand1 := sample_st 1\<rparr>, sample_instr kOpcodeName_fld1,
     (sample_instr kOpcodeName_faddp)\<lparr>operand0 := sample_st 1\<rparr>, sample_instr kOpcodeName_fchs]"

definition sample_state :: X87State where
  "sample_state = fold (exec_op libm_sample) [Op_fld_fp64 0x4000000000000000, Op_fld_fp64 0x4008000000000000] X87State_new"

text \<open>Registers 3 and 2: \<open>fmul st, st(1); fld1; faddp; fchs\<close> leaves -(3 * 2 + 1).\<close>

theorem build_simulates_runtime_witness:
  "\<exists>s' nz'. ref_run libm_sample sample_env sample_run (sample_state, 0) = Some (s', nz') \<and>
     stk_val (stack_of s') 0 = 0xC01C000000000000 \<and> topn s' = topn sample_state"
proof -
  let ?c = "snd (build None no_readonly sample_run 0 4 None False)"
  have c: "fst (build None no_readonly sample_run 0 4 None False)" "reads_ok sample_env ?c" "num_nodes ?c < kMaxNodes"
    "ir_slot sample_env ?c 0 = Some 0xC01C000000000000" "top_delta ?c = 0"
    "take (nat (consumed ?c)) (drop 0 sample_run) = sample_run" by code_simp+
  have s: "wf_x87 sample_state" "controlWord sample_state = e_cw sample_env" "stack_of sample_state = perm_stack None (e_init sample_env)"
    "length (e_init sample_env) = 8" "Option.is_none (ref_run libm_sample sample_env sample_run (sample_state, 0)) = False" by code_simp+
  have ro: "ro_agrees sample_env no_readonly" by (simp add: ro_agrees_def no_readonly_def)
  obtain s' nz' where r: "ref_run libm_sample sample_env sample_run (sample_state, 0) = Some (s', nz')"
    using s(5) by (cases "ref_run libm_sample sample_env sample_run (sample_state, 0)") (auto simp: Option.is_none_def)
  have r': "ref_run libm_sample sample_env (take (nat (consumed ?c)) (drop 0 sample_run)) (sample_state, 0) = Some (s', nz')"
    using r unfolding c(6) .
  have p: "perm_ok None" by (simp add: perm_ok_def)
  note t = build_simulates_runtime [OF refl c(1) p s(4) ro c(2,3) s(1,2,3) r']
  have "stk_val (stack_of s') 0 = 0xC01C000000000000" using t c(4) by (metis zero_less_numeral)
  moreover have "topn s' = topn sample_state" using t c(5) by (simp add: zmod_int [symmetric])
  ultimately show ?thesis using r by blast
qed

end
