(* ===== verification/IROptExact.thy ===== *)
theory IROptExact
  imports IROptIdeal IROptFusion IRRun
begin

text \<open>
  The laws of the optimizer on two machines: double precision arithmetic (\<open>Fp64\<close>), where the
  rewrites of the first passes are bit-exact for values that are not NaNs, and exact rational
  arithmetic, where all passes of the default configuration are. Memory, guest registers, loads,
  stores and single-precision operations are arbitrary (\<open>world\<close>).
\<close>

section \<open>Reciprocals of powers of two\<close>

lemma fp_exp_word: "uint (drop_bit 52 w AND 0x7FF :: u64) = fp_exp w"
proof -
  have "(drop_bit 52 w AND 0x7FF :: u64) = take_bit 11 (drop_bit 52 w)"
    by (simp add: take_bit_eq_mask mask_eq_exp_minus_1)
  moreover have "uint (take_bit 11 (drop_bit 52 w)) = take_bit 11 (drop_bit 52 (uint w))"
    using uint_lt2p [of w] by (simp add: unsigned_take_bit_eq unsigned_drop_bit_eq take_bit_eq_mod [of _ "uint w"])
  ultimately have "uint (drop_bit 52 w AND 0x7FF :: u64) = uint w div 2 ^ 52 mod 2 ^ 11"
    by (simp add: take_bit_eq_mod [where 'a = int] drop_bit_eq_div [where 'a = int])
  also have "\<dots> = fp_exp w" using zmod_zmult2_eq [of "2 ^ 11" "uint w" "2 ^ 52"] by (simp add: fp_exp_def fp_magbits_def)
  finally show ?thesis .
qed

lemma recip_bits_fields:
  assumes "recip_bits None w = Some r"
  shows "fp_sign r = fp_sign w" "fp_frac w = 0" "fp_frac r = 0" "1 \<le> fp_exp w" "fp_exp w \<le> 2045" "fp_exp r = 2046 - fp_exp w"
proof -
  let ?e = "drop_bit 52 w AND 0x7FF :: u64"
  have w: "w AND 0x000FFFFFFFFFFFFF = 0" "?e \<ge> 1" "?e \<le> 2045" and r: "r = (w AND 0x8000000000000000) OR push_bit 52 (2046 - ?e)"
    using assms by (auto simp: recip_bits_def Let_def split: if_splits)
  have e: "1 \<le> fp_exp w" "fp_exp w \<le> 2045" using w(2,3) fp_exp_word [of w] by (simp_all add: word_le_def)
  show "fp_frac w = 0" using w(1) word_and_mask52 [of w] by simp
  have d: "uint (2046 - ?e) = 2046 - fp_exp w" using w(3) by (simp add: uint_minus_simple_alt [THEN iffD1] word_le_def fp_exp_word)
  define d where "d = 2046 - ?e"
  have "uint d < 2 ^ 11" using d e by (simp add: d_def)
  then have d11: "take_bit 11 d = d" by (simp add: take_bit_eq_mod word_uint_eq_iff uint_mod)
  have "(0x8000000000000000 :: u64) = NOT (mask 63)" by (simp add: mask_eq_exp_minus_1)
  then have r': "r = (w AND NOT (mask 63)) OR push_bit 52 (take_bit 11 d)" by (simp only: r d_def [symmetric] d11)
  have m: "(0x000FFFFFFFFFFFFF :: u64) = mask 52" "(0x7FF :: u64) = mask 11" by (simp_all add: mask_eq_exp_minus_1)
  show "fp_sign r = fp_sign w" unfolding fp_sign_def r' by (simp add: bit_simps)
  have "r AND 0x000FFFFFFFFFFFFF = 0" unfolding r' m by (rule bit_word_eqI) (auto simp: bit_simps)
  then show "fp_frac r = 0" using word_and_mask52 [of r] by simp
  have "drop_bit 52 r AND 0x7FF = take_bit 11 d" unfolding r' m by (rule bit_word_eqI) (auto simp: bit_simps)
  then have "fp_exp r = uint d" using fp_exp_word [of r] by (simp only: d11)
  then show "fp_exp r = 2046 - fp_exp w" using d by (simp only: d_def)
  show "1 \<le> fp_exp w" "fp_exp w \<le> 2045" by (fact e)+
qed

lemma recip_bits_mag:
  assumes "recip_bits None w = Some r"
  shows "fp_mag r = 1 / fp_mag w" "fp_val r = 1 / fp_val w" "fp_finite w" "fp_finite r" "\<not> fp_iszero w" "\<not> fp_iszero r"
proof -
  note f = recip_bits_fields [OF assms]
  have p: "of_int (2 ^ 52) * pow2 (k - 1075) = pow2 (k - 1023)" for k
    using pow2_add [of 52 "k - 1075"] pow2_nat [of 52] by (simp add: mult.commute)
  have w: "fp_mag w = pow2 (fp_exp w - 1023)" "fp_mag r = pow2 (1023 - fp_exp w)"
    using f p [of "fp_exp w"] p [of "2046 - fp_exp w"] by (simp_all add: fp_mag_def)
  show m: "fp_mag r = 1 / fp_mag w" unfolding w using pow2_diff [of 0 "fp_exp w - 1023"] by (simp add: pow2_def)
  show "fp_val r = 1 / fp_val w" using f(1) m by (simp add: fp_val_def)
  show "fp_finite w" "fp_finite r" using f fp_exp_frac [of w] fp_exp_frac [of r] by simp_all
  show "\<not> fp_iszero w" "\<not> fp_iszero r" using fp_mag_0_iff [of w] fp_mag_0_iff [of r] w by simp_all
qed

lemma fp_div_recip:
  assumes "recip_bits None w = Some r"
  shows "fp_div a w = fp_mul a r"
proof -
  note m = recip_bits_mag [OF assms] and f = recip_bits_fields [OF assms]
  have "\<not> fp_isnan w" "\<not> fp_isnan r" "\<not> fp_isinf w" "\<not> fp_isinf r" using m(3,4) by (simp_all add: fp_isnan_def fp_isinf_def)
  moreover have "\<not> fp_issnan w" "\<not> fp_issnan r" using calculation by (simp_all add: fp_issnan_def)
  ultimately show ?thesis using m f(1) by (auto simp: fp_div_def fp_mul_def fp_nan2_def)
qed

lemma zero_word_val:
  assumes "push_bit 1 w = (0 :: u64)"
  shows "fp_val w = 0" "\<not> fp_isnan w"
proof -
  have "\<not> bit w n" if "n < 63" for n using assms that bit_push_bit_iff [of 1 w "Suc n"] by (simp add: bit_simps)
  then have "take_bit 63 w = 0" by (intro bit_word_eqI) (simp add: bit_simps)
  then have "uint (take_bit 63 w) = 0" by simp
  then have "fp_iszero w" by (simp add: fp_iszero_def fp_magbits_def unsigned_take_bit_eq take_bit_eq_mod [where 'a = int])
  then show "fp_val w = 0" "\<not> fp_isnan w" by (simp_all add: fp_val_0_iff fp_isnan_def fp_iszero_def)
qed

section \<open>Double precision\<close>

record ('v, 'e) world =
  w_read :: "'e \<Rightarrow> Op \<Rightarrow> NodePayload \<Rightarrow> 'v"
  w_cond :: "'e \<Rightarrow> NodePayload \<Rightarrow> bool"
  w_rint :: "'e \<Rightarrow> 'v \<Rightarrow> 'v"
  w_sqrt :: "'v \<Rightarrow> 'v"
  w_f32 :: "Op \<Rightarrow> 'v \<Rightarrow> 'v \<Rightarrow> 'v \<Rightarrow> 'v"
  w_effect :: "Op \<Rightarrow> u8 \<Rightarrow> NodePayload \<Rightarrow> u64 \<Rightarrow> 'v \<Rightarrow> 'v \<Rightarrow> 'e \<Rightarrow> 'e"
  w_stsw :: "int \<Rightarrow> int \<Rightarrow> u16 option \<Rightarrow> 'e \<Rightarrow> 'e"
  w_lost :: u16

text \<open>The double-precision instructions a node is lowered to, as in \<open>node_value\<close>.\<close>

definition fp_op :: "(fp64, 'e) world \<Rightarrow> 'e \<Rightarrow> Op \<Rightarrow> NodePayload \<Rightarrow> fp64 \<Rightarrow> fp64 \<Rightarrow> fp64 \<Rightarrow> fp64" where
  "fp_op W e k p a b c = (case k of
       ConstZero \<Rightarrow> 0 | ConstOne \<Rightarrow> fp_one | ConstF64 \<Rightarrow> (case p of PImm w \<Rightarrow> w | _ \<Rightarrow> 0)
     | CvtF32ToF64 \<Rightarrow> fp_widen (ucast a) | CvtF64ToF32 \<Rightarrow> ucast (fp_narrow a)
     | FAdd \<Rightarrow> fp_add a b | FSub \<Rightarrow> fp_sub a b | FMul \<Rightarrow> fp_mul a b | FDiv \<Rightarrow> fp_div a b | FNMul \<Rightarrow> fp_neg (fp_mul a b)
     | FMAdd \<Rightarrow> fp_fma c a b | FMSub \<Rightarrow> fp_fma c (fp_neg a) b | FNMSub \<Rightarrow> fp_fma (fp_neg c) a b
     | FNeg \<Rightarrow> fp_neg a | FAbs \<Rightarrow> fp_abs a | FSqrt \<Rightarrow> fp_sqrt a | FRndInt \<Rightarrow> w_rint W e a
     | FCSel \<Rightarrow> (if w_cond W e p then b else a)
     | _ \<Rightarrow> w_read W e k p)"

definition fp_machine :: "(fp64, 'e) world \<Rightarrow> (fp64, 'e) machine" where
  "fp_machine W = \<lparr>m_value = (\<lambda>e k f p a b c. if f then w_f32 W k a b c else fp_op W e k p a b c),
     m_order = cc_of, m_test = (\<lambda>a. cc_of a 0), m_effect = w_effect W, m_stsw = w_stsw W, m_none = 0, m_lost = w_lost W\<rparr>"

lemma fp_add_commute: "\<not> fp_isnan x \<Longrightarrow> \<not> fp_isnan y \<Longrightarrow> fp_add x y = fp_add y x"
  using fp_isinf_eq [of x] fp_isinf_eq [of y]
  by (auto simp: fp_add_def Let_def add.commute)

interpretation fp_rewrites: rewrite_laws "fp_machine W" "\<lambda>x. \<not> fp_isnan x" "\<lambda>w. w" for W :: "(fp64, 'e) world"
proof unfold_locales
  fix w r :: u64 assume r: "recip_bits None w = Some r"
  show "m_value (fp_machine W) e FDiv False p a w c = m_value (fp_machine W) e FMul False p a r c" for e p a c
    by (simp add: fp_machine_def fp_op_def fp_div_recip [OF r])
  show "\<not> fp_isnan r" using recip_bits_mag(4) [OF r] by (simp add: fp_isnan_def)
next
  fix w a :: u64 assume "push_bit 1 w = 0"
  note zero_word_val [OF this]
  then show "m_order (fp_machine W) a w = m_test (fp_machine W) a"
    using fp_val_consts(2) by (simp add: fp_machine_def cc_of_def fp_zero_def)
next
  fix a b :: fp64 assume ab: "\<not> fp_isnan a" "\<not> fp_isnan b"
  show "m_value (fp_machine W) e FAdd False p (m_value (fp_machine W) e' FNeg False p' a x y) b c = m_value (fp_machine W) e FSub False p b a c" for e p e' p' x y c
    using ab by (simp add: fp_machine_def fp_op_def fp_sub_def fp_add_commute [of "fp_neg a" b])
qed (auto simp: fp_machine_def fp_op_def fp_mul_one [unfolded fp_one_def] fp_one_def fp_sub_def fp_issnan_def
   fp_one_mul [unfolded fp_one_def] fp_div_one [unfolded fp_one_def] fp_neg_zero [unfolded fp_zero_def fp_mzero_def] fp_add_mzero [unfolded fp_mzero_def])

section \<open>Exact arithmetic\<close>

definition rat_cc :: "rat \<Rightarrow> rat \<Rightarrow> u16" where
  "rat_cc a b = (if b < a then 0 else if a < b then kConditionCode0 else kConditionCode3)"

definition rat_op :: "(rat, 'e) world \<Rightarrow> 'e \<Rightarrow> Op \<Rightarrow> NodePayload \<Rightarrow> rat \<Rightarrow> rat \<Rightarrow> rat \<Rightarrow> rat" where
  "rat_op W e k p a b c = (case k of
       ConstZero \<Rightarrow> 0 | ConstOne \<Rightarrow> 1 | ConstF64 \<Rightarrow> (case p of PImm w \<Rightarrow> fp_val w | _ \<Rightarrow> 0)
     | CvtF32ToF64 \<Rightarrow> a | CvtF64ToF32 \<Rightarrow> a
     | FAdd \<Rightarrow> a + b | FSub \<Rightarrow> a - b | FMul \<Rightarrow> a * b | FDiv \<Rightarrow> a / b | FNMul \<Rightarrow> - (a * b)
     | FMAdd \<Rightarrow> c + a * b | FMSub \<Rightarrow> c - a * b | FNMSub \<Rightarrow> a * b - c
     | FNeg \<Rightarrow> - a | FAbs \<Rightarrow> \<bar>a\<bar> | FSqrt \<Rightarrow> w_sqrt W a | FRndInt \<Rightarrow> w_rint W e a
     | FCSel \<Rightarrow> (if w_cond W e p then b else a)
     | _ \<Rightarrow> w_read W e k p)"

definition rat_machine :: "(rat, 'e) world \<Rightarrow> (rat, 'e) machine" where
  "rat_machine W = \<lparr>m_value = (\<lambda>e k f p a b c. rat_op W e k p a b c), m_order = rat_cc, m_test = (\<lambda>a. rat_cc a 0),
     m_effect = w_effect W, m_stsw = w_stsw W, m_none = 0, m_lost = w_lost W\<rparr>"

lemma narrowable_cases: "f32_narrowable_op k = Some m \<Longrightarrow> k \<in> {FAdd, FSub, FMul, FDiv, FNMul} \<and> m = 2 \<or> k \<in> {FNeg, FAbs, FSqrt} \<and> m = 1"
  by (auto simp: f32_narrowable_op_def split: if_splits)

interpretation rat_rewrites: ideal_laws "rat_machine W" "\<lambda>x. True" fp_val for W :: "(rat, 'e) world"
proof unfold_locales
  fix w r :: u64 assume r: "recip_bits None w = Some r"
  show "m_value (rat_machine W) e FDiv False p a (fp_val w) c = m_value (rat_machine W) e FMul False p a (fp_val r) c" for e p a c
    by (simp add: rat_machine_def rat_op_def recip_bits_mag(2) [OF r])
next
  fix k m f p p' and b b' a c c' :: rat and e e' :: 'e
  assume "f32_narrowable_op k = Some m" "m = 2 \<Longrightarrow> b = b'"
  then show "m_value (rat_machine W) e k f p a b c = m_value (rat_machine W) e' k f p' a b' c'"
    using narrowable_cases [of k m] by (auto simp: rat_machine_def rat_op_def)
qed (auto simp: rat_machine_def rat_op_def zero_word_val fp_val_consts [unfolded fp_one_def fp_zero_def fp_mzero_def])

section \<open>Built programs satisfy the invariant\<close>

lemma flags_okD: "flags_ok (nflags n) \<Longrightarrow> \<not> is_dead n \<and> \<not> is_fused n \<and> \<not> is_f32 n"
  unfolding flags_ok_def is_dead_def is_fused_def is_f32_def bit.conj_disj_distrib
  by (metis or.left_neutral or_eq_0_iff)

lemma good_start:
  assumes "wf_ctx c" "list_all ok (x_vals (exec M e (nodes c)))"
  shows "good M ok e (meaning M e c) c" "plain c"
proof -
  have n: "node_ok i (nodes c ! i)" if "i < num_nodes c" for i using assms(1) that by (simp add: wf_ctx_def)
  then have f: "\<not> is_dead (nodes c ! i) \<and> \<not> is_fused (nodes c ! i) \<and> \<not> is_f32 (nodes c ! i)" if "i < num_nodes c" for i
    using flags_okD that by (simp add: node_ok_def)
  have r: "readable c v" if "v < int (num_nodes c)" for v using f [of "nat v"] that by (auto simp: readable_def node_def nat_less_iff)
  have "node_inv c i (nodes c ! i)" if i: "i < num_nodes c" for i
    using n [OF i] i by (auto simp: node_inv_def node_ok_def intro!: r split: if_splits)
  moreover have "v < int (num_nodes c)" if "v \<in> set (slot_val c)" for v using assms(1) that by (auto simp: wf_ctx_def list_all_iff slot_ok_def)
  ultimately have "ssa c" using assms(1) r by (auto simp: ssa_def wf_ctx_def list_all_iff)
  moreover have "\<forall>n \<in> set (nodes c). \<not> is_fused n" "plain c" using f by (auto simp: plain_def in_set_conv_nth)
  ultimately show "good M ok e (meaning M e c) c" "plain c" using assms(2) by (simp_all add: good_def)
qed

text \<open>A compare whose codes are stored before the next compare survives the first pass.\<close>

lemma dead_compares_first:
  assumes "p < length ns" "\<And>j. j < p \<Longrightarrow> is_dead (ns ! j) \<or> \<not> sets_cc (nop (ns ! j))"
  shows "dead_compares False ns ! p = ns ! p"
  using assms
proof (induction ns arbitrary: p)
  case (Cons n ns)
  show ?case
  proof (cases p)
    case (Suc q)
    then have "dead_compares False ns ! q = ns ! q" using Cons.IH [of q] Cons.prems(1) Cons.prems(2) [of "Suc _"] by simp
    then show ?thesis using Suc Cons.prems(2) [of 0] by (auto simp: sets_cc_def)
  qed simp
qed simp

lemma dead_compares_kept:
  assumes "r < p" "p < length ns" "\<not> is_dead (ns ! r)" "nop (ns ! r) = FStsw"
    and "\<And>j. r < j \<Longrightarrow> j < p \<Longrightarrow> is_dead (ns ! j) \<or> \<not> sets_cc (nop (ns ! j))"
  shows "dead_compares w ns ! p = ns ! p"
  using assms
proof (induction ns arbitrary: r p w)
  case (Cons n ns)
  obtain q where q: "p = Suc q" using Cons.prems(1) by (cases p) auto
  show ?case
  proof (cases r)
    case 0
    have "dead_compares False ns ! q = ns ! q"
      using Cons.prems(2) Cons.prems(5) [of "Suc _"] by (intro dead_compares_first) (auto simp: 0 q)
    then show ?thesis using Cons.prems(3,4) by (simp add: 0 q)
  next
    case (Suc r')
    have "dead_compares u ns ! q = ns ! q" for u
      using Cons.prems(1-4) Cons.prems(5) [of "Suc _"] by (intro Cons.IH [of r']) (auto simp: Suc q)
    then show ?thesis by (simp add: q)
  qed
qed simp

lemma dead_compares_linked:
  assumes "cc_linked (cc_view c)" "cc_single (cc_view c)"
  shows "cc_linked (cc_view (pass_dead_compares c))" "cc_single (cc_view (pass_dead_compares c))"
proof -
  let ?V = "cc_view c" and ?U = "cc_view (pass_dead_compares c)" and ?N = "num_nodes c"
  have len: "length ?V = ?N" "length ?U = ?N" by (simp_all add: cc_view_def)
  have nth: "?U ! i = ?V ! i \<or> ?U ! i = None \<and> ?V ! i = Some None" if "i < ?N" for i
    using pass_dead_compares_nth [OF that] that by (auto simp: cc_view_def cc_node_cmp)
  have U: "?V ! i = Some (Some f)" if "?U ! i = Some (Some f)" "i < ?N" for i f using nth [OF that(2)] that(1) by auto
  have kept: "?U ! nat f = Some None" if i: "?V ! i = Some (Some f)" "i < ?N" "0 \<le> f" for i f
  proof -
    note l = linkedD [OF assms(1) _ i(1)]
    have f: "nat f < i" "nat f < ?N" "?V ! nat f = Some None" using l(1,2) i len by (auto simp: nat_less_iff)
    have "dead_compares False (rev (nodes c)) ! (?N - Suc (nat f)) = rev (nodes c) ! (?N - Suc (nat f))"
    proof (rule dead_compares_kept [of "?N - Suc i"])
      show "\<not> is_dead (rev (nodes c) ! (?N - Suc i))" "nop (rev (nodes c) ! (?N - Suc i)) = FStsw"
        using i by (simp_all add: rev_nth Suc_diff_Suc cc_view_def cc_node_stsw)
      show "is_dead (rev (nodes c) ! j) \<or> \<not> sets_cc (nop (rev (nodes c) ! j))" if "?N - Suc i < j" "j < ?N - Suc (nat f)" for j
        using l(3) [of "?N - Suc j"] that i(2,3) len f by (auto simp: rev_nth cc_view_def cc_node_cmp)
    qed (use i f in auto)
    then have "nodes (pass_dead_compares c) ! nat f = nodes c ! nat f"
      using f(2) dead_compares_shape [of False "rev (nodes c)"] list_all2_lengthD [of _ "dead_compares False (rev (nodes c))" "rev (nodes c)"]
      by (simp add: pass_dead_compares_def rev_nth Suc_diff_Suc)
    then show ?thesis using f by (simp add: cc_view_def)
  qed
  show "cc_linked ?U" unfolding cc_linked_def
  proof (intro allI impI)
    fix i f assume i: "i < length ?U" "?U ! i = Some (Some f)"
    then have v: "?V ! i = Some (Some f)" "i < ?N" using U len by auto
    note l = linkedD [OF assms(1) _ v(1)]
    show "f < int i \<and> (0 \<le> f \<longrightarrow> ?U ! nat f = Some None) \<and> (\<forall>j. f < int j \<longrightarrow> j < i \<longrightarrow> ?U ! j \<noteq> Some None)"
      using l v kept [OF v] nth len by (metis option.distinct(1) order_less_trans)
  qed
  show "cc_single ?U" using assms(2) U len unfolding cc_single_def by metis
qed

section \<open>The optimizer\<close>

text \<open>What the builder guarantees of its status stores when no snapshot collides with a node number.\<close>

definition stsw_program :: "Context \<Rightarrow> bool" where
  "stsw_program c \<longleftrightarrow> stsw_ok (cc_view c) c \<and> cc_linked (cc_view c) \<and> cc_single (cc_view c)"

definition exact_config :: "RosettaConfig option \<Rightarrow> bool" where
  "exact_config cfg \<longleftrightarrow> (case cfg of None \<Rightarrow> True | Some g \<Rightarrow> \<not> fast_recip_div g \<and> \<not> f32_arith g)"

definition early_passes :: "RosettaConfig option \<Rightarrow> Context \<Rightarrow> Context" where
  "early_passes cfg c = pass_fneg_fold (pass_dse (pass_const_arith cfg (pass_dead_compares c)))"

lemma exact_recip: "exact_config cfg \<Longrightarrow> recip_bits cfg = recip_bits None"
  by (auto simp: fun_eq_iff exact_config_def recip_bits_def Let_def split: option.splits)

context rewrite_laws
begin

lemma early_passes_good:
  assumes "wf_ctx c" "stsw_program c" "exact_config cfg" "list_all ok (x_vals (exec M e (nodes c)))"
  shows "\<exists>V. good M ok e (meaning M e c) (early_passes cfg c) \<and> stsw_ok V (early_passes cfg c) \<and> cc_linked V \<and> cc_single V"
proof -
  let ?V = "cc_view (pass_dead_compares c)"
  have s: "stsw_ok (cc_view c) c" "cc_linked ?V" "cc_single ?V"
    using assms(2) dead_compares_linked by (auto simp: stsw_program_def)
  have g1: "good M ok e (meaning M e c) (pass_dead_compares c) \<and> plain (pass_dead_compares c) \<and> stsw_ok ?V (pass_dead_compares c)"
    by (rule pass_dead_compares_good [OF good_start [OF assms(1,4)] s(1)])
  let ?c2 = "pass_const_arith cfg (pass_dead_compares c)"
  have g2: "good M ok e (meaning M e c) ?c2 \<and> plain ?c2 \<and> stsw_ok ?V ?c2"
    using g1 by (intro pass_const_arith_good exact_recip assms(3)) auto
  have g3: "good M ok e (meaning M e c) (pass_dse ?c2) \<and> plain (pass_dse ?c2) \<and> stsw_ok ?V (pass_dse ?c2)"
    using pass_dse_good [of M ok e "meaning M e c" ?c2 "\<lambda>c. plain c \<and> stsw_ok ?V c"] g2 ok_none by simp
  have "good M ok e (meaning M e c) (early_passes cfg c) \<and> plain (early_passes cfg c) \<and> stsw_ok ?V (early_passes cfg c)"
    unfolding early_passes_def using g3 by (intro pass_fneg_fold_good) auto
  then show ?thesis using s by blast
qed

end

lemma fusion_good:
  assumes "good M ok e m0 c" "stsw_ok V c" "cc_linked V" "cc_single V"
  shows "meaning M e (pass_fcom_fstsw_fusion c) = m0"
  using assms pass_fusion_meaning [of c M e] by (auto simp: good_def stsw_ok_def)

definition opt_run :: "IRInstr list" where
  "opt_run = [sample_instr kOpcodeName_fld1, (sample_instr kOpcodeName_fmulp)\<lparr>operand0 := sample_st 1\<rparr>, sample_instr kOpcodeName_fchs,
     (sample_instr kOpcodeName_fcom)\<lparr>operand0 := sample_st 0, operand1 := sample_st 1\<rparr>, sample_instr kOpcodeName_fstsw]"

definition opt_ctx :: Context where
  "opt_ctx = snd (build None no_readonly opt_run 0 5 None False)"

definition opt_world :: "'v \<Rightarrow> ('v, unit) world" where
  "opt_world x = \<lparr>w_read = (\<lambda>e k p. x), w_cond = (\<lambda>e p. False), w_rint = (\<lambda>e x. x), w_sqrt = (\<lambda>x. x), w_f32 = (\<lambda>k a b c. a),
     w_effect = (\<lambda>k f p x a b e. e), w_stsw = (\<lambda>r t w e. e), w_lost = 0\<rparr>"

text \<open>Decidable forms of the conditions, for evaluation.\<close>

definition linked_at :: "int option option list \<Rightarrow> nat \<Rightarrow> bool" where
  "linked_at V i \<longleftrightarrow> (case V ! i of Some (Some f) \<Rightarrow> f < int i \<and> (0 \<le> f \<longrightarrow> V ! nat f = Some None) \<and>
     list_all (\<lambda>j. f < int j \<longrightarrow> V ! j \<noteq> Some None) [0..<i] | _ \<Rightarrow> True)"

definition single_at :: "int option option list \<Rightarrow> nat \<Rightarrow> nat \<Rightarrow> bool" where
  "single_at V i j \<longleftrightarrow> (case V ! i of Some (Some f) \<Rightarrow> 0 \<le> f \<longrightarrow> V ! j = Some (Some f) \<longrightarrow> i = j | _ \<Rightarrow> True)"

lemma cc_linked_code: "cc_linked V \<longleftrightarrow> list_all (linked_at V) [0..<length V]"
  by (auto simp: cc_linked_def linked_at_def list_all_iff split: option.splits)

lemma cc_single_code: "cc_single V \<longleftrightarrow> list_all (\<lambda>i. list_all (single_at V i) [0..<length V]) [0..<length V]"
  by (auto simp: cc_single_def single_at_def list_all_iff split: option.splits)

lemma opt_ctx_ok: "wf_ctx opt_ctx" "stsw_program opt_ctx"
proof -
  show "wf_ctx opt_ctx" unfolding opt_ctx_def by (rule build_wf_ctx) simp
  show "stsw_program opt_ctx" unfolding stsw_program_def cc_linked_code cc_single_code by code_simp
qed





section \<open>Programs outside the conditions\<close>

definition snapshot_run :: "IRInstr list" where
  "snapshot_run = [sample_instr kOpcodeName_fld1, (sample_instr kOpcodeName_fmulp)\<lparr>operand0 := sample_st 1\<rparr>,
     sample_instr kOpcodeName_fcompp, sample_instr kOpcodeName_fstsw]"

definition snapshot_ctx :: Context where
  "snapshot_ctx = snd (build None no_readonly snapshot_run 0 4 None False)"


definition double_store_ctx :: Context where
  "double_store_ctx = snd (build None no_readonly
     [sample_instr kOpcodeName_ftst, sample_instr kOpcodeName_fstsw, sample_instr kOpcodeName_fstsw] 0 3 None False)"


end
