(* ===== verification/BridgeCost.thy ===== *)
theory BridgeCost
  imports IRTypes
begin

text \<open>
  The shared part of the scratch-register demand model (\<open>X87BridgeDemand.cpp\<close>): costs and their
  composition, the encodability tests of AArch64 immediates, and the cost of the address and
  operand helpers. An \<open>int8_t\<close> count is an \<open>int\<close>; the bounds proved for the whole model keep it far
  below the width.
\<close>

section \<open>Costs and sequences\<close>

datatype Cost = Cost (cpeak: int) (cheld: int)

record Seq =
  running :: int
  speak :: int

definition Seq_new :: Seq where
  "Seq_new = \<lparr>running = 0, speak = 0\<rparr>"

definition seq_step :: "Cost \<Rightarrow> Seq \<Rightarrow> Seq" where
  "seq_step c s =
     (let p = running s + cpeak c in
      \<lparr>running = running s + cheld c, speak = (if p > speak s then p else speak s)\<rparr>)"

definition seq_free :: "int \<Rightarrow> Seq \<Rightarrow> Seq" where
  "seq_free n s = s\<lparr>running := running s - n\<rparr>"

definition seq_demand :: "Seq \<Rightarrow> int" where
  "seq_demand s = speak s"

section \<open>Immediates of the host instruction set\<close>

text \<open>The negation of the least 64-bit number wraps to itself.\<close>

definition disp_add_encodable :: "u64 \<Rightarrow> bool" where
  "disp_add_encodable disp =
     (let d = (if sint disp < 0 then - disp else disp) in
      if sint d \<le> 0xFFF then True
      else d AND 0xFFF = 0 \<and> sint d div 2 ^ 12 \<le> 0xFFF)"

definition ldst_disp_encodable :: "u64 \<Rightarrow> u8 \<Rightarrow> bool" where
  "ldst_disp_encodable disp sz =
     (let size_log2 = (if sz \<le> 3 then unat sz else 3) in
      if drop_bit size_log2 disp \<le> 0xFFF \<and> push_bit size_log2 (drop_bit size_log2 disp) = disp then True
      else - 0x100 \<le> sint disp \<and> sint disp \<le> 0xFF)"

text \<open>The loop that halves the period of a bit pattern while both halves agree.\<close>

fun bitmask_period :: "u64 \<Rightarrow> nat \<Rightarrow> nat" where
  "bitmask_period value i =
     (let v4 = i div 2 in
      if (drop_bit v4 value XOR value) AND NOT (push_bit v4 (- 1)) \<noteq> 0 then 2 * (i div 2)
      else if v4 > 2 then bitmask_period value v4
      else v4)"

declare bitmask_period.simps [simp del]

definition ones_run :: "u64 \<Rightarrow> bool" where
  "ones_run v7 \<longleftrightarrow> v7 \<noteq> 0 \<and> ((((v7 - 1) OR v7) + 1) AND ((v7 - 1) OR v7)) = 0"

text \<open>
  The shift by the negated period is taken modulo 64, as the host does; for a period of 64 the
  count in the source is outside the range C++ defines.
\<close>

definition alu_is_bitmask_immediate :: "bool \<Rightarrow> u64 \<Rightarrow> bool" where
  "alu_is_bitmask_immediate is_64bit value0 =
     (if (if is_64bit then value0 + 1 < 2 else (ucast (value0 + 1) :: u32) < 2) then False
      else
        let value = (if is_64bit then value0 else ucast (ucast value0 :: u32));
            i = bitmask_period value (if is_64bit then 0x40 else 0x20);
            v6 = drop_bit (nat ((- int i) mod 64)) (- 1)
        in ones_run (v6 AND value) \<or> ones_run (v6 AND NOT value))"

definition alu_addimm_encodable :: "u64 \<Rightarrow> bool" where
  "alu_addimm_encodable value =
     (if value < 0x1000 then True
      else if value AND 0xFFFFFFFFFF000FFF = 0 then True
      else if - value < 0x1000 then True
      else (- value) AND 0xFFFFFFFFFF000FFF = 0)"

section \<open>Operand shapes\<close>

abbreviation has_base :: "IROperand \<Rightarrow> bool" where "has_base op \<equiv> mem_flags op AND 1 \<noteq> 0"
abbreviation has_index :: "IROperand \<Rightarrow> bool" where "has_index op \<equiv> mem_flags op AND 2 \<noteq> 0"

text \<open>A register destination of 32 or 64 bits, which the translated value can be written to directly.\<close>

definition arch_dst :: "IROperand \<Rightarrow> bool" where
  "arch_dst dst \<longleftrightarrow> kind dst = KRegister \<and> (osize dst = S32 \<or> osize dst = S64)"

definition reg_class :: "IROperand \<Rightarrow> u8" where
  "reg_class op = drop_bit 4 (oreg op)"

definition addr_cost :: "IROperand \<Rightarrow> bool \<Rightarrow> Cost" where
  "addr_cost op fresh_dst =
     (let result = (if fresh_dst then 1 else 0) in
      case kind op of
        KMemRef \<Rightarrow>
          if has_base op \<and> has_index op then Cost 2 result
          else if has_index op then Cost 2 result
          else if has_base op then
            (if payload op = 0 then Cost 0 0
             else if disp_add_encodable (payload op) then Cost result result
             else Cost (1 + result) result)
          else Cost 1 result
      | KAbsMem \<Rightarrow> Cost 1 result
      | KImmediate \<Rightarrow> Cost 2 result
      | _ \<Rightarrow> Cost 0 0)"

definition alloc_dst_gpr_cost :: "IROperand \<Rightarrow> Cost" where
  "alloc_dst_gpr_cost dst = (if arch_dst dst then Cost 0 0 else Cost 1 1)"

definition read_to_gpr_cost :: "IROperand \<Rightarrow> bool \<Rightarrow> Cost" where
  "read_to_gpr_cost src hint_is_arch =
     (case kind src of
        KRegister \<Rightarrow> if hint_is_arch then Cost 0 0 else Cost 1 1
      | KImmediate \<Rightarrow> if hint_is_arch then Cost 0 0 else Cost 1 1
      | KMemRef \<Rightarrow> if hint_is_arch then Cost (cpeak (addr_cost src False)) 0 else Cost (1 + cpeak (addr_cost src False)) 1
      | KAbsMem \<Rightarrow> if hint_is_arch then Cost (cpeak (addr_cost src False)) 0 else Cost (1 + cpeak (addr_cost src False)) 1
      | _ \<Rightarrow> Cost 1 1)"

definition write_to_operand_cost :: "IROperand \<Rightarrow> Cost" where
  "write_to_operand_cost dst = (if kind dst = KRegister then Cost 0 0 else Cost (cpeak (addr_cost dst True)) 0)"

definition read_xmm_gpr_cost :: "IROperand \<Rightarrow> Cost" where
  "read_xmm_gpr_cost src = (if kind src = KRegister then Cost 0 0 else Cost (cpeak (addr_cost src True)) 1)"

definition lockable_rmw :: "u16 \<Rightarrow> bool" where
  "lockable_rmw op \<longleftrightarrow> op \<in> {kOpcodeName_add, kOpcodeName_sub, kOpcodeName_and, kOpcodeName_or, kOpcodeName_xor,
     kOpcodeName_adc, kOpcodeName_sbb, kOpcodeName_inc, kOpcodeName_dec, kOpcodeName_neg, kOpcodeName_not,
     kOpcodeName_xchg}"

definition mov_prefetch_allocs :: "IROperand \<Rightarrow> int" where
  "mov_prefetch_allocs m =
     (if has_base m \<and> \<not> has_index m then (if ldst_disp_encodable (payload m) (osize m) then 0 else 1)
      else if has_base m \<and> has_index m \<and> payload m = 0 \<and> (shift_amount m = 0 \<or> shift_amount m = osize m) then 0
      else if \<not> has_base m \<and> has_index m \<and> payload m = 0 \<and> shift_amount m = 0 then 0
      else 1)"

text \<open>Address temporaries of a memory operand: always one with 32-bit addressing.\<close>

definition mem_allocs :: "IROperand \<Rightarrow> int" where
  "mem_allocs m = (if addr_size m = S32 then 1 else mov_prefetch_allocs m)"

definition mov_read_cost :: "IROperand \<Rightarrow> bool \<Rightarrow> Cost" where
  "mov_read_cost src hint_is_arch =
     (case kind src of
        KRegister \<Rightarrow> if \<not> hint_is_arch \<and> reg_class src = 1 then Cost 1 1 else Cost 0 0
      | KImmediate \<Rightarrow> Cost 2 1
      | KMemRef \<Rightarrow> if \<not> hint_is_arch then Cost 1 1 else Cost (mem_allocs src) (mem_allocs src)
      | KAbsMem \<Rightarrow> Cost 1 1
      | _ \<Rightarrow> if payload src = 0 \<or> hint_is_arch then Cost 0 0 else Cost 1 1)"

definition mov_write_cost :: "IROperand \<Rightarrow> Cost" where
  "mov_write_cost dst =
     (case kind dst of
        KRegister \<Rightarrow> Cost 0 0
      | KMemRef \<Rightarrow> if addr_size dst = S32 then Cost 1 0 else Cost (mov_prefetch_allocs dst) 0
      | KAbsMem \<Rightarrow> Cost 1 0
      | KImmediate \<Rightarrow> Cost 2 0
      | _ \<Rightarrow> Cost 0 0)"

definition lea_addr_peak_arch :: "IROperand \<Rightarrow> int" where
  "lea_addr_peak_arch src =
     (case kind src of
        KMemRef \<Rightarrow>
          if has_base src \<and> has_index src then (if payload src \<noteq> 0 then 1 else 0)
          else if has_index src then (if payload src \<noteq> 0 then 1 else 0)
          else if has_base src then (if payload src \<noteq> 0 \<and> \<not> disp_add_encodable (payload src) then 1 else 0)
          else 0
      | KAbsMem \<Rightarrow> 0
      | KImmediate \<Rightarrow> if mem_flags src AND 1 = 0 then 1 else 0
      | _ \<Rightarrow> 0)"

definition movs_write_mem_cost :: "IROperand \<Rightarrow> Cost" where
  "movs_write_mem_cost dst =
     (case kind dst of
        KMemRef \<Rightarrow> Cost (mem_allocs dst) (mem_allocs dst)
      | KAbsMem \<Rightarrow> Cost 1 1
      | KImmediate \<Rightarrow> Cost 2 1
      | _ \<Rightarrow> Cost 0 0)"

definition movs_read_xmm_cost :: "IROperand \<Rightarrow> Cost" where
  "movs_read_xmm_cost src =
     (case kind src of
        KMemRef \<Rightarrow> Cost (mem_allocs src) (mem_allocs src)
      | KAbsMem \<Rightarrow> Cost 1 1
      | KImmediate \<Rightarrow> Cost 2 1
      | _ \<Rightarrow> Cost 0 0)"

definition alu_reg_read_allocs :: "IROperand \<Rightarrow> bool \<Rightarrow> bool \<Rightarrow> bool" where
  "alu_reg_read_allocs regop em_nonzero is_64bit =
     (let cls = reg_class regop in
      if cls = 1 then True
      else if \<not> em_nonzero then False
      else if cls = 0 \<or> cls = 2 then True
      else if cls = 3 then is_64bit
      else False)"

definition alu_read_cost :: "IROperand \<Rightarrow> bool \<Rightarrow> bool \<Rightarrow> Cost" where
  "alu_read_cost op em_nonzero is_64bit =
     (case kind op of
        KRegister \<Rightarrow> if alu_reg_read_allocs op em_nonzero is_64bit then Cost 1 1 else Cost 0 0
      | KMemRef \<Rightarrow> Cost 1 1
      | KAbsMem \<Rightarrow> Cost 1 1
      | KImmediate \<Rightarrow> Cost 2 1
      | KBranchOffset \<Rightarrow> if payload op = 0 then Cost 0 0 else Cost 1 1
      | _ \<Rightarrow> Cost 1 1)"

definition alu_write_op0_cost :: "IROperand \<Rightarrow> Cost" where
  "alu_write_op0_cost dst =
     (case kind dst of
        KRegister \<Rightarrow> Cost 0 0
      | KMemRef \<Rightarrow> Cost (mem_allocs dst) 0
      | KAbsMem \<Rightarrow> Cost 1 0
      | KImmediate \<Rightarrow> Cost 2 0
      | _ \<Rightarrow> Cost 0 0)"

definition alu_extend_nonzero :: "u16 \<Rightarrow> IRInstr \<Rightarrow> IROperand \<Rightarrow> bool" where
  "alu_extend_nonzero op instr src =
     (let fl = flag_liveness instr in
      if op = kOpcodeName_add then fl AND (FLAG_OF OR FLAG_CF) \<noteq> 0
      else if op = kOpcodeName_sub \<or> op = kOpcodeName_cmp then fl AND (FLAG_OF OR FLAG_CF OR FLAG_ZF) \<noteq> 0
      else if op = kOpcodeName_or \<or> op = kOpcodeName_xor then fl AND FLAG_SF \<noteq> 0
      else if op = kOpcodeName_and then
        (if fl < FLAG_OF then False
         else if kind src = KBranchOffset \<and> payload src AND 0x8000000000000000 = 0 then False
         else True)
      else False)"

definition movext_read_cost :: "IROperand \<Rightarrow> bool \<Rightarrow> Cost" where
  "movext_read_cost src hint_is_arch =
     (case kind src of
        KRegister \<Rightarrow> Cost 0 0
      | KMemRef \<Rightarrow> if \<not> hint_is_arch then Cost 0 0 else Cost (mem_allocs src) (mem_allocs src)
      | KAbsMem \<Rightarrow> if hint_is_arch then Cost 1 1 else Cost 0 0
      | _ \<Rightarrow> if hint_is_arch then Cost 2 1 else Cost 1 1)"

definition push_read_cost :: "IROperand \<Rightarrow> Cost" where
  "push_read_cost src =
     (case kind src of
        KRegister \<Rightarrow> if osize src = S16 then Cost 1 1 else Cost 0 0
      | KMemRef \<Rightarrow> Cost 1 1
      | KAbsMem \<Rightarrow> Cost 1 1
      | KImmediate \<Rightarrow> Cost 2 1
      | _ \<Rightarrow> if payload src = 0 then Cost 0 0 else Cost 1 1)"

definition pop_write_cost :: "IROperand \<Rightarrow> Cost" where
  "pop_write_cost dst =
     (case kind dst of
        KRegister \<Rightarrow> Cost 0 0
      | KMemRef \<Rightarrow> Cost (mem_allocs dst) 0
      | KAbsMem \<Rightarrow> Cost 1 0
      | KImmediate \<Rightarrow> Cost 2 0
      | _ \<Rightarrow> Cost 0 0)"

definition cmov_read_cost :: "IROperand \<Rightarrow> Cost" where
  "cmov_read_cost src =
     (case kind src of
        KRegister \<Rightarrow> if reg_class src = 1 then Cost 1 1 else Cost 0 0
      | KMemRef \<Rightarrow> Cost 1 1
      | KAbsMem \<Rightarrow> Cost 1 1
      | KImmediate \<Rightarrow> Cost 2 1
      | _ \<Rightarrow> if payload src = 0 then Cost 0 0 else Cost 1 1)"

definition setcc_write_cost :: "IROperand \<Rightarrow> Cost" where
  "setcc_write_cost dst =
     (case kind dst of
        KRegister \<Rightarrow> Cost 0 0
      | KMemRef \<Rightarrow> Cost (mem_allocs dst) 0
      | KAbsMem \<Rightarrow> Cost 1 0
      | KImmediate \<Rightarrow> Cost 2 0
      | _ \<Rightarrow> Cost 0 0)"

definition shifts_read0_events :: "IROperand \<Rightarrow> int" where
  "shifts_read0_events op0 =
     (case kind op0 of
        KRegister \<Rightarrow> if osize op0 \<le> S16 then 1 else 0
      | KMemRef \<Rightarrow> 1
      | KAbsMem \<Rightarrow> 1
      | KImmediate \<Rightarrow> 2
      | _ \<Rightarrow> 1)"

definition shifts_dst_events :: "IROperand \<Rightarrow> int" where
  "shifts_dst_events op0 = (if arch_dst op0 then 0 else 1)"

definition shifts_write_events :: "IROperand \<Rightarrow> int" where
  "shifts_write_events op0 =
     (case kind op0 of
        KRegister \<Rightarrow> 0
      | KMemRef \<Rightarrow> mem_allocs op0
      | KAbsMem \<Rightarrow> 1
      | KImmediate \<Rightarrow> 2
      | _ \<Rightarrow> 0)"

definition shifts_nz_events :: "u8 \<Rightarrow> IROperand \<Rightarrow> int" where
  "shifts_nz_events fl op0 = (if fl AND FLAG_SF \<noteq> 0 \<and> osize op0 \<le> S16 then 1 else 0)"

definition shifts_dup_events :: "IROperand \<Rightarrow> int" where
  "shifts_dup_events op0 = (if arch_dst op0 then 1 else 0)"

definition mul_read_events :: "IROperand \<Rightarrow> bool \<Rightarrow> bool \<Rightarrow> int" where
  "mul_read_events op em_nonzero is_64bit =
     (if kind op = KMemRef then
        (if has_base op \<and> \<not> has_index op \<and> payload op \<noteq> 0 \<and> \<not> disp_add_encodable (payload op) then 2 else 1)
      else cpeak (alu_read_cost op em_nonzero is_64bit))"

definition mul_acc_read_events :: "IROperand \<Rightarrow> bool \<Rightarrow> int" where
  "mul_acc_read_events op0 is_64bit =
     (if osize op0 = S8 \<or> osize op0 = S16 then 1 else if osize op0 = S32 then (if is_64bit then 1 else 0) else 0)"

end
