(* ===== verification/BridgeImm.thy ===== *)
theory BridgeImm
  imports BridgeCost
begin

text \<open>
  The immediate tests of the demand model against the encodings they stand for: the AArch64
  logical immediates (a rotated run of ones repeated over the register), the twelve-bit add and
  subtract immediates with their optional shift, and the two displacement forms of loads and stores.
\<close>

section \<open>Runs of ones\<close>

lemma word_zero_iff: "v = 0 \<longleftrightarrow> (\<forall>n. \<not> bit v n)" for v :: u64
  by (metis bit_0_eq bit_eqI bot_apply bot_bool_def)

lemma bit_dec:
  fixes v :: u64
  assumes "bit v a" "\<And>n. n < a \<Longrightarrow> \<not> bit v n"
  shows "bit (v - 1) n \<longleftrightarrow> n < 64 \<and> (n < a \<or> a < n \<and> bit v n)"
proof -
  have a: "a < 64" using assms(1) bit_imp_le_length by fastforce
  let ?h = "v AND NOT (mask (Suc a))"
  have "v = ?h OR 2 ^ a"
    by (rule bit_word_eqI) (use assms in \<open>auto simp: bit_simps not_less_eq less_Suc_eq\<close>, metis linorder_neqE_nat)
  also have "\<dots> = ?h + 2 ^ a"
    by (rule disjunctive_add_eq_or [symmetric]) (auto intro!: bit_word_eqI simp: bit_simps)
  finally have "v - 1 = ?h + mask a" by (simp add: mask_eq_exp_minus_1)
  also have "\<dots> = ?h OR mask a"
    by (rule disjunctive_add_eq_or) (auto intro!: bit_word_eqI simp: bit_simps)
  finally show ?thesis using a by (auto simp: bit_simps)
qed

lemma lowest_bit:
  fixes v :: u64
  assumes "v \<noteq> 0"
  obtains a where "bit v a" "\<And>n. n < a \<Longrightarrow> \<not> bit v n" "a < 64"
proof -
  from assms obtain k where "bit v k" by (metis bit_0_eq bit_eqI bot_apply bot_bool_def)
  then have "bit v (LEAST n. bit v n)" "\<And>n. n < (LEAST n. bit v n) \<Longrightarrow> \<not> bit v n"
    by (auto intro: LeastI dest: not_less_Least)
  then show ?thesis using that bit_imp_le_length by fastforce
qed

lemma mask_iff_and_inc: "(w + 1) AND w = 0 \<longleftrightarrow> (\<exists>b \<le> 64. w = mask b)" for w :: u64
proof (cases "w + 1 = 0")
  case True
  then have "w = - 1" by (simp add: eq_neg_iff_add_eq_0)
  moreover have "(mask 64 :: u64) = - 1" by (simp add: mask_eq_exp_minus_1)
  ultimately show ?thesis using True by (auto intro: exI [of _ 64])
next
  case False
  then obtain b where b: "bit (w + 1) b" "\<And>n. n < b \<Longrightarrow> \<not> bit (w + 1) n" "b < 64" by (rule lowest_bit) blast
  have w: "bit w n \<longleftrightarrow> n < 64 \<and> (n < b \<or> b < n \<and> bit (w + 1) n)" for n using bit_dec [OF b(1,2), of n] by simp
  show ?thesis
  proof
    assume z: "(w + 1) AND w = 0"
    have "w = mask b"
    proof (rule bit_word_eqI)
      fix n assume "n < LENGTH(64)"
      have "\<not> (bit (w + 1) n \<and> bit w n)" using z by (metis bit_0_eq bit_and_iff bot_apply bot_bool_def)
      then show "bit w n = bit (mask b :: u64) n" using w [of n] b(3) by (auto simp: bit_simps)
    qed
    then show "\<exists>b \<le> 64. w = mask b" using b(3) by (intro exI [of _ b]) simp
  next
    assume "\<exists>b \<le> 64. w = mask b"
    then obtain k where k: "k \<le> 64" "w = mask k" by blast
    have "bit (mask k :: u64) n \<longleftrightarrow> n < k" for n using k by (auto simp: bit_simps)
    then have kb: "k = b" using w k(2) b(3) by (metis linorder_neqE_nat nless_le not_less)
    have "\<not> (bit (w + 1) n \<and> bit w n)" for n using w [of n] b(2) [of n] k kb by (auto simp: bit_simps)
    then show "(w + 1) AND w = 0" by (intro bit_word_eqI) (simp add: bit_simps)
  qed
qed

lemma ones_run_iff: "ones_run v \<longleftrightarrow> (\<exists>a b. a < b \<and> b \<le> 64 \<and> (\<forall>n. bit v n \<longleftrightarrow> a \<le> n \<and> n < b))"
proof (cases "v = 0")
  case True
  then show ?thesis by (auto simp: ones_run_def)
next
  case False
  then obtain a where a: "bit v a" "\<And>n. n < a \<Longrightarrow> \<not> bit v n" "a < 64" by (rule lowest_bit) blast
  have w: "bit ((v - 1) OR v) n \<longleftrightarrow> n < 64 \<and> n < a \<or> bit v n" for n
    using bit_dec [OF a(1,2), of n] a(3) by (auto simp: bit_simps)
  have mask_iff: "x = mask b \<longleftrightarrow> (\<forall>n. bit x n \<longleftrightarrow> n < b)" if "b \<le> 64" for x :: u64 and b
  proof -
    have "bit (mask b :: u64) n \<longleftrightarrow> n < b" for n using that by (auto simp: bit_simps)
    then show ?thesis by (metis bit_eqI)
  qed
  have "ones_run v \<longleftrightarrow> (\<exists>b \<le> 64. (v - 1) OR v = mask b)"
    using False mask_iff_and_inc by (simp add: ones_run_def)
  also have "\<dots> \<longleftrightarrow> (\<exists>b \<le> 64. \<forall>n. bit ((v - 1) OR v) n \<longleftrightarrow> n < b)" using mask_iff by blast
  also have "\<dots> \<longleftrightarrow> (\<exists>b \<le> 64. \<forall>n. n < 64 \<and> n < a \<or> bit v n \<longleftrightarrow> n < b)" unfolding w ..
  also have "\<dots> \<longleftrightarrow> (\<exists>a b. a < b \<and> b \<le> 64 \<and> (\<forall>n. bit v n \<longleftrightarrow> a \<le> n \<and> n < b))"
  proof
    assume "\<exists>b \<le> 64. \<forall>n. n < 64 \<and> n < a \<or> bit v n \<longleftrightarrow> n < b"
    then obtain b where "b \<le> 64" "\<And>n. n < 64 \<and> n < a \<or> bit v n \<longleftrightarrow> n < b" by blast
    moreover have "a < b" using calculation a(1) by blast
    moreover have "bit v n \<longleftrightarrow> a \<le> n \<and> n < b" for n using calculation(2) [of n] a(2) [of n] a(3) by (cases "n < a") auto
    ultimately have "a < b \<and> b \<le> 64 \<and> (\<forall>n. bit v n \<longleftrightarrow> a \<le> n \<and> n < b)" by blast
    then show "\<exists>a b. a < b \<and> b \<le> 64 \<and> (\<forall>n. bit v n \<longleftrightarrow> a \<le> n \<and> n < b)" by blast
  next
    assume "\<exists>a b. a < b \<and> b \<le> 64 \<and> (\<forall>n. bit v n \<longleftrightarrow> a \<le> n \<and> n < b)"
    then obtain c b where c: "c < b" "b \<le> 64" "\<And>n. bit v n \<longleftrightarrow> c \<le> n \<and> n < b" by blast
    have "bit v c" "c \<le> a" using c(1) c(3) [of a] c(3) [of c] a(1) by simp_all
    then have "c = a" using a(2) [of c] by (cases "c < a") simp_all
    then show "\<exists>b \<le> 64. \<forall>n. n < 64 \<and> n < a \<or> bit v n \<longleftrightarrow> n < b" using c(1,2) c(3) a(3) by (intro exI [of _ b]) (metis not_less order_less_le_trans order.strict_trans)
  qed
  finally show ?thesis .
qed

section \<open>Periods\<close>

definition periodic :: "u64 \<Rightarrow> nat \<Rightarrow> nat \<Rightarrow> bool" where
  "periodic v p N \<longleftrightarrow> (\<forall>n < N. bit v n \<longleftrightarrow> bit v (n mod p))"

lemma periodic_dvd: "periodic v e N \<Longrightarrow> e dvd q \<Longrightarrow> periodic v q N"
  unfolding periodic_def by (metis mod_less_eq_dividend mod_mod_cancel order_le_less_trans)

lemma halves_agree:
  fixes v :: u64
  assumes "k < 64"
  shows "(drop_bit k v XOR v) AND NOT (push_bit k (- 1)) = 0 \<longleftrightarrow> (\<forall>n < k. bit v (n + k) \<longleftrightarrow> bit v n)"
proof -
  have "bit ((drop_bit k v XOR v) AND NOT (push_bit k (- 1))) n \<longleftrightarrow> n < k \<and> (bit v (n + k) \<noteq> bit v n)" for n
    using assms by (auto simp: bit_simps add.commute not_le)
  then show ?thesis by (simp add: word_zero_iff)
qed

lemma periodic_half:
  assumes "periodic v (2 * k) N" "2 * k \<le> N" "0 < k"
  shows "(\<forall>n < k. bit v (n + k) \<longleftrightarrow> bit v n) \<longleftrightarrow> periodic v k N"
proof
  assume h: "\<forall>n < k. bit v (n + k) \<longleftrightarrow> bit v n"
  have "bit v n \<longleftrightarrow> bit v (n mod k)" if "n < N" for n
  proof -
    have n: "bit v n \<longleftrightarrow> bit v (n mod (2 * k))" using assms(1) that by (simp add: periodic_def)
    show ?thesis
    proof (cases "n mod (2 * k) < k")
      case True
      moreover have "n mod (2 * k) mod k = n mod k" by (rule mod_mod_cancel) simp
      ultimately show ?thesis using n by simp
    next
      case False
      have "n mod (2 * k) < 2 * k" using assms(3) by simp
      then have "n mod (2 * k) - k < k" using False by simp
      moreover have "(n mod (2 * k) - k) mod k = n mod k"
        using False mod_mod_cancel [of k "2 * k" n] le_mod_geq [of k "n mod (2 * k)"] by simp
      ultimately have "n mod (2 * k) = n mod k + k" using False by simp
      then show ?thesis using n h assms(3) by simp
    qed
  qed
  then show "periodic v k N" by (simp add: periodic_def)
next
  assume p: "periodic v k N"
  have "bit v (n + k) \<longleftrightarrow> bit v n" if "n < k" for n
  proof -
    have "n + k < N" using that assms(2) by simp
    then show ?thesis using p [unfolded periodic_def, rule_format, of "n + k"] that by simp
  qed
  then show "\<forall>n < k. bit v (n + k) \<longleftrightarrow> bit v n" by blast
qed

lemma bitmask_period_spec:
  assumes "2 \<le> m" "2 ^ m \<le> N" "N \<le> 64" "periodic v (2 ^ m) N"
  shows "\<exists>l. 1 \<le> l \<and> l \<le> m \<and> bitmask_period v (2 ^ m) = 2 ^ l \<and> periodic v (2 ^ l) N \<and>
    (l = 1 \<or> \<not> periodic v (2 ^ (l - 1)) N)"
  using assms
proof (induction m rule: nat_induct_at_least)
  case base
  have a: "(drop_bit 2 v XOR v) AND NOT (push_bit 2 (- 1)) = 0 \<longleftrightarrow> periodic v 2 N"
    using halves_agree [of 2 v] periodic_half [of v 2 N] base by simp
  show ?case
  proof (cases "periodic v 2 N")
    case True
    then show ?thesis using a base by (intro exI [of _ 1]) (simp add: bitmask_period.simps [of v 4])
  next
    case False
    then show ?thesis using a base by (intro exI [of _ 2]) (simp add: bitmask_period.simps [of v 4])
  qed
next
  case (Suc m)
  have le: "2 * 2 ^ m \<le> N" using Suc.prems by simp
  then have k: "(2::nat) ^ m < 64" "(0::nat) < 2 ^ m" using Suc.prems by simp_all
  have a: "(drop_bit (2 ^ m) v XOR v) AND NOT (push_bit (2 ^ m) (- 1)) = 0 \<longleftrightarrow> periodic v (2 ^ m) N"
    using halves_agree [OF k(1), of v] periodic_half [of v "2 ^ m" N] Suc.prems by simp
  have g: "(2::nat) < 2 ^ m" using Suc.hyps power_increasing [of 2 m "2::nat"] by simp
  show ?case
  proof (cases "periodic v (2 ^ m) N")
    case True
    then have "bitmask_period v (2 ^ Suc m) = bitmask_period v (2 ^ m)"
      using a g by (simp add: bitmask_period.simps [of v "2 * 2 ^ m"])
    then show ?thesis using Suc.IH [OF _ Suc.prems(2) True] le by (metis le_SucI add_leD1 mult_2)
  next
    case False
    then have "bitmask_period v (2 ^ Suc m) = 2 ^ Suc m"
      using a by (simp add: bitmask_period.simps [of v "2 * 2 ^ m"])
    then show ?thesis using False Suc.prems Suc.hyps by (intro exI [of _ "Suc m"]) simp
  qed
qed

section \<open>Logical immediates\<close>

text \<open>
  The logical immediates of an \<open>N\<close>-bit operation: an element of \<open>e\<close> bits, repeated, in which a run of
  \<open>len\<close> ones is rotated right by \<open>r\<close>.
\<close>

definition logical_imm :: "nat \<Rightarrow> u64 \<Rightarrow> bool" where
  "logical_imm N v \<longleftrightarrow> (\<exists>e \<in> {2, 4, 8, 16, 32, 64}. e \<le> N \<and>
     (\<exists>len r. 0 < len \<and> len < e \<and> r < e \<and> (\<forall>n < N. bit v n \<longleftrightarrow> (n + r) mod e < len)))"

lemma element_sizes: "e \<in> {2, 4, 8, 16, 32, 64} \<longleftrightarrow> (\<exists>k. 1 \<le> k \<and> k \<le> 6 \<and> e = (2::nat) ^ k)"
proof -
  have "(\<exists>k. 1 \<le> k \<and> k \<le> 6 \<and> e = (2::nat) ^ k) \<longleftrightarrow> (\<exists>k \<in> {1, 2, 3, 4, 5, 6}. e = 2 ^ k)"
    by (intro iffI; elim exE bexE conjE) (auto simp: numeral_eq_Suc le_Suc_eq)
  then show ?thesis by simp
qed

lemma arc_not_half:
  assumes e: "e = 2 * h" "0 < h" and len: "0 < len" "len < e" and r: "r < e" "e \<le> N"
    and v: "\<And>n. n < N \<Longrightarrow> bit v n \<longleftrightarrow> (n + r) mod e < len"
  shows "\<not> periodic v h N"
proof
  assume p: "periodic v h N"
  have sh: "y mod e < len \<longleftrightarrow> (y + h) mod e < len" for y
  proof -
    let ?n = "(y + (e - r)) mod e" and ?m = "(y + h + (e - r)) mod e"
    have lt: "?n < N" "?m < N" using r len by (metis mod_less_divisor order_less_le_trans gr0I not_less0)+
    have "?n mod h = ?m mod h" using e by (simp add: mod_mod_cancel mod_add_eq) (metis ab_semigroup_add_class.add_ac(1) add.commute mod_add_self2)
    then have "bit v ?n \<longleftrightarrow> bit v ?m" using p lt unfolding periodic_def by metis
    moreover have "(?n + r) mod e = y mod e" "(?m + r) mod e = (y + h) mod e" using r(1) by (simp_all add: mod_simps)
    ultimately show ?thesis using v lt by simp
  qed
  show False
  proof (cases "len - 1 + h < e")
    case True
    then show ?thesis using sh [of "len - 1"] len e by simp
  next
    case False
    then have "len + h \<ge> e" "len + h - e < e" using len e by auto
    then have "(len + h) mod e = len + h - e" by (metis le_mod_geq mod_less)
    then show ?thesis using sh [of len] len e by simp
  qed
qed


lemma low_mask:
  assumes "0 < p" "p \<le> 64"
  shows "bit (drop_bit (nat ((- int p) mod 64)) (- 1) :: u64) n \<longleftrightarrow> n < p"
proof -
  have "nat ((- int p) mod 64) = 64 - p"
  proof (cases "p = 64")
    case False
    then have "(- int p) mod 64 = 64 - int p" using assms by (intro mod_pos_pos_trivial [of "64 - int p" 64, simplified]) auto
    then show ?thesis using assms by simp
  qed simp
  then show ?thesis using assms by (auto simp: bit_simps)
qed

lemma arc_runs:
  fixes v low :: u64
  assumes "0 < len" "len < p" "p \<le> 64" "r < p" and v: "\<And>n. n < p \<Longrightarrow> bit v n \<longleftrightarrow> (n + r) mod p < len"
    and low: "\<And>n. bit low n \<longleftrightarrow> n < p"
  shows "ones_run (low AND v) \<or> ones_run (low AND NOT v)"
proof -
  have m: "(n + r) mod p = (if n < p - r then n + r else n + r - p)" if "n < p" for n
    using that assms(4) by (auto simp: mod_if)
  show ?thesis
  proof (cases "r = 0 \<or> len \<le> r")
    case True
    define a where "a = (if r = 0 then 0 else p - r)"
    have "bit (low AND v) n \<longleftrightarrow> a \<le> n \<and> n < a + len" for n
      using True assms(1-4) v [of n] m [of n] by (auto simp: bit_simps low a_def split: if_splits)
    moreover have "a + len \<le> 64" using True assms(1-4) by (auto simp: a_def)
    ultimately show ?thesis unfolding ones_run_iff using assms(1) by (metis less_add_same_cancel1)
  next
    case False
    have "bit (low AND NOT v) n \<longleftrightarrow> len - r \<le> n \<and> n < p - r" for n
      using False assms(1-4) v [of n] m [of n] by (cases "n < p") (auto simp: bit_simps low split: if_splits)
    moreover have "len - r < p - r" "p - r \<le> 64" using False assms(2-4) by auto
    ultimately show ?thesis unfolding ones_run_iff by blast
  qed
qed

lemma run_arcs:
  fixes a b p n :: nat
  assumes "a < b" "b \<le> p" "b - a < p" "0 < p"
  shows "a \<le> n mod p \<and> n mod p < b \<longleftrightarrow> (n + (p - a) mod p) mod p < b - a"
    and "\<not> (a \<le> n mod p \<and> n mod p < b) \<longleftrightarrow> (n + (p - b) mod p) mod p < p - (b - a)"
proof -
  have s: "(n + (p - c) mod p) mod p = (if c \<le> n mod p then n mod p - c else n mod p + p - c)" if "c \<le> p" for c
  proof -
    have "(n + (p - c) mod p) mod p = (n mod p + (p - c)) mod p" by (simp only: mod_add_right_eq mod_add_left_eq)
    also have "\<dots> = (if c \<le> n mod p then n mod p - c else n mod p + p - c)"
    proof (cases "c \<le> n mod p")
      case True
      then have "n mod p + (p - c) = (n mod p - c) + p" using that by simp
      moreover have "n mod p - c < p" using assms(4) by (meson diff_le_self mod_less_divisor order_le_less_trans)
      ultimately have "(n mod p + (p - c)) mod p = n mod p - c" by (metis mod_add_self2 mod_less)
      then show ?thesis using True by simp
    next
      case False
      then show ?thesis using that by simp
    qed
    finally show ?thesis .
  qed
  obtain m where m: "n mod p = m" "m < p" using assms(4) by simp
  show "a \<le> n mod p \<and> n mod p < b \<longleftrightarrow> (n + (p - a) mod p) mod p < b - a"
    using s [of a, unfolded m(1)] assms m(2) unfolding m(1) by (auto split: if_splits)
  show "\<not> (a \<le> n mod p \<and> n mod p < b) \<longleftrightarrow> (n + (p - b) mod p) mod p < p - (b - a)"
    using s [of b, unfolded m(1)] assms m(2) unfolding m(1) by (auto split: if_splits)
qed

lemma bitmask_loop:
  fixes v low :: u64
  assumes m: "2 \<le> m" "N = 2 ^ m" "N \<le> 64" and nz: "\<exists>n < N. bit v n" "\<exists>n < N. \<not> bit v n"
    and low: "\<And>n. bit low n \<longleftrightarrow> n < bitmask_period v N"
  shows "ones_run (low AND v) \<or> ones_run (low AND NOT v) \<longleftrightarrow> logical_imm N v"
proof -
  have "m \<le> 6" using m power_increasing_iff [of "2::nat" m 6] by simp
  have "periodic v N N" by (simp add: periodic_def)
  from bitmask_period_spec [OF m(1) _ m(3), of v] this m(2) obtain l where
    l: "1 \<le> l" "l \<le> m" "bitmask_period v N = 2 ^ l" "periodic v (2 ^ l) N" "l = 1 \<or> \<not> periodic v (2 ^ (l - 1)) N" by auto
  let ?p = "2 ^ l :: nat"
  have p: "0 < ?p" "?p \<le> N" "1 < ?p" using l(1,2) m(2) one_less_power [of "2::nat" l] by (simp_all add: power_increasing)
  have per: "bit v n \<longleftrightarrow> bit v (n mod ?p)" if "n < N" for n using l(4) that by (simp add: periodic_def)
  have lv: "bit (low AND v) n \<longleftrightarrow> n < ?p \<and> bit v n" "bit (low AND NOT v) n \<longleftrightarrow> n < ?p \<and> \<not> bit v n" for n
    using p m(3) by (auto simp: bit_simps low l(3))
  show ?thesis
  proof
    assume "ones_run (low AND v) \<or> ones_run (low AND NOT v)"
    then obtain a b c where ab: "a < b" "\<And>n. n < ?p \<and> (bit v n \<longleftrightarrow> c) \<longleftrightarrow> a \<le> n \<and> n < b"
      unfolding ones_run_iff lv by blast
    have bp: "b \<le> ?p" using ab(1) ab(2) [of "b - 1"] by auto
    have d: "b - a < ?p"
    proof (rule ccontr)
      assume "\<not> b - a < ?p"
      then have "a = 0" "b = ?p" using bp ab(1) by auto
      then have "bit v n \<longleftrightarrow> c" if "n < N" for n using ab(2) [of "n mod ?p"] per [OF that] p by simp
      then show False using nz by blast
    qed
    have all: "(bit v n \<longleftrightarrow> c) \<longleftrightarrow> a \<le> n mod ?p \<and> n mod ?p < b" if "n < N" for n
      using ab(2) [of "n mod ?p"] per [OF that] p by simp
    have e: "?p \<in> {2, 4, 8, 16, 32, 64}" unfolding element_sizes using l(1,2) \<open>m \<le> 6\<close> by (intro exI [of _ l]) simp
    have "\<exists>len r. 0 < len \<and> len < ?p \<and> r < ?p \<and> (\<forall>n < N. bit v n \<longleftrightarrow> (n + r) mod ?p < len)"
    proof (cases c)
      case True
      then show ?thesis using run_arcs(1) [OF ab(1) bp d p(1)] all ab(1) d p(1)
        by (intro exI [of _ "b - a"] exI [of _ "(?p - a) mod ?p"]) auto
    next
      case False
      then show ?thesis using run_arcs(2) [OF ab(1) bp d p(1)] all ab(1) bp d p(1)
        by (intro exI [of _ "?p - (b - a)"] exI [of _ "(?p - b) mod ?p"]) auto
    qed
    then show "logical_imm N v" unfolding logical_imm_def using e p(2) by blast
  next
    assume "logical_imm N v"
    then obtain e len r where e: "e \<in> {2, 4, 8, 16, 32, 64}" "e \<le> N" "0 < len" "len < e" "r < e"
      "\<And>n. n < N \<Longrightarrow> bit v n \<longleftrightarrow> (n + r) mod e < len" unfolding logical_imm_def by blast
    then obtain k where k: "1 \<le> k" "2 ^ k \<le> N" "0 < len" "len < 2 ^ k" "r < 2 ^ k"
      "\<And>n. n < N \<Longrightarrow> bit v n \<longleftrightarrow> (n + r) mod 2 ^ k < len"
      unfolding element_sizes by blast
    have pk: "periodic v (2 ^ k) N" unfolding periodic_def
    proof (intro allI impI)
      fix n assume n: "n < N"
      then have "n mod 2 ^ k < N" by (meson mod_less_eq_dividend order_le_less_trans)
      then show "bit v n \<longleftrightarrow> bit v (n mod 2 ^ k)" using k(6) n by (simp add: mod_simps)
    qed
    have "l = k"
    proof (rule ccontr)
      assume "l \<noteq> k"
      then consider "l \<le> k - 1" "2 \<le> k" | "k \<le> l - 1" "l \<noteq> 1" using l(1) k(1) by linarith
      then show False
      proof cases
        case 1
        then have "2 ^ k = 2 * (2::nat) ^ (k - 1)" by (simp add: power_eq_if)
        moreover have "periodic v (2 ^ (k - 1)) N" using l(4) 1 by (intro periodic_dvd [OF l(4)]) (simp add: le_imp_power_dvd)
        ultimately show False using arc_not_half [of "2 ^ k" "2 ^ (k - 1)" len r N v] k by simp
      next
        case 2
        then show False using l(5) periodic_dvd [OF pk, of "2 ^ (l - 1)"] by (simp add: le_imp_power_dvd)
      qed
    qed
    then show "ones_run (low AND v) \<or> ones_run (low AND NOT v)"
      using arc_runs [of len ?p r v low] k low l(3) p(2) m(3) by simp
  qed
qed

lemma less_two_word:
  "(x + 1 :: u64) < 2 \<longleftrightarrow> x = 0 \<or> x = - 1" "(y + 1 :: u32) < 2 \<longleftrightarrow> y = 0 \<or> y = - 1"
proof -
  have "(a :: u64) < 2 \<longleftrightarrow> a = 0 \<or> a = 1" "(b :: u32) < 2 \<longleftrightarrow> b = 0 \<or> b = 1" for a b by unat_arith+
  then show "(x + 1 :: u64) < 2 \<longleftrightarrow> x = 0 \<or> x = - 1" "(y + 1 :: u32) < 2 \<longleftrightarrow> y = 0 \<or> y = - 1"
    by (auto simp: eq_neg_iff_add_eq_0)
qed

lemma ucast_inc: "(ucast (v + 1) :: u32) = ucast v + 1" for v :: u64
proof transfer
  fix v :: int
  have "take_bit 32 (take_bit 64 v) = take_bit 32 v" by simp
  then show "take_bit LENGTH(32) (take_bit LENGTH(64) (v + 1)) = take_bit LENGTH(32) (take_bit LENGTH(64) v + 1)"
    by (simp, metis take_bit_add)
qed

lemma bitmask_immediate_iff: "alu_is_bitmask_immediate b v = logical_imm (if b then 64 else 32) v"
proof -
  define N :: nat where "N = (if b then 64 else 32)"
  define w :: u64 where "w = (if b then v else ucast (ucast v :: u32))"
  have wb: "bit w n \<longleftrightarrow> n < N \<and> bit v n" for n
    using bit_imp_le_length [of v n] by (auto simp: w_def N_def bit_simps)
  have all: "(\<forall>n < N. bit w n \<longleftrightarrow> c) \<longleftrightarrow> (if b then v = (if c then - 1 else 0) else (ucast v :: u32) = (if c then - 1 else 0))" for c
    by (auto simp: wb N_def bit_eq_iff bit_simps)
  have trivial: "(if b then v + 1 < 2 else (ucast (v + 1) :: u32) < 2) \<longleftrightarrow> (\<forall>n < N. bit w n) \<or> (\<forall>n < N. \<not> bit w n)"
    using all [of True] all [of False] by (simp add: less_two_word ucast_inc disj_commute)
  have l: "logical_imm N w \<longleftrightarrow> logical_imm N v" unfolding logical_imm_def by (simp add: wb)
  show ?thesis
  proof (cases "(\<forall>n < N. bit w n) \<or> (\<forall>n < N. \<not> bit w n)")
    case True
    have "\<not> logical_imm N w"
    proof
      assume "logical_imm N w"
      then obtain e len r where e: "e \<le> N" "0 < len" "len < e" "r < e"
        "\<And>n. n < N \<Longrightarrow> bit w n \<longleftrightarrow> (n + r) mod e < len" unfolding logical_imm_def by blast
      let ?n = "\<lambda>y. (y + (e - r)) mod e"
      have "(?n y + r) mod e = y" "?n y < N" if "y < e" for y
        using that e(1,4) order_less_le_trans [OF mod_less_divisor [of e "y + (e - r)"] e(1)] by (simp_all add: mod_simps)
      then show False using True e(2,3) e(5) [of "?n 0"] e(5) [of "?n len"] by fastforce
    qed
    then show ?thesis using True trivial l by (simp add: alu_is_bitmask_immediate_def N_def)
  next
    case False
    obtain m where m: "2 \<le> m" "N = 2 ^ m" by (cases b) (use N_def that [of 6] that [of 5] in auto)
    have "N \<le> 64" by (simp add: N_def)
    obtain l where "l \<le> m" "bitmask_period w N = 2 ^ l"
      using bitmask_period_spec [OF m(1) _ \<open>N \<le> 64\<close>, of w] m(2) by (auto simp: periodic_def)
    then have q: "0 < bitmask_period w N" "bitmask_period w N \<le> 64"
      using m(2) \<open>N \<le> 64\<close> order.trans [OF power_increasing [of l m "2::nat"]] by simp_all
    have t: "\<not> (if b then v + 1 < 2 else (ucast (v + 1) :: u32) < 2)" using False trivial by blast
    have "alu_is_bitmask_immediate b v \<longleftrightarrow> ones_run (drop_bit (nat ((- int (bitmask_period w N)) mod 64)) (- 1) AND w) \<or>
        ones_run (drop_bit (nat ((- int (bitmask_period w N)) mod 64)) (- 1) AND NOT w)"
      unfolding alu_is_bitmask_immediate_def Let_def w_def [symmetric] N_def [symmetric] by (simp only: if_not_P [OF t])
    also have "\<dots> \<longleftrightarrow> logical_imm N w" using False by (intro bitmask_loop [OF m \<open>N \<le> 64\<close> _ _ low_mask [OF q]]) auto
    finally show ?thesis using l by (simp add: N_def)
  qed
qed

text \<open>
  (C21) The test for logical immediates decides exactly the AArch64 logical immediates of the
  operand's width: the values that repeat an element of 2, 4, 8, 16, 32 or 64 bits holding one
  rotated run of ones, neither empty nor full. Its period loop ends for every value.
\<close>

theorem bitmask_immediate_exact:
  "alu_is_bitmask_immediate True v = logical_imm 64 v \<and> alu_is_bitmask_immediate False v = logical_imm 32 v"
  by (simp add: bitmask_immediate_iff)

section \<open>Add and subtract immediates\<close>

text \<open>A twelve-bit number, shifted by twelve or not.\<close>

definition imm12 :: "u64 \<Rightarrow> bool" where
  "imm12 v \<longleftrightarrow> (\<exists>k < 4096. v = k \<or> v = k * 4096)"

lemma shifted_iff: "v AND 0xFFFFFFFFFF000FFF = 0 \<longleftrightarrow> (\<exists>k < 4096. v = k * 4096)" for v :: u64
proof -
  have m: "(0xFFFFFFFFFF000FFF :: u64) = NOT (push_bit 12 (mask 12))" by (simp add: mask_eq_exp_minus_1)
  have b: "bit (v AND 0xFFFFFFFFFF000FFF) n \<longleftrightarrow> bit v n \<and> \<not> (12 \<le> n \<and> n < 24)" for n
    unfolding m using bit_imp_le_length [of v n] by (auto simp: bit_simps)
  have c: "bit (push_bit 12 (take_bit 12 (drop_bit 12 v))) n \<longleftrightarrow> bit v n \<and> 12 \<le> n \<and> n < 24" for n
    using bit_imp_le_length [of v n] by (auto simp: bit_simps)
  have p: "push_bit 12 k = k * 4096" for k :: u64 by (simp add: push_bit_eq_mult)
  show ?thesis
  proof
    assume "v AND 0xFFFFFFFFFF000FFF = 0"
    then have "v = push_bit 12 (take_bit 12 (drop_bit 12 v))"
      unfolding word_zero_iff b by (intro bit_word_eqI) (use c in blast)
    moreover have "take_bit 12 (drop_bit 12 v) < 4096" using take_bit_nat_less_exp [of 12 "unat (drop_bit 12 v)"]
      by (simp add: word_less_nat_alt unsigned_take_bit_eq)
    ultimately show "\<exists>k < 4096. v = k * 4096" unfolding p by blast
  next
    assume "\<exists>k < 4096. v = k * 4096"
    then obtain k where k: "k < 4096" "v = push_bit 12 k" unfolding p by blast
    then have "k = take_bit 12 k" using less_mask_eq [of k 12] by (simp add: take_bit_eq_mask)
    then have "bit k (n - 12) \<Longrightarrow> n - 12 < 12" for n by (metis bit_take_bit_iff)
    then have "bit v n \<Longrightarrow> 12 \<le> n \<and> n < 24" for n unfolding k(2) by (fastforce simp: bit_simps)
    then show "v AND 0xFFFFFFFFFF000FFF = 0" unfolding word_zero_iff b by blast
  qed
qed

lemma addimm_iff: "alu_addimm_encodable v \<longleftrightarrow> imm12 v \<or> imm12 (- v)"
  by (auto simp: alu_addimm_encodable_def imm12_def shifted_iff)

lemma sint_cases: "sint v = (if uint v < 2 ^ 63 then uint v else uint v - 2 ^ 64)" for v :: u64
proof -
  have "0 \<le> uint v" "uint v < 2 ^ 64" using uint_lt2p [of v] by simp_all
  moreover have "(uint v + 2 ^ 63) mod 2 ^ 64 = (uint v - 2 ^ 63) mod 2 ^ 64" if "\<not> uint v < 2 ^ 63"
    using mod_add_self2 [of "uint v - 2 ^ 63" "2 ^ 64"] by (simp add: add.commute)
  ultimately show ?thesis
    by (simp add: sint_uint signed_take_bit_eq_take_bit_shift take_bit_eq_mod)
qed

lemma uint_neg: "uint (- v) = (if v = 0 then 0 else 2 ^ 64 - uint v)" for v :: u64
proof (cases "v = 0")
  case False
  then have "0 < uint v" "uint v < 2 ^ 64" using uint_lt2p [of v] by (simp_all add: uint_0_iff order_less_le)
  then have "(- uint v) mod 2 ^ 64 = 2 ^ 64 - uint v"
    using mod_pos_pos_trivial [of "2 ^ 64 - uint v" "2 ^ 64"] minus_mod_self1 [of "2 ^ 64" "uint v"] by simp
  then show ?thesis using False by (simp add: uint_word_ariths)
qed simp

lemma imm12_uint: "imm12 v \<longleftrightarrow> uint v < 4096 \<or> uint v < 2 ^ 24 \<and> uint v mod 4096 = 0"
proof
  assume "imm12 v"
  then obtain k where k: "k < 4096" "v = k \<or> v = k * 4096" by (auto simp: imm12_def)
  have u: "uint k < 4096" using k(1) by (simp add: word_less_def)
  then have "uint (k * 4096) = uint k * 4096" by (simp add: uint_word_ariths)
  then show "uint v < 4096 \<or> uint v < 2 ^ 24 \<and> uint v mod 4096 = 0" using k(2) u by auto
next
  assume v: "uint v < 4096 \<or> uint v < 2 ^ 24 \<and> uint v mod 4096 = 0"
  show "imm12 v"
  proof (cases "uint v < 4096")
    case True
    then show ?thesis unfolding imm12_def by (intro exI [of _ v]) (simp add: word_less_def)
  next
    case False
    let ?k = "word_of_int (uint v div 4096) :: u64"
    have q: "0 \<le> uint v div 4096" "uint v div 4096 < 4096" using v False by auto
    then have "uint ?k = uint v div 4096" by (simp add: uint_word_of_int)
    then have "?k < 4096" "uint (?k * 4096) = uint v" using v False q by (auto simp: word_less_def uint_word_ariths)
    then show ?thesis unfolding imm12_def using word_uint_eqI by metis
  qed
qed

lemma low12: "v AND 0xFFF = 0 \<longleftrightarrow> uint v mod 4096 = 0" for v :: u64
proof -
  have "v AND 0xFFF = take_bit 12 v" by (simp add: take_bit_eq_mask mask_eq_exp_minus_1)
  then have "uint (v AND 0xFFF) = uint v mod 4096" by (simp add: take_bit_eq_mod uint_mod)
  then show ?thesis by (metis uint_0_iff)
qed

text \<open>
  (C22) Both tests for add and subtract immediates mean the same: a displacement or operand can be
  added or subtracted in one instruction when it or its negation is a twelve-bit number, shifted by
  twelve or not. They differ only on the least 64-bit number, whose negation overflows in
  \<open>disp_add_encodable\<close>, which then calls it encodable.
\<close>

theorem add_immediates_exact:
  "(alu_addimm_encodable v \<longleftrightarrow> imm12 v \<or> imm12 (- v)) \<and>
   (disp_add_encodable v \<longleftrightarrow> imm12 v \<or> imm12 (- v) \<or> v = 0x8000000000000000)"
proof
  show "alu_addimm_encodable v \<longleftrightarrow> imm12 v \<or> imm12 (- v)" by (rule addimm_iff)
  have b: "0 \<le> uint v" "uint v < 2 ^ 64" using uint_lt2p [of v] by simp_all
  have z: "v = 0 \<longleftrightarrow> uint v = 0" "v = 0x8000000000000000 \<longleftrightarrow> uint v = 2 ^ 63" by (simp_all add: word_uint_eq_iff)
  show "disp_add_encodable v \<longleftrightarrow> imm12 v \<or> imm12 (- v) \<or> v = 0x8000000000000000"
    unfolding disp_add_encodable_def Let_def imm12_uint low12 sint_cases using b z by (auto simp: uint_neg)
qed

end
