(* ===== verification/BridgeDemand.thy ===== *)
theory BridgeDemand
  imports BridgeCost X87Cache
begin

text \<open>
  The demand of each instruction family and the gate \<open>gap_gpr_demand\<close> of \<open>X87BridgeDemand.cpp\<close>: how
  many scratch registers the host translator needs for one instruction between two x87
  instructions, or \<open>None\<close> when the instruction must end the run.
\<close>

section \<open>Moves\<close>

definition demand_mov_movnti :: "IRInstr \<Rightarrow> int" where
  "demand_mov_movnti instr =
     (let dst = operand0 instr; src = operand1 instr in
      if kind dst = KRegister \<and> osize dst = S16 \<and> kind src = KBranchOffset then 0
      else seq_demand (seq_step (mov_write_cost dst) (seq_step (mov_read_cost src (arch_dst dst)) Seq_new)))"

definition demand_lea :: "IRInstr \<Rightarrow> int" where
  "demand_lea instr =
     (let dst = operand0 instr; src = operand1 instr;
          seq = (if arch_dst dst then seq_step (Cost (lea_addr_peak_arch src) 0) (seq_step (Cost 0 0) Seq_new)
                 else if kind src = KImmediate \<and> mem_flags src AND 1 = 0
                 then seq_step (Cost 1 0) (seq_step (Cost 1 1) Seq_new)
                 else seq_step (Cost 0 0) (seq_step (Cost 1 1) Seq_new))
      in seq_demand (seq_step (Cost 0 0) seq))"

definition demand_sse_mov_scalar :: "IRInstr \<Rightarrow> int" where
  "demand_sse_mov_scalar instr =
     (let op0 = operand0 instr; op1 = operand1 instr; flush = (kind op0 = KRegister \<and> oreg op0 AND 0xF0 = 0x90) in
      if kind op0 \<noteq> KRegister then seq_demand (seq_step (movs_write_mem_cost op0) Seq_new)
      else
        let seq = (if kind op1 \<noteq> KRegister then seq_step (movs_read_xmm_cost op1) Seq_new else Seq_new) in
        seq_demand (if flush then seq_step (Cost (if kind op1 = KImmediate then 2 else 1) 0) seq else seq))"

definition demand_movzx_movsx_movsxd :: "IRInstr \<Rightarrow> int" where
  "demand_movzx_movsx_movsxd instr =
     (let dst = operand0 instr; src = operand1 instr in
      seq_demand (seq_step (Cost 0 0) (seq_step (movext_read_cost src (arch_dst dst))
        (seq_step (if arch_dst dst then Cost 0 0 else Cost 1 1) Seq_new))))"

section \<open>Arithmetic\<close>

definition alu_second_read :: "u16 \<Rightarrow> bool \<Rightarrow> IROperand \<Rightarrow> bool" where
  "alu_second_read op is_64bit src =
     (let logical = (op = kOpcodeName_and \<or> op = kOpcodeName_or \<or> op = kOpcodeName_xor) in
      case kind src of
        KMemRef \<Rightarrow> True
      | KAbsMem \<Rightarrow> True
      | KRegister \<Rightarrow> if logical then True else reg_class src \<noteq> 0 \<and> reg_class src \<noteq> 2
      | KImmediate \<Rightarrow> True
      | KBranchOffset \<Rightarrow>
          \<not> (if logical then alu_is_bitmask_immediate is_64bit (payload src) else alu_addimm_encodable (payload src))
      | _ \<Rightarrow> False)"

definition dst_in_memory :: "IROperand \<Rightarrow> bool" where
  "dst_in_memory dst \<longleftrightarrow> kind dst = KMemRef \<or> kind dst = KAbsMem"

definition free_unless :: "bool \<Rightarrow> Seq \<Rightarrow> Seq" where
  "free_unless b s = (if b then s else seq_free 1 s)"

definition demand_alu_binary :: "IRInstr \<Rightarrow> int" where
  "demand_alu_binary instr =
     (let dst = operand0 instr; src = operand1 instr; op = opcode instr; is_cmp = (op = kOpcodeName_cmp);
          is_64bit = (osize dst = S64); fl = flag_liveness instr in
      if op = kOpcodeName_xor \<and> kind dst = KRegister \<and> kind src = KRegister \<and> oreg dst = oreg src then 0
      else
        let em_nonzero = alu_extend_nonzero op instr src; second_read = alu_second_read op is_64bit src in
        if \<not> is_cmp \<and> kind dst = KImmediate then
          5 + (if second_read then cpeak (alu_read_cost src em_nonzero is_64bit) else 0)
        else
          let cmp_small = (kind dst = KRegister \<and> osize dst \<le> S16);
              cmp_flag_temp = (cmp_small \<and> fl AND (FLAG_AF OR FLAG_PF_LO OR FLAG_OF OR FLAG_SF OR 0x1) \<noteq> 0);
              s1 = (if is_cmp then seq_step (if cmp_flag_temp then Cost 1 1 else Cost 0 0) Seq_new
                    else if arch_dst dst then seq_step (Cost 0 0) Seq_new
                    else seq_step (Cost 1 1) Seq_new);
              s2 = seq_step (alu_read_cost dst em_nonzero is_64bit) s1;
              s3 = (if second_read
                    then free_unless (dst_in_memory dst) (seq_step (alu_read_cost src em_nonzero is_64bit) s2)
                    else s2);
              s4 = (if \<not> is_cmp then seq_step (alu_write_op0_cost dst) (free_unless (dst_in_memory dst) s3) else s3)
          in seq_demand s4)"

definition demand_adc_sbb :: "IRInstr \<Rightarrow> int" where
  "demand_adc_sbb instr =
     (let op = opcode instr; dst = operand0 instr; src = operand1 instr; fl = flag_liveness instr;
          is_64bit = (osize dst = S64); em_nonzero = (fl AND (FLAG_OF OR FLAG_CF) \<noteq> 0);
          sbb_aliased = (op = kOpcodeName_sbb \<and> kind dst = KRegister \<and> kind src = KRegister \<and> oreg dst = oreg src);
          second_read = (if op = kOpcodeName_sbb then \<not> sbb_aliased
                         else fl \<noteq> 0 \<or> kind src \<noteq> KBranchOffset \<or> payload src \<noteq> 0);
          dst_cost = (if arch_dst dst then Cost 0 0 else Cost 1 1) in
      if kind dst = KImmediate then
        5 + (if second_read then cpeak (alu_read_cost src em_nonzero is_64bit) else 0)
      else if sbb_aliased then seq_demand (seq_step (Cost 0 0) (seq_step dst_cost Seq_new))
      else
        let s2 = seq_step (alu_read_cost dst em_nonzero is_64bit) (seq_step dst_cost Seq_new);
            s3 = (if second_read
                  then free_unless (dst_in_memory dst) (seq_step (alu_read_cost src em_nonzero is_64bit) s2)
                  else s2)
        in seq_demand (seq_step (alu_write_op0_cost dst) (free_unless (dst_in_memory dst) s3)))"

text \<open>The carry temporary of INC and DEC.\<close>

definition unary_carry_temp :: "u8 \<Rightarrow> IROperand \<Rightarrow> bool" where
  "unary_carry_temp fl tgt \<longleftrightarrow>
     (let v7 = (fl AND (FLAG_PF_HI OR FLAG_CF OR FLAG_ZF) \<noteq> 0 \<or> osize tgt > S16) in
      fl \<ge> FLAG_AF \<and> v7 \<and> fl AND FLAG_CF \<noteq> 0)"

definition demand_alu_unary :: "IRInstr \<Rightarrow> int" where
  "demand_alu_unary instr =
     (let op = opcode instr; tgt = operand0 instr; fl = flag_liveness instr;
          inc_dec = (op = kOpcodeName_inc \<or> op = kOpcodeName_dec) in
      if kind tgt = KImmediate then 5 + (if inc_dec \<and> unary_carry_temp fl tgt then 1 else 0)
      else
        let is_64bit = (osize tgt = S64);
            tgt_is_mem = (kind tgt = KMemRef \<or> kind tgt = KAbsMem \<or> kind tgt = KImmediate);
            em_nonzero = (op \<noteq> kOpcodeName_not \<and> fl AND (FLAG_OF OR FLAG_CF OR FLAG_ZF) \<noteq> 0) in
        if op = kOpcodeName_not then
          seq_demand (seq_step (alu_write_op0_cost tgt) (seq_step (alloc_dst_gpr_cost tgt)
            (seq_step (alu_read_cost tgt em_nonzero is_64bit) Seq_new)))
        else
          let s2 = seq_step (alu_read_cost tgt em_nonzero is_64bit) (seq_step (alloc_dst_gpr_cost tgt) Seq_new);
              s3 = (if inc_dec \<and> unary_carry_temp fl tgt then seq_step (Cost 1 1) s2 else s2)
          in seq_demand (seq_step (alu_write_op0_cost tgt) (free_unless tgt_is_mem s3)))"

definition demand_test :: "IRInstr \<Rightarrow> int" where
  "demand_test instr =
     (let op0 = operand0 instr; op1 = operand1 instr; fl = flag_liveness instr; is_64bit = (osize op0 = S64);
          zf_mask = (FLAG_AF OR FLAG_PF_HI OR FLAG_OF OR FLAG_CF OR FLAG_ZF OR FLAG_SF);
          only_zf = (fl AND zf_mask = FLAG_ZF);
          op0_reg = (kind op0 = KRegister); op1_reg = (kind op1 = KRegister); op1_branch = (kind op1 = KBranchOffset) in
      if only_zf \<and> op0_reg \<and> op1_reg \<and> oreg op0 = oreg op1 then 0
      else if op0_reg \<and> oreg op0 AND 0xF0 = 0x10 \<and> only_zf \<and> op1_branch \<and>
              alu_is_bitmask_immediate is_64bit (push_bit 8 (ucast (ucast (payload op1) :: u8)))
      then 0
      else
        let em_nonzero = (if fl < FLAG_OF then False
                          else if op1_branch \<and> payload op1 AND 0x8000000000000000 = 0 then False else True);
            second_read = (if op1_branch then \<not> alu_is_bitmask_immediate is_64bit (payload op1)
                           else if op0_reg \<and> op1_reg \<and> oreg op0 = oreg op1 then False else True) in
        if kind op0 = KImmediate then 2 + (if second_read then cpeak (alu_read_cost op1 em_nonzero is_64bit) else 0)
        else
          let s1 = seq_step (alu_read_cost op0 em_nonzero is_64bit) Seq_new
          in seq_demand (if second_read then seq_step (alu_read_cost op1 em_nonzero is_64bit) s1 else s1))"

definition demand_mul_imul :: "IRInstr \<Rightarrow> int" where
  "demand_mul_imul instr =
     (let op0 = operand0 instr; fl = flag_liveness instr; nops = num_operands instr; size = osize op0;
          of_cf_live = (fl AND (FLAG_OF OR FLAG_CF) \<noteq> 0); two_read = (nops = 2 \<or> nops = 3);
          imul = (opcode instr = kOpcodeName_imul);
          is_64bit = (size = S64 \<or> size = S32 \<and> of_cf_live);
          reads = (if \<not> two_read then mul_acc_read_events op0 is_64bit + mul_read_events op0 True is_64bit
                   else mul_read_events (if nops \<noteq> 2 then operand1 instr else operand0 instr) True is_64bit +
                        mul_read_events (if nops \<noteq> 2 then operand2 instr else operand1 instr) True is_64bit + 1);
          product = (if size \<le> S16 then 1
                     else if size = S32 then (if of_cf_live then 1 else 0)
                     else if of_cf_live \<and> (if two_read then nops = 2 else kind op0 \<noteq> KMemRef) then 1 else 0);
          flags = (if of_cf_live then (if size = S32 \<or> size = S64 then 2 else if imul then 4 else 2) else 0)
      in reads + product + flags)"

section \<open>Stack, conditional moves and extensions\<close>

definition demand_push_pop :: "IRInstr \<Rightarrow> int" where
  "demand_push_pop instr =
     (let op = opcode instr; operand = operand0 instr; operand_is_reg = (kind operand = KRegister);
          operand_is_rsp = (operand_is_reg \<and> oreg operand AND 0xF = 4);
          is_push = (op = kOpcodeName_push \<or> op = kOpcodeName_pushd \<or> op = kOpcodeName_pushw) in
      if is_push then
        (if op = kOpcodeName_push \<and> operand_is_reg \<and> \<not> operand_is_rsp then 0
         else seq_demand (seq_step (if operand_is_rsp \<and> osize operand \<noteq> S16 then Cost 1 1 else Cost 0 0)
                (seq_step (push_read_cost operand) Seq_new)))
      else if op = kOpcodeName_pop \<and> operand_is_reg \<and> \<not> operand_is_rsp then 0
      else seq_demand (seq_step (pop_write_cost operand)
             (seq_step (if arch_dst operand \<and> \<not> operand_is_rsp then Cost 0 0 else Cost 1 1) Seq_new)))"

definition demand_cmovcc :: "IRInstr \<Rightarrow> int" where
  "demand_cmovcc instr =
     (let cc_op = operand0 instr; dst = operand1 instr; src = operand2 instr;
          parity = (osize cc_op AND 0xFE = 0xA);
          dst_cost = (if arch_dst dst then Cost 0 0 else Cost 1 1); read_cost = cmov_read_cost src in
      if parity then cpeak read_cost + cheld dst_cost + 3
      else seq_demand (seq_step (Cost 0 0) (seq_step dst_cost (seq_step read_cost Seq_new))))"

definition demand_setcc :: "IRInstr \<Rightarrow> int" where
  "demand_setcc instr =
     seq_demand (seq_step (setcc_write_cost (operand1 instr)) (seq_step (Cost 0 0) (seq_step (Cost 1 1) Seq_new)))"

definition demand_extends :: "IRInstr \<Rightarrow> int" where
  "demand_extends instr = (if opcode instr = kOpcodeName_cbw \<or> opcode instr = kOpcodeName_cwd then 1 else 0)"

definition demand_sse_arith :: "IRInstr \<Rightarrow> int" where
  "demand_sse_arith instr =
     (let dst = operand0 instr; src = operand2 instr; seq = seq_step (movs_read_xmm_cost src) Seq_new;
          dst_cls = oreg dst AND 0xF0 in
      seq_demand (if dst_cls = 0x90 \<or> dst_cls = 0xA0
                  then seq_step (Cost (if kind src = KImmediate then 2 else 1) 0) seq else seq))"

section \<open>Shifts and rotates\<close>

definition count_if :: "bool \<Rightarrow> int" where
  "count_if b = (if b then 1 else 0)"

definition shl_imm_inline :: "u8 \<Rightarrow> u8 \<Rightarrow> int" where
  "shl_imm_inline fl value_b =
     (let v10 = (value_b \<noteq> 0 \<and> bit fl 5); v11 = (value_b = 1 \<and> bit fl 4) in
      count_if (v10 \<or> v11) + count_if (fl \<noteq> 0 \<and> value_b \<noteq> 0 \<and> (v10 \<or> v11)))"

definition shr_imm_inline :: "u8 \<Rightarrow> u8 \<Rightarrow> int" where
  "shr_imm_inline fl value_b =
     (let of_live = (value_b = 1 \<and> bit fl 4) in
      count_if (value_b \<noteq> 0 \<and> fl AND 0x20 \<noteq> 0) + count_if of_live +
      count_if (fl \<noteq> 0 \<and> value_b \<noteq> 0 \<and> (of_live \<or> bit fl 5)))"

definition sar_imm_inline :: "u8 \<Rightarrow> u8 \<Rightarrow> int" where
  "sar_imm_inline fl value_b =
     (let v10 = (value_b = 1 \<and> bit fl 4) in
      count_if (value_b \<noteq> 0 \<and> fl AND 0x20 \<noteq> 0) + count_if (fl \<noteq> 0 \<and> value_b \<noteq> 0 \<and> (v10 \<or> bit fl 5)))"

definition rol_imm_inline :: "u8 \<Rightarrow> u8 \<Rightarrow> int" where
  "rol_imm_inline fl value_b = 2 + count_if (fl AND (FLAG_OF OR FLAG_CF) \<noteq> 0 \<and> value_b \<noteq> 0)"

definition ror_imm_inline :: "u8 \<Rightarrow> u8 \<Rightarrow> bool \<Rightarrow> int" where
  "ror_imm_inline fl value_b size_le16 =
     2 * count_if size_le16 + 2 * count_if (fl AND (FLAG_OF OR FLAG_CF) \<noteq> 0 \<and> value_b \<noteq> 0)"

definition shl_reg_inline :: "u8 \<Rightarrow> int" where
  "shl_reg_inline fl = count_if (fl \<noteq> 0) + count_if (fl \<noteq> 0 \<and> fl AND (FLAG_OF OR FLAG_CF) \<noteq> 0)"

definition shr_reg_inline :: "u8 \<Rightarrow> int" where
  "shr_reg_inline fl = count_if (fl \<noteq> 0) + count_if (fl \<noteq> 0 \<and> fl AND (FLAG_OF OR FLAG_CF) \<noteq> 0)"

definition sar_reg_inline :: "u8 \<Rightarrow> int" where
  "sar_reg_inline fl = count_if (fl \<noteq> 0) + count_if (fl \<noteq> 0 \<and> fl AND (FLAG_OF OR FLAG_CF) \<noteq> 0)"

definition rol_reg_inline :: "u8 \<Rightarrow> bool \<Rightarrow> int" where
  "rol_reg_inline fl size_le16 =
     count_if (fl AND (FLAG_OF OR FLAG_CF) \<noteq> 0) + (if size_le16 then 2 else 1) +
     count_if (fl AND (FLAG_OF OR FLAG_CF) \<noteq> 0)"

definition ror_reg_inline :: "u8 \<Rightarrow> bool \<Rightarrow> int" where
  "ror_reg_inline fl size_le16 =
     count_if (fl AND (FLAG_OF OR FLAG_CF) \<noteq> 0) + 2 * count_if size_le16 +
     2 * count_if (fl AND (FLAG_OF OR FLAG_CF) \<noteq> 0)"

text \<open>
  The rotation count is masked with \<open>(8 << size) - 1\<close>; the shift is defined for the operand sizes
  up to 256 bits.
\<close>

definition demand_shifts :: "IRInstr \<Rightarrow> int" where
  "demand_shifts instr =
     (let op = opcode instr; op0 = operand0 instr; cnt = operand1 instr; fl = flag_liveness instr;
          size_le16 = (osize op0 \<le> S16);
          shared = shifts_read0_events op0 + shifts_dst_events op0 + shifts_write_events op0;
          value_b = (ucast (payload cnt) :: u8); dup = shifts_dup_events op0; nz = shifts_nz_events fl op0;
          nz_imm = (if fl \<noteq> 0 \<and> value_b \<noteq> 0 then nz else 0); nz_reg = (if fl \<noteq> 0 then nz else 0);
          rot = uint value_b AND (8 * 2 ^ unat (osize op0) - 1);
          dup_imm = (if fl AND FLAG_CF \<noteq> 0 \<or> rot = 1 \<and> fl AND FLAG_OF \<noteq> 0 then dup else 0);
          dup_reg = (if fl \<noteq> 0 \<and> fl AND (FLAG_OF OR FLAG_CF) \<noteq> 0 then dup else 0);
          dup_rot = (if fl AND (FLAG_OF OR FLAG_CF) \<noteq> 0 then dup else 0);
          events =
            (if kind cnt = KBranchOffset then
               (if op = kOpcodeName_shl then shl_imm_inline fl value_b + nz_imm
                else if op = kOpcodeName_shr then shr_imm_inline fl value_b + nz_imm
                else if op = kOpcodeName_sar then sar_imm_inline fl value_b + nz_imm
                else if op = kOpcodeName_rol then rol_imm_inline fl value_b + dup_imm
                else if op = kOpcodeName_ror then ror_imm_inline fl value_b size_le16 + dup_imm
                else 0)
             else
               (if op = kOpcodeName_shl then shl_reg_inline fl + dup_reg + nz_reg
                else if op = kOpcodeName_shr then shr_reg_inline fl + dup_reg + nz_reg
                else if op = kOpcodeName_sar then sar_reg_inline fl + dup_reg + nz_reg
                else if op = kOpcodeName_rol then rol_reg_inline fl size_le16 + dup_rot
                else if op = kOpcodeName_ror then ror_reg_inline fl size_le16 + dup_rot
                else 0))
      in shared + events)"

section \<open>The gate\<close>

text \<open>The common prefix over the operands: \<open>None\<close> refuses, otherwise whether one is in memory.\<close>

fun gap_operands :: "IROperand list \<Rightarrow> bool \<Rightarrow> bool option" where
  "gap_operands [] has_mem = Some has_mem"
| "gap_operands (w # ws) has_mem =
     (case kind w of
        KMemRef \<Rightarrow> if seg_override w \<noteq> 0 \<or> (addr_size w \<noteq> S64 \<and> addr_size w \<noteq> S32) then None else gap_operands ws True
      | KAbsMem \<Rightarrow> if seg_override w \<noteq> 0 then None else gap_operands ws True
      | KImmediate \<Rightarrow> if seg_override w \<noteq> 0 then None else gap_operands ws True
      | KSegmentRegister \<Rightarrow> None
      | _ \<Rightarrow> gap_operands ws has_mem)"

definition instr_operands :: "IRInstr \<Rightarrow> IROperand list" where
  "instr_operands instr = take (unat (num_operands instr)) [operand0 instr, operand1 instr, operand2 instr, operand3 instr]"

definition sse_arith_ops :: "u16 list" where
  "sse_arith_ops = [kOpcodeName_addss, kOpcodeName_addsd, kOpcodeName_subss, kOpcodeName_subsd, kOpcodeName_mulss,
     kOpcodeName_mulsd, kOpcodeName_divss, kOpcodeName_divsd, kOpcodeName_sqrtss, kOpcodeName_sqrtsd,
     kOpcodeName_rsqrtss, kOpcodeName_rcpss]"

definition family_demand :: "IRInstr \<Rightarrow> int option" where
  "family_demand instr =
     (let op = opcode instr in
      if op = kOpcodeName_mov \<or> op = kOpcodeName_movnti then Some (demand_mov_movnti instr)
      else if op = kOpcodeName_lea then Some (demand_lea instr)
      else if op = kOpcodeName_movss \<or> op = kOpcodeName_movsd then Some (demand_sse_mov_scalar instr)
      else if op \<in> {kOpcodeName_add, kOpcodeName_sub, kOpcodeName_and, kOpcodeName_or, kOpcodeName_xor, kOpcodeName_cmp}
        then Some (demand_alu_binary instr)
      else if op = kOpcodeName_adc \<or> op = kOpcodeName_sbb then
        (if rep_prefix instr = 1 then None else Some (demand_adc_sbb instr))
      else if op = kOpcodeName_movzx \<or> op = kOpcodeName_movsx \<or> op = kOpcodeName_movsxd
        then Some (demand_movzx_movsx_movsxd instr)
      else if op \<in> {kOpcodeName_push, kOpcodeName_pop, kOpcodeName_pushd, kOpcodeName_popd, kOpcodeName_pushw, kOpcodeName_popw}
        then Some (demand_push_pop instr)
      else if op \<in> {kOpcodeName_inc, kOpcodeName_dec, kOpcodeName_neg, kOpcodeName_not} then
        (if rep_prefix instr = 1 then None else Some (demand_alu_unary instr))
      else if op = kOpcodeName_cmovcc then Some (demand_cmovcc instr)
      else if op \<in> {kOpcodeName_shl, kOpcodeName_shr, kOpcodeName_sar, kOpcodeName_rol, kOpcodeName_ror}
        then Some (demand_shifts instr)
      else if op = kOpcodeName_nop \<or> op = kOpcodeName_wait then Some 0
      else if op \<in> {kOpcodeName_cbw, kOpcodeName_cwde, kOpcodeName_cdqe, kOpcodeName_cwd, kOpcodeName_cdq, kOpcodeName_cqo}
        then Some (demand_extends instr)
      else if op = kOpcodeName_setcc then Some (demand_setcc instr)
      else if op = kOpcodeName_test then Some (demand_test instr)
      else if op = kOpcodeName_mul \<or> op = kOpcodeName_imul then Some (demand_mul_imul instr)
      else if op \<in> set sse_arith_ops then Some (demand_sse_arith instr)
      else None)"

definition gap_gpr_demand :: "IRInstr \<Rightarrow> int option" where
  "gap_gpr_demand instr =
     (case gap_operands (instr_operands instr) False of
        None \<Rightarrow> None
      | Some has_mem \<Rightarrow>
          if rep_prefix instr \<noteq> 0 \<and> has_mem \<and> lockable_rmw (opcode instr) then None else family_demand instr)"

end
