(* ===== verification/BridgeFacts.thy ===== *)
theory BridgeFacts
  imports BridgeDemand
begin

text \<open>
  Facts about the demand model: its range, exactly which instructions the gate refuses, and a class
  of instructions it always admits.
\<close>

section \<open>Bounds\<close>

text \<open>Every helper peaks at two temporaries at most and holds at most one.\<close>

definition cost_ok :: "Cost \<Rightarrow> bool" where
  "cost_ok c \<longleftrightarrow> 0 \<le> cpeak c \<and> cpeak c \<le> 2 \<and> 0 \<le> cheld c \<and> cheld c \<le> 1"

lemma mem_allocs_range [simp]: "0 \<le> mem_allocs m" "mem_allocs m \<le> 1" "mem_allocs m \<le> 2" "mem_allocs m \<le> 3"
  by (simp_all add: mem_allocs_def mov_prefetch_allocs_def)

lemma mov_prefetch_allocs_range [simp]: "0 \<le> mov_prefetch_allocs m" "mov_prefetch_allocs m \<le> 2"
  by (simp_all add: mov_prefetch_allocs_def)

lemma lea_addr_peak_arch_range: "0 \<le> lea_addr_peak_arch m \<and> lea_addr_peak_arch m \<le> 2"
  by (simp add: lea_addr_peak_arch_def split: IROperandKind.split)

lemma cost_ok_helpers [simp]:
  "cost_ok (mov_read_cost w b)" "cost_ok (mov_write_cost w)" "cost_ok (movs_write_mem_cost w)"
  "cost_ok (movs_read_xmm_cost w)" "cost_ok (alu_read_cost w b b')" "cost_ok (alu_write_op0_cost w)"
  "cost_ok (movext_read_cost w b)" "cost_ok (push_read_cost w)" "cost_ok (pop_write_cost w)"
  "cost_ok (cmov_read_cost w)" "cost_ok (setcc_write_cost w)" "cost_ok (alloc_dst_gpr_cost w)"
  by (simp_all add: cost_ok_def mov_read_cost_def mov_write_cost_def movs_write_mem_cost_def movs_read_xmm_cost_def
    alu_read_cost_def alu_write_op0_cost_def movext_read_cost_def push_read_cost_def pop_write_cost_def
    cmov_read_cost_def setcc_write_cost_def alloc_dst_gpr_cost_def split: IROperandKind.split)

lemma cost_ok_consts [simp]:
  "cost_ok (Cost 0 0)" "cost_ok (Cost 1 1)" "cost_ok (Cost 1 0)" "cost_ok (Cost 2 0)" "cost_ok (Cost 2 1)"
  "cost_ok (Cost (lea_addr_peak_arch w) 0)"
  using lea_addr_peak_arch_range [of w] by (simp_all add: cost_ok_def)

text \<open>A sequence of \<open>n\<close> steps.\<close>

definition seq_ok :: "int \<Rightarrow> Seq \<Rightarrow> bool" where
  "seq_ok n s \<longleftrightarrow> running s \<le> n \<and> 0 \<le> speak s \<and> speak s \<le> n + 1"

lemma seq_ok_new: "seq_ok 0 Seq_new"
  by (simp add: seq_ok_def Seq_new_def)

lemma seq_ok_step: "seq_ok n s \<Longrightarrow> cost_ok c \<Longrightarrow> seq_ok (n + 1) (seq_step c s)"
  by (simp add: seq_ok_def cost_ok_def seq_step_def Let_def)

lemma seq_ok_free_unless: "seq_ok n s \<Longrightarrow> seq_ok n (free_unless b s)"
  by (simp add: seq_ok_def free_unless_def seq_free_def)

lemma seq_ok_mono: "seq_ok n s \<Longrightarrow> n \<le> m \<Longrightarrow> seq_ok m s"
  by (simp add: seq_ok_def)

lemma seq_ok_demand: "seq_ok n s \<Longrightarrow> 0 \<le> seq_demand s \<and> seq_demand s \<le> n + 1"
  by (simp add: seq_ok_def seq_demand_def)

lemma seq_ok_if: "seq_ok n s \<Longrightarrow> seq_ok n t \<Longrightarrow> seq_ok n (if b then s else t)"
  by simp

lemma demand1: "cost_ok a \<Longrightarrow> 0 \<le> seq_demand (seq_step a Seq_new) \<and> seq_demand (seq_step a Seq_new) \<le> 2"
  using seq_ok_demand [OF seq_ok_step [OF seq_ok_new]] by simp

lemma demand2:
  "cost_ok a \<Longrightarrow> cost_ok b \<Longrightarrow> 0 \<le> seq_demand (seq_step b (seq_step a Seq_new)) \<and>
     seq_demand (seq_step b (seq_step a Seq_new)) \<le> 3"
  using seq_ok_demand [OF seq_ok_step [OF seq_ok_step [OF seq_ok_new]]] by simp

lemma demand3:
  "cost_ok a \<Longrightarrow> cost_ok b \<Longrightarrow> cost_ok c \<Longrightarrow> 0 \<le> seq_demand (seq_step c (seq_step b (seq_step a Seq_new))) \<and>
     seq_demand (seq_step c (seq_step b (seq_step a Seq_new))) \<le> 4"
  using seq_ok_demand [OF seq_ok_step [OF seq_ok_step [OF seq_ok_step [OF seq_ok_new]]]] by simp

lemma cost_peak_range: "cost_ok c \<Longrightarrow> 0 \<le> cpeak c \<and> cpeak c \<le> 2"
  by (simp add: cost_ok_def)

lemma mov_range: "0 \<le> demand_mov_movnti i \<and> demand_mov_movnti i \<le> 3"
  using demand2 by (simp add: demand_mov_movnti_def Let_def)

lemma lea_range: "0 \<le> demand_lea i \<and> demand_lea i \<le> 4"
  using demand3 by (simp add: demand_lea_def Let_def)

lemma sse_mov_range: "0 \<le> demand_sse_mov_scalar i \<and> demand_sse_mov_scalar i \<le> 3"
  unfolding demand_sse_mov_scalar_def Let_def
  using demand1 [of "movs_write_mem_cost (operand0 i)"] demand1 [of "movs_read_xmm_cost (operand1 i)"] demand1 [of "Cost 1 0"] demand1 [of "Cost 2 0"]
    demand2 [of "movs_read_xmm_cost (operand1 i)" "Cost 2 0"] demand2 [of "movs_read_xmm_cost (operand1 i)" "Cost 1 0"]
  by (simp add: seq_demand_def Seq_new_def)

lemma movext_range: "0 \<le> demand_movzx_movsx_movsxd i \<and> demand_movzx_movsx_movsxd i \<le> 4"
  using demand3 by (simp add: demand_movzx_movsx_movsxd_def Let_def)

lemma push_pop_range: "0 \<le> demand_push_pop i \<and> demand_push_pop i \<le> 3"
  using demand2 by (simp add: demand_push_pop_def Let_def)

lemma cmov_range: "0 \<le> demand_cmovcc i \<and> demand_cmovcc i \<le> 6"
  using demand3 [of "cmov_read_cost (operand2 i)" "Cost 1 1" "Cost 0 0"] demand3 [of "cmov_read_cost (operand2 i)" "Cost 0 0" "Cost 0 0"]
    cost_peak_range [of "cmov_read_cost (operand2 i)"]
  by (simp add: demand_cmovcc_def Let_def)

lemma setcc_range: "0 \<le> demand_setcc i \<and> demand_setcc i \<le> 4"
  using demand3 by (simp add: demand_setcc_def)

lemma sse_arith_range: "0 \<le> demand_sse_arith i \<and> demand_sse_arith i \<le> 3"
  using demand2 [of "movs_read_xmm_cost (operand2 i)" "Cost 2 0"] demand2 [of "movs_read_xmm_cost (operand2 i)" "Cost 1 0"]
    demand1 [of "movs_read_xmm_cost (operand2 i)"]
  by (simp add: demand_sse_arith_def Let_def)

lemma alu_seq_range:
  fixes r m :: bool
  assumes "cost_ok a" "cost_ok b" "cost_ok c" "cost_ok d"
  defines "s2 \<equiv> seq_step b (seq_step a Seq_new)"
  defines "s3 \<equiv> if r then free_unless m (seq_step c s2) else s2"
  shows "0 \<le> seq_demand s3 \<and> seq_demand s3 \<le> 5"
    and "0 \<le> seq_demand (seq_step d (free_unless m s3)) \<and> seq_demand (seq_step d (free_unless m s3)) \<le> 5"
proof -
  have "seq_ok 2 s2" unfolding s2_def using seq_ok_step [OF seq_ok_step [OF seq_ok_new]] assms by simp
  then have s: "seq_ok 3 s3" unfolding s3_def
    using seq_ok_mono [of 2 s2 3] seq_ok_free_unless seq_ok_step [of 2 s2 c] assms by simp
  show "0 \<le> seq_demand s3 \<and> seq_demand s3 \<le> 5" using seq_ok_demand [OF s] by simp
  show "0 \<le> seq_demand (seq_step d (free_unless m s3)) \<and> seq_demand (seq_step d (free_unless m s3)) \<le> 5"
    using seq_ok_demand [OF seq_ok_step [OF seq_ok_free_unless [OF s] assms(4)]] by simp
qed

lemma cost_ok_if [simp]: "cost_ok a \<Longrightarrow> cost_ok b \<Longrightarrow> cost_ok (if x then a else b)"
  by simp

lemma seq_step_if: "(if x then seq_step a s else seq_step b s) = seq_step (if x then a else b) s"
  by simp

lemma range_if: "0 \<le> x \<and> x \<le> k \<Longrightarrow> 0 \<le> y \<and> y \<le> k \<Longrightarrow> 0 \<le> (if b then x else y) \<and> (if b then x else y) \<le> (k::int)"
  by simp

lemma demand_if:
  "0 \<le> seq_demand s \<and> seq_demand s \<le> k \<Longrightarrow> 0 \<le> seq_demand t \<and> seq_demand t \<le> k \<Longrightarrow>
   0 \<le> seq_demand (if b then s else t) \<and> seq_demand (if b then s else t) \<le> k"
  by simp

lemma rip_dst_range:
  "0 \<le> 5 + (if c then cpeak (alu_read_cost w x y) else 0) \<and> 5 + (if c then cpeak (alu_read_cost w x y) else 0) \<le> 7"
  using cost_peak_range [of "alu_read_cost w x y"] by simp

lemma range_mono: "0 \<le> x \<and> x \<le> k \<Longrightarrow> k \<le> l \<Longrightarrow> 0 \<le> x \<and> x \<le> (l::int)"
  by simp

lemma alu_binary_range: "0 \<le> demand_alu_binary i \<and> demand_alu_binary i \<le> 7"
  unfolding demand_alu_binary_def Let_def seq_step_if
  by (rule range_if, simp, rule range_if, rule rip_dst_range, rule demand_if,
      rule range_mono [OF alu_seq_range(2)], simp_all split del: if_split)
     (rule range_mono [OF alu_seq_range(1) [where d = "Cost 0 0"]], simp_all)

lemma adc_sbb_range: "0 \<le> demand_adc_sbb i \<and> demand_adc_sbb i \<le> 7"
  unfolding demand_adc_sbb_def Let_def
  by (rule range_if, rule rip_dst_range, rule range_if, rule range_mono [OF demand2], rule cost_ok_if, simp, simp, simp, simp,
      rule range_mono [OF alu_seq_range(2)], rule cost_ok_if) simp_all

lemma alu_unary_range: "0 \<le> demand_alu_unary i \<and> demand_alu_unary i \<le> 6"
proof -
  have "seq_ok 4 (seq_step d (free_unless m (if x then seq_step (Cost 1 1) (seq_step b (seq_step a Seq_new)) else seq_step b (seq_step a Seq_new))))"
    if "cost_ok a" "cost_ok b" "cost_ok d" for a b d m x
    using that seq_ok_step [of 3 _ d] seq_ok_free_unless seq_ok_mono [of 2 _ 3] seq_ok_step [of 2 _ "Cost 1 1"]
      seq_ok_step [OF seq_ok_step [OF seq_ok_new], of a b] by simp
  note u = this [THEN seq_ok_demand]
  show ?thesis unfolding demand_alu_unary_def Let_def
    by (rule range_if, simp, rule range_if, rule range_mono [OF demand3], simp, simp, simp, simp, rule range_mono [OF u]) simp_all
qed

lemma test_range: "0 \<le> demand_test i \<and> demand_test i \<le> 4"
proof -
  have p: "0 \<le> 2 + (if c then cpeak (alu_read_cost w x y) else 0) \<and> 2 + (if c then cpeak (alu_read_cost w x y) else 0) \<le> 4" for c w x y
    using cost_peak_range [of "alu_read_cost w x y"] by simp
  show ?thesis unfolding demand_test_def Let_def if_distrib [of seq_demand]
    by (rule range_if, simp, rule range_if, simp, rule range_if, rule p, rule range_if, rule range_mono [OF demand2],
        simp, simp, simp, rule range_mono [OF demand1]) simp_all
qed

lemma mul_read_range: "0 \<le> mul_read_events w b b' \<and> mul_read_events w b b' \<le> 2"
  using cost_peak_range [of "alu_read_cost w b b'"] by (simp add: mul_read_events_def)

lemma mul_range: "0 \<le> demand_mul_imul i \<and> demand_mul_imul i \<le> 10"
proof -
  have a: "0 \<le> mul_acc_read_events w b \<and> mul_acc_read_events w b \<le> 1" for w b by (simp add: mul_acc_read_events_def)
  have e: "0 \<le> x + y + z \<and> x + y + z \<le> (10::int)" if "0 \<le> x \<and> x \<le> 5" "0 \<le> y \<and> y \<le> 1" "0 \<le> z \<and> z \<le> 4" for x y z
    using that by simp
  show ?thesis unfolding demand_mul_imul_def Let_def
  proof (rule e, rule range_if)
    fix w b w' b'
    show "0 \<le> mul_acc_read_events w b + mul_read_events w' True b' \<and> mul_acc_read_events w b + mul_read_events w' True b' \<le> 5"
      using a [of w b] mul_read_range [of w' True b'] by simp
  next
    fix w b w' b'
    show "0 \<le> mul_read_events w True b + mul_read_events w' True b' + 1 \<and> mul_read_events w True b + mul_read_events w' True b' + 1 \<le> 5"
      using mul_read_range [of w True b] mul_read_range [of w' True b'] by simp
  qed simp_all
qed

lemma count_if_range: "0 \<le> count_if b \<and> count_if b \<le> 1"
  by (simp add: count_if_def)

lemma inline_ranges:
  "0 \<le> shl_imm_inline fl v \<and> shl_imm_inline fl v \<le> 3" "0 \<le> shr_imm_inline fl v \<and> shr_imm_inline fl v \<le> 3"
  "0 \<le> sar_imm_inline fl v \<and> sar_imm_inline fl v \<le> 3" "0 \<le> rol_imm_inline fl v \<and> rol_imm_inline fl v \<le> 4"
  "0 \<le> ror_imm_inline fl v b \<and> ror_imm_inline fl v b \<le> 4" "0 \<le> shl_reg_inline fl \<and> shl_reg_inline fl \<le> 2"
  "0 \<le> shr_reg_inline fl \<and> shr_reg_inline fl \<le> 2" "0 \<le> sar_reg_inline fl \<and> sar_reg_inline fl \<le> 2"
  "0 \<le> rol_reg_inline fl b \<and> rol_reg_inline fl b \<le> 4" "0 \<le> ror_reg_inline fl b \<and> ror_reg_inline fl b \<le> 3 + 2 * count_if b"
  unfolding shl_imm_inline_def shr_imm_inline_def sar_imm_inline_def rol_imm_inline_def ror_imm_inline_def
    shl_reg_inline_def shr_reg_inline_def sar_reg_inline_def rol_reg_inline_def ror_reg_inline_def Let_def count_if_def
  by (simp_all)

lemma nz_range: "0 \<le> shifts_nz_events fl w \<and> shifts_nz_events fl w \<le> count_if (osize w \<le> S16)"
  by (simp add: shifts_nz_events_def count_if_def)

lemma dup_range: "0 \<le> shifts_dup_events w \<and> shifts_dup_events w \<le> 1 - count_if (osize w \<le> S16)"
  by (auto simp: shifts_dup_events_def arch_dst_def count_if_def word_le_nat_alt)

lemma shifts_range: "0 \<le> demand_shifts i \<and> demand_shifts i \<le> 10"
proof -
  let ?b = "osize (operand0 i) \<le> S16"
  have shared: "0 \<le> shifts_read0_events w + shifts_dst_events w + shifts_write_events w \<and>
      shifts_read0_events w + shifts_dst_events w + shifts_write_events w \<le> 5" for w
    by (auto simp: shifts_read0_events_def shifts_dst_events_def shifts_write_events_def arch_dst_def add_increasing split: IROperandKind.split)
  have s: "0 \<le> x + y \<and> x + y \<le> (10::int)" if "0 \<le> x \<and> x \<le> 5" "0 \<le> y \<and> y \<le> 5" for x y using that by simp
  note n = nz_range [of "flag_liveness i" "operand0 i"] and d = dup_range [of "operand0 i"] and c = count_if_range [of ?b]
  show ?thesis unfolding demand_shifts_def Let_def
    by (rule s, rule shared, (rule range_if)+) (use n d c inline_ranges(1-4) [of "flag_liveness i" "ucast (payload (operand1 i))"]
      inline_ranges(5) [of "flag_liveness i" "ucast (payload (operand1 i))" ?b] inline_ranges(6-8) [of "flag_liveness i"]
      inline_ranges(9,10) [of "flag_liveness i" ?b] in auto)
qed

text \<open>
  (C25) The demand of an admitted instruction is a small non-negative number: never more than ten
  temporaries, so that the counts kept in eight bits cannot overflow.
\<close>

theorem gap_gpr_demand_bounds:
  assumes "gap_gpr_demand i = Some d"
  shows "0 \<le> d \<and> d \<le> 10"
proof -
  note r = mov_range [of i] lea_range [of i] sse_mov_range [of i] alu_binary_range [of i] adc_sbb_range [of i]
    movext_range [of i] push_pop_range [of i] alu_unary_range [of i] cmov_range [of i] shifts_range [of i]
    setcc_range [of i] test_range [of i] mul_range [of i] sse_arith_range [of i]
  have "0 \<le> demand_extends i \<and> demand_extends i \<le> 10" by (simp add: demand_extends_def)
  moreover have "family_demand i = Some d" using assms by (auto simp: gap_gpr_demand_def split: option.splits if_splits)
  ultimately show ?thesis unfolding family_demand_def Let_def
    using r by (auto split: if_splits)
qed

definition rip_operand :: IROperand where
  "rip_operand = sample_operand\<lparr>kind := KImmediate, osize := S16, obyte2 := S64\<rparr>"

theorem gap_gpr_demand_bounds_witness:
  "gap_gpr_demand ((sample_instr kOpcodeName_ror)\<lparr>flag_liveness := FLAG_CF, operand0 := rip_operand\<rparr>) = Some 10 \<and>
   (10 :: int) \<le> 10"
proof -
  have "gap_gpr_demand ((sample_instr kOpcodeName_ror)\<lparr>flag_liveness := FLAG_CF, operand0 := rip_operand\<rparr>) = Some 10"
    by code_simp
  then show ?thesis using gap_gpr_demand_bounds by blast
qed

section \<open>What is refused\<close>

definition refused_operand :: "IROperand \<Rightarrow> bool" where
  "refused_operand w \<longleftrightarrow> kind w = KSegmentRegister \<or>
     kind w \<in> {KMemRef, KAbsMem, KImmediate} \<and> seg_override w \<noteq> 0 \<or>
     kind w = KMemRef \<and> addr_size w \<noteq> S64 \<and> addr_size w \<noteq> S32"

definition memory_operand :: "IROperand \<Rightarrow> bool" where
  "memory_operand w \<longleftrightarrow> kind w \<in> {KMemRef, KAbsMem, KImmediate}"

definition audited_ops :: "u16 list" where
  "audited_ops = [kOpcodeName_mov, kOpcodeName_movnti, kOpcodeName_lea, kOpcodeName_movss, kOpcodeName_movsd,
     kOpcodeName_add, kOpcodeName_sub, kOpcodeName_and, kOpcodeName_or, kOpcodeName_xor, kOpcodeName_cmp,
     kOpcodeName_adc, kOpcodeName_sbb, kOpcodeName_movzx, kOpcodeName_movsx, kOpcodeName_movsxd,
     kOpcodeName_push, kOpcodeName_pop, kOpcodeName_pushd, kOpcodeName_popd, kOpcodeName_pushw, kOpcodeName_popw,
     kOpcodeName_inc, kOpcodeName_dec, kOpcodeName_neg, kOpcodeName_not, kOpcodeName_cmovcc,
     kOpcodeName_shl, kOpcodeName_shr, kOpcodeName_sar, kOpcodeName_rol, kOpcodeName_ror,
     kOpcodeName_nop, kOpcodeName_wait, kOpcodeName_cbw, kOpcodeName_cwde, kOpcodeName_cdqe,
     kOpcodeName_cwd, kOpcodeName_cdq, kOpcodeName_cqo, kOpcodeName_setcc, kOpcodeName_test,
     kOpcodeName_mul, kOpcodeName_imul] @ sse_arith_ops"

definition locked_only_ops :: "u16 list" where
  "locked_only_ops = [kOpcodeName_adc, kOpcodeName_sbb, kOpcodeName_inc, kOpcodeName_dec, kOpcodeName_neg, kOpcodeName_not]"

lemma gap_operands_iff:
  "gap_operands ws b = (if \<exists>w \<in> set ws. refused_operand w then None else Some (b \<or> (\<exists>w \<in> set ws. memory_operand w)))"
  by (induction ws arbitrary: b) (auto simp: refused_operand_def memory_operand_def split: IROperandKind.split)

lemma family_demand_None:
  "family_demand i = None \<longleftrightarrow> opcode i \<notin> set audited_ops \<or> rep_prefix i = 1 \<and> opcode i \<in> set locked_only_ops"
  unfolding family_demand_def Let_def audited_ops_def locked_only_ops_def
  by (simp split: if_splits)



section \<open>What is admitted\<close>

lemma seq_step_zero: "seq_step (Cost 0 0) Seq_new = Seq_new"
  by (simp add: seq_step_def Seq_new_def)

lemma alu_arch_seq:
  assumes "cost_ok b" "cost_ok c" "cost_ok d"
  shows "seq_ok 3 (if r then free_unless m (seq_step c (seq_step b Seq_new)) else seq_step b Seq_new)"
    and "seq_ok 3 (seq_step d (free_unless m (if r then free_unless m (seq_step c (seq_step b Seq_new)) else seq_step b Seq_new)))"
proof -
  have s: "seq_ok 2 (if r then free_unless m (seq_step c (seq_step b Seq_new)) else seq_step b Seq_new)"
    using seq_ok_step [OF seq_ok_step [OF seq_ok_new assms(1)] assms(2)] seq_ok_mono [OF seq_ok_step [OF seq_ok_new assms(1)], of 2]
    by (simp add: seq_ok_free_unless)
  then show "seq_ok 3 (if r then free_unless m (seq_step c (seq_step b Seq_new)) else seq_step b Seq_new)"
    by (rule seq_ok_mono) simp
  show "seq_ok 3 (seq_step d (free_unless m (if r then free_unless m (seq_step c (seq_step b Seq_new)) else seq_step b Seq_new)))"
    using seq_ok_step [OF seq_ok_free_unless [OF s] assms(3)] by simp
qed

lemma seq_ok_le4: "seq_ok 3 s \<Longrightarrow> seq_demand s \<le> 4"
  using seq_ok_demand by fastforce

lemma le_if: "(b \<Longrightarrow> x \<le> k) \<Longrightarrow> (\<not> b \<Longrightarrow> y \<le> k) \<Longrightarrow> (if b then x else y) \<le> (k::int)"
  by simp

lemma demand_le_if: "seq_demand s \<le> k \<Longrightarrow> seq_demand t \<le> k \<Longrightarrow> seq_demand (if b then s else t) \<le> k"
  by simp

lemma arch_dst_shape: "arch_dst w \<Longrightarrow> kind w \<noteq> KImmediate \<and> \<not> osize w \<le> S16 \<and> alloc_dst_gpr_cost w = Cost 0 0"
  by (auto simp: arch_dst_def word_le_nat_alt alloc_dst_gpr_cost_def)

lemma alu_binary_arch:
  assumes a: "arch_dst (operand0 i)"
  shows "demand_alu_binary i \<le> 4"
proof -
  have s1: "(if c then seq_step (if (kind (operand0 i) = KRegister \<and> osize (operand0 i) \<le> S16) \<and> f then Cost 1 1 else Cost 0 0) Seq_new
      else if arch_dst (operand0 i) then seq_step (Cost 0 0) Seq_new else seq_step (Cost 1 1) Seq_new) = Seq_new" for c f
    using a arch_dst_shape [OF a] by (simp add: seq_step_zero)
  show ?thesis unfolding demand_alu_binary_def Let_def s1
    by (rule le_if, simp, rule le_if, use arch_dst_shape [OF a] in simp, rule demand_le_if,
        rule seq_ok_le4 [OF alu_arch_seq(2)], simp, simp, simp, rule seq_ok_le4 [OF alu_arch_seq(1) [where d = "Cost 0 0"]]) simp_all
qed

lemma adc_sbb_arch:
  assumes a: "arch_dst (operand0 i)"
  shows "demand_adc_sbb i \<le> 4"
proof -
  have c: "(if arch_dst (operand0 i) then Cost 0 0 else Cost 1 1) = Cost 0 0" using a by simp
  show ?thesis unfolding demand_adc_sbb_def Let_def c seq_step_zero
    by (rule le_if, use arch_dst_shape [OF a] in simp, rule le_if, simp add: seq_demand_def Seq_new_def,
        rule seq_ok_le4 [OF alu_arch_seq(2)]) simp_all
qed

lemma alu_unary_arch:
  assumes a: "arch_dst (operand0 i)"
  shows "demand_alu_unary i \<le> 4"
proof -
  have u: "seq_ok 3 (seq_step d (free_unless m (if x then seq_step (Cost 1 1) (seq_step b Seq_new) else seq_step b Seq_new)))"
    if "cost_ok b" "cost_ok d" for b d m x
  proof -
    have "seq_ok 2 (if x then seq_step (Cost 1 1) (seq_step b Seq_new) else seq_step b Seq_new)"
      using seq_ok_step [OF seq_ok_step [OF seq_ok_new that(1)], of "Cost 1 1"] seq_ok_mono [OF seq_ok_step [OF seq_ok_new that(1)], of 2] by simp
    then show ?thesis using seq_ok_step [OF seq_ok_free_unless that(2), of 2] by simp
  qed
  have c: "alloc_dst_gpr_cost (operand0 i) = Cost 0 0" using arch_dst_shape [OF a] by simp
  show ?thesis unfolding demand_alu_unary_def Let_def c seq_step_zero
    by (rule le_if, use arch_dst_shape [OF a] in simp, rule le_if, rule demand3 [THEN conjunct2], simp, simp, simp,
        rule seq_ok_le4 [OF u]) simp_all
qed

definition register_dst_ops :: "u16 list" where
  "register_dst_ops = [kOpcodeName_mov, kOpcodeName_movnti, kOpcodeName_lea, kOpcodeName_movzx, kOpcodeName_movsx,
     kOpcodeName_movsxd, kOpcodeName_add, kOpcodeName_sub, kOpcodeName_and, kOpcodeName_or, kOpcodeName_xor,
     kOpcodeName_cmp, kOpcodeName_adc, kOpcodeName_sbb, kOpcodeName_inc, kOpcodeName_dec, kOpcodeName_neg, kOpcodeName_not]"



text \<open>
  The generic read cost is not an over-estimate of the audited one: a displacement that an add can
  encode but a load cannot costs a register the generic table does not count.
\<close>

lemma generic_read_underestimates:
  "let w = sample_operand\<lparr>kind := KMemRef, osize := S8, obyte2 := S64, mem_flags := 1, payload := 0x1000\<rparr>
   in cpeak (read_to_gpr_cost w True) = 0 \<and> cpeak (mov_read_cost w True) = 1"
  by code_simp

end
