(* ===== verification/A64Encode.thy ===== *)
theory A64Encode
  imports Prelude
begin

text \<open>
  The AArch64 assembler of \<open>AssemblerHelpers.cpp\<close>: one definition per emitter. An emitter gives the
  list of 32-bit words it appends to the code buffer. Arguments are the C++ integers; a sentinel of
  63 for the stack pointer is masked to register 31 like every register number.
\<close>

section \<open>Instruction fields\<close>

text \<open>\<open>(uint32_t)(x & mask) << p\<close> and \<open>(uint32_t)(x != 0) << p\<close>.\<close>

definition fld :: "nat \<Rightarrow> nat \<Rightarrow> int \<Rightarrow> u32" where
  "fld p w x = push_bit p (word_of_int (take_bit w x))"

definition nzf :: "nat \<Rightarrow> int \<Rightarrow> u32" where
  "nzf p x = fld p 1 (if x \<noteq> 0 then 1 else 0)"

abbreviation (input) XZR :: int where "XZR \<equiv> 31"
abbreviation (input) SP :: int where "SP \<equiv> 63"

section \<open>Data processing\<close>

definition emit_add_imm :: "int \<Rightarrow> int \<Rightarrow> int \<Rightarrow> int \<Rightarrow> int \<Rightarrow> int \<Rightarrow> int \<Rightarrow> u32 list" where
  "emit_add_imm is_64bit is_sub is_set_flags shift imm12 Rn Rd =
     [0x11000000 OR nzf 31 is_64bit OR nzf 30 is_sub OR nzf 29 is_set_flags OR fld 22 2 shift OR
      fld 10 12 imm12 OR fld 5 5 Rn OR fld 0 5 Rd]"

definition emit_bitfield :: "int \<Rightarrow> int \<Rightarrow> int \<Rightarrow> int \<Rightarrow> int \<Rightarrow> int \<Rightarrow> int \<Rightarrow> u32 list" where
  "emit_bitfield is_64bit opc N immr imms Rn Rd =
     [0x13000000 OR nzf 31 is_64bit OR fld 29 2 opc OR fld 22 1 N OR fld 16 6 immr OR fld 10 6 imms OR
      fld 5 5 Rn OR fld 0 5 Rd]"

definition emit_movn :: "int \<Rightarrow> int \<Rightarrow> int \<Rightarrow> int \<Rightarrow> int \<Rightarrow> u32 list" where
  "emit_movn is_64bit opc hw imm16 Rd =
     [0x12800000 OR nzf 31 is_64bit OR fld 29 2 opc OR fld 21 2 hw OR fld 5 16 imm16 OR fld 0 5 Rd]"

definition emit_add_sub_shifted_reg :: "int \<Rightarrow> int \<Rightarrow> int \<Rightarrow> int \<Rightarrow> int \<Rightarrow> int \<Rightarrow> int \<Rightarrow> int \<Rightarrow> u32 list" where
  "emit_add_sub_shifted_reg is_64bit is_sub is_set_flags shift_type Rm shift_amount Rn Rd =
     [0x0B000000 OR nzf 31 is_64bit OR nzf 30 is_sub OR nzf 29 is_set_flags OR fld 22 2 shift_type OR
      fld 16 5 Rm OR fld 10 6 shift_amount OR fld 5 5 Rn OR fld 0 5 Rd]"

definition emit_logical_shifted_reg :: "int \<Rightarrow> int \<Rightarrow> int \<Rightarrow> int \<Rightarrow> int \<Rightarrow> int \<Rightarrow> int \<Rightarrow> int \<Rightarrow> u32 list" where
  "emit_logical_shifted_reg is_64bit opc n shift_type Rm shift_amount Rn Rd =
     [0x0A000000 OR nzf 31 is_64bit OR fld 29 2 opc OR fld 22 2 shift_type OR fld 21 1 n OR
      fld 16 5 Rm OR fld 10 6 shift_amount OR fld 5 5 Rn OR fld 0 5 Rd]"

definition emit_mov_reg :: "int \<Rightarrow> int \<Rightarrow> int \<Rightarrow> u32 list" where
  "emit_mov_reg is_64bit Rd Rn =
     (if Rd = SP \<or> Rn = SP then emit_add_imm is_64bit 0 0 0 0 Rn Rd
      else emit_logical_shifted_reg is_64bit 1 0 0 Rn 0 XZR Rd)"

definition emit_lslv :: "int \<Rightarrow> int \<Rightarrow> int \<Rightarrow> int \<Rightarrow> u32 list" where
  "emit_lslv is_64bit Rm Rn Rd = [0x1AC02000 OR nzf 31 is_64bit OR fld 16 5 Rm OR fld 5 5 Rn OR fld 0 5 Rd]"

definition emit_subs_reg :: "int \<Rightarrow> int \<Rightarrow> int \<Rightarrow> int \<Rightarrow> u32 list" where
  "emit_subs_reg is_64bit Rn Rm Rd = emit_add_sub_shifted_reg is_64bit 1 1 0 Rm 0 Rn Rd"

definition emit_add_reg :: "int \<Rightarrow> int \<Rightarrow> int \<Rightarrow> int \<Rightarrow> u32 list" where
  "emit_add_reg is_64bit dst lhs rhs =
     (if dst = SP \<or> lhs = SP then
        [0x0B200000 OR nzf 31 is_64bit OR fld 16 5 rhs OR fld 13 3 (if is_64bit \<noteq> 0 then 3 else 2) OR
         fld 5 5 lhs OR fld 0 5 dst]
      else emit_add_sub_shifted_reg is_64bit 0 0 0 rhs 0 lhs dst)"

text \<open>The emitters below assert that their register arguments are not the stack pointer.\<close>

definition emit_logical_imm :: "int \<Rightarrow> int \<Rightarrow> int \<Rightarrow> int \<Rightarrow> int \<Rightarrow> int \<Rightarrow> int \<Rightarrow> u32 list option" where
  "emit_logical_imm is_64bit opc N immr imms Rn Rd =
     (if Rn = SP \<or> Rd = SP then None
      else Some [0x12000000 OR nzf 31 is_64bit OR fld 29 2 opc OR nzf 22 N OR fld 16 6 immr OR fld 10 6 imms OR
        fld 5 5 Rn OR fld 0 5 Rd])"

definition emit_and_imm :: "int \<Rightarrow> int \<Rightarrow> int \<Rightarrow> int \<Rightarrow> int \<Rightarrow> int \<Rightarrow> u32 list option" where
  "emit_and_imm is_64bit Rd N immr imms Rn =
     (if is_64bit = 1 \<or> N = 0 then emit_logical_imm is_64bit 0 N immr imms Rn Rd else None)"

definition emit_orr_imm :: "int \<Rightarrow> int \<Rightarrow> int \<Rightarrow> int \<Rightarrow> int \<Rightarrow> int \<Rightarrow> u32 list option" where
  "emit_orr_imm is_64bit Rd Rn N immr imms =
     (if is_64bit = 1 \<or> N = 0 then emit_logical_imm is_64bit 1 N immr imms Rn Rd else None)"

definition emit_adr :: "int \<Rightarrow> int \<Rightarrow> int \<Rightarrow> u32 list option" where
  "emit_adr is_adrp Rd imm =
     (if Rd = XZR then None
      else Some [(if is_adrp \<noteq> 0 then 0x90000000 else 0x10000000) OR fld 0 5 Rd OR fld 29 2 imm OR fld 5 19 (imm div 4)])"

section \<open>Loads and stores\<close>

definition effective_opc :: "int \<Rightarrow> int \<Rightarrow> int" where
  "effective_opc size1 opc = (if size1 = 4 then opc OR 2 else opc)"

definition emit_ldr_str_imm :: "int \<Rightarrow> int \<Rightarrow> int \<Rightarrow> int \<Rightarrow> int \<Rightarrow> int \<Rightarrow> u32 list" where
  "emit_ldr_str_imm size1 is_fp opc imm12 Rn Rt =
     [0x39000000 OR fld 30 2 size1 OR fld 26 1 is_fp OR fld 22 2 (effective_opc size1 opc) OR fld 10 12 imm12 OR
      fld 5 5 Rn OR fld 0 5 Rt]"

definition emit_ldr_str_reg :: "int \<Rightarrow> int \<Rightarrow> int \<Rightarrow> int \<Rightarrow> int \<Rightarrow> int \<Rightarrow> int \<Rightarrow> u32 list" where
  "emit_ldr_str_reg size1 is_fp opc Rm shift Rn Rt =
     [0x38206800 OR fld 30 2 size1 OR fld 26 1 is_fp OR fld 22 2 (effective_opc size1 opc) OR fld 16 5 Rm OR
      nzf 12 shift OR fld 5 5 Rn OR fld 0 5 Rt]"

definition emit_ldr_str_imm_ext :: "int \<Rightarrow> int \<Rightarrow> int \<Rightarrow> int \<Rightarrow> int \<Rightarrow> int \<Rightarrow> u32 list" where
  "emit_ldr_str_imm_ext data_size write_back extend_mode offset Rn Rt =
     [0x38000000 OR fld 30 2 data_size OR fld 22 2 (effective_opc data_size extend_mode) OR fld 12 9 offset OR
      fld 11 1 write_back OR fld 5 5 Rn OR fld 0 5 Rt]"

definition emit_ldr_imm :: "int \<Rightarrow> int \<Rightarrow> int \<Rightarrow> int \<Rightarrow> u32 list" where
  "emit_ldr_imm size1 Rt Rn imm12 = emit_ldr_str_imm size1 0 1 imm12 Rn Rt"

definition emit_str_imm :: "int \<Rightarrow> int \<Rightarrow> int \<Rightarrow> int \<Rightarrow> u32 list" where
  "emit_str_imm size1 Rt Rn imm12 = emit_ldr_str_imm size1 0 0 imm12 Rn Rt"

definition emit_fldr_imm :: "int \<Rightarrow> int \<Rightarrow> int \<Rightarrow> int \<Rightarrow> u32 list" where
  "emit_fldr_imm size1 Dt Rn imm12 = emit_ldr_str_imm size1 1 1 imm12 Rn Dt"

definition emit_fstr_imm :: "int \<Rightarrow> int \<Rightarrow> int \<Rightarrow> int \<Rightarrow> u32 list" where
  "emit_fstr_imm size1 Dt Rn imm12 = emit_ldr_str_imm size1 1 0 imm12 Rn Dt"

definition emit_fldur_fstur :: "int \<Rightarrow> int \<Rightarrow> int \<Rightarrow> int \<Rightarrow> int \<Rightarrow> u32 list" where
  "emit_fldur_fstur size1 is_load imm9 Rn Vt =
     [0x3C000000 OR fld 30 2 size1 OR fld 22 1 is_load OR fld 12 9 imm9 OR fld 5 5 Rn OR fld 0 5 Vt]"

definition emit_ldur_stur :: "int \<Rightarrow> int \<Rightarrow> int \<Rightarrow> int \<Rightarrow> int \<Rightarrow> u32 list" where
  "emit_ldur_stur size1 is_load imm9 Rn Rt =
     [0x38000000 OR fld 30 2 size1 OR fld 22 1 is_load OR fld 12 9 imm9 OR fld 5 5 Rn OR fld 0 5 Rt]"

definition classify_ldst_disp :: "int \<Rightarrow> nat \<Rightarrow> int" where
  "classify_ldst_disp disp size_log2 =
     (if 0 \<le> disp \<and> disp mod 2 ^ size_log2 = 0 \<and> disp div 2 ^ size_log2 \<le> 4095 then 1
      else if - 256 \<le> disp \<and> disp \<le> 255 then 2 else 0)"

definition try_emit_fp_ldst_disp :: "nat \<Rightarrow> int \<Rightarrow> int \<Rightarrow> int \<Rightarrow> int \<Rightarrow> u32 list option" where
  "try_emit_fp_ldst_disp size1 is_load Vt Rn disp =
     (let k = classify_ldst_disp disp size1 in
      if k = 1 then Some (emit_ldr_str_imm (int size1) 1 is_load (disp div 2 ^ size1) Rn Vt)
      else if k = 2 then Some (emit_fldur_fstur (int size1) is_load disp Rn Vt)
      else None)"

definition emit_fldp_fstp_d :: "int \<Rightarrow> int \<Rightarrow> int \<Rightarrow> int \<Rightarrow> int \<Rightarrow> u32 list" where
  "emit_fldp_fstp_d is_load imm7_scaled Rn Vt1 Vt2 =
     [0x6D000000 OR fld 22 1 is_load OR fld 15 7 imm7_scaled OR fld 10 5 Vt2 OR fld 5 5 Rn OR fld 0 5 Vt1]"

definition emit_fldp_fstp_s :: "int \<Rightarrow> int \<Rightarrow> int \<Rightarrow> int \<Rightarrow> int \<Rightarrow> u32 list" where
  "emit_fldp_fstp_s is_load imm7_scaled Rn Vt1 Vt2 =
     [0x2D000000 OR fld 22 1 is_load OR fld 15 7 imm7_scaled OR fld 10 5 Vt2 OR fld 5 5 Rn OR fld 0 5 Vt1]"

definition emit_fldr_reg :: "int \<Rightarrow> int \<Rightarrow> int \<Rightarrow> int \<Rightarrow> int \<Rightarrow> u32 list" where
  "emit_fldr_reg size1 Dt Rn Rm shift = emit_ldr_str_reg size1 1 1 Rm shift Rn Dt"

definition emit_fstr_reg :: "int \<Rightarrow> int \<Rightarrow> int \<Rightarrow> int \<Rightarrow> int \<Rightarrow> u32 list" where
  "emit_fstr_reg size1 Dt Rn Rm shift = emit_ldr_str_reg size1 1 0 Rm shift Rn Dt"

text \<open>Refused when the destination is narrower than the source or the stack pointer.\<close>

definition emit_ldrs :: "int \<Rightarrow> int \<Rightarrow> int \<Rightarrow> int \<Rightarrow> u32 list option" where
  "emit_ldrs is_64bit size1 dst_gpr addr_gpr =
     (if (if is_64bit = 1 then 2 else 1) < size1 \<or> dst_gpr = SP then None
      else Some (emit_ldr_str_imm size1 0 (if is_64bit = 1 then 2 else 3) 0 addr_gpr dst_gpr))"

section \<open>Floating point\<close>

definition emit_fp_dp2 :: "int \<Rightarrow> int \<Rightarrow> int \<Rightarrow> int \<Rightarrow> int \<Rightarrow> u32 list" where
  "emit_fp_dp2 type1 opc Rd Rn Rm =
     [0x1E200800 OR fld 22 2 type1 OR fld 16 5 Rm OR fld 12 4 opc OR fld 5 5 Rn OR fld 0 5 Rd]"

definition emit_fadd_f64 :: "int \<Rightarrow> int \<Rightarrow> int \<Rightarrow> u32 list" where "emit_fadd_f64 Dd Dn Dm = emit_fp_dp2 1 2 Dd Dn Dm"
definition emit_fsub_f64 :: "int \<Rightarrow> int \<Rightarrow> int \<Rightarrow> u32 list" where "emit_fsub_f64 Dd Dn Dm = emit_fp_dp2 1 3 Dd Dn Dm"
definition emit_fmul_f64 :: "int \<Rightarrow> int \<Rightarrow> int \<Rightarrow> u32 list" where "emit_fmul_f64 Dd Dn Dm = emit_fp_dp2 1 0 Dd Dn Dm"
definition emit_fnmul_f64 :: "int \<Rightarrow> int \<Rightarrow> int \<Rightarrow> u32 list" where "emit_fnmul_f64 Dd Dn Dm = emit_fp_dp2 1 8 Dd Dn Dm"
definition emit_fdiv_f64 :: "int \<Rightarrow> int \<Rightarrow> int \<Rightarrow> u32 list" where "emit_fdiv_f64 Dd Dn Dm = emit_fp_dp2 1 1 Dd Dn Dm"

definition emit_fp_dp3 :: "int \<Rightarrow> int \<Rightarrow> int \<Rightarrow> int \<Rightarrow> int \<Rightarrow> int \<Rightarrow> int \<Rightarrow> u32 list" where
  "emit_fp_dp3 type1 o1 o0 Rd Rn Rm Ra =
     [0x1F000000 OR fld 22 2 type1 OR fld 21 1 o1 OR fld 16 5 Rm OR fld 15 1 o0 OR fld 10 5 Ra OR fld 5 5 Rn OR fld 0 5 Rd]"

definition emit_fmadd_f64 :: "int \<Rightarrow> int \<Rightarrow> int \<Rightarrow> int \<Rightarrow> u32 list" where
  "emit_fmadd_f64 Dd Dn Dm Da = emit_fp_dp3 1 0 0 Dd Dn Dm Da"
definition emit_fmsub_f64 :: "int \<Rightarrow> int \<Rightarrow> int \<Rightarrow> int \<Rightarrow> u32 list" where
  "emit_fmsub_f64 Dd Dn Dm Da = emit_fp_dp3 1 0 1 Dd Dn Dm Da"
definition emit_fnmsub_f64 :: "int \<Rightarrow> int \<Rightarrow> int \<Rightarrow> int \<Rightarrow> u32 list" where
  "emit_fnmsub_f64 Dd Dn Dm Da = emit_fp_dp3 1 1 1 Dd Dn Dm Da"

definition emit_fp_dp1 :: "int \<Rightarrow> int \<Rightarrow> int \<Rightarrow> int \<Rightarrow> u32 list" where
  "emit_fp_dp1 type1 opc Rd Rn = [0x1E204000 OR fld 22 2 type1 OR fld 15 6 opc OR fld 5 5 Rn OR fld 0 5 Rd]"

definition emit_fmov_f64 :: "int \<Rightarrow> int \<Rightarrow> u32 list" where "emit_fmov_f64 Dd Dn = emit_fp_dp1 1 0 Dd Dn"
definition emit_fabs_f64 :: "int \<Rightarrow> int \<Rightarrow> u32 list" where "emit_fabs_f64 Dd Dn = emit_fp_dp1 1 1 Dd Dn"
definition emit_fneg_f64 :: "int \<Rightarrow> int \<Rightarrow> u32 list" where "emit_fneg_f64 Dd Dn = emit_fp_dp1 1 2 Dd Dn"
definition emit_fsqrt_f64 :: "int \<Rightarrow> int \<Rightarrow> u32 list" where "emit_fsqrt_f64 Dd Dn = emit_fp_dp1 1 3 Dd Dn"

definition emit_fp_cmp :: "int \<Rightarrow> int \<Rightarrow> int \<Rightarrow> u32 list" where
  "emit_fp_cmp type1 Rn Rm = [0x1E202000 OR fld 22 2 type1 OR fld 16 5 Rm OR fld 5 5 Rn]"

definition emit_fcmp_f64 :: "int \<Rightarrow> int \<Rightarrow> u32 list" where "emit_fcmp_f64 Dn Dm = emit_fp_cmp 1 Dn Dm"

definition emit_cset :: "int \<Rightarrow> int \<Rightarrow> int \<Rightarrow> u32 list" where
  "emit_cset is_64bit cond Rd = [0x1A9F07E0 OR fld 31 1 is_64bit OR fld 12 4 (cond XOR 1) OR fld 0 5 Rd]"

definition emit_fcsel_f64 :: "int \<Rightarrow> int \<Rightarrow> int \<Rightarrow> int \<Rightarrow> u32 list" where
  "emit_fcsel_f64 Dd Dn Dm cond = [0x1E600C00 OR fld 16 5 Dm OR fld 12 4 cond OR fld 5 5 Dn OR fld 0 5 Dd]"

definition emit_fcmp_zero_f64 :: "int \<Rightarrow> u32 list" where
  "emit_fcmp_zero_f64 Dn = [0x1E602008 OR fld 5 5 Dn]"

definition emit_fcvt :: "int \<Rightarrow> int \<Rightarrow> int \<Rightarrow> int \<Rightarrow> u32 list" where
  "emit_fcvt dst_type src_type Rd Rn = emit_fp_dp1 src_type (4 OR take_bit 2 dst_type) Rd Rn"

definition emit_fcvt_s_to_d :: "int \<Rightarrow> int \<Rightarrow> u32 list" where "emit_fcvt_s_to_d Dd Sn = emit_fcvt 1 0 Dd Sn"
definition emit_fcvt_d_to_s :: "int \<Rightarrow> int \<Rightarrow> u32 list" where "emit_fcvt_d_to_s Sd Dn = emit_fcvt 0 1 Sd Dn"

definition emit_fmov_gpr_fpr :: "int \<Rightarrow> int \<Rightarrow> int \<Rightarrow> u32 list" where
  "emit_fmov_gpr_fpr dir gpr fpr =
     (if dir = 0 then [0x9E670000 OR fld 5 5 gpr OR fld 0 5 fpr] else [0x9E660000 OR fld 5 5 fpr OR fld 0 5 gpr])"

definition emit_fmov_x_to_d :: "int \<Rightarrow> int \<Rightarrow> u32 list" where "emit_fmov_x_to_d Dd Xn = emit_fmov_gpr_fpr 0 Xn Dd"
definition emit_fmov_d_to_x :: "int \<Rightarrow> int \<Rightarrow> u32 list" where "emit_fmov_d_to_x Xd Dn = emit_fmov_gpr_fpr 1 Xd Dn"

definition emit_movi_d_zero :: "int \<Rightarrow> u32 list" where "emit_movi_d_zero Dd = [0x2F00E400 OR fld 0 5 Dd]"
definition emit_fmov_d_one :: "int \<Rightarrow> u32 list" where "emit_fmov_d_one Dd = [0x1E6E1000 OR fld 0 5 Dd]"

definition fmov_imm8_expand :: "u8 \<Rightarrow> u64" where
  "fmov_imm8_expand imm8 =
     (let b6 = bit imm8 6 in
      push_bit 63 (ucast (drop_bit 7 imm8)) OR push_bit 62 (if b6 then 0 else 1) OR
      (if b6 then push_bit 54 0xFF else 0) OR push_bit 48 (ucast (imm8 AND 0x3F)))"

definition f64_fmov_imm8 :: "u64 \<Rightarrow> u8 option" where
  "f64_fmov_imm8 bits1 =
     (let imm8 = ucast ((drop_bit 56 bits1 AND 0x80) OR push_bit 6 (drop_bit 54 bits1 AND 1) OR (drop_bit 48 bits1 AND 0x3F))
      in if fmov_imm8_expand imm8 \<noteq> bits1 then None else Some imm8)"

definition emit_fmov_d_imm8 :: "int \<Rightarrow> u8 \<Rightarrow> u32 list" where
  "emit_fmov_d_imm8 Dd imm8 = [0x1E601000 OR push_bit 13 (ucast imm8) OR fld 0 5 Dd]"

definition emit_scvtf :: "int \<Rightarrow> int \<Rightarrow> int \<Rightarrow> int \<Rightarrow> u32 list" where
  "emit_scvtf is_64bit_int ftype Rd Rn = [0x1E220000 OR nzf 31 is_64bit_int OR fld 22 2 ftype OR fld 5 5 Rn OR fld 0 5 Rd]"

definition emit_scvtf_x_to_d :: "int \<Rightarrow> int \<Rightarrow> u32 list" where "emit_scvtf_x_to_d Dd Xn = emit_scvtf 1 1 Dd Xn"

definition emit_scvtf_d_from_d :: "int \<Rightarrow> int \<Rightarrow> u32 list" where
  "emit_scvtf_d_from_d Dd Dn = [0x5E61D800 OR fld 5 5 Dn OR fld 0 5 Dd]"

definition emit_fcvtzs :: "int \<Rightarrow> int \<Rightarrow> int \<Rightarrow> int \<Rightarrow> u32 list" where
  "emit_fcvtzs ftype is_64bit_int Rd Rn = [0x1E380000 OR nzf 31 is_64bit_int OR fld 22 2 ftype OR fld 5 5 Rn OR fld 0 5 Rd]"

definition emit_fmov_f64_reg :: "int \<Rightarrow> int \<Rightarrow> u32 list" where
  "emit_fmov_f64_reg Dd Dn = [0x1E604000 OR fld 5 5 Dn OR fld 0 5 Dd]"

definition emit_fcvt_fp_to_int :: "int \<Rightarrow> int \<Rightarrow> int \<Rightarrow> int \<Rightarrow> int \<Rightarrow> u32 list" where
  "emit_fcvt_fp_to_int sf ftype rmode Rd Rn =
     [0x1E200000 OR nzf 31 sf OR fld 22 2 ftype OR push_bit 21 1 OR fld 19 2 rmode OR fld 5 5 Rn OR fld 0 5 Rd]"

section \<open>System registers and branches\<close>

definition emit_mrs_nzcv :: "int \<Rightarrow> u32 list" where "emit_mrs_nzcv Xd = [0xD53B4200 OR fld 0 5 Xd]"
definition emit_msr_nzcv :: "int \<Rightarrow> u32 list" where "emit_msr_nzcv Xd = [0xD51B4200 OR fld 0 5 Xd]"

definition emit_cbz :: "int \<Rightarrow> int \<Rightarrow> int \<Rightarrow> int \<Rightarrow> u32 list" where
  "emit_cbz is_64bit is_nz Rt imm19 = [0x34000000 OR nzf 31 is_64bit OR nzf 24 is_nz OR fld 5 19 imm19 OR fld 0 5 Rt]"

definition emit_tbz :: "int \<Rightarrow> int \<Rightarrow> int \<Rightarrow> int \<Rightarrow> u32 list" where
  "emit_tbz is_nz bit1 Rt imm14 =
     [0x36000000 OR nzf 24 is_nz OR fld 31 1 (bit1 div 2 ^ 5) OR fld 19 5 bit1 OR fld 5 14 imm14 OR fld 0 5 Rt]"

definition emit_b :: "int \<Rightarrow> u32 list" where "emit_b imm26 = [0x14000000 OR fld 0 26 imm26]"

definition emit_b_cond :: "int \<Rightarrow> int \<Rightarrow> u32 list" where
  "emit_b_cond cond imm19 = [0x54000000 OR fld 5 19 imm19 OR fld 0 4 cond]"

definition emit_ldr_literal_f64 :: "int \<Rightarrow> u64 \<Rightarrow> u32 list" where
  "emit_ldr_literal_f64 Dd constant =
     [0x5C000040 OR fld 0 5 Dd] @ emit_b 3 @ [ucast (constant AND 0xFFFFFFFF), ucast (drop_bit 32 constant)]"

end
