(* ===== verification/A64Sem.thy ===== *)
theory A64Sem
  imports A64Encode Fp64
begin

text \<open>
  The AArch64 instructions the translator emits, as the architecture defines them: decoding of the
  instruction word and its effect on registers, flags and little-endian memory. Registers are
  functions from numbers; the low 64 bits of a vector register are its value. Floating-point
  operations round to nearest, as the translator sets up the host. Nothing here is code of the
  program: it is the meaning of the words the program writes.
\<close>

section \<open>Instructions\<close>

datatype a64_dp =
    AddSubImm bool bool bool bool nat nat nat
  | LogicalImm bool nat bool nat nat nat nat
  | MoveWide bool nat nat nat nat
  | Bitfield bool nat nat nat nat nat
  | AddSubShifted bool bool bool nat nat nat nat nat
  | AddSubExtended bool bool bool nat nat nat nat nat
  | LogicalShifted bool nat bool nat nat nat nat nat
  | ShiftLeftVar bool nat nat nat
  | CondSelectInc bool nat nat nat nat

datatype a64_mem =
    LoadStoreImm nat bool nat nat nat nat
  | LoadStoreReg nat bool nat nat nat bool nat nat
  | LoadStoreUnscaled nat bool nat int nat nat
  | LoadStorePairFp nat bool int nat nat nat
  | LoadLiteralFp nat int nat

datatype a64_fp =
    FpDp1 nat nat nat nat
  | FpDp2 nat nat nat nat nat
  | FpDp3 nat bool bool nat nat nat nat
  | FpCompare nat nat nat nat
  | FpSelect nat nat nat nat nat
  | FpImm nat nat nat
  | FpInt bool nat nat nat nat nat
  | MoviZero nat
  | ScvtfScalar nat nat

datatype a64_br =
    ReadNzcv nat
  | WriteNzcv nat
  | CompareBranch bool bool int nat
  | TestBranch bool nat int nat
  | Branch int
  | BranchCond int nat

datatype a64_instr = DP a64_dp | MEM a64_mem | FP a64_fp | BR a64_br

section \<open>Decoding\<close>

definition ifld :: "nat \<Rightarrow> nat \<Rightarrow> u32 \<Rightarrow> nat" where
  "ifld p w x = unat (take_bit w (drop_bit p x))"

definition sifld :: "nat \<Rightarrow> nat \<Rightarrow> u32 \<Rightarrow> int" where
  "sifld p w x = signed_take_bit (w - 1) (int (ifld p w x))"

definition dec_imm :: "u32 \<Rightarrow> a64_dp option" where
  "dec_imm x =
     (let sf = bit x 31; rd = ifld 0 5 x; rn = ifld 5 5 x in
      if ifld 23 6 x = 0x22 then Some (AddSubImm sf (bit x 30) (bit x 29) (bit x 22) (ifld 10 12 x) rn rd)
      else if ifld 23 6 x = 0x24 then Some (LogicalImm sf (ifld 29 2 x) (bit x 22) (ifld 16 6 x) (ifld 10 6 x) rn rd)
      else if ifld 23 6 x = 0x25 then Some (MoveWide sf (ifld 29 2 x) (ifld 21 2 x) (ifld 5 16 x) rd)
      else if ifld 23 6 x = 0x26 \<and> bit x 22 = sf then Some (Bitfield sf (ifld 29 2 x) (ifld 16 6 x) (ifld 10 6 x) rn rd)
      else None)"

definition dec_reg :: "u32 \<Rightarrow> a64_dp option" where
  "dec_reg x =
     (let sf = bit x 31; rd = ifld 0 5 x; rn = ifld 5 5 x; rm = ifld 16 5 x in
      if ifld 24 5 x = 0x0A then Some (LogicalShifted sf (ifld 29 2 x) (bit x 21) (ifld 22 2 x) rm (ifld 10 6 x) rn rd)
      else if ifld 24 5 x = 0x0B \<and> \<not> bit x 21 then
        Some (AddSubShifted sf (bit x 30) (bit x 29) (ifld 22 2 x) rm (ifld 10 6 x) rn rd)
      else if ifld 24 5 x = 0x0B \<and> ifld 21 3 x = 1 then
        Some (AddSubExtended sf (bit x 30) (bit x 29) rm (ifld 13 3 x) (ifld 10 3 x) rn rd)
      else if ifld 21 10 x = 0x0D6 \<and> ifld 10 6 x = 8 then Some (ShiftLeftVar sf rm rn rd)
      else if ifld 21 10 x = 0x0D4 \<and> ifld 10 2 x = 1 then Some (CondSelectInc sf rm (ifld 12 4 x) rn rd)
      else None)"

definition dec_ldst :: "u32 \<Rightarrow> a64_mem option" where
  "dec_ldst x =
     (let size1 = ifld 30 2 x; v = bit x 26; opc = ifld 22 2 x; rt = ifld 0 5 x; rn = ifld 5 5 x in
      if ifld 27 3 x = 7 \<and> ifld 24 2 x = 1 then Some (LoadStoreImm size1 v opc (ifld 10 12 x) rn rt)
      else if ifld 27 3 x = 7 \<and> ifld 24 2 x = 0 \<and> bit x 21 \<and> ifld 10 2 x = 2 then
        Some (LoadStoreReg size1 v opc (ifld 16 5 x) (ifld 13 3 x) (bit x 12) rn rt)
      else if ifld 27 3 x = 7 \<and> ifld 24 2 x = 0 \<and> \<not> bit x 21 \<and> ifld 10 2 x = 0 then
        Some (LoadStoreUnscaled size1 v opc (sifld 12 9 x) rn rt)
      else if ifld 23 7 x = 0x5A then Some (LoadStorePairFp size1 (bit x 22) (sifld 15 7 x) (ifld 10 5 x) rn rt)
      else if ifld 24 6 x = 0x1C then Some (LoadLiteralFp size1 (sifld 5 19 x) rt)
      else None)"

definition dec_fp :: "u32 \<Rightarrow> a64_fp option" where
  "dec_fp x =
     (let ty = ifld 22 2 x; rd = ifld 0 5 x; rn = ifld 5 5 x; rm = ifld 16 5 x in
      if ifld 24 8 x = 0x1F then Some (FpDp3 ty (bit x 21) (bit x 15) rm (ifld 10 5 x) rn rd)
      else if ifld 24 7 x = 0x1E \<and> bit x 21 then
        (if ifld 10 6 x = 0 then Some (FpInt (bit x 31) ty (ifld 19 2 x) (ifld 16 3 x) rn rd)
         else if bit x 31 then None
         else if ifld 10 2 x = 2 then Some (FpDp2 ty (ifld 12 4 x) rm rn rd)
         else if ifld 10 2 x = 3 then Some (FpSelect ty rm (ifld 12 4 x) rn rd)
         else if ifld 10 6 x = 8 then Some (FpCompare ty rm (ifld 0 5 x) rn)
         else if ifld 10 5 x = 0x10 then Some (FpDp1 ty (ifld 15 6 x) rn rd)
         else if ifld 10 3 x = 4 \<and> rn = 0 then Some (FpImm ty (ifld 13 8 x) rd)
         else None)
      else if ifld 10 22 x = 0x179876 then Some (ScvtfScalar rn rd)
      else if ifld 5 27 x = 0x1780720 then Some (MoviZero rd)
      else None)"

definition dec_branch :: "u32 \<Rightarrow> a64_br option" where
  "dec_branch x =
     (let rt = ifld 0 5 x in
      if ifld 26 6 x = 5 then Some (Branch (sifld 0 26 x))
      else if ifld 24 8 x = 0x54 \<and> \<not> bit x 4 then Some (BranchCond (sifld 5 19 x) (ifld 0 4 x))
      else if ifld 25 6 x = 0x1A then Some (CompareBranch (bit x 31) (bit x 24) (sifld 5 19 x) rt)
      else if ifld 25 6 x = 0x1B then Some (TestBranch (bit x 24) (ifld 31 1 x * 32 + ifld 19 5 x) (sifld 5 14 x) rt)
      else if ifld 5 27 x = 0x6A9DA10 then Some (ReadNzcv rt)
      else if ifld 5 27 x = 0x6A8DA10 then Some (WriteNzcv rt)
      else None)"

definition decode :: "u32 \<Rightarrow> a64_instr option" where
  "decode x =
     (if ifld 26 3 x = 4 then map_option DP (dec_imm x)
      else if ifld 26 3 x = 5 then map_option BR (dec_branch x)
      else if ifld 25 3 x = 5 then map_option DP (dec_reg x)
      else if ifld 25 3 x = 7 then map_option FP (dec_fp x)
      else if bit x 27 \<and> \<not> bit x 25 then map_option MEM (dec_ldst x)
      else None)"

end
