(* ===== verification/A64Decode.thy ===== *)
theory A64Decode
  imports A64Sem
begin

text \<open>
  Every emitter writes the encoding of the instruction it is named after: decoding its word gives
  that instruction with the arguments, each at the width of its field.
\<close>

section \<open>Fields of an instruction word\<close>

text \<open>An argument at the width of its field.\<close>

definition lo :: "nat \<Rightarrow> int \<Rightarrow> nat" where
  "lo w x = nat (take_bit w x)"

lemma ifld_or: "ifld p w (a OR b) = (ifld p w a OR ifld p w b)"
  by (simp add: ifld_def unsigned_or_eq)

lemma bit_fld: "bit (fld q v x) i \<longleftrightarrow> q \<le> i \<and> i < q + v \<and> i < 32 \<and> bit x (i - q)"
  by (auto simp: fld_def bit_push_bit_iff bit_word_of_int_iff bit_take_bit_iff)

lemma bit_ifld: "bit (ifld p w a) i \<longleftrightarrow> i < w \<and> bit a (p + i)"
  by (auto simp: ifld_def bit_unsigned_iff bit_take_bit_iff bit_drop_bit_eq dest: bit_imp_le_length)

lemma ifld_fld_out: "q + v \<le> p \<or> p + w \<le> q \<Longrightarrow> ifld p w (fld q v x) = 0"
  by (rule bit_eqI) (auto simp: bit_ifld bit_fld)

lemma ifld_fld_in:
  "p \<le> q \<Longrightarrow> q + v \<le> p + w \<Longrightarrow> q + v \<le> 32 \<Longrightarrow> ifld p w (fld q v x) = push_bit (q - p) (lo v x)"
  by (rule bit_eqI) (auto simp: lo_def bit_ifld bit_fld bit_push_bit_iff bit_nat_iff bit_take_bit_iff add.commute)

lemma lo_int [simp]: "r < 2 ^ v \<Longrightarrow> lo v (int r) = r"
  by (simp add: lo_def take_bit_int_eq_self)

lemma lo_small: "0 \<le> x \<Longrightarrow> x < 2 ^ v \<Longrightarrow> lo v x = nat x"
  by (simp add: lo_def take_bit_int_eq_self)

lemma lo_num [simp]: "lo v 0 = 0" "0 < v \<Longrightarrow> lo v 1 = 1" "lo v (numeral k) = nat (take_bit v (numeral k))"
  by (simp_all add: lo_def)

lemma signed_lo: "k < w \<Longrightarrow> signed_take_bit k (int (lo w x)) = signed_take_bit k x"
  by (rule bit_eqI) (auto simp: lo_def bit_signed_take_bit_iff bit_take_bit_iff min_def)

lemma ifld_fld_hi:
  "p \<le> q \<Longrightarrow> q < p + w \<Longrightarrow> p + w < q + v \<Longrightarrow> p + w \<le> 32 \<Longrightarrow> ifld p w (fld q v x) = push_bit (q - p) (lo (p + w - q) x)"
  by (rule bit_eqI) (auto simp: lo_def bit_ifld bit_fld bit_push_bit_iff bit_nat_iff bit_take_bit_iff add.commute)

lemma lo_six: "lo 6 b = (if odd (b div 32) then 32 else 0) + lo 5 b"
proof -
  have "b mod 64 = 32 * (b div 32 mod 2) + b mod 32" using zmod_zmult2_eq [of 2 b 32] by simp
  then show ?thesis by (simp add: lo_def take_bit_eq_mod nat_add_distrib mod2_eq_if)
qed

lemma or_pos: "0 < (numeral k OR n :: nat)"
  by (simp add: zero_less_iff_neq_zero or_eq_0_iff del: neq0_conv)

lemma lo_bit: "lo (Suc 0) x = (if odd x then 1 else 0)"
  by (simp add: lo_def take_bit_eq_mod mod2_eq_if)

lemma bit_nzf: "bit (nzf q x) i \<longleftrightarrow> i = q \<and> i < 32 \<and> x \<noteq> 0"
  by (auto simp: nzf_def bit_fld)

lemma ifld_nzf: "ifld p w (nzf q x) = (if p \<le> q \<and> q < p + w \<and> q < 32 \<and> x \<noteq> 0 then 2 ^ (q - p) else 0)"
  by (rule bit_eqI) (auto simp: bit_ifld bit_nzf bit_exp_iff)

lemma ifld_num: "ifld p w (numeral n) = unat (take_bit w (drop_bit p (numeral n :: u32)))"
  by (simp add: ifld_def)

lemma fld_num: "fld p v 0 = 0" "0 < v \<Longrightarrow> fld p v 1 = push_bit p 1"
  "fld p v (numeral n) = push_bit p (word_of_int (take_bit v (numeral n)))" "nzf p 0 = 0" "nzf p 1 = push_bit p 1"
  by (simp_all add: fld_def nzf_def)

lemma ifld_zero: "ifld p w 0 = 0"
  by (simp add: ifld_def)

lemma ifld_push_one: "ifld p w (push_bit q 1) = (if p \<le> q \<and> q < p + w \<and> q < 32 then 2 ^ (q - p) else 0)"
  by (rule bit_eqI) (auto simp: bit_ifld bit_push_bit_iff bit_exp_iff)

lemmas word_fields = ifld_or ifld_fld_out ifld_fld_in bit_fld bit_nzf ifld_nzf ifld_num fld_num ifld_zero ifld_push_one
  ifld_fld_hi or_pos lo_bit bit_0 bit_or_iff bit_push_bit_iff

lemmas decoders = decode_def dec_imm_def dec_reg_def dec_ldst_def dec_fp_def dec_branch_def Let_def sifld_def

section \<open>Round trips\<close>

lemma dec_add_imm:
  "map decode (emit_add_imm sf sub1 setf 0 imm Rn Rd) = [Some (DP (AddSubImm (sf \<noteq> 0) (sub1 \<noteq> 0) (setf \<noteq> 0) False (lo 12 imm) (lo 5 Rn) (lo 5 Rd)))]"
  by (simp add: emit_add_imm_def decoders word_fields)

lemma dec_add_imm_shifted:
  "map decode (emit_add_imm sf sub1 setf 1 imm Rn Rd) = [Some (DP (AddSubImm (sf \<noteq> 0) (sub1 \<noteq> 0) (setf \<noteq> 0) True (lo 12 imm) (lo 5 Rn) (lo 5 Rd)))]"
  by (simp add: emit_add_imm_def decoders word_fields)

lemma dec_bitfield:
  "odd N = (sf \<noteq> 0) \<Longrightarrow> map decode (emit_bitfield sf opc N immr imms Rn Rd) = [Some (DP (Bitfield (sf \<noteq> 0) (lo 2 opc) (lo 6 immr) (lo 6 imms) (lo 5 Rn) (lo 5 Rd)))]"
  by (simp add: emit_bitfield_def decoders word_fields)

lemma dec_movn:
  "map decode (emit_movn sf opc hw imm Rd) = [Some (DP (MoveWide (sf \<noteq> 0) (lo 2 opc) (lo 2 hw) (lo 16 imm) (lo 5 Rd)))]"
  by (simp add: emit_movn_def decoders word_fields)

lemma dec_add_sub_shifted:
  "map decode (emit_add_sub_shifted_reg sf sub1 setf ty Rm n Rn Rd) = [Some (DP (AddSubShifted (sf \<noteq> 0) (sub1 \<noteq> 0) (setf \<noteq> 0) (lo 2 ty) (lo 5 Rm) (lo 6 n) (lo 5 Rn) (lo 5 Rd)))]"
  by (simp add: emit_add_sub_shifted_reg_def decoders word_fields)

lemma dec_logical_shifted:
  "map decode (emit_logical_shifted_reg sf opc ng ty Rm n Rn Rd) = [Some (DP (LogicalShifted (sf \<noteq> 0) (lo 2 opc) (odd ng) (lo 2 ty) (lo 5 Rm) (lo 6 n) (lo 5 Rn) (lo 5 Rd)))]"
  by (simp add: emit_logical_shifted_reg_def decoders word_fields)

lemma dec_lslv:
  "map decode (emit_lslv sf Rm Rn Rd) = [Some (DP (ShiftLeftVar (sf \<noteq> 0) (lo 5 Rm) (lo 5 Rn) (lo 5 Rd)))]"
  by (simp add: emit_lslv_def decoders word_fields)

lemma dec_mov_reg:
  "map decode (emit_mov_reg sf Rd Rn) =
     [Some (DP (if Rd = SP \<or> Rn = SP then AddSubImm (sf \<noteq> 0) False False False 0 (lo 5 Rn) (lo 5 Rd)
       else LogicalShifted (sf \<noteq> 0) 1 False 0 (lo 5 Rn) 0 31 (lo 5 Rd)))]"
  by (simp add: emit_mov_reg_def dec_add_imm dec_logical_shifted)

lemma dec_add_reg:
  "map decode (emit_add_reg sf Rd Rn Rm) =
     [Some (DP (if Rd = SP \<or> Rn = SP then AddSubExtended (sf \<noteq> 0) False False (lo 5 Rm) (if sf \<noteq> 0 then 3 else 2) 0 (lo 5 Rn) (lo 5 Rd)
       else AddSubShifted (sf \<noteq> 0) False False 0 (lo 5 Rm) 0 (lo 5 Rn) (lo 5 Rd)))]"
  by (simp add: emit_add_reg_def dec_add_sub_shifted decoders word_fields)

lemma dec_logical_imm:
  "Rn \<noteq> SP \<Longrightarrow> Rd \<noteq> SP \<Longrightarrow> map_option (map decode) (emit_logical_imm sf opc N immr imms Rn Rd) =
     Some [Some (DP (LogicalImm (sf \<noteq> 0) (lo 2 opc) (N \<noteq> 0) (lo 6 immr) (lo 6 imms) (lo 5 Rn) (lo 5 Rd)))]"
  by (simp add: emit_logical_imm_def decoders word_fields)

lemma dec_cset:
  "map decode (emit_cset sf c Rd) = [Some (DP (CondSelectInc (odd sf) 31 (lo 4 (c XOR 1)) 31 (lo 5 Rd)))]"
  by (simp add: emit_cset_def decoders word_fields)

lemma dec_ldr_str_imm:
  "map decode (emit_ldr_str_imm size1 fp opc imm Rn Rt) = [Some (MEM (LoadStoreImm (lo 2 size1) (odd fp) (lo 2 (effective_opc size1 opc)) (lo 12 imm) (lo 5 Rn) (lo 5 Rt)))]"
  by (simp add: emit_ldr_str_imm_def decoders word_fields)

lemma dec_ldr_str_reg:
  "map decode (emit_ldr_str_reg size1 fp opc Rm sh Rn Rt) = [Some (MEM (LoadStoreReg (lo 2 size1) (odd fp) (lo 2 (effective_opc size1 opc)) (lo 5 Rm) 3 (sh \<noteq> 0) (lo 5 Rn) (lo 5 Rt)))]"
  by (simp add: emit_ldr_str_reg_def decoders word_fields)

lemma dec_fldur_fstur:
  "map decode (emit_fldur_fstur size1 ld imm Rn Rt) = [Some (MEM (LoadStoreUnscaled (lo 2 size1) True (lo 1 ld) (signed_take_bit 8 imm) (lo 5 Rn) (lo 5 Rt)))]"
  by (simp add: emit_fldur_fstur_def decoders word_fields signed_lo lo_six)

lemma dec_ldur_stur:
  "map decode (emit_ldur_stur size1 ld imm Rn Rt) = [Some (MEM (LoadStoreUnscaled (lo 2 size1) False (lo 1 ld) (signed_take_bit 8 imm) (lo 5 Rn) (lo 5 Rt)))]"
  by (simp add: emit_ldur_stur_def decoders word_fields signed_lo lo_six)

lemma dec_fldp_d:
  "map decode (emit_fldp_fstp_d ld imm Rn Rt Rt2) = [Some (MEM (LoadStorePairFp 1 (odd ld) (signed_take_bit 6 imm) (lo 5 Rt2) (lo 5 Rn) (lo 5 Rt)))]"
  by (simp add: emit_fldp_fstp_d_def decoders word_fields signed_lo lo_six)

lemma dec_fldp_s:
  "map decode (emit_fldp_fstp_s ld imm Rn Rt Rt2) = [Some (MEM (LoadStorePairFp 0 (odd ld) (signed_take_bit 6 imm) (lo 5 Rt2) (lo 5 Rn) (lo 5 Rt)))]"
  by (simp add: emit_fldp_fstp_s_def decoders word_fields signed_lo lo_six)

lemma dec_fp_dp1:
  "map decode (emit_fp_dp1 ty opc Rd Rn) = [Some (FP (FpDp1 (lo 2 ty) (lo 6 opc) (lo 5 Rn) (lo 5 Rd)))]"
  by (simp add: emit_fp_dp1_def decoders word_fields)

lemma dec_fp_dp2:
  "map decode (emit_fp_dp2 ty opc Rd Rn Rm) = [Some (FP (FpDp2 (lo 2 ty) (lo 4 opc) (lo 5 Rm) (lo 5 Rn) (lo 5 Rd)))]"
  by (simp add: emit_fp_dp2_def decoders word_fields)

lemma dec_fp_dp3:
  "map decode (emit_fp_dp3 ty o1 o0 Rd Rn Rm Ra) = [Some (FP (FpDp3 (lo 2 ty) (odd o1) (odd o0) (lo 5 Rm) (lo 5 Ra) (lo 5 Rn) (lo 5 Rd)))]"
  by (simp add: emit_fp_dp3_def decoders word_fields)

lemma dec_fp_cmp:
  "map decode (emit_fp_cmp ty Rn Rm) = [Some (FP (FpCompare (lo 2 ty) (lo 5 Rm) 0 (lo 5 Rn)))]"
  by (simp add: emit_fp_cmp_def decoders word_fields)

lemma dec_fcmp_zero:
  "map decode (emit_fcmp_zero_f64 Dn) = [Some (FP (FpCompare 1 0 8 (lo 5 Dn)))]"
  by (simp add: emit_fcmp_zero_f64_def decoders word_fields)

lemma dec_fcsel:
  "map decode (emit_fcsel_f64 Dd Dn Dm c) = [Some (FP (FpSelect 1 (lo 5 Dm) (lo 4 c) (lo 5 Dn) (lo 5 Dd)))]"
  by (simp add: emit_fcsel_f64_def decoders word_fields)

lemma dec_fmov_gpr_fpr:
  "map decode (emit_fmov_gpr_fpr dir gpr fpr) =
     [Some (FP (if dir = 0 then FpInt True 1 0 7 (lo 5 gpr) (lo 5 fpr) else FpInt True 1 0 6 (lo 5 fpr) (lo 5 gpr)))]"
  by (simp add: emit_fmov_gpr_fpr_def decoders word_fields)

lemma dec_movi_zero:
  "map decode (emit_movi_d_zero Dd) = [Some (FP (MoviZero (lo 5 Dd)))]"
  by (simp add: emit_movi_d_zero_def decoders word_fields)

lemma dec_fmov_one:
  "map decode (emit_fmov_d_one Dd) = [Some (FP (FpImm 1 0x70 (lo 5 Dd)))]"
  by (simp add: emit_fmov_d_one_def decoders word_fields)

lemma dec_scvtf:
  "map decode (emit_scvtf sf ty Rd Rn) = [Some (FP (FpInt (sf \<noteq> 0) (lo 2 ty) 0 2 (lo 5 Rn) (lo 5 Rd)))]"
  by (simp add: emit_scvtf_def decoders word_fields)

lemma dec_scvtf_scalar:
  "map decode (emit_scvtf_d_from_d Dd Dn) = [Some (FP (ScvtfScalar (lo 5 Dn) (lo 5 Dd)))]"
  by (simp add: emit_scvtf_d_from_d_def decoders word_fields)

lemma dec_fcvtzs:
  "map decode (emit_fcvtzs ty sf Rd Rn) = [Some (FP (FpInt (sf \<noteq> 0) (lo 2 ty) 3 0 (lo 5 Rn) (lo 5 Rd)))]"
  by (simp add: emit_fcvtzs_def decoders word_fields)

lemma dec_fmov_reg:
  "map decode (emit_fmov_f64_reg Dd Dn) = [Some (FP (FpDp1 1 0 (lo 5 Dn) (lo 5 Dd)))]"
  by (simp add: emit_fmov_f64_reg_def decoders word_fields)

lemma dec_fcvt_int:
  "map decode (emit_fcvt_fp_to_int sf ty rmode Rd Rn) = [Some (FP (FpInt (sf \<noteq> 0) (lo 2 ty) (lo 2 rmode) 0 (lo 5 Rn) (lo 5 Rd)))]"
  by (simp add: emit_fcvt_fp_to_int_def decoders word_fields)

lemma dec_mrs:
  "map decode (emit_mrs_nzcv Xd) = [Some (BR (ReadNzcv (lo 5 Xd)))]"
  by (simp add: emit_mrs_nzcv_def decoders word_fields)

lemma dec_msr:
  "map decode (emit_msr_nzcv Xd) = [Some (BR (WriteNzcv (lo 5 Xd)))]"
  by (simp add: emit_msr_nzcv_def decoders word_fields)

lemma dec_cbz:
  "map decode (emit_cbz sf nz Rt off) = [Some (BR (CompareBranch (sf \<noteq> 0) (nz \<noteq> 0) (signed_take_bit 18 off) (lo 5 Rt)))]"
  by (simp add: emit_cbz_def decoders word_fields signed_lo lo_six)

lemma dec_tbz:
  "map decode (emit_tbz nz b Rt off) = [Some (BR (TestBranch (nz \<noteq> 0) (lo 6 b) (signed_take_bit 13 off) (lo 5 Rt)))]"
  by (simp add: emit_tbz_def decoders word_fields signed_lo lo_six)

lemma dec_b:
  "map decode (emit_b off) = [Some (BR (Branch (signed_take_bit 25 off)))]"
  by (simp add: emit_b_def decoders word_fields signed_lo)

lemma dec_b_cond:
  "map decode (emit_b_cond c off) = [Some (BR (BranchCond (signed_take_bit 18 off) (lo 4 c)))]"
  by (simp add: emit_b_cond_def decoders word_fields signed_lo)

end
