(* ===== verification/A64Exec.thy ===== *)
theory A64Exec
  imports A64Sem
begin

text \<open>
  Execution of decoded AArch64 instructions: registers, flags, little-endian memory and branches
  inside a block of code. Like the decoder this is the architecture's side of the contract. Only
  what the translator emits is given a meaning; any other instruction stops the machine.
\<close>

section \<open>Memory\<close>

type_synonym mem = "u64 \<Rightarrow> u8"

fun ldn :: "nat \<Rightarrow> mem \<Rightarrow> u64 \<Rightarrow> u64" where
  "ldn 0 M a = 0"
| "ldn (Suc n) M a = ucast (M a) OR push_bit 8 (ldn n M (a + 1))"

fun stn :: "nat \<Rightarrow> mem \<Rightarrow> u64 \<Rightarrow> u64 \<Rightarrow> mem" where
  "stn 0 M a v = M"
| "stn (Suc n) M a v = (stn n M (a + 1) (drop_bit 8 v))(a := ucast v)"

section \<open>The machine\<close>

record a64 =
  xreg :: "nat \<Rightarrow> u64"
  vreg :: "nat \<Rightarrow> u64"
  asp :: u64
  flagN :: bool
  flagZ :: bool
  flagC :: bool
  flagV :: bool
  amem :: mem

definition width :: "bool \<Rightarrow> nat" where "width sf = (if sf then 64 else 32)"

text \<open>Register 31 reads as zero, except where the architecture names the stack pointer.\<close>

definition rdx :: "bool \<Rightarrow> a64 \<Rightarrow> nat \<Rightarrow> u64" where
  "rdx sf m r = take_bit (width sf) (if r = 31 then 0 else xreg m r)"

definition rdsp :: "bool \<Rightarrow> a64 \<Rightarrow> nat \<Rightarrow> u64" where
  "rdsp sf m r = take_bit (width sf) (if r = 31 then asp m else xreg m r)"

definition wrx :: "bool \<Rightarrow> nat \<Rightarrow> u64 \<Rightarrow> a64 \<Rightarrow> a64" where
  "wrx sf r v m = (if r = 31 then m else m\<lparr>xreg := (xreg m)(r := take_bit (width sf) v)\<rparr>)"

definition wrsp :: "bool \<Rightarrow> nat \<Rightarrow> u64 \<Rightarrow> a64 \<Rightarrow> a64" where
  "wrsp sf r v m = (if r = 31 then m\<lparr>asp := take_bit (width sf) v\<rparr>
                    else m\<lparr>xreg := (xreg m)(r := take_bit (width sf) v)\<rparr>)"

definition wrv :: "nat \<Rightarrow> u64 \<Rightarrow> a64 \<Rightarrow> a64" where
  "wrv r v m = m\<lparr>vreg := (vreg m)(r := v)\<rparr>"

definition set_nzcv :: "bool \<Rightarrow> bool \<Rightarrow> bool \<Rightarrow> bool \<Rightarrow> a64 \<Rightarrow> a64" where
  "set_nzcv n z c v m = m\<lparr>flagN := n, flagZ := z, flagC := c, flagV := v\<rparr>"

definition cond_holds :: "nat \<Rightarrow> a64 \<Rightarrow> bool" where
  "cond_holds c m =
     (let b = (case c div 2 of
          0 \<Rightarrow> flagZ m
        | Suc 0 \<Rightarrow> flagC m
        | Suc (Suc 0) \<Rightarrow> flagN m
        | Suc (Suc (Suc 0)) \<Rightarrow> flagV m
        | _ \<Rightarrow> (if c div 2 = 4 then flagC m \<and> \<not> flagZ m
               else if c div 2 = 5 then flagN m = flagV m
               else if c div 2 = 6 then flagN m = flagV m \<and> \<not> flagZ m
               else True))
      in if odd c \<and> c \<noteq> 15 then \<not> b else b)"

section \<open>Integer instructions\<close>

definition sgn_val :: "bool \<Rightarrow> u64 \<Rightarrow> int" where
  "sgn_val sf v = signed_take_bit (width sf - 1) (uint v)"

text \<open>\<open>AddWithCarry\<close>: the sum, and the machine with its flags.\<close>

definition adc_sum :: "u64 \<Rightarrow> u64 \<Rightarrow> bool \<Rightarrow> u64" where
  "adc_sum x y c = x + y + (if c then 1 else 0)"

definition adc_flags :: "bool \<Rightarrow> u64 \<Rightarrow> u64 \<Rightarrow> bool \<Rightarrow> a64 \<Rightarrow> a64" where
  "adc_flags sf x y c m =
     (let r = take_bit (width sf) (adc_sum x y c); k = (if c then 1 else 0 :: int) in
      set_nzcv (bit r (width sf - 1)) (r = 0) (2 ^ width sf \<le> uint x + uint y + k)
        (sgn_val sf r \<noteq> sgn_val sf x + sgn_val sf y + k) m)"

definition add_sub :: "bool \<Rightarrow> bool \<Rightarrow> bool \<Rightarrow> u64 \<Rightarrow> u64 \<Rightarrow> (u64 \<Rightarrow> a64 \<Rightarrow> a64) \<Rightarrow> a64 \<Rightarrow> a64" where
  "add_sub sf sub1 setf x y wr m =
     (let y1 = (if sub1 then take_bit (width sf) (NOT y) else y) in
      wr (adc_sum x y1 sub1) (if setf then adc_flags sf x y1 sub1 m else m))"

definition shift_reg :: "bool \<Rightarrow> nat \<Rightarrow> nat \<Rightarrow> u64 \<Rightarrow> u64" where
  "shift_reg sf ty n v =
     (if ty = 0 then push_bit n v
      else if ty = 1 then drop_bit n v
      else if ty = 2 then word_of_int (drop_bit n (sgn_val sf v))
      else drop_bit n v OR push_bit (width sf - n) v)"

definition extend_reg :: "nat \<Rightarrow> u64 \<Rightarrow> u64" where
  "extend_reg opt v =
     (let b = 8 * 2 ^ (opt mod 4) in if opt < 4 then take_bit b v else word_of_int (signed_take_bit (b - 1) (uint v)))"

definition logical_op :: "nat \<Rightarrow> u64 \<Rightarrow> u64 \<Rightarrow> u64" where
  "logical_op opc x y = (if opc = 1 then x OR y else if opc = 2 then x XOR y else x AND y)"

definition logical :: "bool \<Rightarrow> nat \<Rightarrow> u64 \<Rightarrow> u64 \<Rightarrow> (u64 \<Rightarrow> a64 \<Rightarrow> a64) \<Rightarrow> a64 \<Rightarrow> a64" where
  "logical sf opc x y wr m =
     (let r = take_bit (width sf) (logical_op opc x y) in
      wr r (if opc = 3 then set_nzcv (bit r (width sf - 1)) (r = 0) False False m else m))"

text \<open>\<open>DecodeBitMasks\<close> for logical immediates: a run of \<open>S + 1\<close> ones rotated right by \<open>R\<close>, repeated.\<close>

fun replicate_elem :: "nat \<Rightarrow> nat \<Rightarrow> u64 \<Rightarrow> u64" where
  "replicate_elem 0 e v = 0"
| "replicate_elem (Suc n) e v = v OR push_bit e (replicate_elem n e v)"

definition elem_log2 :: "bool \<Rightarrow> nat \<Rightarrow> nat" where
  "elem_log2 N imms =
     (if N then 6 else if imms < 32 then 5 else if imms < 48 then 4 else if imms < 56 then 3
      else if imms < 60 then 2 else if imms < 62 then 1 else 0)"

definition bit_mask :: "bool \<Rightarrow> bool \<Rightarrow> nat \<Rightarrow> nat \<Rightarrow> u64 option" where
  "bit_mask sf N immr imms =
     (let k = elem_log2 N imms; e = 2 ^ k; S = imms mod e; R = immr mod e; w = Bit_Operations.mask (S + 1) :: u64;
          v = take_bit e (drop_bit R w OR push_bit (e - R) w) in
      if k = 0 \<or> S = e - 1 \<or> (N \<and> \<not> sf) then None
      else Some (replicate_elem (width sf div e) e v))"

text \<open>SBFM, BFM and UBFM: a field of \<open>src\<close> moved right by \<open>R\<close> or left into the register.\<close>

definition bitfield_op :: "bool \<Rightarrow> nat \<Rightarrow> nat \<Rightarrow> nat \<Rightarrow> u64 \<Rightarrow> u64 \<Rightarrow> u64" where
  "bitfield_op sf opc R S src dst =
     (let n = (if R \<le> S then S - R + 1 else S + 1);
          p = (if R \<le> S then 0 else width sf - R);
          f = take_bit n (if R \<le> S then drop_bit R src else src) in
      if opc = 2 then push_bit p f
      else if opc = 1 then (dst AND NOT (push_bit p (Bit_Operations.mask n))) OR push_bit p f
      else push_bit p (word_of_int (signed_take_bit (n - 1) (uint f))))"

definition move_wide :: "nat \<Rightarrow> nat \<Rightarrow> u64 \<Rightarrow> u64 \<Rightarrow> u64" where
  "move_wide opc hw imm old =
     (if opc = 0 then NOT (push_bit (16 * hw) imm)
      else if opc = 2 then push_bit (16 * hw) imm
      else (old AND NOT (push_bit (16 * hw) 0xFFFF)) OR push_bit (16 * hw) imm)"

fun step_dp :: "a64_dp \<Rightarrow> a64 \<Rightarrow> a64 option" where
  "step_dp (AddSubImm sf sub1 setf sh imm rn rd) m =
     Some (add_sub sf sub1 setf (rdsp sf m rn) (of_nat (if sh then imm * 4096 else imm))
       (if setf then wrx sf rd else wrsp sf rd) m)"
| "step_dp (LogicalImm sf opc N immr imms rn rd) m =
     (case bit_mask sf N immr imms of None \<Rightarrow> None
      | Some v \<Rightarrow> Some (logical sf opc (rdx sf m rn) v (if opc = 3 then wrx sf rd else wrsp sf rd) m))"
| "step_dp (MoveWide sf opc hw imm rd) m =
     (if opc = 1 \<or> (\<not> sf \<and> 2 \<le> hw) then None
      else Some (wrx sf rd (move_wide opc hw (of_nat imm) (rdx sf m rd)) m))"
| "step_dp (Bitfield sf opc immr imms rn rd) m =
     (if opc = 3 \<or> width sf \<le> immr \<or> width sf \<le> imms then None
      else Some (wrx sf rd (bitfield_op sf opc immr imms (rdx sf m rn) (rdx sf m rd)) m))"
| "step_dp (AddSubShifted sf sub1 setf ty rm n rn rd) m =
     (if ty = 3 \<or> width sf \<le> n then None
      else Some (add_sub sf sub1 setf (rdx sf m rn) (take_bit (width sf) (shift_reg sf ty n (rdx sf m rm))) (wrx sf rd) m))"
| "step_dp (AddSubExtended sf sub1 setf rm opt n rn rd) m =
     (if 4 < n then None
      else Some (add_sub sf sub1 setf (rdsp sf m rn)
        (take_bit (width sf) (push_bit n (extend_reg opt (rdx True m rm)))) (if setf then wrx sf rd else wrsp sf rd) m))"
| "step_dp (LogicalShifted sf opc ng ty rm n rn rd) m =
     (if width sf \<le> n then None
      else let y = take_bit (width sf) (shift_reg sf ty n (rdx sf m rm)) in
        Some (logical sf opc (rdx sf m rn) (if ng then take_bit (width sf) (NOT y) else y) (wrx sf rd) m))"
| "step_dp (ShiftLeftVar sf rm rn rd) m =
     Some (wrx sf rd (push_bit (unat (rdx sf m rm) mod width sf) (rdx sf m rn)) m)"
| "step_dp (CondSelectInc sf rm c rn rd) m =
     Some (wrx sf rd (if cond_holds c m then rdx sf m rn else rdx sf m rm + 1) m)"

section \<open>Loads and stores\<close>

definition ldst :: "nat \<Rightarrow> bool \<Rightarrow> nat \<Rightarrow> u64 \<Rightarrow> nat \<Rightarrow> a64 \<Rightarrow> a64 option" where
  "ldst size1 v opc a rt m =
     (let n = 2 ^ size1; x = ldn n (amem m) a in
      if v then
        (if opc = 0 then Some (m\<lparr>amem := stn n (amem m) a (vreg m rt)\<rparr>)
         else if opc = 1 then Some (wrv rt x m) else None)
      else if opc = 0 then Some (m\<lparr>amem := stn n (amem m) a (rdx True m rt)\<rparr>)
      else if opc = 1 then Some (wrx True rt x m)
      else if size1 + (if opc = 3 then 1 else 0) < 3 then
        Some (wrx (opc = 2) rt (word_of_int (signed_take_bit (8 * n - 1) (uint x))) m)
      else None)"

fun step_mem :: "a64_mem \<Rightarrow> a64 \<Rightarrow> a64 option" where
  "step_mem (LoadStoreImm size1 v opc imm rn rt) m = ldst size1 v opc (rdsp True m rn + of_nat (imm * 2 ^ size1)) rt m"
| "step_mem (LoadStoreReg size1 v opc rm opt sh rn rt) m =
     (if opt \<in> {2, 3, 6, 7} then
        ldst size1 v opc (rdsp True m rn + push_bit (if sh then size1 else 0) (extend_reg opt (rdx True m rm))) rt m
      else None)"
| "step_mem (LoadStoreUnscaled size1 v opc off rn rt) m = ldst size1 v opc (rdsp True m rn + word_of_int off) rt m"
| "step_mem (LoadStorePairFp opc ld off rt2 rn rt) m =
     (let size1 = (if opc = 0 then 2 else 3); a = rdsp True m rn + word_of_int (off * 2 ^ size1); n = 2 ^ size1 in
      if 2 \<le> opc then None
      else Option.bind (ldst size1 True (if ld then 1 else 0) a rt m) (ldst size1 True (if ld then 1 else 0) (a + n) rt2))"
| "step_mem (LoadLiteralFp _ _ _) m = None"

section \<open>Floating point\<close>

definition vfp_expand :: "nat \<Rightarrow> u64" where
  "vfp_expand i = word_of_int (int
     (i div 128 * 2 ^ 63 + (if i div 64 mod 2 = 0 then 2 ^ 62 else 0xFF * 2 ^ 54) + i mod 64 * 2 ^ 48))"

definition fcmp_flags :: "fp64 \<Rightarrow> fp64 \<Rightarrow> a64 \<Rightarrow> a64" where
  "fcmp_flags x y m =
     (if fp_isnan x \<or> fp_isnan y then set_nzcv False False True True m
      else if fp_eq x y then set_nzcv False True True False m
      else if fp_lt x y then set_nzcv True False False False m
      else set_nzcv False False True False m)"

definition saturate :: "bool \<Rightarrow> int \<Rightarrow> int" where
  "saturate sf i = max (- (2 ^ (width sf - 1))) (min (2 ^ (width sf - 1) - 1) i)"

definition fcvt_int :: "bool \<Rightarrow> (rat \<Rightarrow> int) \<Rightarrow> fp64 \<Rightarrow> u64" where
  "fcvt_int sf f x =
     (if fp_isnan x then 0
      else if fp_isinf x then word_of_int (saturate sf (if fp_sign x then - (2 ^ 64) else 2 ^ 64))
      else word_of_int (saturate sf (f (fp_val x))))"

definition round_mode :: "nat \<Rightarrow> rat \<Rightarrow> int" where
  "round_mode rm = (if rm = 0 then rne else if rm = 1 then ceiling else if rm = 2 then floor else rat_trunc)"

definition fp1 :: "nat \<Rightarrow> nat \<Rightarrow> u64 \<Rightarrow> u64 option" where
  "fp1 ty opc x =
     (if ty = 0 then (if opc = 5 then Some (fp_widen (ucast x)) else None)
      else if ty = 1 then
        (if opc = 0 then Some x else if opc = 1 then Some (fp_abs x) else if opc = 2 then Some (fp_neg x)
         else if opc = 3 then Some (fp_sqrt x) else if opc = 4 then Some (ucast (fp_narrow x))
         else if 8 \<le> opc \<and> opc < 12 then Some (fp_rint (round_mode (opc - 8)) x) else None)
      else None)"

definition fp2 :: "nat \<Rightarrow> u64 \<Rightarrow> u64 \<Rightarrow> u64 option" where
  "fp2 opc x y =
     (if opc = 0 then Some (fp_mul x y) else if opc = 1 then Some (fp_div x y) else if opc = 2 then Some (fp_add x y)
      else if opc = 3 then Some (fp_sub x y) else if opc = 8 then Some (fp_neg (fp_mul x y)) else None)"

definition fp3 :: "bool \<Rightarrow> bool \<Rightarrow> u64 \<Rightarrow> u64 \<Rightarrow> u64 \<Rightarrow> u64" where
  "fp3 o1 o0 n k a = fp_fma (if o0 \<noteq> o1 then fp_neg n else n) k (if o1 then fp_neg a else a)"

fun step_fp :: "a64_fp \<Rightarrow> a64 \<Rightarrow> a64 option" where
  "step_fp (FpDp1 ty opc rn rd) m = map_option (\<lambda>v. wrv rd v m) (fp1 ty opc (vreg m rn))"
| "step_fp (FpDp2 ty opc rm rn rd) m =
     (if ty = 1 then map_option (\<lambda>v. wrv rd v m) (fp2 opc (vreg m rn) (vreg m rm)) else None)"
| "step_fp (FpDp3 ty o1 o0 rm ra rn rd) m =
     (if ty = 1 then Some (wrv rd (fp3 o1 o0 (vreg m rn) (vreg m rm) (vreg m ra)) m) else None)"
| "step_fp (FpCompare ty rm opc2 rn) m =
     (if ty = 1 \<and> opc2 \<in> {0, 8} then Some (fcmp_flags (vreg m rn) (if opc2 = 8 then 0 else vreg m rm) m) else None)"
| "step_fp (FpSelect ty rm c rn rd) m =
     (if ty = 1 then Some (wrv rd (if cond_holds c m then vreg m rn else vreg m rm) m) else None)"
| "step_fp (FpImm ty imm rd) m = (if ty = 1 then Some (wrv rd (vfp_expand imm) m) else None)"
| "step_fp (FpInt sf ty rmode opc rn rd) m =
     (if ty \<noteq> 1 then None
      else if opc = 0 then Some (wrx sf rd (fcvt_int sf (round_mode rmode) (vreg m rn)) m)
      else if rmode \<noteq> 0 then None
      else if opc = 2 then Some (wrv rd (fp_of_int (sgn_val sf (rdx sf m rn))) m)
      else if sf \<and> opc = 6 then Some (wrx True rd (vreg m rn) m)
      else if sf \<and> opc = 7 then Some (wrv rd (rdx True m rn) m)
      else None)"
| "step_fp (MoviZero rd) m = Some (wrv rd 0 m)"
| "step_fp (ScvtfScalar rn rd) m = Some (wrv rd (fp_of_int (sint (vreg m rn))) m)"

section \<open>Flags, branches and code\<close>

definition nzcv_word :: "a64 \<Rightarrow> u64" where
  "nzcv_word m = push_bit 31 (of_bool (flagN m)) OR push_bit 30 (of_bool (flagZ m)) OR
     push_bit 29 (of_bool (flagC m)) OR push_bit 28 (of_bool (flagV m))"

text \<open>The machine after the instruction and the distance to the next one, in instructions.\<close>

fun step_br :: "a64_br \<Rightarrow> a64 \<Rightarrow> a64 \<times> int" where
  "step_br (ReadNzcv rt) m = (wrx True rt (nzcv_word m) m, 1)"
| "step_br (WriteNzcv rt) m =
     (let v = rdx True m rt in (set_nzcv (bit v 31) (bit v 30) (bit v 29) (bit v 28) m, 1))"
| "step_br (CompareBranch sf nz off rt) m = (m, if (rdx sf m rt = 0) \<noteq> nz then off else 1)"
| "step_br (TestBranch nz b off rt) m = (m, if bit (rdx True m rt) b = nz then off else 1)"
| "step_br (Branch off) m = (m, off)"
| "step_br (BranchCond off c) m = (m, if cond_holds c m then off else 1)"

definition step :: "a64_instr \<Rightarrow> a64 \<Rightarrow> (a64 \<times> int) option" where
  "step i m = (case i of
       DP d \<Rightarrow> map_option (\<lambda>k. (k, 1)) (step_dp d m)
     | MEM d \<Rightarrow> map_option (\<lambda>k. (k, 1)) (step_mem d m)
     | FP d \<Rightarrow> map_option (\<lambda>k. (k, 1)) (step_fp d m)
     | BR d \<Rightarrow> Some (step_br d m))"

text \<open>A literal load reads the words of the code block itself.\<close>

definition step_at :: "u32 list \<Rightarrow> int \<Rightarrow> a64 \<Rightarrow> (a64 \<times> int) option" where
  "step_at ws pc m =
     (case decode (ws ! nat pc) of
        None \<Rightarrow> None
      | Some (MEM (LoadLiteralFp opc off rt)) \<Rightarrow>
          (let q = pc + off in
           if opc = 1 \<and> 0 \<le> q \<and> q + 1 < int (length ws) then
             Some (wrv rt (ucast (ws ! nat q) OR push_bit 32 (ucast (ws ! nat (q + 1)))) m, 1)
           else None)
      | Some i \<Rightarrow> step i m)"

text \<open>Run the block from instruction \<open>pc\<close> until control reaches its end.\<close>

fun run :: "nat \<Rightarrow> u32 list \<Rightarrow> int \<Rightarrow> a64 \<Rightarrow> a64 option" where
  "run 0 ws pc m = (if pc = int (length ws) then Some m else None)"
| "run (Suc n) ws pc m =
     (if pc = int (length ws) then Some m
      else if pc < 0 \<or> int (length ws) < pc then None
      else case step_at ws pc m of None \<Rightarrow> None | Some (k, d) \<Rightarrow> run n ws (pc + d) k)"

text \<open>Straight-line code, word by word.\<close>

definition step1 :: "u32 \<Rightarrow> a64 \<Rightarrow> a64 option" where
  "step1 w m = (case decode w of
       Some (DP d) \<Rightarrow> step_dp d m
     | Some (MEM d) \<Rightarrow> step_mem d m
     | Some (FP d) \<Rightarrow> step_fp d m
     | Some (BR (ReadNzcv rt)) \<Rightarrow> Some (fst (step_br (ReadNzcv rt) m))
     | Some (BR (WriteNzcv rt)) \<Rightarrow> Some (fst (step_br (WriteNzcv rt) m))
     | _ \<Rightarrow> None)"

fun exec :: "u32 list \<Rightarrow> a64 \<Rightarrow> a64 option" where
  "exec [] m = Some m"
| "exec (w # ws) m = Option.bind (step1 w m) (exec ws)"

lemma exec_append: "exec (a @ b) m = Option.bind (exec a m) (exec b)"
  by (induction a arbitrary: m) (simp_all split: Option.bind_split)

lemma step1_step_at:
  assumes "step1 w m = Some k" "0 \<le> pc" "nat pc < length ws" "ws ! nat pc = w"
  shows "step_at ws pc m = Some (k, 1)"
  using assms by (auto simp: step1_def step_at_def step_def Let_def split: option.splits a64_instr.splits a64_br.splits a64_mem.splits)

text \<open>Straight-line execution is execution: the block is entered at its first instruction and left at its end.\<close>

lemma exec_run_from:
  "exec ws m = Some k \<Longrightarrow> length ws \<le> n \<Longrightarrow> run n (pre @ ws) (int (length pre)) m = Some k"
proof (induction ws arbitrary: m n pre)
  case Nil
  then show ?case by (cases n) simp_all
next
  case (Cons w ws)
  then obtain k1 n1 where k: "step1 w m = Some k1" "exec ws k1 = Some k" and n: "n = Suc n1" "length ws \<le> n1"
    by (cases n) (auto simp: bind_eq_Some_conv)
  have "step_at (pre @ w # ws) (int (length pre)) m = Some (k1, 1)"
    by (rule step1_step_at [OF k(1)]) simp_all
  then show ?case using Cons.IH [OF k(2) n(2), of "pre @ [w]"] n by (simp add: add.commute)
qed

lemma exec_run: "exec ws m = Some k \<Longrightarrow> run (length ws) ws 0 m = Some k"
  using exec_run_from [of ws m k "length ws" "[]"] by simp

end
