(* ===== verification/A64Rules.thy ===== *)
theory A64Rules
  imports A64Decode A64Exec X87State
begin

text \<open>
  Laws for reasoning about emitted code: fields of instruction words, so that every emitter decodes
  to the instruction it is named after; little-endian loads after stores; the image of an
  \<open>X87State\<close> in memory. The named collection \<open>emit_exec\<close> holds one execution rule per emitter.
\<close>

section \<open>Memory\<close>

lemma bit_ldn: "n \<le> 8 \<Longrightarrow> bit (ldn n M a) i \<longleftrightarrow> i < 8 * n \<and> bit (M (a + of_nat (i div 8))) (i mod 8)"
proof (induction n arbitrary: a i)
  case (Suc n)
  show ?case
  proof (cases "i < 8")
    case True
    then show ?thesis by (auto simp: bit_or_iff bit_unsigned_iff bit_push_bit_iff)
  next
    case False
    then obtain j where j: "i = j + 8" by (metis add.commute le_add_diff_inverse not_less)
    then show ?thesis using Suc by (auto simp: bit_or_iff bit_unsigned_iff bit_push_bit_iff ac_simps dest: bit_imp_le_length)
  qed
qed simp

lemma stn_other: "(\<And>j. j < n \<Longrightarrow> c \<noteq> a + of_nat j) \<Longrightarrow> stn n M a v c = M c"
proof (induction n arbitrary: a v)
  case (Suc n)
  have "c \<noteq> a" using Suc.prems [of 0] by simp
  moreover have "stn n M (a + 1) (drop_bit 8 v) c = M c"
    using Suc.prems [of "Suc j" for j] by (intro Suc.IH) (simp add: ac_simps)
  ultimately show ?case by simp
qed simp

lemma of_nat_eq_small: "i < 2 ^ 64 \<Longrightarrow> j < 2 ^ 64 \<Longrightarrow> (of_nat i :: u64) = of_nat j \<longleftrightarrow> i = j"
  by (simp add: of_nat_inverse word_of_nat_eq_iff take_bit_nat_eq_self)

lemma stn_at: "j < n \<Longrightarrow> n \<le> 8 \<Longrightarrow> stn n M a v (a + of_nat j) = ucast (drop_bit (8 * j) v)"
proof (induction n arbitrary: a v j)
  case (Suc n)
  show ?case
  proof (cases j)
    case (Suc i)
    have "(of_nat (Suc i) :: u64) \<noteq> of_nat 0" using Suc Suc.prems by (subst of_nat_eq_small) auto
    then show ?thesis using Suc.IH [of i "a + 1" "drop_bit 8 v"] Suc.prems Suc by (simp add: add.assoc ac_simps)
  qed simp
qed simp

lemma ldn_stn_same: "n \<le> 8 \<Longrightarrow> ldn n (stn n M a v) a = take_bit (8 * n) v"
  by (rule bit_word_eqI) (auto simp: bit_ldn stn_at bit_take_bit_iff bit_unsigned_iff bit_drop_bit_eq)

lemma ldn_cong: "(\<And>i. i < n \<Longrightarrow> M (a + of_nat i) = L (a + of_nat i)) \<Longrightarrow> ldn n M a = ldn n L a"
proof (induction n arbitrary: a)
  case (Suc n)
  have "M a = L a" using Suc.prems [of 0] by simp
  moreover have "ldn n M (a + 1) = ldn n L (a + 1)"
    using Suc.prems [of "Suc i" for i] by (intro Suc.IH) (simp add: ac_simps)
  ultimately show ?case by simp
qed simp

lemma ldn_stn_apart:
  assumes "p + k \<le> q \<or> q + n \<le> p" "p + k \<le> 2 ^ 64" "q + n \<le> 2 ^ 64"
  shows "ldn k (stn n M (b + of_nat q) v) (b + of_nat p) = ldn k M (b + of_nat p)"
proof (rule ldn_cong, rule stn_other)
  fix i j assume "i < k" "j < n"
  then have "(of_nat (p + i) :: u64) \<noteq> of_nat (q + j)" using assms by (subst of_nat_eq_small) auto
  then show "b + of_nat p + of_nat i \<noteq> b + of_nat q + (of_nat j :: u64)" by (simp add: ac_simps)
qed

section \<open>The x87 state in memory\<close>

text \<open>
  The layout the static assertions of \<open>TranslatorX87Helpers.hpp\<close> fix: control, status and tag words
  at 0, 2 and 4, eight doubles from 8 on.
\<close>

definition x87_at :: "mem \<Rightarrow> u64 \<Rightarrow> X87State" where
  "x87_at M b = \<lparr>controlWord = ucast (ldn 2 M b), statusWord = ucast (ldn 2 M (b + 2)), tagWord = ucast (ldn 2 M (b + 4)),
     st = map (\<lambda>i. ldn 8 M (b + of_nat (8 + 8 * i))) [0..<8]\<rparr>"

lemma x87_at_wf [simp]: "wf_x87 (x87_at M b)"
  by (simp add: wf_x87_def x87_at_def)

lemma x87_at_sw: "x87_at (stn 2 M (b + 2) v) b = (x87_at M b)\<lparr>statusWord := ucast v\<rparr>"
  using ldn_stn_apart [of 0 2 2 2 M b v] ldn_stn_apart [of 4 2 2 2 M b v] ldn_stn_apart [of "8 + 8 * i" 8 2 2 M b v for i]
  by (auto simp: x87_at_def ldn_stn_same intro!: bit_word_eqI simp: bit_unsigned_iff bit_take_bit_iff)

lemma x87_at_tag: "x87_at (stn 2 M (b + 4) v) b = (x87_at M b)\<lparr>tagWord := ucast v\<rparr>"
  using ldn_stn_apart [of 0 2 4 2 M b v] ldn_stn_apart [of 2 2 4 2 M b v] ldn_stn_apart [of "8 + 8 * i" 8 4 2 M b v for i]
  by (auto simp: x87_at_def ldn_stn_same intro!: bit_word_eqI simp: bit_unsigned_iff bit_take_bit_iff)

lemma x87_at_st:
  assumes "i < 8"
  shows "x87_at (stn 8 M (b + of_nat (8 + 8 * i)) v) b = (x87_at M b)\<lparr>st := (st (x87_at M b))[i := v]\<rparr>"
proof -
  have "ldn 8 (stn 8 M (b + of_nat (8 + 8 * i)) v) (b + of_nat (8 + 8 * j)) =
      (if j = i then v else ldn 8 M (b + of_nat (8 + 8 * j)))" if "j < 8" for j
  proof (cases "j = i")
    case True
    then show ?thesis by (simp add: ldn_stn_same take_bit_word_eq_self)
  next
    case False
    then have "8 + 8 * j + 8 \<le> 8 + 8 * i \<or> 8 + 8 * i + 8 \<le> 8 + 8 * j" by arith
    then show ?thesis using False assms that by (subst ldn_stn_apart) auto
  qed
  then have l: "map (\<lambda>j. ldn 8 (stn 8 M (b + of_nat (8 + 8 * i)) v) (b + of_nat (8 + 8 * j))) [0..<8] =
      (map (\<lambda>j. ldn 8 M (b + of_nat (8 + 8 * j))) [0..<8])[i := v]"
    by (intro nth_equalityI) (auto simp: nth_list_update)
  show ?thesis
    using l assms ldn_stn_apart [of 0 2 "8 + 8 * i" 8 M b v] ldn_stn_apart [of 2 2 "8 + 8 * i" 8 M b v]
      ldn_stn_apart [of 4 2 "8 + 8 * i" 8 M b v]
    by (simp add: x87_at_def)
qed

text \<open>Bytes outside the 72 of the state.\<close>

definition outside :: "u64 \<Rightarrow> u64 \<Rightarrow> bool" where
  "outside b c \<longleftrightarrow> 72 \<le> c - b"

lemma outside_stn:
  assumes "outside b c" "q + n \<le> 72"
  shows "stn n M (b + of_nat q) v c = M c"
proof (rule stn_other)
  fix j assume "j < n"
  show "c \<noteq> b + of_nat q + of_nat j"
  proof
    assume "c = b + of_nat q + of_nat j"
    then have "c - b = of_nat (q + j)" by simp
    then have "unat (c - b) = q + j" using \<open>j < n\<close> assms(2) by (simp only: unat_of_nat) simp
    then show False using assms \<open>j < n\<close> by (simp add: outside_def word_le_nat_alt)
  qed
qed

section \<open>Executing emitted code\<close>

text \<open>An emitter that may fail an assertion gives no code.\<close>

definition execo :: "u32 list option \<Rightarrow> a64 \<Rightarrow> a64 option" where
  "execo c m = Option.bind c (\<lambda>ws. exec ws m)"

fun eseq :: "u32 list option list \<Rightarrow> u32 list option" where
  "eseq [] = Some []"
| "eseq (c # cs) = Option.bind c (\<lambda>a. map_option ((@) a) (eseq cs))"

declare eseq.simps [simp del]

lemma execo_Some: "execo (Some ws) m = exec ws m"
  by (simp add: execo_def)

lemma execo_eseq: "execo (eseq []) m = Some m" "execo (eseq (c # cs)) m = Option.bind (execo c m) (execo (eseq cs))"
  by (auto simp: execo_def exec_append eseq.simps split: Option.bind_split)

lemma eseq_append: "execo (eseq (a @ b)) m = Option.bind (execo (eseq a) m) (execo (eseq b))"
  by (induction a arbitrary: m) (auto simp: execo_eseq split: Option.bind_split)

text \<open>The 32-bit view of a register.\<close>

definition wv :: "a64 \<Rightarrow> nat \<Rightarrow> u32" where
  "wv m r = ucast (xreg m r)"

definition setx :: "nat \<Rightarrow> u64 \<Rightarrow> a64 \<Rightarrow> a64" where
  "setx r v m = m\<lparr>xreg := (xreg m)(r := v)\<rparr>"

definition setw :: "nat \<Rightarrow> u32 \<Rightarrow> a64 \<Rightarrow> a64" where
  "setw r v m = setx r (ucast v) m"

definition setm :: "mem \<Rightarrow> a64 \<Rightarrow> a64" where
  "setm M m = m\<lparr>amem := M\<rparr>"

lemma up_down32 [simp]: "(ucast (ucast w :: u64) :: u32) = w" for w :: u32
  by (rule bit_word_eqI) (simp add: bit_unsigned_iff)

lemma machine_simps [simp]:
  "xreg (setx r v m) = (xreg m)(r := v)" "amem (setx r v m) = amem m" "vreg (setx r v m) = vreg m"
  "xreg (setm M m) = xreg m" "amem (setm M m) = M" "vreg (setm M m) = vreg m"
  "xreg (wrv d x m) = xreg m" "amem (wrv d x m) = amem m" "vreg (wrv d x m) = (vreg m)(d := x)"
  "amem (setw r w m) = amem m" "vreg (setw r w m) = vreg m" "wv (setm M m) q = wv m q" "wv (wrv d x m) q = wv m q"
  "wv (setx r v m) q = (if q = r then ucast v else wv m q)"
  "xreg (setw r w m) q = (if q = r then ucast w else xreg m q)"
  "wv (setw r w m) q = (if q = r then w else wv m q)"
  by (simp_all add: setx_def setm_def setw_def wrv_def wv_def)

lemma rdx_gpr: "r \<noteq> 31 \<Longrightarrow> rdx False m r = ucast (wv m r)" "r \<noteq> 31 \<Longrightarrow> rdsp False m r = ucast (wv m r)"
  "r \<noteq> 31 \<Longrightarrow> rdx True m r = xreg m r" "r \<noteq> 31 \<Longrightarrow> rdsp True m r = xreg m r"
  by (auto simp: rdx_def rdsp_def width_def wv_def take_bit_word_eq_self intro!: bit_word_eqI simp: bit_unsigned_iff bit_take_bit_iff)

lemma take32: "take_bit 32 (v :: u64) = ucast (ucast v :: u32)"
  by (rule bit_word_eqI) (auto simp: bit_unsigned_iff bit_take_bit_iff)

lemma wrx_gpr: "r \<noteq> 31 \<Longrightarrow> wrx False r v m = setw r (ucast v) m" "r \<noteq> 31 \<Longrightarrow> wrsp False r v m = setw r (ucast v) m"
  "r \<noteq> 31 \<Longrightarrow> wrx True r v m = setx r v m" "r \<noteq> 31 \<Longrightarrow> wrsp True r v m = setx r v m"
  by (simp_all add: wrx_def wrsp_def width_def setw_def setx_def take32 take_bit_word_eq_self)

lemma exec_decoded:
  "map decode c = [Some (DP d)] \<Longrightarrow> exec c m = step_dp d m"
  "map decode c = [Some (MEM e)] \<Longrightarrow> exec c m = step_mem e m"
  "map decode c = [Some (FP f)] \<Longrightarrow> exec c m = step_fp f m"
  by (auto simp: step1_def split: Option.bind_split)

lemma lo_reg [simp]: "r < 31 \<Longrightarrow> lo 5 (int r) = r"
  by simp

lemma of_nat_nat_word: "0 \<le> x \<Longrightarrow> word_of_nat (nat x) = word_of_int x"
  by (simp add: word_of_nat_eq_iff word_of_int_eq_iff)

lemma ucast_word_of_int: "(ucast (word_of_int x :: u64) :: u32) = word_of_int x"
  by (rule bit_word_eqI) (simp add: bit_unsigned_iff bit_word_of_int_iff)

lemma down_add: "(ucast (x + y :: u64) :: u32) = ucast x + ucast y"
proof -
  have "(uint x + uint y) mod 2 ^ 64 mod 2 ^ 32 = (uint x mod 2 ^ 32 + uint y mod 2 ^ 32) mod 2 ^ 32"
    by (simp add: mod_mod_cancel mod_add_eq)
  then show ?thesis by (simp add: word_uint_eq_iff uint_word_ariths unsigned_ucast_eq take_bit_eq_mod)
qed

lemma down_not: "(ucast (take_bit 32 (NOT x) :: u64) :: u32) = NOT (ucast x)"
  by (rule bit_word_eqI) (auto simp: bit_unsigned_iff bit_take_bit_iff bit_not_iff)

lemma down_one [simp]: "(ucast (1 :: u64) :: u32) = 1"
  by simp

lemma add_not_one: "x + NOT y + 1 = x - (y :: u32)"
  by (simp add: not_eq_complement)

lemma width_simps [simp]: "width True = 64" "width False = 32"
  by (simp_all add: width_def)

lemma exec_add_imm32:
  assumes "n < 31" "d < 31" "0 \<le> imm" "imm < 4096"
  shows "exec (emit_add_imm 0 sub1 0 0 imm (int n) (int d)) m =
    Some (setw d (if sub1 \<noteq> 0 then wv m n - word_of_int imm else wv m n + word_of_int imm) m)"
  using assms
  by (simp add: exec_decoded(1) [OF dec_add_imm] rdx_gpr wrx_gpr add_sub_def Let_def adc_sum_def lo_small of_nat_nat_word
    down_add down_not add_not_one ucast_word_of_int)

lemma exec_add_imm64:
  assumes "n < 31" "d < 31" "0 \<le> imm" "imm < 4096"
  shows "exec (emit_add_imm 1 0 0 0 imm (int n) (int d)) m = Some (setx d (xreg m n + word_of_int imm) m)"
    and "exec (emit_add_imm 1 0 0 1 imm (int n) (int d)) m = Some (setx d (xreg m n + word_of_int (imm * 4096)) m)"
  using assms
  by (simp_all add: exec_decoded(1) [OF dec_add_imm] exec_decoded(1) [OF dec_add_imm_shifted] rdx_gpr wrx_gpr add_sub_def Let_def adc_sum_def
    lo_small of_nat_nat_word)

text \<open>UBFM and BFM on the 32-bit view.\<close>

definition ubfm32 :: "nat \<Rightarrow> nat \<Rightarrow> u32 \<Rightarrow> u32" where
  "ubfm32 R S w = (if R \<le> S then take_bit (S - R + 1) (drop_bit R w) else push_bit (32 - R) (take_bit (S + 1) w))"

definition bfm32 :: "nat \<Rightarrow> nat \<Rightarrow> u32 \<Rightarrow> u32 \<Rightarrow> u32" where
  "bfm32 R S w old = (if R \<le> S then old AND NOT (Bit_Operations.mask (S - R + 1)) OR take_bit (S - R + 1) (drop_bit R w)
     else old AND NOT (push_bit (32 - R) (Bit_Operations.mask (S + 1))) OR push_bit (32 - R) (take_bit (S + 1) w))"

lemma down_bitfield:
  assumes "R < 32" "S < 32"
  shows "(ucast (bitfield_op False 2 R S (ucast w) v) :: u32) = ubfm32 R S w"
    and "(ucast (bitfield_op False 1 R S (ucast w) (ucast u)) :: u32) = bfm32 R S w u"
  using assms by (auto intro!: bit_word_eqI simp: bitfield_op_def Let_def ubfm32_def bfm32_def bit_unsigned_iff bit_take_bit_iff
    bit_push_bit_iff bit_drop_bit_eq bit_or_iff bit_and_iff bit_not_iff bit_mask_iff dest: bit_imp_le_length)

lemma exec_ubfm:
  assumes "n < 31" "d < 31" "0 \<le> R" "R < 32" "0 \<le> S" "S < 32"
  shows "exec (emit_bitfield 0 2 0 R S (int n) (int d)) m = Some (setw d (ubfm32 (nat R) (nat S) (wv m n)) m)"
proof -
  have "nat R < 32" "nat S < 32" using assms by auto
  then show ?thesis using assms
    by (simp add: exec_decoded(1) [OF dec_bitfield] rdx_gpr wrx_gpr lo_small down_bitfield not_le)
qed

lemma rdx_zr: "rdx sf m 31 = 0"
  by (simp add: rdx_def)

lemma exec_bfm:
  assumes "n < 31" "d < 31" "0 \<le> R" "R < 32" "0 \<le> S" "S < 32"
  shows "exec (emit_bitfield 0 1 0 R S (int n) (int d)) m = Some (setw d (bfm32 (nat R) (nat S) (wv m n) (wv m d)) m)"
    and "exec (emit_bitfield 0 1 0 R S XZR (int d)) m = Some (setw d (bfm32 (nat R) (nat S) 0 (wv m d)) m)"
proof -
  have "nat R < 32" "nat S < 32" using assms by auto
  then show "exec (emit_bitfield 0 1 0 R S (int n) (int d)) m = Some (setw d (bfm32 (nat R) (nat S) (wv m n) (wv m d)) m)"
    and "exec (emit_bitfield 0 1 0 R S XZR (int d)) m = Some (setw d (bfm32 (nat R) (nat S) 0 (wv m d)) m)"
    using assms down_bitfield(2) [of "nat R" "nat S" 0 "wv m d"]
    by (simp_all add: exec_decoded(1) [OF dec_bitfield] rdx_gpr rdx_zr wrx_gpr lo_small down_bitfield [unfolded One_nat_def] not_le)
qed

lemma exec_movz:
  assumes "d < 31" "0 \<le> imm" "imm < 65536"
  shows "exec (emit_movn 0 2 0 imm (int d)) m = Some (setw d (word_of_int imm) m)"
  using assms by (simp add: exec_decoded(1) [OF dec_movn] wrx_gpr move_wide_def lo_small of_nat_nat_word ucast_word_of_int)

lemma unat_up [simp]: "unat (ucast w :: u64) = unat w" for w :: u32
  by (rule bit_eqI) (auto simp: bit_unsigned_iff dest: bit_imp_le_length)

lemma exec_lslv:
  assumes "k < 31" "n < 31" "d < 31"
  shows "exec (emit_lslv 0 (int k) (int n) (int d)) m = Some (setw d (push_bit (unat (wv m k) mod 32) (wv m n)) m)"
proof -
  have "(ucast (push_bit j (ucast w :: u64)) :: u32) = push_bit j w" for j and w :: u32
    by (rule bit_word_eqI) (auto simp: bit_unsigned_iff bit_push_bit_iff dest: bit_imp_le_length)
  then show ?thesis using assms by (simp add: exec_decoded(1) [OF dec_lslv] rdx_gpr wrx_gpr unat_up)
qed

text \<open>Halfword loads and stores.\<close>

lemma exec_ldrh:
  assumes "n < 31" "d < 31" "0 \<le> imm" "imm < 4096"
  shows "exec (emit_ldr_str_imm 1 0 1 imm (int n) (int d)) m =
    Some (setw d (ucast (ldn 2 (amem m) (xreg m n + word_of_int (imm * 2)))) m)"
proof -
  have "setx d (ldn 2 M a) m = setw d (ucast (ldn 2 M a)) m" for M a
  proof -
    have "ucast (ucast (ldn 2 M a) :: u32) = ldn 2 M a"
      by (rule bit_word_eqI) (auto simp: bit_unsigned_iff bit_ldn)
    then show ?thesis by (simp add: setw_def)
  qed
  then show ?thesis using assms
    by (simp add: exec_decoded(2) [OF dec_ldr_str_imm] effective_opc_def lo_small ldst_def Let_def rdx_gpr wrx_gpr of_nat_nat_word
      mult.commute)
qed

lemma exec_strh:
  assumes "n < 31" "d < 31" "0 \<le> imm" "imm < 4096"
  shows "exec (emit_ldr_str_imm 1 0 0 imm (int n) (int d)) m =
    Some (setm (stn 2 (amem m) (xreg m n + word_of_int (imm * 2)) (xreg m d)) m)"
  using assms by (simp add: exec_decoded(2) [OF dec_ldr_str_imm] effective_opc_def lo_small ldst_def Let_def rdx_gpr of_nat_nat_word setm_def
    mult.commute)

text \<open>Doubles at a base register plus an index register, scaled by eight or not.\<close>

lemma exec_fld_reg:
  assumes "n < 31" "i < 31" "d < 32"
  shows "exec (emit_ldr_str_reg 3 1 1 (int i) 1 (int n) (int d)) m = Some (wrv d (ldn 8 (amem m) (xreg m n + push_bit 3 (xreg m i))) m)"
    and "exec (emit_ldr_str_reg 3 1 0 (int i) 1 (int n) (int d)) m =
      Some (setm (stn 8 (amem m) (xreg m n + push_bit 3 (xreg m i)) (vreg m d)) m)"
    and "exec (emit_ldr_str_reg 3 1 1 (int i) 0 (int n) (int d)) m = Some (wrv d (ldn 8 (amem m) (xreg m n + xreg m i)) m)"
    and "exec (emit_ldr_str_reg 3 1 0 (int i) 0 (int n) (int d)) m = Some (setm (stn 8 (amem m) (xreg m n + xreg m i) (vreg m d)) m)"
  using assms by (simp_all add: exec_decoded(2) [OF dec_ldr_str_reg] effective_opc_def ldst_def Let_def rdx_gpr extend_reg_def
    take_bit_word_eq_self setm_def)

text \<open>Logical instructions on shifted registers.\<close>

definition logic32 :: "nat \<Rightarrow> u32 \<Rightarrow> u32 \<Rightarrow> u32" where
  "logic32 opc x y = (if opc = 1 then x OR y else if opc = 2 then x XOR y else x AND y)"

definition shift32 :: "nat \<Rightarrow> nat \<Rightarrow> u32 \<Rightarrow> u32" where
  "shift32 ty n w = (if ty = 0 then push_bit n w else drop_bit n w)"

lemma down_logic:
  "(ucast (take_bit 32 (logical_op opc (ucast x) y)) :: u32) = logic32 opc x (ucast y)"
  by (rule bit_word_eqI) (auto simp: logical_op_def logic32_def bit_unsigned_iff bit_take_bit_iff bit_and_iff bit_or_iff bit_xor_iff)

lemma down_shift:
  "ty < 2 \<Longrightarrow> (ucast (take_bit 32 (shift_reg False ty n (ucast w))) :: u32) = shift32 ty n w"
  by (rule bit_word_eqI)
    (auto simp: shift_reg_def shift32_def bit_unsigned_iff bit_take_bit_iff bit_push_bit_iff bit_drop_bit_eq dest: bit_imp_le_length)

lemma exec_logical:
  assumes "k < 31" "n < 31" "d < 31" "0 \<le> opc" "opc < 3" "ty \<in> {0, 1}" "0 \<le> a" "a < 32"
  shows "exec (emit_logical_shifted_reg 0 opc ng ty (int k) a (int n) (int d)) m =
    Some (setw d (logic32 (nat opc) (wv m n) (let y = shift32 (nat ty) (nat a) (wv m k) in if odd ng then NOT y else y)) m)"
proof -
  have "nat a < 32" "nat ty < 2" "nat opc \<noteq> 3" "lo 2 ty = nat ty" using assms by (auto simp: lo_small)
  then show ?thesis using assms
    by (simp add: exec_decoded(1) [OF dec_logical_shifted] lo_small rdx_gpr wrx_gpr logical_def Let_def down_logic down_shift down_not not_le)
qed

lemma exec_mov32:
  assumes "n < 31" "d < 31"
  shows "exec (emit_mov_reg 0 (int d) (int n)) m = Some (setw d (wv m n) m)"
proof -
  have "lo 2 1 = 1" "lo 5 XZR = 31" by simp_all
  then show ?thesis using assms
    by (simp add: exec_decoded(1) [OF dec_mov_reg] rdx_gpr rdx_zr wrx_gpr logical_def Let_def logical_op_def shift_reg_def take32 [symmetric])
      (simp add: take32)
qed

lemma exec_and_imm32:
  assumes "n < 31" "d < 31" "bit_mask False False (lo 6 immr) (lo 6 imms) = Some v"
  shows "execo (emit_and_imm 0 (int d) 0 immr imms (int n)) m = Some (setw d (wv m n AND ucast v) m)"
proof -
  obtain c where c: "emit_and_imm 0 (int d) 0 immr imms (int n) = Some c"
    using assms by (auto simp: emit_and_imm_def emit_logical_imm_def)
  then have "map decode c = [Some (DP (LogicalImm False 0 False (lo 6 immr) (lo 6 imms) n d))]"
    using dec_logical_imm [of "int n" "int d" 0 0 0 immr imms] assms by (simp add: emit_and_imm_def)
  then show ?thesis using assms c down_logic [of 0 "wv m n" v]
    by (simp add: execo_Some exec_decoded(1) rdx_gpr wrx_gpr logical_def Let_def logic32_def)
qed

lemma mask_7: "bit_mask False False 0 2 = Some 7" and mask_100: "bit_mask False False 24 0 = Some 0x100"
  by code_simp+

lemma exec_and7:
  assumes "n < 31" "d < 31"
  shows "execo (emit_and_imm 0 (int d) 0 0 2 (int n)) m = Some (setw d (wv m n AND 7) m)"
  using exec_and_imm32 [OF assms, of 0 2 7 m] by (simp add: mask_7)

lemma exec_and100:
  assumes "n < 31" "d < 31"
  shows "execo (emit_and_imm 0 (int d) 0 24 0 (int n)) m = Some (setw d (wv m n AND 0x100) m)"
  using exec_and_imm32 [OF assms, of 24 0 "0x100" m] by (simp add: mask_100)

text \<open>Flags. CSET is CSINC from the zero register on the inverted condition.\<close>

definition setf :: "u64 \<Rightarrow> a64 \<Rightarrow> a64" where
  "setf v m = set_nzcv (bit v 31) (bit v 30) (bit v 29) (bit v 28) m"

lemma setf_simps [simp]: "xreg (setf v m) = xreg m" "vreg (setf v m) = vreg m" "amem (setf v m) = amem m" "wv (setf v m) r = wv m r"
  by (simp_all add: setf_def set_nzcv_def wv_def)

lemma flag_simps [simp]:
  "flagN (setx r v m) = flagN m" "flagZ (setx r v m) = flagZ m" "flagC (setx r v m) = flagC m" "flagV (setx r v m) = flagV m"
  "flagN (setw r w m) = flagN m" "flagZ (setw r w m) = flagZ m" "flagC (setw r w m) = flagC m" "flagV (setw r w m) = flagV m"
  "flagN (setm M m) = flagN m" "flagZ (setm M m) = flagZ m" "flagC (setm M m) = flagC m" "flagV (setm M m) = flagV m"
  "flagN (wrv d x m) = flagN m" "flagZ (wrv d x m) = flagZ m" "flagC (wrv d x m) = flagC m" "flagV (wrv d x m) = flagV m"
  by (simp_all add: setx_def setw_def setm_def wrv_def)

lemma exec_msr: "r < 31 \<Longrightarrow> exec (emit_msr_nzcv (int r)) m = Some (setf (xreg m r) m)"
  using dec_msr [of "int r"] by (auto simp: step1_def setf_def Let_def rdx_gpr map_eq_Cons_conv)

lemma exec_mrs: "r < 31 \<Longrightarrow> exec (emit_mrs_nzcv (int r)) m = Some (setx r (nzcv_word m) m)"
  using dec_mrs [of "int r"] by (auto simp: step1_def wrx_gpr map_eq_Cons_conv)

lemma exec_cset:
  assumes "d < 31"
  shows "exec (emit_cset 0 3 (int d)) m = Some (setw d (of_bool (\<not> flagC m)) m)"
    and "exec (emit_cset 0 6 (int d)) m = Some (setw d (of_bool (flagV m)) m)"
    and "exec (emit_cset 0 0 (int d)) m = Some (setw d (of_bool (flagZ m)) m)"
  using assms by (simp_all add: exec_decoded(1) [OF dec_cset] cond_holds_def rdx_zr wrx_gpr)

lemmas exec_rules = exec_append execo_Some execo_eseq exec_add_imm32 exec_add_imm64 exec_ubfm exec_bfm exec_movz exec_lslv exec_ldrh
  exec_strh exec_fld_reg exec_logical exec_mov32 exec_and7 exec_and100 exec_msr exec_mrs exec_cset

end
