(* ===== verification/RegPool.thy ===== *)
theory RegPool
  imports A64Encode "HOL-Library.Monad_Syntax"
begin

text \<open>
  The scratch register pools of \<open>TranslatorHelpers.cpp\<close>: masks of free general and floating-point
  registers in the translation result. An allocation from an empty pool, or of a slot in use, fails
  an assertion, here \<open>None\<close>. The pool masks and tables are those of \<open>Register.h\<close>.
\<close>

definition kGprScratchMask :: u32 where "kGprScratchMask = 0x3FC00000"
definition kFprScratchMask :: u32 where "kFprScratchMask = 0xFF000000"
definition kFprScratchMaskExt :: u32 where "kFprScratchMaskExt = 0xFFFF0000"
definition kGprScratchPool :: "nat list" where "kGprScratchPool = [22, 23, 24, 25, 26, 27, 28, 29]"
definition kFprScratchPool :: "nat list" where "kFprScratchPool = [24, 25, 26, 27, 28, 29, 30, 31]"
definition kFprScratchPoolExtended :: "nat list" where
  "kFprScratchPoolExtended = [24, 25, 26, 27, 28, 29, 30, 31, 16, 17, 18, 19, 20, 21, 22, 23]"

definition ctz32 :: "u32 \<Rightarrow> nat" where
  "ctz32 x = hd (filter (bit x) [0..<32])"

definition alloc_slot :: "nat list \<Rightarrow> u32 \<Rightarrow> nat \<Rightarrow> (int \<times> u32) option" where
  "alloc_slot pool m i =
     (if i < length pool \<and> bit m (pool ! i) then Some (int (pool ! i), m AND NOT (push_bit (pool ! i) 1)) else None)"

definition alloc_gpr :: "u32 \<Rightarrow> nat \<Rightarrow> (int \<times> u32) option" where
  "alloc_gpr m pool_index = alloc_slot kGprScratchPool m pool_index"

definition alloc_free_gpr :: "u32 \<Rightarrow> (int \<times> u32) option" where
  "alloc_free_gpr m = (if m = 0 then None else let reg = ctz32 m in Some (int reg, m AND NOT (push_bit reg 1)))"

definition resolve_hint_gpr :: "u32 \<Rightarrow> int \<Rightarrow> (int \<times> u32) option" where
  "resolve_hint_gpr m hint_reg = (if hint_reg = XZR then alloc_free_gpr m else Some (hint_reg, m))"

definition free_gpr :: "int \<Rightarrow> u32 \<Rightarrow> u32 option" where
  "free_gpr reg m =
     (if reg = SP then None
      else Some (if push_bit (nat reg) 1 AND kGprScratchMask \<noteq> 0 then m OR push_bit (nat reg) 1 else m))"

definition alloc_fpr :: "bool \<Rightarrow> u32 \<Rightarrow> nat \<Rightarrow> (int \<times> u32) option" where
  "alloc_fpr extended m pool_index = alloc_slot (if extended then kFprScratchPoolExtended else kFprScratchPool) m pool_index"

definition alloc_free_fpr :: "u32 \<Rightarrow> (int \<times> u32) option" where
  "alloc_free_fpr m = (if m = 0 then None else let reg = ctz32 m in Some (int reg, m AND NOT (push_bit reg 1)))"

definition free_fpr :: "bool \<Rightarrow> int \<Rightarrow> u32 \<Rightarrow> u32" where
  "free_fpr extended reg m =
     (let active_mask = (if extended then kFprScratchMaskExt else kFprScratchMask) in
      if push_bit (nat reg) 1 AND active_mask \<noteq> 0 then m OR push_bit (nat reg) 1 else m)"

section \<open>The lowest free register\<close>

lemma bit32_ex: "m \<noteq> 0 \<Longrightarrow> \<exists>i < 32. bit m i" for m :: u32
  by (rule ccontr) (auto intro: bit_word_eqI)

lemma ctz32_set:
  assumes "m \<noteq> 0"
  shows "bit m (ctz32 m)" "ctz32 m < 32" "\<And>i. i < ctz32 m \<Longrightarrow> \<not> bit m i"
proof -
  obtain i where i: "i < 32" "bit m i" using bit32_ex [OF assms] by auto
  then have ne: "filter (bit m) [0..<32] \<noteq> []" by (auto simp: filter_empty_conv)
  then have "ctz32 m \<in> set (filter (bit m) [0..<32])" unfolding ctz32_def by (rule hd_in_set)
  then show "bit m (ctz32 m)" and b: "ctz32 m < 32" by auto
  have le: "hd xs \<le> x" if "sorted xs" "x \<in> set xs" for xs and x :: nat
    using that by (cases xs) auto
  show "\<not> bit m j" if "j < ctz32 m" for j
    using le [of "filter (bit m) [0..<32]" j] that b by (auto simp: ctz32_def sorted_wrt_filter simp del: upt_Suc)
qed

lemma pool_mask: "bit kGprScratchMask i \<longleftrightarrow> 22 \<le> i \<and> i < 30"
proof -
  have e: "kGprScratchMask = push_bit 22 (Bit_Operations.mask 8)" by (simp add: kGprScratchMask_def mask_eq_exp_minus_1)
  show ?thesis unfolding e by (auto simp: bit_push_bit_iff bit_mask_iff)
qed

lemma bit_reg: "bit (2 ^ r :: u32) i \<longleftrightarrow> i = r \<and> r < 32"
  by (auto simp: bit_exp_iff)

lemma bit_and_pool: "2 ^ i AND kGprScratchMask = 0 \<longleftrightarrow> \<not> (22 \<le> i \<and> i < 30)"
proof
  assume "2 ^ i AND kGprScratchMask = 0"
  then have "\<not> bit (2 ^ i AND kGprScratchMask) i" by simp
  then show "\<not> (22 \<le> i \<and> i < 30)" by (auto simp: bit_and_iff bit_reg pool_mask)
next
  assume "\<not> (22 \<le> i \<and> i < 30)"
  then show "2 ^ i AND kGprScratchMask = 0" by (intro bit_word_eqI) (auto simp: bit_and_iff bit_reg pool_mask)
qed

text \<open>A pool state: only scratch registers are free.\<close>

definition pool_ok :: "u32 \<Rightarrow> bool" where
  "pool_ok m \<longleftrightarrow> m AND NOT kGprScratchMask = 0"

lemma pool_ok_iff: "pool_ok m \<longleftrightarrow> (\<forall>i. bit m i \<longrightarrow> 22 \<le> i \<and> i < 30)"
proof
  assume "pool_ok m"
  then have "\<not> bit (m AND NOT kGprScratchMask) i" for i by (simp add: pool_ok_def)
  then have "bit m i \<Longrightarrow> i < 32 \<Longrightarrow> 22 \<le> i \<and> i < 30" for i by (auto simp: bit_and_iff bit_not_iff pool_mask)
  then show "\<forall>i. bit m i \<longrightarrow> 22 \<le> i \<and> i < 30" using bit_imp_le_length by fastforce
next
  assume "\<forall>i. bit m i \<longrightarrow> 22 \<le> i \<and> i < 30"
  then show "pool_ok m" unfolding pool_ok_def by (intro bit_word_eqI) (auto simp: bit_and_iff bit_not_iff pool_mask)
qed

lemma bit_minus_reg: "bit (m AND NOT (2 ^ r) :: u32) i \<longleftrightarrow> bit m i \<and> i \<noteq> r"
  by (auto simp: bit_and_iff bit_not_iff bit_reg dest: bit_imp_le_length)

lemma alloc_free_gpr_spec:
  assumes "pool_ok m" "alloc_free_gpr m = Some (r, k)"
  obtains q where "r = int q" "22 \<le> q" "q < 30" "bit m q" "\<forall>i. bit k i \<longleftrightarrow> bit m i \<and> i \<noteq> q" "pool_ok k"
proof -
  have m: "m \<noteq> 0" and r: "r = int (ctz32 m)" and k: "k = m AND NOT (push_bit (ctz32 m) 1)"
    using assms(2) by (auto simp: alloc_free_gpr_def Let_def split: if_splits)
  have kb: "bit k i \<longleftrightarrow> bit m i \<and> i \<noteq> ctz32 m" for i by (simp add: k bit_minus_reg)
  then have "pool_ok k" using assms(1) by (simp add: pool_ok_iff)
  moreover have "22 \<le> ctz32 m" "ctz32 m < 30" using assms(1) ctz32_set(1) [OF m] by (simp_all add: pool_ok_iff)
  ultimately show ?thesis using that r kb ctz32_set(1) [OF m] by blast
qed

lemma free_gpr_spec:
  assumes "22 \<le> q" "q < 30"
  shows "free_gpr (int q) k = Some (k OR push_bit q 1)"
  using assms by (simp add: free_gpr_def bit_and_pool)

end
