(* ===== verification/EmitX87.thy ===== *)
theory EmitX87
  imports A64Rules RegPool
begin

text \<open>
  The code sequences of \<open>TranslatorX87Helpers.cpp\<close> that touch the x87 state in memory, one
  definition per emitter: base address, TOP, loads and stores of ST(i), push and pop with and
  without their deferred parts, tag-word batches, condition codes, the permutation flush and the
  rounding-control dispatch. A definition gives the code, \<open>None\<close> if an assembler assertion fails;
  emitters that allocate registers thread the mask of free ones.
\<close>

section \<open>Constants\<close>

abbreviation (input) kX87ThreadReg :: int where "kX87ThreadReg \<equiv> 18"
abbreviation (input) kX87StatusWordOff :: u32 where "kX87StatusWordOff \<equiv> 2"
abbreviation (input) kX87StatusWordImm12 :: int where "kX87StatusWordImm12 \<equiv> 1"
abbreviation (input) kX87TagWordImm12 :: int where "kX87TagWordImm12 \<equiv> 2"
abbreviation (input) kX87RegFileOff :: int where "kX87RegFileOff \<equiv> 8"
abbreviation (input) kX87TopShift :: int where "kX87TopShift \<equiv> 11"

section \<open>Base address and TOP\<close>

definition emit_x87_base :: "u32 \<Rightarrow> int \<Rightarrow> u32 list option" where
  "emit_x87_base offset Xd =
     (if offset \<le> 0xFFF then Some (emit_add_imm 1 0 0 0 (uint offset) kX87ThreadReg Xd)
      else if offset AND 0xFFF = 0 then Some (emit_add_imm 1 0 0 1 (uint (drop_bit 12 offset)) kX87ThreadReg Xd)
      else Some (emit_add_imm 1 0 0 1 (uint (drop_bit 12 offset)) kX87ThreadReg Xd @
                 emit_add_imm 1 0 0 0 (uint (offset AND 0xFFF)) Xd Xd))"

definition emit_load_top :: "u32 \<Rightarrow> int \<Rightarrow> int \<Rightarrow> u32 list option" where
  "emit_load_top offset Xbase Wd_top =
     (let sw_byte_off = offset + kX87StatusWordOff;
          use_x18_direct = (sw_byte_off AND 1 = 0 \<and> sw_byte_off \<le> 0x1FFE);
          base_reg = (if use_x18_direct then kX87ThreadReg else Xbase);
          imm12 = (if use_x18_direct then uint (sw_byte_off div 2) else kX87StatusWordImm12)
      in Some (emit_ldr_str_imm 1 0 1 imm12 base_reg Wd_top @
               emit_bitfield 0 2 0 kX87TopShift (kX87TopShift + 2) Wd_top Wd_top))"

definition emit_store_top :: "int \<Rightarrow> int \<Rightarrow> int \<Rightarrow> u32 list option" where
  "emit_store_top Xbase Wd_new_top Wd_tmp =
     Some (emit_ldr_str_imm 1 0 1 kX87StatusWordImm12 Xbase Wd_tmp @
           emit_bitfield 0 1 0 21 2 Wd_new_top Wd_tmp @
           emit_ldr_str_imm 1 0 0 kX87StatusWordImm12 Xbase Wd_tmp)"

definition emit_phys_index :: "int \<Rightarrow> int \<Rightarrow> int \<Rightarrow> u32 list option" where
  "emit_phys_index Wd_top stack_depth Wd_out =
     (if stack_depth = 0 then Some (if Wd_out \<noteq> Wd_top then emit_mov_reg 0 Wd_out Wd_top else [])
      else eseq [Some (emit_add_imm 0 0 0 0 stack_depth Wd_top Wd_out), emit_and_imm 0 Wd_out 0 0 2 Wd_out])"

section \<open>Loads and stores of ST(i)\<close>

text \<open>The code and the register left holding the index, for \<open>emit_store_st_at_offset\<close>.\<close>

definition emit_load_st :: "int \<Rightarrow> int \<Rightarrow> int \<Rightarrow> int \<Rightarrow> int \<Rightarrow> int \<Rightarrow> u32 list option \<times> int" where
  "emit_load_st Xbase Wd_top stack_depth Wd_tmp Dd Xbase_st =
     (if 0 \<le> Xbase_st then
        (if stack_depth = 0 then (Some (emit_ldr_str_reg 3 1 1 Wd_top 1 Xbase_st Dd), Wd_top)
         else (eseq [emit_phys_index Wd_top stack_depth Wd_tmp, Some (emit_ldr_str_reg 3 1 1 Wd_tmp 1 Xbase_st Dd)], Wd_tmp))
      else
        (eseq [emit_phys_index Wd_top stack_depth Wd_tmp, Some (emit_bitfield 0 2 0 29 28 Wd_tmp Wd_tmp),
               Some (emit_add_imm 0 0 0 0 kX87RegFileOff Wd_tmp Wd_tmp), Some (emit_ldr_str_reg 3 1 1 Wd_tmp 0 Xbase Dd)], Wd_tmp))"

definition emit_store_st :: "int \<Rightarrow> int \<Rightarrow> int \<Rightarrow> int \<Rightarrow> int \<Rightarrow> int \<Rightarrow> u32 list option" where
  "emit_store_st Xbase Wd_top stack_depth Wd_tmp Dd Xbase_st =
     (if 0 \<le> Xbase_st then
        (if stack_depth = 0 then Some (emit_ldr_str_reg 3 1 0 Wd_top 1 Xbase_st Dd)
         else eseq [emit_phys_index Wd_top stack_depth Wd_tmp, Some (emit_ldr_str_reg 3 1 0 Wd_tmp 1 Xbase_st Dd)])
      else
        eseq [emit_phys_index Wd_top stack_depth Wd_tmp, Some (emit_bitfield 0 2 0 29 28 Wd_tmp Wd_tmp),
              Some (emit_add_imm 0 0 0 0 kX87RegFileOff Wd_tmp Wd_tmp), Some (emit_ldr_str_reg 3 1 0 Wd_tmp 0 Xbase Dd)])"

definition emit_store_st_at_offset :: "int \<Rightarrow> int \<Rightarrow> int \<Rightarrow> int \<Rightarrow> u32 list option" where
  "emit_store_st_at_offset Xbase Wd_key Dd Xbase_st =
     Some (if 0 \<le> Xbase_st then emit_ldr_str_reg 3 1 0 Wd_key 1 Xbase_st Dd else emit_ldr_str_reg 3 1 0 Wd_key 0 Xbase Dd)"

section \<open>Push and pop\<close>

text \<open>Decrement and increment of TOP, and the read-modify-write of one tag.\<close>

definition emit_x87_push_fully_deferred :: "int \<Rightarrow> u32 list option" where
  "emit_x87_push_fully_deferred Wd_top = eseq [Some (emit_add_imm 0 1 0 0 1 Wd_top Wd_top), emit_and_imm 0 Wd_top 0 0 2 Wd_top]"

definition emit_x87_pop_top_only :: "int \<Rightarrow> u32 list option" where
  "emit_x87_pop_top_only Wd_top = eseq [Some (emit_add_imm 0 0 0 0 1 Wd_top Wd_top), emit_and_imm 0 Wd_top 0 0 2 Wd_top]"

definition emit_x87_tag_clear :: "int \<Rightarrow> int \<Rightarrow> int \<Rightarrow> int \<Rightarrow> u32 list option" where
  "emit_x87_tag_clear Xbase Wd_top Wd_tmp Wd_tmp2 =
     Some (emit_bitfield 0 2 0 31 30 Wd_top Wd_tmp2 @ emit_movn 0 2 0 3 Wd_tmp @ emit_lslv 0 Wd_tmp2 Wd_tmp Wd_tmp @
           emit_ldr_str_imm 1 0 1 kX87TagWordImm12 Xbase Wd_tmp2 @
           emit_logical_shifted_reg 0 0 1 0 Wd_tmp 0 Wd_tmp2 Wd_tmp2 @
           emit_ldr_str_imm 1 0 0 kX87TagWordImm12 Xbase Wd_tmp2)"

text \<open>The tail of the pop sequences: the mask at the position in \<open>Wd_tmp2\<close> is set in the tag word.\<close>

definition emit_tag_or :: "int \<Rightarrow> int \<Rightarrow> int \<Rightarrow> u32 list" where
  "emit_tag_or Xbase Wd_tmp Wd_tmp2 =
     emit_movn 0 2 0 3 Wd_tmp @ emit_lslv 0 Wd_tmp2 Wd_tmp Wd_tmp @
     emit_ldr_str_imm 1 0 1 kX87TagWordImm12 Xbase Wd_tmp2 @
     emit_logical_shifted_reg 0 1 0 0 Wd_tmp 0 Wd_tmp2 Wd_tmp2 @
     emit_ldr_str_imm 1 0 0 kX87TagWordImm12 Xbase Wd_tmp2"

definition emit_x87_push_deferred :: "int \<Rightarrow> int \<Rightarrow> int \<Rightarrow> int \<Rightarrow> u32 list option" where
  "emit_x87_push_deferred Xbase Wd_top Wd_tmp Wd_tmp2 =
     eseq [Some (emit_add_imm 0 1 0 0 1 Wd_top Wd_top), emit_and_imm 0 Wd_top 0 0 2 Wd_top,
           emit_x87_tag_clear Xbase Wd_top Wd_tmp Wd_tmp2]"

definition emit_x87_push :: "int \<Rightarrow> int \<Rightarrow> int \<Rightarrow> int \<Rightarrow> u32 list option" where
  "emit_x87_push Xbase Wd_top Wd_tmp Wd_tmp2 =
     eseq [Some (emit_add_imm 0 1 0 0 1 Wd_top Wd_top), emit_and_imm 0 Wd_top 0 0 2 Wd_top,
           emit_store_top Xbase Wd_top Wd_tmp, emit_x87_tag_clear Xbase Wd_top Wd_tmp Wd_tmp2]"

definition emit_x87_pop_deferred :: "int \<Rightarrow> int \<Rightarrow> int \<Rightarrow> int \<Rightarrow> u32 list option" where
  "emit_x87_pop_deferred Xbase Wd_top Wd_tmp Wd_tmp2 =
     eseq [Some (emit_bitfield 0 2 0 31 30 Wd_top Wd_tmp2 @ emit_tag_or Xbase Wd_tmp Wd_tmp2),
           Some (emit_add_imm 0 0 0 0 1 Wd_top Wd_top), emit_and_imm 0 Wd_top 0 0 2 Wd_top]"

definition emit_x87_pop :: "int \<Rightarrow> int \<Rightarrow> int \<Rightarrow> int \<Rightarrow> u32 list option" where
  "emit_x87_pop Xbase Wd_top Wd_tmp Wd_tmp2 =
     eseq [Some (emit_bitfield 0 2 0 31 30 Wd_top Wd_tmp2 @ emit_tag_or Xbase Wd_tmp Wd_tmp2),
           Some (emit_add_imm 0 0 0 0 1 Wd_top Wd_top), emit_and_imm 0 Wd_top 0 0 2 Wd_top,
           emit_store_top Xbase Wd_top Wd_tmp]"

text \<open>The body of the loop over the popped slots.\<close>

definition emit_pop_slot :: "int \<Rightarrow> int \<Rightarrow> int \<Rightarrow> int \<Rightarrow> int \<Rightarrow> u32 list option" where
  "emit_pop_slot Xbase Wd_top Wd_tmp Wd_tmp2 i =
     eseq [if i = 0 then Some (emit_bitfield 0 2 0 31 30 Wd_top Wd_tmp2)
           else eseq [Some (emit_add_imm 0 0 0 0 i Wd_top Wd_tmp2), emit_and_imm 0 Wd_tmp2 0 0 2 Wd_tmp2,
                      Some (emit_bitfield 0 2 0 31 30 Wd_tmp2 Wd_tmp2)],
           Some (emit_tag_or Xbase Wd_tmp Wd_tmp2)]"

definition emit_x87_pop_n_deferred :: "int \<Rightarrow> int \<Rightarrow> int \<Rightarrow> int \<Rightarrow> nat \<Rightarrow> u32 list option" where
  "emit_x87_pop_n_deferred Xbase Wd_top Wd_tmp Wd_tmp2 n =
     eseq (map (\<lambda>i. emit_pop_slot Xbase Wd_top Wd_tmp Wd_tmp2 (int i)) [0..<n] @
       [Some (emit_add_imm 0 0 0 0 (int n) Wd_top Wd_top), emit_and_imm 0 Wd_top 0 0 2 Wd_top])"

definition emit_x87_pop_n :: "int \<Rightarrow> int \<Rightarrow> int \<Rightarrow> int \<Rightarrow> nat \<Rightarrow> u32 list option" where
  "emit_x87_pop_n Xbase Wd_top Wd_tmp Wd_tmp2 n =
     eseq (map (\<lambda>i. emit_pop_slot Xbase Wd_top Wd_tmp Wd_tmp2 (int i)) [0..<n] @
       [Some (emit_add_imm 0 0 0 0 (int n) Wd_top Wd_top), emit_and_imm 0 Wd_top 0 0 2 Wd_top,
        emit_store_top Xbase Wd_top Wd_tmp])"

section \<open>Tag-word batches\<close>

definition emit_batch_slot :: "int \<Rightarrow> int \<Rightarrow> int \<Rightarrow> int \<Rightarrow> int \<Rightarrow> u32 list option" where
  "emit_batch_slot Wd_top Wd_tmp Wd_tmp2 Wd_tagw offset_from_top =
     eseq [Some (emit_add_imm 0 1 0 0 offset_from_top Wd_top Wd_tmp), emit_and_imm 0 Wd_tmp 0 0 2 Wd_tmp,
           Some (emit_bitfield 0 2 0 31 30 Wd_tmp Wd_tmp @ emit_movn 0 2 0 3 Wd_tmp2 @ emit_lslv 0 Wd_tmp Wd_tmp2 Wd_tmp2 @
                 emit_logical_shifted_reg 0 1 0 0 Wd_tmp2 0 Wd_tagw Wd_tagw)]"

definition emit_x87_tag_set_empty_batch :: "int \<Rightarrow> int \<Rightarrow> int \<Rightarrow> int \<Rightarrow> int \<Rightarrow> nat \<Rightarrow> u32 list option" where
  "emit_x87_tag_set_empty_batch Xbase Wd_top Wd_tmp Wd_tmp2 Wd_tagw count =
     eseq ([Some (emit_ldr_str_imm 1 0 1 kX87TagWordImm12 Xbase Wd_tagw)] @
       map (\<lambda>i. emit_batch_slot Wd_top Wd_tmp Wd_tmp2 Wd_tagw (int (count - i))) [0..<count] @
       [Some (emit_ldr_str_imm 1 0 0 kX87TagWordImm12 Xbase Wd_tagw)])"

text \<open>\<open>static_cast<uint16_t>((1u << (2 * count)) - 1)\<close>, for shifts below 32.\<close>

definition batch_mask :: "nat \<Rightarrow> u16" where
  "batch_mask count = ucast (push_bit (2 * count) 1 - 1 :: u32)"

definition emit_x87_tag_set_valid_batch :: "int \<Rightarrow> int \<Rightarrow> int \<Rightarrow> int \<Rightarrow> int \<Rightarrow> nat \<Rightarrow> u32 list option" where
  "emit_x87_tag_set_valid_batch Xbase Wd_top Wd_tmp Wd_tmp2 Wd_tagw count =
     Some (emit_ldr_str_imm 1 0 1 kX87TagWordImm12 Xbase Wd_tagw @ emit_bitfield 0 2 0 31 30 Wd_top Wd_tmp @
           emit_movn 0 2 0 (uint (batch_mask count)) Wd_tmp2 @ emit_lslv 0 Wd_tmp Wd_tmp2 Wd_tmp2 @
           emit_logical_shifted_reg 0 1 0 1 Wd_tmp2 16 Wd_tmp2 Wd_tmp2 @
           emit_logical_shifted_reg 0 0 1 0 Wd_tmp2 0 Wd_tagw Wd_tagw @
           emit_ldr_str_imm 1 0 0 kX87TagWordImm12 Xbase Wd_tagw)"

section \<open>Condition codes\<close>

definition emit_fcom_flags_to_sw :: "int \<Rightarrow> int \<Rightarrow> int \<Rightarrow> u32 list option" where
  "emit_fcom_flags_to_sw Xbase Wd_tmp1 Wd_tmp2 =
     eseq [Some (emit_mrs_nzcv Wd_tmp1 @ emit_bitfield 0 2 0 21 31 Wd_tmp1 Wd_tmp2),
           emit_and_imm 0 Wd_tmp2 0 24 0 Wd_tmp2,
           Some (emit_bitfield 0 2 0 16 31 Wd_tmp1 Wd_tmp1 @ emit_bitfield 0 1 0 18 0 Wd_tmp1 Wd_tmp2 @
                 emit_bitfield 0 2 0 12 12 Wd_tmp1 Wd_tmp1 @ emit_bitfield 0 1 0 22 0 Wd_tmp1 Wd_tmp2 @
                 emit_ldr_str_imm 1 0 1 kX87StatusWordImm12 Xbase Wd_tmp1 @
                 emit_bitfield 0 1 0 24 2 XZR Wd_tmp1 @ emit_bitfield 0 1 0 18 0 XZR Wd_tmp1 @
                 emit_logical_shifted_reg 0 1 0 0 Wd_tmp2 0 Wd_tmp1 Wd_tmp1 @
                 emit_ldr_str_imm 1 0 0 kX87StatusWordImm12 Xbase Wd_tmp1)]"

text \<open>The three flags, then the packing into bits 8, 10 and 14.\<close>

definition emit_cc_csets :: "int \<Rightarrow> int \<Rightarrow> int \<Rightarrow> u32 list" where
  "emit_cc_csets Wd_cc Wd_vs Wd_result = emit_cset 0 3 Wd_cc @ emit_cset 0 6 Wd_vs @ emit_cset 0 0 Wd_result"

definition emit_cc_join :: "int \<Rightarrow> int \<Rightarrow> int \<Rightarrow> u32 list" where
  "emit_cc_join Wd_cc Wd_vs Wd_result =
     emit_logical_shifted_reg 0 1 0 0 Wd_vs 0 Wd_cc Wd_cc @
     emit_logical_shifted_reg 0 1 0 0 Wd_vs 0 Wd_result Wd_result @
     emit_bitfield 0 2 0 24 23 Wd_cc Wd_cc @
     emit_logical_shifted_reg 0 1 0 0 Wd_vs 10 Wd_cc Wd_cc @
     emit_logical_shifted_reg 0 1 0 0 Wd_result 14 Wd_cc Wd_result"

definition emit_fcom_cc_pack :: "u32 \<Rightarrow> int \<Rightarrow> int \<Rightarrow> (u32 list \<times> u32) option" where
  "emit_fcom_cc_pack free Wd_result Wd_save = do {
     (Wd_cc, f1) \<leftarrow> alloc_free_gpr free;
     (Wd_vs, f2) \<leftarrow> alloc_free_gpr f1;
     f3 \<leftarrow> free_gpr Wd_save f2;
     f4 \<leftarrow> free_gpr Wd_vs f3;
     f5 \<leftarrow> free_gpr Wd_cc f4;
     Some (emit_cc_csets Wd_cc Wd_vs Wd_result @ emit_msr_nzcv Wd_save @ emit_cc_join Wd_cc Wd_vs Wd_result, f5) }"

definition emit_fcom_cc_pack_hoisted :: "u32 \<Rightarrow> int \<Rightarrow> (u32 list \<times> u32) option" where
  "emit_fcom_cc_pack_hoisted free Wd_result = do {
     (Wd_cc, f1) \<leftarrow> alloc_free_gpr free;
     (Wd_vs, f2) \<leftarrow> alloc_free_gpr f1;
     f3 \<leftarrow> free_gpr Wd_vs f2;
     f4 \<leftarrow> free_gpr Wd_cc f3;
     Some (emit_cc_csets Wd_cc Wd_vs Wd_result @ emit_cc_join Wd_cc Wd_vs Wd_result, f4) }"

text \<open>The code, the register holding the new status word, and the pool.\<close>

definition emit_fcom_cc_write_sw_keep :: "u32 \<Rightarrow> int \<Rightarrow> int \<Rightarrow> (u32 list \<times> int \<times> u32) option" where
  "emit_fcom_cc_write_sw_keep free Xbase Wd_packed = do {
     (Wd_sw, f1) \<leftarrow> alloc_free_gpr free;
     Some (emit_ldr_str_imm 1 0 1 kX87StatusWordImm12 Xbase Wd_sw @
           emit_bitfield 0 1 0 24 2 XZR Wd_sw @ emit_bitfield 0 1 0 18 0 XZR Wd_sw @
           emit_logical_shifted_reg 0 1 0 0 Wd_packed 0 Wd_sw Wd_sw @
           emit_ldr_str_imm 1 0 0 kX87StatusWordImm12 Xbase Wd_sw, Wd_sw, f1) }"

definition emit_fcom_cc_write_sw :: "u32 \<Rightarrow> int \<Rightarrow> int \<Rightarrow> (u32 list \<times> u32) option" where
  "emit_fcom_cc_write_sw free Xbase Wd_packed = do {
     (code, Wd_sw, f1) \<leftarrow> emit_fcom_cc_write_sw_keep free Xbase Wd_packed;
     f2 \<leftarrow> free_gpr Wd_sw f1;
     Some (code, f2) }"

section \<open>Permutation flush\<close>

text \<open>
  The inner loop follows the cycle from \<open>j\<close> until it is back at \<open>i\<close>; eight steps are enough for a
  permutation of eight registers, and \<open>None\<close> is the loop that does not close.
\<close>

fun flush_cycle :: "nat \<Rightarrow> int \<Rightarrow> int \<Rightarrow> int \<Rightarrow> int list \<Rightarrow> int \<Rightarrow> int \<Rightarrow> int \<Rightarrow> int \<Rightarrow> int \<Rightarrow> bool list \<Rightarrow>
    (u32 list option list \<times> bool list) option" where
  "flush_cycle 0 Xbase Wd_top Wd_tmp perm Xst_base Dd_save Dd_chain i j visited = None"
| "flush_cycle (Suc fuel) Xbase Wd_top Wd_tmp perm Xst_base Dd_save Dd_chain i j visited =
     (let next = perm ! nat j in
      if next = i then Some ([emit_store_st Xbase Wd_top j Wd_tmp Dd_save Xst_base], visited)
      else do {
        (code, v) \<leftarrow> flush_cycle fuel Xbase Wd_top Wd_tmp perm Xst_base Dd_save Dd_chain i next (visited[nat next := True]);
        Some ([fst (emit_load_st Xbase Wd_top next Wd_tmp Dd_chain Xst_base),
               emit_store_st Xbase Wd_top j Wd_tmp Dd_chain Xst_base] @ code, v) })"

fun flush_from :: "int \<Rightarrow> int \<Rightarrow> int \<Rightarrow> int list \<Rightarrow> int \<Rightarrow> int \<Rightarrow> int \<Rightarrow> nat list \<Rightarrow> bool list \<Rightarrow> u32 list option list option" where
  "flush_from Xbase Wd_top Wd_tmp perm Xst_base Dd_save Dd_chain [] visited = Some []"
| "flush_from Xbase Wd_top Wd_tmp perm Xst_base Dd_save Dd_chain (i # is) visited =
     (if visited ! i \<or> perm ! i = int i then flush_from Xbase Wd_top Wd_tmp perm Xst_base Dd_save Dd_chain is visited
      else do {
        (code, v) \<leftarrow> flush_cycle 8 Xbase Wd_top Wd_tmp perm Xst_base Dd_save Dd_chain (int i) (int i) (visited[i := True]);
        rest \<leftarrow> flush_from Xbase Wd_top Wd_tmp perm Xst_base Dd_save Dd_chain is v;
        Some (fst (emit_load_st Xbase Wd_top (int i) Wd_tmp Dd_save Xst_base) # code @ rest) })"

definition emit_x87_perm_flush :: "int \<Rightarrow> int \<Rightarrow> int \<Rightarrow> int list \<Rightarrow> int \<Rightarrow> int \<Rightarrow> int \<Rightarrow> u32 list option" where
  "emit_x87_perm_flush Xbase Wd_top Wd_tmp perm Xst_base Dd_save Dd_chain =
     Option.bind (flush_from Xbase Wd_top Wd_tmp perm Xst_base Dd_save Dd_chain [0..<8] (replicate 8 False)) eseq"

section \<open>Rounding-control dispatch\<close>

definition emit_x87_rc_dispatch_fcvt :: "int \<Rightarrow> int \<Rightarrow> int \<Rightarrow> int \<Rightarrow> u32 list" where
  "emit_x87_rc_dispatch_fcvt Wd_rc Wd_int Dd_val is_64bit_int =
     emit_tbz 1 1 Wd_rc 5 @ emit_fcvt_fp_to_int is_64bit_int 1 0 Wd_int Dd_val @
     emit_tbz 0 0 Wd_rc 6 @ emit_fcvt_fp_to_int is_64bit_int 1 2 Wd_int Dd_val @
     emit_b 4 @ emit_fcvt_fp_to_int is_64bit_int 1 1 Wd_int Dd_val @
     emit_tbz 0 0 Wd_rc 2 @ emit_fcvt_fp_to_int is_64bit_int 1 3 Wd_int Dd_val"

definition emit_x87_rc_dispatch_frint :: "int \<Rightarrow> int \<Rightarrow> int \<Rightarrow> u32 list" where
  "emit_x87_rc_dispatch_frint Wd_rc Dd Dn =
     emit_tbz 1 1 Wd_rc 6 @ emit_tbz 1 0 Wd_rc 3 @ emit_fp_dp1 1 8 Dd Dn @ emit_b 7 @
     emit_fp_dp1 1 10 Dd Dn @ emit_b 5 @ emit_tbz 1 0 Wd_rc 3 @ emit_fp_dp1 1 9 Dd Dn @ emit_b 2 @
     emit_fp_dp1 1 11 Dd Dn"

end
