(* ===== verification/EmitX87Facts.thy ===== *)
theory EmitX87Facts
  imports EmitX87
begin

text \<open>
  What the emitted sequences do to the x87 state in memory. A sequence is described by the
  function it computes on the triple of state, TOP register and floating-point registers
  (\<open>implements\<close>); such descriptions compose, and the deferred and batched forms are compared with
  the runtime's \<open>push\<close> and \<open>pop\<close> at that level.
\<close>

section \<open>Small words\<close>

lemma below8: "t < 8 \<Longrightarrow> t \<in> {0, 1, 2, 3, 4, 5, 6, 7}" for t :: u32
proof -
  assume "t < 8"
  then have "unat t < 8" by (simp add: word_less_nat_alt)
  then have "unat t \<in> {0, 1, 2, 3, 4, 5, 6, 7}" by auto
  then have "word_of_nat (unat t) \<in> (word_of_nat ` {0, 1, 2, 3, 4, 5, 6, 7} :: u32 set)" by (rule imageI)
  then show ?thesis by simp
qed

lemma and7_below8 [simp]: "w AND 7 < 8" for w :: u32
  by (rule le_less_trans [of _ 7]) (simp_all add: word_and_le1)

lemma bit_pos: "t < 8 \<Longrightarrow> unat (ubfm32 31 30 t) mod 32 = unat t * 2"
  by (drule below8) (auto simp: ubfm32_def)

lemma word3: "(3 :: u32) = Bit_Operations.mask 2" "(3 :: u16) = Bit_Operations.mask 2" "(7 :: u32) = Bit_Operations.mask 3"
  "(7 :: u16) = Bit_Operations.mask 3"
  by (simp_all add: mask_eq_exp_minus_1)

lemma down16 [simp]: "(ucast (ucast w :: u64) :: u16) = ucast w" for w :: u32
  by (rule bit_word_eqI) (auto simp: bit_unsigned_iff)

text \<open>The status word with a new TOP.\<close>

definition with_top :: "u16 \<Rightarrow> u32 \<Rightarrow> u16" where
  "with_top sw t = (sw AND NOT kTopOfStack) OR push_bit 11 (ucast (t AND 7))"

lemma top_mask: "kTopOfStack = push_bit 11 (Bit_Operations.mask 3)"
  by (simp add: kTopOfStack_def mask_eq_exp_minus_1)

lemma sw_top: "(ucast (bfm32 21 2 t (ucast sw)) :: u16) = with_top sw t"
  unfolding with_top_def top_mask word3
  by (rule bit_word_eqI) (auto simp: bfm32_def bit_unsigned_iff bit_or_iff bit_and_iff bit_not_iff bit_push_bit_iff bit_mask_iff
    bit_take_bit_iff)

lemma with_top_idem [simp]: "with_top (with_top sw t) u = with_top sw u" "with_top sw (t AND 7) = with_top sw t"
  unfolding with_top_def top_mask word3
  by (auto intro!: bit_word_eqI simp: bit_unsigned_iff bit_or_iff bit_and_iff bit_not_iff bit_push_bit_iff bit_mask_iff)

lemma topIndex_with_top: "statusWord s = with_top sw t \<Longrightarrow> topIndex s = t AND 7"
  unfolding with_top_def top_mask word3 topIndex_def
  by (auto intro!: bit_word_eqI simp: bit_unsigned_iff bit_or_iff bit_and_iff bit_not_iff bit_push_bit_iff bit_mask_iff bit_drop_bit_eq)

lemma with_topIndex [simp]: "with_top (statusWord s) (topIndex s) = statusWord s"
  unfolding with_top_def top_mask word3 topIndex_def
  by (auto intro!: bit_word_eqI simp: bit_unsigned_iff bit_or_iff bit_and_iff bit_not_iff bit_push_bit_iff bit_mask_iff bit_drop_bit_eq)

lemma topIndex_below8 [simp]: "topIndex s < 8"
proof -
  have "topIndex s AND 7 = topIndex s" by (rule topIndex_with_top [symmetric, OF with_topIndex [symmetric]])
  then show ?thesis by (metis and7_below8)
qed

text \<open>The two tag updates.\<close>

definition tag_clr :: "u32 \<Rightarrow> u16 \<Rightarrow> u16" where
  "tag_clr t w = w AND NOT (push_bit (unat t * 2) 3)"

definition tag_set :: "u32 \<Rightarrow> u16 \<Rightarrow> u16" where
  "tag_set t w = w OR push_bit (unat t * 2) 3"

lemma tag_valid: "(ucast (logic32 0 (ucast tg) (NOT (shift32 0 0 (push_bit n 3)))) :: u16) = tg AND NOT (push_bit n 3)"
  unfolding word3 logic32_def shift32_def
  by (rule bit_word_eqI) (auto simp: bit_unsigned_iff bit_and_iff bit_not_iff bit_push_bit_iff bit_mask_iff)

lemma tag_empty: "(ucast (logic32 (Suc 0) (ucast tg) (shift32 0 0 (push_bit n 3))) :: u16) = tg OR push_bit n 3"
  unfolding word3 logic32_def shift32_def
  by (rule bit_word_eqI) (auto simp: bit_unsigned_iff bit_or_iff bit_push_bit_iff bit_mask_iff)

lemma ld_words: "(ucast (ldn 2 M (b + 2)) :: u32) = ucast (statusWord (x87_at M b))"
  "(ucast (ldn 2 M (b + 4)) :: u32) = ucast (tagWord (x87_at M b))"
  by (auto intro!: bit_word_eqI simp: x87_at_def bit_unsigned_iff bit_ldn)

lemma outside_words [simp]: "outside b c \<Longrightarrow> stn 2 M (b + 2) v c = M c" "outside b c \<Longrightarrow> stn 2 M (b + 4) v c = M c"
  using outside_stn [of b c 2 2 M v] outside_stn [of b c 4 2 M v] by simp_all

lemmas x87_words = x87_at_sw x87_at_tag ld_words sw_top tag_valid tag_empty

section \<open>Emitters as functions of the x87 view\<close>

record xview =
  xs :: X87State
  xtop :: u32
  xfp :: "nat \<Rightarrow> u64"

definition view :: "nat \<Rightarrow> nat \<Rightarrow> a64 \<Rightarrow> xview" where
  "view X t m = \<lparr>xs = x87_at (amem m) (xreg m X), xtop = wv m t, xfp = vreg m\<rparr>"

text \<open>
  Registers a sequence is given: the base \<open>X\<close>, the TOP register \<open>t\<close>, scratch \<open>rs\<close>, and the pointer to
  the register file \<open>bst\<close> when it is not negative.
\<close>

definition regs_ok :: "nat \<Rightarrow> nat \<Rightarrow> nat list \<Rightarrow> int \<Rightarrow> bool" where
  "regs_ok X t rs bst \<longleftrightarrow> X < 31 \<and> t < 31 \<and> list_all (\<lambda>r. r < 31) rs \<and> distinct (X # t # rs) \<and>
     (0 \<le> bst \<longrightarrow> bst < 31 \<and> nat bst \<notin> set (t # rs))"

definition ready :: "nat \<Rightarrow> nat \<Rightarrow> int \<Rightarrow> a64 \<Rightarrow> bool" where
  "ready X t bst m \<longleftrightarrow> wv m t < 8 \<and> xreg m t = ucast (wv m t) \<and> (0 \<le> bst \<longrightarrow> xreg m (nat bst) = xreg m X + 8)"

text \<open>What a sequence leaves alone: memory outside the state, other registers, flags.\<close>

definition frame :: "u64 \<Rightarrow> nat list \<Rightarrow> a64 \<Rightarrow> a64 \<Rightarrow> bool" where
  "frame b rs m k \<longleftrightarrow> (\<forall>c. outside b c \<longrightarrow> amem k c = amem m c) \<and> (\<forall>r. r \<notin> set rs \<longrightarrow> xreg k r = xreg m r) \<and>
     flagN k = flagN m \<and> flagZ k = flagZ m \<and> flagC k = flagC m \<and> flagV k = flagV m"

definition implements :: "nat \<Rightarrow> nat \<Rightarrow> nat list \<Rightarrow> int \<Rightarrow> u32 list option \<Rightarrow> (xview \<Rightarrow> xview) \<Rightarrow> bool" where
  "implements X t rs bst c f \<longleftrightarrow>
     (\<forall>m. ready X t bst m \<longrightarrow>
       (\<exists>k. execo c m = Some k \<and> ready X t bst k \<and> view X t k = f (view X t m) \<and> frame (xreg m X) (t # rs) m k))"

lemma implementsI:
  assumes "\<And>m. ready X t bst m \<Longrightarrow>
    \<exists>k. execo c m = Some k \<and> ready X t bst k \<and> view X t k = f (view X t m) \<and> frame (xreg m X) (t # rs) m k"
  shows "implements X t rs bst c f"
  using assms by (simp add: implements_def)

lemma frame_trans: "frame b rs m k \<Longrightarrow> frame b rs k l \<Longrightarrow> frame b rs m l"
  by (simp add: frame_def)

lemma frame_rules [simp]:
  "frame b rs m m"
  "r \<in> set rs \<Longrightarrow> frame b rs m k \<Longrightarrow> frame b rs m (setw r w k)"
  "r \<in> set rs \<Longrightarrow> frame b rs m k \<Longrightarrow> frame b rs m (setx r x k)"
  "frame b rs m k \<Longrightarrow> frame b rs m (wrv d x k)"
  "(\<And>c. outside b c \<Longrightarrow> M c = amem m c) \<Longrightarrow> frame b rs m k \<Longrightarrow> frame b rs m (setm M k)"
  by (auto simp: frame_def)

lemma implements_nil: "implements X t rs bst (eseq []) (\<lambda>v. v)"
  by (rule implementsI) (simp add: execo_eseq)

lemma implements_cons:
  assumes "implements X t rs bst c f" "implements X t rs bst (eseq cs) g" "X \<notin> set (t # rs)"
  shows "implements X t rs bst (eseq (c # cs)) (\<lambda>v. g (f v))"
proof (rule implementsI)
  fix m assume "ready X t bst m"
  then obtain k where k: "execo c m = Some k" "ready X t bst k" "view X t k = f (view X t m)" "frame (xreg m X) (t # rs) m k"
    using assms(1) by (auto simp: implements_def)
  then obtain l where l: "execo (eseq cs) k = Some l" "ready X t bst l" "view X t l = g (view X t k)" "frame (xreg k X) (t # rs) k l"
    using assms(2) by (auto simp: implements_def)
  have "xreg k X = xreg m X" using k(4) assms(3) by (auto simp: frame_def)
  then show "\<exists>l. execo (eseq (c # cs)) m = Some l \<and> ready X t bst l \<and> view X t l = g (f (view X t m)) \<and> frame (xreg m X) (t # rs) m l"
    using k l frame_trans by (auto simp: execo_eseq)
qed

lemma implements_list:
  assumes "list_all2 (implements X t rs bst) cs fs" "X \<notin> set (t # rs)"
  shows "implements X t rs bst (eseq cs) (fold (\<lambda>f v. f v) fs)"
  using assms
proof (induction rule: list_all2_induct)
  case Nil
  then show ?case using implements_nil [of X t rs bst] by simp
next
  case (Cons c cs f fs)
  then show ?case using implements_cons [of X t rs bst c f cs "fold (\<lambda>f v. f v) fs"] by (simp add: comp_def)
qed

section \<open>The pieces\<close>

lemma regs_okD:
  assumes "regs_ok X t rs bst"
  shows "X < 31" "t < 31" "X \<noteq> t" "t \<noteq> X" "\<And>a. a \<in> set rs \<Longrightarrow> a < 31 \<and> a \<noteq> X \<and> X \<noteq> a \<and> a \<noteq> t \<and> t \<noteq> a"
    "0 \<le> bst \<Longrightarrow> bst < 31 \<and> nat bst \<noteq> t" "\<And>a. 0 \<le> bst \<Longrightarrow> a \<in> set rs \<Longrightarrow> nat bst \<noteq> a"
  using assms by (auto simp: regs_ok_def list_all_iff)

lemmas view_simps = ready_def view_def exec_rules x87_words

lemma impl_push_fd:
  assumes "regs_ok X t rs bst"
  shows "implements X t rs bst (emit_x87_push_fully_deferred (int t)) (\<lambda>v. v\<lparr>xtop := (xtop v - 1) AND 7\<rparr>)"
  using regs_okD [OF assms] by (intro implementsI) (simp add: emit_x87_push_fully_deferred_def view_simps)

lemma impl_pop_to:
  assumes "regs_ok X t rs bst"
  shows "implements X t rs bst (emit_x87_pop_top_only (int t)) (\<lambda>v. v\<lparr>xtop := (xtop v + 1) AND 7\<rparr>)"
  using regs_okD [OF assms] by (intro implementsI) (simp add: emit_x87_pop_top_only_def view_simps)

lemma impl_store_top:
  assumes "regs_ok X t rs bst" "a \<in> set rs"
  shows "implements X t rs bst (emit_store_top (int X) (int t) (int a))
    (\<lambda>v. v\<lparr>xs := (xs v)\<lparr>statusWord := with_top (statusWord (xs v)) (xtop v)\<rparr>\<rparr>)"
  using regs_okD [OF assms(1)] assms(2) by (intro implementsI) (simp add: emit_store_top_def view_simps)

lemma impl_tag_clear:
  assumes "regs_ok X t rs bst" "a \<in> set rs" "b \<in> set rs" "a \<noteq> b"
  shows "implements X t rs bst (emit_x87_tag_clear (int X) (int t) (int a) (int b))
    (\<lambda>v. v\<lparr>xs := (xs v)\<lparr>tagWord := tag_clr (xtop v) (tagWord (xs v))\<rparr>\<rparr>)"
  using regs_okD [OF assms(1)] assms(2-4) by (intro implementsI) (simp add: emit_x87_tag_clear_def view_simps bit_pos tag_clr_def)

lemma and7_id: "t < 8 \<Longrightarrow> t AND 7 = t" for t :: u32
  by (drule below8) auto

lemma impl_tag_set:
  assumes "regs_ok X t rs bst" "a \<in> set rs" "b \<in> set rs" "a \<noteq> b"
  shows "implements X t rs bst (Some (emit_bitfield 0 2 0 31 30 (int t) (int b) @ emit_tag_or (int X) (int a) (int b)))
    (\<lambda>v. v\<lparr>xs := (xs v)\<lparr>tagWord := tag_set (xtop v) (tagWord (xs v))\<rparr>\<rparr>)"
  using regs_okD [OF assms(1)] assms(2-4) by (intro implementsI) (simp add: emit_tag_or_def view_simps bit_pos tag_set_def)

text \<open>Setting the tag of the slot \<open>i\<close> below TOP.\<close>

lemma impl_pop_slot:
  assumes "regs_ok X t rs bst" "a \<in> set rs" "b \<in> set rs" "a \<noteq> b" "i < 4096"
  shows "implements X t rs bst (emit_pop_slot (int X) (int t) (int a) (int b) (int i))
    (\<lambda>v. v\<lparr>xs := (xs v)\<lparr>tagWord := tag_set ((xtop v + of_nat i) AND 7) (tagWord (xs v))\<rparr>\<rparr>)"
  using regs_okD [OF assms(1)] assms(2-5) by (intro implementsI)
    (cases "i = 0"; simp add: emit_pop_slot_def emit_tag_or_def view_simps bit_pos tag_set_def and7_id)

lemma impl_add_and:
  assumes "regs_ok X t rs bst" "i < 4096"
  shows "implements X t rs bst (eseq [Some (emit_add_imm 0 0 0 0 (int i) (int t) (int t)), emit_and_imm 0 (int t) 0 0 2 (int t)])
    (\<lambda>v. v\<lparr>xtop := (xtop v + of_nat i) AND 7\<rparr>)"
  using regs_okD [OF assms(1)] assms(2) by (intro implementsI) (simp add: view_simps)

section \<open>Push and pop\<close>

lemma implements_append:
  assumes "implements X t rs bst (eseq as) f" "implements X t rs bst (eseq bs) g" "X \<notin> set (t # rs)"
  shows "implements X t rs bst (eseq (as @ bs)) (\<lambda>v. g (f v))"
proof -
  have "execo (eseq (as @ bs)) m = execo (eseq [eseq as, eseq bs]) m" for m
    by (simp add: eseq_append execo_eseq split: Option.bind_split)
  then show ?thesis using implements_cons [OF assms(1) implements_cons [OF assms(2) implements_nil assms(3)] assms(3)]
    by (simp add: implements_def)
qed

lemma implements_one: "implements X t rs bst (eseq [c]) f = implements X t rs bst c f"
proof -
  have "execo (eseq [c]) m = execo c m" for m by (simp add: execo_eseq split: Option.bind_split)
  then show ?thesis by (simp add: implements_def)
qed

lemma base_apart: "regs_ok X t rs bst \<Longrightarrow> X \<notin> set (t # rs)"
  by (auto simp: regs_ok_def)

text \<open>The view when the TOP register agrees with the status word, and the pop that keeps the register file.\<close>

definition coherent :: "xview \<Rightarrow> bool" where
  "coherent v \<longleftrightarrow> xtop v = topIndex (xs v)"

definition pop_keep :: "X87State \<Rightarrow> X87State" where
  "pop_keep s = (pop s)\<lparr>st := st s\<rparr>"

definition to_state :: "X87State \<Rightarrow> xview \<Rightarrow> xview" where
  "to_state s v = v\<lparr>xs := s, xtop := topIndex s\<rparr>"

lemma push_words: "push s = s\<lparr>statusWord := with_top (statusWord s) ((topIndex s - 1) AND 7),
    tagWord := tag_clr ((topIndex s - 1) AND 7) (tagWord s)\<rparr>"
  by (simp add: push_def Let_def with_top_def tag_clr_def and.assoc)

lemma pop_words: "pop_keep s = s\<lparr>statusWord := with_top (statusWord s) ((topIndex s + 1) AND 7),
    tagWord := tag_set (topIndex s) (tagWord s)\<rparr>"
  by (simp add: pop_keep_def pop_def Let_def with_top_def tag_set_def and.assoc)

lemma topIndex_push_pop [simp]: "topIndex (push s) = (topIndex s - 1) AND 7" "topIndex (pop_keep s) = (topIndex s + 1) AND 7"
  by (subst topIndex_with_top; simp add: push_words pop_words and.assoc)+

lemma impl_push:
  assumes "regs_ok X t rs bst" "a \<in> set rs" "b \<in> set rs" "a \<noteq> b"
  shows "implements X t rs bst (emit_x87_push (int X) (int t) (int a) (int b))
    (\<lambda>v. let u = (xtop v - 1) AND 7 in v\<lparr>xs := (xs v)\<lparr>statusWord := with_top (statusWord (xs v)) u,
       tagWord := tag_clr u (tagWord (xs v))\<rparr>, xtop := u\<rparr>)"
  using regs_okD [OF assms(1)] assms(2-4) by (intro implementsI)
    (simp add: emit_x87_push_def emit_store_top_def emit_x87_tag_clear_def view_simps bit_pos tag_clr_def Let_def)

lemma impl_push_deferred:
  assumes "regs_ok X t rs bst" "a \<in> set rs" "b \<in> set rs" "a \<noteq> b"
  shows "implements X t rs bst (emit_x87_push_deferred (int X) (int t) (int a) (int b))
    (\<lambda>v. let u = (xtop v - 1) AND 7 in v\<lparr>xs := (xs v)\<lparr>tagWord := tag_clr u (tagWord (xs v))\<rparr>, xtop := u\<rparr>)"
  using regs_okD [OF assms(1)] assms(2-4) by (intro implementsI)
    (simp add: emit_x87_push_deferred_def emit_x87_tag_clear_def view_simps bit_pos tag_clr_def Let_def)

lemma impl_pop:
  assumes "regs_ok X t rs bst" "a \<in> set rs" "b \<in> set rs" "a \<noteq> b"
  shows "implements X t rs bst (emit_x87_pop (int X) (int t) (int a) (int b))
    (\<lambda>v. let u = (xtop v + 1) AND 7 in v\<lparr>xs := (xs v)\<lparr>statusWord := with_top (statusWord (xs v)) u,
       tagWord := tag_set (xtop v) (tagWord (xs v))\<rparr>, xtop := u\<rparr>)"
  using regs_okD [OF assms(1)] assms(2-4) by (intro implementsI)
    (simp add: emit_x87_pop_def emit_store_top_def emit_tag_or_def view_simps bit_pos tag_set_def Let_def)

lemma impl_pop_deferred:
  assumes "regs_ok X t rs bst" "a \<in> set rs" "b \<in> set rs" "a \<noteq> b"
  shows "implements X t rs bst (emit_x87_pop_deferred (int X) (int t) (int a) (int b))
    (\<lambda>v. let u = (xtop v + 1) AND 7 in v\<lparr>xs := (xs v)\<lparr>tagWord := tag_set (xtop v) (tagWord (xs v))\<rparr>, xtop := u\<rparr>)"
  using regs_okD [OF assms(1)] assms(2-4) by (intro implementsI)
    (simp add: emit_x87_pop_deferred_def emit_tag_or_def view_simps bit_pos tag_set_def Let_def)

section \<open>Batches\<close>

lemma uint_half: "uint (x :: u16) < 65536" "(word_of_int (uint x) :: u32) = ucast x"
  using uint_lt2p [of x] by simp_all

lemma and_not_down: "(ucast (ucast tg AND NOT y :: u32) :: u16) = tg AND NOT (ucast y)"
  by (rule bit_word_eqI) (auto simp: bit_unsigned_iff bit_and_iff bit_not_iff)

lemma and_not_down2: "(ucast (ucast tg AND NOT y AND NOT z :: u32) :: u16) = tg AND NOT (ucast (y OR z))"
  by (rule bit_word_eqI) (auto simp: bit_unsigned_iff bit_and_iff bit_not_iff bit_or_iff)

lemma impl_set_valid_batch:
  assumes "regs_ok X t rs bst" "a \<in> set rs" "b \<in> set rs" "w \<in> set rs" "distinct [a, b, w]"
  shows "implements X t rs bst (emit_x87_tag_set_valid_batch (int X) (int t) (int a) (int b) (int w) n)
    (\<lambda>v. v\<lparr>xs := (xs v)\<lparr>tagWord := tagWord (xs v) AND NOT
       (let k = push_bit (unat (xtop v) * 2) (ucast (batch_mask n)) :: u32 in ucast (k OR drop_bit 16 k))\<rparr>\<rparr>)"
  using regs_okD [OF assms(1)] assms(2-5) by (intro implementsI)
    (simp add: emit_x87_tag_set_valid_batch_def view_simps bit_pos Let_def logic32_def shift32_def uint_half and_not_down2)

text \<open>
  The set-empty batch keeps the tag word in a register while its slots are marked: the register is
  followed through the loop.
\<close>

definition same_but :: "nat set \<Rightarrow> a64 \<Rightarrow> a64 \<Rightarrow> bool" where
  "same_but R m k \<longleftrightarrow> amem k = amem m \<and> vreg k = vreg m \<and> (\<forall>r. r \<notin> R \<longrightarrow> xreg k r = xreg m r) \<and>
     flagN k = flagN m \<and> flagZ k = flagZ m \<and> flagC k = flagC m \<and> flagV k = flagV m"

lemma exec_batch_slot:
  assumes "t < 31" "a < 31" "b < 31" "w < 31" "distinct [t, a, b, w]" "i < 4096"
  shows "\<exists>k. execo (emit_batch_slot (int t) (int a) (int b) (int w) (int i)) m = Some k \<and>
     wv k w = wv m w OR push_bit (unat ((wv m t - of_nat i) AND 7) * 2) 3 \<and> same_but {a, b, w} m k"
  using assms by (simp add: emit_batch_slot_def exec_rules bit_pos logic32_def shift32_def same_but_def)

lemma exec_batch_slots:
  assumes "t < 31" "a < 31" "b < 31" "w < 31" "distinct [t, a, b, w]" "\<forall>i \<in> set is. g i < 4096"
  shows "\<exists>k. execo (eseq (map (\<lambda>i. emit_batch_slot (int t) (int a) (int b) (int w) (int (g i))) is)) m = Some k \<and>
     wv k w = fold (\<lambda>i v. v OR push_bit (unat ((wv m t - of_nat (g i)) AND 7) * 2) 3) is (wv m w) \<and> same_but {a, b, w} m k"
  using assms(6)
proof (induction "is" arbitrary: m)
  case Nil
  then show ?case by (simp add: execo_eseq same_but_def)
next
  case (Cons i "is")
  obtain k where k: "execo (emit_batch_slot (int t) (int a) (int b) (int w) (int (g i))) m = Some k"
    "wv k w = wv m w OR push_bit (unat ((wv m t - of_nat (g i)) AND 7) * 2) 3" "same_but {a, b, w} m k"
    using exec_batch_slot [OF assms(1-5), of "g i" m] Cons.prems by auto
  have "wv k t = wv m t" using k(3) assms(5) by (auto simp: same_but_def wv_def)
  then show ?case using Cons.IH [of k] Cons.prems k by (auto simp: execo_eseq same_but_def)
qed

lemma fold_tag_set:
  "(ucast (fold (\<lambda>i v. v OR push_bit (unat (h i) * 2) 3) is (w :: u32)) :: u16) = fold (\<lambda>i. tag_set (h i)) is (ucast w)"
proof (induction "is" arbitrary: w)
  case (Cons i "is")
  have "(ucast (w OR push_bit n 3) :: u16) = ucast w OR push_bit n 3" for n
    unfolding word3 by (rule bit_word_eqI) (auto simp: bit_unsigned_iff bit_or_iff bit_push_bit_iff bit_mask_iff)
  then show ?case by (simp add: Cons.IH tag_set_def)
qed simp

lemma ucast_half_up [simp]: "(ucast (ucast (x :: u16) :: u32) :: u16) = x"
  by (rule bit_word_eqI) (auto simp: bit_unsigned_iff)

lemma half_of_reg: "(ucast (xreg m r) :: u16) = ucast (wv m r)"
  by (rule bit_word_eqI) (auto simp: wv_def bit_unsigned_iff)

lemma impl_set_empty_batch:
  assumes "regs_ok X t rs bst" "a \<in> set rs" "b \<in> set rs" "w \<in> set rs" "distinct [a, b, w]" "n < 4096"
  shows "implements X t rs bst (emit_x87_tag_set_empty_batch (int X) (int t) (int a) (int b) (int w) n)
    (\<lambda>v. v\<lparr>xs := (xs v)\<lparr>tagWord := fold (\<lambda>i. tag_set ((xtop v - of_nat (n - i)) AND 7)) [0..<n] (tagWord (xs v))\<rparr>\<rparr>)"
proof (rule implementsI)
  fix m assume r: "ready X t bst m"
  let ?m = "setw w (ucast (tagWord (x87_at (amem m) (xreg m X)))) m"
  note d = regs_okD [OF assms(1)]
  have b: "\<forall>i \<in> set [0..<n]. n - i < 4096" using assms(6) by auto
  obtain k where k: "execo (eseq (map (\<lambda>i. emit_batch_slot (int t) (int a) (int b) (int w) (int (n - i))) [0..<n])) ?m = Some k"
    "wv k w = fold (\<lambda>i v. v OR push_bit (unat ((wv ?m t - of_nat (n - i)) AND 7) * 2) 3) [0..<n] (wv ?m w)" "same_but {a, b, w} ?m k"
    using exec_batch_slots [OF _ _ _ _ _ b, of t a b w ?m] d assms(2-5) by auto
  have kt: "wv k t = wv m t" "xreg k X = xreg m X" "xreg k t = xreg m t" "amem k = amem m" "vreg k = vreg m"
    "0 \<le> bst \<Longrightarrow> xreg k (nat bst) = xreg m (nat bst)"
    using k(3) d assms(2-5) by (auto simp: same_but_def wv_def)
  have f: "frame (xreg m X) (t # rs) m k" using k(3) assms(2-4) by (auto simp: same_but_def frame_def)
  show "\<exists>k. execo (emit_x87_tag_set_empty_batch (int X) (int t) (int a) (int b) (int w) n) m = Some k \<and> ready X t bst k \<and>
      view X t k = (view X t m)\<lparr>xs := (xs (view X t m))\<lparr>tagWord :=
        fold (\<lambda>i. tag_set ((xtop (view X t m) - of_nat (n - i)) AND 7)) [0..<n] (tagWord (xs (view X t m)))\<rparr>\<rparr> \<and>
      frame (xreg m X) (t # rs) m k"
    using r k kt f d assms(2-4)
    by (simp add: emit_x87_tag_set_empty_batch_def eseq_append view_simps half_of_reg fold_tag_set)
qed

section \<open>Slots\<close>

text \<open>The \<open>n\<close> slots from \<open>t\<close> on, around the register file.\<close>

definition in_slots :: "nat \<Rightarrow> nat \<Rightarrow> nat \<Rightarrow> bool" where
  "in_slots t n q \<longleftrightarrow> (\<exists>j < n. q = (t + j) mod 8)"

lemma in_slots_0 [simp]: "\<not> in_slots t 0 q"
  by (simp add: in_slots_def)

lemma in_slots_front: "in_slots t (Suc n) q \<longleftrightarrow> q = t mod 8 \<or> in_slots (Suc t) n q"
  by (auto simp: in_slots_def less_Suc_eq_0_disj)

lemma in_slots_back: "in_slots t (Suc n) q \<longleftrightarrow> in_slots t n q \<or> q = (t + n) mod 8"
  by (auto simp: in_slots_def less_Suc_eq)

lemma in_slots_mod: "in_slots (t mod 8) n q = in_slots t n q"
  by (simp add: in_slots_def mod_simps)

lemma unat_slot: "unat ((t + of_nat j) AND 7) = (unat t + j) mod 8" for t :: u32
proof -
  have "unat (t + of_nat j) = (unat t + j) mod 2 ^ 32" by (simp add: unat_word_ariths unat_of_nat mod_simps)
  then show ?thesis by (simp add: unat_and7 mod_mod_cancel)
qed

lemma bit_tag_clr: "unat t < 8 \<Longrightarrow> bit (tag_clr t w) i \<longleftrightarrow> bit w i \<and> i div 2 \<noteq> unat t"
  unfolding tag_clr_def word3
  by (auto simp: bit_and_iff bit_not_iff bit_push_bit_iff bit_mask_iff dest: bit_imp_le_length)

lemma bit_tag_set: "unat t < 8 \<Longrightarrow> bit (tag_set t w) i \<longleftrightarrow> bit w i \<or> i div 2 = unat t"
  unfolding tag_set_def word3 by (auto simp: bit_or_iff bit_push_bit_iff bit_mask_iff)

lemma unat_below8 [simp]: "unat (w AND 7) < 8" "unat (topIndex s) < 8" for w :: u32
  by (simp add: unat_and7) (use topIndex_below8 [of s] in \<open>simp add: word_less_nat_alt\<close>)

lemma bit_fold_tag_set:
  "(\<And>i. i \<in> set js \<Longrightarrow> unat (h i) < 8) \<Longrightarrow> bit (fold (\<lambda>i. tag_set (h i)) js w) q \<longleftrightarrow> bit w q \<or> (\<exists>j \<in> set js. q div 2 = unat (h j))"
  by (induction js arbitrary: w) (auto simp: bit_tag_set)

lemma bit_batch_mask: "n \<le> 8 \<Longrightarrow> bit (batch_mask n) i \<longleftrightarrow> i < 2 * n"
proof -
  have "push_bit (2 * n) 1 - 1 = (Bit_Operations.mask (2 * n) :: u32)" by (simp add: mask_eq_exp_minus_1)
  then show "n \<le> 8 \<Longrightarrow> ?thesis" by (auto simp: batch_mask_def bit_unsigned_iff bit_mask_iff)
qed

lemma bit_wrapped:
  assumes "n \<le> 8" "unat t < 8"
  shows "bit (let k = push_bit (unat t * 2) (ucast (batch_mask n)) :: u32 in ucast (k OR drop_bit 16 k) :: u16) i \<longleftrightarrow>
    i < 16 \<and> in_slots (unat t) n (i div 2)"
proof -
  have b: "bit (push_bit (unat t * 2) (ucast (batch_mask n)) :: u32) i \<longleftrightarrow> 2 * unat t \<le> i \<and> i < 2 * unat t + 2 * n" for i
    using assms by (auto simp: bit_push_bit_iff bit_unsigned_iff bit_batch_mask)
  have "in_slots u n q \<longleftrightarrow> u \<le> q \<and> q < u + n \<or> u \<le> q + 8 \<and> q + 8 < u + n" if "u < 8" "q < 8" for u q
  proof
    assume "in_slots u n q"
    then obtain j where "j < n" "q = (u + j) mod 8" by (auto simp: in_slots_def)
    then show "u \<le> q \<and> q < u + n \<or> u \<le> q + 8 \<and> q + 8 < u + n"
      using that assms(1) by (cases "u + j < 8") (auto simp: le_mod_geq)
  next
    assume "u \<le> q \<and> q < u + n \<or> u \<le> q + 8 \<and> q + 8 < u + n"
    then show "in_slots u n q" unfolding in_slots_def
    proof
      assume "u \<le> q \<and> q < u + n"
      then show "\<exists>j<n. q = (u + j) mod 8" using that by (intro exI [of _ "q - u"]) auto
    next
      assume "u \<le> q + 8 \<and> q + 8 < u + n"
      then show "\<exists>j<n. q = (u + j) mod 8" using that by (intro exI [of _ "q + 8 - u"]) auto
    qed
  qed
  from this [of "unat t" "i div 2"] have "in_slots (unat t) n (i div 2) \<longleftrightarrow>
      2 * unat t \<le> i \<and> i < 2 * unat t + 2 * n \<or> 2 * unat t \<le> i + 16 \<and> i + 16 < 2 * unat t + 2 * n" if "i < 16"
    using that assms(2) by arith
  then show ?thesis by (auto simp: Let_def bit_unsigned_iff bit_or_iff bit_drop_bit_eq b add.commute)
qed

section \<open>Deferred pushes and pops\<close>

lemma succ_pred_slot: "(unat ((t - 1) AND 7) + 1) mod 8 = unat t mod 8" "unat ((t + 1) AND 7) = (unat t + 1) mod 8" for t :: u32
proof -
  show "unat ((t + 1) AND 7) = (unat t + 1) mod 8" using unat_slot [of t 1] by simp
  show "(unat ((t - 1) AND 7) + 1) mod 8 = unat t mod 8"
    using unat_slot [of "t - 1" 1] by (simp add: unat_and7 mod_simps)
qed

lemma word_steps:
  "s' = s\<lparr>statusWord := with_top (statusWord s) u, tagWord := w\<rparr> \<Longrightarrow>
   s'\<lparr>statusWord := with_top (statusWord s') v, tagWord := x\<rparr> = s\<lparr>statusWord := with_top (statusWord s) v, tagWord := x\<rparr>"
  by simp

lemma push_pop_words:
  "push s = s\<lparr>statusWord := with_top (statusWord s) (topIndex (push s)), tagWord := tagWord (push s)\<rparr>"
  "pop_keep s = s\<lparr>statusWord := with_top (statusWord s) (topIndex (pop_keep s)), tagWord := tagWord (pop_keep s)\<rparr>"
  unfolding topIndex_push_pop by (simp_all add: push_words pop_words)

lemma push_n_words:
  "(push ^^ n) s = s\<lparr>statusWord := with_top (statusWord s) (topIndex ((push ^^ n) s)), tagWord := tagWord ((push ^^ n) s)\<rparr>"
proof (induction n)
  case (Suc n)
  show ?case unfolding funpow.simps comp_def
    by (rule trans [OF push_pop_words(1) word_steps [OF Suc.IH]])
qed simp

lemma push_n_bits:
  "bit (tagWord ((push ^^ n) s)) i \<longleftrightarrow> bit (tagWord s) i \<and> \<not> in_slots (unat (topIndex ((push ^^ n) s))) n (i div 2)"
proof (induction n)
  case (Suc n)
  let ?s = "(push ^^ n) s"
  have "in_slots (Suc (unat (topIndex (push ?s)))) n (i div 2) = in_slots (unat (topIndex ?s)) n (i div 2)"
    using in_slots_mod [of "Suc (unat (topIndex (push ?s)))" n "i div 2"] succ_pred_slot(1) [of "topIndex ?s"] by simp
  then have "in_slots (unat (topIndex (push ?s))) (Suc n) (i div 2) \<longleftrightarrow>
      i div 2 = unat (topIndex (push ?s)) \<or> in_slots (unat (topIndex ?s)) n (i div 2)"
    by (simp add: in_slots_front)
  moreover have "bit (tagWord (push ?s)) i \<longleftrightarrow> bit (tagWord ?s) i \<and> i div 2 \<noteq> unat (topIndex (push ?s))"
    by (simp only: topIndex_push_pop) (simp add: push_words bit_tag_clr)
  ultimately show ?case using Suc by auto
qed simp

lemma pop_n_words:
  "(pop_keep ^^ n) s = s\<lparr>statusWord := with_top (statusWord s) (topIndex ((pop_keep ^^ n) s)), tagWord := tagWord ((pop_keep ^^ n) s)\<rparr>"
proof (induction n)
  case (Suc n)
  show ?case unfolding funpow.simps comp_def
    by (rule trans [OF push_pop_words(2) word_steps [OF Suc.IH]])
qed simp

lemma pop_n_top: "unat (topIndex ((pop_keep ^^ n) s)) = (unat (topIndex s) + n) mod 8"
  by (induction n) (simp_all add: succ_pred_slot(2) mod_simps)

lemma pop_n_bits:
  "bit (tagWord ((pop_keep ^^ n) s)) i \<longleftrightarrow> bit (tagWord s) i \<or> in_slots (unat (topIndex s)) n (i div 2)"
proof (induction n)
  case (Suc n)
  let ?s = "(pop_keep ^^ n) s"
  have "bit (tagWord (pop_keep ?s)) i \<longleftrightarrow> bit (tagWord ?s) i \<or> i div 2 = unat (topIndex ?s)"
    by (simp add: pop_words bit_tag_set)
  then show ?case using Suc by (simp add: pop_n_top in_slots_back)
qed simp

end
