(* ===== verification/EmitX87Stack.thy ===== *)
theory EmitX87Stack
  imports EmitX87Facts
begin

text \<open>
  The emitted stack operations against the runtime's register file: single pushes and pops, pops of
  several registers, and the deferred forms, in which TOP moves in a register and the status and tag
  words are written once at the end.
\<close>

section \<open>Runs of deferred operations\<close>

text \<open>After \<open>n\<close> deferred pushes the TOP register holds the TOP the runtime would have.\<close>

lemma deferred_tops:
  "((\<lambda>u. (u - 1) AND 7) ^^ n) (topIndex s) = topIndex ((push ^^ n) s)"
  "((\<lambda>u. (u + 1) AND 7) ^^ n) (topIndex s) = topIndex ((pop_keep ^^ n) s)"
  by (induction n) simp_all

lemma impl_replicate:
  assumes "implements X t rs bst c (\<lambda>v. v\<lparr>xtop := h (xtop v)\<rparr>)" "X \<notin> set (t # rs)"
  shows "implements X t rs bst (eseq (replicate n c)) (\<lambda>v. v\<lparr>xtop := (h ^^ n) (xtop v)\<rparr>)"
proof (induction n)
  case 0
  then show ?case using implements_nil [of X t rs bst] by simp
next
  case (Suc n)
  show ?case using implements_cons [OF assms(1) Suc assms(2)] by (simp add: funpow_swap1)
qed

lemma valid_batch_is_pushes:
  assumes "n \<le> 8"
  shows "tagWord s AND NOT (let k = push_bit (unat (topIndex ((push ^^ n) s)) * 2) (ucast (batch_mask n)) :: u32
      in ucast (k OR drop_bit 16 k)) = tagWord ((push ^^ n) s)"
  using bit_wrapped [OF assms, of "topIndex ((push ^^ n) s)"]
  by (intro bit_word_eqI) (auto simp: bit_and_iff bit_not_iff push_n_bits)

lemma mod8_cancel: "(a + c) mod 8 = (b + c) mod 8 \<Longrightarrow> a mod 8 = b mod 8" for a b c :: nat
proof -
  have "a mod 8 = ((a + c) mod 8 + 7 * c) mod 8" for a c :: nat by (simp add: mod_simps)
  then show "(a + c) mod 8 = (b + c) mod 8 \<Longrightarrow> a mod 8 = b mod 8" by metis
qed

lemma empty_batch_is_pops:
  "fold (\<lambda>i. tag_set ((topIndex ((pop_keep ^^ n) s) - of_nat (n - i)) AND 7)) [0..<n] (tagWord s) = tagWord ((pop_keep ^^ n) s)"
proof -
  let ?t = "topIndex ((pop_keep ^^ n) s)"
  have "unat ((?t - of_nat (n - i)) AND 7) = (unat (topIndex s) + i) mod 8" if "i < n" for i
  proof -
    have "(unat ((?t - of_nat (n - i)) AND 7) + (n - i)) mod 8 = unat ?t mod 8"
      using unat_slot [of "?t - of_nat (n - i)" "n - i"] by (simp add: unat_and7 mod_simps)
    also have "\<dots> = (unat (topIndex s) + i + (n - i)) mod 8" using that by (simp add: pop_n_top)
    finally have "unat ((?t - of_nat (n - i)) AND 7) mod 8 = (unat (topIndex s) + i) mod 8"
      using mod8_cancel by blast
    then show ?thesis by simp
  qed
  then show ?thesis by (intro bit_word_eqI) (auto simp: bit_fold_tag_set pop_n_bits in_slots_def)
qed

text \<open>From a description of code to its effect on a machine whose TOP register is in step with memory.\<close>

definition in_step :: "nat \<Rightarrow> nat \<Rightarrow> a64 \<Rightarrow> bool" where
  "in_step X t m \<longleftrightarrow> wv m t = topIndex (x87_at (amem m) (xreg m X))"

definition reaches :: "nat \<Rightarrow> nat \<Rightarrow> nat list \<Rightarrow> int \<Rightarrow> u32 list option \<Rightarrow> a64 \<Rightarrow> X87State \<Rightarrow> bool" where
  "reaches X t rs bst c m s \<longleftrightarrow>
     (\<exists>k. execo c m = Some k \<and> x87_at (amem k) (xreg k X) = s \<and> in_step X t k \<and> ready X t bst k \<and>
          vreg k = vreg m \<and> frame (xreg m X) (t # rs) m k)"

lemma reachesI:
  assumes "implements X t rs bst c f" "ready X t bst m" "f (view X t m) = to_state s (view X t m)"
  shows "reaches X t rs bst c m s"
  using assms by (fastforce simp: implements_def reaches_def in_step_def view_def to_state_def)

lemma impl_deferred_pushes:
  assumes "regs_ok X t rs bst" "a \<in> set rs" "b \<in> set rs" "w \<in> set rs" "distinct [a, b, w]"
  shows "implements X t rs bst (eseq (replicate n (emit_x87_push_fully_deferred (int t)) @
      [emit_x87_tag_set_valid_batch (int X) (int t) (int a) (int b) (int w) n, emit_store_top (int X) (int t) (int a)]))
    (\<lambda>v. let u = ((\<lambda>u. (u - 1) AND 7) ^^ n) (xtop v); s = xs v in
       v\<lparr>xtop := u, xs := s\<lparr>tagWord := tagWord s AND NOT
         (let k = push_bit (unat u * 2) (ucast (batch_mask n)) :: u32 in ucast (k OR drop_bit 16 k)),
         statusWord := with_top (statusWord s) u\<rparr>\<rparr>)"
proof -
  note x = base_apart [OF assms(1)]
  show ?thesis
    using implements_append [OF impl_replicate [OF impl_push_fd [OF assms(1)] x, of n]
      implements_cons [OF impl_set_valid_batch [OF assms, of n] implements_one [THEN iffD2, OF impl_store_top [OF assms(1,2)]] x] x]
    by (simp add: Let_def)
qed

lemma impl_deferred_pops:
  assumes "regs_ok X t rs bst" "a \<in> set rs" "b \<in> set rs" "w \<in> set rs" "distinct [a, b, w]" "n < 4096"
  shows "implements X t rs bst (eseq (replicate n (emit_x87_pop_top_only (int t)) @
      [emit_x87_tag_set_empty_batch (int X) (int t) (int a) (int b) (int w) n, emit_store_top (int X) (int t) (int a)]))
    (\<lambda>v. let u = ((\<lambda>u. (u + 1) AND 7) ^^ n) (xtop v); s = xs v in
       v\<lparr>xtop := u, xs := s\<lparr>tagWord := fold (\<lambda>i. tag_set ((u - of_nat (n - i)) AND 7)) [0..<n] (tagWord s),
         statusWord := with_top (statusWord s) u\<rparr>\<rparr>)"
proof -
  note x = base_apart [OF assms(1)]
  show ?thesis
    using implements_append [OF impl_replicate [OF impl_pop_to [OF assms(1)] x, of n]
      implements_cons [OF impl_set_empty_batch [OF assms] implements_one [THEN iffD2, OF impl_store_top [OF assms(1,2)]] x] x]
    by (simp add: Let_def)
qed

lemma impl_pop_slots:
  assumes "regs_ok X t rs bst" "a \<in> set rs" "b \<in> set rs" "a \<noteq> b" "\<forall>i \<in> set is. i < 4096"
  shows "implements X t rs bst (eseq (map (\<lambda>i. emit_pop_slot (int X) (int t) (int a) (int b) (int i)) is))
    (\<lambda>v. v\<lparr>xs := (xs v)\<lparr>tagWord := fold (\<lambda>i. tag_set ((xtop v + of_nat i) AND 7)) is (tagWord (xs v))\<rparr>\<rparr>)"
  using assms(5)
proof (induction "is")
  case Nil
  then show ?case using implements_nil [of X t rs bst] by simp
next
  case (Cons i "is")
  then show ?case using implements_cons [OF impl_pop_slot [OF assms(1-4), of i] Cons.IH base_apart [OF assms(1)]] by simp
qed

lemma slots_are_pops:
  "fold (\<lambda>i. tag_set ((topIndex s + of_nat i) AND 7)) [0..<n] (tagWord s) = tagWord ((pop_keep ^^ n) s)"
  by (intro bit_word_eqI) (auto simp: bit_fold_tag_set pop_n_bits in_slots_def unat_slot)

lemma impl_pop_n:
  assumes "regs_ok X t rs bst" "a \<in> set rs" "b \<in> set rs" "a \<noteq> b" "n < 4096"
  shows "implements X t rs bst (emit_x87_pop_n (int X) (int t) (int a) (int b) n)
    (\<lambda>v. let u = (xtop v + of_nat n) AND 7; s = xs v in
       v\<lparr>xtop := u, xs := s\<lparr>tagWord := fold (\<lambda>i. tag_set ((xtop v + of_nat i) AND 7)) [0..<n] (tagWord s),
         statusWord := with_top (statusWord s) u\<rparr>\<rparr>)"
proof -
  note x = base_apart [OF assms(1)]
  have b: "\<forall>i \<in> set [0..<n]. i < 4096" using assms(5) by auto
  have tl: "implements X t rs bst (eseq ([Some (emit_add_imm 0 0 0 0 (int n) (int t) (int t)), emit_and_imm 0 (int t) 0 0 2 (int t)] @
      [emit_store_top (int X) (int t) (int a)]))
    (\<lambda>v. v\<lparr>xtop := (xtop v + of_nat n) AND 7, xs := (xs v)\<lparr>statusWord := with_top (statusWord (xs v)) ((xtop v + of_nat n) AND 7)\<rparr>\<rparr>)"
    using implements_append [OF impl_add_and [OF assms(1,5)] implements_one [THEN iffD2, OF impl_store_top [OF assms(1,2)]] x]
    by (simp add: Let_def)
  show ?thesis
    using implements_append [OF impl_pop_slots [OF assms(1-4) b] tl x] by (simp add: emit_x87_pop_n_def Let_def)
qed

section \<open>The emitted stack operations\<close>

lemma words_commute: "s\<lparr>tagWord := w, statusWord := u\<rparr> = s\<lparr>statusWord := u, tagWord := w\<rparr>" for s :: X87State
  by simp

lemma pop_n_top_word: "topIndex ((pop_keep ^^ n) s) = (topIndex s + of_nat n) AND 7"
  by (simp add: word_unat_eq_iff pop_n_top unat_slot)

text \<open>
  (C28) The emitted push does to the state in memory exactly what the runtime's \<open>push\<close> does, and the
  emitted pop what \<open>pop\<close> does except that the popped slot keeps its value; the TOP register follows,
  and nothing else changes but the two scratch registers.
\<close>

theorem emitted_push_pop:
  assumes "regs_ok X t [a, b] bst" "ready X t bst m" "in_step X t m"
  shows "reaches X t [a, b] bst (emit_x87_push (int X) (int t) (int a) (int b)) m (push (x87_at (amem m) (xreg m X))) \<and>
    reaches X t [a, b] bst (emit_x87_pop (int X) (int t) (int a) (int b)) m
      ((pop (x87_at (amem m) (xreg m X)))\<lparr>st := st (x87_at (amem m) (xreg m X))\<rparr>)"
proof
  have r: "a \<in> set [a, b]" "b \<in> set [a, b]" "a \<noteq> b" using assms(1) by (auto simp: regs_ok_def)
  show "reaches X t [a, b] bst (emit_x87_push (int X) (int t) (int a) (int b)) m (push (x87_at (amem m) (xreg m X)))"
    using assms(3) by (intro reachesI [OF impl_push [OF assms(1) r] assms(2)])
      (simp add: Let_def in_step_def view_def to_state_def, simp add: push_words)
  show "reaches X t [a, b] bst (emit_x87_pop (int X) (int t) (int a) (int b)) m
      ((pop (x87_at (amem m) (xreg m X)))\<lparr>st := st (x87_at (amem m) (xreg m X))\<rparr>)"
    using assms(3) unfolding pop_keep_def [symmetric] by (intro reachesI [OF impl_pop [OF assms(1) r] assms(2)])
      (simp add: Let_def in_step_def view_def to_state_def, simp add: pop_words)
qed

text \<open>A machine with everything zero, for concrete instances.\<close>

definition idle :: a64 where
  "idle = \<lparr>xreg = \<lambda>_. 0, vreg = \<lambda>_. 0, asp = 0, flagN = False, flagZ = False, flagC = False, flagV = False, amem = \<lambda>_. 0\<rparr>"

lemma idle_ldn [simp]: "ldn n (\<lambda>_. 0) a = 0"
  by (induction n arbitrary: a) simp_all

lemma idle_ok: "ready X t (-1) idle" "in_step X t idle" "x87_at (amem idle) 0 = X87State_new\<lparr>controlWord := 0, tagWord := 0\<rparr>"
  by (simp_all add: ready_def in_step_def idle_def wv_def x87_at_def topIndex_def X87State_new_def map_replicate_const)

theorem emitted_push_pop_witness:
  "reaches 22 23 [24, 25] (-1) (emit_x87_push 22 23 24 25) idle (push (x87_at (amem idle) (xreg idle 22)))"
  using emitted_push_pop [OF _ idle_ok(1,2), of 22 23 24 25] by (simp add: regs_ok_def)

text \<open>
  (C29) Deferring is sound for pushes: any number of register-only pushes up to eight, followed by the
  batched tag update and one write of TOP, leaves the state in memory that as many runtime pushes
  leave, whatever the wrap-around of the tag mask.
\<close>

theorem deferred_pushes:
  assumes "regs_ok X t [a, b, w] bst" "ready X t bst m" "in_step X t m" "n \<le> 8"
  shows "reaches X t [a, b, w] bst (eseq (replicate n (emit_x87_push_fully_deferred (int t)) @
      [emit_x87_tag_set_valid_batch (int X) (int t) (int a) (int b) (int w) n, emit_store_top (int X) (int t) (int a)])) m
    ((push ^^ n) (x87_at (amem m) (xreg m X)))"
proof -
  have r: "a \<in> set [a, b, w]" "b \<in> set [a, b, w]" "w \<in> set [a, b, w]" "distinct [a, b, w]" using assms(1) by (auto simp: regs_ok_def)
  let ?s = "x87_at (amem m) (xreg m X)"
  have "?s\<lparr>tagWord := tagWord ((push ^^ n) ?s), statusWord := with_top (statusWord ?s) (topIndex ((push ^^ n) ?s))\<rparr> = (push ^^ n) ?s"
    by (rule trans [OF words_commute push_n_words [symmetric]])
  then show ?thesis using assms(3) valid_batch_is_pushes [OF assms(4), of ?s]
    by (intro reachesI [OF impl_deferred_pushes [OF assms(1) r] assms(2)])
      (simp add: Let_def in_step_def view_def to_state_def deferred_tops)
qed

theorem deferred_pushes_witness:
  "reaches 22 23 [24, 25, 26] (-1) (eseq (replicate 3 (emit_x87_push_fully_deferred 23) @
      [emit_x87_tag_set_valid_batch 22 23 24 25 26 3, emit_store_top 22 23 24])) idle
    ((push ^^ 3) (x87_at (amem idle) (xreg idle 22)))"
  using deferred_pushes [OF _ idle_ok(1,2), of 22 23 24 25 26 3] by (simp add: regs_ok_def)

text \<open>
  (C30) Deferring is sound for pops: register-only pops followed by the batched tag update and one
  write of TOP, and the fused pop of \<open>n\<close> registers, both leave the state of \<open>n\<close> single pops.
\<close>

theorem deferred_pops:
  assumes "regs_ok X t [a, b, w] bst" "ready X t bst m" "in_step X t m" "n < 4096"
  shows "reaches X t [a, b, w] bst (eseq (replicate n (emit_x87_pop_top_only (int t)) @
      [emit_x87_tag_set_empty_batch (int X) (int t) (int a) (int b) (int w) n, emit_store_top (int X) (int t) (int a)])) m
    ((pop_keep ^^ n) (x87_at (amem m) (xreg m X))) \<and>
    reaches X t [a, b, w] bst (emit_x87_pop_n (int X) (int t) (int a) (int b) n) m
    ((pop_keep ^^ n) (x87_at (amem m) (xreg m X)))"
proof
  have r: "a \<in> set [a, b, w]" "b \<in> set [a, b, w]" "w \<in> set [a, b, w]" "distinct [a, b, w]" using assms(1) by (auto simp: regs_ok_def)
  let ?s = "x87_at (amem m) (xreg m X)"
  have e: "?s\<lparr>tagWord := tagWord ((pop_keep ^^ n) ?s), statusWord := with_top (statusWord ?s) (topIndex ((pop_keep ^^ n) ?s))\<rparr> =
      (pop_keep ^^ n) ?s"
    by (rule trans [OF words_commute pop_n_words [symmetric]])
  show "reaches X t [a, b, w] bst (eseq (replicate n (emit_x87_pop_top_only (int t)) @
      [emit_x87_tag_set_empty_batch (int X) (int t) (int a) (int b) (int w) n, emit_store_top (int X) (int t) (int a)])) m ((pop_keep ^^ n) ?s)"
    using assms(3) e empty_batch_is_pops [of n ?s]
    by (intro reachesI [OF impl_deferred_pops [OF assms(1) r assms(4)] assms(2)])
      (simp add: Let_def in_step_def view_def to_state_def deferred_tops)
  show "reaches X t [a, b, w] bst (emit_x87_pop_n (int X) (int t) (int a) (int b) n) m ((pop_keep ^^ n) ?s)"
    using assms(3) e slots_are_pops [of ?s n] r(4)
    by (intro reachesI [OF impl_pop_n [OF assms(1) r(1,2) _ assms(4)] assms(2)])
      (simp_all add: Let_def in_step_def view_def to_state_def pop_n_top_word)
qed

theorem deferred_pops_witness:
  "reaches 22 23 [24, 25, 26] (-1) (emit_x87_pop_n 22 23 24 25 2) idle ((pop_keep ^^ 2) (x87_at (amem idle) (xreg idle 22)))"
  using deferred_pops [OF _ idle_ok(1,2), of 22 23 24 25 26 2] by (simp add: regs_ok_def)

end
