(* ===== verification/EmitX87Regs.thy ===== *)
theory EmitX87Regs
  imports EmitX87Stack
begin

text \<open>
  Loads and stores of ST(i) by emitted code, with the register file addressed through its own
  pointer or through the state's base, and the flush of a permutation of the register stack by
  rotating its cycles in memory.
\<close>

section \<open>Addresses\<close>

lemma slot_addr:
  assumes "w < 8"
  shows "b + 8 + push_bit 3 (ucast w) = b + (of_nat (8 + 8 * unat w) :: u64)"
    and "b + ucast (ubfm32 29 28 w + 8) = b + (of_nat (8 + 8 * unat w) :: u64)"
  using below8 [OF assms] by (auto simp: ubfm32_def)

lemma ld_slot: "i < 8 \<Longrightarrow> ldn 8 M (b + of_nat (8 + 8 * i)) = st (x87_at M b) ! i"
  by (simp add: x87_at_def)

lemma outside_slot [simp]: "outside b c \<Longrightarrow> i < 8 \<Longrightarrow> stn 8 M (b + of_nat (8 + 8 * i)) v c = M c"
  by (rule outside_stn) simp_all

lemma length_x87_at [simp]: "length (st (x87_at M b)) = 8"
  by (simp add: x87_at_def)

lemmas slot_simps = slot_addr ld_slot x87_at_st and7_id unat_slot
declare of_nat_add [simp del] of_nat_mult [simp del]

text \<open>The slot of ST(i).\<close>

definition slot :: "xview \<Rightarrow> nat \<Rightarrow> nat" where
  "slot v i = (unat (xtop v) + i) mod 8"

lemma unat_below: "w < 8 \<Longrightarrow> unat w < 8" for w :: u32
  by (simp add: word_less_nat_alt)

lemmas access_simps = emit_load_st_def emit_store_st_def emit_store_st_at_offset_def emit_phys_index_def view_simps slot_simps slot_def unat_below

lemma pointer_cases:
  fixes bst :: int
  obtains B where "bst = int B" | "bst < 0"
  by (metis nonneg_int_cases linorder_not_le)

lemma impl_load_st:
  assumes "regs_ok X t rs bst" "a \<in> set rs" "d < 32" "i < 8"
  shows "implements X t rs bst (fst (emit_load_st (int X) (int t) (int i) (int a) (int d) bst))
    (\<lambda>v. v\<lparr>xfp := (xfp v)(d := st (xs v) ! slot v i)\<rparr>)"
  using regs_okD [OF assms(1)] assms(2-4)
  by (intro implementsI; cases bst rule: pointer_cases; cases "i = 0"; simp add: access_simps)

lemma impl_store_st:
  assumes "regs_ok X t rs bst" "a \<in> set rs" "d < 32" "i < 8"
  shows "implements X t rs bst (emit_store_st (int X) (int t) (int i) (int a) (int d) bst)
    (\<lambda>v. v\<lparr>xs := (xs v)\<lparr>st := (st (xs v))[slot v i := xfp v d]\<rparr>\<rparr>)"
  using regs_okD [OF assms(1)] assms(2-4)
  by (intro implementsI; cases bst rule: pointer_cases; cases "i = 0"; simp add: access_simps)

text \<open>The index left by a load addresses the slot that was loaded.\<close>

lemma impl_load_store_at_offset:
  assumes "regs_ok X t rs bst" "a \<in> set rs" "d < 32" "e < 32" "i < 8"
  shows "implements X t rs bst
    (eseq [fst (emit_load_st (int X) (int t) (int i) (int a) (int d) bst),
           emit_store_st_at_offset (int X) (snd (emit_load_st (int X) (int t) (int i) (int a) (int d) bst)) (int e) bst])
    (\<lambda>v. let F = (xfp v)(d := st (xs v) ! slot v i) in v\<lparr>xfp := F, xs := (xs v)\<lparr>st := (st (xs v))[slot v i := F e]\<rparr>\<rparr>)"
  using regs_okD [OF assms(1)] assms(2-5)
  by (intro implementsI; cases bst rule: pointer_cases; cases "i = 0"; simp add: access_simps Let_def)

section \<open>Permutation flush\<close>

text \<open>The registers by depth, and what a flush does not touch.\<close>

definition R :: "xview \<Rightarrow> nat \<Rightarrow> u64" where
  "R v x = st (xs v) ! slot v x"

definition same_words :: "xview \<Rightarrow> xview \<Rightarrow> bool" where
  "same_words u v \<longleftrightarrow> length (st (xs u)) = 8 \<and> xtop v = xtop u \<and> length (st (xs v)) = 8 \<and>
     (xs v)\<lparr>st := st (xs u)\<rparr> = xs u"

lemma slot_eq: "x < 8 \<Longrightarrow> y < 8 \<Longrightarrow> slot v x = slot v y \<longleftrightarrow> x = y"
proof -
  assume xy: "x < 8" "y < 8"
  have "slot v x = slot v y \<Longrightarrow> x mod 8 = y mod 8"
    using mod8_cancel [of x "unat (xtop v)" y] by (simp add: slot_def add.commute)
  then show ?thesis using xy by auto
qed

definition stored :: "nat \<Rightarrow> nat \<Rightarrow> xview \<Rightarrow> xview" where
  "stored d i v = v\<lparr>xs := (xs v)\<lparr>st := (st (xs v))[slot v i := xfp v d]\<rparr>\<rparr>"

definition loaded :: "nat \<Rightarrow> nat \<Rightarrow> xview \<Rightarrow> xview" where
  "loaded d i v = v\<lparr>xfp := (xfp v)(d := R v i)\<rparr>"

lemma slot_upd [simp]: "slot (v\<lparr>xs := s\<rparr>) i = slot v i" "slot (v\<lparr>xfp := F\<rparr>) i = slot v i"
  by (simp_all add: slot_def)

lemma R_loaded [simp]: "R (loaded d i v) x = R v x"
  by (simp add: R_def loaded_def)

lemma xfp_steps [simp]: "xfp (stored d i v) = xfp v" "xfp (loaded d i v) = (xfp v)(d := R v i)" "xs (loaded d i v) = xs v"
  by (simp_all add: stored_def loaded_def)

lemma R_stored: "length (st (xs v)) = 8 \<Longrightarrow> x < 8 \<Longrightarrow> i < 8 \<Longrightarrow> R (stored d i v) x = (if x = i then xfp v d else R v x)"
  by (simp add: R_def stored_def nth_list_update slot_eq) (simp add: slot_def)

lemma same_words_step:
  "same_words u v \<Longrightarrow> same_words u (loaded d i v)" "same_words u v \<Longrightarrow> same_words u (stored d i v)"
  by (auto simp: same_words_def stored_def loaded_def)

lemma impl_steps:
  assumes "regs_ok X t rs bst" "a \<in> set rs" "d < 32" "i < 8"
  shows "implements X t rs bst (fst (emit_load_st (int X) (int t) (int i) (int a) (int d) bst)) (loaded d i)"
    and "implements X t rs bst (emit_store_st (int X) (int t) (int i) (int a) (int d) bst) (stored d i)"
  using impl_load_st [OF assms] impl_store_st [OF assms] by (simp_all add: loaded_def [abs_def] stored_def [abs_def] R_def)

text \<open>
  Half-rotated: the slots in \<open>V\<close> other than \<open>j\<close> hold their final value, all others their first; every
  slot of \<open>V\<close> but \<open>i\<close> is the target of a finished one.
\<close>

definition rotated :: "(nat \<Rightarrow> nat) \<Rightarrow> (nat \<Rightarrow> u64) \<Rightarrow> nat set \<Rightarrow> xview \<Rightarrow> bool" where
  "rotated p R0 D v \<longleftrightarrow> (\<forall>x < 8. R v x = (if x \<in> D then R0 (p x) else R0 x))"

definition chain_ok :: "(nat \<Rightarrow> nat) \<Rightarrow> nat \<Rightarrow> nat \<Rightarrow> nat set \<Rightarrow> bool" where
  "chain_ok p i j V \<longleftrightarrow> i \<in> V \<and> j \<in> V \<and> V \<subseteq> {..<8} \<and> p ` (V - {j}) = V - {i}"

definition marked :: "bool list \<Rightarrow> nat set" where
  "marked vis = {x. x < 8 \<and> vis ! x}"

lemma marked_upd: "length vis = 8 \<Longrightarrow> x < 8 \<Longrightarrow> marked (vis[x := True]) = insert x (marked vis)"
  by (auto simp: marked_def nth_list_update)

text \<open>The arguments of a flush: distinct entries in range, two different floating-point scratch registers.\<close>

definition perm_setup :: "nat \<Rightarrow> nat \<Rightarrow> nat list \<Rightarrow> int \<Rightarrow> nat \<Rightarrow> nat \<Rightarrow> nat \<Rightarrow> int list \<Rightarrow> bool" where
  "perm_setup X t rs bst a ds dc perm \<longleftrightarrow> regs_ok X t rs bst \<and> a \<in> set rs \<and> ds < 32 \<and> dc < 32 \<and> ds \<noteq> dc \<and>
     length perm = 8 \<and> (\<forall>x < 8. 0 \<le> perm ! x \<and> perm ! x < 8) \<and> distinct perm"

lemma perm_setupD:
  assumes "perm_setup X t rs bst a ds dc perm"
  shows "regs_ok X t rs bst" "a \<in> set rs" "ds < 32" "dc < 32" "ds \<noteq> dc" "\<And>x. x < 8 \<Longrightarrow> 0 \<le> perm ! x \<and> perm ! x < 8"
    "length perm = 8" "distinct perm"
  using assms by (auto simp: perm_setup_def)

abbreviation pn :: "int list \<Rightarrow> nat \<Rightarrow> nat" where "pn perm x \<equiv> nat (perm ! x)"

lemma p_inj: "perm_setup X t rs bst a ds dc perm \<Longrightarrow> x < 8 \<Longrightarrow> y < 8 \<Longrightarrow> pn perm x = pn perm y \<Longrightarrow> x = y"
proof -
  assume h: "perm_setup X t rs bst a ds dc perm" "x < 8" "y < 8" "pn perm x = pn perm y"
  then have "perm ! x = perm ! y" using perm_setupD(6) [OF h(1), of x] perm_setupD(6) [OF h(1), of y] by (simp add: eq_nat_nat_iff)
  then show "x = y" using perm_setupD(7,8) [OF h(1)] h by (simp add: nth_eq_iff_index_eq)
qed

lemma next_fresh:
  assumes "perm_setup X t rs bst a ds dc perm" "chain_ok (pn perm) i j V" "pn perm j \<noteq> i"
  shows "pn perm j \<notin> V"
proof
  assume "pn perm j \<in> V"
  then have "pn perm j \<in> pn perm ` (V - {j})" using assms by (simp add: chain_ok_def)
  then obtain x where "x \<in> V - {j}" "pn perm j = pn perm x" by (rule imageE)
  then show False using p_inj [OF assms(1), of x j] assms(2) by (auto simp: chain_ok_def)
qed

lemma cycle_ok:
  assumes S: "perm_setup X t rs bst a ds dc perm" and "chain_ok (pn perm) i j (marked vis)" "length vis = 8" "9 \<le> fuel + card (marked vis)"
  shows "\<exists>code vis' f. flush_cycle fuel (int X) (int t) (int a) perm bst (int ds) (int dc) (int i) (int j) vis = Some (code, vis') \<and>
    implements X t rs bst (eseq code) f \<and> length vis' = 8 \<and> marked vis \<subseteq> marked vis' \<and> pn perm ` marked vis' = marked vis' \<and>
    (\<forall>v d. d \<noteq> ds \<longrightarrow> d \<noteq> dc \<longrightarrow> xfp (f v) d = xfp v d) \<and>
    (\<forall>u v R0. same_words u v \<longrightarrow> rotated (pn perm) R0 (marked vis - {j}) v \<longrightarrow> xfp v ds = R0 i \<longrightarrow>
       same_words u (f v) \<and> rotated (pn perm) R0 (marked vis') (f v))"
  using assms(2-4)
proof (induction fuel arbitrary: j vis)
  case 0
  have "card (marked vis) \<le> card {..<8::nat}" by (rule card_mono) (auto simp: marked_def)
  then show ?case using 0 by simp
next
  case (Suc fuel)
  let ?V = "marked vis"
  note ok = perm_setupD(1) [OF S] and a = perm_setupD(2) [OF S] and fp = perm_setupD(3-5) [OF S] and rng = perm_setupD(6) [OF S]
  note x = base_apart [OF ok]
  have ij: "i < 8" "j < 8" "i \<in> ?V" "j \<in> ?V" using Suc.prems(1) by (auto simp: chain_ok_def)
  show ?case
  proof (cases "perm ! j = int i")
    case True
    have "pn perm ` ?V = ?V"
    proof -
      have "pn perm ` ?V = insert (pn perm j) (pn perm ` (?V - {j}))" using ij by auto
      then show ?thesis using Suc.prems(1) True ij by (auto simp: chain_ok_def)
    qed
    moreover have "implements X t rs bst (eseq [emit_store_st (int X) (int t) (int j) (int a) (int ds) bst]) (stored ds j)"
      using impl_steps(2) [OF ok a fp(1) ij(2)] by (simp add: implements_one)
    moreover have "rotated (pn perm) R0 ?V (stored ds j v)"
      if "same_words u v" "rotated (pn perm) R0 (?V - {j}) v" "xfp v ds = R0 i" for u v R0
      using that True ij by (auto simp: rotated_def R_stored same_words_def)
    ultimately show ?thesis using True Suc.prems(2) same_words_step(2)
      by (intro exI [of _ "[emit_store_st (int X) (int t) (int j) (int a) (int ds) bst]"] exI [of _ vis] exI [of _ "stored ds j"])
        (simp add: Let_def)
  next
    case False
    let ?n = "pn perm j"
    have n: "int ?n = perm ! j" "?n < 8" using rng [OF ij(2)] by auto
    then have ni: "?n \<noteq> i" using False by auto
    have fresh: "?n \<notin> ?V" by (rule next_fresh [OF S Suc.prems(1) ni])
    have mk: "marked (vis[?n := True]) = insert ?n ?V" using marked_upd [OF Suc.prems(2) n(2)] .
    have c: "chain_ok (pn perm) i ?n (marked (vis[?n := True]))"
    proof -
      have "insert ?n ?V - {?n} = ?V" using fresh by auto
      moreover have "pn perm ` ?V = insert ?n (?V - {i})" using Suc.prems(1) ij by (auto simp: chain_ok_def)
      ultimately show ?thesis using Suc.prems(1) n fresh ni by (auto simp: chain_ok_def mk)
    qed
    have "finite ?V" by (auto simp: marked_def)
    then have "9 \<le> fuel + card (marked (vis[?n := True]))" using Suc.prems(3) fresh by (simp add: mk)
    from Suc.IH [OF c _ this] obtain code vis' f where f:
      "flush_cycle fuel (int X) (int t) (int a) perm bst (int ds) (int dc) (int i) (int ?n) (vis[?n := True]) = Some (code, vis')"
      "implements X t rs bst (eseq code) f" "length vis' = 8" "marked (vis[?n := True]) \<subseteq> marked vis'" "pn perm ` marked vis' = marked vis'"
      "\<And>u v R0. same_words u v \<Longrightarrow> rotated (pn perm) R0 (marked (vis[?n := True]) - {?n}) v \<Longrightarrow> xfp v ds = R0 i \<Longrightarrow>
         same_words u (f v) \<and> rotated (pn perm) R0 (marked vis') (f v)"
      "\<forall>v d. d \<noteq> ds \<longrightarrow> d \<noteq> dc \<longrightarrow> xfp (f v) d = xfp v d"
      using Suc.prems(2) by auto
    let ?f = "\<lambda>v. f (stored dc j (loaded dc ?n v))"
    have "implements X t rs bst (eseq ([fst (emit_load_st (int X) (int t) (int ?n) (int a) (int dc) bst),
        emit_store_st (int X) (int t) (int j) (int a) (int dc) bst] @ code)) ?f"
      using implements_cons [OF impl_steps(1) [OF ok a fp(2) n(2)] implements_cons [OF impl_steps(2) [OF ok a fp(2) ij(2)] f(2) x] x]
      by simp
    moreover have "same_words u (?f v) \<and> rotated (pn perm) R0 (marked vis') (?f v)"
      if h: "same_words u v" "rotated (pn perm) R0 (?V - {j}) v" "xfp v ds = R0 i" for u v R0
    proof (rule f(6))
      show "same_words u (stored dc j (loaded dc ?n v))" using h(1) by (intro same_words_step)
      show "xfp (stored dc j (loaded dc ?n v)) ds = R0 i" using h(3) fp(3) by simp
      have "R v ?n = R0 ?n" using h(2) n(2) fresh by (auto simp: rotated_def)
      then show "rotated (pn perm) R0 (marked (vis[?n := True]) - {?n}) (stored dc j (loaded dc ?n v))"
        using h(1,2) ij fresh by (auto simp: rotated_def R_stored same_words_def mk)
    qed
    moreover have "\<forall>v d. d \<noteq> ds \<longrightarrow> d \<noteq> dc \<longrightarrow> xfp (?f v) d = xfp v d" using f(7) by simp
    ultimately show ?thesis using f(1,3,4,5) n False by (auto simp: Let_def mk)
  qed
qed

lemma from_ok:
  assumes S: "perm_setup X t rs bst a ds dc perm" and "set is \<subseteq> {..<8}" "length vis = 8" "pn perm ` marked vis = marked vis"
  shows "\<exists>code f. flush_from (int X) (int t) (int a) perm bst (int ds) (int dc) is vis = Some code \<and>
    implements X t rs bst (eseq code) f \<and> (\<forall>v d. d \<noteq> ds \<longrightarrow> d \<noteq> dc \<longrightarrow> xfp (f v) d = xfp v d) \<and>
    (\<forall>u v R0. same_words u v \<longrightarrow> rotated (pn perm) R0 (marked vis) v \<longrightarrow>
       same_words u (f v) \<and> (\<exists>D. marked vis \<union> {x \<in> set is. pn perm x \<noteq> x} \<subseteq> D \<and> pn perm ` D = D \<and> D \<subseteq> {..<8} \<and> rotated (pn perm) R0 D (f v)))"
  using assms(2-4)
proof (induction "is" arbitrary: vis)
  case Nil
  have "marked vis \<subseteq> {..<8}" by (auto simp: marked_def)
  then show ?case using implements_nil [of X t rs bst] Nil.prems(3)
    by (intro exI [of _ "[]"] exI [of _ "\<lambda>v. v"]) (auto intro!: exI [of _ "marked vis"])
next
  case (Cons i "is")
  note ok = perm_setupD(1) [OF S] and a = perm_setupD(2) [OF S] and fp = perm_setupD(3-5) [OF S] and rng = perm_setupD(6) [OF S]
  note x = base_apart [OF ok]
  have i: "i < 8" using Cons.prems(1) by simp
  show ?case
  proof (cases "vis ! i \<or> perm ! i = int i")
    case True
    then have "marked vis \<union> {x \<in> set (i # is). pn perm x \<noteq> x} = marked vis \<union> {x \<in> set is. pn perm x \<noteq> x}" using i by (auto simp: marked_def)
    then show ?thesis using Cons.IH [OF _ Cons.prems(2,3)] Cons.prems(1) True by simp
  next
    case False
    let ?vis = "vis[i := True]"
    have mk: "marked ?vis = insert i (marked vis)" using marked_upd [OF Cons.prems(2) i] .
    have ni: "i \<notin> marked vis" using False by (simp add: marked_def)
    have "chain_ok (pn perm) i i (marked ?vis)" using Cons.prems(3) i ni by (auto simp: chain_ok_def mk) (auto simp: marked_def)
    moreover have "9 \<le> 8 + card (marked ?vis)" using ni by (simp add: mk) (simp add: marked_def)
    ultimately obtain code vis' f where c:
      "flush_cycle 8 (int X) (int t) (int a) perm bst (int ds) (int dc) (int i) (int i) ?vis = Some (code, vis')"
      "implements X t rs bst (eseq code) f" "length vis' = 8" "marked ?vis \<subseteq> marked vis'" "pn perm ` marked vis' = marked vis'"
      "\<And>u v R0. same_words u v \<Longrightarrow> rotated (pn perm) R0 (marked ?vis - {i}) v \<Longrightarrow> xfp v ds = R0 i \<Longrightarrow>
         same_words u (f v) \<and> rotated (pn perm) R0 (marked vis') (f v)"
      "\<forall>v d. d \<noteq> ds \<longrightarrow> d \<noteq> dc \<longrightarrow> xfp (f v) d = xfp v d"
      using cycle_ok [OF S, of i i ?vis 8] Cons.prems(2) by auto
    obtain rest g where r: "flush_from (int X) (int t) (int a) perm bst (int ds) (int dc) is vis' = Some rest"
      "implements X t rs bst (eseq rest) g"
      "\<And>u v R0. same_words u v \<Longrightarrow> rotated (pn perm) R0 (marked vis') v \<Longrightarrow>
         same_words u (g v) \<and> (\<exists>D. marked vis' \<union> {x \<in> set is. pn perm x \<noteq> x} \<subseteq> D \<and> pn perm ` D = D \<and> D \<subseteq> {..<8} \<and> rotated (pn perm) R0 D (g v))"
      "\<forall>v d. d \<noteq> ds \<longrightarrow> d \<noteq> dc \<longrightarrow> xfp (g v) d = xfp v d"
      using Cons.IH [OF _ c(3,5)] Cons.prems(1) by auto
    let ?f = "\<lambda>v. g (f (loaded ds i v))"
    have im: "implements X t rs bst (eseq (fst (emit_load_st (int X) (int t) (int i) (int a) (int ds) bst) # code @ rest)) ?f"
      using implements_cons [OF impl_steps(1) [OF ok a fp(1) i] implements_append [OF c(2) r(2) x] x] .
    have "same_words u (?f v) \<and> (\<exists>D. marked vis \<union> {x \<in> set (i # is). pn perm x \<noteq> x} \<subseteq> D \<and> pn perm ` D = D \<and> D \<subseteq> {..<8} \<and> rotated (pn perm) R0 D (?f v))"
      if h: "same_words u v" "rotated (pn perm) R0 (marked vis) v" for u v R0
    proof -
      have "marked ?vis - {i} = marked vis" using ni by (simp add: mk)
      then have "rotated (pn perm) R0 (marked ?vis - {i}) (loaded ds i v)" using h(2) by (simp add: rotated_def)
      moreover have "xfp (loaded ds i v) ds = R0 i" using h(2) i ni by (simp add: rotated_def)
      ultimately have "same_words u (f (loaded ds i v))" "rotated (pn perm) R0 (marked vis') (f (loaded ds i v))"
        using c(6) same_words_step(1) [OF h(1)] by blast+
      from r(3) [OF this] obtain D where D: "same_words u (?f v)" "marked vis' \<union> {x \<in> set is. pn perm x \<noteq> x} \<subseteq> D" "pn perm ` D = D" "D \<subseteq> {..<8}"
        "rotated (pn perm) R0 D (?f v)" by blast
      then have "marked vis \<union> {x \<in> set (i # is). pn perm x \<noteq> x} \<subseteq> D" using c(4) by (auto simp: mk)
      then show ?thesis using D by blast
    qed
    moreover have "\<forall>v d. d \<noteq> ds \<longrightarrow> d \<noteq> dc \<longrightarrow> xfp (?f v) d = xfp v d" using c(7) r(4) by simp
    ultimately show ?thesis using c(1) r(1) im False by (intro exI [of _ "fst (emit_load_st (int X) (int t) (int i) (int a) (int ds) bst) # code @ rest"]
      exI [of _ ?f]) auto
  qed
qed

text \<open>The flush as a whole: each depth gets the value of the permuted depth, and only its two registers change.\<close>

lemma impl_perm_flush:
  assumes S: "perm_setup X t rs bst a ds dc perm"
  obtains f where "implements X t rs bst (emit_x87_perm_flush (int X) (int t) (int a) perm bst (int ds) (int dc)) f"
    "\<And>v d. d \<noteq> ds \<Longrightarrow> d \<noteq> dc \<Longrightarrow> xfp (f v) d = xfp v d"
    "\<And>v. length (st (xs v)) = 8 \<Longrightarrow> same_words v (f v) \<and> (\<forall>x < 8. R (f v) x = R v (pn perm x))"
proof -
  have mk: "marked (replicate 8 False) = {}" by (auto simp: marked_def)
  have "\<exists>code f. flush_from (int X) (int t) (int a) perm bst (int ds) (int dc) [0..<8] (replicate 8 False) = Some code \<and>
    implements X t rs bst (eseq code) f \<and> (\<forall>v d. d \<noteq> ds \<longrightarrow> d \<noteq> dc \<longrightarrow> xfp (f v) d = xfp v d) \<and>
    (\<forall>u v R0. same_words u v \<longrightarrow> rotated (pn perm) R0 {} v \<longrightarrow> same_words u (f v) \<and>
       (\<exists>D. {x \<in> set [0..<8]. pn perm x \<noteq> x} \<subseteq> D \<and> pn perm ` D = D \<and> D \<subseteq> {..<8} \<and> rotated (pn perm) R0 D (f v)))"
    using from_ok [OF S, of "[0..<8]" "replicate 8 False"] mk by (simp add: atLeast0LessThan)
  then obtain code f where c: "flush_from (int X) (int t) (int a) perm bst (int ds) (int dc) [0..<8] (replicate 8 False) = Some code"
    "implements X t rs bst (eseq code) f" "\<forall>v d. d \<noteq> ds \<longrightarrow> d \<noteq> dc \<longrightarrow> xfp (f v) d = xfp v d"
    "\<forall>u v R0. same_words u v \<longrightarrow> rotated (pn perm) R0 {} v \<longrightarrow> same_words u (f v) \<and>
       (\<exists>D. {x \<in> set [0..<8]. pn perm x \<noteq> x} \<subseteq> D \<and> pn perm ` D = D \<and> D \<subseteq> {..<8} \<and> rotated (pn perm) R0 D (f v))"
    by (elim exE conjE) (rule that)
  have "same_words v (f v) \<and> (\<forall>x < 8. R (f v) x = R v (pn perm x))" if "length (st (xs v)) = 8" for v
  proof -
    have "same_words v v" using that by (simp add: same_words_def)
    moreover have "rotated (pn perm) (R v) {} v" by (simp add: rotated_def)
    ultimately have e: "same_words v (f v) \<and> (\<exists>D. {x \<in> set [0..<8]. pn perm x \<noteq> x} \<subseteq> D \<and> pn perm ` D = D \<and> D \<subseteq> {..<8} \<and> rotated (pn perm) (R v) D (f v))"
      by (rule c(4) [rule_format])
    obtain D where "{x \<in> set [0..<8]. pn perm x \<noteq> x} \<subseteq> D" "rotated (pn perm) (R v) D (f v)"
      using e by (elim exE conjE) (rule that)
    then have "R (f v) x = R v (pn perm x)" if "x < 8" for x using that by (auto simp: rotated_def split: if_splits)
    then show ?thesis using e by simp
  qed
  then show ?thesis using that [of f] c(1-3) by (simp add: emit_x87_perm_flush_def)
qed

section \<open>Properties\<close>

lemma slot_getStIndex: "in_step X t m \<Longrightarrow> i < 8 \<Longrightarrow> slot (view X t m) i = unat (getStIndex (x87_at (amem m) (xreg m X)) (of_nat i))"
proof -
  assume h: "in_step X t m" "i < 8"
  then have "unat (of_nat i :: u32) = i" by (simp add: unat_of_nat)
  then show ?thesis using h by (simp only: slot_def view_def xview.simps in_step_def unat_getStIndex topn_def add.commute)
qed

lemma view_ext: "view X t k = v \<Longrightarrow> x87_at (amem k) (xreg k X) = xs v \<and> wv k t = xtop v \<and> vreg k = xfp v"
  by (auto simp: view_def)

text \<open>
  (C31) Emitted loads and stores reach the register ST(i) of the state in memory, by either addressing
  mode: the load puts the value \<open>getStFast\<close> reads into the floating-point register, the store writes
  that slot and no tag, and the index a load leaves addresses the same slot.
\<close>

theorem emitted_load_store:
  assumes "regs_ok X t [a] bst" "ready X t bst m" "in_step X t m" "d < 32" "i < 8"
  shows "let s = x87_at (amem m) (xreg m X); j = of_nat i; w = \<lambda>v. s\<lparr>st := (st s)[unat (getStIndex s j) := v]\<rparr> in
    (\<exists>k. execo (fst (emit_load_st (int X) (int t) (int i) (int a) (int d) bst)) m = Some k \<and>
       vreg k = (vreg m)(d := getStFast s j) \<and> x87_at (amem k) (xreg m X) = s) \<and>
    (\<exists>k. execo (emit_store_st (int X) (int t) (int i) (int a) (int d) bst) m = Some k \<and>
       vreg k = vreg m \<and> x87_at (amem k) (xreg m X) = w (vreg m d)) \<and>
    (\<exists>k. execo (eseq [fst (emit_load_st (int X) (int t) (int i) (int a) (int d) bst),
         emit_store_st_at_offset (int X) (snd (emit_load_st (int X) (int t) (int i) (int a) (int d) bst)) (int d) bst]) m = Some k \<and>
       x87_at (amem k) (xreg m X) = w (getStFast s j))"
proof -
  have a: "a \<in> set [a]" by simp
  let ?v = "view X t m"
  have x: "xreg k X = xreg m X" if "frame (xreg m X) [t, a] m k" for k
    using that base_apart [OF assms(1)] by (auto simp: frame_def)
  obtain k1 where 1: "execo (fst (emit_load_st (int X) (int t) (int i) (int a) (int d) bst)) m = Some k1"
    "view X t k1 = ?v\<lparr>xfp := (xfp ?v)(d := st (xs ?v) ! slot ?v i)\<rparr>" "frame (xreg m X) [t, a] m k1"
    using impl_load_st [OF assms(1) a assms(4,5)] assms(2) by (auto simp: implements_def)
  obtain k2 where 2: "execo (emit_store_st (int X) (int t) (int i) (int a) (int d) bst) m = Some k2"
    "view X t k2 = ?v\<lparr>xs := (xs ?v)\<lparr>st := (st (xs ?v))[slot ?v i := xfp ?v d]\<rparr>\<rparr>" "frame (xreg m X) [t, a] m k2"
    using impl_store_st [OF assms(1) a assms(4,5)] assms(2) by (auto simp: implements_def)
  obtain k3 where 3: "execo (eseq [fst (emit_load_st (int X) (int t) (int i) (int a) (int d) bst),
      emit_store_st_at_offset (int X) (snd (emit_load_st (int X) (int t) (int i) (int a) (int d) bst)) (int d) bst]) m = Some k3"
    "xs (view X t k3) = (xs ?v)\<lparr>st := (st (xs ?v))[slot ?v i := st (xs ?v) ! slot ?v i]\<rparr>" "frame (xreg m X) [t, a] m k3"
    using impl_load_store_at_offset [OF assms(1) a assms(4,4,5)] assms(2) by (fastforce simp: implements_def Let_def)
  note sl = slot_getStIndex [OF assms(3,5)]
  have e1: "vreg k1 = (vreg m)(d := getStFast (x87_at (amem m) (xreg m X)) (of_nat i))" "x87_at (amem k1) (xreg m X) = x87_at (amem m) (xreg m X)"
    using view_ext [OF 1(2)] x [OF 1(3)] sl by (simp_all add: getStFast_def view_def)
  have e2: "vreg k2 = vreg m" "x87_at (amem k2) (xreg m X) = (x87_at (amem m) (xreg m X))\<lparr>st :=
      (st (x87_at (amem m) (xreg m X)))[unat (getStIndex (x87_at (amem m) (xreg m X)) (of_nat i)) := vreg m d]\<rparr>"
    using view_ext [OF 2(2)] x [OF 2(3)] sl by (simp_all add: view_def)
  have e3: "x87_at (amem k3) (xreg m X) = (x87_at (amem m) (xreg m X))\<lparr>st :=
      (st (x87_at (amem m) (xreg m X)))[unat (getStIndex (x87_at (amem m) (xreg m X)) (of_nat i)) :=
        getStFast (x87_at (amem m) (xreg m X)) (of_nat i)]\<rparr>"
    using 3(2) x [OF 3(3)] sl by (simp add: view_def getStFast_def)
  show ?thesis unfolding Let_def using 1(1) 2(1) 3(1) e1 e2 e3 by blast
qed

theorem emitted_load_store_witness:
  "\<exists>k. execo (emit_store_st 22 23 3 24 30 (-1)) idle = Some k \<and>
     x87_at (amem k) (xreg idle 22) = (let s = x87_at (amem idle) (xreg idle 22) in s\<lparr>st := (st s)[unat (getStIndex s 3) := vreg idle 30]\<rparr>)"
  using emitted_load_store [OF _ idle_ok(1,2), of 22 23 24 30 3] by (auto simp: regs_ok_def Let_def)

text \<open>
  (C32) The permutation flush terminates for every permutation of the eight registers and leaves, at
  each depth, the value that was at the permuted depth; control, status and tag words are untouched.
\<close>

theorem perm_flush_permutes:
  assumes "perm_setup X t [a] bst a ds dc perm" "ready X t bst m" "in_step X t m"
  shows "\<exists>k. execo (emit_x87_perm_flush (int X) (int t) (int a) perm bst (int ds) (int dc)) m = Some k \<and>
    (let s = x87_at (amem m) (xreg m X); s' = x87_at (amem k) (xreg m X) in
     s'\<lparr>st := st s\<rparr> = s \<and> (\<forall>i < 8. getStFast s' (of_nat i) = getStFast s (word_of_int (perm ! i)))) \<and>
    frame (xreg m X) [t, a] m k"
proof -
  let ?v = "view X t m"
  obtain f where f: "implements X t [a] bst (emit_x87_perm_flush (int X) (int t) (int a) perm bst (int ds) (int dc)) f"
    "\<And>v. length (st (xs v)) = 8 \<Longrightarrow> same_words v (f v) \<and> (\<forall>x < 8. R (f v) x = R v (pn perm x))"
    by (rule impl_perm_flush [OF assms(1)]) blast
  obtain k where k: "execo (emit_x87_perm_flush (int X) (int t) (int a) perm bst (int ds) (int dc)) m = Some k" "ready X t bst k"
    "view X t k = f ?v" "frame (xreg m X) [t, a] m k"
    using f(1) assms(2) by (auto simp: implements_def)
  have "length (st (xs ?v)) = 8" by (simp add: view_def)
  then have D: "same_words ?v (view X t k)" and r: "x < 8 \<Longrightarrow> R (view X t k) x = R ?v (pn perm x)" for x using f(2) [of ?v] k(3) by simp_all
  have xk: "xreg k X = xreg m X" using k(4) base_apart [OF perm_setupD(1) [OF assms(1)]] by (auto simp: frame_def)
  have w: "(x87_at (amem k) (xreg m X))\<lparr>st := st (x87_at (amem m) (xreg m X))\<rparr> = x87_at (amem m) (xreg m X)" "wv k t = wv m t"
    using D xk by (simp_all add: same_words_def view_def)
  then have "topIndex (x87_at (amem k) (xreg m X)) = topIndex (x87_at (amem m) (xreg m X))"
    by (metis X87State.select_convs(2) X87State.surjective X87State.update_convs(4) topIndex_def)
  then have ks: "in_step X t k" using assms(3) w(2) xk by (simp add: in_step_def)
  have g: "getStFast (x87_at (amem n) (xreg n X)) (of_nat i) = R (view X t n) i" if "in_step X t n" "i < 8" for n i
    using slot_getStIndex [OF that] by (simp add: getStFast_def R_def view_def)
  have "getStFast (x87_at (amem k) (xreg m X)) (of_nat i) = getStFast (x87_at (amem m) (xreg m X)) (word_of_int (perm ! i))" if "i < 8" for i
    using g [OF ks that] g [OF assms(3), of "pn perm i"] r [OF that] perm_setupD(6) [OF assms(1) that] xk by (simp add: nat_less_iff)
  then show ?thesis using k w(1) by (simp add: Let_def)
qed

theorem perm_flush_permutes_witness:
  "\<exists>k. execo (emit_x87_perm_flush 22 23 24 [1, 2, 0, 3, 4, 5, 7, 6] (-1) 30 31) idle = Some k \<and> frame (xreg idle 22) [23, 24] idle k"
proof -
  have "perm_setup 22 23 [24] (-1) 24 30 31 [1, 2, 0, 3, 4, 5, 7, 6]"
    by code_simp
  from perm_flush_permutes [OF this idle_ok(1,2)] show ?thesis by auto
qed

end
