(* ===== verification/EmitX87Flags.thy ===== *)
theory EmitX87Flags
  imports EmitX87Regs X87Compare X87Formats
begin

text \<open>
  Emitted code that crosses between the two flag models: comparisons into the condition codes of the
  status word with the guest's flags saved and restored, and conversions that dispatch on the
  rounding-control field. Also the address of the state and the load of TOP that start a sequence.
\<close>

section \<open>Packing a comparison\<close>

definition cc_word :: "bool \<Rightarrow> bool \<Rightarrow> bool \<Rightarrow> u32" where
  "cc_word z c v = (if \<not> c \<or> v then 0x100 else 0) OR (if v then 0x400 else 0) OR (if z \<or> v then 0x4000 else 0)"

lemma exec_cc_csets:
  assumes "r < 31" "c < 31" "v < 31" "distinct [r, c, v]"
  shows "exec (emit_cc_csets (int c) (int v) (int r)) m =
    Some (setw r (of_bool (flagZ m)) (setw v (of_bool (flagV m)) (setw c (of_bool (\<not> flagC m)) m)))"
  using assms by (simp add: emit_cc_csets_def exec_rules)

lemma exec_cc_join:
  assumes "r < 31" "c < 31" "v < 31" "distinct [r, c, v]"
    "wv m c = of_bool (\<not> C)" "wv m v = of_bool V" "wv m r = of_bool Z"
  shows "\<exists>k. exec (emit_cc_join (int c) (int v) (int r)) m = Some k \<and> wv k r = cc_word Z C V \<and> same_but {r, c, v} m k"
  using assms
  by (cases C; cases V; cases Z; simp add: emit_cc_join_def exec_rules logic32_def shift32_def ubfm32_def cc_word_def same_but_def)

lemma fcmp_packs:
  "cc_word (flagZ (fcmp_flags x y m)) (flagC (fcmp_flags x y m)) (flagV (fcmp_flags x y m)) = ucast (cc_of x y)"
proof -
  have "fp_eq x y \<longleftrightarrow> \<not> fp_lt x y \<and> \<not> fp_lt y x" if "\<not> fp_isnan x" "\<not> fp_isnan y"
    using that by (auto simp: fp_eq_def fp_lt_def)
  then show ?thesis
    by (auto simp: fcmp_flags_def cc_word_def set_nzcv_def cc_of_lt cc_bits_def sw_consts fp_lt_def)
qed

lemma pool_regs:
  assumes "pool_ok free" "alloc_free_gpr free = Some (a, f1)" "alloc_free_gpr f1 = Some (b, f2)"
  obtains c v where "a = int c" "b = int v" "22 \<le> c" "c < 30" "22 \<le> v" "v < 30" "c \<noteq> v" "bit free c" "bit free v"
    "f2 OR 2 ^ v OR 2 ^ c = free"
proof -
  obtain c where c: "a = int c" "22 \<le> c" "c < 30" "bit free c" "\<forall>i. bit f1 i \<longleftrightarrow> bit free i \<and> i \<noteq> c" "pool_ok f1"
    by (rule alloc_free_gpr_spec [OF assms(1,2)])
  obtain v where v: "b = int v" "22 \<le> v" "v < 30" "bit f1 v" "\<forall>i. bit f2 i \<longleftrightarrow> bit f1 i \<and> i \<noteq> v"
    by (rule alloc_free_gpr_spec [OF c(6) assms(3)])
  have "f2 OR 2 ^ v OR 2 ^ c = free"
    using c v by (intro bit_word_eqI) (auto simp: bit_or_iff bit_reg)
  then show ?thesis using that c v by blast
qed

text \<open>The packing with the flags restored: its code, its result, and a pool that is the given one.\<close>

lemma exec_cc_pack:
  assumes "pool_ok free" "emit_fcom_cc_pack free (int r) (int sv) = Some (code, f)" "22 \<le> sv" "sv < 30" "r < 31" "r \<noteq> sv"
    "\<not> bit free r" "\<not> bit free sv"
  shows "f = free OR push_bit sv 1"
    and "\<exists>k. exec code m = Some k \<and> wv k r = cc_word (flagZ m) (flagC m) (flagV m) \<and>
      (\<forall>q. \<not> bit free q \<longrightarrow> q \<noteq> r \<longrightarrow> xreg k q = xreg m q) \<and> amem k = amem m \<and> vreg k = vreg m \<and>
      flagN k = bit (xreg m sv) 31 \<and> flagZ k = bit (xreg m sv) 30 \<and> flagC k = bit (xreg m sv) 29 \<and> flagV k = bit (xreg m sv) 28"
proof -
  obtain a f1 b f2 where al: "alloc_free_gpr free = Some (a, f1)" "alloc_free_gpr f1 = Some (b, f2)"
    using assms(2) by (auto simp: emit_fcom_cc_pack_def bind_eq_Some_conv)
  obtain c v where cv: "a = int c" "b = int v" "22 \<le> c" "c < 30" "22 \<le> v" "v < 30" "c \<noteq> v" "bit free c" "bit free v"
    "f2 OR 2 ^ v OR 2 ^ c = free"
    by (rule pool_regs [OF assms(1) al])
  have code: "code = emit_cc_csets (int c) (int v) (int r) @ emit_msr_nzcv (int sv) @ emit_cc_join (int c) (int v) (int r)"
    and f: "f = f2 OR 2 ^ sv OR 2 ^ v OR 2 ^ c"
    using assms(2-4) al cv by (auto simp: emit_fcom_cc_pack_def free_gpr_spec or.assoc)
  show "f = free OR push_bit sv 1" unfolding f cv(10) [symmetric] by (simp add: ac_simps)
  have d: "r \<noteq> c" "r \<noteq> v" "sv \<noteq> c" "sv \<noteq> v" using cv(8,9) assms(7,8) by auto
  let ?m = "setf (xreg m sv) (setw r (of_bool (flagZ m)) (setw v (of_bool (flagV m)) (setw c (of_bool (\<not> flagC m)) m)))"
  have e: "exec code m = exec (emit_cc_join (int c) (int v) (int r)) ?m"
    using assms(3-6) cv d by (simp add: code exec_append exec_cc_csets exec_msr)
  obtain k where k: "exec (emit_cc_join (int c) (int v) (int r)) ?m = Some k" "wv k r = cc_word (flagZ m) (flagC m) (flagV m)"
    "same_but {r, c, v} ?m k"
    using exec_cc_join [of r c v ?m "flagC m" "flagV m" "flagZ m"] assms(5) cv d by auto
  show "\<exists>k. exec code m = Some k \<and> wv k r = cc_word (flagZ m) (flagC m) (flagV m) \<and>
      (\<forall>q. \<not> bit free q \<longrightarrow> q \<noteq> r \<longrightarrow> xreg k q = xreg m q) \<and> amem k = amem m \<and> vreg k = vreg m \<and>
      flagN k = bit (xreg m sv) 31 \<and> flagZ k = bit (xreg m sv) 30 \<and> flagC k = bit (xreg m sv) 29 \<and> flagV k = bit (xreg m sv) 28"
    using e k cv(8,9) by (auto simp: same_but_def setf_def set_nzcv_def)
qed

text \<open>The write of the packed codes.\<close>

lemma sw_codes:
  "(ucast (logic32 (Suc 0) (bfm32 18 0 0 (bfm32 24 2 0 (ucast sw))) (shift32 0 0 (ucast w))) :: u16) =
    (sw AND NOT (cc_bits OR kConditionCode1)) OR w"
proof -
  have k: "cc_bits OR kConditionCode1 = push_bit 8 (Bit_Operations.mask 3) OR push_bit 14 (Bit_Operations.mask 1)"
    by (simp add: cc_bits_def sw_consts mask_eq_exp_minus_1)
  show ?thesis unfolding k
    by (rule bit_word_eqI) (auto simp: logic32_def shift32_def bfm32_def bit_unsigned_iff bit_or_iff bit_and_iff bit_not_iff bit_push_bit_iff
      bit_mask_iff bit_1_iff)
qed

lemma exec_cc_write_sw:
  assumes "pool_ok free" "emit_fcom_cc_write_sw free (int X) (int r) = Some (code, f)" "X < 31" "r < 31" "\<not> bit free X" "\<not> bit free r"
    "wv m r = ucast w"
  shows "f = free"
    and "\<exists>k. exec code m = Some k \<and> x87_at (amem k) (xreg m X) = (x87_at (amem m) (xreg m X))\<lparr>statusWord :=
        (statusWord (x87_at (amem m) (xreg m X)) AND NOT (cc_bits OR kConditionCode1)) OR w\<rparr> \<and>
      (\<forall>q. \<not> bit free q \<longrightarrow> xreg k q = xreg m q) \<and> vreg k = vreg m \<and> (\<forall>c. outside (xreg m X) c \<longrightarrow> amem k c = amem m c) \<and>
      flagN k = flagN m \<and> flagZ k = flagZ m \<and> flagC k = flagC m \<and> flagV k = flagV m"
proof -
  obtain a f1 where al: "alloc_free_gpr free = Some (a, f1)"
    using assms(2) by (auto simp: emit_fcom_cc_write_sw_def emit_fcom_cc_write_sw_keep_def bind_eq_Some_conv)
  obtain q where q: "a = int q" "22 \<le> q" "q < 30" "bit free q" "\<forall>i. bit f1 i \<longleftrightarrow> bit free i \<and> i \<noteq> q"
    by (rule alloc_free_gpr_spec [OF assms(1) al])
  have f: "f = f1 OR 2 ^ q" and code: "code = emit_ldr_str_imm 1 0 1 1 (int X) (int q) @ emit_bitfield 0 1 0 24 2 31 (int q) @
      emit_bitfield 0 1 0 18 0 31 (int q) @ emit_logical_shifted_reg 0 1 0 0 (int r) 0 (int q) (int q) @ emit_ldr_str_imm 1 0 0 1 (int X) (int q)"
    using assms(2) al q by (auto simp: emit_fcom_cc_write_sw_def emit_fcom_cc_write_sw_keep_def free_gpr_spec)
  show "f = free" unfolding f using q by (intro bit_word_eqI) (auto simp: bit_or_iff bit_reg)
  have d: "X \<noteq> q" "r \<noteq> q" using q(4) assms(5,6) by auto
  show "\<exists>k. exec code m = Some k \<and> x87_at (amem k) (xreg m X) = (x87_at (amem m) (xreg m X))\<lparr>statusWord :=
        (statusWord (x87_at (amem m) (xreg m X)) AND NOT (cc_bits OR kConditionCode1)) OR w\<rparr> \<and>
      (\<forall>q. \<not> bit free q \<longrightarrow> xreg k q = xreg m q) \<and> vreg k = vreg m \<and> (\<forall>c. outside (xreg m X) c \<longrightarrow> amem k c = amem m c) \<and>
      flagN k = flagN m \<and> flagZ k = flagZ m \<and> flagC k = flagC m \<and> flagV k = flagV m"
    using assms(3,4,7) q d by (auto simp: code exec_rules x87_at_sw ld_words sw_codes)
qed

lemma exec_fcmp: "n < 32 \<Longrightarrow> d < 32 \<Longrightarrow> exec (emit_fcmp_f64 (int n) (int d)) m = Some (fcmp_flags (vreg m n) (vreg m d) m)"
  by (simp add: emit_fcmp_f64_def exec_decoded(3) [OF dec_fp_cmp])

lemma fcmp_flags_simps [simp]: "xreg (fcmp_flags x y m) = xreg m" "vreg (fcmp_flags x y m) = vreg m" "amem (fcmp_flags x y m) = amem m"
  by (simp_all add: fcmp_flags_def set_nzcv_def)

lemma nzcv_bits: "bit (nzcv_word m) 31 = flagN m" "bit (nzcv_word m) 30 = flagZ m" "bit (nzcv_word m) 29 = flagC m" "bit (nzcv_word m) 28 = flagV m"
  by (simp_all add: nzcv_word_def bit_or_iff bit_push_bit_iff bit_of_bool_iff)



end
