(* ===== verification/EmitX87Round.thy ===== *)
theory EmitX87Round
  imports EmitX87Flags
begin

text \<open>
  The rounding-control dispatch trees, executed with their branches, and the two sequences that
  start every access to the state: its address and the load of TOP.
\<close>

section \<open>Running decoded code\<close>

text \<open>Execution by decoded instructions; a block without literal loads runs the same.\<close>

fun runi :: "nat \<Rightarrow> a64_instr list \<Rightarrow> int \<Rightarrow> a64 \<Rightarrow> a64 option" where
  "runi 0 is pc m = (if pc = int (length is) then Some m else None)"
| "runi (Suc n) is pc m =
     (if pc = int (length is) then Some m
      else if pc < 0 \<or> int (length is) < pc then None
      else case step (is ! nat pc) m of None \<Rightarrow> None | Some (k, d) \<Rightarrow> runi n is (pc + d) k)"

lemmas runi_numeral = runi.simps(2) [of "pred_numeral k" for k, folded numeral_eq_Suc]

definition no_literal :: "a64_instr \<Rightarrow> bool" where
  "no_literal i \<longleftrightarrow> (case i of MEM (LoadLiteralFp _ _ _) \<Rightarrow> False | _ \<Rightarrow> True)"

lemma run_decoded:
  assumes "map decode ws = map Some is" "list_all no_literal is"
  shows "run n ws pc m = runi n is pc m"
proof (induction n arbitrary: pc m)
  case 0
  show ?case using assms(1) by (auto dest: arg_cong [where f = length])
next
  case (Suc n)
  have l: "length ws = length is" using assms(1) by (metis length_map)
  have "step_at ws pc m = step (is ! nat pc) m" if "0 \<le> pc" "pc < int (length is)"
  proof -
    have p: "nat pc < length is" using that by auto
    then have "decode (ws ! nat pc) = Some (is ! nat pc)" using assms(1) l by (metis nth_map)
    moreover have "no_literal (is ! nat pc)" using assms(2) p by (simp add: list_all_length)
    ultimately show ?thesis by (auto simp: step_at_def no_literal_def split: a64_instr.splits a64_mem.splits)
  qed
  then show ?case using l Suc by (auto split: option.splits)
qed

section \<open>Rounding control\<close>

text \<open>The mode a two-bit field selects.\<close>

definition rc_mode :: "u64 \<Rightarrow> rat \<Rightarrow> int" where
  "rc_mode w = (if bit w 1 then (if bit w 0 then rat_trunc else ceiling) else if bit w 0 then floor else rne)"

definition fcvt_tree :: "bool \<Rightarrow> nat \<Rightarrow> nat \<Rightarrow> nat \<Rightarrow> a64_instr list" where
  "fcvt_tree sf rc i d = [BR (TestBranch True 1 5 rc), FP (FpInt sf 1 0 0 d i), BR (TestBranch False 0 6 rc), FP (FpInt sf 1 2 0 d i),
     BR (Branch 4), FP (FpInt sf 1 1 0 d i), BR (TestBranch False 0 2 rc), FP (FpInt sf 1 3 0 d i)]"

lemma dec_fcvt_tree:
  assumes "rc < 31" "i < 31" "d < 32"
  shows "map decode (emit_x87_rc_dispatch_fcvt (int rc) (int i) (int d) sf) = map Some (fcvt_tree (sf \<noteq> 0) rc i d)"
  using assms by (simp add: emit_x87_rc_dispatch_fcvt_def fcvt_tree_def dec_tbz dec_b dec_fcvt_int)

lemma run_fcvt_tree:
  assumes "rc < 31" "i < 31" "rc \<noteq> i"
  shows "\<exists>k. runi 6 (fcvt_tree sf rc i d) 0 m = Some k \<and> xreg k = (xreg m)(i := take_bit (width sf) (fcvt_int sf (rc_mode (xreg m rc)) (vreg m d))) \<and>
     vreg k = vreg m \<and> amem k = amem m \<and> flagN k = flagN m \<and> flagZ k = flagZ m \<and> flagC k = flagC m \<and> flagV k = flagV m"
  using assms by (cases "bit (xreg m rc) 1"; cases "bit (xreg m rc) 0";
    simp add: fcvt_tree_def step_def rdx_gpr runi_numeral rc_mode_def round_mode_def wrx_def)

definition frint_tree :: "nat \<Rightarrow> nat \<Rightarrow> nat \<Rightarrow> a64_instr list" where
  "frint_tree rc d n = [BR (TestBranch True 1 6 rc), BR (TestBranch True 0 3 rc), FP (FpDp1 1 8 n d), BR (Branch 7),
     FP (FpDp1 1 10 n d), BR (Branch 5), BR (TestBranch True 0 3 rc), FP (FpDp1 1 9 n d), BR (Branch 2), FP (FpDp1 1 11 n d)]"

lemma dec_frint_tree:
  assumes "rc < 31" "d < 32" "n < 32"
  shows "map decode (emit_x87_rc_dispatch_frint (int rc) (int d) (int n)) = map Some (frint_tree rc d n)"
  using assms by (simp add: emit_x87_rc_dispatch_frint_def frint_tree_def dec_tbz dec_b dec_fp_dp1)

lemma run_frint_tree:
  assumes "rc < 31"
  shows "\<exists>k. runi 5 (frint_tree rc d n) 0 m = Some k \<and> vreg k = (vreg m)(d := fp_rint (rc_mode (xreg m rc)) (vreg m n)) \<and>
     xreg k = xreg m \<and> amem k = amem m \<and> flagN k = flagN m \<and> flagZ k = flagZ m \<and> flagC k = flagC m \<and> flagV k = flagV m"
  using assms by (cases "bit (xreg m rc) 1"; cases "bit (xreg m rc) 0";
    simp add: frint_tree_def step_def rdx_gpr runi_numeral rc_mode_def round_mode_def fp1_def wrv_def)

text \<open>The field of the control word in the dispatch register selects the runtime's rounding.\<close>

lemma two_bits:
  fixes x :: u16
  assumes "\<And>i. bit x i \<longleftrightarrow> P \<and> i = j \<or> Q \<and> i = k" "j < 16" "k < 16"
  shows "x = (if P then 2 ^ j else 0) OR (if Q then 2 ^ k else 0)"
  using assms by (intro bit_word_eqI) (auto simp: bit_or_iff bit_exp_iff)

lemma rc_mode_field:
  assumes "\<And>b. b < 2 \<Longrightarrow> bit w b = bit cw (10 + b)"
  shows "rc_mode w = rc_round cw"
proof -
  have "bit (cw AND kRoundingControlMask) i \<longleftrightarrow> bit cw 10 \<and> i = 10 \<or> bit cw 11 \<and> i = 11" for i
  proof -
    have e: "kRoundingControlMask = push_bit 10 (Bit_Operations.mask 2)" by (simp add: kRoundingControlMask_def mask_eq_exp_minus_1)
    have "bit kRoundingControlMask i \<longleftrightarrow> i = 10 \<or> i = 11" unfolding e by (auto simp: bit_push_bit_iff bit_mask_iff)
    then show ?thesis by (auto simp: bit_and_iff)
  qed
  from two_bits [OF this] have "cw AND kRoundingControlMask = (if bit cw 10 then 0x400 else 0) OR (if bit cw 11 then 0x800 else 0)"
    by simp
  then show ?thesis using assms [of 0] assms [of 1]
    by (simp add: rc_mode_def rc_round_def Let_def cw_consts)
qed

lemma fcvt_fits:
  assumes "int_fits (width sf) f v"
  shows "fcvt_int sf f v = signedResult (int_store (width sf) f v sw)"
proof -
  have "fp_finite v" "saturate sf (f (fp_val v)) = f (fp_val v)" using assms by (simp_all add: int_fits_def saturate_def)
  then show ?thesis using assms by (simp add: fcvt_int_def int_store_def fp_isnan_def fp_isinf_def)
qed

text \<open>
  (C34) Both dispatch trees end, at their end and within six instructions, for every value of the
  rounding field: the FRINT tree rounds as the runtime rounds under that control word, the FCVT tree
  delivers the integer an integer store has to deliver whenever it fits the width. The field is only
  read, and the flags and memory are kept.
\<close>

theorem rc_dispatch_rounds:
  assumes "rc < 31" "i < 31" "rc \<noteq> i" "d < 32" "n < 32" "\<And>b. b < 2 \<Longrightarrow> bit (xreg m rc) b = bit cw (10 + b)"
  shows "(\<exists>k. run 5 (emit_x87_rc_dispatch_frint (int rc) (int d) (int n)) 0 m = Some k \<and>
      vreg k = (vreg m)(d := x87_round_by_rc (vreg m n) cw) \<and> xreg k = xreg m \<and> amem k = amem m \<and>
      flagN k = flagN m \<and> flagZ k = flagZ m \<and> flagC k = flagC m \<and> flagV k = flagV m) \<and>
    (\<exists>k x. run 6 (emit_x87_rc_dispatch_fcvt (int rc) (int i) (int d) sf) 0 m = Some k \<and>
      xreg k = (xreg m)(i := take_bit (width (sf \<noteq> 0)) x) \<and>
      (int_fits (width (sf \<noteq> 0)) (rc_round cw) (vreg m d) \<longrightarrow>
         x = signedResult (int_store (width (sf \<noteq> 0)) (rc_round cw) (vreg m d) sw)) \<and>
      vreg k = vreg m \<and> amem k = amem m \<and> flagN k = flagN m \<and> flagZ k = flagZ m \<and> flagC k = flagC m \<and> flagV k = flagV m)"
proof
  have rc: "rc_mode (xreg m rc) = rc_round cw" by (rule rc_mode_field) (rule assms(6))
  have nl: "list_all no_literal (frint_tree rc d n)" "list_all no_literal (fcvt_tree (sf \<noteq> 0) rc i d)"
    by (simp_all add: frint_tree_def fcvt_tree_def no_literal_def)
  show "\<exists>k. run 5 (emit_x87_rc_dispatch_frint (int rc) (int d) (int n)) 0 m = Some k \<and>
      vreg k = (vreg m)(d := x87_round_by_rc (vreg m n) cw) \<and> xreg k = xreg m \<and> amem k = amem m \<and>
      flagN k = flagN m \<and> flagZ k = flagZ m \<and> flagC k = flagC m \<and> flagV k = flagV m"
    using run_frint_tree [OF assms(1), of d n m]
    unfolding run_decoded [OF dec_frint_tree [OF assms(1,4,5)] nl(1)] rc x87_round_by_rc_rint .
  show "\<exists>k x. run 6 (emit_x87_rc_dispatch_fcvt (int rc) (int i) (int d) sf) 0 m = Some k \<and>
      xreg k = (xreg m)(i := take_bit (width (sf \<noteq> 0)) x) \<and>
      (int_fits (width (sf \<noteq> 0)) (rc_round cw) (vreg m d) \<longrightarrow>
         x = signedResult (int_store (width (sf \<noteq> 0)) (rc_round cw) (vreg m d) sw)) \<and>
      vreg k = vreg m \<and> amem k = amem m \<and> flagN k = flagN m \<and> flagZ k = flagZ m \<and> flagC k = flagC m \<and> flagV k = flagV m"
    using run_fcvt_tree [OF assms(1-3), of "sf \<noteq> 0" d m] fcvt_fits [of "sf \<noteq> 0" "rc_round cw" "vreg m d" sw]
    unfolding run_decoded [OF dec_fcvt_tree [OF assms(1,2,4)] nl(2)] rc by blast
qed

theorem rc_dispatch_rounds_witness:
  "\<exists>k. run 5 (emit_x87_rc_dispatch_frint 22 30 31) 0 idle = Some k \<and>
     vreg k = (vreg idle)(30 := x87_round_by_rc (vreg idle 31) 0x037F)"
proof -
  have "bit (xreg idle 22) b = bit (0x037F :: u16) (10 + b)" if "b < 2" for b
  proof -
    have "b = 0 \<or> b = 1" using that by auto
    then show ?thesis by (elim disjE) (simp_all add: idle_def)
  qed
  from rc_dispatch_rounds [of 22 23 30 31 idle "0x037F", OF _ _ _ _ _ this] show ?thesis by auto
qed

section \<open>Starting a sequence\<close>

lemma offset_parts:
  fixes offset :: u32
  shows "uint (drop_bit 12 offset) = uint offset div 4096" "uint (offset AND 0xFFF) = uint offset mod 4096"
proof -
  show "uint (drop_bit 12 offset) = uint offset div 4096" by (simp add: uint_div drop_bit_eq_div)
  have "offset AND 0xFFF = take_bit 12 offset" by (simp add: take_bit_eq_mask mask_eq_exp_minus_1)
  then show "uint (offset AND 0xFFF) = uint offset mod 4096" by (simp add: take_bit_eq_mod uint_mod)
qed

lemma exec_x87_base:
  assumes "d < 31" "offset < 2 ^ 24"
  shows "execo (emit_x87_base offset (int d)) m = Some (setx d (xreg m 18 + ucast offset) m)"
proof -
  have b: "uint offset < 2 ^ 24" using assms(2) by (simp add: word_less_def)
  have u: "(word_of_int (uint offset) :: u64) = ucast offset" by simp
  have dv: "0 \<le> uint offset div 4096" "uint offset div 4096 < 4096" using b by (simp_all add: pos_imp_zdiv_nonneg_iff)
  have md: "0 \<le> uint offset mod 4096" "uint offset mod 4096 < 4096" by auto
  consider "offset \<le> 0xFFF" | "\<not> offset \<le> 0xFFF" "offset AND 0xFFF = 0" | "\<not> offset \<le> 0xFFF" "offset AND 0xFFF \<noteq> 0" by blast
  then show ?thesis
  proof cases
    case 1
    then have "uint offset < 4096" by (simp add: word_le_def)
    then show ?thesis using 1 assms(1) exec_add_imm64(1) [of 18 d "uint offset" m] by (simp add: emit_x87_base_def execo_Some u)
  next
    case 2
    then have "uint offset div 4096 * 4096 = uint offset" using offset_parts(2) [of offset] by (simp add: mult.commute minus_mod_eq_mult_div [symmetric])
    then show ?thesis using 2 assms(1) exec_add_imm64(2) [of 18 d "uint offset div 4096" m] dv
      by (simp add: emit_x87_base_def execo_Some offset_parts u)
  next
    case 3
    have "(word_of_int (uint offset div 4096 * 4096) :: u64) + word_of_int (uint offset mod 4096) = word_of_int (uint offset div 4096 * 4096 + uint offset mod 4096)"
      by (simp only: wi_hom_add)
    then have "(word_of_int (uint offset div 4096 * 4096) :: u64) + word_of_int (uint offset mod 4096) = ucast offset"
      by (simp only: div_mult_mod_eq u)
    then have "(word_of_int (uint offset div 4096) :: u64) * 4096 + word_of_int (uint offset mod 4096) = ucast offset" by simp
    then show ?thesis using 3 assms(1) exec_add_imm64(2) [of 18 d "uint offset div 4096" m]
        exec_add_imm64(1) [of d d "uint offset mod 4096" "setx d (xreg m 18 + word_of_int (uint offset div 4096 * 4096)) m"] dv md
      by (simp add: emit_x87_base_def execo_Some exec_append offset_parts add.assoc setx_def)
  qed
qed

lemma top_field: "ubfm32 11 13 (ucast (statusWord s)) = topIndex s"
  unfolding topIndex_def word3
  by (rule bit_word_eqI) (auto simp: ubfm32_def bit_unsigned_iff bit_take_bit_iff bit_drop_bit_eq bit_and_iff bit_mask_iff)

lemma exec_load_top:
  assumes "X < 31" "t < 31" "offset < 2 ^ 24" "xreg m X = xreg m 18 + ucast offset"
  shows "execo (emit_load_top offset (int X) (int t)) m = Some (setw t (topIndex (x87_at (amem m) (xreg m X))) (setw t (ucast (statusWord (x87_at (amem m) (xreg m X)))) m))"
proof (cases "(offset + 2) AND 1 = 0 \<and> offset + 2 \<le> 0x1FFE")
  case False
  then have c: "emit_load_top offset (int X) (int t) = Some (emit_ldr_str_imm 1 0 1 1 (int X) (int t) @ emit_bitfield 0 2 0 11 13 (int t) (int t))"
    by (auto simp: emit_load_top_def Let_def)
  show ?thesis using assms(1,2) unfolding c by (simp add: exec_rules ld_words top_field)
next
  case True
  have o: "uint (offset + 2) = uint offset + 2" using assms(3) by (simp add: uint_word_ariths word_less_def)
  have "uint ((offset + 2) AND 1) = uint (offset + 2) mod 2" by (simp add: and_one_eq uint_mod)
  then have e: "uint (offset + 2) mod 2 = 0" using True by simp
  have i: "uint ((offset + 2) div 2) = (uint offset + 2) div 2" by (simp add: uint_div o)
  have r: "0 \<le> (uint offset + 2) div 2" "(uint offset + 2) div 2 < 4096" using True o by (auto simp: word_le_def)
  have "(uint offset + 2) div 2 * 2 = uint offset + 2" using e o by presburger
  then have a: "xreg m 18 + word_of_int ((uint offset + 2) div 2 * 2) = xreg m X + 2" by (simp add: assms(4))
  have c: "emit_load_top offset (int X) (int t) = Some (emit_ldr_str_imm 1 0 1 ((uint offset + 2) div 2) (int 18) (int t) @ emit_bitfield 0 2 0 11 13 (int t) (int t))"
    using True i by (simp add: emit_load_top_def Let_def)
  show ?thesis unfolding c execo_Some exec_append
    using assms(2) exec_ldrh [of 18 t "(uint offset + 2) div 2" m] r unfolding a by (simp add: exec_ubfm ld_words top_field)
qed

text \<open>
  (C35) Base and TOP: for every state offset below sixteen megabytes the base sequence computes the
  address of the state from the thread register, and the TOP sequence then loads the TOP field of
  the status word there, directly from the thread register where the displacement allows it.
\<close>

theorem base_and_top:
  assumes "X < 31" "t < 31" "X \<noteq> t" "X \<noteq> 18" "t \<noteq> 18" "offset < 2 ^ 24"
  shows "\<exists>k. execo (eseq [emit_x87_base offset (int X), emit_load_top offset (int X) (int t)]) m = Some k \<and>
    xreg k X = xreg m 18 + ucast offset \<and> ready X t (-1) k \<and> in_step X t k \<and> frame (xreg k X) [X, t] m k \<and> amem k = amem m"
proof -
  let ?m = "setx X (xreg m 18 + ucast offset) m"
  have "execo (emit_load_top offset (int X) (int t)) ?m = Some (setw t (topIndex (x87_at (amem m) (xreg ?m X)))
      (setw t (ucast (statusWord (x87_at (amem m) (xreg ?m X)))) ?m))"
    using exec_load_top [of X t offset ?m] assms by simp
  then show ?thesis using assms by (simp add: execo_eseq exec_x87_base ready_def in_step_def)
qed

theorem base_and_top_witness:
  "\<exists>k. execo (eseq [emit_x87_base 0x1234 22, emit_load_top 0x1234 22 23]) idle = Some k \<and> xreg k 22 = 0x1234 \<and> in_step 22 23 k"
  using base_and_top [of 22 23 "0x1234" idle] by (auto simp: idle_def)

text \<open>
  The older flag transfer \<open>emit_fcom_flags_to_sw\<close> takes C0 from the host's carry flag and inserts bit 0
  of the shifted flags where its comment names bit 14. For equal operands it reports C0 and not C3.
\<close>

lemma exec_old_transfer:
  assumes "X < 31" "a < 31" "b < 31" "distinct [X, a, b]" "\<not> flagN m" "flagZ m" "flagC m" "\<not> flagV m"
  shows "\<exists>k. execo (emit_fcom_flags_to_sw (int X) (int a) (int b)) m = Some k \<and>
    statusWord (x87_at (amem k) (xreg m X)) = (statusWord (x87_at (amem m) (xreg m X)) AND NOT (cc_bits OR kConditionCode1)) OR kConditionCode0"
proof -
  have n: "nzcv_word m = 0x60000000" using assms(5-8) by (simp add: nzcv_word_def)
  have w: "(kConditionCode0 :: u16) = 0x100" by (simp add: kConditionCode0_def)
  show ?thesis using assms(1-4) sw_codes [of "statusWord (x87_at (amem m) (xreg m X))" "0x100"]
    by (simp add: emit_fcom_flags_to_sw_def exec_rules n ubfm32_def x87_at_sw ld_words w) (simp add: bfm32_def)
qed

end
