(* ===== verification/LogImm.thy ===== *)
theory LogImm
  imports BridgeImm A64Rules
begin

text \<open>
  \<open>is_bitmask_immediate\<close> of \<open>AssemblerHelpers.cpp\<close>: the fields of the AArch64 logical immediate for a
  value, against the architecture's expansion of those fields (\<open>bit_mask\<close>).
\<close>

section \<open>The encoder\<close>

text \<open>\<open>__builtin_ctzll\<close> and \<open>__builtin_clzll\<close>, of a value that is not zero.\<close>

definition ctz64 :: "u64 \<Rightarrow> nat" where
  "ctz64 x = hd (filter (bit x) [0..<64])"

definition clz64 :: "u64 \<Rightarrow> nat" where
  "clz64 x = 63 - last (filter (bit x) [0..<64])"

definition LogicalImmEncoding :: "nat \<Rightarrow> u8 \<Rightarrow> u8 \<Rightarrow> bool \<times> u8 \<times> u8" where
  "LogicalImmEncoding element_size rotation run_len =
     (let imms_raw = (run_len - 1) OR of_nat (0xFE * element_size) in
      (imms_raw AND 0x40 = 0, word_of_int ((int element_size - uint rotation) AND (int element_size - 1)), imms_raw AND 0x3F))"

text \<open>
  The outer \<open>None\<close> is the failed assertion on the rotation, the inner one the answer no. The loop that
  halves the element and the test for one run of ones are those of \<open>alu_is_bitmask_immediate\<close>, which
  repeats this function.
\<close>

definition is_bitmask_immediate :: "bool \<Rightarrow> u64 \<Rightarrow> (bool \<times> u8 \<times> u8) option option" where
  "is_bitmask_immediate is_64bit value0 =
     (if (if is_64bit then value0 + 1 < 2 else (ucast (value0 + 1) :: u32) < 2) then Some None
      else
        let value = (if is_64bit then value0 else ucast (ucast value0 :: u32));
            element_size = bitmask_period value (if is_64bit then 64 else 32);
            element_mask = drop_bit (nat ((- int element_size) mod 64)) (- 1);
            element = element_mask AND value;
            zeros = element_mask AND NOT value;
            encode = (\<lambda>rotation run_len :: u8. if unat rotation \<le> element_size
              then Some (Some (LogicalImmEncoding element_size rotation run_len)) else None)
        in if ones_run element then
             (let rotation = ctz64 element in encode (of_nat rotation) (of_nat (ctz64 (NOT (drop_bit rotation element)))))
           else if ones_run zeros then
             (let lz = clz64 zeros; tz = ctz64 zeros
              in encode (of_nat (64 - lz)) (word_of_int (int lz + int tz - (64 - int element_size))))
           else Some None)"

section \<open>Fields\<close>

lemma exponent_cases: "1 \<le> k \<Longrightarrow> k \<le> 6 \<Longrightarrow> k \<in> {1, 2, 3, 4, 5, 6 :: nat}"
  by auto

lemma size_tag: "1 \<le> k \<Longrightarrow> k \<le> 6 \<Longrightarrow> (of_nat (0xFE * 2 ^ k) :: u8) = NOT (mask (Suc k))"
  using exponent_cases [of k] by (auto simp: mask_eq_exp_minus_1)

lemma length_field:
  assumes "1 \<le> k" "k \<le> 6" "0 < len" "len < 2 ^ k"
  shows "((of_nat len - 1) OR of_nat (0xFE * 2 ^ k) :: u8) AND 0x40 = 0 \<longleftrightarrow> k = 6"
    and "unat ((((of_nat len - 1) OR of_nat (0xFE * 2 ^ k)) AND 0x3F) :: u8) = len - 1 + (if k = 6 then 0 else 64 - 2 ^ Suc k)"
proof -
  have x: "(of_nat len - 1 :: u8) = of_nat (len - 1)" using assms(3) by (simp add: of_nat_diff)
  have lk: "len - 1 < 2 ^ k" using assms(4) by simp
  have low: "bit (len - 1) n \<Longrightarrow> n < k" for n using lk by (metis bit_take_bit_iff take_bit_nat_eq_self)
  have b: "bit ((of_nat len - 1 :: u8) OR of_nat (0xFE * 2 ^ k)) n \<longleftrightarrow> n < 8 \<and> (bit (len - 1) n \<or> k < n)" for n
    unfolding x size_tag [OF assms(1,2)] by (auto simp: bit_simps)
  have m: "(0x40 :: u8) = 2 ^ 6" "(0x3F :: u8) = mask 6" by (simp_all add: mask_eq_exp_minus_1)
  have "((of_nat len - 1) OR of_nat (0xFE * 2 ^ k) :: u8) AND 0x40 = 0 \<longleftrightarrow> \<not> bit ((of_nat len - 1 :: u8) OR of_nat (0xFE * 2 ^ k)) 6"
    unfolding m by (rule and_exp_eq_0_iff_not_bit)
  then show "((of_nat len - 1) OR of_nat (0xFE * 2 ^ k) :: u8) AND 0x40 = 0 \<longleftrightarrow> k = 6"
    unfolding b using assms(2) low [of 6] by auto
  have q: "bit (push_bit (Suc k) (mask (5 - k)) :: nat) n \<longleftrightarrow> k < n \<and> n < 6" for n
    using assms(2) by (auto simp only: bit_push_bit_iff bit_mask_iff) auto
  have c: "bit (unat (w AND mask 6)) n \<longleftrightarrow> n < 6 \<and> bit w n" for w :: u8 and n
    by (auto simp: bit_simps)
  have "unat ((((of_nat len - 1) OR of_nat (0xFE * 2 ^ k)) AND 0x3F) :: u8) = (len - 1 OR push_bit (Suc k) (mask (5 - k)))"
    unfolding m
  proof (rule bit_eqI, unfold c bit_or_iff [of "len - 1"] q b)
    fix n show "n < 6 \<and> n < 8 \<and> (bit (len - 1) n \<or> k < n) \<longleftrightarrow> bit (len - 1) n \<or> k < n \<and> n < 6" using low [of n] assms(2) by auto
  qed
  also have "\<dots> = len - 1 + push_bit (Suc k) (mask (5 - k))"
  proof (rule disjunctive_add_eq_or [symmetric], rule bit_eqI, unfold bit_and_iff q)
    fix n show "bit (len - 1) n \<and> k < n \<and> n < 6 \<longleftrightarrow> bit (0 :: nat) n" using low [of n] by auto
  qed
  also have "push_bit (Suc k) (mask (5 - k)) = (if k = 6 then 0 else 64 - 2 ^ Suc k :: nat)"
    using exponent_cases [OF assms(1,2)] by (auto simp: mask_eq_exp_minus_1 push_bit_eq_mult)
  finally show "unat ((((of_nat len - 1) OR of_nat (0xFE * 2 ^ k)) AND 0x3F) :: u8) = len - 1 + (if k = 6 then 0 else 64 - 2 ^ Suc k)" .
qed

lemma rotation_field:
  assumes "k \<le> 6" "rot \<le> 2 ^ k"
  shows "unat (word_of_int ((int (2 ^ k) - uint (of_nat rot :: u8)) AND (int (2 ^ k) - 1)) :: u8) = (2 ^ k - rot) mod 2 ^ k"
proof -
  have k: "(2::nat) ^ k \<le> 64" using assms(1) power_increasing [of k 6 "2::nat"] by simp
  then have "rot < 256" using assms(2) by simp
  then have u: "uint (of_nat rot :: u8) = int rot" by (simp add: unsigned_of_nat take_bit_nat_eq_self uint_nat)
  have "(int (2 ^ k) - uint (of_nat rot :: u8)) AND (int (2 ^ k) - 1) = take_bit k (int (2 ^ k) - int rot)"
    unfolding u by (simp add: take_bit_eq_mask mask_eq_exp_minus_1)
  also have "\<dots> = int ((2 ^ k - rot) mod 2 ^ k)" using assms(2) by (simp add: take_bit_eq_mod zmod_int of_nat_diff)
  finally have e: "(int (2 ^ k) - uint (of_nat rot :: u8)) AND (int (2 ^ k) - 1) = int ((2 ^ k - rot) mod 2 ^ k)" .
  have "(2 ^ k - rot) mod 2 ^ k < (2 :: nat) ^ k" by simp
  then have "(2 ^ k - rot) mod 2 ^ k < 256" using k by linarith
  then show ?thesis unfolding e by (simp add: unsigned_of_nat take_bit_nat_eq_self)
qed

lemma encoding_fields:
  assumes "1 \<le> k" "k \<le> 6" "0 < len" "len < 2 ^ k" "rot \<le> 2 ^ k"
  obtains immr imms where "LogicalImmEncoding (2 ^ k) (of_nat rot) (of_nat len) = (k = 6, immr, imms)"
    "unat immr = (2 ^ k - rot) mod 2 ^ k" "elem_log2 (k = 6) (unat imms) = k" "unat imms mod 2 ^ k = len - 1"
proof -
  note l = length_field [OF assms(1-4)] and r = rotation_field [OF assms(2,5)]
  let ?imms = "((of_nat len - 1) OR of_nat (0xFE * 2 ^ k)) AND 0x3F :: u8"
  have "elem_log2 (k = 6) (unat ?imms) = k"
    unfolding l(2) using exponent_cases [OF assms(1,2)] assms(3,4) by (auto simp: elem_log2_def)
  moreover have "unat ?imms mod 2 ^ k = len - 1"
  proof -
    have "(if k = 6 then 0 else 64 - 2 ^ Suc k) mod 2 ^ k = (0::nat)" using exponent_cases [OF assms(1,2)] by auto
    then show ?thesis unfolding l(2) using assms(4) by (metis add.right_neutral less_imp_diff_less mod_add_right_eq mod_less)
  qed
  ultimately show ?thesis using l(1) r by (intro that) (auto simp: LogicalImmEncoding_def Let_def)
qed

section \<open>Expansion of the fields\<close>

lemma bit_replicate_elem:
  fixes v :: u64
  assumes "0 < e" "\<And>n. bit v n \<Longrightarrow> n < e" "c * e \<le> 64"
  shows "bit (replicate_elem c e v) n \<longleftrightarrow> n < c * e \<and> bit v (n mod e)"
  using assms(3)
proof (induction c arbitrary: n)
  case (Suc c)
  then have c: "c * e \<le> 64" by simp
  show ?case
  proof (cases "n < e")
    case True
    then show ?thesis using assms(1) by (auto simp: bit_or_iff bit_push_bit_iff)
  next
    case False
    then have "\<not> bit v n" "(n - e) mod e = n mod e" using assms(2) [of n] by (auto simp: le_mod_geq)
    then show ?thesis using False Suc.IH [OF c, of "n - e"] Suc.prems
      by (auto simp: bit_or_iff bit_push_bit_iff dest: bit_imp_le_length)
  qed
qed simp

lemma rotated_run:
  assumes "0 < len" "len < e" "R < e" "e \<le> 64"
  shows "bit (take_bit e (drop_bit R (mask len) OR push_bit (e - R) (mask len)) :: u64) n \<longleftrightarrow> n < e \<and> (n + R) mod e < len"
proof (cases "n < e")
  case True
  then have "(n + R) mod e = (if n + R < e then n + R else n + R - e)" using assms(3) by (simp add: mod_if)
  then show ?thesis using True assms by (auto simp: bit_simps)
qed (simp add: bit_simps)

lemma bit_mask_fields:
  assumes "1 \<le> k" "2 ^ k \<le> width sf" "0 < len" "len < 2 ^ k" "elem_log2 (k = 6) imms = k" "imms mod 2 ^ k = len - 1" "immr < 2 ^ k"
  obtains w where "bit_mask sf (k = 6) immr imms = Some w" "\<And>n. bit w n \<longleftrightarrow> n < width sf \<and> (n + immr) mod 2 ^ k < len"
proof -
  let ?e = "2 ^ k :: nat"
  let ?v = "take_bit ?e (drop_bit immr (mask len) OR push_bit (?e - immr) (mask len)) :: u64"
  have w64: "width sf \<le> 64" by (cases sf) simp_all
  have sf: "k = 6 \<Longrightarrow> sf" using assms(2) by (cases sf) auto
  have ev: "bit ?v n \<longleftrightarrow> n < ?e \<and> (n + immr) mod ?e < len" for n
    using rotated_run [OF assms(3,4,7), of n] assms(2) w64 by simp
  obtain j where j: "width sf = 2 ^ j" "j \<le> 6" by (cases sf) (use that [of 6] that [of 5] in auto)
  then have "k \<le> j" using assms(2) by simp
  then have d: "width sf div ?e * ?e = width sf" unfolding j by (simp add: le_imp_power_dvd)
  have b: "bit (replicate_elem (width sf div ?e) ?e ?v) n \<longleftrightarrow> n < width sf \<and> (n + immr) mod ?e < len" for n
    using bit_replicate_elem [of ?e ?v "width sf div ?e" n] ev d w64 by (simp add: mod_simps)
  have "bit_mask sf (k = 6) immr imms = Some (replicate_elem (width sf div ?e) ?e ?v)"
    using assms sf by (auto simp: bit_mask_def Let_def mod_less)
  then show ?thesis using that b by blast
qed

section \<open>Runs and their ends\<close>

lemma filter_interval:
  assumes "\<And>n. n < N \<Longrightarrow> P n \<longleftrightarrow> a \<le> n \<and> n < b" "a \<le> b" "b \<le> N"
  shows "filter P [0..<N] = [a..<b]"
proof -
  have "[0..<N] = [0..<a] @ [a..<b] @ [b..<N]" using assms(2,3) by (metis le0 le_trans upt_add_eq_append le_iff_add)
  moreover have "filter P [0..<a] = []" "filter P [a..<b] = [a..<b]" "filter P [b..<N] = []"
    using assms by (auto simp: filter_empty_conv intro!: filter_True)
  ultimately show ?thesis by simp
qed

lemma run_ends:
  assumes "\<And>n. bit v n \<longleftrightarrow> a \<le> n \<and> n < b" "a < b" "b \<le> 64"
  shows "ctz64 v = a" "clz64 v = 64 - b" "b - a < 64 \<Longrightarrow> ctz64 (NOT (drop_bit a v)) = b - a"
proof -
  have f: "filter (bit v) [0..<64] = [a..<b]" using assms by (intro filter_interval) auto
  show "ctz64 v = a" "clz64 v = 64 - b" unfolding ctz64_def clz64_def f using assms(2,3) by (simp_all add: hd_conv_nth last_conv_nth)
  show "ctz64 (NOT (drop_bit a v)) = b - a" if "b - a < 64"
  proof -
    have "filter (bit (NOT (drop_bit a v))) [0..<64] = [b - a..<64]"
      using assms(2,3) that by (intro filter_interval) (auto simp: bit_simps assms(1))
    then show ?thesis unfolding ctz64_def using that by (simp add: hd_conv_nth)
  qed
qed

section \<open>The encoder is exact\<close>

lemma low_six: "unat (x AND 0x3F :: u8) < 64"
proof -
  have "x AND 0x3F \<le> 0x3F" by (rule word_and_le1)
  then show ?thesis by (simp add: word_le_nat_alt)
qed

text \<open>One element of \<open>2 ^ l\<close> bits with a run of ones from \<open>a\<close> to \<open>b\<close>, or of zeros.\<close>

lemma encode_run:
  assumes l: "1 \<le> l" "2 ^ l \<le> width sf" and ab: "a < b" "b \<le> 2 ^ l" "b - a < 2 ^ l"
    and per: "\<And>n. n < width sf \<Longrightarrow> bit v n \<longleftrightarrow> bit v (n mod 2 ^ l)" and v: "\<And>n. n < 2 ^ l \<Longrightarrow> bit v n \<longleftrightarrow> (a \<le> n \<and> n < b) = c"
    and rl: "rot = (if c then a else b)" "len = (if c then b - a else 2 ^ l - (b - a))"
  obtains N immr imms where "LogicalImmEncoding (2 ^ l) (of_nat rot) (of_nat len) = (N, immr, imms)"
    "bit_mask sf N (unat immr) (unat imms) = Some (take_bit (width sf) v)" "unat immr < 64" "unat imms < 64"
proof -
  have "(2::nat) ^ l \<le> 2 ^ 6" using l(2) by (cases sf) simp_all
  then have l6: "l \<le> 6" by (rule power_le_imp_le_exp [rotated]) simp
  have len: "0 < len" "len < 2 ^ l" "rot \<le> 2 ^ l" using ab rl by auto
  obtain immr imms where e: "LogicalImmEncoding (2 ^ l) (of_nat rot) (of_nat len) = (l = 6, immr, imms)"
    "unat immr = (2 ^ l - rot) mod 2 ^ l" "elem_log2 (l = 6) (unat imms) = l" "unat imms mod 2 ^ l = len - 1"
    by (rule encoding_fields [OF l(1) l6 len])
  have "unat immr < 2 ^ l" unfolding e(2) by simp
  then obtain w where w: "bit_mask sf (l = 6) (unat immr) (unat imms) = Some w"
    "\<And>n. bit w n \<longleftrightarrow> n < width sf \<and> (n + unat immr) mod 2 ^ l < len"
    by (rule bit_mask_fields [OF l len(1,2) e(3,4)]) blast
  have "bit v n \<longleftrightarrow> (n + (2 ^ l - rot) mod 2 ^ l) mod 2 ^ l < len" if "n < width sf" for n
    using per [OF that] v [of "n mod 2 ^ l"] run_arcs [OF ab, of n] unfolding rl by (cases c) auto
  then have "w = take_bit (width sf) v" by (intro bit_word_eqI) (auto simp: w(2) e(2) bit_take_bit_iff)
  moreover have "unat immr < 64" using \<open>unat immr < 2 ^ l\<close> \<open>(2::nat) ^ l \<le> 2 ^ 6\<close> by simp
  moreover have "unat imms < 64" using e(1) low_six by (auto simp: LogicalImmEncoding_def Let_def)
  ultimately show ?thesis using that e(1) w(1) by blast
qed

abbreviation (input) element_cut :: "nat \<Rightarrow> u64" where
  "element_cut e \<equiv> drop_bit (nat ((- int e) mod 64)) (- 1)"

definition encode_element :: "nat \<Rightarrow> u64 \<Rightarrow> u64 \<Rightarrow> (bool \<times> u8 \<times> u8) option option" where
  "encode_element e element zeros =
     (let encode = (\<lambda>rotation run_len :: u8. if unat rotation \<le> e then Some (Some (LogicalImmEncoding e rotation run_len)) else None)
      in if ones_run element then encode (of_nat (ctz64 element)) (of_nat (ctz64 (NOT (drop_bit (ctz64 element) element))))
         else if ones_run zeros then encode (of_nat (64 - clz64 zeros)) (word_of_int (int (clz64 zeros) + int (ctz64 zeros) - (64 - int e)))
         else Some None)"

lemma encoder_period:
  assumes "\<not> (if sf then v + 1 < 2 else (ucast (v + 1) :: u32) < 2)"
  obtains l low where "1 \<le> l" "2 ^ l \<le> width sf" "\<And>n. n < width sf \<Longrightarrow> bit v n \<longleftrightarrow> bit v (n mod 2 ^ l)"
    "\<exists>n < width sf. bit v n" "\<exists>n < width sf. \<not> bit v n"
    "\<And>n. bit (low AND take_bit (width sf) v) n \<longleftrightarrow> n < 2 ^ l \<and> bit v n"
    "\<And>n. bit (low AND NOT (take_bit (width sf) v)) n \<longleftrightarrow> n < 2 ^ l \<and> \<not> bit v n"
    "is_bitmask_immediate sf v = encode_element (2 ^ l) (low AND take_bit (width sf) v) (low AND NOT (take_bit (width sf) v))"
    "alu_is_bitmask_immediate sf v = (ones_run (low AND take_bit (width sf) v) \<or> ones_run (low AND NOT (take_bit (width sf) v)))"
proof -
  define w :: u64 where "w = (if sf then v else ucast (ucast v :: u32))"
  have wt: "w = take_bit (width sf) v" by (simp add: w_def take32 take_bit_word_eq_self)
  have wb: "bit w n \<longleftrightarrow> bit v n" if "n < width sf" for n using that by (simp add: wt bit_take_bit_iff)
  have width: "width sf = (if sf then 64 else 32)" "width sf \<le> 64" by (simp_all add: width_def)
  have all: "(\<forall>n < width sf. bit v n \<longleftrightarrow> c) \<longleftrightarrow> (if sf then v = (if c then - 1 else 0) else (ucast v :: u32) = (if c then - 1 else 0))" for c
    by (auto simp: width(1) bit_eq_iff bit_simps)
  have nz: "\<exists>n < width sf. bit v n" "\<exists>n < width sf. \<not> bit v n"
    using assms all [of True] all [of False] by (auto simp: less_two_word ucast_inc split: if_splits)
  obtain m where m: "2 \<le> m" "width sf = 2 ^ m" by (cases sf) (use that [of 6] that [of 5] in auto)
  obtain l where l: "1 \<le> l" "l \<le> m" "bitmask_period w (width sf) = 2 ^ l" "periodic w (2 ^ l) (width sf)"
    using bitmask_period_spec [OF m(1) _ width(2), of w] m(2) by (auto simp: periodic_def)
  have p: "2 ^ l \<le> width sf" unfolding m(2) using l(2) by (intro power_increasing) auto
  then have p: "2 ^ l \<le> width sf" "(2::nat) ^ l \<le> 64" "0 < (2 :: nat) ^ l" using width(2) by simp_all
  have per: "bit v n \<longleftrightarrow> bit v (n mod 2 ^ l)" if "n < width sf" for n
  proof -
    have "n mod 2 ^ l < width sf" using that mod_less_eq_dividend [of n "2 ^ l"] by linarith
    then show ?thesis using l(4) that wb unfolding periodic_def by blast
  qed
  define low :: u64 where "low = element_cut (2 ^ l)"
  have low: "bit low n \<longleftrightarrow> n < 2 ^ l" for n unfolding low_def using low_mask [OF p(3,2)] .
  have lv: "bit (low AND w) n \<longleftrightarrow> n < 2 ^ l \<and> bit v n" "bit (low AND NOT w) n \<longleftrightarrow> n < 2 ^ l \<and> \<not> bit v n" for n
    using p wb [of n] by (auto simp: bit_and_iff bit_not_iff low)
  have "is_bitmask_immediate sf v = encode_element (2 ^ l) (low AND w) (low AND NOT w)"
    "alu_is_bitmask_immediate sf v = (ones_run (low AND w) \<or> ones_run (low AND NOT w))"
    unfolding is_bitmask_immediate_def alu_is_bitmask_immediate_def encode_element_def if_not_P [OF assms] Let_def w_def [symmetric]
      width(1) [symmetric] l(3) low_def [symmetric] by (rule refl)+
  then show ?thesis using that [OF l(1) p(1) per nz lv [unfolded wt]] unfolding wt by blast
qed

lemma encode_exact:
  assumes l: "1 \<le> l" "2 ^ l \<le> width sf" and per: "\<And>n. n < width sf \<Longrightarrow> bit v n \<longleftrightarrow> bit v (n mod 2 ^ l)"
    and nz: "\<exists>n < width sf. bit v n" "\<exists>n < width sf. \<not> bit v n"
    and lv: "\<And>n. bit one n \<longleftrightarrow> n < 2 ^ l \<and> bit v n" "\<And>n. bit zero n \<longleftrightarrow> n < 2 ^ l \<and> \<not> bit v n"
    and run: "ones_run (if c then one else zero)" "\<not> c \<Longrightarrow> \<not> ones_run one"
  shows "\<exists>N immr imms. encode_element (2 ^ l) one zero = Some (Some (N, immr, imms)) \<and>
      bit_mask sf N (unat immr) (unat imms) = Some (take_bit (width sf) v) \<and> unat immr < 64 \<and> unat imms < 64"
proof -
  have p: "width sf \<le> 64" "(0 :: nat) < 2 ^ l" by (simp_all add: width_def)
  obtain a b where ab: "a < b" "b \<le> 64" "\<And>n. n < 2 ^ l \<and> bit v n = c \<longleftrightarrow> a \<le> n \<and> n < b"
    using run(1) unfolding ones_run_iff by (cases c) (auto simp: lv)
  have bp: "b \<le> 2 ^ l" using ab(1) ab(3) [of "b - 1"] by auto
  have d: "b - a < 2 ^ l"
  proof (rule ccontr)
    assume "\<not> b - a < 2 ^ l"
    then have "a = 0" "b = 2 ^ l" using bp ab(1) by auto
    then have "bit v n \<longleftrightarrow> c" if "n < width sf" for n using ab(3) [of "n mod 2 ^ l"] per [OF that] p(2) by simp
    then show False using nz by blast
  qed
  have vc: "bit v n \<longleftrightarrow> (a \<le> n \<and> n < b) = c" if "n < 2 ^ l" for n using ab(3) [of n] that by auto
  let ?r = "if c then a else b" and ?len = "if c then b - a else 2 ^ l - (b - a)"
  obtain N immr imms where e: "LogicalImmEncoding (2 ^ l) (of_nat ?r) (of_nat ?len) = (N, immr, imms)"
    "bit_mask sf N (unat immr) (unat imms) = Some (take_bit (width sf) v)" "unat immr < 64" "unat imms < 64"
    by (rule encode_run [OF l ab(1) bp d per vc refl refl])
  have ends: "ctz64 (if c then one else zero) = a" "clz64 (if c then one else zero) = 64 - b"
    "b - a < 64 \<Longrightarrow> ctz64 (NOT (drop_bit a (if c then one else zero))) = b - a"
    using run_ends [OF _ ab(1,2), of "if c then one else zero"] ab(3) lv by (cases c; simp)+
  have r: "unat (of_nat ?r :: u8) \<le> 2 ^ l" using bp ab(1,2) by (auto simp: unsigned_of_nat take_bit_nat_eq_self)
  have len: "(word_of_int (int (64 - b) + int a - (64 - int (2 ^ l))) :: u8) = of_nat (2 ^ l - (b - a))"
  proof -
    have "int (64 - b) + int a - (64 - int (2 ^ l)) = int (2 ^ l - (b - a))" using ab(1,2) bp d by auto
    then show ?thesis by simp
  qed
  have "b - a < 64" using d l(2) p(1) by linarith
  then have "encode_element (2 ^ l) one zero = Some (Some (N, immr, imms))"
    using e(1) r ends run ab(2) len by (cases c) (simp_all add: encode_element_def Let_def)
  then show ?thesis using e(2-4) by blast
qed

lemma is_bitmask_immediate_spec:
  "\<exists>r. is_bitmask_immediate sf v = Some r \<and> (r \<noteq> None \<longleftrightarrow> logical_imm (width sf) v) \<and>
     (\<forall>N immr imms. r = Some (N, immr, imms) \<longrightarrow> bit_mask sf N (unat immr) (unat imms) = Some (take_bit (width sf) v) \<and>
        unat immr < 64 \<and> unat imms < 64)"
proof (cases "if sf then v + 1 < 2 else (ucast (v + 1) :: u32) < 2")
  case True
  then have "is_bitmask_immediate sf v = Some None" "\<not> alu_is_bitmask_immediate sf v"
    unfolding is_bitmask_immediate_def alu_is_bitmask_immediate_def by simp_all
  then show ?thesis using bitmask_immediate_iff [of sf v] by (simp add: width_def)
next
  case False
  then obtain l low where l: "1 \<le> l" "2 ^ l \<le> width sf" and per: "\<And>n. n < width sf \<Longrightarrow> bit v n \<longleftrightarrow> bit v (n mod 2 ^ l)"
    and nz: "\<exists>n < width sf. bit v n" "\<exists>n < width sf. \<not> bit v n"
    and lv: "\<And>n. bit (low AND take_bit (width sf) v) n \<longleftrightarrow> n < 2 ^ l \<and> bit v n"
    "\<And>n. bit (low AND NOT (take_bit (width sf) v)) n \<longleftrightarrow> n < 2 ^ l \<and> \<not> bit v n"
    and enc: "is_bitmask_immediate sf v = encode_element (2 ^ l) (low AND take_bit (width sf) v) (low AND NOT (take_bit (width sf) v))"
    and alu: "alu_is_bitmask_immediate sf v = (ones_run (low AND take_bit (width sf) v) \<or> ones_run (low AND NOT (take_bit (width sf) v)))"
    by (rule encoder_period) blast
  let ?one = "low AND take_bit (width sf) v" and ?zero = "low AND NOT (take_bit (width sf) v)"
  note exact = encode_exact [OF l per nz lv]
  have iff: "logical_imm (width sf) v = (ones_run ?one \<or> ones_run ?zero)" using bitmask_immediate_iff [of sf v] alu by (simp add: width_def)
  show ?thesis
  proof (cases "ones_run ?one \<or> ones_run ?zero")
    case True
    then show ?thesis using exact [of True] exact [of False] unfolding enc iff by force
  next
    case False
    then show ?thesis unfolding enc iff by (simp add: encode_element_def)
  qed
qed

section \<open>Floating-point immediates\<close>

lemma bit_at: "bit (push_bit k 1 :: u64) n \<longleftrightarrow> n = k \<and> k < 64"
  unfolding bit_push_bit_iff bit_1_iff by (auto simp: possible_bit_word)

lemma bit_fmov_expand:
  "bit (fmov_imm8_expand i) n \<longleftrightarrow> n = 63 \<and> bit i 7 \<or> n = 62 \<and> \<not> bit i 6 \<or> 54 \<le> n \<and> n < 62 \<and> bit i 6 \<or> 48 \<le> n \<and> n < 54 \<and> bit i (n - 48)"
proof -
  have l: "bit i k \<Longrightarrow> k < 8" for k using bit_imp_le_length [of i k] by simp
  have "bit (push_bit 63 (ucast (drop_bit 7 i)) :: u64) n \<longleftrightarrow> n = 63 \<and> bit i 7"
    using l [of "n - 56"] by (auto simp: bit_push_bit_iff bit_unsigned_iff bit_drop_bit_eq)
  moreover have "bit (push_bit 62 (if bit i 6 then 0 else 1) :: u64) n \<longleftrightarrow> n = 62 \<and> \<not> bit i 6"
    using bit_at [of 62 n] by (cases "bit i 6") (simp_all del: push_bit_numeral)
  moreover have "bit (if bit i 6 then push_bit 54 0xFF else 0 :: u64) n \<longleftrightarrow> 54 \<le> n \<and> n < 62 \<and> bit i 6"
  proof -
    have c: "(0xFF :: u64) = mask 8" by (simp add: mask_eq_exp_minus_1)
    show ?thesis unfolding c by (auto simp: bit_push_bit_iff bit_mask_iff)
  qed
  moreover have "bit (push_bit 48 (ucast (i AND 0x3F)) :: u64) n \<longleftrightarrow> 48 \<le> n \<and> n < 54 \<and> bit i (n - 48)"
  proof -
    have c: "(0x3F :: u8) = mask 6" by (simp add: mask_eq_exp_minus_1)
    show ?thesis unfolding c by (auto simp: bit_push_bit_iff bit_unsigned_iff bit_and_iff bit_mask_iff)
  qed
  ultimately show ?thesis unfolding fmov_imm8_expand_def Let_def bit_or_iff by blast
qed

lemma fmov_fields:
  fixes x :: u64
  shows "bit (drop_bit 56 x AND 0x80) n \<longleftrightarrow> n = 7 \<and> bit x 63" "bit (push_bit 6 (drop_bit 54 x AND 1)) n \<longleftrightarrow> n = 6 \<and> bit x 54"
    "bit (drop_bit 48 x AND 0x3F) n \<longleftrightarrow> n < 6 \<and> bit x (48 + n)"
proof -
  have c: "(0x80 :: u64) = push_bit 7 1" "(0x3F :: u64) = mask 6" by (simp_all add: mask_eq_exp_minus_1)
  show "bit (drop_bit 56 x AND 0x80) n \<longleftrightarrow> n = 7 \<and> bit x 63"
    unfolding c(1) bit_and_iff bit_at bit_drop_bit_eq by auto
  show "bit (push_bit 6 (drop_bit 54 x AND 1)) n \<longleftrightarrow> n = 6 \<and> bit x 54"
    unfolding bit_push_bit_iff bit_and_iff bit_1_iff bit_drop_bit_eq by (auto simp: possible_bit_word)
  show "bit (drop_bit 48 x AND 0x3F) n \<longleftrightarrow> n < 6 \<and> bit x (48 + n)"
    unfolding c(2) by (auto simp: bit_and_iff bit_mask_iff bit_drop_bit_eq)
qed

lemma fmov_expand_fields:
  "ucast ((drop_bit 56 (fmov_imm8_expand i) AND 0x80) OR push_bit 6 (drop_bit 54 (fmov_imm8_expand i) AND 1) OR
     (drop_bit 48 (fmov_imm8_expand i) AND 0x3F)) = i"
proof (rule bit_word_eqI)
  let ?x = "fmov_imm8_expand i"
  fix n assume n: "n < LENGTH(8)"
  have x: "bit ?x 63 = bit i 7" "bit ?x 54 = bit i 6" "n < 6 \<Longrightarrow> bit ?x (48 + n) = bit i n" by (simp_all add: bit_fmov_expand)
  have "bit (ucast ((drop_bit 56 ?x AND 0x80) OR push_bit 6 (drop_bit 54 ?x AND 1) OR (drop_bit 48 ?x AND 0x3F)) :: u8) n =
      (n = 7 \<and> bit i 7 \<or> n = 6 \<and> bit i 6 \<or> n < 6 \<and> bit i n)"
    unfolding bit_unsigned_iff bit_or_iff fmov_fields x(1,2) using n x(3) by (auto simp: possible_bit_word)
  also have "\<dots> = bit i n" using n by (auto simp: less_Suc_eq numeral_eq_Suc)
  finally show "bit (ucast ((drop_bit 56 ?x AND 0x80) OR push_bit 6 (drop_bit 54 ?x AND 1) OR (drop_bit 48 ?x AND 0x3F)) :: u8) n = bit i n" .
qed

lemma vfp_expand_fmov: "vfp_expand (unat i) = fmov_imm8_expand i" for i :: u8
proof -
  let ?n = "unat i"
  have b: "bit ?n k \<longleftrightarrow> bit i k" for k by (simp add: bit_unsigned_iff)
  have l: "bit i k \<Longrightarrow> k < 8" for k using bit_imp_le_length [of i k] by simp
  let ?e = "if bit ?n 6 then push_bit 54 (mask 8) else push_bit 62 1 :: nat"
  let ?s = "push_bit 63 (drop_bit 7 ?n)" and ?f = "push_bit 48 (take_bit 6 ?n)"
  have sb: "bit ?s k \<longleftrightarrow> k = 63 \<and> bit i 7" for k
  proof -
    have "bit ?s k \<longleftrightarrow> 63 \<le> k \<and> bit i (7 + (k - 63))" by (simp add: bit_push_bit_iff bit_drop_bit_eq b)
    then show ?thesis using l [of "7 + (k - 63)"] by (cases "k = 63") auto
  qed
  have eb: "bit ?e k \<longleftrightarrow> k = 62 \<and> \<not> bit i 6 \<or> 54 \<le> k \<and> k < 62 \<and> bit i 6" for k
    by (cases "bit i 6") (simp_all only: b if_True if_False bit_push_bit_iff bit_1_iff bit_mask_iff, auto)
  have fb: "bit ?f k \<longleftrightarrow> 48 \<le> k \<and> k < 54 \<and> bit i (k - 48)" for k
    by (auto simp: bit_push_bit_iff bit_take_bit_iff b)
  have all: "bit (?s OR ?e OR ?f) k \<longleftrightarrow> bit (fmov_imm8_expand i) k" for k
    unfolding bit_fmov_expand bit_or_iff sb eb fb by blast
  have "?n div 64 mod 2 = 0 \<longleftrightarrow> \<not> bit ?n 6" by (simp add: bit_iff_odd even_iff_mod_2_eq_zero)
  then have "?n div 128 * 2 ^ 63 + (if ?n div 64 mod 2 = 0 then 2 ^ 62 else 0xFF * 2 ^ 54) + ?n mod 64 * 2 ^ 48 = ?s + ?e + ?f"
    by (simp add: push_bit_eq_mult drop_bit_eq_div take_bit_eq_mod mask_eq_exp_minus_1)
  also have "\<dots> = ?s + (?e OR ?f)"
  proof -
    have "?e AND ?f = 0" by (rule bit_eqI, unfold bit_and_iff eb fb) auto
    then show ?thesis unfolding add.assoc by (subst disjunctive_add_eq_or [of ?e ?f]) simp_all
  qed
  also have "\<dots> = (?s OR ?e OR ?f)"
    by (rule disjunctive_add_eq_or, rule bit_eqI, unfold bit_and_iff bit_or_iff sb eb fb) auto
  finally have e: "vfp_expand ?n = word_of_int (int (?s OR ?e OR ?f))" by (simp only: vfp_expand_def)
  show ?thesis unfolding e by (rule bit_word_eqI, unfold bit_word_of_int_iff bit_of_nat_iff_bit all) simp
qed

lemma fmov_imm8_iff: "f64_fmov_imm8 b = Some i \<longleftrightarrow> vfp_expand (unat i) = b"
  unfolding vfp_expand_fmov f64_fmov_imm8_def Let_def using fmov_expand_fields [of i] by auto

text \<open>
  (C36) The immediate encoders are exact in both directions. The logical encoder never fails its
  assertion; it refuses a value only if no logical immediate of the width has it, and the fields it
  returns expand, by the architecture's rule, to the value at that width. The floating-point encoder
  returns the one eight-bit code whose expansion is the given double, and refuses when there is none.
\<close>

theorem immediate_encoders_exact:
  "(case is_bitmask_immediate sf v of
      None \<Rightarrow> False
    | Some None \<Rightarrow> \<not> logical_imm (width sf) v
    | Some (Some (N, immr, imms)) \<Rightarrow> bit_mask sf N (unat immr) (unat imms) = Some (take_bit (width sf) v)) \<and>
   (f64_fmov_imm8 b = Some i \<longleftrightarrow> vfp_expand (unat i) = b)"
proof
  obtain r where r: "is_bitmask_immediate sf v = Some r" "r \<noteq> None \<longleftrightarrow> logical_imm (width sf) v"
    "\<forall>N immr imms. r = Some (N, immr, imms) \<longrightarrow> bit_mask sf N (unat immr) (unat imms) = Some (take_bit (width sf) v)"
    using is_bitmask_immediate_spec [of sf v] by blast
  then show "case is_bitmask_immediate sf v of None \<Rightarrow> False | Some None \<Rightarrow> \<not> logical_imm (width sf) v
    | Some (Some (N, immr, imms)) \<Rightarrow> bit_mask sf N (unat immr) (unat imms) = Some (take_bit (width sf) v)"
    by (auto split: option.split)
qed (rule fmov_imm8_iff)

end
