(* ===== verification/Translation.thy ===== *)
theory Translation
  imports LogImm RegPool X87Cache
begin

text \<open>
  The state of a translation (\<open>TranslationResult.h\<close>): the code buffer, the register pools, the fixup
  lists and the x87 cache, with the operand helpers of \<open>TranslatorHelpers.cpp\<close> that change it:
  immediates, effective addresses, folded accesses and guest registers. Each operation gives its
  result and the new state, \<open>None\<close> where an assertion fails.
\<close>

section \<open>The translation state\<close>

text \<open>A fixup: its kind, the byte offset of the instruction and the target.\<close>

datatype Fixup = Branch26 nat int | Arm64Page21 nat int | Arm64PageOffset12 nat int

record TranslationResult =
  insn_buf :: "u32 list"
  fixups :: "Fixup list"
  external_fixups :: "Fixup list"
  free_gpr_mask :: u32
  free_fpr_mask :: u32
  unoccupied_temporary_fprs :: u32
  prev_block :: nat
  x87_cache :: X87Cache
  x87_state_offset :: u32
  tco_field_8 :: u32
  translator_variant :: int
  extended_fpr_scratch :: bool
  disable_addr_fold :: bool

definition emit :: "u32 list \<Rightarrow> TranslationResult \<Rightarrow> TranslationResult" where
  "emit ws t = t\<lparr>insn_buf := insn_buf t @ ws\<rparr>"

definition emit_opt :: "u32 list option \<Rightarrow> TranslationResult \<Rightarrow> TranslationResult option" where
  "emit_opt c t = map_option (\<lambda>ws. emit ws t) c"

text \<open>\<open>insn_buf.end\<close> counts bytes.\<close>

definition insn_end :: "TranslationResult \<Rightarrow> nat" where
  "insn_end t = 4 * length (insn_buf t)"

definition with_gprs :: "(int \<times> u32) option \<Rightarrow> TranslationResult \<Rightarrow> (int \<times> TranslationResult) option" where
  "with_gprs a t = map_option (\<lambda>(r, m). (r, t\<lparr>free_gpr_mask := m\<rparr>)) a"

definition with_fprs :: "(int \<times> u32) option \<Rightarrow> TranslationResult \<Rightarrow> (int \<times> TranslationResult) option" where
  "with_fprs a t = map_option (\<lambda>(r, m). (r, t\<lparr>free_fpr_mask := m\<rparr>)) a"

definition tr_alloc_gpr :: "nat \<Rightarrow> TranslationResult \<Rightarrow> (int \<times> TranslationResult) option" where
  "tr_alloc_gpr i t = with_gprs (alloc_gpr (free_gpr_mask t) i) t"

definition tr_alloc_free_gpr :: "TranslationResult \<Rightarrow> (int \<times> TranslationResult) option" where
  "tr_alloc_free_gpr t = with_gprs (alloc_free_gpr (free_gpr_mask t)) t"

definition tr_resolve_hint :: "int \<Rightarrow> TranslationResult \<Rightarrow> (int \<times> TranslationResult) option" where
  "tr_resolve_hint hint_reg t = with_gprs (resolve_hint_gpr (free_gpr_mask t) hint_reg) t"

definition tr_free_gpr :: "int \<Rightarrow> TranslationResult \<Rightarrow> TranslationResult option" where
  "tr_free_gpr r t = map_option (\<lambda>m. t\<lparr>free_gpr_mask := m\<rparr>) (free_gpr r (free_gpr_mask t))"

definition tr_alloc_free_fpr :: "TranslationResult \<Rightarrow> (int \<times> TranslationResult) option" where
  "tr_alloc_free_fpr t = with_fprs (alloc_free_fpr (free_fpr_mask t)) t"

definition tr_free_fpr :: "int \<Rightarrow> TranslationResult \<Rightarrow> TranslationResult" where
  "tr_free_fpr r t = t\<lparr>free_fpr_mask := free_fpr (extended_fpr_scratch t) r (free_fpr_mask t)\<rparr>"

section \<open>Immediates\<close>

text \<open>The 16-bit parts of a value, and the first and last part that is not zero.\<close>

definition chunk :: "u64 \<Rightarrow> nat \<Rightarrow> u16" where
  "chunk v i = ucast (drop_bit (16 * i) v)"

definition hi_chunk :: "u64 \<Rightarrow> nat \<Rightarrow> nat" where
  "hi_chunk w n = (case filter (\<lambda>i. chunk w i \<noteq> 0) (rev [0..<n]) of [] \<Rightarrow> 0 | i # _ \<Rightarrow> i)"

definition lo_chunk :: "u64 \<Rightarrow> nat \<Rightarrow> nat" where
  "lo_chunk w n = (case filter (\<lambda>i. chunk w i \<noteq> 0) [0..<n] of [] \<Rightarrow> 0 | i # _ \<Rightarrow> i)"

definition movk_chain :: "int \<Rightarrow> u64 \<Rightarrow> u16 \<Rightarrow> int \<Rightarrow> nat \<Rightarrow> nat \<Rightarrow> u32 list" where
  "movk_chain is_64bit v trivial reg lo1 hi =
     concat (map (\<lambda>i. if chunk v i \<noteq> trivial then emit_movn is_64bit 3 (int i) (uint (chunk v i)) reg else []) (rev [lo1..<hi]))"

definition emit_mov_chain :: "int \<Rightarrow> u64 \<Rightarrow> int \<Rightarrow> u32 list" where
  "emit_mov_chain is_64bit v reg =
     (let chunks = (if is_64bit \<noteq> 0 then 4 else 2);
          zeros = length (filter (\<lambda>i. chunk v i = 0) [0..<chunks]);
          ones = length (filter (\<lambda>i. chunk v i = 0xFFFF) [0..<chunks]);
          use_movz = (zeros \<ge> ones);
          working = (if use_movz then v else NOT v);
          hi = hi_chunk working chunks; lo1 = lo_chunk working chunks
      in emit_movn is_64bit (if use_movz then 2 else 0) (int hi) (uint (chunk working hi)) reg @
         movk_chain is_64bit v (if use_movz then 0 else 0xFFFF) reg lo1 hi)"

text \<open>The code appended for a value that is not zero.\<close>

definition load_code :: "int \<Rightarrow> u64 \<Rightarrow> int \<Rightarrow> u32 list option" where
  "load_code is_64bit value reg =
     (let v = (if is_64bit \<noteq> 0 then value else ucast (ucast value :: u32)) in
      if v = 0 then Some (emit_movn is_64bit 2 0 0 reg)
      else do {
        enc \<leftarrow> is_bitmask_immediate (is_64bit \<noteq> 0) v;
        enc32 \<leftarrow> (if enc = None \<and> is_64bit \<noteq> 0 \<and> drop_bit 32 v = 0 then is_bitmask_immediate False v else Some None);
        (case (enc, enc32) of
           (Some (N, immr, imms), _) \<Rightarrow> emit_orr_imm is_64bit reg XZR (of_bool N) (uint immr) (uint (imms AND 0x3F))
         | (None, Some (N, immr, imms)) \<Rightarrow> emit_orr_imm 0 reg XZR (of_bool N) (uint immr) (uint (imms AND 0x3F))
         | (None, None) \<Rightarrow> Some (emit_mov_chain is_64bit v reg)) })"

definition emit_load_immediate :: "int \<Rightarrow> u64 \<Rightarrow> int \<Rightarrow> TranslationResult \<Rightarrow> (int \<times> TranslationResult) option" where
  "emit_load_immediate is_64bit value dst_reg t =
     (if value = 0 then Some (XZR, t)
      else do {
        (reg, t1) \<leftarrow> (if dst_reg = XZR then tr_alloc_free_gpr t else Some (dst_reg, t));
        t2 \<leftarrow> emit_opt (load_code is_64bit value reg) t1;
        Some (reg, t2) })"

definition emit_load_immediate_no_xzr :: "int \<Rightarrow> u64 \<Rightarrow> int \<Rightarrow> TranslationResult \<Rightarrow> TranslationResult option" where
  "emit_load_immediate_no_xzr is_64bit value dst_reg t = do {
     (result_reg, t1) \<leftarrow> emit_load_immediate is_64bit value dst_reg t;
     if result_reg = XZR then Some (emit (emit_movn is_64bit 2 0 0 dst_reg) t1)
     else if result_reg = dst_reg then Some t1 else None }"

section \<open>Effective addresses\<close>

text \<open>The displacement as an add or subtract immediate: add, shifted by twelve, and the field.\<close>

definition disp_imm :: "u64 \<Rightarrow> (bool \<times> int \<times> u64) option" where
  "disp_imm disp =
     (let neg = - disp in
      if disp < 0x1000 then Some (True, 0, disp)
      else if disp AND 0xFFFFFFFFFF000FFF = 0 then Some (True, 1, drop_bit 12 disp)
      else if neg < 0x1000 then Some (False, 0, neg)
      else if neg AND 0xFFFFFFFFFF000FFF = 0 then Some (False, 1, drop_bit 12 neg)
      else None)"

definition is_scratch_pool_reg :: "int \<Rightarrow> bool" where
  "is_scratch_pool_reg reg \<longleftrightarrow> 0 \<le> reg \<and> reg < 32 \<and> bit kGprScratchMask (nat reg)"

text \<open>The intermediate and the final register of a sum with a displacement.\<close>

definition scratch_pair :: "int \<Rightarrow> TranslationResult \<Rightarrow> (int \<times> int \<times> TranslationResult) option" where
  "scratch_pair dst_reg t =
     (if is_scratch_pool_reg dst_reg then Some (dst_reg, dst_reg, t)
      else do { (a, t1) \<leftarrow> tr_alloc_free_gpr t; Some (a, if dst_reg = XZR then a else dst_reg, t1) })"

definition dst_or_scratch :: "int \<Rightarrow> TranslationResult \<Rightarrow> (int \<times> TranslationResult) option" where
  "dst_or_scratch dst_reg t = (if dst_reg = XZR then tr_alloc_free_gpr t else Some (dst_reg, t))"

text \<open>The intermediate register is returned to the pool unless it is the result.\<close>

definition finish_pair :: "int \<Rightarrow> int \<Rightarrow> TranslationResult \<Rightarrow> (int \<times> TranslationResult) option" where
  "finish_pair a r t = (if a \<noteq> r then map_option (Pair r) (tr_free_gpr a t) else Some (r, t))"

definition guest_idx :: "u8 \<Rightarrow> int" where
  "guest_idx r = uint (r AND 0x0F)"

definition base_index_sum :: "int \<Rightarrow> u64 \<Rightarrow> int \<Rightarrow> int \<Rightarrow> int \<Rightarrow> int \<Rightarrow> int \<Rightarrow> TranslationResult \<Rightarrow> TranslationResult option" where
  "base_index_sum is_64bit disp b i sh a r t =
     (case disp_imm disp of
        Some (is_add, imm_shift, imm_value) \<Rightarrow>
          Some (emit (emit_add_imm is_64bit (of_bool (\<not> is_add)) 0 imm_shift (uint imm_value) b a @
                      emit_add_sub_shifted_reg is_64bit 0 0 0 i sh a r) t)
      | None \<Rightarrow> do {
          t2 \<leftarrow> emit_load_immediate_no_xzr is_64bit disp a t;
          Some (emit (emit_add_sub_shifted_reg is_64bit 0 0 0 i sh a a @ emit_add_reg is_64bit r b a) t2) })"

definition addr_base_index :: "int \<Rightarrow> IROperand \<Rightarrow> int \<Rightarrow> TranslationResult \<Rightarrow> (int \<times> TranslationResult) option" where
  "addr_base_index is_64bit op dst_reg t =
     (let disp = payload op; b = guest_idx (base_reg op); i = guest_idx (index_reg op); sh = uint (shift_amount op) in
      if base_reg op \<ge> 0x50 \<or> index_reg op \<ge> 0x50 then None
      else if disp \<noteq> 0 then do {
        (a, r, t1) \<leftarrow> scratch_pair dst_reg t;
        t2 \<leftarrow> base_index_sum is_64bit disp b i sh a r t1;
        finish_pair a r t2 }
      else do {
        (r, t1) \<leftarrow> dst_or_scratch dst_reg t;
        Some (r, emit (emit_add_sub_shifted_reg is_64bit 0 0 0 i sh b r) t1) })"

definition addr_base :: "int \<Rightarrow> IROperand \<Rightarrow> int \<Rightarrow> TranslationResult \<Rightarrow> (int \<times> TranslationResult) option" where
  "addr_base is_64bit op dst_reg t =
     (let disp = payload op; b = guest_idx (base_reg op) in
      if base_reg op \<ge> 0x50 then None
      else if disp \<noteq> 0 then
        (case disp_imm disp of
           None \<Rightarrow> do {
             (a, r, t1) \<leftarrow> scratch_pair dst_reg t;
             t2 \<leftarrow> emit_load_immediate_no_xzr is_64bit disp a t1;
             finish_pair a r (emit (emit_add_reg is_64bit r b a) t2) }
         | Some (is_add, imm_shift, imm_value) \<Rightarrow> do {
             (r, t1) \<leftarrow> dst_or_scratch dst_reg t;
             Some (r, emit (emit_add_imm is_64bit (of_bool (\<not> is_add)) 0 imm_shift (uint imm_value) b r) t1) })
      else if is_64bit = 0 then do {
        (r, t1) \<leftarrow> dst_or_scratch dst_reg t;
        Some (r, emit (emit_mov_reg 0 r b) t1) }
      else Some (b, t))"

definition addr_index :: "int \<Rightarrow> IROperand \<Rightarrow> int \<Rightarrow> TranslationResult \<Rightarrow> (int \<times> TranslationResult) option" where
  "addr_index is_64bit op dst_reg t =
     (let disp = payload op; i = guest_idx (index_reg op); sh = uint (shift_amount op); reg_width = (if is_64bit \<noteq> 0 then 64 else 32) in
      if index_reg op \<ge> 0x50 then None
      else if disp \<noteq> 0 then do {
        (a, r, t1) \<leftarrow> scratch_pair dst_reg t;
        t2 \<leftarrow> emit_load_immediate_no_xzr is_64bit disp a t1;
        finish_pair a r (emit (emit_add_sub_shifted_reg is_64bit 0 0 0 i sh a r) t2) }
      else if sh \<noteq> 0 then do {
        (r, t1) \<leftarrow> dst_or_scratch dst_reg t;
        Some (r, emit (emit_bitfield is_64bit 2 (if is_64bit \<noteq> 0 then 1 else 0) (reg_width - sh) (reg_width - sh - 1) i r) t1) }
      else if is_64bit \<noteq> 0 then Some (i, t)
      else do {
        (r, t1) \<leftarrow> dst_or_scratch dst_reg t;
        Some (r, emit (emit_mov_reg 0 r i) t1) })"

definition addr_disp :: "int \<Rightarrow> IROperand \<Rightarrow> int \<Rightarrow> TranslationResult \<Rightarrow> (int \<times> TranslationResult) option" where
  "addr_disp is_64bit op dst_reg t =
     (if payload op \<noteq> 0 then emit_load_immediate is_64bit (payload op) dst_reg t
      else do {
        (r, t1) \<leftarrow> dst_or_scratch dst_reg t;
        Some (r, emit (emit_movn 0 2 0 0 r) t1) })"

definition compute_mem_operand_address :: "int \<Rightarrow> IROperand \<Rightarrow> int \<Rightarrow> TranslationResult \<Rightarrow> (int \<times> TranslationResult) option" where
  "compute_mem_operand_address is_64bit op dst_reg t =
     (if has_base op \<and> has_index op then addr_base_index is_64bit op dst_reg t
      else if has_base op then addr_base is_64bit op dst_reg t
      else if has_index op then addr_index is_64bit op dst_reg t
      else addr_disp is_64bit op dst_reg t)"

section \<open>Operands\<close>

abbreviation (input) kRuntimeRoutine_get_tls_base :: int where "kRuntimeRoutine_get_tls_base \<equiv> 0x15"

definition push_fixup :: "Fixup \<Rightarrow> TranslationResult \<Rightarrow> TranslationResult" where
  "push_fixup f t = t\<lparr>fixups := fixups t @ [f]\<rparr>"

definition push_external_fixup :: "Fixup \<Rightarrow> TranslationResult \<Rightarrow> TranslationResult" where
  "push_external_fixup f t = t\<lparr>external_fixups := external_fixups t @ [f]\<rparr>"

text \<open>The base of the segment, added to the address of the operand without its override.\<close>

definition segment_address :: "bool \<Rightarrow> u8 \<Rightarrow> int \<Rightarrow> int \<Rightarrow> TranslationResult \<Rightarrow> (int \<times> TranslationResult) option" where
  "segment_address addr_size_is_64 seg inner_reg dst_reg t = do {
     (seg_reg, t1) \<leftarrow> tr_alloc_free_gpr t;
     t2 \<leftarrow> (if seg = 1 then
             Some (emit (emit_ldr_imm 2 seg_reg 18 (uint (drop_bit 2 (tco_field_8 t1))) @
                         emit_add_reg (of_bool addr_size_is_64) seg_reg seg_reg inner_reg) t1)
           else if seg = 2 then do {
             (tls_tmp, u1) \<leftarrow> tr_alloc_gpr 7 t1;
             let u2 = emit [0x94000000] (push_fixup (Branch26 (insn_end u1) kRuntimeRoutine_get_tls_base) u1);
             let (u3, tls_base) = (if translator_variant u2 = 1 then (emit (emit_ldr_imm 3 seg_reg tls_tmp 6) u2, seg_reg) else (u2, tls_tmp));
             tr_free_gpr tls_tmp (emit (emit_add_reg 1 seg_reg tls_base inner_reg) u3) }
           else None);
     t3 \<leftarrow> (if inner_reg \<noteq> dst_reg then tr_free_gpr inner_reg t2 else Some t2);
     Some (seg_reg, t3) }"

text \<open>A code address: a page and an offset for the loader to patch, and an addend at run time.\<close>

definition immediate_address :: "bool \<Rightarrow> IROperand \<Rightarrow> int \<Rightarrow> TranslationResult \<Rightarrow> (int \<times> TranslationResult) option" where
  "immediate_address addr_size_is_64 op dst_reg t = do {
     (out_reg, t1) \<leftarrow> dst_or_scratch dst_reg t;
     let target = (if mem_flags op \<noteq> 0 then uint (ucast (payload op) :: u32) else 0);
     t2 \<leftarrow> emit_opt (emit_adr 1 out_reg 0) (push_external_fixup (Arm64Page21 (insn_end t1) target) t1);
     let t3 = emit (emit_add_imm (of_bool addr_size_is_64) 0 0 0 0 out_reg out_reg) (push_external_fixup (Arm64PageOffset12 (insn_end t2) target) t2);
     if mem_flags op AND 1 = 0 then do {
       (addend_reg, u1) \<leftarrow> tr_alloc_free_gpr t3;
       u2 \<leftarrow> emit_load_immediate_no_xzr 1 (payload op) addend_reg u1;
       u3 \<leftarrow> tr_free_gpr addend_reg (emit (emit_add_reg (of_bool addr_size_is_64) out_reg out_reg addend_reg) u2);
       Some (out_reg, u3) }
     else Some (out_reg, t3) }"

definition operand_address :: "bool \<Rightarrow> IROperand \<Rightarrow> int \<Rightarrow> TranslationResult \<Rightarrow> (int \<times> TranslationResult) option" where
  "operand_address addr_size_is_64 op dst_reg t =
     (if kind op = KMemRef then compute_mem_operand_address (of_bool addr_size_is_64) op dst_reg t
      else if kind op = KAbsMem then do {
        (out_reg, t1) \<leftarrow> dst_or_scratch dst_reg t;
        t2 \<leftarrow> emit_load_immediate_no_xzr (of_bool addr_size_is_64) (payload op) out_reg t1;
        Some (out_reg, t2) }
      else if kind op = KImmediate then immediate_address addr_size_is_64 op dst_reg t
      else None)"

text \<open>
  The address width is the operand's own, and 32 bits where the caller asks for 32. The recursive call
  of the code, with the override cleared, asks the width again: the inner address is 64 bits wide
  exactly when the outer one is.
\<close>

definition compute_operand_address :: "int \<Rightarrow> IROperand \<Rightarrow> int \<Rightarrow> TranslationResult \<Rightarrow> (int \<times> TranslationResult) option" where
  "compute_operand_address is_64bit op dst_reg t =
     (if is_64bit \<noteq> 0 \<and> 4 \<le> addr_size op then None
      else let addr_size_is_64 = (is_64bit \<noteq> 0 \<and> addr_size op = S64) in
        if seg_override op \<noteq> 0 then do {
          (inner_reg, t1) \<leftarrow> operand_address addr_size_is_64 (op\<lparr>seg_override := 0\<rparr>) dst_reg t;
          segment_address addr_size_is_64 (seg_override op) inner_reg dst_reg t1 }
        else operand_address addr_size_is_64 op dst_reg t)"

datatype Enc = ScaledImm12 | Unscaled9 | FullEA

record OperandAccess =
  acc_base :: int
  acc_offset :: int
  acc_enc :: Enc

definition compute_operand_access :: "int \<Rightarrow> IROperand \<Rightarrow> nat \<Rightarrow> int \<Rightarrow> nat \<Rightarrow> TranslationResult \<Rightarrow> (OperandAccess \<times> TranslationResult) option" where
  "compute_operand_access is_64bit op size_log2 extra_off extra_size_log2 t =
     (let disp = sint (payload op);
          cls0 = classify_ldst_disp disp size_log2;
          cls = (if cls0 \<noteq> 0 \<and> extra_off \<noteq> 0 \<and> classify_ldst_disp (disp + extra_off) extra_size_log2 \<noteq> cls0 then 0 else cls0)
      in if \<not> disable_addr_fold t \<and> kind op = KMemRef \<and> seg_override op = 0 \<and> is_64bit \<noteq> 0 \<and> addr_size op = S64 \<and>
            mem_flags op = 1 \<and> base_reg op < 0x50 \<and> cls \<noteq> 0
         then Some (\<lparr>acc_base = guest_idx (base_reg op), acc_offset = disp, acc_enc = (if cls = 1 then ScaledImm12 else Unscaled9)\<rparr>, t)
         else do {
           (r, t1) \<leftarrow> compute_operand_address is_64bit op XZR t;
           Some (\<lparr>acc_base = r, acc_offset = 0, acc_enc = FullEA\<rparr>, t1) })"

definition emit_fp_mem_access :: "int \<Rightarrow> IROperand \<Rightarrow> nat \<Rightarrow> int \<Rightarrow> int \<Rightarrow> TranslationResult \<Rightarrow> TranslationResult option" where
  "emit_fp_mem_access is_64bit op size1 is_load Vt t = do {
     (a, t1) \<leftarrow> compute_operand_access is_64bit op size1 0 0 t;
     let off = acc_offset a div 2 ^ size1;
     let code = (if acc_enc a = Unscaled9 then emit_fldur_fstur (int size1) is_load (acc_offset a) (acc_base a) Vt
                 else if is_load \<noteq> 0 then emit_fldr_imm (int size1) Vt (acc_base a) off
                 else emit_fstr_imm (int size1) Vt (acc_base a) off);
     tr_free_gpr (acc_base a) (emit code t1) }"

definition emit_gpr_mem_access :: "int \<Rightarrow> IROperand \<Rightarrow> nat \<Rightarrow> int \<Rightarrow> int \<Rightarrow> TranslationResult \<Rightarrow> TranslationResult option" where
  "emit_gpr_mem_access is_64bit op size_log2 is_load Rt t = do {
     (a, t1) \<leftarrow> compute_operand_access is_64bit op size_log2 0 0 t;
     let code = (if acc_enc a = Unscaled9 then emit_ldur_stur (int size_log2) is_load (acc_offset a) (acc_base a) Rt
                 else emit_ldr_str_imm (int size_log2) 0 is_load (acc_offset a div 2 ^ size_log2) (acc_base a) Rt);
     tr_free_gpr (acc_base a) (emit code t1) }"

definition emit_load_int_operand :: "IROperand \<Rightarrow> bool \<Rightarrow> TranslationResult \<Rightarrow> (int \<times> TranslationResult) option" where
  "emit_load_int_operand op is_m16 t = do {
     let size1 = (if is_m16 then 1 else 2 :: nat);
     (acc, t1) \<leftarrow> compute_operand_access 1 op size1 0 0 t;
     (Wd_val, t2) \<leftarrow> (if bit kGprScratchMask (nat (acc_base acc)) then Some (acc_base acc, t1) else tr_alloc_free_gpr t1);
     let code = (if acc_enc acc = Unscaled9 then emit_ldur_stur (int size1) 1 (acc_offset acc) (acc_base acc) Wd_val
                 else emit_ldr_str_imm (int size1) 0 1 (acc_offset acc div 2 ^ size1) (acc_base acc) Wd_val);
     let t3 = emit (code @ (if is_m16 then emit_bitfield 0 0 0 0 15 Wd_val Wd_val else [])) t2;
     t4 \<leftarrow> (if Wd_val \<noteq> acc_base acc then tr_free_gpr (acc_base acc) t3 else Some t3);
     Some (Wd_val, t4) }"

section \<open>Guest registers\<close>

definition translate_gpr :: "int \<Rightarrow> u8 \<Rightarrow> int \<Rightarrow> int \<Rightarrow> TranslationResult \<Rightarrow> (int \<times> TranslationResult) option" where
  "translate_gpr is_64bit reg extend_mode hint_reg t =
     (let index = uint (reg AND 0x0F); size_class = uint (drop_bit 4 reg AND 0x0F);
          needs_extend = (extend_mode \<noteq> 0 \<and> 0x10 \<le> reg) in
      if 0x50 \<le> reg then None
      else if \<not> needs_extend \<or> size_class = 1 then
        (if \<not> needs_extend \<and> size_class \<noteq> 1 then Some (index, t)
         else do {
           (dst, t1) \<leftarrow> tr_resolve_hint hint_reg t;
           Some (dst, emit (emit_bitfield (of_bool (is_64bit \<noteq> 0)) (if extend_mode > 1 then 0 else 2) (of_bool (is_64bit \<noteq> 0))
             (size_class * 8) ((size_class * 8) OR 7) index dst) t1) })
      else if size_class = 3 \<and> is_64bit = 1 then do {
        (dst, t1) \<leftarrow> tr_resolve_hint hint_reg t;
        if extend_mode = 2 then Some (dst, emit (emit_bitfield 1 0 1 0 0x1F index dst) t1) else Some (index, t1) }
      else if size_class \<noteq> 3 \<or> is_64bit \<noteq> 0 \<or> hint_reg = XZR then Some (index, t)
      else Some (hint_reg, emit (emit_mov_reg 0 hint_reg index) t))"

text \<open>The load of a memory operand, sign-extending where asked and narrower than the result.\<close>

definition read_memory :: "bool \<Rightarrow> u8 \<Rightarrow> int \<Rightarrow> int \<Rightarrow> int \<Rightarrow> TranslationResult \<Rightarrow> TranslationResult option" where
  "read_memory is_64bit mem_size extend_mode dst_reg addr_reg t =
     (if 5 \<le> mem_size then None
      else if extend_mode = 2 \<and> (if is_64bit then S32 else S16) \<ge> mem_size then
        emit_opt (emit_ldrs (of_bool is_64bit) (uint mem_size) dst_reg addr_reg) t
      else Some (emit (emit_ldr_str_imm (uint mem_size) 0 1 0 addr_reg dst_reg) t))"

definition read_operand_to_gpr :: "bool \<Rightarrow> IROperand \<Rightarrow> int \<Rightarrow> int \<Rightarrow> TranslationResult \<Rightarrow> (int \<times> TranslationResult) option" where
  "read_operand_to_gpr is_64bit op extend_mode hint_reg t =
     (case kind op of
        KRegister \<Rightarrow> translate_gpr (of_bool is_64bit) (oreg op) extend_mode hint_reg t
      | KBranchOffset \<Rightarrow> emit_load_immediate (of_bool is_64bit) (payload op) hint_reg t
      | KImmediate \<Rightarrow> emit_load_immediate (of_bool is_64bit) (payload op) hint_reg t
      | KMemRef \<Rightarrow> do {
          (dst_reg, t1) \<leftarrow> tr_resolve_hint hint_reg t;
          (addr_reg, t2) \<leftarrow> (if 4 \<le> addr_size op then None else compute_operand_address (of_bool (addr_size op = S64)) op dst_reg t1);
          t3 \<leftarrow> read_memory is_64bit (osize op) extend_mode dst_reg addr_reg t2;
          Some (dst_reg, t3) }
      | KAbsMem \<Rightarrow> do {
          (out_reg, t1) \<leftarrow> tr_resolve_hint hint_reg t;
          (addr_reg, t2) \<leftarrow> compute_operand_address 1 op out_reg t1;
          t3 \<leftarrow> read_memory is_64bit (osize op) extend_mode out_reg addr_reg t2;
          Some (out_reg, t3) }
      | _ \<Rightarrow> None)"

end
