(* ===== verification/DirectX87.thy ===== *)
theory DirectX87
  imports Translation EmitX87
begin

text \<open>
  The direct translator: one definition per instruction (\<open>TranslatorX87.cpp\<close>) over the shared
  preamble, flushes, push and pop (\<open>TranslatorX87Internal.hpp\<close>). Within a run the base address, TOP and
  the address of the register file stay in three registers, and writes of TOP, of tags and of exchanged
  registers are put off until something needs them.
\<close>

section \<open>Shared parts\<close>

text \<open>The counters of the cache are \<open>int8_t\<close>; the number of deferred pushes stays below nine.\<close>

definition wrap8 :: "int \<Rightarrow> int" where
  "wrap8 n = sint (word_of_int n :: 8 word)"

text \<open>The options of \<open>g_rosetta_config\<close> that the translations read.\<close>

record x87_options =
  fast_round :: bool
  disable_deferred_fxch :: bool

definition resolve_depth :: "TranslationResult \<Rightarrow> nat \<Rightarrow> int" where
  "resolve_depth t logical_depth =
     (if perm_dirty (x87_cache t) = 0 then int logical_depth else perm (x87_cache t) ! logical_depth)"

definition x87_begin :: "TranslationResult \<Rightarrow> (int \<times> int \<times> TranslationResult) option" where
  "x87_begin t =
     (if run_remaining (x87_cache t) > 0 \<and> gprs_valid (x87_cache t) \<noteq> 0
      then Some (base_gpr (x87_cache t), top_gpr (x87_cache t), t)
      else do {
        (Xbase, t1) \<leftarrow> tr_alloc_gpr 0 t;
        (Wd_top, t2) \<leftarrow> tr_alloc_gpr 1 t1;
        t3 \<leftarrow> emit_opt (emit_x87_base (x87_state_offset t) Xbase) t2;
        t4 \<leftarrow> emit_opt (emit_load_top (x87_state_offset t) Xbase Wd_top) t3;
        if run_remaining (x87_cache t) > 0 then do {
          (Xst_base, t5) \<leftarrow> tr_alloc_gpr 6 t4;
          Some (Xbase, Wd_top, (emit (emit_add_imm 1 0 0 0 kX87RegFileOff Xbase Xst_base) t5)
            \<lparr>x87_cache := (x87_cache t)\<lparr>base_gpr := Xbase, top_gpr := Wd_top, st_base_gpr := Xst_base, gprs_valid := 1\<rparr>\<rparr>) }
        else Some (Xbase, Wd_top, t4) })"

definition x87_get_st_base :: "TranslationResult \<Rightarrow> int" where
  "x87_get_st_base t = (if gprs_valid (x87_cache t) \<noteq> 0 then st_base_gpr (x87_cache t) else -1)"

definition x87_perm_flush :: "int \<Rightarrow> int \<Rightarrow> int \<Rightarrow> TranslationResult \<Rightarrow> TranslationResult option" where
  "x87_perm_flush Xbase Wd_top Wd_tmp t = do {
     (Dd_save, t1) \<leftarrow> tr_alloc_free_fpr t;
     (Dd_chain, t2) \<leftarrow> tr_alloc_free_fpr t1;
     t3 \<leftarrow> emit_opt (emit_x87_perm_flush Xbase Wd_top Wd_tmp (perm (x87_cache t)) (x87_get_st_base t) Dd_save Dd_chain) t2;
     Some ((tr_free_fpr Dd_save (tr_free_fpr Dd_chain t3))\<lparr>x87_cache := reset_perm (x87_cache t)\<rparr>) }"

definition perm_flush_before_stack_change :: "int \<Rightarrow> int \<Rightarrow> int \<Rightarrow> TranslationResult \<Rightarrow> TranslationResult option" where
  "perm_flush_before_stack_change Xbase Wd_top Wd_tmp t =
     (if perm_dirty (x87_cache t) \<noteq> 0 then x87_perm_flush Xbase Wd_top Wd_tmp t else Some t)"

definition x87_flush_top :: "int \<Rightarrow> int \<Rightarrow> int \<Rightarrow> TranslationResult \<Rightarrow> TranslationResult option" where
  "x87_flush_top Xbase Wd_top Wd_tmp t =
     (if top_dirty (x87_cache t) \<noteq> 0 then do {
        t1 \<leftarrow> emit_opt (emit_store_top Xbase Wd_top Wd_tmp) t;
        Some (t1\<lparr>x87_cache := (x87_cache t)\<lparr>top_dirty := 0\<rparr>\<rparr>) }
      else Some t)"

definition x87_flush_deferred_pops :: "int \<Rightarrow> int \<Rightarrow> int \<Rightarrow> TranslationResult \<Rightarrow> TranslationResult option" where
  "x87_flush_deferred_pops Xbase Wd_top Wd_tmp t =
     (if deferred_pop_count (x87_cache t) > 0 then do {
        (Wd_tmp2, t1) \<leftarrow> tr_alloc_free_gpr t;
        (Wd_tagw, t2) \<leftarrow> tr_alloc_free_gpr t1;
        t3 \<leftarrow> emit_opt (emit_x87_tag_set_empty_batch Xbase Wd_top Wd_tmp Wd_tmp2 Wd_tagw (nat (deferred_pop_count (x87_cache t)))) t2;
        t4 \<leftarrow> tr_free_gpr Wd_tagw t3;
        t5 \<leftarrow> tr_free_gpr Wd_tmp2 t4;
        Some (t5\<lparr>x87_cache := (x87_cache t)\<lparr>deferred_pop_count := 0\<rparr>\<rparr>) }
      else Some t)"

definition x87_flush_deferred_pushes :: "int \<Rightarrow> int \<Rightarrow> int \<Rightarrow> int \<Rightarrow> TranslationResult \<Rightarrow> TranslationResult option" where
  "x87_flush_deferred_pushes Xbase Wd_top Wd_tmp Wd_tmp2 t =
     (let count = deferred_push_count (x87_cache t); done1 = (\<lambda>u. u\<lparr>x87_cache := (x87_cache t)\<lparr>deferred_push_count := 0\<rparr>\<rparr>) in
      if count = 1 then map_option done1 (emit_opt (emit_x87_tag_clear Xbase Wd_top Wd_tmp Wd_tmp2) t)
      else if count > 1 then do {
        (Wd_tagw, t1) \<leftarrow> tr_alloc_free_gpr t;
        t2 \<leftarrow> emit_opt (emit_x87_tag_set_valid_batch Xbase Wd_top Wd_tmp Wd_tmp2 Wd_tagw (nat count)) t1;
        map_option done1 (tr_free_gpr Wd_tagw t2) }
      else Some t)"

definition x87_flush_tags :: "int \<Rightarrow> int \<Rightarrow> int \<Rightarrow> int \<Rightarrow> TranslationResult \<Rightarrow> TranslationResult option" where
  "x87_flush_tags Xbase Wd_top Wd_tmp Wd_tmp2 t = do {
     t1 \<leftarrow> x87_flush_deferred_pops Xbase Wd_top Wd_tmp t;
     x87_flush_deferred_pushes Xbase Wd_top Wd_tmp Wd_tmp2 t1 }"

text \<open>The deferred pushes with a scratch register of their own.\<close>

definition x87_flush_pushes_scratch :: "int \<Rightarrow> int \<Rightarrow> int \<Rightarrow> TranslationResult \<Rightarrow> TranslationResult option" where
  "x87_flush_pushes_scratch Xbase Wd_top Wd_tmp t =
     (if deferred_push_count (x87_cache t) > 0 then do {
        (Wd_tmp2, t1) \<leftarrow> tr_alloc_free_gpr t;
        t2 \<leftarrow> x87_flush_deferred_pushes Xbase Wd_top Wd_tmp Wd_tmp2 t1;
        tr_free_gpr Wd_tmp2 t2 }
      else Some t)"

definition x87_end :: "int \<Rightarrow> int \<Rightarrow> int \<Rightarrow> int \<Rightarrow> TranslationResult \<Rightarrow> TranslationResult option" where
  "x87_end Xbase Wd_top Wd_tmp consumed t =
     (let last1 = (run_remaining (x87_cache t) \<le> consumed) in do {
      t1 \<leftarrow> (if last1 then perm_flush_before_stack_change Xbase Wd_top Wd_tmp t else Some t);
      t2 \<leftarrow> (if last1 then x87_flush_deferred_pops Xbase Wd_top Wd_tmp t1 else Some t1);
      t3 \<leftarrow> (if last1 then x87_flush_pushes_scratch Xbase Wd_top Wd_tmp t2 else Some t2);
      t4 \<leftarrow> (if last1 then x87_flush_top Xbase Wd_top Wd_tmp t3 else Some t3);
      if run_remaining (x87_cache t) > 0 then Some t4
      else do { t5 \<leftarrow> tr_free_gpr Wd_top t4; tr_free_gpr Xbase t5 } })"

definition x87_cache_force_release :: "TranslationResult \<Rightarrow> TranslationResult option" where
  "x87_cache_force_release t =
     (let Xbase = base_gpr (x87_cache t); Wd_top = top_gpr (x87_cache t); valid = (gprs_valid (x87_cache t) \<noteq> 0);
          with_tmp = (\<lambda>f u. do { (tmp, u1) \<leftarrow> tr_alloc_gpr 2 u; u2 \<leftarrow> f tmp u1; tr_free_gpr tmp u2 }) in do {
      t1 \<leftarrow> (if valid \<and> perm_dirty (x87_cache t) \<noteq> 0 then with_tmp (x87_perm_flush Xbase Wd_top) t else Some t);
      t2 \<leftarrow> (if valid \<and> deferred_pop_count (x87_cache t) > 0 then with_tmp (x87_flush_deferred_pops Xbase Wd_top) t1 else Some t1);
      t3 \<leftarrow> (if valid \<and> deferred_push_count (x87_cache t) > 0
             then with_tmp (\<lambda>tmp u. do {
               (tmp2, u1) \<leftarrow> tr_alloc_gpr 3 u;
               u2 \<leftarrow> x87_flush_deferred_pushes Xbase Wd_top tmp tmp2 u1;
               tr_free_gpr tmp2 u2 }) t2
             else Some t2);
      t4 \<leftarrow> (if valid \<and> top_dirty (x87_cache t) \<noteq> 0 then with_tmp (x87_flush_top Xbase Wd_top) t3 else Some t3);
      let t5 = (if valid then t4\<lparr>free_gpr_mask := free_gpr_mask t4 OR gpr_bit Xbase OR gpr_bit Wd_top OR gpr_bit (st_base_gpr (x87_cache t4))\<rparr> else t4);
      Some (t5\<lparr>x87_cache := invalidate (x87_cache t5)\<rparr>) })"

definition x87_push :: "int \<Rightarrow> int \<Rightarrow> int \<Rightarrow> int \<Rightarrow> TranslationResult \<Rightarrow> TranslationResult option" where
  "x87_push Xbase Wd_top Wd_tmp Wd_tmp2 t =
     (if run_remaining (x87_cache t) > 0 then do {
        t1 \<leftarrow> x87_flush_deferred_pops Xbase Wd_top Wd_tmp t;
        t2 \<leftarrow> (if deferred_push_count (x87_cache t1) \<ge> 8 then x87_flush_deferred_pushes Xbase Wd_top Wd_tmp Wd_tmp2 t1 else Some t1);
        t3 \<leftarrow> (if deferred_push_count (x87_cache t2) = 0 then x87_flush_top Xbase Wd_top Wd_tmp t2 else Some t2);
        t4 \<leftarrow> perm_flush_before_stack_change Xbase Wd_top Wd_tmp t3;
        t5 \<leftarrow> emit_opt (emit_x87_push_fully_deferred Wd_top) t4;
        Some (t5\<lparr>x87_cache := (x87_cache t5)\<lparr>top_dirty := 1, deferred_push_count := deferred_push_count (x87_cache t5) + 1\<rparr>\<rparr>) }
      else emit_opt (emit_x87_push Xbase Wd_top Wd_tmp Wd_tmp2) t)"

definition x87_pop :: "int \<Rightarrow> int \<Rightarrow> int \<Rightarrow> TranslationResult \<Rightarrow> TranslationResult option" where
  "x87_pop Xbase Wd_top Wd_tmp t =
     (if run_remaining (x87_cache t) > 0 then do {
        t1 \<leftarrow> perm_flush_before_stack_change Xbase Wd_top Wd_tmp t;
        t2 \<leftarrow> emit_opt (emit_x87_pop_top_only Wd_top) t1;
        let c = x87_cache t2;
        if deferred_push_count c > 0 then
          (let n = deferred_push_count c - 1 in
           if top_dirty c \<noteq> 0 then
             Some (t2\<lparr>x87_cache := c\<lparr>deferred_push_count := n, top_dirty := (if n = 0 then 0 else top_dirty c)\<rparr>\<rparr>)
           else emit_opt (emit_store_top Xbase Wd_top Wd_tmp) (t2\<lparr>x87_cache := c\<lparr>deferred_push_count := n\<rparr>\<rparr>))
        else Some (t2\<lparr>x87_cache := c\<lparr>deferred_pop_count := wrap8 (deferred_pop_count c + 1), top_dirty := 1\<rparr>\<rparr>) }
      else do {
        (Wd_tmp2, t1) \<leftarrow> tr_alloc_free_gpr t;
        t2 \<leftarrow> emit_opt (emit_x87_pop Xbase Wd_top Wd_tmp Wd_tmp2) t1;
        t3 \<leftarrow> tr_free_gpr Wd_tmp2 t2;
        Some (t3\<lparr>x87_cache := (x87_cache t3)\<lparr>top_dirty := 0\<rparr>\<rparr>) })"

definition x87_pop_n :: "int \<Rightarrow> int \<Rightarrow> int \<Rightarrow> nat \<Rightarrow> TranslationResult \<Rightarrow> TranslationResult option" where
  "x87_pop_n Xbase Wd_top Wd_tmp n t = do {
     t1 \<leftarrow> x87_flush_deferred_pops Xbase Wd_top Wd_tmp t;
     (Wd_tmp2, t2) \<leftarrow> tr_alloc_free_gpr t1;
     t3 \<leftarrow> x87_flush_tags Xbase Wd_top Wd_tmp Wd_tmp2 t2;
     t4 \<leftarrow> (if run_remaining (x87_cache t3) > 0 then do {
         u1 \<leftarrow> perm_flush_before_stack_change Xbase Wd_top Wd_tmp t3;
         u2 \<leftarrow> emit_opt (emit_x87_pop_n_deferred Xbase Wd_top Wd_tmp Wd_tmp2 n) u1;
         Some (u2\<lparr>x87_cache := (x87_cache u2)\<lparr>top_dirty := 1\<rparr>\<rparr>) }
       else do {
         u2 \<leftarrow> emit_opt (emit_x87_pop_n Xbase Wd_top Wd_tmp Wd_tmp2 n) t3;
         Some (u2\<lparr>x87_cache := (x87_cache u2)\<lparr>top_dirty := 0\<rparr>\<rparr>) });
     tr_free_gpr Wd_tmp2 t4 }"

section \<open>Frames and stack accesses\<close>

text \<open>The registers of a translation, as its body sees them.\<close>

record x87_regs =
  Xbase :: int
  Wd_top :: int
  Xst_base :: int
  Wd_tmp :: int

text \<open>What every translation starts and ends with: base and TOP, and scratch slot 2.\<close>

definition x87_frame :: "(x87_regs \<Rightarrow> TranslationResult \<Rightarrow> TranslationResult option) \<Rightarrow> TranslationResult \<Rightarrow> TranslationResult option" where
  "x87_frame body t = do {
     (base, top, t1) \<leftarrow> x87_begin t;
     (tmp, t2) \<leftarrow> tr_alloc_gpr 2 t1;
     t3 \<leftarrow> body \<lparr>Xbase = base, Wd_top = top, Xst_base = x87_get_st_base t1, Wd_tmp = tmp\<rparr> t2;
     t4 \<leftarrow> x87_end base top tmp 1 t3;
     tr_free_gpr tmp t4 }"

text \<open>One and two floating-point registers around a body, freed in reverse order.\<close>

definition with_fpr :: "(int \<Rightarrow> TranslationResult \<Rightarrow> TranslationResult option) \<Rightarrow> TranslationResult \<Rightarrow> TranslationResult option" where
  "with_fpr body t = do {
     (Dd, t1) \<leftarrow> tr_alloc_free_fpr t;
     map_option (tr_free_fpr Dd) (body Dd t1) }"

definition with_fprs2 :: "(int \<Rightarrow> int \<Rightarrow> TranslationResult \<Rightarrow> TranslationResult option) \<Rightarrow> TranslationResult \<Rightarrow> TranslationResult option" where
  "with_fprs2 body = with_fpr (\<lambda>Dd_dst. with_fpr (\<lambda>Dd_src. body Dd_dst Dd_src))"

text \<open>A load of ST(i) also gives the register left with its index.\<close>

definition load_depth :: "x87_regs \<Rightarrow> nat \<Rightarrow> int \<Rightarrow> TranslationResult \<Rightarrow> (int \<times> TranslationResult) option" where
  "load_depth r depth Dd t =
     (let (code, Wk) = emit_load_st (Xbase r) (Wd_top r) (resolve_depth t depth) (Wd_tmp r) Dd (Xst_base r)
      in map_option (\<lambda>u. (Wk, u)) (emit_opt code t))"

definition store_depth :: "x87_regs \<Rightarrow> nat \<Rightarrow> int \<Rightarrow> TranslationResult \<Rightarrow> TranslationResult option" where
  "store_depth r depth Dd t =
     emit_opt (emit_store_st (Xbase r) (Wd_top r) (resolve_depth t depth) (Wd_tmp r) Dd (Xst_base r)) t"

definition store_at :: "x87_regs \<Rightarrow> int \<Rightarrow> int \<Rightarrow> TranslationResult \<Rightarrow> TranslationResult option" where
  "store_at r Wk Dd t = emit_opt (emit_store_st_at_offset (Xbase r) Wk Dd (Xst_base r)) t"

definition pop_depth :: "x87_regs \<Rightarrow> TranslationResult \<Rightarrow> TranslationResult option" where
  "pop_depth r t = x87_pop (Xbase r) (Wd_top r) (Wd_tmp r) t"

abbreviation pop_when :: "bool \<Rightarrow> x87_regs \<Rightarrow> TranslationResult \<Rightarrow> TranslationResult option" where
  "pop_when b r t \<equiv> if b then pop_depth r t else Some t"

abbreviation is_reg :: "IROperand \<Rightarrow> bool" where
  "is_reg op \<equiv> kind op = KRegister"

abbreviation is_f32_operand :: "IROperand \<Rightarrow> bool" where
  "is_f32_operand op \<equiv> osize op = S32"

section \<open>Pushes\<close>

definition translate_fldz :: "TranslationResult \<Rightarrow> TranslationResult option" where
  "translate_fldz = x87_frame (\<lambda>r t. do {
     (Wd_tmp2, t1) \<leftarrow> tr_alloc_gpr 3 t;
     (Dd_val, t2) \<leftarrow> tr_alloc_free_fpr t1;
     t3 \<leftarrow> x87_push (Xbase r) (Wd_top r) (Wd_tmp r) Wd_tmp2 t2;
     t4 \<leftarrow> store_depth r 0 Dd_val (emit (emit_movi_d_zero Dd_val) t3);
     tr_free_gpr Wd_tmp2 (tr_free_fpr Dd_val t4) })"

definition translate_fld1 :: "TranslationResult \<Rightarrow> TranslationResult option" where
  "translate_fld1 = x87_frame (\<lambda>r t. do {
     (Wd_tmp2, t1) \<leftarrow> tr_alloc_gpr 3 t;
     (Dd_val, t2) \<leftarrow> tr_alloc_free_fpr t1;
     t3 \<leftarrow> x87_push (Xbase r) (Wd_top r) (Wd_tmp r) Wd_tmp2 t2;
     t4 \<leftarrow> store_depth r 0 Dd_val (emit (emit_fmov_d_one Dd_val) t3);
     tr_free_gpr Wd_tmp2 (tr_free_fpr Dd_val t4) })"

definition translate_fld_const :: "u64 \<Rightarrow> TranslationResult \<Rightarrow> TranslationResult option" where
  "translate_fld_const bits = x87_frame (\<lambda>r t. do {
     (Wd_tmp2, t1) \<leftarrow> tr_alloc_gpr 3 t;
     with_fpr (\<lambda>Dd_val u. do {
       t3 \<leftarrow> x87_push (Xbase r) (Wd_top r) (Wd_tmp r) Wd_tmp2 u;
       t4 \<leftarrow> tr_free_gpr Wd_tmp2 t3;
       store_depth r 0 Dd_val (emit (emit_ldr_literal_f64 Dd_val bits) t4) }) t1 })"

definition translate_fldl2e :: "TranslationResult \<Rightarrow> TranslationResult option" where
  "translate_fldl2e = translate_fld_const 0x3FF71547652B82FE"

definition translate_fldl2t :: "TranslationResult \<Rightarrow> TranslationResult option" where
  "translate_fldl2t = translate_fld_const 0x400A934F0979A371"

definition translate_fldlg2 :: "TranslationResult \<Rightarrow> TranslationResult option" where
  "translate_fldlg2 = translate_fld_const 0x3FD34413509F79FF"

definition translate_fldln2 :: "TranslationResult \<Rightarrow> TranslationResult option" where
  "translate_fldln2 = translate_fld_const 0x3FE62E42FEFA39EF"

definition translate_fldpi :: "TranslationResult \<Rightarrow> TranslationResult option" where
  "translate_fldpi = translate_fld_const 0x400921FB54442D18"

abbreviation (input) kRuntimeRoutine_fld_fp80 :: int where "kRuntimeRoutine_fld_fp80 \<equiv> 0x3F"

text \<open>The 80-bit load hands mantissa and exponent to the runtime routine; the call is patched later.\<close>

definition translate_fld_m80 :: "IROperand \<Rightarrow> TranslationResult \<Rightarrow> TranslationResult option" where
  "translate_fld_m80 op t = do {
     t1 \<leftarrow> x87_cache_force_release t;
     (W_lo, t2) \<leftarrow> tr_alloc_gpr 0 t1;
     (W_hi, t3) \<leftarrow> tr_alloc_gpr 1 t2;
     (acc, t4) \<leftarrow> compute_operand_access 1 op 3 8 1 t3;
     let t5 = emit (if acc_enc acc = Unscaled9
       then emit_ldur_stur 3 1 (acc_offset acc) (acc_base acc) W_lo @ emit_ldur_stur 1 1 (acc_offset acc + 8) (acc_base acc) W_hi
       else emit_ldr_imm 3 W_lo (acc_base acc) (acc_offset acc div 8) @ emit_ldr_imm 1 W_hi (acc_base acc) ((acc_offset acc + 8) div 2)) t4;
     t6 \<leftarrow> tr_free_gpr (acc_base acc) t5;
     let t7 = emit [0x94000000] (push_fixup (Branch26 (insn_end t6) kRuntimeRoutine_fld_fp80) t6);
     t8 \<leftarrow> tr_free_gpr W_hi t7;
     tr_free_gpr W_lo t8 }"

definition translate_fld :: "IRInstr \<Rightarrow> TranslationResult \<Rightarrow> TranslationResult option" where
  "translate_fld i =
     (let op = operand0 i in
      if \<not> is_reg op \<and> osize op = S80 then translate_fld_m80 op
      else x87_frame (\<lambda>r t. do {
        (Wd_tmp2, t1) \<leftarrow> tr_alloc_gpr 3 t;
        with_fpr (\<lambda>Dd_val u.
          if is_reg op then do {
            (Wk, u1) \<leftarrow> load_depth r (odepth (operand1 i)) Dd_val u;
            u2 \<leftarrow> x87_push (Xbase r) (Wd_top r) (Wd_tmp r) Wd_tmp2 u1;
            u3 \<leftarrow> tr_free_gpr Wd_tmp2 u2;
            store_depth r 0 Dd_val u3 }
          else do {
            u2 \<leftarrow> x87_push (Xbase r) (Wd_top r) (Wd_tmp r) Wd_tmp2 u;
            u3 \<leftarrow> tr_free_gpr Wd_tmp2 u2;
            u4 \<leftarrow> emit_fp_mem_access (of_bool (addr_size op = S64)) op (if is_f32_operand op then 2 else 3) 1 Dd_val u3;
            store_depth r 0 Dd_val (if is_f32_operand op then emit (emit_fcvt_s_to_d Dd_val Dd_val) u4 else u4) }) t1 }))"

definition translate_fild :: "IRInstr \<Rightarrow> TranslationResult \<Rightarrow> TranslationResult option" where
  "translate_fild i =
     (let op = operand0 i; int_size = osize op in
      x87_frame (\<lambda>r t. do {
        (Wd_tmp2, t1) \<leftarrow> tr_alloc_gpr 3 t;
        (Wd_int, t2) \<leftarrow> (if int_size = S64 then Some (-1, t1) else tr_alloc_free_gpr t1);
        (Dd_val, t3) \<leftarrow> tr_alloc_free_fpr t2;
        t4 \<leftarrow> (if int_size = S16 then
            map_option (emit (emit_bitfield 0 0 0 0 15 Wd_int Wd_int)) (emit_gpr_mem_access 1 op 1 1 Wd_int t3)
          else if int_size = S32 then emit_gpr_mem_access 1 op 2 1 Wd_int t3
          else emit_fp_mem_access 1 op 3 1 Dd_val t3);
        t5 \<leftarrow> x87_push (Xbase r) (Wd_top r) (Wd_tmp r) Wd_tmp2 t4;
        t6 \<leftarrow> tr_free_gpr Wd_tmp2 t5;
        t7 \<leftarrow> store_depth r 0 Dd_val
          (emit (if int_size = S64 then emit_scvtf_d_from_d Dd_val Dd_val else emit_scvtf 0 1 Dd_val Wd_int) t6);
        (if 0 \<le> Wd_int then tr_free_gpr Wd_int (tr_free_fpr Dd_val t7) else Some (tr_free_fpr Dd_val t7)) }))"

section \<open>Arithmetic\<close>

text \<open>
  The operation takes the registers of destination and source. Between registers the source is loaded
  first, so that the index of the destination is left for the store; from memory the destination is ST(0).
\<close>

definition arith_st :: "(int \<Rightarrow> int \<Rightarrow> u32 list) \<Rightarrow> nat \<Rightarrow> nat \<Rightarrow> x87_regs \<Rightarrow> int \<Rightarrow> int \<Rightarrow> TranslationResult \<Rightarrow> TranslationResult option" where
  "arith_st f depth_dst depth_src r Dd_dst Dd_src t = do {
     (Wk0, t1) \<leftarrow> load_depth r depth_src Dd_src t;
     (Wk, t2) \<leftarrow> load_depth r depth_dst Dd_dst t1;
     store_at r Wk Dd_dst (emit (f Dd_dst Dd_src) t2) }"

definition arith_mem :: "(int \<Rightarrow> int \<Rightarrow> u32 list) \<Rightarrow> IROperand \<Rightarrow> x87_regs \<Rightarrow> int \<Rightarrow> int \<Rightarrow> TranslationResult \<Rightarrow> TranslationResult option" where
  "arith_mem f op r Dd_dst Dd_src t = do {
     (Wk, t1) \<leftarrow> load_depth r 0 Dd_dst t;
     t2 \<leftarrow> emit_fp_mem_access 1 op (if is_f32_operand op then 2 else 3) 1 Dd_src t1;
     let t3 = (if is_f32_operand op then emit (emit_fcvt_s_to_d Dd_src Dd_src) t2 else t2);
     store_at r Wk Dd_dst (emit (f Dd_dst Dd_src) t3) }"

definition arith_int :: "(int \<Rightarrow> int \<Rightarrow> u32 list) \<Rightarrow> IROperand \<Rightarrow> x87_regs \<Rightarrow> int \<Rightarrow> int \<Rightarrow> TranslationResult \<Rightarrow> TranslationResult option" where
  "arith_int f op r Dd_st0 Dd_int t = do {
     (Wk, t1) \<leftarrow> load_depth r 0 Dd_st0 t;
     (Wd_val, t2) \<leftarrow> emit_load_int_operand op (osize op = S16) t1;
     t3 \<leftarrow> tr_free_gpr Wd_val (emit (emit_scvtf 0 1 Dd_int Wd_val) t2);
     store_at r Wk Dd_st0 (emit (f Dd_st0 Dd_int) t3) }"

definition arith :: "(int \<Rightarrow> int \<Rightarrow> u32 list) \<Rightarrow> IRInstr \<Rightarrow> TranslationResult \<Rightarrow> TranslationResult option" where
  "arith f i = x87_frame (\<lambda>r. with_fprs2 (\<lambda>Dd_dst Dd_src.
     if is_reg (operand0 i) then arith_st f (odepth (operand0 i)) (odepth (operand1 i)) r Dd_dst Dd_src
     else arith_mem f (operand0 i) r Dd_dst Dd_src))"

definition arithp :: "(int \<Rightarrow> int \<Rightarrow> u32 list) \<Rightarrow> IRInstr \<Rightarrow> TranslationResult \<Rightarrow> TranslationResult option" where
  "arithp f i = x87_frame (\<lambda>r. with_fprs2 (\<lambda>Dd_dst Dd_src t. do {
     t1 \<leftarrow> arith_st f (odepth (operand0 i)) 0 r Dd_dst Dd_src t;
     pop_depth r t1 }))"

definition translate_fadd :: "IRInstr \<Rightarrow> TranslationResult \<Rightarrow> TranslationResult option" where
  "translate_fadd = arith (\<lambda>d s. emit_fadd_f64 d d s)"

definition translate_faddp :: "IRInstr \<Rightarrow> TranslationResult \<Rightarrow> TranslationResult option" where
  "translate_faddp = arithp (\<lambda>d s. emit_fadd_f64 d d s)"

definition translate_fsub :: "IRInstr \<Rightarrow> TranslationResult \<Rightarrow> TranslationResult option" where
  "translate_fsub i = arith (\<lambda>d s. if opcode i = kOpcodeName_fsubr then emit_fsub_f64 d s d else emit_fsub_f64 d d s) i"

definition translate_fsubp :: "IRInstr \<Rightarrow> TranslationResult \<Rightarrow> TranslationResult option" where
  "translate_fsubp i = arithp (\<lambda>d s. if opcode i = kOpcodeName_fsubrp then emit_fsub_f64 d s d else emit_fsub_f64 d d s) i"

definition translate_fdiv :: "IRInstr \<Rightarrow> TranslationResult \<Rightarrow> TranslationResult option" where
  "translate_fdiv i = arith (\<lambda>d s. if opcode i = kOpcodeName_fdivr then emit_fdiv_f64 d s d else emit_fdiv_f64 d d s) i"

definition translate_fdivp :: "IRInstr \<Rightarrow> TranslationResult \<Rightarrow> TranslationResult option" where
  "translate_fdivp i = arithp (\<lambda>d s. if opcode i = kOpcodeName_fdivrp then emit_fdiv_f64 d s d else emit_fdiv_f64 d d s) i"

definition translate_fmul :: "IRInstr \<Rightarrow> TranslationResult \<Rightarrow> TranslationResult option" where
  "translate_fmul i =
     (if opcode i = kOpcodeName_fmulp then arithp (\<lambda>d s. emit_fmul_f64 d d s) i else arith (\<lambda>d s. emit_fmul_f64 d d s) i)"

definition arith_i :: "(int \<Rightarrow> int \<Rightarrow> u32 list) \<Rightarrow> IRInstr \<Rightarrow> TranslationResult \<Rightarrow> TranslationResult option" where
  "arith_i f i = x87_frame (\<lambda>r. with_fprs2 (arith_int f (operand0 i) r))"

definition translate_fiadd :: "IRInstr \<Rightarrow> TranslationResult \<Rightarrow> TranslationResult option" where
  "translate_fiadd = arith_i (\<lambda>d s. emit_fadd_f64 d d s)"

definition translate_fidiv :: "IRInstr \<Rightarrow> TranslationResult \<Rightarrow> TranslationResult option" where
  "translate_fidiv = arith_i (\<lambda>d s. emit_fdiv_f64 d d s)"

definition translate_fimul :: "IRInstr \<Rightarrow> TranslationResult \<Rightarrow> TranslationResult option" where
  "translate_fimul = arith_i (\<lambda>d s. emit_fmul_f64 d d s)"

definition translate_fisub :: "IRInstr \<Rightarrow> TranslationResult \<Rightarrow> TranslationResult option" where
  "translate_fisub = arith_i (\<lambda>d s. emit_fsub_f64 d d s)"

definition translate_fidivr :: "IRInstr \<Rightarrow> TranslationResult \<Rightarrow> TranslationResult option" where
  "translate_fidivr = arith_i (\<lambda>d s. emit_fdiv_f64 d s d)"

definition translate_fisubr :: "IRInstr \<Rightarrow> TranslationResult \<Rightarrow> TranslationResult option" where
  "translate_fisubr = arith_i (\<lambda>d s. emit_fsub_f64 d s d)"

definition unary :: "(int \<Rightarrow> u32 list) \<Rightarrow> TranslationResult \<Rightarrow> TranslationResult option" where
  "unary f = x87_frame (\<lambda>r. with_fpr (\<lambda>Dd t. do {
     (Wk, t1) \<leftarrow> load_depth r 0 Dd t;
     store_at r Wk Dd (emit (f Dd) t1) }))"

definition translate_fchs :: "TranslationResult \<Rightarrow> TranslationResult option" where
  "translate_fchs = unary (\<lambda>d. emit_fneg_f64 d d)"

definition translate_fabs :: "TranslationResult \<Rightarrow> TranslationResult option" where
  "translate_fabs = unary (\<lambda>d. emit_fabs_f64 d d)"

definition translate_fsqrt :: "TranslationResult \<Rightarrow> TranslationResult option" where
  "translate_fsqrt = unary (\<lambda>d. emit_fsqrt_f64 d d)"

section \<open>Stores\<close>

text \<open>
  The 80-bit store converts in place: sign, exponent and fraction are split, and zero (with
  subnormals), numbers and specials are three paths that meet after the stores.
\<close>

definition store_f80_code :: "OperandAccess \<Rightarrow> int \<Rightarrow> int \<Rightarrow> int \<Rightarrow> int \<Rightarrow> u32 list option" where
  "store_f80_code acc Xbits Wexp tmp Dd_src = do {
     let str_mant = (\<lambda>Rt. if acc_enc acc = Unscaled9 then emit_ldur_stur 3 0 (acc_offset acc) (acc_base acc) Rt
                          else emit_str_imm 3 Rt (acc_base acc) (acc_offset acc div 8));
     let str_exp = (\<lambda>Rt. if acc_enc acc = Unscaled9 then emit_ldur_stur 1 0 (acc_offset acc + 8) (acc_base acc) Rt
                         else emit_str_imm 1 Rt (acc_base acc) ((acc_offset acc + 8) div 2));
     (N1, immr1, imms1) \<leftarrow> Option.bind (is_bitmask_immediate False 0x8000) id;
     (N2, immr2, imms2) \<leftarrow> Option.bind (is_bitmask_immediate True 0x8000000000000000) id;
     (N3, immr3, imms3) \<leftarrow> Option.bind (is_bitmask_immediate False 0x7FFF) id;
     eseq [Some (emit_fmov_d_to_x Xbits Dd_src),
       Some (emit_bitfield 1 2 1 52 62 Xbits Wexp), Some (emit_bitfield 1 2 1 48 63 Xbits tmp),
       emit_and_imm 0 tmp (of_bool N1) (uint immr1) (uint imms1) tmp,
       Some (emit_bitfield 1 2 1 53 52 Xbits Xbits),
       Some (emit_cbz 0 0 Wexp 10), Some (emit_add_imm 0 1 1 0 0x7FF Wexp 31), Some (emit_b_cond 0 11),
       emit_orr_imm 1 Xbits Xbits (of_bool N2) (uint immr2) (uint imms2),
       Some (emit_add_imm 0 0 0 1 3 Wexp Wexp), Some (emit_add_imm 0 0 0 0 0xC00 Wexp Wexp),
       Some (emit_logical_shifted_reg 0 1 0 0 tmp 0 Wexp Wexp),
       Some (str_mant Xbits), Some (str_exp Wexp), Some (emit_b 8),
       Some (str_mant 31), Some (str_exp tmp), Some (emit_b 5),
       emit_orr_imm 1 Xbits Xbits (of_bool N2) (uint immr2) (uint imms2), Some (str_mant Xbits),
       emit_orr_imm 0 Wexp tmp (of_bool N3) (uint immr3) (uint imms3), Some (str_exp Wexp)] }"

definition translate_fst_m80 :: "IROperand \<Rightarrow> bool \<Rightarrow> TranslationResult \<Rightarrow> TranslationResult option" where
  "translate_fst_m80 op is_fstp = x87_frame (\<lambda>r t. do {
     (Dd_src, t1) \<leftarrow> tr_alloc_free_fpr t;
     (Wk, t2) \<leftarrow> load_depth r 0 Dd_src t1;
     (acc, t3) \<leftarrow> compute_operand_access 1 op 3 8 1 t2;
     (Xbits, t4) \<leftarrow> tr_alloc_free_gpr t3;
     (Wexp, t5) \<leftarrow> tr_alloc_free_gpr t4;
     t6 \<leftarrow> emit_opt (store_f80_code acc Xbits Wexp (Wd_tmp r) Dd_src) (tr_free_fpr Dd_src t5);
     t7 \<leftarrow> tr_free_gpr (acc_base acc) t6;
     t8 \<leftarrow> tr_free_gpr Wexp t7;
     t9 \<leftarrow> tr_free_gpr Xbits t8;
     pop_when is_fstp r t9 })"

definition translate_fst :: "IRInstr \<Rightarrow> TranslationResult \<Rightarrow> TranslationResult option" where
  "translate_fst i =
     (let op = operand0 i; is_fstp = (opcode i = kOpcodeName_fstp \<or> opcode i = kOpcodeName_fstp_stack) in
      if \<not> is_reg op \<and> osize op = S80 then translate_fst_m80 op is_fstp
      else x87_frame (\<lambda>r. with_fpr (\<lambda>Dd_src t. do {
        t1 \<leftarrow> (if is_reg op then
                if odepth op \<noteq> 0 then do { (Wk, u) \<leftarrow> load_depth r 0 Dd_src t; store_depth r (odepth op) Dd_src u } else Some t
              else do {
                (Wk, u) \<leftarrow> load_depth r 0 Dd_src t;
                let u1 = (if is_f32_operand op then emit (emit_fcvt_d_to_s Dd_src Dd_src) u else u);
                emit_fp_mem_access 1 op (if is_f32_operand op then 2 else 3) 0 Dd_src u1 });
        pop_when is_fstp r t1 })))"

definition translate_fstsw :: "IRInstr \<Rightarrow> TranslationResult \<Rightarrow> TranslationResult option" where
  "translate_fstsw i t =
     (let c = x87_cache t; base_cached = (run_remaining c > 0 \<and> gprs_valid c \<noteq> 0) in do {
      (base, t1) \<leftarrow> (if base_cached then Some (base_gpr c, t)
        else do { (base, u) \<leftarrow> tr_alloc_gpr 0 t; u1 \<leftarrow> emit_opt (emit_x87_base (x87_state_offset t) base) u; Some (base, u1) });
      (Wd_sw, t2) \<leftarrow> (if base_cached then tr_alloc_free_gpr t1 else tr_alloc_gpr 1 t1);
      t3 \<leftarrow> (if base_cached then x87_flush_top base (top_gpr c) Wd_sw t2 else Some t2);
      t4 \<leftarrow> (if base_cached then x87_flush_pushes_scratch base (top_gpr c) Wd_sw t3 else Some t3);
      let t5 = emit (emit_ldr_str_imm 1 0 1 kX87StatusWordImm12 base Wd_sw) t4;
      t6 \<leftarrow> (if is_reg (operand0 i) then Some (emit (emit_bitfield 0 1 0 0 15 Wd_sw (int (odepth (operand0 i)))) t5)
             else emit_gpr_mem_access 1 (operand0 i) 1 0 Wd_sw t5);
      t7 \<leftarrow> tr_free_gpr Wd_sw t6;
      if base_cached then Some t7 else tr_free_gpr base t7 })"

text \<open>The conversion of an integer store, in the mode of the control word or to nearest.\<close>

definition fist_convert :: "bool \<Rightarrow> x87_regs \<Rightarrow> int \<Rightarrow> int \<Rightarrow> int \<Rightarrow> u32 list" where
  "fist_convert fast r is_64bit_int Wd_int Dd_val =
     (if fast then emit_fcvt_fp_to_int is_64bit_int 1 0 Wd_int Dd_val
      else emit_ldr_str_imm 1 0 1 0 (Xbase r) (Wd_tmp r) @ emit_bitfield 0 2 0 10 11 (Wd_tmp r) (Wd_tmp r) @
           emit_x87_rc_dispatch_fcvt (Wd_tmp r) Wd_int Dd_val is_64bit_int)"

definition store_size :: "u8 \<Rightarrow> nat" where
  "store_size int_size = (if int_size = S16 then 1 else if int_size = S32 then 2 else 3)"

definition int_store :: "(x87_regs \<Rightarrow> int \<Rightarrow> int \<Rightarrow> int \<Rightarrow> u32 list) \<Rightarrow> bool \<Rightarrow> IRInstr \<Rightarrow> TranslationResult \<Rightarrow> TranslationResult option" where
  "int_store convert popping i =
     (let op = operand0 i in
      x87_frame (\<lambda>r t. do {
        (Wd_int, t1) \<leftarrow> tr_alloc_free_gpr t;
        (Dd_val, t2) \<leftarrow> tr_alloc_free_fpr t1;
        (Wk, t3) \<leftarrow> load_depth r 0 Dd_val t2;
        t4 \<leftarrow> emit_gpr_mem_access 1 op (store_size (osize op)) 0 Wd_int (emit (convert r (of_bool (osize op = S64)) Wd_int Dd_val) t3);
        t5 \<leftarrow> pop_when popping r t4;
        tr_free_gpr Wd_int (tr_free_fpr Dd_val t5) }))"

definition translate_fistp :: "x87_options \<Rightarrow> IRInstr \<Rightarrow> TranslationResult \<Rightarrow> TranslationResult option" where
  "translate_fistp cfg = int_store (fist_convert (fast_round cfg)) True"

definition translate_fist :: "x87_options \<Rightarrow> IRInstr \<Rightarrow> TranslationResult \<Rightarrow> TranslationResult option" where
  "translate_fist cfg = int_store (fist_convert (fast_round cfg)) False"

definition translate_fisttp :: "IRInstr \<Rightarrow> TranslationResult \<Rightarrow> TranslationResult option" where
  "translate_fisttp = int_store (\<lambda>r is_64bit_int Wd_int Dd_val. emit_fcvt_fp_to_int is_64bit_int 1 3 Wd_int Dd_val) True"

definition translate_frndint :: "x87_options \<Rightarrow> TranslationResult \<Rightarrow> TranslationResult option" where
  "translate_frndint cfg = x87_frame (\<lambda>r t. do {
     (Wd_rc, t1) \<leftarrow> tr_alloc_gpr 3 t;
     (Dd, t2) \<leftarrow> tr_alloc_free_fpr t1;
     (Wk, t3) \<leftarrow> load_depth r 0 Dd t2;
     t4 \<leftarrow> store_at r Wk Dd (emit (if fast_round cfg then emit_fp_dp1 1 8 Dd Dd
       else emit_ldr_str_imm 1 0 1 0 (Xbase r) Wd_rc @ emit_bitfield 0 2 0 10 11 Wd_rc Wd_rc @ emit_x87_rc_dispatch_frint Wd_rc Dd Dd) t3);
     tr_free_gpr Wd_rc (tr_free_fpr Dd t4) })"

section \<open>Compares\<close>

text \<open>The flags of a host compare into the condition codes; the register with the saved flags is freed.\<close>

definition cc_to_sw :: "x87_regs \<Rightarrow> int \<Rightarrow> TranslationResult \<Rightarrow> TranslationResult option" where
  "cc_to_sw r Wd_save t = do {
     (code1, f1) \<leftarrow> emit_fcom_cc_pack (free_gpr_mask t) (Wd_tmp r) Wd_save;
     (code2, f2) \<leftarrow> emit_fcom_cc_write_sw f1 (Xbase r) (Wd_tmp r);
     Some ((emit (code1 @ code2) t)\<lparr>free_gpr_mask := f2\<rparr>) }"

definition translate_fcom :: "IRInstr \<Rightarrow> TranslationResult \<Rightarrow> TranslationResult option" where
  "translate_fcom i =
     (let op = operand1 i;
          is_fcompp = (opcode i = kOpcodeName_fcompp \<or> opcode i = kOpcodeName_fucompp);
          is_popping = (is_fcompp \<or> opcode i = kOpcodeName_fcomp \<or> opcode i = kOpcodeName_fucomp) in
      x87_frame (\<lambda>r t. do {
        (Wd_tmp2, t1) \<leftarrow> tr_alloc_gpr 3 t;
        t2 \<leftarrow> with_fprs2 (\<lambda>Dd_st0 Dd_src u. do {
          (Wk, u1) \<leftarrow> load_depth r 0 Dd_st0 u;
          u2 \<leftarrow> (if is_fcompp then map_option snd (load_depth r 1 Dd_src u1)
                else if is_reg op then map_option snd (load_depth r (odepth op) Dd_src u1)
                else map_option (\<lambda>v. if is_f32_operand op then emit (emit_fcvt_s_to_d Dd_src Dd_src) v else v)
                  (emit_fp_mem_access 1 op (if is_f32_operand op then 2 else 3) 1 Dd_src u1));
          Some (emit (emit_mrs_nzcv Wd_tmp2 @ emit_fcmp_f64 Dd_st0 Dd_src) u2) }) t1;
        t3 \<leftarrow> cc_to_sw r Wd_tmp2 t2;
        if is_fcompp then x87_pop_n (Xbase r) (Wd_top r) (Wd_tmp r) 2 t3 else pop_when is_popping r t3 }))"

definition translate_ficom :: "IRInstr \<Rightarrow> TranslationResult \<Rightarrow> TranslationResult option" where
  "translate_ficom i =
     x87_frame (\<lambda>r t. do {
       (Wd_tmp2, t1) \<leftarrow> tr_alloc_gpr 3 t;
       t2 \<leftarrow> with_fprs2 (\<lambda>Dd_st0 Dd_int u. do {
         (Wk, u1) \<leftarrow> load_depth r 0 Dd_st0 u;
         (Wd_val, u2) \<leftarrow> emit_load_int_operand (operand0 i) (osize (operand0 i) = S16) u1;
         u3 \<leftarrow> tr_free_gpr Wd_val (emit (emit_scvtf 0 1 Dd_int Wd_val) u2);
         Some (emit (emit_mrs_nzcv Wd_tmp2 @ emit_fcmp_f64 Dd_st0 Dd_int) u3) }) t1;
       t3 \<leftarrow> cc_to_sw r Wd_tmp2 t2;
       pop_when (opcode i = kOpcodeName_ficomp) r t3 })"

definition translate_ftst :: "TranslationResult \<Rightarrow> TranslationResult option" where
  "translate_ftst = x87_frame (\<lambda>r t. do {
     (Wd_tmp2, t1) \<leftarrow> tr_alloc_gpr 3 t;
     t2 \<leftarrow> x87_flush_tags (Xbase r) (Wd_top r) (Wd_tmp r) Wd_tmp2 t1;
     t3 \<leftarrow> x87_flush_top (Xbase r) (Wd_top r) (Wd_tmp r) t2;
     t4 \<leftarrow> with_fpr (\<lambda>Dd_st0 u. do {
       (Wk, u1) \<leftarrow> load_depth r 0 Dd_st0 u;
       Some (emit (emit_mrs_nzcv Wd_tmp2 @ emit_fcmp_zero_f64 Dd_st0) u1) }) t3;
     cc_to_sw r Wd_tmp2 t4 })"

text \<open>FCOMI puts the order of the operands into the host flags themselves.\<close>

definition comi_flags_code :: "int \<Rightarrow> int \<Rightarrow> int \<Rightarrow> u32 list" where
  "comi_flags_code Wd_z Wd_v Wd_c =
     emit_cset 0 0 Wd_z @ emit_cset 0 6 Wd_v @ emit_cset 0 2 Wd_c @
     emit_logical_shifted_reg 0 1 0 0 Wd_v 0 Wd_z Wd_z @ emit_logical_shifted_reg 0 0 1 0 Wd_v 0 Wd_c Wd_c @
     emit_bitfield 0 2 0 2 1 Wd_z Wd_z @ emit_logical_shifted_reg 0 1 0 0 Wd_c 29 Wd_z Wd_z @
     emit_logical_shifted_reg 0 1 0 0 Wd_v 28 Wd_z Wd_z @ emit_logical_shifted_reg 0 1 0 0 Wd_v 26 Wd_z Wd_z @
     emit_msr_nzcv Wd_z"

definition translate_fcomi :: "IRInstr \<Rightarrow> TranslationResult \<Rightarrow> TranslationResult option" where
  "translate_fcomi i =
     x87_frame (\<lambda>r t. do {
       t1 \<leftarrow> with_fprs2 (\<lambda>Dd_st0 Dd_src u. do {
         (Wk, u1) \<leftarrow> load_depth r 0 Dd_st0 u;
         (Wk2, u2) \<leftarrow> load_depth r (odepth (operand1 i)) Dd_src u1;
         Some (emit (emit_fcmp_f64 Dd_st0 Dd_src) u2) }) t;
       (Wd_z, t2) \<leftarrow> tr_alloc_free_gpr t1;
       (Wd_v, t3) \<leftarrow> tr_alloc_free_gpr t2;
       (Wd_c, t4) \<leftarrow> tr_alloc_free_gpr t3;
       t5 \<leftarrow> tr_free_gpr Wd_c (emit (comi_flags_code Wd_z Wd_v Wd_c) t4);
       t6 \<leftarrow> tr_free_gpr Wd_v t5;
       t7 \<leftarrow> tr_free_gpr Wd_z t6;
       pop_when (opcode i = kOpcodeName_fcomip \<or> opcode i = kOpcodeName_fucomip) r t7 })"

definition fcmov_cond :: "u16 \<Rightarrow> int" where
  "fcmov_cond op =
     (if op = kOpcodeName_fcmovb then 3 else if op = kOpcodeName_fcmovbe then 9 else if op = kOpcodeName_fcmove then 0
      else if op = kOpcodeName_fcmovnb then 2 else if op = kOpcodeName_fcmovnbe then 8 else if op = kOpcodeName_fcmovne then 1
      else if op = kOpcodeName_fcmovu then 6 else if op = kOpcodeName_fcmovnu then 7 else 14)"

definition translate_fcmov :: "IRInstr \<Rightarrow> TranslationResult \<Rightarrow> TranslationResult option" where
  "translate_fcmov i =
     x87_frame (\<lambda>r. with_fprs2 (\<lambda>Dd_st0 Dd_src t. do {
       (Wd_tmp2, t1) \<leftarrow> tr_alloc_free_gpr t;
       t2 \<leftarrow> x87_flush_tags (Xbase r) (Wd_top r) (Wd_tmp r) Wd_tmp2 t1;
       t3 \<leftarrow> tr_free_gpr Wd_tmp2 t2;
       t4 \<leftarrow> x87_flush_top (Xbase r) (Wd_top r) (Wd_tmp r) t3;
       (Wk0, t5) \<leftarrow> load_depth r (odepth (operand1 i)) Dd_src t4;
       (Wk, t6) \<leftarrow> load_depth r 0 Dd_st0 t5;
       store_at r Wk Dd_st0 (emit (emit_fcsel_f64 Dd_st0 Dd_src Dd_st0 (fcmov_cond (opcode i))) t6) }))"

section \<open>Exchange and control\<close>

definition translate_fxch :: "x87_options \<Rightarrow> IRInstr \<Rightarrow> TranslationResult \<Rightarrow> TranslationResult option" where
  "translate_fxch cfg i =
     (let depth = odepth (operand1 i) in
      x87_frame (\<lambda>r t.
        if depth = 0 then Some t
        else if run_remaining (x87_cache t) > 0 \<and> \<not> disable_deferred_fxch cfg then
          (let p = perm (x87_cache t) in
           Some (t\<lparr>x87_cache := (x87_cache t)\<lparr>perm := p[0 := p ! depth, depth := p ! 0], perm_dirty := 1\<rparr>\<rparr>))
        else do {
          (Wd_offi, t1) \<leftarrow> tr_alloc_gpr 3 t;
          t2 \<leftarrow> with_fprs2 (\<lambda>Dd_a Dd_b u. do {
            let (code0, Wk15) = emit_load_st (Xbase r) (Wd_top r) 0 (Wd_tmp r) Dd_a (Xst_base r);
            u1 \<leftarrow> emit_opt code0 u;
            let (code1, Wk14) = emit_load_st (Xbase r) (Wd_top r) (int depth) Wd_offi Dd_b (Xst_base r);
            u2 \<leftarrow> emit_opt code1 u1;
            u3 \<leftarrow> store_at r Wk14 Dd_a u2;
            store_at r Wk15 Dd_b u3 }) t1;
          tr_free_gpr Wd_offi t2 }))"

definition translate_fldcw :: "IRInstr \<Rightarrow> TranslationResult \<Rightarrow> TranslationResult option" where
  "translate_fldcw i = x87_frame (\<lambda>r t. do {
     t1 \<leftarrow> x87_flush_top (Xbase r) (Wd_top r) (Wd_tmp r) t;
     (Wd_cw, t2) \<leftarrow> tr_alloc_free_gpr t1;
     t3 \<leftarrow> emit_gpr_mem_access 1 (operand0 i) 1 1 Wd_cw t2;
     tr_free_gpr Wd_cw (emit (emit_ldr_str_imm 1 0 0 0 (Xbase r) Wd_cw) t3) })"

definition translate_fnstcw :: "IRInstr \<Rightarrow> TranslationResult \<Rightarrow> TranslationResult option" where
  "translate_fnstcw i = x87_frame (\<lambda>r t. do {
     (Wd_cw, t1) \<leftarrow> tr_alloc_free_gpr t;
     t2 \<leftarrow> emit_gpr_mem_access 1 (operand0 i) 1 0 Wd_cw (emit (emit_ldr_str_imm 1 0 1 0 (Xbase r) Wd_cw) t1);
     tr_free_gpr Wd_cw t2 })"

definition translate_fnop :: "TranslationResult \<Rightarrow> TranslationResult option" where
  "translate_fnop = x87_frame (\<lambda>r t. Some t)"

definition runtime_keepalive_flush :: "int \<Rightarrow> TranslationResult \<Rightarrow> TranslationResult option" where
  "runtime_keepalive_flush top_delta t =
     (if gprs_valid (x87_cache t) = 0 then Some t
      else let base = base_gpr (x87_cache t); top = top_gpr (x87_cache t) in do {
        (tmp, t1) \<leftarrow> tr_alloc_gpr 2 t;
        t2 \<leftarrow> perm_flush_before_stack_change base top tmp t1;
        (tmp2, t3) \<leftarrow> tr_alloc_free_gpr t2;
        t4 \<leftarrow> x87_flush_tags base top tmp tmp2 t3;
        t5 \<leftarrow> tr_free_gpr tmp2 t4;
        t6 \<leftarrow> x87_flush_top base top tmp t5;
        t7 \<leftarrow> tr_free_gpr tmp t6;
        if top_delta < 0 then emit_opt (emit_x87_push_fully_deferred top) t7
        else if top_delta > 0 then emit_opt (emit_x87_pop_top_only top) t7
        else Some t7 })"

end
