(* ===== verification/LoadImm.thy ===== *)
theory LoadImm
  imports Translation
begin

text \<open>
  The instructions \<open>emit_load_immediate\<close> writes, run: the value arrives in the register, whichever of
  the encodings is chosen, at 32 and at 64 bits.
\<close>

section \<open>Moves of immediates\<close>

lemma setx_same [simp]: "setx r b (setx r a m) = setx r b m"
  by (simp add: setx_def)

lemma exec_move_wide:
  assumes "d < 31" "opc \<in> {0, 2, 3}" "hw < (if sf \<noteq> 0 then 4 else 2)"
  shows "exec (emit_movn sf opc (int hw) (uint (c :: u16)) (int d)) m =
    Some (setx d (take_bit (width (sf \<noteq> 0)) (move_wide (nat opc) hw (ucast c) (take_bit (width (sf \<noteq> 0)) (xreg m d)))) m)"
proof -
  have u: "lo 16 (uint c) = unat c" using uint_lt2p [of c] by (simp add: lo_small)
  have h: "lo 2 (int hw) = hw" using assms(3) by (auto split: if_splits)
  have o: "lo 2 opc = nat opc" "nat opc \<noteq> 1" using assms(2) by auto
  have "(word_of_nat (unat c) :: u64) = ucast c" by (simp add: word_unat_eq_iff)
  then show ?thesis using assms u h o
    by (cases "sf = 0") (auto simp: exec_decoded(1) [OF dec_movn] rdx_def wrx_def setx_def width_def split: if_splits)
qed

lemma bit_move_wide:
  fixes c :: u16 and x :: u64
  assumes "hw < 4"
  shows "bit (move_wide 2 hw (ucast c) x) n \<longleftrightarrow> 16 * hw \<le> n \<and> n < 16 * hw + 16 \<and> bit c (n - 16 * hw)"
    and "bit (move_wide 0 hw (ucast c) x) n \<longleftrightarrow> n < 64 \<and> \<not> (16 * hw \<le> n \<and> n < 16 * hw + 16 \<and> bit c (n - 16 * hw))"
    and "bit (move_wide 3 hw (ucast c) x) n \<longleftrightarrow> (if 16 * hw \<le> n \<and> n < 16 * hw + 16 then bit c (n - 16 * hw) else bit x n)"
proof -
  have f: "(0xFFFF :: u64) = mask 16" by (simp add: mask_eq_exp_minus_1)
  have l: "bit c k \<Longrightarrow> k < 16" for k using bit_imp_le_length [of c k] by simp
  have b: "bit (push_bit (16 * hw) (ucast c) :: u64) n \<longleftrightarrow> 16 * hw \<le> n \<and> n < 16 * hw + 16 \<and> bit c (n - 16 * hw)"
    using assms l [of "n - 16 * hw"] by (auto simp: bit_push_bit_iff bit_unsigned_iff)
  show "bit (move_wide 2 hw (ucast c) x) n \<longleftrightarrow> 16 * hw \<le> n \<and> n < 16 * hw + 16 \<and> bit c (n - 16 * hw)"
    using b by (simp add: move_wide_def)
  show "bit (move_wide 0 hw (ucast c) x) n \<longleftrightarrow> n < 64 \<and> \<not> (16 * hw \<le> n \<and> n < 16 * hw + 16 \<and> bit c (n - 16 * hw))"
    using b by (auto simp: move_wide_def bit_not_iff)
  have k: "bit (push_bit (16 * hw) 0xFFFF :: u64) n \<longleftrightarrow> 16 * hw \<le> n \<and> n < 16 * hw + 16"
    unfolding f using assms by (auto simp: bit_push_bit_iff bit_mask_iff)
  show "bit (move_wide 3 hw (ucast c) x) n \<longleftrightarrow> (if 16 * hw \<le> n \<and> n < 16 * hw + 16 then bit c (n - 16 * hw) else bit x n)"
    using b k by (auto simp: move_wide_def bit_or_iff bit_and_iff bit_not_iff dest: bit_imp_le_length)
qed

lemma bit_chunk: "bit (chunk v i) k \<longleftrightarrow> k < 16 \<and> bit v (16 * i + k)"
  by (auto simp: chunk_def bit_unsigned_iff bit_drop_bit_eq)

lemma chunk_const: "chunk v i = (if t then 0xFFFF else 0) \<longleftrightarrow> (\<forall>n. 16 * i \<le> n \<and> n < 16 * i + 16 \<longrightarrow> bit v n = t)"
proof -
  have f: "(0xFFFF :: u16) = mask 16" by (simp add: mask_eq_exp_minus_1)
  have "bit (if t then 0xFFFF else 0 :: u16) k \<longleftrightarrow> k < 16 \<and> t" for k unfolding f by (auto simp: bit_mask_iff)
  then have "chunk v i = (if t then 0xFFFF else 0) \<longleftrightarrow> (\<forall>k < 16. bit v (16 * i + k) = t)"
    by (auto simp: bit_eq_iff bit_chunk)
  also have "\<dots> \<longleftrightarrow> (\<forall>n. 16 * i \<le> n \<and> n < 16 * i + 16 \<longrightarrow> bit v n = t)"
    by (metis add_less_cancel_left le_add1 le_add_diff_inverse)
  finally show ?thesis .
qed

text \<open>
  Invariant of the MOVK loop: the parts from \<open>hi\<close> on are those of the value, the parts below are still
  all zeros or all ones.
\<close>

definition chain_at :: "nat \<Rightarrow> u64 \<Rightarrow> bool \<Rightarrow> nat \<Rightarrow> u64 \<Rightarrow> bool" where
  "chain_at w v t hi x \<longleftrightarrow> (\<forall>n. bit x n \<longleftrightarrow> n < w \<and> (if 16 * hi \<le> n then bit v n else t))"

lemma movk_chain_exec:
  assumes "d < 31" "hi \<le> (if sf \<noteq> 0 then 4 else 2)" "lo1 \<le> hi" "\<And>n. n < 16 * lo1 \<Longrightarrow> bit v n = t"
    "chain_at (width (sf \<noteq> 0)) v t hi (xreg m d)"
  shows "exec (movk_chain sf v (if t then 0xFFFF else 0) (int d) lo1 hi) m = Some (setx d (take_bit (width (sf \<noteq> 0)) v) m)"
  using assms(2,3,5)
proof (induction "hi - lo1" arbitrary: hi m)
  case 0
  then have "bit (xreg m d) n \<longleftrightarrow> n < width (sf \<noteq> 0) \<and> bit v n" for n using assms(4) [of n] by (auto simp: chain_at_def)
  then have "xreg m d = take_bit (width (sf \<noteq> 0)) v" by (intro bit_word_eqI) (simp add: bit_take_bit_iff)
  then show ?case using 0 by (simp add: movk_chain_def setx_def) (metis a64.surjective a64.update_convs(1) fun_upd_triv)
next
  case (Suc k)
  then obtain i where i: "hi = Suc i" "lo1 \<le> i" "k = i - lo1" by (cases hi) auto
  let ?w = "width (sf \<noteq> 0)" and ?t = "if t then 0xFFFF else 0 :: u16"
  let ?x = "if chunk v i \<noteq> ?t then take_bit ?w (move_wide 3 i (ucast (chunk v i)) (take_bit ?w (xreg m d))) else xreg m d"
  have hw: "i < (if sf \<noteq> 0 then 4 else 2)" "i < 4" using Suc.prems(1) i by (auto split: if_splits)
  have ch: "chain_at ?w v t i ?x"
  proof (cases "chunk v i = ?t")
    case True
    then have "\<And>n. 16 * i \<le> n \<Longrightarrow> n < 16 * i + 16 \<Longrightarrow> bit v n = t" unfolding chunk_const by blast
    then show ?thesis using Suc.prems(3) True i by (auto simp: chain_at_def)
  next
    case False
    have "bit ?x n \<longleftrightarrow> n < ?w \<and> (if 16 * i \<le> n then bit v n else t)" for n
    proof -
      have "bit (xreg m d) n \<longleftrightarrow> n < ?w \<and> (if 16 * hi \<le> n then bit v n else t)" using Suc.prems(3) by (simp add: chain_at_def)
      then have "bit ?x n \<longleftrightarrow> n < ?w \<and> (if 16 * i \<le> n \<and> n < 16 * i + 16 then bit (chunk v i) (n - 16 * i) else
          (if 16 * hi \<le> n then bit v n else t))"
        using False bit_move_wide(3) [OF hw(2), of "chunk v i" "take_bit ?w (xreg m d)" n] by (simp add: bit_take_bit_iff)
      then show ?thesis unfolding bit_chunk i(1) by (cases "16 * i \<le> n"; cases "n < 16 * i + 16") auto
    qed
    then show ?thesis by (simp add: chain_at_def)
  qed
  have split: "movk_chain sf v ?t (int d) lo1 hi =
      (if chunk v i \<noteq> ?t then emit_movn sf 3 (int i) (uint (chunk v i)) (int d) else []) @ movk_chain sf v ?t (int d) lo1 i"
    using i by (simp add: movk_chain_def)
  have "exec (if chunk v i \<noteq> ?t then emit_movn sf 3 (int i) (uint (chunk v i)) (int d) else []) m = Some (setx d ?x m)"
    using exec_move_wide [OF assms(1) _ hw(1), of 3 "chunk v i" m] by (simp add: setx_def)
  moreover have "exec (movk_chain sf v ?t (int d) lo1 i) (setx d ?x m) = Some (setx d (take_bit ?w v) (setx d ?x m))"
    using Suc.hyps(1) [OF i(3), of "setx d ?x m"] ch i Suc.prems(1) by simp
  ultimately show ?case unfolding split by (simp add: exec_append)
qed

lemma hi_chunk_spec:
  assumes "0 < n"
  shows "hi_chunk w n < n" "hi_chunk w n < i \<Longrightarrow> i < n \<Longrightarrow> chunk w i = 0"
proof -
  have "hi_chunk w n < n \<and> (\<forall>i. hi_chunk w n < i \<longrightarrow> i < n \<longrightarrow> chunk w i = 0)" using assms
  proof (induction n)
    case (Suc n)
    show ?case
    proof (cases "chunk w n \<noteq> 0")
      case True
      then show ?thesis by (simp add: hi_chunk_def)
    next
      case False
      then have e: "hi_chunk w (Suc n) = hi_chunk w n" by (simp add: hi_chunk_def)
      show ?thesis
      proof (cases "n = 0")
        case True
        then show ?thesis unfolding e by (simp add: hi_chunk_def)
      next
        case False
        then show ?thesis unfolding e using Suc.IH \<open>\<not> chunk w n \<noteq> 0\<close> by (auto simp: less_Suc_eq)
      qed
    qed
  qed simp
  then show "hi_chunk w n < n" "hi_chunk w n < i \<Longrightarrow> i < n \<Longrightarrow> chunk w i = 0" by blast+
qed

lemma lo_chunk_spec:
  assumes "0 < n"
  shows "lo_chunk w n \<le> hi_chunk w n" "i < lo_chunk w n \<Longrightarrow> chunk w i = 0"
proof -
  let ?f = "filter (\<lambda>i. chunk w i \<noteq> 0) [0..<n]"
  have h: "hi_chunk w n = (if ?f = [] then 0 else last ?f)" "lo_chunk w n = (if ?f = [] then 0 else hd ?f)"
    unfolding hi_chunk_def lo_chunk_def rev_filter [symmetric] by (cases ?f rule: rev_cases, simp_all, cases ?f, simp_all)
  have s: "sorted ?f" by (simp add: sorted_wrt_filter)
  have first: "hd ?f \<le> x" if "x \<in> set ?f" for x using s that by (cases ?f) auto
  show "lo_chunk w n \<le> hi_chunk w n" unfolding h using first [OF last_in_set [of ?f]] by simp
  show "chunk w i = 0" if "i < lo_chunk w n"
  proof (rule ccontr)
    assume c: "chunk w i \<noteq> 0"
    have ne: "?f \<noteq> []" using that h by (metis not_less_zero)
    have "hd ?f \<in> set ?f" using ne by (rule hd_in_set)
    then have "hd ?f < n" "lo_chunk w n = hd ?f" using h(2) ne by auto
    then show False using first [of i] that c by auto
  qed
qed

lemma exec_mov_chain:
  assumes "d < 31"
  shows "exec (emit_mov_chain sf v (int d)) m = Some (setx d (take_bit (width (sf \<noteq> 0)) v) m)"
proof -
  define n :: nat where "n = (if sf \<noteq> 0 then 4 else 2)"
  define t where "t \<longleftrightarrow> length (filter (\<lambda>i. chunk v i = 0) [0..<n]) < length (filter (\<lambda>i. chunk v i = 0xFFFF) [0..<n])"
  define u where "u = (if t then NOT v else v)"
  define hi where "hi = hi_chunk u n"
  define lo1 where "lo1 = lo_chunk u n"
  let ?w = "width (sf \<noteq> 0)"
  have n: "0 < n" "n \<le> 4" "?w = 16 * n" by (simp_all add: n_def width_def)
  have ub: "bit u k \<longleftrightarrow> bit v k \<noteq> t" if "k < 64" for k using that by (simp add: u_def bit_not_iff)
  have zero: "bit v k = t" if "chunk u i = 0" "16 * i \<le> k" "k < 16 * i + 16" "k < 64" for i k
    using that chunk_const [of u i False] ub [of k] by auto
  have hi: "hi < n" "hi < 4" "\<And>i. hi < i \<Longrightarrow> i < n \<Longrightarrow> chunk u i = 0" using hi_chunk_spec [OF n(1)] n(2) by (auto simp: hi_def intro: less_le_trans)
  have lo1: "lo1 \<le> hi" "\<And>i. i < lo1 \<Longrightarrow> chunk u i = 0" using lo_chunk_spec [OF n(1)] by (auto simp: hi_def lo1_def)
  have low: "bit v k = t" if "k < 16 * lo1" for k
    using that hi(1) n(2) lo1 by (intro zero [of "k div 16"]) auto
  have high: "bit v k = t" if "16 * hi + 16 \<le> k" "k < 16 * n" for k
    using that n(2) by (intro zero [of "k div 16"] hi(3)) auto
  let ?x = "take_bit ?w (move_wide (if t then 0 else 2) hi (ucast (chunk u hi)) (take_bit ?w (xreg m d)))"
  have x: "bit ?x k \<longleftrightarrow> k < ?w \<and> (if 16 * hi \<le> k then bit v k else t)" for k
  proof (cases "k < ?w")
    case True
    then have k: "k < 64" "k < 16 * n" using n by auto
    have "bit ?x k \<longleftrightarrow> (if 16 * hi \<le> k \<and> k < 16 * hi + 16 then bit u k \<noteq> t else t)"
      using True k bit_move_wide(1,2) [OF hi(2), of "chunk u hi" "take_bit ?w (xreg m d)" k]
      by (cases t) (auto simp: bit_take_bit_iff bit_chunk)
    then show ?thesis using True k high [of k] ub [of k] by auto
  qed (simp add: bit_take_bit_iff)
  have mw: "exec (emit_movn sf (if t then 0 else 2) (int hi) (uint (chunk u hi)) (int d)) m = Some (setx d ?x m)"
    using exec_move_wide [OF assms, of "if t then 0 else 2" hi sf "chunk u hi" m] hi(1) by (cases t) (auto simp: n_def)
  have "emit_mov_chain sf v (int d) = emit_movn sf (if t then 0 else 2) (int hi) (uint (chunk u hi)) (int d) @
      movk_chain sf v (if t then 0xFFFF else 0) (int d) lo1 hi"
    unfolding emit_mov_chain_def Let_def n_def [symmetric] hi_def lo1_def u_def t_def by (simp add: not_less)
  moreover have "exec (movk_chain sf v (if t then 0xFFFF else 0) (int d) lo1 hi) (setx d ?x m) = Some (setx d (take_bit ?w v) (setx d ?x m))"
    using x hi(1) by (intro movk_chain_exec [OF assms _ lo1(1) low]) (auto simp: chain_at_def n_def)
  ultimately show ?thesis using mw by (simp add: exec_append)
qed

section \<open>Logical immediates\<close>

lemma exec_orr_imm:
  assumes "d < 31" "sf \<in> {0, 1}" "bit_mask (sf = 1) N (unat immr) (unat imms) = Some x" "unat immr < 64" "unat (imms :: u8) < 64"
  shows "execo (emit_orr_imm sf (int d) XZR (of_bool N) (uint (immr :: u8)) (uint (imms AND 0x3F))) m = Some (setx d (take_bit (width (sf = 1)) x) m)"
proof -
  have f: "(0x3F :: u8) = mask 6" by (simp add: mask_eq_exp_minus_1)
  have i: "imms AND 0x3F = imms" unfolding f take_bit_eq_mask [symmetric] using assms(5)
    by (simp add: word_unat_eq_iff unsigned_take_bit_eq take_bit_nat_eq_self)
  have l: "lo 6 (uint immr) = unat immr" "lo 6 (uint (imms AND 0x3F)) = unat imms" unfolding i
    using lo_int [of "unat immr" 6] lo_int [of "unat imms" 6] assms(4,5) by simp_all
  have n: "N \<Longrightarrow> sf = 1" using assms(2,3) by (auto simp: bit_mask_def Let_def split: if_splits)
  have "\<exists>c. emit_orr_imm sf (int d) XZR (of_bool N) (uint immr) (uint (imms AND 0x3F)) = Some c"
    using assms(1) n by (cases N) (auto simp: emit_orr_imm_def emit_logical_imm_def)
  then obtain c where c: "emit_orr_imm sf (int d) XZR (of_bool N) (uint immr) (uint (imms AND 0x3F)) = Some c" ..
  have "map decode c = [Some (DP (LogicalImm (sf \<noteq> 0) 1 N (unat immr) (unat imms) 31 d))]"
    using dec_logical_imm [of XZR "int d" sf 1 "of_bool N" "uint immr" "uint (imms AND 0x3F)"] c assms(1) n l
    by (auto simp: emit_orr_imm_def split: if_splits)
  then show ?thesis using assms(1-3) c
    by (auto simp: execo_Some exec_decoded(1) rdx_zr logical_def Let_def logical_op_def wrsp_def setx_def)
qed

text \<open>An emitter that can fail, known to run, gives code.\<close>

lemma execo_code: "execo c m = Some k \<Longrightarrow> \<exists>ws. c = Some ws \<and> exec ws m = Some k"
  by (auto simp: execo_def bind_eq_Some_conv)

section \<open>Loading any value\<close>

lemma load_code_exec:
  assumes "d < 31" "sf \<in> {0, 1}"
  shows "execo (load_code sf x (int d)) m = Some (setx d (take_bit (width (sf = 1)) x) m)"
proof -
  define v where "v = (if sf \<noteq> 0 then x else ucast (ucast x :: u32))"
  have v: "take_bit (width (sf = 1)) x = v" "take_bit (width (sf = 1)) v = v"
    using assms(2) by (auto simp: v_def take32 take_bit_word_eq_self)
  obtain e where e: "is_bitmask_immediate (sf \<noteq> 0) v = Some e" and
    ex: "\<And>N immr imms. e = Some (N, immr, imms) \<Longrightarrow> execo (emit_orr_imm sf (int d) XZR (of_bool N) (uint immr) (uint (imms AND 0x3F))) m = Some (setx d v m)"
    using is_bitmask_immediate_spec [of "sf \<noteq> 0" v] assms exec_orr_imm [OF assms, of _ _ _ v m] v by (auto simp: take_bit_word_eq_self)
  obtain f where f: "is_bitmask_immediate False v = Some f" and
    fx: "\<And>N immr imms. f = Some (N, immr, imms) \<Longrightarrow> drop_bit 32 v = 0 \<Longrightarrow> execo (emit_orr_imm 0 (int d) XZR (of_bool N) (uint immr) (uint (imms AND 0x3F))) m = Some (setx d v m)"
  proof -
    have "take_bit 32 v = v" if "drop_bit 32 v = 0" using that by (metis add.right_neutral bits_ident push_bit_of_0 add.left_neutral)
    then show ?thesis using that is_bitmask_immediate_spec [of False v] exec_orr_imm [OF assms(1), of 0 _ _ _ "take_bit 32 v" m] by auto
  qed
  have z: "execo (Some (emit_movn sf 2 0 0 (int d))) m = Some (setx d 0 m)"
    using exec_move_wide [OF assms(1), of 2 0 sf 0 m] assms(2) by (simp add: execo_Some move_wide_def)
  show ?thesis unfolding v(1) load_code_def v_def [symmetric] Let_def
    using z e f ex fx exec_mov_chain [OF assms(1), of sf v m] v(2) assms(2)
    by (auto simp: execo_Some split: option.splits if_splits)
qed

lemma movn_one: "length (emit_movn a b c d e) = 1"
  by (simp add: emit_movn_def)

lemma movk_chain_length: "length (movk_chain sf v t d lo1 hi) \<le> hi - lo1"
proof -
  have "length (concat (map (\<lambda>i. if P i then emit_movn sf 3 (f i) (g i) d else []) xs)) \<le> length xs" for P :: "nat \<Rightarrow> bool" and f g xs
    by (induction xs) (auto simp: movn_one)
  from this [of _ _ _ "rev [lo1..<hi]"] show ?thesis by (simp add: movk_chain_def)
qed

lemma load_code_length: "load_code sf v r = Some c \<Longrightarrow> length c \<le> 4"
proof -
  have orr: "emit_orr_imm a b e f g h = Some c \<Longrightarrow> length c = 1" for a b e f g h
    by (auto simp: emit_orr_imm_def emit_logical_imm_def split: if_splits)
  have chain: "length (emit_mov_chain sf w r) \<le> 4" for w
  proof -
    let ?n = "if sf \<noteq> 0 then 4 else 2 :: nat"
    have "hi_chunk u ?n < 4" for u using hi_chunk_spec(1) [of ?n u] by (auto split: if_splits)
    then have k: "1 + length (movk_chain sf w t r lo1 (hi_chunk u ?n)) \<le> 4" for t lo1 u
      using movk_chain_length [of sf w t r lo1 "hi_chunk u ?n"] by (metis Suc_leI diff_le_self le_less_trans le_trans plus_1_eq_Suc)
    show ?thesis unfolding emit_mov_chain_def Let_def length_append movn_one by (rule k)
  qed
  assume "load_code sf v r = Some c"
  then show ?thesis using orr chain
    by (auto simp: load_code_def Let_def movn_one bind_eq_Some_conv split: if_splits option.splits prod.splits) 
qed

text \<open>
  (C37) Loading an immediate: for every value, at 32 and at 64 bits and with any register, at most four
  instructions are written and the register then holds the value at that width; nothing else changes.
  The choice between logical immediates, MOVZ and MOVN and their MOVK chains is covered, and zero.
\<close>

theorem load_immediate_loads:
  assumes "d < 31" "sf \<in> {0, 1}"
  shows "\<exists>c. emit_load_immediate_no_xzr sf x (int d) t = Some (emit c t) \<and> length c \<le> 4 \<and>
    exec c m = Some (setx d (take_bit (width (sf = 1)) x) m)"
proof (cases "x = 0")
  case True
  then show ?thesis using assms exec_move_wide [OF assms(1), of 2 0 sf 0 m]
    by (intro exI [of _ "emit_movn sf 2 0 0 (int d)"])
      (auto simp: emit_load_immediate_no_xzr_def emit_load_immediate_def movn_one move_wide_def)
next
  case False
  obtain c where c: "load_code sf x (int d) = Some c" "exec c m = Some (setx d (take_bit (width (sf = 1)) x) m)"
    using load_code_exec [OF assms, of x m] execo_code by blast
  then show ?thesis using False assms load_code_length [OF c(1)]
    by (intro exI [of _ c]) (simp add: emit_load_immediate_no_xzr_def emit_load_immediate_def emit_opt_def)
qed

theorem load_immediate_loads_witness:
  "\<forall>t m. \<exists>c. emit_load_immediate_no_xzr 1 0xFFFFFFFF12345678 22 t = Some (emit c t) \<and> length c \<le> 4 \<and> exec c m = Some (setx 22 0xFFFFFFFF12345678 m)"
proof (intro allI)
  fix t m
  show "\<exists>c. emit_load_immediate_no_xzr 1 0xFFFFFFFF12345678 22 t = Some (emit c t) \<and> length c \<le> 4 \<and> exec c m = Some (setx 22 0xFFFFFFFF12345678 m)"
    using load_immediate_loads [of 22 1 "0xFFFFFFFF12345678" t m] by (simp add: take_bit_word_eq_self)
qed

end
