(* ===== verification/OperandAddr.thy ===== *)
theory OperandAddr
  imports LoadImm
begin

text \<open>
  The effective address of a guest memory operand: whichever of the cases of
  \<open>compute_mem_operand_address\<close> applies, the emitted code leaves base plus scaled index plus displacement,
  at the address width, in the returned register.
\<close>

section \<open>Sums at either width\<close>

abbreviation aw :: "int \<Rightarrow> nat" where "aw sf \<equiv> width (sf \<noteq> 0)"

lemma take_sum [simp]:
  fixes a b :: u64
  shows "take_bit n (take_bit n a + b) = take_bit n (a + b)" "take_bit n (a + take_bit n b) = take_bit n (a + b)"
    "take_bit n (push_bit k (take_bit n a)) = take_bit n (push_bit k a)"
proof -
  show l: "take_bit n (take_bit n a + b) = take_bit n (a + b)" for a b :: u64
  proof -
    have "take_bit k (take_bit n p + q) = take_bit k (p + q)" if "k \<le> n" for k and p q :: int
      using take_bit_add [of k "take_bit n p" q] take_bit_add [of k p q] that by (simp add: min_def)
    then have k: "take_bit n (take_bit 64 (take_bit n (uint a) + uint b)) = take_bit n (take_bit 64 (uint a + uint b))" by simp
    have u: "uint (x + y) = take_bit 64 (uint x + uint y)" for x y :: u64 by (simp add: uint_word_ariths take_bit_eq_mod)
    show ?thesis by (rule word_uint_eqI) (simp only: unsigned_take_bit_eq u k)
  qed
  show "take_bit n (a + take_bit n b) = take_bit n (a + b)" using l [of b a] by (simp add: add.commute)
  show "take_bit n (push_bit k (take_bit n a)) = take_bit n (push_bit k a)"
    by (rule bit_word_eqI) (auto simp: bit_take_bit_iff bit_push_bit_iff)
qed

lemma take_difference: "take_bit n (take_bit n a + take_bit n (NOT b) + 1) = take_bit n (a - b)" for a b :: u64
proof -
  have "take_bit n (take_bit n a + take_bit n (NOT b) + 1) = take_bit n (take_bit n a + (take_bit n (NOT b) + 1))" by (simp only: add.assoc)
  also have "\<dots> = take_bit n (a + (take_bit n (NOT b) + 1))" by (rule take_sum)
  also have "\<dots> = take_bit n (take_bit n (NOT b) + (a + 1))" by (simp only: add.left_commute)
  also have "\<dots> = take_bit n (NOT b + (a + 1))" by (rule take_sum)
  also have "NOT b + (a + 1) = a - b" by (simp add: not_eq_complement)
  finally show ?thesis .
qed

lemma exec_add_shifted:
  assumes "rm < 31" "rn < 31" "d < 31" "0 \<le> sh" "sh < 32"
  shows "exec (emit_add_sub_shifted_reg sf 0 0 0 (int rm) sh (int rn) (int d)) m =
    Some (setx d (take_bit (aw sf) (xreg m rn + push_bit (nat sh) (xreg m rm))) m)"
proof -
  have "nat sh < 32" "lo 6 sh = nat sh" using assms by (auto simp: lo_small)
  then have "nat sh < aw sf" by (simp add: width_def)
  then show ?thesis using assms \<open>lo 6 sh = nat sh\<close>
    by (simp add: exec_decoded(1) [OF dec_add_sub_shifted] add_sub_def Let_def adc_sum_def shift_reg_def rdx_def wrx_def setx_def)
qed

lemma exec_add_regs:
  assumes "rm < 31" "rn < 31" "d < 31"
  shows "exec (emit_add_reg sf (int d) (int rn) (int rm)) m = Some (setx d (take_bit (aw sf) (xreg m rn + xreg m rm)) m)"
proof -
  have e: "emit_add_reg sf (int d) (int rn) (int rm) = emit_add_sub_shifted_reg sf 0 0 0 (int rm) 0 (int rn) (int d)"
    using assms by (simp add: emit_add_reg_def)
  show ?thesis unfolding e using exec_add_shifted [OF assms, of 0 sf m] by simp
qed

lemma exec_mov_w:
  assumes "n < 31" "d < 31"
  shows "exec (emit_mov_reg 0 (int d) (int n)) m = Some (setx d (take_bit 32 (xreg m n)) m)"
  using exec_mov32 [OF assms] by (simp add: setw_def wv_def take32)

lemma exec_lsl:
  assumes "n < 31" "d < 31" "0 < sh" "sh < 32"
  shows "exec (emit_bitfield sf 2 (if sf \<noteq> 0 then 1 else 0) ((if sf \<noteq> 0 then 64 else 32) - sh) ((if sf \<noteq> 0 then 64 else 32) - sh - 1) (int n) (int d)) m =
    Some (setx d (take_bit (aw sf) (push_bit (nat sh) (xreg m n))) m)"
proof -
  define w :: nat where "w = aw sf"
  define k where "k = nat sh"
  have k: "sh = int k" "0 < k" "k < 32" "k < w" "w \<le> 64" "(if sf \<noteq> 0 then 64 else 32) = int w" using assms by (auto simp: k_def w_def width_def)
  define p where "p = w - k"
  define q where "q = w - k - 1"
  have i: "int w - int k = int p" "int p - 1 = int q" using k by (simp_all add: p_def q_def of_nat_diff)
  have pq: "p < w" "q < w" "p < 2 ^ 6" "q < 2 ^ 6" using k by (auto simp: p_def q_def)
  note l = pq(3,4) [THEN lo_int]
  have o: "odd (if sf \<noteq> 0 then 1 else 0 :: int) = (sf \<noteq> 0)" by simp
  have "bitfield_op (sf \<noteq> 0) 2 p q x y = take_bit w (push_bit k x)" for x y :: u64
    using k by (intro bit_word_eqI) (auto simp: p_def q_def bitfield_op_def Let_def w_def [symmetric] bit_push_bit_iff bit_take_bit_iff)
  then show ?thesis unfolding k(1,6) i using assms k(1) l pq(1,2)
    by (simp add: exec_decoded(1) [OF dec_bitfield [OF o]] rdx_def wrx_def setx_def w_def [symmetric])
qed

lemma exec_add_imm:
  assumes "n < 31" "d < 31" "sh \<in> {0, 1}" "(imm :: u64) < 4096"
  shows "exec (emit_add_imm sf (of_bool sub1) 0 sh (uint imm) (int n) (int d)) m =
    Some (setx d (take_bit (aw sf) (let y = (if sh = 1 then push_bit 12 imm else imm) in if sub1 then xreg m n - y else xreg m n + y)) m)"
proof -
  have u: "lo 12 (uint imm) = unat imm" using assms(4) lo_int [of "unat imm" 12] by (simp add: word_less_nat_alt)
  have "(word_of_nat (unat imm) :: u64) = imm" "(word_of_nat (unat imm * 4096) :: u64) = push_bit 12 imm"
    by (simp_all add: push_bit_eq_mult)
  then show ?thesis using assms(1-3) u
    by (auto simp: exec_decoded(1) [OF dec_add_imm] exec_decoded(1) [OF dec_add_imm_shifted] add_sub_def Let_def adc_sum_def
      rdsp_def wrsp_def setx_def take_difference)
qed

lemma disp_imm_spec:
  assumes "disp_imm v = Some (is_add, sh, imm)"
  shows "sh \<in> {0, 1}" "imm < 4096" "(let y = (if sh = 1 then push_bit 12 imm else imm) in if is_add then y else - y) = v"
proof -
  have s: "drop_bit 12 x < 4096 \<and> push_bit 12 (drop_bit 12 x) = x" if x: "x AND 0xFFFFFFFFFF000FFF = 0" for x :: u64
  proof -
    obtain k where k: "k < 4096" "x = k * 4096" using x unfolding shifted_iff by blast
    then have "x = push_bit 12 k" by (simp add: push_bit_eq_mult)
    moreover have "drop_bit 12 (push_bit 12 k) = k"
    proof -
      have "k = take_bit 12 k" using k(1) less_mask_eq [of k 12] by (simp add: take_bit_eq_mask)
      then have "bit k n \<Longrightarrow> n < 52" for n using bit_take_bit_iff [of 12 k n] by simp
      then show ?thesis by (intro bit_word_eqI) (auto simp: bit_drop_bit_eq bit_push_bit_iff)
    qed
    ultimately show ?thesis using k(1) by simp
  qed
  show "sh \<in> {0, 1}" "imm < 4096" "(let y = (if sh = 1 then push_bit 12 imm else imm) in if is_add then y else - y) = v"
    using assms s [of v] s [of "- v"] by (auto simp: disp_imm_def Let_def split: if_splits)
qed

lemma exec_add_disp:
  assumes "n < 31" "d < 31" "disp_imm v = Some (is_add, sh, imm)"
  shows "exec (emit_add_imm sf (of_bool (\<not> is_add)) 0 sh (uint imm) (int n) (int d)) m = Some (setx d (take_bit (aw sf) (xreg m n + v)) m)"
proof -
  note i = disp_imm_spec [OF assms(3)]
  have "(let y = (if sh = 1 then push_bit 12 imm else imm) in if \<not> is_add then xreg m n - y else xreg m n + y) = xreg m n + v"
    using i(3) by (auto simp: Let_def split: if_splits)
  then show ?thesis using exec_add_imm [OF assms(1,2) i(1,2), of sf "\<not> is_add" m] by simp
qed

section \<open>Registers of an address computation\<close>

definition dst_ok :: "int \<Rightarrow> TranslationResult \<Rightarrow> bool" where
  "dst_ok dst t \<longleftrightarrow> pool_ok (free_gpr_mask t) \<and> free_gpr_mask t \<noteq> 0 \<and> (dst = XZR \<or> (\<exists>d < 31. dst = int d \<and> \<not> bit (free_gpr_mask t) d))"

abbreviation with_mask :: "TranslationResult \<Rightarrow> u32 \<Rightarrow> TranslationResult" where
  "with_mask t f \<equiv> t\<lparr>free_gpr_mask := f\<rparr>"

lemma tr_alloc:
  assumes "pool_ok (free_gpr_mask t)" "free_gpr_mask t \<noteq> 0"
  obtains a f where "tr_alloc_free_gpr t = Some (int a, with_mask t f)" "22 \<le> a" "a < 30" "bit (free_gpr_mask t) a"
    "\<And>i. bit f i \<longleftrightarrow> bit (free_gpr_mask t) i \<and> i \<noteq> a"
proof -
  obtain r f where rf: "alloc_free_gpr (free_gpr_mask t) = Some (r, f)" using assms(2) by (auto simp: alloc_free_gpr_def Let_def)
  obtain q where "r = int q" "22 \<le> q" "q < 30" "bit (free_gpr_mask t) q" "\<forall>i. bit f i \<longleftrightarrow> bit (free_gpr_mask t) i \<and> i \<noteq> q"
    by (rule alloc_free_gpr_spec [OF assms(1) rf])
  then show ?thesis using rf that by (simp add: tr_alloc_free_gpr_def with_gprs_def)
qed

lemma dst_or_scratch_ok:
  assumes "dst_ok dst t"
  obtains r f where "dst_or_scratch dst t = Some (int r, with_mask t f)" "r < 31" "\<And>i. bit f i \<longleftrightarrow> bit (free_gpr_mask t) i \<and> i \<noteq> r"
    "bit (free_gpr_mask t) r \<or> dst = int r"
proof (cases "dst = XZR")
  case True
  obtain a f where "tr_alloc_free_gpr t = Some (int a, with_mask t f)" "22 \<le> a" "a < 30" "bit (free_gpr_mask t) a"
    "\<And>i. bit f i \<longleftrightarrow> bit (free_gpr_mask t) i \<and> i \<noteq> a"
    using tr_alloc assms unfolding dst_ok_def by metis
  then show ?thesis using that [of a f] True by (simp add: dst_or_scratch_def)
next
  case False
  then obtain d where "d < 31" "dst = int d" "\<not> bit (free_gpr_mask t) d" using assms by (auto simp: dst_ok_def)
  then show ?thesis using that [of d "free_gpr_mask t"] False by (auto simp: dst_or_scratch_def)
qed

lemma scratch_iff: "is_scratch_pool_reg (int d) \<longleftrightarrow> 22 \<le> d \<and> d < 30"
  by (auto simp: is_scratch_pool_reg_def pool_mask)

lemma scratch_pair_ok:
  assumes "dst_ok dst t"
  obtains a r f g where "scratch_pair dst t = Some (int a, int r, with_mask t f)" "22 \<le> a" "a < 30" "r < 31"
    "bit (free_gpr_mask t) a \<or> a = r" "\<And>c. finish_pair (int a) (int r) (emit c (with_mask t f)) = Some (int r, emit c (with_mask t g))"
    "\<And>i. bit g i \<longleftrightarrow> bit (free_gpr_mask t) i \<and> i \<noteq> r" "bit (free_gpr_mask t) r \<or> dst = int r"
proof (cases "is_scratch_pool_reg dst")
  case True
  then obtain d where d: "dst = int d" "22 \<le> d" "d < 30" using scratch_iff by (metis is_scratch_pool_reg_def nonneg_int_cases)
  then have "\<not> bit (free_gpr_mask t) d" using assms by (auto simp: dst_ok_def)
  then show ?thesis using that [of d d "free_gpr_mask t" "free_gpr_mask t"] d True by (auto simp: scratch_pair_def finish_pair_def)
next
  case False
  obtain a f where a: "tr_alloc_free_gpr t = Some (int a, with_mask t f)" "22 \<le> a" "a < 30" "bit (free_gpr_mask t) a"
    "\<And>i. bit f i \<longleftrightarrow> bit (free_gpr_mask t) i \<and> i \<noteq> a"
    using tr_alloc assms unfolding dst_ok_def by metis
  show ?thesis
  proof (cases "dst = XZR")
    case True
    then show ?thesis using that [of a a f f] a False by (simp add: scratch_pair_def finish_pair_def)
  next
    case Dst: False
    then obtain d where d: "d < 31" "dst = int d" "\<not> bit (free_gpr_mask t) d" using assms by (auto simp: dst_ok_def)
    then have ne: "d \<noteq> a" using a(4) by auto
    have restored: "f OR push_bit a 1 = free_gpr_mask t"
      using a(3-5) by (intro bit_word_eqI) (auto simp: bit_or_iff bit_reg push_bit_eq_mult)
    have "finish_pair (int a) (int d) (emit c (with_mask t f)) = Some (int d, emit c (with_mask t (free_gpr_mask t)))" for c
      using ne restored free_gpr_spec [OF a(2,3), of f] by (simp add: finish_pair_def tr_free_gpr_def emit_def)
    then show ?thesis using that [of a d f "free_gpr_mask t"] a(1-4) d False Dst by (auto simp: scratch_pair_def)
  qed
qed

section \<open>The address\<close>

definition gidx :: "u8 \<Rightarrow> nat" where
  "gidx r = unat (r AND 0x0F)"

lemma gidx: "guest_idx r = int (gidx r)" "gidx r < 16"
proof -
  show "guest_idx r = int (gidx r)" by (simp add: guest_idx_def gidx_def)
  have "r AND 0x0F \<le> 0x0F" by (rule word_and_le1)
  then show "gidx r < 16" by (simp add: gidx_def word_le_nat_alt)
qed

definition ea :: "int \<Rightarrow> IROperand \<Rightarrow> a64 \<Rightarrow> u64" where
  "ea sf op m = take_bit (aw sf) ((if has_base op then xreg m (gidx (base_reg op)) else 0) +
     (if has_index op then push_bit (unat (shift_amount op)) (xreg m (gidx (index_reg op))) else 0) + payload op)"

text \<open>
  What the computation promises: code that leaves \<open>v\<close> in the returned register, which is the requested
  one, a guest register or one taken from the pool, and no longer in the pool; other registers in use, memory, flags and the rest of the translation are untouched.
\<close>

definition leaves :: "(int \<times> TranslationResult) option \<Rightarrow> int \<Rightarrow> TranslationResult \<Rightarrow> a64 \<Rightarrow> u64 \<Rightarrow> bool" where
  "leaves res dst t m v \<longleftrightarrow> (\<exists>r c f k. res = Some (int r, emit c (with_mask t f)) \<and> r < 31 \<and> (bit (free_gpr_mask t) r \<or> r < 16 \<or> dst = int r) \<and> exec c m = Some k \<and> xreg k r = v \<and>
     k\<lparr>xreg := xreg m\<rparr> = m \<and> (\<forall>q. q = 31 \<or> int q \<noteq> dst \<longrightarrow> \<not> bit (free_gpr_mask t) q \<longrightarrow> xreg k q = xreg m q) \<and>
     (\<forall>i. bit f i \<longleftrightarrow> bit (free_gpr_mask t) i \<and> i \<noteq> r))"

lemma leaves_one:
  assumes "dst_ok dst t" "\<And>r. r < 31 \<Longrightarrow> exec (c (int r)) m = Some (setx r v m)"
  shows "leaves (do { (r, t1) \<leftarrow> dst_or_scratch dst t; Some (r, emit (c r) t1) }) dst t m v"
proof -
  obtain r f where r: "dst_or_scratch dst t = Some (int r, with_mask t f)" "r < 31" "\<And>i. bit f i \<longleftrightarrow> bit (free_gpr_mask t) i \<and> i \<noteq> r"
    "bit (free_gpr_mask t) r \<or> dst = int r"
    by (rule dst_or_scratch_ok [OF assms(1)]) blast
  then show ?thesis using assms(2) [of r] unfolding leaves_def by (intro exI [of _ r] exI [of _ "c (int r)"] exI [of _ f]) (auto simp: setx_def)
qed

lemma leaves_pair:
  assumes "dst_ok dst t"
    and h: "\<And>a r t1. 22 \<le> a \<Longrightarrow> a < 30 \<Longrightarrow> r < 31 \<Longrightarrow> \<exists>c u. h (int a) (int r) t1 = Some (emit c t1) \<and> exec c m = Some (setx r v (setx a u m))"
  shows "leaves (do { (a, r, t1) \<leftarrow> scratch_pair dst t; t2 \<leftarrow> h a r t1; finish_pair a r t2 }) dst t m v"
proof -
  obtain a r f g where s: "scratch_pair dst t = Some (int a, int r, with_mask t f)" "22 \<le> a" "a < 30" "r < 31"
    "bit (free_gpr_mask t) a \<or> a = r" "\<And>c. finish_pair (int a) (int r) (emit c (with_mask t f)) = Some (int r, emit c (with_mask t g))"
    "\<And>i. bit g i \<longleftrightarrow> bit (free_gpr_mask t) i \<and> i \<noteq> r" "bit (free_gpr_mask t) r \<or> dst = int r"
    by (rule scratch_pair_ok [OF assms(1)]) blast
  obtain c u where "h (int a) (int r) (with_mask t f) = Some (emit c (with_mask t f))" "exec c m = Some (setx r v (setx a u m))"
    using h [OF s(2-4)] by blast
  then show ?thesis using s unfolding leaves_def by (intro exI [of _ r] exI [of _ c] exI [of _ g]) (auto simp: setx_def)
qed

lemma load_no_xzr:
  assumes "d < 31" "sf \<in> {0, 1}" "v \<noteq> 0"
  shows "\<exists>c. (\<forall>t. emit_load_immediate_no_xzr sf v (int d) t = Some (emit c t)) \<and> exec c m = Some (setx d (take_bit (aw sf) v) m)"
proof -
  have "execo (load_code sf v (int d)) m = Some (setx d (take_bit (aw sf) v) m)"
    using load_code_exec [OF assms(1,2), of v m] assms(2) by auto
  then obtain c where c: "load_code sf v (int d) = Some c" "exec c m = Some (setx d (take_bit (aw sf) v) m)" using execo_code by blast
  then show ?thesis using assms by (intro exI [of _ c]) (simp add: emit_load_immediate_no_xzr_def emit_load_immediate_def emit_opt_def)
qed

lemma emit_emit: "emit b (emit a t) = emit (a @ b) t"
  by (simp add: emit_def)

lemma shift_small: "shift_amount op < 4 \<Longrightarrow> 0 \<le> uint (shift_amount op) \<and> uint (shift_amount op) < 32 \<and> nat (uint (shift_amount op)) = unat (shift_amount op)"
  by (simp add: word_less_def)

lemma leaves_load:
  assumes "dst_ok dst t" "sf \<in> {0, 1}" "disp \<noteq> 0"
    and g: "\<And>a r. 22 \<le> a \<Longrightarrow> a < 30 \<Longrightarrow> r < 31 \<Longrightarrow>
      exec (g (int a) (int r)) (setx a (take_bit (aw sf) disp) m) = Some (setx r v (setx a (take_bit (aw sf) disp) m))"
  shows "leaves (do { (a, r, t1) \<leftarrow> scratch_pair dst t; t2 \<leftarrow> emit_load_immediate_no_xzr sf disp a t1; finish_pair a r (emit (g a r) t2) }) dst t m v"
proof -
  have "leaves (do { (a, r, t1) \<leftarrow> scratch_pair dst t; t2 \<leftarrow> map_option (emit (g a r)) (emit_load_immediate_no_xzr sf disp a t1); finish_pair a r t2 }) dst t m v"
  proof (rule leaves_pair [OF assms(1)])
    fix a r :: nat and t1 assume ar: "22 \<le> a" "a < 30" "r < 31"
    obtain c where "\<forall>t. emit_load_immediate_no_xzr sf disp (int a) t = Some (emit c t)" "exec c m = Some (setx a (take_bit (aw sf) disp) m)"
      using load_no_xzr [OF _ assms(2,3), of a m] ar by auto
    then show "\<exists>c u. map_option (emit (g (int a) (int r))) (emit_load_immediate_no_xzr sf disp (int a) t1) = Some (emit c t1) \<and>
        exec c m = Some (setx r v (setx a u m))"
      using g [OF ar] by (intro exI [of _ "c @ g (int a) (int r)"] exI [of _ "take_bit (aw sf) disp"]) (simp add: exec_append emit_emit)
  qed
  then show ?thesis by (simp add: map_conv_bind_option)
qed

lemma base_index_sum_ok:
  assumes "22 \<le> a" "a < 30" "r < 31" "b < 22" "i < 22" "0 \<le> sh" "sh < 32" "sf \<in> {0, 1}" "disp \<noteq> 0"
  shows "\<exists>c u. base_index_sum sf disp (int b) (int i) sh (int a) (int r) t = Some (emit c t) \<and>
    exec c m = Some (setx r (take_bit (aw sf) (xreg m b + push_bit (nat sh) (xreg m i) + disp)) (setx a u m))"
proof (cases "disp_imm disp")
  case (Some d)
  then obtain s h v where "disp_imm disp = Some (s, h, v)" by (cases d) auto
  moreover have "take_bit (aw sf) (take_bit (aw sf) (xreg m b + disp) + y) = take_bit (aw sf) (xreg m b + y + disp)" for y
    by (simp add: ac_simps)
  ultimately show ?thesis using exec_add_disp [of b a disp s h v sf m] exec_add_shifted [of i a r sh sf "setx a u m" for u] assms(1-7)
    by (intro exI [of _ "emit_add_imm sf (of_bool (\<not> s)) 0 h (uint v) (int b) (int a) @ emit_add_sub_shifted_reg sf 0 0 0 (int i) sh (int a) (int r)"]
        exI [of _ "take_bit (aw sf) (xreg m b + disp)"]) (cases s; simp add: base_index_sum_def exec_append)
next
  case None
  obtain c where "\<forall>t. emit_load_immediate_no_xzr sf disp (int a) t = Some (emit c t)" "exec c m = Some (setx a (take_bit (aw sf) disp) m)"
    using load_no_xzr [OF _ assms(8,9), of a m] assms(2) by auto
  moreover have "take_bit (aw sf) (xreg m b + take_bit (aw sf) (take_bit (aw sf) disp + y)) = take_bit (aw sf) (xreg m b + y + disp)" for y
    by (simp add: ac_simps)
  ultimately show ?thesis using None exec_add_shifted [of i a a sh sf "setx a u m" for u] exec_add_regs [of a b r sf "setx a u m" for u] assms(1-7)
    by (intro exI [of _ "c @ emit_add_sub_shifted_reg sf 0 0 0 (int i) sh (int a) (int a) @ emit_add_reg sf (int r) (int b) (int a)"]
        exI [of _ "take_bit (aw sf) (take_bit (aw sf) disp + push_bit (nat sh) (xreg m i))"]) (simp add: base_index_sum_def exec_append emit_emit)
qed

lemma addr_base_index_ok:
  assumes "dst_ok dst t" "sf \<in> {0, 1}" "base_reg op < 0x50" "index_reg op < 0x50" "shift_amount op < 4" "has_base op" "has_index op"
  shows "leaves (addr_base_index sf op dst t) dst t m (ea sf op m)"
proof -
  let ?b = "gidx (base_reg op)" and ?i = "gidx (index_reg op)" and ?sh = "uint (shift_amount op)" and ?disp = "payload op"
  note sh = shift_small [OF assms(5)]
  have b: "?b < 22" "?i < 22" using gidx(2) [of "base_reg op"] gidx(2) [of "index_reg op"] by simp_all
  have g: "\<not> (0x50 \<le> base_reg op \<or> 0x50 \<le> index_reg op)" using assms(3,4) by (simp add: not_le)
  note d = addr_base_index_def [of sf op dst t, unfolded Let_def if_not_P [OF g] gidx(1)]
  show ?thesis
  proof (cases "?disp = 0")
    case True
    have "leaves (do { (r, t1) \<leftarrow> dst_or_scratch dst t; Some (r, emit (emit_add_sub_shifted_reg sf 0 0 0 (int ?i) ?sh (int ?b) r) t1) }) dst t m (ea sf op m)"
      using sh b exec_add_shifted [of ?i ?b _ ?sh sf m] assms(6,7) True by (intro leaves_one [OF assms(1)]) (simp add: ea_def)
    then show ?thesis unfolding d using True by simp
  next
    case False
    have "leaves (do { (a, r, t1) \<leftarrow> scratch_pair dst t; t2 \<leftarrow> base_index_sum sf ?disp (int ?b) (int ?i) ?sh a r t1; finish_pair a r t2 }) dst t m (ea sf op m)"
      using base_index_sum_ok [OF _ _ _ b _ _ assms(2) False, of _ _ ?sh _ m] sh assms(6,7) by (intro leaves_pair [OF assms(1)]) (simp add: ea_def)
    then show ?thesis unfolding d using False by simp
  qed
qed

lemma addr_base_ok:
  assumes "dst_ok dst t" "sf \<in> {0, 1}" "base_reg op < 0x50" "has_base op" "\<not> has_index op"
  shows "leaves (addr_base sf op dst t) dst t m (ea sf op m)"
proof -
  let ?b = "gidx (base_reg op)" and ?disp = "payload op"
  have b: "?b < 22" using gidx(2) [of "base_reg op"] by simp
  have g: "\<not> 0x50 \<le> base_reg op" using assms(3) by (simp add: not_le)
  have ea: "ea sf op m = take_bit (aw sf) (xreg m ?b + ?disp)" using assms(4,5) by (simp add: ea_def)
  note d = addr_base_def [of sf op dst t, unfolded Let_def if_not_P [OF g] gidx(1)]
  consider "?disp = 0" "sf = 0" | "?disp = 0" "sf = 1" | s h v where "?disp \<noteq> 0" "disp_imm ?disp = Some (s, h, v)" | "?disp \<noteq> 0" "disp_imm ?disp = None"
    using assms(2) by (cases "disp_imm ?disp") auto
  then show ?thesis
  proof cases
    case 1
    have "leaves (do { (r, t1) \<leftarrow> dst_or_scratch dst t; Some (r, emit (emit_mov_reg 0 r (int ?b)) t1) }) dst t m (ea sf op m)"
      unfolding ea using b exec_mov_w [of ?b _ m] 1 by (intro leaves_one [OF assms(1)]) simp
    then show ?thesis unfolding d using 1 by simp
  next
    case 2
    have "\<not> bit (free_gpr_mask t) ?b" using assms(1) gidx(2) [of "base_reg op"] by (auto simp: dst_ok_def pool_ok_iff)
    then show ?thesis unfolding d leaves_def using 2 b ea gidx(2) [of "base_reg op"]
      by (intro exI [of _ ?b] exI [of _ "[]"] exI [of _ "free_gpr_mask t"]) (auto simp: emit_def take_bit_word_eq_self)
  next
    case 3
    have "leaves (do { (r, t1) \<leftarrow> dst_or_scratch dst t; Some (r, emit (emit_add_imm sf (of_bool (\<not> s)) 0 h (uint v) (int ?b) r) t1) }) dst t m (ea sf op m)"
      using exec_add_disp [of ?b _ ?disp s h v sf m] 3 b by (intro leaves_one [OF assms(1)]) (simp add: ea)
    then show ?thesis unfolding d using 3 by simp
  next
    case 4
    have "leaves (do { (a, r, t1) \<leftarrow> scratch_pair dst t; t2 \<leftarrow> emit_load_immediate_no_xzr sf ?disp a t1;
        finish_pair a r (emit (emit_add_reg sf r (int ?b) a) t2) }) dst t m (ea sf op m)"
      using exec_add_regs [of _ ?b _ sf] b by (intro leaves_load [OF assms(1,2) 4(1)]) (simp add: ea)
    then show ?thesis unfolding d using 4 by simp
  qed
qed

lemma addr_index_ok:
  assumes "dst_ok dst t" "sf \<in> {0, 1}" "index_reg op < 0x50" "shift_amount op < 4" "\<not> has_base op" "has_index op"
  shows "leaves (addr_index sf op dst t) dst t m (ea sf op m)"
proof -
  let ?i = "gidx (index_reg op)" and ?sh = "uint (shift_amount op)" and ?disp = "payload op"
  note sh = shift_small [OF assms(4)]
  have i: "?i < 22" using gidx(2) [of "index_reg op"] by simp
  have g: "\<not> 0x50 \<le> index_reg op" using assms(3) by (simp add: not_le)
  have ea: "ea sf op m = take_bit (aw sf) (push_bit (unat (shift_amount op)) (xreg m ?i) + ?disp)" using assms(5,6) by (simp add: ea_def)
  note d = addr_index_def [of sf op dst t, unfolded Let_def if_not_P [OF g] gidx(1)]
  consider "?disp \<noteq> 0" | "?disp = 0" "?sh \<noteq> 0" | "?disp = 0" "?sh = 0" "sf = 1" | "?disp = 0" "?sh = 0" "sf = 0" using assms(2) by auto
  then show ?thesis
  proof cases
    case 1
    have "leaves (do { (a, r, t1) \<leftarrow> scratch_pair dst t; t2 \<leftarrow> emit_load_immediate_no_xzr sf ?disp a t1;
        finish_pair a r (emit (emit_add_sub_shifted_reg sf 0 0 0 (int ?i) ?sh a r) t2) }) dst t m (ea sf op m)"
      using exec_add_shifted [of ?i _ _ ?sh sf] i sh by (intro leaves_load [OF assms(1,2) 1]) (simp add: ea ac_simps)
    then show ?thesis unfolding d using 1 by simp
  next
    case 2
    then have "0 < ?sh" "?sh < 32" using sh by (simp_all add: order_less_le)
    then have "leaves (do { (r, t1) \<leftarrow> dst_or_scratch dst t; Some (r, emit (emit_bitfield sf 2 (if sf \<noteq> 0 then 1 else 0)
        ((if sf \<noteq> 0 then 64 else 32) - ?sh) ((if sf \<noteq> 0 then 64 else 32) - ?sh - 1) (int ?i) r) t1) }) dst t m (ea sf op m)"
      unfolding ea using exec_lsl [of ?i _ ?sh sf m] i sh 2(1) by (intro leaves_one [OF assms(1)]) (simp only: add_0_right)
    then show ?thesis unfolding d using 2 by simp
  next
    case 3
    have "\<not> bit (free_gpr_mask t) ?i" using assms(1) gidx(2) [of "index_reg op"] by (auto simp: dst_ok_def pool_ok_iff)
    moreover have "unat (shift_amount op) = 0" using 3(2) sh by simp
    ultimately show ?thesis unfolding d leaves_def using 3 i ea gidx(2) [of "index_reg op"]
      by (intro exI [of _ ?i] exI [of _ "[]"] exI [of _ "free_gpr_mask t"]) (auto simp: emit_def take_bit_word_eq_self)
  next
    case 4
    have "leaves (do { (r, t1) \<leftarrow> dst_or_scratch dst t; Some (r, emit (emit_mov_reg 0 r (int ?i)) t1) }) dst t m (ea sf op m)"
      unfolding ea using i exec_mov_w [of ?i _ m] 4 sh by (intro leaves_one [OF assms(1)]) simp
    then show ?thesis unfolding d using 4 by simp
  qed
qed

lemma addr_disp_ok:
  assumes "dst_ok dst t" "sf \<in> {0, 1}" "\<not> has_base op" "\<not> has_index op"
  shows "leaves (addr_disp sf op dst t) dst t m (ea sf op m)"
proof (cases "payload op = 0")
  case True
  have "exec (emit_movn 0 2 0 0 (int r)) m = Some (setx r 0 m)" if "r < 31" for r
    using exec_move_wide [OF that, of 2 0 0 0 m] by (simp add: move_wide_def)
  then show ?thesis using True assms(3,4) by (auto simp: addr_disp_def ea_def intro!: leaves_one [OF assms(1)])
next
  case False
  have "leaves (do { (r, t1) \<leftarrow> dst_or_scratch dst t; Some (r, emit (the (load_code sf (payload op) r)) t1) }) dst t m (ea sf op m)"
  proof (rule leaves_one [OF assms(1)])
    fix r :: nat assume "r < 31"
    then have "execo (load_code sf (payload op) (int r)) m = Some (setx r (ea sf op m) m)"
      using load_code_exec [OF _ assms(2), of r "payload op" m] assms(2-4) by (auto simp: ea_def)
    then show "exec (the (load_code sf (payload op) (int r))) m = Some (setx r (ea sf op m) m)" using execo_code by fastforce
  qed
  moreover have "addr_disp sf op dst t = do { (r, t1) \<leftarrow> dst_or_scratch dst t; Some (r, emit (the (load_code sf (payload op) r)) t1) }"
  proof -
    obtain r f where r: "dst_or_scratch dst t = Some (int r, with_mask t f)" "r < 31" by (rule dst_or_scratch_ok [OF assms(1)]) blast
    then have "execo (load_code sf (payload op) (int r)) m = Some (setx r (take_bit (width (sf = 1)) (payload op)) m)"
      by (intro load_code_exec [OF _ assms(2)])
    then obtain c where "load_code sf (payload op) (int r) = Some c" using execo_code by blast
    then show ?thesis using r False by (simp add: addr_disp_def emit_load_immediate_def dst_or_scratch_def [symmetric] emit_opt_def)
  qed
  ultimately show ?thesis by simp
qed

lemma mem_operand_address_ok:
  assumes "dst_ok dst t" "sf \<in> {0, 1}" "has_base op \<Longrightarrow> base_reg op < 0x50" "has_index op \<Longrightarrow> index_reg op < 0x50 \<and> shift_amount op < 4"
  shows "leaves (compute_mem_operand_address sf op dst t) dst t m (ea sf op m)"
  using addr_base_index_ok [OF assms(1,2)] addr_base_ok [OF assms(1,2)] addr_index_ok [OF assms(1,2)] addr_disp_ok [OF assms(1,2)] assms(3,4)
  unfolding compute_mem_operand_address_def by presburger

section \<open>Floating-point accesses\<close>

definition fp_access :: "nat \<Rightarrow> int \<Rightarrow> nat \<Rightarrow> u64 \<Rightarrow> a64 \<Rightarrow> a64" where
  "fp_access size1 ld d a m =
     (if ld \<noteq> 0 then wrv d (ldn (2 ^ size1) (amem m) a) m else setm (stn (2 ^ size1) (amem m) a (vreg m d)) m)"

lemma exec_fp_scaled:
  assumes "n < 31" "d < 32" "size1 < 4" "ld \<in> {0, 1}" "0 \<le> imm" "imm < 4096"
  shows "exec (emit_ldr_str_imm (int size1) 1 ld imm (int n) (int d)) m = Some (fp_access size1 ld d (xreg m n + word_of_int (imm * 2 ^ size1)) m)"
proof -
  obtain j where j: "imm = int j" "j < 4096" using assms(5,6) by (cases imm) auto
  have "lo 2 (int size1) = size1" "lo 2 ld = nat ld" "lo 12 imm = j" "lo 5 (int d) = d" using assms j by (auto simp: lo_small)
  moreover have "(word_of_nat (j * 2 ^ size1) :: u64) = word_of_int (imm * 2 ^ size1)" unfolding j(1) by simp
  ultimately show ?thesis using assms
    by (auto simp: exec_decoded(2) [OF dec_ldr_str_imm] effective_opc_def ldst_def Let_def rdx_gpr fp_access_def setm_def)
qed

lemma exec_fp_unscaled:
  assumes "n < 31" "d < 32" "size1 < 4" "ld \<in> {0, 1}" "- 256 \<le> off" "off \<le> 255"
  shows "exec (emit_fldur_fstur (int size1) ld off (int n) (int d)) m = Some (fp_access size1 ld d (xreg m n + word_of_int off) m)"
proof -
  have "lo 2 (int size1) = size1" "lo 5 (int d) = d" using assms by auto
  moreover have "signed_take_bit 8 off = off" using assms(5,6) by (intro signed_take_bit_int_eq_self) auto
  ultimately show ?thesis using assms
    by (auto simp: exec_decoded(2) [OF dec_fldur_fstur] ldst_def Let_def rdx_gpr fp_access_def setm_def)
qed

lemma exec_fp_folded:
  assumes "n < 31" "d < 32" "size1 < 4" "ld \<in> {0, 1}" "classify_ldst_disp disp size1 \<noteq> 0"
  shows "exec (if classify_ldst_disp disp size1 = 1 then emit_ldr_str_imm (int size1) 1 ld (disp div 2 ^ size1) (int n) (int d)
    else emit_fldur_fstur (int size1) ld disp (int n) (int d)) m = Some (fp_access size1 ld d (xreg m n + word_of_int disp) m)"
proof (cases "classify_ldst_disp disp size1 = 1")
  case True
  then have c: "0 \<le> disp" "disp mod 2 ^ size1 = 0" "disp div 2 ^ size1 \<le> 4095" by (auto simp: classify_ldst_disp_def split: if_splits)
  then have "disp div 2 ^ size1 * 2 ^ size1 = disp" "0 \<le> disp div 2 ^ size1" by (simp_all add: dvd_eq_mod_eq_0 pos_imp_zdiv_nonneg_iff)
  then show ?thesis using True c(3) exec_fp_scaled [OF assms(1-4), of "disp div 2 ^ size1" m] by (simp del: wi_hom_mult)
next
  case False
  then have "- 256 \<le> disp" "disp \<le> 255" using assms(5) by (auto simp: classify_ldst_disp_def split: if_splits)
  then show ?thesis using False exec_fp_unscaled [OF assms(1-4), of disp m] by simp
qed

text \<open>The address width of an operand, asked for in 64 bits.\<close>

definition addr64 :: "IROperand \<Rightarrow> int" where
  "addr64 op = of_bool (addr_size op = S64)"

lemma operand_address_ok:
  assumes "kind op = KMemRef" "seg_override op = 0" "addr_size op < 4" "dst_ok dst t"
    "has_base op \<Longrightarrow> base_reg op < 0x50" "has_index op \<Longrightarrow> index_reg op < 0x50 \<and> shift_amount op < 4"
  shows "leaves (compute_operand_address 1 op dst t) dst t m (ea (addr64 op) op m)"
  using mem_operand_address_ok [OF assms(4) _ assms(5,6), of "addr64 op" m] assms(1-3)
  by (simp add: compute_operand_address_def operand_address_def addr64_def not_le [symmetric])

lemma free_returned:
  assumes "pool_ok (free_gpr_mask t)" "r < 31" "\<And>i. bit f i \<longleftrightarrow> bit (free_gpr_mask t) i \<and> i \<noteq> r" "bit (free_gpr_mask t) r \<or> r < 16"
  shows "tr_free_gpr (int r) (emit c (with_mask t f)) = Some (emit c t)"
proof (cases "22 \<le> r \<and> r < 30")
  case True
  then have "f OR push_bit r 1 = free_gpr_mask t"
    using assms(3,4) by (intro bit_word_eqI) (auto simp: bit_or_iff bit_reg push_bit_eq_mult)
  then show ?thesis using True free_gpr_spec [of r f] by (simp add: tr_free_gpr_def emit_def)
next
  case False
  then have "\<not> bit (free_gpr_mask t) r" using assms(1) by (auto simp: pool_ok_iff)
  then have "f = free_gpr_mask t" using assms(3) by (intro bit_word_eqI) auto
  then show ?thesis using False bit_and_pool [of r] assms(2) by (simp add: tr_free_gpr_def free_gpr_def emit_def)
qed

lemma free_guest: "b < 16 \<Longrightarrow> tr_free_gpr (int b) t = Some t"
  using bit_and_pool [of b] by (simp add: tr_free_gpr_def free_gpr_def)

text \<open>The folded forms address the same byte as the computed address.\<close>

lemma folded_address:
  assumes "mem_flags op = 1" "addr_size op = S64"
  shows "ea (addr64 op) op m = xreg m (gidx (base_reg op)) + word_of_int (sint (payload op))"
  using assms by (simp add: ea_def addr64_def take_bit_word_eq_self)

lemma fp_mem_access_ok:
  assumes "kind op = KMemRef" "seg_override op = 0" "addr_size op < 4" "pool_ok (free_gpr_mask t)" "free_gpr_mask t \<noteq> 0"
    "has_base op \<Longrightarrow> base_reg op < 0x50" "has_index op \<Longrightarrow> index_reg op < 0x50 \<and> shift_amount op < 4" "size1 < 4" "d < 32" "ld \<in> {0, 1}"
  shows "\<exists>c k. emit_fp_mem_access 1 op size1 ld (int d) t = Some (emit c t) \<and> exec c m = Some (fp_access size1 ld d (ea (addr64 op) op m) k) \<and>
    k\<lparr>xreg := xreg m\<rparr> = m \<and> (\<forall>q. \<not> bit (free_gpr_mask t) q \<longrightarrow> xreg k q = xreg m q)"
proof -
  let ?disp = "sint (payload op)" and ?b = "gidx (base_reg op)"
  have imm: "(if ld \<noteq> 0 then emit_fldr_imm (int size1) (int d) n x else emit_fstr_imm (int size1) (int d) n x) = emit_ldr_str_imm (int size1) 1 ld x n (int d)" for n x
    using assms(10) by (auto simp: emit_fldr_imm_def emit_fstr_imm_def)
  show ?thesis
  proof (cases "\<not> disable_addr_fold t \<and> addr_size op = S64 \<and> mem_flags op = 1 \<and> base_reg op < 0x50 \<and> classify_ldst_disp ?disp size1 \<noteq> 0")
    case True
    let ?cls = "classify_ldst_disp ?disp size1"
    let ?c = "if ?cls = 1 then emit_ldr_str_imm (int size1) 1 ld (?disp div 2 ^ size1) (int ?b) (int d) else emit_fldur_fstur (int size1) ld ?disp (int ?b) (int d)"
    have "emit_fp_mem_access 1 op size1 ld (int d) t = Some (emit ?c t)"
      using True assms(1,2) imm gidx(2) [of "base_reg op"]
      by (auto simp: emit_fp_mem_access_def compute_operand_access_def Let_def gidx(1) free_guest)
    moreover have "exec ?c m = Some (fp_access size1 ld d (ea (addr64 op) op m) m)"
      unfolding folded_address [OF True [THEN conjunct2, THEN conjunct2, THEN conjunct1] True [THEN conjunct2, THEN conjunct1]]
      using True gidx(2) [of "base_reg op"] by (intro exec_fp_folded [OF _ assms(9,8,10)]) auto
    ultimately show ?thesis by (intro exI [of _ ?c] exI [of _ m]) simp
  next
    case False
    have "leaves (compute_operand_address 1 op XZR t) XZR t m (ea (addr64 op) op m)"
      using assms(4,5) by (intro operand_address_ok [OF assms(1-3) _ assms(6,7)]) (simp_all add: dst_ok_def)
    then obtain r c f k where r: "compute_operand_address 1 op XZR t = Some (int r, emit c (with_mask t f))" "r < 31"
      "bit (free_gpr_mask t) r \<or> r < 16" "exec c m = Some k" "xreg k r = ea (addr64 op) op m" "k\<lparr>xreg := xreg m\<rparr> = m"
      "\<And>q. \<not> bit (free_gpr_mask t) q \<Longrightarrow> xreg k q = xreg m q" "\<And>i. bit f i \<longleftrightarrow> bit (free_gpr_mask t) i \<and> i \<noteq> r"
      unfolding leaves_def by auto
    let ?c = "emit_ldr_str_imm (int size1) 1 ld 0 (int r) (int d)"
    have acc: "compute_operand_access 1 op size1 0 0 t = Some (\<lparr>acc_base = int r, acc_offset = 0, acc_enc = FullEA\<rparr>, emit c (with_mask t f))"
      using False r(1) assms(1,2) by (auto simp: compute_operand_access_def Let_def)
    have "emit_fp_mem_access 1 op size1 ld (int d) t = Some (emit (c @ ?c) t)"
      using free_returned [OF assms(4) r(2,8,3), of "c @ ?c"] by (simp add: emit_fp_mem_access_def acc Let_def imm emit_emit)
    moreover have "exec (c @ ?c) m = Some (fp_access size1 ld d (ea (addr64 op) op m) k)"
      using exec_fp_scaled [OF r(2) assms(9,8,10), of 0 k] r(4,5) by (simp add: exec_append)
    ultimately show ?thesis using r(6,7) by (intro exI [of _ "c @ ?c"] exI [of _ k]) simp
  qed
qed

text \<open>
  (C38) A floating-point operand is loaded from, or stored to, its effective address: base plus scaled
  index plus displacement, truncated to the operand's address width, with the displacement folded into
  the access or computed into a scratch register first. Guest registers are not written, and every
  scratch register taken is back in the pool.
\<close>

theorem operand_access_reaches:
  assumes "kind op = KMemRef" "seg_override op = 0" "addr_size op < 4" "pool_ok (free_gpr_mask t)" "free_gpr_mask t \<noteq> 0"
    "has_base op \<Longrightarrow> base_reg op < 0x50" "has_index op \<Longrightarrow> index_reg op < 0x50 \<and> shift_amount op < 4" "size1 < 4" "d < 32"
  shows "(\<exists>c k. emit_fp_mem_access 1 op size1 1 (int d) t = Some (emit c t) \<and> exec c m = Some k \<and>
      vreg k = (vreg m)(d := ldn (2 ^ size1) (amem m) (ea (addr64 op) op m)) \<and> amem k = amem m \<and>
      (\<forall>q. \<not> bit (free_gpr_mask t) q \<longrightarrow> xreg k q = xreg m q)) \<and>
    (\<exists>c k. emit_fp_mem_access 1 op size1 0 (int d) t = Some (emit c t) \<and> exec c m = Some k \<and>
      amem k = stn (2 ^ size1) (amem m) (ea (addr64 op) op m) (vreg m d) \<and> vreg k = vreg m \<and>
      (\<forall>q. \<not> bit (free_gpr_mask t) q \<longrightarrow> xreg k q = xreg m q))"
proof -
  have ok: "\<exists>c k. emit_fp_mem_access 1 op size1 ld (int d) t = Some (emit c t) \<and> exec c m = Some (fp_access size1 ld d (ea (addr64 op) op m) k) \<and>
      k\<lparr>xreg := xreg m\<rparr> = m \<and> (\<forall>q. \<not> bit (free_gpr_mask t) q \<longrightarrow> xreg k q = xreg m q)" if "ld \<in> {0, 1}" for ld
    using assms(6,7) that by (intro fp_mem_access_ok [OF assms(1-5) _ _ assms(8,9)]) auto
  have same: "vreg k = vreg m \<and> amem k = amem m" if "k\<lparr>xreg := xreg m\<rparr> = m" for k using that by (cases k, cases m) auto
  have out: "\<exists>c k. emit_fp_mem_access 1 op size1 ld (int d) t = Some (emit c t) \<and> exec c m = Some k \<and> P k \<and>
      (\<forall>q. \<not> bit (free_gpr_mask t) q \<longrightarrow> xreg k q = xreg m q)"
    if l: "ld \<in> {0, 1}" and P: "\<And>k. vreg k = vreg m \<Longrightarrow> amem k = amem m \<Longrightarrow> P (fp_access size1 ld d (ea (addr64 op) op m) k)" for ld P
  proof -
    obtain c k where "emit_fp_mem_access 1 op size1 ld (int d) t = Some (emit c t)" "exec c m = Some (fp_access size1 ld d (ea (addr64 op) op m) k)"
      "k\<lparr>xreg := xreg m\<rparr> = m" "\<forall>q. \<not> bit (free_gpr_mask t) q \<longrightarrow> xreg k q = xreg m q"
      using ok [OF l] by (elim exE conjE)
    moreover have "xreg (fp_access size1 ld d (ea (addr64 op) op m) k) = xreg k" by (simp add: fp_access_def wrv_def setm_def)
    ultimately show ?thesis using P [of k] same [of k]
      by (intro exI [of _ c] exI [of _ "fp_access size1 ld d (ea (addr64 op) op m) k"] conjI) (simp_all only:)
  qed
  show ?thesis
    using out [of 1 "\<lambda>k. vreg k = (vreg m)(d := ldn (2 ^ size1) (amem m) (ea (addr64 op) op m)) \<and> amem k = amem m"]
      out [of 0 "\<lambda>k. amem k = stn (2 ^ size1) (amem m) (ea (addr64 op) op m) (vreg m d) \<and> vreg k = vreg m"]
    by (simp add: fp_access_def)
qed

definition fresh_translation :: TranslationResult where
  "fresh_translation = \<lparr>insn_buf = [], fixups = [], external_fixups = [], free_gpr_mask = kGprScratchMask, free_fpr_mask = kFprScratchMask,
     unoccupied_temporary_fprs = kFprScratchMask, prev_block = 0,
     x87_cache = X87Cache_new, x87_state_offset = 0x1234, tco_field_8 = 0, translator_variant = 0, extended_fpr_scratch = False,
     disable_addr_fold = False\<rparr>"

text \<open>\<open>[rbx + rcx * 8 + 0x12345]\<close>, with a displacement that no immediate holds.\<close>

definition sample_operand :: IROperand where
  "sample_operand = \<lparr>kind = KMemRef, osize = S64, obyte2 = S64, seg_override = 0, mem_flags = 3, base_reg = 3, index_reg = 1, shift_amount = 3,
     payload = 0x12345\<rparr>"

theorem operand_access_reaches_witness:
  "\<forall>m. \<exists>c k. emit_fp_mem_access 1 sample_operand 3 1 30 fresh_translation = Some (emit c fresh_translation) \<and> exec c m = Some k \<and>
      vreg k 30 = ldn 8 (amem m) (xreg m 3 + push_bit 3 (xreg m 1) + 0x12345)"
proof
  fix m
  have "pool_ok kGprScratchMask" "kGprScratchMask \<noteq> 0" by (simp_all add: pool_ok_def kGprScratchMask_def)
  moreover have "gidx 3 = 3" "gidx 1 = 1" by (simp_all add: gidx_def)
  then have "ea (addr64 sample_operand) sample_operand m = xreg m 3 + push_bit 3 (xreg m 1) + 0x12345"
    by (simp add: ea_def addr64_def sample_operand_def take_bit_word_eq_self)
  ultimately show "\<exists>c k. emit_fp_mem_access 1 sample_operand 3 1 30 fresh_translation = Some (emit c fresh_translation) \<and> exec c m = Some k \<and>
      vreg k 30 = ldn 8 (amem m) (xreg m 3 + push_bit 3 (xreg m 1) + 0x12345)"
    using operand_access_reaches [of sample_operand fresh_translation 3 30 m] by (auto simp: sample_operand_def fresh_translation_def)
qed

end
