(* ===== verification/DirectRep.thy ===== *)
theory DirectRep
  imports DirectX87 EmitX87Regs OperandAddr
begin

text \<open>
  What the memory, the TOP register and the run cache together stand for: TOP may be newer in its
  register than in the status word, tags of pushed or popped registers may be missing from the tag
  word, and the registers may lie in memory in another order. The flushes keep the state that is stood
  for; deferred pushes and pops change it as the runtime's do.
\<close>

section \<open>The represented state\<close>

definition dpushes :: "X87Cache \<Rightarrow> nat" where "dpushes C = nat (deferred_push_count C)"
definition dpops :: "X87Cache \<Rightarrow> nat" where "dpops C = nat (deferred_pop_count C)"

text \<open>Status and control word: \<open>d\<close> tells that TOP in memory is stale, by the \<open>n\<close> deferred pushes if there are any.\<close>

definition word_rep :: "bool \<Rightarrow> nat \<Rightarrow> xview \<Rightarrow> X87State \<Rightarrow> bool" where
  "word_rep d n v s \<longleftrightarrow> xtop v < 8 \<and> controlWord s = controlWord (xs v) \<and> statusWord s = with_top (statusWord (xs v)) (xtop v) \<and>
     (\<not> d \<longrightarrow> topIndex (xs v) = xtop v) \<and> (0 < n \<longrightarrow> d \<and> topIndex (xs v) = (xtop v + of_nat n) AND 7)"

text \<open>
  The tag word, with \<open>n\<close> pushes or \<open>k\<close> pops outstanding. The slots pushed to were empty: a pop that
  cancels a push leaves the tag in memory as it was.
\<close>

definition tag_rep :: "nat \<Rightarrow> nat \<Rightarrow> xview \<Rightarrow> X87State \<Rightarrow> bool" where
  "tag_rep n k v s \<longleftrightarrow> n \<le> 8 \<and> (n = 0 \<or> k = 0) \<and>
     (\<forall>i < 16. in_slots (unat (xtop v)) n (i div 2) \<longrightarrow> bit (tagWord (xs v)) i) \<and>
     (\<forall>i < 16. bit (tagWord s) i \<longleftrightarrow> bit (tagWord (xs v)) i \<and> \<not> in_slots (unat (xtop v)) n (i div 2) \<or>
        in_slots (unat (xtop v) + 7 * k) k (i div 2))"

definition perm_ok :: "int list \<Rightarrow> bool" where
  "perm_ok p \<longleftrightarrow> length p = 8 \<and> (\<forall>x < 8. 0 \<le> p ! x \<and> p ! x < 8) \<and> distinct p"

definition regs_rep :: "int list \<Rightarrow> xview \<Rightarrow> X87State \<Rightarrow> bool" where
  "regs_rep p v s \<longleftrightarrow> perm_ok p \<and> length (st s) = 8 \<and> length (st (xs v)) = 8 \<and> (\<forall>i < 8. st s ! slot v i = R v (pn p i))"

abbreviation identity_perm :: "int list" where "identity_perm \<equiv> map int [0..<8]"

definition rep :: "X87Cache \<Rightarrow> xview \<Rightarrow> X87State \<Rightarrow> bool" where
  "rep C v s \<longleftrightarrow> word_rep (top_dirty C \<noteq> 0) (dpushes C) v s \<and> tag_rep (dpushes C) (dpops C) v s \<and> regs_rep (perm C) v s"

text \<open>What the cache alone satisfies.\<close>

definition cache_ok :: "X87Cache \<Rightarrow> bool" where
  "cache_ok C \<longleftrightarrow> 0 \<le> deferred_push_count C \<and> deferred_push_count C \<le> 8 \<and> 0 \<le> deferred_pop_count C \<and> deferred_pop_count C < 128 \<and>
     (0 < deferred_push_count C \<longrightarrow> deferred_pop_count C = 0 \<and> top_dirty C \<noteq> 0) \<and> perm_ok (perm C) \<and> (perm_dirty C = 0 \<longrightarrow> perm C = identity_perm)"

lemma word_rep_top: "word_rep d n v s \<Longrightarrow> topIndex s = xtop v"
  unfolding word_rep_def using topIndex_with_top and7_id by metis

lemma rep_top: "rep C v s \<Longrightarrow> topIndex s = xtop v"
  by (auto simp: rep_def dest: word_rep_top)

lemma regs_rep_id: "regs_rep identity_perm v s \<longleftrightarrow> length (st (xs v)) = 8 \<and> st s = st (xs v)"
proof
  assume h: "regs_rep identity_perm v s"
  have "st s ! q = st (xs v) ! q" if q: "q < 8" for q
  proof -
    define i where "i = (q + 7 * unat (xtop v)) mod 8"
    have "(unat (xtop v) + i) mod 8 = (q + 8 * unat (xtop v)) mod 8" unfolding i_def by (simp add: mod_simps algebra_simps)
    then have "slot v i = q" using q by (simp add: slot_def)
    moreover have "i < 8" by (simp add: i_def)
    ultimately show ?thesis using h by (auto simp: regs_rep_def R_def)
  qed
  then show "length (st (xs v)) = 8 \<and> st s = st (xs v)" using h by (auto simp: regs_rep_def intro: nth_equalityI)
next
  assume "length (st (xs v)) = 8 \<and> st s = st (xs v)"
  then show "regs_rep identity_perm v s" by (simp add: regs_rep_def perm_ok_def R_def distinct_map)
qed

text \<open>Nothing is outstanding: memory is the state.\<close>

lemma rep_clean:
  assumes "rep C v s" "top_dirty C = 0" "dpushes C = 0" "dpops C = 0" "perm C = identity_perm"
  shows "xs v = s"
proof -
  have "statusWord s = statusWord (xs v)" "controlWord s = controlWord (xs v)"
    using assms(1,2) with_topIndex [of "xs v"] by (auto simp: rep_def word_rep_def)
  moreover have "tagWord s = tagWord (xs v)"
    using assms(1,3,4) by (intro bit_word_eqI) (simp add: rep_def tag_rep_def)
  moreover have "st s = st (xs v)" using assms(1,5) regs_rep_id by (auto simp: rep_def)
  ultimately show ?thesis by simp
qed

section \<open>Flushes\<close>

lemma word_rep_flush:
  assumes "word_rep d 0 v s"
  shows "word_rep False 0 (v\<lparr>xs := (xs v)\<lparr>statusWord := with_top (statusWord (xs v)) (xtop v)\<rparr>\<rparr>) s"
  using assms by (simp add: word_rep_def) (metis X87State.select_convs(2) and7_id topIndex_with_top X87State.update_convs(2) X87State.surjective)

lemma tag_rep_words: "tag_rep n k v s \<Longrightarrow> tag_rep n k (v\<lparr>xs := (xs v)\<lparr>statusWord := w\<rparr>\<rparr>) s"
  by (simp add: tag_rep_def)

lemma regs_rep_words:
  "regs_rep p v s \<Longrightarrow> regs_rep p (v\<lparr>xs := (xs v)\<lparr>statusWord := w\<rparr>\<rparr>) s"
  "regs_rep p v s \<Longrightarrow> regs_rep p (v\<lparr>xs := (xs v)\<lparr>tagWord := w\<rparr>\<rparr>) s"
  by (simp_all add: regs_rep_def R_def)

lemma word_rep_tags: "word_rep d n v s \<Longrightarrow> word_rep d n (v\<lparr>xs := (xs v)\<lparr>tagWord := w\<rparr>\<rparr>) s"
  by (simp add: word_rep_def topIndex_def)

lemma word_rep_weaken: "word_rep d n v s \<Longrightarrow> word_rep d 0 v s"
  by (simp add: word_rep_def)

lemma rep_flush_top:
  assumes "rep C v s" "dpushes C = 0"
  shows "rep (C\<lparr>top_dirty := 0\<rparr>) (v\<lparr>xs := (xs v)\<lparr>statusWord := with_top (statusWord (xs v)) (xtop v)\<rparr>\<rparr>) s"
  using assms word_rep_flush tag_rep_words regs_rep_words(1) by (auto simp: rep_def dpushes_def dpops_def)

lemma unat_back: "unat ((t - of_nat m) AND 7) = (unat t + 7 * m) mod 8" for t :: u32
proof -
  have "(unat ((t - of_nat m) AND 7) + m) mod 8 = unat t mod 8"
    using unat_slot [of "t - of_nat m" m] by (simp add: unat_and7 mod_simps)
  also have "\<dots> = (unat t + 7 * m + m) mod 8" by (simp add: mod_simps algebra_simps)
  finally show ?thesis using mod8_cancel [of "unat ((t - of_nat m) AND 7)" m "unat t + 7 * m"] by (simp add: unat_and7)
qed

lemma rep_flush_pops:
  assumes "rep C v s" "n = dpops C" "dpushes C = 0"
  shows "rep (C\<lparr>deferred_pop_count := 0\<rparr>) (v\<lparr>xs := (xs v)\<lparr>tagWord := fold (\<lambda>i. tag_set ((xtop v - of_nat (n - i)) AND 7)) [0..<n] (tagWord (xs v))\<rparr>\<rparr>) s"
proof -
  have "(\<exists>i \<in> set [0..<n]. q = unat ((xtop v - of_nat (n - i)) AND 7)) \<longleftrightarrow> in_slots (unat (xtop v) + 7 * n) n q" for q
  proof -
    have "(unat (xtop v) + 7 * (n - i)) mod 8 = (unat (xtop v) + 7 * n + i) mod 8" if "i < n" for i
    proof -
      have "unat (xtop v) + 7 * n + i = unat (xtop v) + 7 * (n - i) + 8 * i" using that by simp
      then show ?thesis by simp
    qed
    then show ?thesis unfolding unat_back in_slots_def by force
  qed
  then have "bit (fold (\<lambda>i. tag_set ((xtop v - of_nat (n - i)) AND 7)) [0..<n] (tagWord (xs v))) q \<longleftrightarrow>
      bit (tagWord (xs v)) q \<or> in_slots (unat (xtop v) + 7 * n) n (q div 2)" for q
    by (subst bit_fold_tag_set) simp_all
  then show ?thesis using assms word_rep_tags regs_rep_words(2)
    by (auto simp: rep_def tag_rep_def dpops_def dpushes_def)
qed

lemma rep_flush_pushes:
  assumes "rep C v s" "n = dpushes C"
  shows "rep (C\<lparr>deferred_push_count := 0\<rparr>) (v\<lparr>xs := (xs v)\<lparr>tagWord := tagWord (xs v) AND NOT
       (let k = push_bit (unat (xtop v) * 2) (ucast (batch_mask n)) :: u32 in ucast (k OR drop_bit 16 k))\<rparr>\<rparr>) s"
proof -
  have "n \<le> 8" "unat (xtop v) < 8" using assms by (auto simp: rep_def tag_rep_def word_rep_def unat_below)
  note b = bit_wrapped [OF this]
  define M :: u16 where "M = (let k = push_bit (unat (xtop v) * 2) (ucast (batch_mask n)) :: u32 in ucast (k OR drop_bit 16 k))"
  have "bit M i \<longleftrightarrow> i < 16 \<and> in_slots (unat (xtop v)) n (i div 2)" for i unfolding M_def by (rule b)
  then show ?thesis unfolding M_def [symmetric] using assms word_rep_tags [OF word_rep_weaken] regs_rep_words(2)
    by (auto simp: rep_def tag_rep_def dpops_def dpushes_def bit_and_iff bit_not_iff)
qed

lemma rep_flush_push1:
  assumes "rep C v s" "dpushes C = 1"
  shows "rep (C\<lparr>deferred_push_count := 0\<rparr>) (v\<lparr>xs := (xs v)\<lparr>tagWord := tag_clr (xtop v) (tagWord (xs v))\<rparr>\<rparr>) s"
proof -
  have "unat (xtop v) < 8" using assms by (auto simp: rep_def word_rep_def unat_below)
  then show ?thesis using assms word_rep_tags [OF word_rep_weaken] regs_rep_words(2)
    by (auto simp: rep_def tag_rep_def dpops_def dpushes_def bit_tag_clr in_slots_def)
qed

lemma rep_flush_perm:
  assumes "rep C v s" "same_words v u" "\<forall>x < 8. R u x = R v (pn (perm C) x)"
  shows "rep (reset_perm C) u s"
proof -
  have w: "xtop u = xtop v" "controlWord (xs u) = controlWord (xs v)" "statusWord (xs u) = statusWord (xs v)"
    "tagWord (xs u) = tagWord (xs v)" "length (st (xs u)) = 8" using assms(2) by (auto simp: same_words_def) (metis X87State.ext_inject X87State.surjective X87State.update_convs(4))+
  have t: "topIndex (xs u) = topIndex (xs v)" using w(3) by (simp add: topIndex_def)
  have "perm_ok identity_perm" by (simp add: perm_ok_def distinct_map)
  then show ?thesis using assms(1,3) w t
    by (auto simp: rep_def word_rep_def tag_rep_def regs_rep_def reset_perm_def dpushes_def dpops_def slot_def)
qed

section \<open>Deferred pushes and pops\<close>

lemma top_and7: "xtop v < 8 \<Longrightarrow> (((xtop v - 1) AND 7) + (of_nat n + 1)) AND 7 = (xtop v + of_nat n) AND 7"
  "xtop v < 8 \<Longrightarrow> (((xtop v + 1) AND 7) + of_nat n) AND 7 = (xtop v + (of_nat n + 1)) AND 7"
proof -
  assume "xtop v < 8"
  have "(unat ((xtop v - 1) AND 7) + Suc n) mod 8 = (unat (xtop v) + n) mod 8"
    using succ_pred_slot(1) [of "xtop v"] by (metis add.commute add_Suc_shift mod_add_left_eq plus_1_eq_Suc)
  then show "(((xtop v - 1) AND 7) + (of_nat n + 1)) AND 7 = (xtop v + of_nat n) AND 7"
    using unat_slot [of "(xtop v - 1) AND 7" "Suc n"] unat_slot [of "xtop v" n] by (simp add: word_unat_eq_iff add.commute)
  have "(unat ((xtop v + 1) AND 7) + n) mod 8 = (unat (xtop v) + Suc n) mod 8" by (simp add: succ_pred_slot(2) mod_simps)
  then show "(((xtop v + 1) AND 7) + of_nat n) AND 7 = (xtop v + (of_nat n + 1)) AND 7"
    using unat_slot [of "(xtop v + 1) AND 7" n] unat_slot [of "xtop v" "Suc n"] by (simp add: word_unat_eq_iff add.commute)
qed

text \<open>The slot a push would use is empty.\<close>

definition room :: "X87State \<Rightarrow> bool" where
  "room s \<longleftrightarrow> (\<forall>i < 16. i div 2 = unat ((topIndex s - 1) AND 7) \<longrightarrow> bit (tagWord s) i)"

lemma in_slots_pushed: "in_slots (unat ((t - 1) AND 7)) (Suc n) q \<longleftrightarrow> q = unat ((t - 1) AND 7) \<or> in_slots (unat t) n q" for t :: u32
proof -
  have "in_slots (Suc (unat ((t - 1) AND 7))) n q = in_slots (unat t) n q"
    using in_slots_mod [of "Suc (unat ((t - 1) AND 7))" n q] in_slots_mod [of "unat t" n q] succ_pred_slot(1) [of t] by simp
  then show ?thesis by (simp add: in_slots_front)
qed

lemma rep_push:
  assumes "rep C v s" "dpops C = 0" "dpushes C < 8" "dpushes C = 0 \<Longrightarrow> top_dirty C = 0" "perm C = identity_perm" "0 \<le> deferred_push_count C" "room s"
  shows "rep (C\<lparr>top_dirty := 1, deferred_push_count := deferred_push_count C + 1\<rparr>) (v\<lparr>xtop := (xtop v - 1) AND 7\<rparr>) (push s)"
proof -
  let ?C = "C\<lparr>top_dirty := 1, deferred_push_count := deferred_push_count C + 1\<rparr>"
  let ?u = "(xtop v - 1) AND 7" and ?n = "dpushes C"
  have n: "dpushes ?C = Suc ?n" "dpops ?C = 0" using assms(2,6) by (simp_all add: dpushes_def dpops_def nat_add_distrib)
  note t = rep_top [OF assms(1)]
  have x: "xtop v < 8" using assms(1) by (simp add: rep_def word_rep_def)
  have "topIndex (xs v) = (xtop v + of_nat ?n) AND 7"
    using assms(1,4) x by (cases "?n = 0") (auto simp: rep_def word_rep_def and7_id)
  then have "word_rep True (Suc ?n) (v\<lparr>xtop := ?u\<rparr>) (push s)" using assms(1) top_and7(1) [OF x, of ?n]
    by (simp add: rep_def word_rep_def push_words t add.commute)
  moreover have "tag_rep (Suc ?n) 0 (v\<lparr>xtop := ?u\<rparr>) (push s)"
  proof -
    have b: "bit (tagWord (push s)) i \<longleftrightarrow> bit (tagWord s) i \<and> i div 2 \<noteq> unat ?u" for i by (simp add: push_words t bit_tag_clr)
    show ?thesis using assms(1-3,7) unfolding tag_rep_def rep_def room_def by (auto simp: b in_slots_pushed t)
  qed
  moreover have "regs_rep identity_perm (v\<lparr>xtop := ?u\<rparr>) (push s)" using assms(1,5) by (simp add: rep_def regs_rep_id push_words)
  ultimately show ?thesis using assms(5) n by (simp add: rep_def)
qed

lemma in_slots_popped: "t < 8 \<Longrightarrow> in_slots (unat t) (Suc n) q \<longleftrightarrow> q = unat t \<or> in_slots (unat ((t + 1) AND 7)) n q" for t :: u32
  using in_slots_mod [of "Suc (unat t)" n q] unat_below [of t] by (simp add: in_slots_front succ_pred_slot(2))

lemma not_in_slots_popped: "t < 8 \<Longrightarrow> n < 8 \<Longrightarrow> \<not> in_slots (unat ((t + 1) AND 7)) n (unat t)" for t :: u32
proof
  assume h: "t < 8" "n < 8" "in_slots (unat ((t + 1) AND 7)) n (unat t)"
  then obtain j where j: "j < n" "unat t = (unat t + 1 + j) mod 8" by (auto simp: in_slots_def succ_pred_slot(2) mod_simps)
  have "(0 + unat t) mod 8 = (1 + j + unat t) mod 8" using j(2) unat_below [OF h(1)] by (simp add: add.commute add.left_commute)
  then have "(0 :: nat) mod 8 = (1 + j) mod 8" by (rule mod8_cancel)
  then show False using j(1) h(2) by simp
qed

lemma rep_pop_cancel:
  assumes "rep C v s" "0 < deferred_push_count C" "perm C = identity_perm"
  shows "rep (C\<lparr>deferred_push_count := deferred_push_count C - 1, top_dirty := (if deferred_push_count C - 1 = 0 then 0 else top_dirty C)\<rparr>)
    (v\<lparr>xtop := (xtop v + 1) AND 7\<rparr>) (pop_keep s)"
proof -
  let ?C = "C\<lparr>deferred_push_count := deferred_push_count C - 1, top_dirty := (if deferred_push_count C - 1 = 0 then 0 else top_dirty C)\<rparr>"
  let ?u = "(xtop v + 1) AND 7"
  define n where "n = nat (deferred_push_count C - 1)"
  have n: "dpushes C = Suc n" "dpushes ?C = n" "deferred_push_count C = int n + 1" using assms(2) by (auto simp: dpushes_def n_def)
  note t = rep_top [OF assms(1)]
  have x: "xtop v < 8" using assms(1) by (simp add: rep_def word_rep_def)
  have k: "dpops C = 0" "n < 8" using assms(1) n by (auto simp: rep_def tag_rep_def)
  have "word_rep (top_dirty ?C \<noteq> 0) n (v\<lparr>xtop := ?u\<rparr>) (pop_keep s)" using assms(1) n x top_and7(2) [OF x, of n] top_and7(2) [OF x, of 0]
    by (auto simp: rep_def word_rep_def pop_words t and.assoc add.commute)
  moreover have "tag_rep n 0 (v\<lparr>xtop := ?u\<rparr>) (pop_keep s)"
  proof -
    have b: "bit (tagWord (pop_keep s)) i \<longleftrightarrow> bit (tagWord s) i \<or> i div 2 = unat (xtop v)" for i
      using unat_below [OF x] by (simp add: pop_words t bit_tag_set)
    show ?thesis using assms(1) k not_in_slots_popped [OF x k(2)] unfolding tag_rep_def rep_def n(1)
      by (auto simp: b in_slots_popped [OF x])
  qed
  moreover have "regs_rep identity_perm (v\<lparr>xtop := ?u\<rparr>) (pop_keep s)" using assms(1,3) by (simp add: rep_def regs_rep_id pop_words)
  ultimately show ?thesis using n(2) k(1) assms(3) by (simp add: rep_def dpops_def)
qed

lemma rep_pop_defer:
  assumes "rep C v s" "deferred_push_count C = 0" "0 \<le> deferred_pop_count C" "perm C = identity_perm"
  shows "rep (C\<lparr>deferred_pop_count := deferred_pop_count C + 1, top_dirty := 1\<rparr>) (v\<lparr>xtop := (xtop v + 1) AND 7\<rparr>) (pop_keep s)"
proof -
  let ?C = "C\<lparr>deferred_pop_count := deferred_pop_count C + 1, top_dirty := 1\<rparr>"
  let ?u = "(xtop v + 1) AND 7" and ?k = "dpops C"
  have n: "dpushes C = 0" "dpushes ?C = 0" "dpops ?C = Suc ?k" using assms(2,3) by (simp_all add: dpushes_def dpops_def nat_add_distrib)
  note t = rep_top [OF assms(1)]
  have x: "xtop v < 8" using assms(1) by (simp add: rep_def word_rep_def)
  have "word_rep True 0 (v\<lparr>xtop := ?u\<rparr>) (pop_keep s)" using assms(1)
    by (simp add: rep_def word_rep_def pop_words t and.assoc)
  moreover have "tag_rep 0 (Suc ?k) (v\<lparr>xtop := ?u\<rparr>) (pop_keep s)"
  proof -
    have b: "bit (tagWord (pop_keep s)) i \<longleftrightarrow> bit (tagWord s) i \<or> i div 2 = unat (xtop v)" for i
      using unat_below [OF x] by (simp add: pop_words t bit_tag_set)
    have "(unat ?u + 7 * Suc ?k) mod 8 = (unat (xtop v) + 7 * ?k) mod 8"
    proof -
      have "(unat ?u + 7 * Suc ?k) mod 8 = (unat (xtop v) + 1 + 7 * Suc ?k) mod 8" unfolding succ_pred_slot(2) by (rule mod_add_left_eq)
      then show ?thesis by simp
    qed
    then have "in_slots (unat ?u + 7 * Suc ?k) (Suc ?k) q = in_slots (unat (xtop v) + 7 * ?k) (Suc ?k) q" for q
      using in_slots_mod [of "unat ?u + 7 * Suc ?k" "Suc ?k" q] in_slots_mod [of "unat (xtop v) + 7 * ?k" "Suc ?k" q] by simp
    moreover have "(unat (xtop v) + 7 * ?k + ?k) mod 8 = unat (xtop v)" using unat_below [OF x] by simp
    ultimately have "in_slots (unat ?u + 7 * Suc ?k) (Suc ?k) q \<longleftrightarrow> in_slots (unat (xtop v) + 7 * ?k) ?k q \<or> q = unat (xtop v)" for q
      by (simp only: in_slots_back)
    then show ?thesis using assms(1) n unfolding tag_rep_def rep_def by (auto simp: b)
  qed
  moreover have "regs_rep identity_perm (v\<lparr>xtop := ?u\<rparr>) (pop_keep s)" using assms(1,4) by (simp add: rep_def regs_rep_id pop_words)
  ultimately show ?thesis using n assms(4) by (simp add: rep_def)
qed

section \<open>Registers\<close>

abbreviation st_at :: "X87State \<Rightarrow> nat \<Rightarrow> u64" where
  "st_at s i \<equiv> st s ! ((unat (topIndex s) + i) mod 8)"

definition st_upd :: "X87State \<Rightarrow> nat \<Rightarrow> u64 \<Rightarrow> X87State" where
  "st_upd s i x = s\<lparr>st := (st s)[(unat (topIndex s) + i) mod 8 := x]\<rparr>"

lemma rep_load: "rep C v s \<Longrightarrow> i < 8 \<Longrightarrow> R v (pn (perm C) i) = st_at s i"
  using rep_top [of C v s] by (auto simp: rep_def regs_rep_def slot_def)

lemma perm_okD: "perm_ok p \<Longrightarrow> i < 8 \<Longrightarrow> pn p i < 8" "perm_ok p \<Longrightarrow> i < 8 \<Longrightarrow> j < 8 \<Longrightarrow> pn p i = pn p j \<longleftrightarrow> i = j"
  "perm_ok p \<Longrightarrow> i < 8 \<Longrightarrow> int (pn p i) = p ! i"
  by (auto simp: perm_ok_def eq_nat_nat_iff nth_eq_iff_index_eq nat_less_iff)

lemma rep_store:
  assumes "rep C v s" "i < 8"
  shows "rep C (v\<lparr>xs := (xs v)\<lparr>st := (st (xs v))[slot v (pn (perm C) i) := x]\<rparr>\<rparr>) (st_upd s i x)"
proof -
  let ?v = "v\<lparr>xs := (xs v)\<lparr>st := (st (xs v))[slot v (pn (perm C) i) := x]\<rparr>\<rparr>"
  have p: "perm_ok (perm C)" "length (st s) = 8" "length (st (xs v)) = 8" using assms(1) by (auto simp: rep_def regs_rep_def)
  have l: "slot v j < 8" for j by (simp add: slot_def)
  have u: "st_upd s i x = s\<lparr>st := (st s)[slot v i := x]\<rparr>" using rep_top [OF assms(1)] by (simp add: st_upd_def slot_def)
  have "R ?v (pn (perm C) j) = (if j = i then x else R v (pn (perm C) j))" if "j < 8" for j
    using slot_eq [OF perm_okD(1) [OF p(1) assms(2)] perm_okD(1) [OF p(1) that], of v] perm_okD(2) [OF p(1) assms(2) that] p l
    by (auto simp: R_def nth_list_update)
  moreover have "slot v i = slot v j \<longleftrightarrow> i = j" if "j < 8" for j using slot_eq [OF assms(2) that] .
  ultimately have "regs_rep (perm C) ?v (st_upd s i x)" using assms p l
    by (auto simp: u rep_def regs_rep_def nth_list_update)
  moreover have "topIndex (xs ?v) = topIndex (xs v)" by (simp add: topIndex_def)
  ultimately show ?thesis using assms(1) by (simp add: rep_def word_rep_def tag_rep_def u)
qed

text \<open>An exchange is a swap in the permutation.\<close>

definition xchg :: "X87State \<Rightarrow> nat \<Rightarrow> X87State" where
  "xchg s i = st_upd (st_upd s 0 (st_at s i)) i (st_at s 0)"

lemma rep_xchg:
  assumes "rep C v s" "d < 8"
  shows "rep (C\<lparr>perm := (perm C)[0 := perm C ! d, d := perm C ! 0], perm_dirty := 1\<rparr>) v (xchg s d)"
proof -
  let ?p = "(perm C)[0 := perm C ! d, d := perm C ! 0]"
  have p: "perm_ok (perm C)" "length (perm C) = 8" "length (st s) = 8" "length (st (xs v)) = 8" using assms(1) by (auto simp: rep_def regs_rep_def perm_ok_def)
  have q: "?p ! j = perm C ! (if j = d then 0 else if j = 0 then d else j)" if "j < 8" for j
    using that p(2) assms(2) by (auto simp: nth_list_update)
  have "perm_ok ?p"
    using p(1,2) assms(2) unfolding perm_ok_def by (auto simp: q distinct_swap) 
  moreover have "xchg s d = s\<lparr>st := (st s)[slot v 0 := st s ! slot v d, slot v d := st s ! slot v 0]\<rparr>"
    using rep_top [OF assms(1)] by (simp add: xchg_def st_upd_def slot_def topIndex_def)
  moreover have "((st s)[slot v 0 := st s ! slot v d, slot v d := st s ! slot v 0]) ! slot v j =
      st s ! slot v (if j = d then 0 else if j = 0 then d else j)" if "j < 8" for j
    using that p(3) assms(2) slot_eq [of j d v] slot_eq [of j 0 v] by (auto simp: nth_list_update slot_def)
  ultimately have "regs_rep ?p v (xchg s d)" using assms p by (auto simp: rep_def regs_rep_def q)
  then show ?thesis using assms(1) by (simp add: rep_def word_rep_def tag_rep_def xchg_def st_upd_def dpushes_def dpops_def)
qed

end
