(* ===== verification/Driver.thy ===== *)
theory Driver
  imports DirectX87 BridgeDemand
begin

text \<open>
  The entry point of the translator (\<open>Translator.cpp\<close>): keeping track of runs, the choice between the
  IR pipeline, the fused pairs and the single translations, and what is left to the original
  translator. The lowering of the IR and the fused pairs are arguments.
\<close>

section \<open>ARPL\<close>

definition translate_arpl :: "IRInstr \<Rightarrow> TranslationResult \<Rightarrow> TranslationResult option" where
  "translate_arpl i t = do {
     let W_src = int (odepth (operand1 i));
     let dst_is_reg = is_reg (operand0 i);
     (Wsave, t1) \<leftarrow> tr_alloc_free_gpr t;
     (Wa, t2) \<leftarrow> tr_alloc_free_gpr t1;
     (Wb, t3) \<leftarrow> tr_alloc_free_gpr t2;
     (Wc, t4) \<leftarrow> tr_alloc_free_gpr t3;
     let t5 = emit (emit_bitfield 0 2 0 0 1 W_src Wb) t4;
     (addr_reg, dst, t6) \<leftarrow> (if dst_is_reg then Some (XZR, int (odepth (operand0 i)), t5)
       else do {
         (a, u) \<leftarrow> compute_operand_address 1 (operand0 i) XZR t5;
         (d, u1) \<leftarrow> tr_alloc_free_gpr u;
         Some (a, d, emit (emit_ldr_str_imm 1 0 1 0 a d) u1) });
     let t7 = emit (emit_mrs_nzcv Wsave @ emit_bitfield 0 2 0 0 1 dst Wa @ emit_subs_reg 0 Wa Wb XZR @ emit_cset 0 3 Wc @
       emit_bitfield 0 1 0 2 0 Wc Wsave @ emit_msr_nzcv Wsave @ emit_cbz 0 0 Wc 2 @ emit_bitfield 0 1 0 0 1 Wb dst) t6;
     t8 \<leftarrow> (if dst_is_reg then Some t7
            else do { u \<leftarrow> tr_free_gpr dst (emit (emit_ldr_str_imm 1 0 0 0 addr_reg dst) t7); tr_free_gpr addr_reg u });
     t9 \<leftarrow> tr_free_gpr Wc t8;
     t10 \<leftarrow> tr_free_gpr Wb t9;
     t11 \<leftarrow> tr_free_gpr Wa t10;
     tr_free_gpr Wsave t11 }"

section \<open>Single translations\<close>

record translator_options = x87_options +
  disable_x87_cache :: bool
  disabled_ops_mask :: u64
  run_bridge :: bool
  runtime_keepalive :: bool
  disable_x87_ir :: bool
  disabled_fusions_mask :: u64

text \<open>The switch over the opcode; \<open>None\<close> is the default case.\<close>

definition translate_single :: "'a translator_options_scheme \<Rightarrow> IRInstr \<Rightarrow> (TranslationResult \<Rightarrow> TranslationResult option) option" where
  "translate_single cfg0 i =
     (let op = opcode i; cfg = \<lparr>fast_round = fast_round cfg0, disable_deferred_fxch = disable_deferred_fxch cfg0\<rparr> in
      if op = kOpcodeName_fldz then Some translate_fldz
      else if op = kOpcodeName_fld1 then Some translate_fld1
      else if op = kOpcodeName_fldl2e then Some translate_fldl2e
      else if op = kOpcodeName_fldl2t then Some translate_fldl2t
      else if op = kOpcodeName_fldlg2 then Some translate_fldlg2
      else if op = kOpcodeName_fldln2 then Some translate_fldln2
      else if op = kOpcodeName_fldpi then Some translate_fldpi
      else if op = kOpcodeName_fld then Some (translate_fld i)
      else if op = kOpcodeName_fild then Some (translate_fild i)
      else if op = kOpcodeName_fadd then Some (translate_fadd i)
      else if op = kOpcodeName_faddp then Some (translate_faddp i)
      else if op = kOpcodeName_fiadd then Some (translate_fiadd i)
      else if List.member [kOpcodeName_fsub, kOpcodeName_fsubr] op then Some (translate_fsub i)
      else if List.member [kOpcodeName_fsubp, kOpcodeName_fsubrp] op then Some (translate_fsubp i)
      else if List.member [kOpcodeName_fdiv, kOpcodeName_fdivr] op then Some (translate_fdiv i)
      else if List.member [kOpcodeName_fdivp, kOpcodeName_fdivrp] op then Some (translate_fdivp i)
      else if List.member [kOpcodeName_fmul, kOpcodeName_fmulp] op then Some (translate_fmul i)
      else if List.member [kOpcodeName_fst, kOpcodeName_fst_stack, kOpcodeName_fstp, kOpcodeName_fstp_stack] op then Some (translate_fst i)
      else if op = kOpcodeName_fstsw then Some (translate_fstsw i)
      else if List.member [kOpcodeName_fcom, kOpcodeName_fcomp, kOpcodeName_fcompp, kOpcodeName_fucom, kOpcodeName_fucomp, kOpcodeName_fucompp] op
        then Some (translate_fcom i)
      else if op = kOpcodeName_fxch then Some (translate_fxch cfg i)
      else if op = kOpcodeName_fchs then Some translate_fchs
      else if op = kOpcodeName_fabs then Some translate_fabs
      else if op = kOpcodeName_fsqrt then Some translate_fsqrt
      else if op = kOpcodeName_fistp then Some (translate_fistp cfg i)
      else if op = kOpcodeName_fisttp then Some (translate_fisttp i)
      else if op = kOpcodeName_fidiv then Some (translate_fidiv i)
      else if op = kOpcodeName_fimul then Some (translate_fimul i)
      else if op = kOpcodeName_fisub then Some (translate_fisub i)
      else if op = kOpcodeName_fidivr then Some (translate_fidivr i)
      else if op = kOpcodeName_frndint then Some (translate_frndint cfg)
      else if List.member [kOpcodeName_fcomi, kOpcodeName_fcomip, kOpcodeName_fucomi, kOpcodeName_fucomip] op then Some (translate_fcomi i)
      else if op = kOpcodeName_ftst then Some translate_ftst
      else if op = kOpcodeName_fist then Some (translate_fist cfg i)
      else if op = kOpcodeName_fisubr then Some (translate_fisubr i)
      else if List.member [kOpcodeName_ficom, kOpcodeName_ficomp] op then Some (translate_ficom i)
      else if List.member [kOpcodeName_fcmovb, kOpcodeName_fcmovbe, kOpcodeName_fcmove, kOpcodeName_fcmovnb, kOpcodeName_fcmovnbe,
        kOpcodeName_fcmovne, kOpcodeName_fcmovu, kOpcodeName_fcmovnu] op then Some (translate_fcmov i)
      else if op = kOpcodeName_fldcw then Some (translate_fldcw i)
      else if op = kOpcodeName_fnstcw then Some (translate_fnstcw i)
      else if op = kOpcodeName_fnop then Some translate_fnop
      else if op = kOpcodeName_arpl then Some (translate_arpl i)
      else None)"

section \<open>One step of a block\<close>

definition upd_cache :: "(X87Cache \<Rightarrow> X87Cache) \<Rightarrow> TranslationResult \<Rightarrow> TranslationResult" where
  "upd_cache f t = t\<lparr>x87_cache := f (x87_cache t)\<rparr>"

text \<open>The pools after an instruction: everything free but the registers the cache pins.\<close>

definition reset_pools :: "TranslationResult \<Rightarrow> TranslationResult" where
  "reset_pools t = t\<lparr>free_gpr_mask := (if active (x87_cache t) then kGprScratchMask AND NOT (pinned_mask (x87_cache t)) else kGprScratchMask),
     free_fpr_mask := unoccupied_temporary_fprs t\<rparr>"

definition tick_reset :: "nat \<Rightarrow> TranslationResult \<Rightarrow> TranslationResult" where
  "tick_reset consumed t = reset_pools (upd_cache (tick ^^ consumed) t)"

definition release_carried :: "TranslationResult \<Rightarrow> TranslationResult" where
  "release_carried t =
     (if carried_any (x87_cache t)
      then let (c, m) = carried_release (x87_cache t) (free_gpr_mask t) in t\<lparr>x87_cache := c, free_gpr_mask := m\<rparr>
      else t)"

text \<open>The instruction goes to the original translator and nothing is known about the registers after it.\<close>

definition hand_back :: "TranslationResult \<Rightarrow> nat option \<times> TranslationResult" where
  "hand_back t = (None, t\<lparr>x87_cache := invalidate (x87_cache t), free_gpr_mask := kGprScratchMask, free_fpr_mask := unoccupied_temporary_fprs t\<rparr>)"

definition enter_run :: "'a translator_options_scheme \<Rightarrow> nat \<Rightarrow> IRInstr list \<Rightarrow> nat \<Rightarrow> TranslationResult \<Rightarrow> TranslationResult" where
  "enter_run cfg block ins idx t =
     (let t1 = (if extended_fpr_scratch t \<and> free_fpr_mask t = kFprScratchMask then t\<lparr>free_fpr_mask := kFprScratchMaskExt\<rparr> else t);
          t2 = (if block \<noteq> prev_block t1
                then t1\<lparr>x87_cache := invalidate (x87_cache t1), free_gpr_mask := kGprScratchMask, prev_block := block\<rparr> else t1);
          t3 = (if \<not> active (x87_cache t2) \<and> \<not> disable_x87_cache cfg
                then upd_cache (\<lambda>c. set_run c (int (lookahead gap_gpr_demand ins idx (disabled_ops_mask cfg) (run_bridge cfg) (runtime_keepalive cfg)))) t2
                else t2)
      in if (run_bridge cfg \<or> runtime_keepalive cfg) \<and> active (x87_cache t3)
         then t3\<lparr>free_gpr_mask := free_gpr_mask t3 AND NOT (pinned_mask (x87_cache t3))\<rparr> else t3)"

definition pop_count :: "u32 \<Rightarrow> nat" where
  "pop_count v = length (filter (bit v) [0..<32])"

definition bridge_gap :: "int \<Rightarrow> IRInstr \<Rightarrow> TranslationResult \<Rightarrow> nat option \<times> TranslationResult" where
  "bridge_gap need i t =
     (let t1 = (if carried_any (x87_cache t) then upd_cache (\<lambda>c. carried_drop_written c (gap_written_gpr_mask i)) t else t);
          have1 = pop_count (kGprScratchMask AND NOT (pinned_mask (x87_cache t1)));
          t2 = (if int have1 \<le> need then release_carried t1 else t1)
      in (None, tick_reset 1 t2))"

text \<open>The default case of the switch: kept-alive routines, bridged gaps, and everything else.\<close>

definition translate_other :: "'a translator_options_scheme \<Rightarrow> IRInstr \<Rightarrow> TranslationResult \<Rightarrow> (nat option \<times> TranslationResult) option" where
  "translate_other cfg i t =
     (case (if active (x87_cache t) \<and> runtime_keepalive cfg then runtime_keepalive_top_delta (opcode i) else None) of
        Some top_delta \<Rightarrow> map_option (\<lambda>u. (None, tick_reset 1 u)) (runtime_keepalive_flush top_delta (release_carried t))
      | None \<Rightarrow>
         (case (if active (x87_cache t) \<and> run_bridge cfg then gap_gpr_demand i else None) of
            Some need \<Rightarrow> Some (if need \<le> kMaxBridgeDemand then bridge_gap need i t else hand_back t)
          | None \<Rightarrow> Some (hand_back t)))"

definition translate_unfused :: "'a translator_options_scheme \<Rightarrow> IRInstr \<Rightarrow> nat \<Rightarrow> TranslationResult \<Rightarrow> (nat option \<times> TranslationResult) option" where
  "translate_unfused cfg i idx t =
     (if opcode_to_id_local (opcode i) \<noteq> kCount \<and> bit (disabled_ops_mask cfg) (opcode_to_id_local (opcode i)) then Some (hand_back t)
      else case translate_single cfg i of
        Some f \<Rightarrow> map_option (\<lambda>u. (Some (idx + 1), tick_reset 1 u)) (f t)
      | None \<Rightarrow> translate_other cfg i t)"

text \<open>
  \<open>compile_run\<close> gives the number of instructions it has translated, zero when it declines;
  \<open>try_peephole\<close> the number a fused pattern has translated. \<open>None\<close> as the first result hands the
  instruction to the original translator.
\<close>

definition translate_instruction ::
  "'a translator_options_scheme \<Rightarrow> (IRInstr list \<Rightarrow> nat \<Rightarrow> int \<Rightarrow> TranslationResult \<Rightarrow> (nat \<times> TranslationResult) option) \<Rightarrow>
   (u64 \<Rightarrow> IRInstr list \<Rightarrow> nat \<Rightarrow> TranslationResult \<Rightarrow> (nat option \<times> TranslationResult) option) \<Rightarrow>
   nat \<Rightarrow> IRInstr list \<Rightarrow> nat \<Rightarrow> TranslationResult \<Rightarrow> (nat option \<times> TranslationResult) option" where
  "translate_instruction cfg compile_run try_peephole block ins idx t = do {
     let t1 = enter_run cfg block ins idx t;
     let c = x87_cache t1;
     (ir_consumed, t2) \<leftarrow> (if \<not> disable_x87_ir cfg \<and> active c \<and> run_remaining c \<ge> 2
       then compile_run ins idx (run_remaining c) t1 else Some (0, t1));
     if 0 < ir_consumed then Some (Some (idx + ir_consumed), tick_reset ir_consumed t2)
     else do {
       let t3 = (if is_handled_x87 (opcode (ins ! idx)) then release_carried t2 else t2);
       (fused, t4) \<leftarrow> try_peephole (disabled_fusions_mask cfg) ins idx t3;
       (case fused of
          Some consumed \<Rightarrow> Some (Some (idx + consumed), tick_reset consumed t4)
        | None \<Rightarrow> translate_unfused cfg (ins ! idx) idx t4) } }"

end
