(* ===== verification/Spec2Isabelle.thy ===== *)
theory Spec2Isabelle
  imports X87Formats IROptExact BridgeImm BridgeFacts EmitX87Round DirectRep Driver
begin

text \<open>
  Verification of the x87 parts of \<open>rosettax87_jit\<close>: a replacement for the x87 floating-point
  emulation of an x86-on-ARM translator.

  \<^bold>\<open>The program.\<close> Guest x87 instructions reach the host in two ways. The \<^emph>\<open>runtime\<close>
  (\<open>rosetta_runtime/src/X87State.h\<close>, \<open>X87.cpp\<close>) is a library of one routine per instruction over a
  register file in memory: eight 64-bit registers in a rotating array, a status word with TOP and
  condition codes, a control word and two tag bits per register. The \<^emph>\<open>translator\<close>
  (\<open>rosetta_core/src\<close>) compiles runs of x87 instructions to host code: \<open>X87Cache.cpp\<close> finds a run and
  keeps track of registers cached over it, \<open>X87IRBuild.cpp\<close> turns it into a list of SSA nodes with a
  symbolic register stack, \<open>X87IROptimize.cpp\<close> rewrites that list and \<open>X87IRLower.cpp\<close> emits host
  instructions; instructions outside runs are emitted one by one or call the runtime.

  \<^bold>\<open>Theories.\<close>
  \<^item> \<open>Prelude\<close>: word types, bit-field lemmas, fact collections.
  \<^item> \<open>Fp64\<close>, \<open>Fp64Exact\<close>: double and single precision numbers as bit patterns, with exact rational
    values and round to nearest even; the host floating-point operations (C++ \<open>double\<close> arithmetic
    and the AArch64 instructions) are these definitions. Comparison and rounding are exact.
  \<^item> \<open>X87State\<close>: the register file, its accessors and the 80-bit conversion (\<open>X87State.h\<close>); the
    interface \<open>x87_register_stack\<close> of a push-down stack of tagged registers, interpreted on the
    checked and on the fast accessors.
  \<^item> \<open>X87Runtime\<close>: every routine of \<open>X87.cpp\<close>, and the routines as one machine (\<open>exec_op\<close>).
    The mathematical library is a record of parameters (\<open>libm\<close>).
  \<^item> \<open>X87RuntimeFacts\<close>: well-formedness, TOP, tags and control word over every routine; refinement of
    an abstract machine on a list of eight tagged registers.
  \<^item> \<open>X87Compare\<close>, \<open>X87Formats\<close>: condition codes of the compares and FXAM; integer stores, the 80-bit
    format and packed decimal.
  \<^item> \<open>IRTypes\<close>: opcodes, registers, operands and instructions of the translator.
  \<^item> \<open>X87Cache\<close>: the run cache and the run lookahead (\<open>X87Cache.h\<close>, \<open>X87Cache.cpp\<close>). The demand
    model of bridged instructions is an argument.
  \<^item> \<open>BridgeCost\<close>, \<open>BridgeDemand\<close>: the scratch-register demand of bridged instructions
    (\<open>X87BridgeDemand.cpp\<close>): costs, operand helpers, one definition per instruction family, the gate.
    \<open>BridgeImm\<close>: its immediate tests against the encodings. \<open>BridgeFacts\<close>: range, refusals, admissions.
  \<^item> \<open>X87IR\<close>, \<open>IRBuild\<close>: IR nodes and context (\<open>X87IR.h\<close>), every builder and the build loop
    (\<open>X87IRBuild.cpp\<close>). Read-only guest memory, which the code asks the kernel about, is an argument.
  \<^item> \<open>IRSem\<close>, \<open>IRBuildWf\<close>: the value of an IR program and the well-formedness of what is built.
  \<^item> \<open>IRSim\<close>, \<open>IRSteps\<close>, \<open>IRRefine\<close>, \<open>IRRun\<close>: the built IR against the runtime routines: a simulation
    relation, one lemma per builder, one per instruction, and the run as a whole.
  \<^item> \<open>IROptimize\<close>: every pass of \<open>X87IROptimize.cpp\<close> and their order.
  \<^item> \<open>IROptSem\<close>: what an IR program means to its observer (final slots, TOP, flags and stores) on a
    machine of value operations, and SSA facts about rewriting one node.
  \<^item> \<open>IROptCorrect\<close>, \<open>IROptPasses\<close>, \<open>IROptIdeal\<close>, \<open>IROptFusion\<close>: the interfaces \<open>rewrite_laws\<close> (laws of
    the host operations the bit-exact passes rely on) and \<open>ideal_laws\<close> (those the contracting passes
    rely on), and that each pass keeps the meaning of the program under them.
  \<^item> \<open>IROptExact\<close>: both interfaces interpreted, on the binary64 operations of \<open>Fp64\<close> and on rational
    arithmetic; \<open>optimize\<close> as a whole. The bit-exact theorem covers programs in which multiply-add
    fusion finds nothing and single precision is off; the rational one also covers multiply-add
    fusion and single-precision narrowing. Both ask that each FSTSW reads one compare of its own and
    that its TOP snapshot, which is kept where the passes expect a node number, collides with no node
    (\<open>stsw_program\<close>; two theorems give built programs on which this goes wrong). The single-precision
    arithmetic chains (\<open>chain_fix\<close>) are modelled and terminate; they change rounding by design.
  \<^item> \<open>A64Encode\<close>: the assembler (\<open>AssemblerHelpers.cpp\<close>), one definition per emitter, giving instruction
    words. \<open>A64Sem\<close>, \<open>A64Decode\<close>: a decoder for the instructions the emitters produce and, for each
    emitter, that decoding gives back the instruction and operands asked for. \<open>A64Exec\<close>: what the
    decoded instructions do to registers, flags and byte-addressed memory, and how code runs.
    \<open>A64Rules\<close>: one rule per emitter, and the x87 state as it lies in memory.
  \<^item> \<open>RegPool\<close>: the scratch-register pools (\<open>TranslatorHelpers.cpp\<close>).
  \<^item> \<open>EmitX87\<close>: the code sequences of \<open>TranslatorX87Helpers.cpp\<close>. \<open>EmitX87Facts\<close>: what it means that a
    sequence implements a change of the state in memory. \<open>EmitX87Stack\<close>, \<open>EmitX87Regs\<close>,
    \<open>EmitX87Flags\<close>, \<open>EmitX87Round\<close>: the sequences against the runtime's operations: push and pop with
    and without deferral, loads, stores and the permutation flush, compares, rounding dispatch, base
    address and TOP.

  \<^item> \<open>LogImm\<close>: the encoder of logical immediates (\<open>is_bitmask_immediate\<close>) and that it is exact.
  \<^item> \<open>Translation\<close>: the state of a translation (\<open>TranslationResult.h\<close>) as far as the x87 code uses it,
    and the rest of \<open>TranslatorHelpers.cpp\<close>: loading immediates, effective addresses, operand accesses
    and reads. \<open>LoadImm\<close>, \<open>OperandAddr\<close>: what the emitted code computes.

  \<^bold>\<open>The host.\<close> The decoder and the instruction semantics state the documented behaviour of the
  AArch64 instructions used: little-endian memory without faults, W writes that clear the upper half,
  floating point in the default mode (round to nearest even, no flush to zero). Registers 31 read as
  zero. Nothing is assumed of code outside a sequence but the distinctness of its registers and that
  the base register holds the address of the state.

  \<^bold>\<open>Bounds.\<close> The node table has 128 entries (\<open>kMaxNodes\<close>), a bridged gap at most 16 instructions
  (\<open>kMaxBridgeGap\<close>), as in the code. Fuel: \<open>run\<close> counts executed
  host instructions; the rounding dispatch needs at most six, which its theorem proves, and
  straight-line sequences use \<open>exec\<close>, which needs none. \<open>flush_cycle\<close> takes eight, the length of the
  longest cycle of eight registers, and its theorem proves that it returns. A slot index of eight or more is
  undefined behaviour in the code and a write without effect in the model.

  \<^bold>\<open>Not modelled.\<close> Lowering (\<open>X87IRLower.cpp\<close>) and the direct translator
  (\<open>TranslatorX87.cpp\<close>, \<open>TranslatorX87Fusion.cpp\<close>), which compose the modelled emitters; the loader, hooks, AOT invoker and runtime support are
  operating-system and binary-patching code; \<open>openlibm\<close> is vendored; opcode name tables and the
  configuration parser carry no logic the modelled parts depend on.
\<close>

end
